(* ===== verification/Prelude.thy ===== *)
theory Prelude
  imports Main "HOL-Library.AList"
begin

text \<open>
  Shared vocabulary of the development: 64-bit integer arithmetic as Go computes it, database
  tables as lists of rows with the handful of SQL shapes the code uses, transactions with
  rollback, and the text functions of Go's standard library.

  \<^item> A UUID is represented by its canonical text, so an account code built from it is an ordinary
    string concatenation. Freshly generated identifiers are arguments of the operations.
  \<^item> Instants and durations are integers in nanoseconds, as in Go's \<open>time\<close> package.
  \<^item> A fallible operation on a state returns a pair of a sum (\<open>Inl\<close> the error) and the state that
    is left behind, so that what an error leaves behind is part of the model.
  \<^item> Text is a list of characters, one per rune; byte lengths and rune lengths coincide (ASCII).
\<close>

named_theorems arith64 \<comment> \<open>facts that remove the 64-bit wrap-around where the value is in range\<close>
named_theorems table_simps \<comment> \<open>lookups in tables after inserts and updates\<close>
named_theorems frame_simps \<comment> \<open>fields an operation does not touch\<close>

section \<open>Identifiers, time, durations\<close>

type_synonym uuid = string
type_synonym time = int

definition uuid_Nil :: uuid where
  "uuid_Nil = ''00000000-0000-0000-0000-000000000000''"

abbreviation Second :: time where "Second \<equiv> 1000000000"
abbreviation Minute :: time where "Minute \<equiv> 60 * Second"
abbreviation Hour :: time where "Hour \<equiv> 60 * Minute"

section \<open>Signed 64-bit arithmetic\<close>

definition in64 :: "int \<Rightarrow> bool" where
  "in64 x \<longleftrightarrow> - 9223372036854775808 \<le> x \<and> x < 9223372036854775808"

definition wrap64 :: "int \<Rightarrow> int" where
  "wrap64 x = (x + 9223372036854775808) mod 18446744073709551616 - 9223372036854775808"

definition add64 :: "int \<Rightarrow> int \<Rightarrow> int" where "add64 a b = wrap64 (a + b)"
definition sub64 :: "int \<Rightarrow> int \<Rightarrow> int" where "sub64 a b = wrap64 (a - b)"
definition mul64 :: "int \<Rightarrow> int \<Rightarrow> int" where "mul64 a b = wrap64 (a * b)"
definition neg64 :: "int \<Rightarrow> int" where "neg64 a = wrap64 (- a)"

text \<open>Go's integer division truncates towards zero and its remainder has the dividend's sign.\<close>

definition quot :: "int \<Rightarrow> int \<Rightarrow> int" where
  "quot a b = wrap64 (sgn a * sgn b * (\<bar>a\<bar> div \<bar>b\<bar>))"

definition rem :: "int \<Rightarrow> int \<Rightarrow> int" where
  "rem a b = sgn a * (\<bar>a\<bar> mod \<bar>b\<bar>)"

lemma wrap64_id [arith64]: "in64 x \<Longrightarrow> wrap64 x = x"
  by (simp add: in64_def wrap64_def)

lemma wrap64_in64 [simp]: "in64 (wrap64 x)"
  by (simp add: in64_def wrap64_def)

lemma in64_bounded: "0 \<le> x \<Longrightarrow> x \<le> 9223372036854775807 \<Longrightarrow> in64 x"
  by (simp add: in64_def)

lemma add64_id [arith64]: "in64 (a + b) \<Longrightarrow> add64 a b = a + b"
  by (simp add: add64_def wrap64_id)

lemma sub64_id [arith64]: "in64 (a - b) \<Longrightarrow> sub64 a b = a - b"
  by (simp add: sub64_def wrap64_id)

lemma mul64_id [arith64]: "in64 (a * b) \<Longrightarrow> mul64 a b = a * b"
  by (simp add: mul64_def wrap64_id)

lemma div_bounds:
  assumes "0 < (b::int)"
  shows "b * (a div b) \<le> a" "a < b * (a div b) + b"
proof -
  have "b * (a div b) + a mod b = a" by simp
  moreover have "0 \<le> a mod b" "a mod b < b" using assms by auto
  ultimately show "b * (a div b) \<le> a" "a < b * (a div b) + b" by linarith+
qed

lemma div_self_bounds:
  assumes "0 \<le> (a::int)" "0 < b"
  shows "0 \<le> a div b" "a div b \<le> a"
proof -
  show "0 \<le> a div b" using assms by (simp add: pos_imp_zdiv_nonneg_iff)
  have "a div b \<le> a div 1" using assms by (intro zdiv_mono2) auto
  then show "a div b \<le> a" by simp
qed

lemma quot_nonneg [arith64]:
  assumes "0 \<le> a" "0 < b" "in64 a"
  shows "quot a b = a div b"
proof -
  have "in64 (a div b)" using div_self_bounds[OF assms(1,2)] assms(3) by (simp add: in64_def)
  then show ?thesis using assms(1,2) by (cases "a = 0") (simp_all add: quot_def wrap64_id)
qed

lemma quot_neg:
  assumes "a < 0" "0 < b" "in64 a"
  shows "quot a b = - ((- a) div b)"
proof -
  have "0 \<le> - a" using assms(1) by simp
  then have "in64 (- ((- a) div b))"
    using div_self_bounds[OF _ assms(2), of "- a"] assms(3) by (simp add: in64_def)
  then show ?thesis using assms(1,2) by (simp add: quot_def wrap64_id)
qed

section \<open>Tables\<close>

text \<open>
  A table is the list of its rows in insertion order. \<open>upd_where P f\<close> is
  \<open>UPDATE ... SET f WHERE P\<close>, \<open>count_where P\<close> is \<open>count(*) ... WHERE P\<close> (also the number of
  affected rows), \<open>exists_where P\<close> is \<open>EXISTS\<close>, and \<open>find P\<close> is the single-row \<open>SELECT\<close>.
\<close>

definition upd_where :: "('r \<Rightarrow> bool) \<Rightarrow> ('r \<Rightarrow> 'r) \<Rightarrow> 'r list \<Rightarrow> 'r list" where
  "upd_where P f t = map (\<lambda>r. if P r then f r else r) t"

definition count_where :: "('r \<Rightarrow> bool) \<Rightarrow> 'r list \<Rightarrow> nat" where
  "count_where P t = length (filter P t)"

definition exists_where :: "('r \<Rightarrow> bool) \<Rightarrow> 'r list \<Rightarrow> bool" where
  "exists_where P t = list_ex P t"

definition sum_where :: "('r \<Rightarrow> bool) \<Rightarrow> ('r \<Rightarrow> int) \<Rightarrow> 'r list \<Rightarrow> int" where
  "sum_where P f t = sum_list (map f (filter P t))"

lemma upd_where_Nil [table_simps]: "upd_where P f [] = []"
  by (simp add: upd_where_def)

lemma upd_where_Cons [table_simps]:
  "upd_where P f (r # t) = (if P r then f r else r) # upd_where P f t"
  by (simp add: upd_where_def)

lemma upd_where_append [table_simps]:
  "upd_where P f (t @ u) = upd_where P f t @ upd_where P f u"
  by (simp add: upd_where_def)

lemma length_upd_where [simp]: "length (upd_where P f t) = length t"
  by (simp add: upd_where_def)

lemma set_upd_where: "set (upd_where P f t) = f ` {r \<in> set t. P r} \<union> {r \<in> set t. \<not> P r}"
  by (auto simp: upd_where_def)

lemma map_upd_where [simp]:
  "(\<And>r. g (f r) = g r) \<Longrightarrow> map g (upd_where P f t) = map g t"
  by (simp add: upd_where_def)

lemma find_upd_where:
  assumes "\<And>r. Q (f r) = Q r"
  shows "find Q (upd_where P f t) = map_option (\<lambda>r. if P r then f r else r) (find Q t)"
  using assms by (induction t) (auto simp: upd_where_def)

lemma find_append: "find Q (t @ u) = (case find Q t of None \<Rightarrow> find Q u | Some r \<Rightarrow> Some r)"
  by (induction t) auto

lemma find_SomeD: "find Q t = Some r \<Longrightarrow> r \<in> set t \<and> Q r"
  by (induction t) (auto split: if_splits)

lemma find_None_iff_all: "find Q t = None \<longleftrightarrow> (\<forall>r \<in> set t. \<not> Q r)"
  by (induction t) auto

lemma exists_where_iff: "exists_where P t \<longleftrightarrow> (\<exists>r \<in> set t. P r)"
  by (simp add: exists_where_def list_ex_iff)

lemma count_where_0_iff: "count_where P t = 0 \<longleftrightarrow> (\<forall>r \<in> set t. \<not> P r)"
  by (simp add: count_where_def filter_empty_conv)

lemma count_where_Nil [table_simps]: "count_where P [] = 0"
  by (simp add: count_where_def)

lemma count_where_append [table_simps]: "count_where P (t @ u) = count_where P t + count_where P u"
  by (simp add: count_where_def)

lemma count_where_Cons [table_simps]:
  "count_where P (r # t) = (if P r then Suc (count_where P t) else count_where P t)"
  by (simp add: count_where_def)

lemma sum_where_Nil [table_simps]: "sum_where P f [] = 0"
  by (simp add: sum_where_def)

lemma sum_where_Cons [table_simps]:
  "sum_where P f (r # t) = (if P r then f r else 0) + sum_where P f t"
  by (simp add: sum_where_def)

lemma sum_where_append [table_simps]:
  "sum_where P f (t @ u) = sum_where P f t + sum_where P f u"
  by (simp add: sum_where_def)

lemma sum_where_False: "\<forall>r \<in> set t. \<not> P r \<Longrightarrow> sum_where P f t = 0"
  by (induction t) (auto simp: table_simps)

lemma sum_where_diff:
  "sum_where P f t - sum_where P g t = sum_where P (\<lambda>r. f r - g r) t"
  by (induction t) (auto simp: table_simps)

lemma sum_list_indicator:
  assumes "distinct ks" "k \<in> set ks"
  shows "sum_list (map (\<lambda>k'. if k' = k then (x::int) else 0) ks) = x"
  using assms
proof (induction ks)
  case (Cons a ks)
  have "k \<notin> set ks \<Longrightarrow> sum_list (map (\<lambda>k'. if k' = k then x else 0) ks) = 0"
    by (induction ks) auto
  with Cons show ?case by auto
qed simp

text \<open>A sum over rows can be taken key by key, when the keys listed cover the rows once each.\<close>

lemma sum_by_key:
  assumes "distinct ks" "\<forall>r \<in> set t. key r \<in> set ks"
  shows "sum_list (map (\<lambda>k. sum_where (\<lambda>r. key r = k) f t) ks) = sum_list (map f t)"
  using assms(2)
proof (induction t)
  case Nil
  have "sum_list (map (\<lambda>k. 0::int) ks) = 0" by (induction ks) auto
  then show ?case by (simp add: table_simps)
next
  case (Cons r t)
  have "(\<lambda>k. sum_where (\<lambda>r. key r = k) f (r # t))
      = (\<lambda>k. (if k = key r then f r else 0) + sum_where (\<lambda>r. key r = k) f t)"
    by (auto simp: table_simps)
  then show ?case
    using Cons assms(1) by (simp add: sum_list_addf sum_list_indicator)
qed

lemma find_key_unique:
  assumes "distinct (map k t)" "r \<in> set t" "find (\<lambda>x. k x = k r) t = Some r'"
  shows "r' = r"
  using assms by (induction t) (auto split: if_splits dest: find_SomeD)

lemma find_key:
  assumes "distinct (map k t)" "r \<in> set t"
  shows "find (\<lambda>x. k x = k r) t = Some r"
  using assms by (induction t) (auto split: if_splits)

lemma in_set_map_filter:
  "y \<in> set (List.map_filter f xs) \<longleftrightarrow> (\<exists>x \<in> set xs. f x = Some y)"
  by (induction xs) (auto simp: List.map_filter_simps split: option.splits)

lemma distinct_keyD: "distinct (map k t) \<Longrightarrow> x \<in> set t \<Longrightarrow> y \<in> set t \<Longrightarrow> k x = k y \<Longrightarrow> x = y"
  by (auto simp: distinct_map inj_on_def)

text \<open>
  A partial unique index: rows whose key is defined and equal are the same row, as told by \<open>i\<close>.
\<close>

definition unique_index :: "('r \<Rightarrow> uuid) \<Rightarrow> ('r \<Rightarrow> 'k option) \<Rightarrow> 'r list \<Rightarrow> bool" where
  "unique_index i k t \<longleftrightarrow> (\<forall>x \<in> set t. \<forall>y \<in> set t. k x \<noteq> None \<longrightarrow> k x = k y \<longrightarrow> i x = i y)"

lemma unique_index_append:
  assumes "unique_index i k t" "k r \<noteq> None \<Longrightarrow> \<forall>x \<in> set t. k x \<noteq> k r"
  shows "unique_index i k (t @ [r])"
  using assms unfolding unique_index_def by (metis Un_iff empty_iff empty_set insert_iff list.set(2) set_append)

lemma unique_index_replace:
  assumes "unique_index i k t" "i r' = j" "k r' \<noteq> None \<Longrightarrow> \<forall>x \<in> set t. i x \<noteq> j \<longrightarrow> k x \<noteq> k r'"
  shows "unique_index i k (upd_where (\<lambda>x. i x = j) (\<lambda>_. r') t)"
  unfolding unique_index_def
proof (intro ballI impI)
  fix x y assume x: "x \<in> set (upd_where (\<lambda>x. i x = j) (\<lambda>_. r') t)" and y: "y \<in> set (upd_where (\<lambda>x. i x = j) (\<lambda>_. r') t)"
    and k: "k x \<noteq> None" "k x = k y"
  have "x = r' \<or> x \<in> set t \<and> i x \<noteq> j" "y = r' \<or> y \<in> set t \<and> i y \<noteq> j"
    using x y by (auto simp: set_upd_where)
  then show "i x = i y"
  proof (elim disjE conjE)
    assume "x = r'" "y \<in> set t" "i y \<noteq> j" then show ?thesis using assms(3) k by metis
  next
    assume "y = r'" "x \<in> set t" "i x \<noteq> j" then show ?thesis using assms(3) k by metis
  next
    assume "x \<in> set t" "y \<in> set t" then show ?thesis using assms(1) k unfolding unique_index_def by blast
  qed simp
qed

lemma unique_index_update:
  assumes "unique_index i k t" "\<And>x. i (f x) = i x" "\<And>x. k (f x) = k x"
  shows "unique_index i k (upd_where P f t)"
proof -
  have "\<exists>x' \<in> set t. i x = i x' \<and> k x = k x'" if "x \<in> set (upd_where P f t)" for x
    using that assms(2,3) by (auto simp: set_upd_where)
  then show ?thesis using assms(1) unfolding unique_index_def by metis
qed

section \<open>Transactions\<close>

text \<open>
  \<open>pgx.BeginFunc\<close>: the body runs on the state; when it returns an error the transaction is rolled
  back and nothing the body wrote survives, otherwise it is committed.
\<close>

type_synonym ('s, 'e, 'a) op = "'s \<Rightarrow> ('e + 'a) \<times> 's"

definition begin_func :: "('s, 'e, 'a) op \<Rightarrow> ('s, 'e, 'a) op" where
  "begin_func body s =
     (case body s of (Inl e, _) \<Rightarrow> (Inl e, s) | (Inr a, s') \<Rightarrow> (Inr a, s'))"

lemma fst_begin_func [simp]: "fst (begin_func body s) = fst (body s)"
  by (simp add: begin_func_def split: prod.splits sum.splits)

lemma begin_func_rollback: "begin_func body s = (Inl e, s') \<Longrightarrow> s' = s"
  by (auto simp: begin_func_def split: prod.splits sum.splits)

lemma begin_func_commit: "begin_func body s = (Inr a, s') \<longleftrightarrow> body s = (Inr a, s')"
  by (auto simp: begin_func_def split: prod.splits sum.splits)

lemma begin_func_Inl_iff: "begin_func body s = (Inl e, s') \<longleftrightarrow> (fst (body s) = Inl e \<and> s' = s)"
  by (auto simp: begin_func_def split: prod.splits sum.splits)

text \<open>What a handler answers after its transaction does not touch the state.\<close>

lemma snd_answer [simp]:
  "snd (case p of (Inl e, s1) \<Rightarrow> (Inl e, s1) | (Inr a, s1) \<Rightarrow> (Inr (f a s1), s1)) = snd p"
  by (simp split: prod.split sum.split)

lemma begin_func_cases:
  obtains (rollback) e where "fst (body s) = Inl e" "begin_func body s = (Inl e, s)"
  | (commit) a s' where "body s = (Inr a, s')" "begin_func body s = (Inr a, s')"
  by (cases "body s"; cases "fst (body s)") (auto simp: begin_func_def)

lemma snd_begin_func_inv:
  assumes "P s" and "\<And>a s'. body s = (Inr a, s') \<Longrightarrow> P s'"
  shows "P (snd (begin_func body s))"
  using assms by (cases body s rule: begin_func_cases) auto

section \<open>Text\<close>

definition is_space :: "char \<Rightarrow> bool" where
  "is_space c \<longleftrightarrow> c \<in> {CHR '' '', CHR 0x09, CHR 0x0A, CHR 0x0B, CHR 0x0C, CHR 0x0D}"

definition TrimSpace :: "string \<Rightarrow> string" where
  "TrimSpace s = rev (dropWhile is_space (rev (dropWhile is_space s)))"

lemma TrimSpace_id: "\<forall>c \<in> set s. \<not> is_space c \<Longrightarrow> TrimSpace s = s"
proof -
  have "\<forall>c \<in> set xs. \<not> is_space c \<Longrightarrow> dropWhile is_space xs = xs" for xs by (cases xs) auto
  from this[of s] this[of "rev s"] show "\<forall>c \<in> set s. \<not> is_space c \<Longrightarrow> TrimSpace s = s" by (simp add: TrimSpace_def)
qed

text \<open>\<open>strings.Fields\<close>: the maximal runs of non-space characters; and the joining with one blank.\<close>

fun split_fields :: "string \<Rightarrow> string \<Rightarrow> string list" where
  "split_fields acc [] = (if acc = [] then [] else [rev acc])"
| "split_fields acc (c # cs) =
     (if is_space c then (if acc = [] then split_fields [] cs else rev acc # split_fields [] cs)
      else split_fields (c # acc) cs)"

definition Fields :: "string \<Rightarrow> string list" where "Fields s = split_fields [] s"

fun join_with :: "string \<Rightarrow> string list \<Rightarrow> string" where
  "join_with sep [] = []"
| "join_with sep [w] = w"
| "join_with sep (w # ws) = w @ sep @ join_with sep ws"

definition squash :: "string \<Rightarrow> string" where "squash s = join_with '' '' (Fields s)"

definition is_upper :: "char \<Rightarrow> bool" where "is_upper c \<longleftrightarrow> 65 \<le> (of_char c :: nat) \<and> (of_char c :: nat) \<le> 90"
definition is_lower :: "char \<Rightarrow> bool" where "is_lower c \<longleftrightarrow> 97 \<le> (of_char c :: nat) \<and> (of_char c :: nat) \<le> 122"
definition is_digit :: "char \<Rightarrow> bool" where "is_digit c \<longleftrightarrow> 48 \<le> (of_char c :: nat) \<and> (of_char c :: nat) \<le> 57"

definition to_upper :: "char \<Rightarrow> char" where
  "to_upper c = (if is_lower c then char_of ((of_char c :: nat) - 32) else c)"

definition to_lower :: "char \<Rightarrow> char" where
  "to_lower c = (if is_upper c then char_of ((of_char c :: nat) + 32) else c)"

lemma to_upper_no_lower: "\<not> is_lower (to_upper c)"
  by (auto simp: to_upper_def is_lower_def)

lemma to_upper_idem [simp]: "to_upper (to_upper c) = to_upper c"
  using to_upper_no_lower[of c] by (simp add: to_upper_def)

definition nullable :: "string \<Rightarrow> string option" where
  "nullable s = (if s = '''' then None else Some s)"

text \<open>
  A string is the bytes of its text in UTF-8; what the JSON decoder hands over is always well formed. A
  character starts at every byte that is not a continuation byte (10xxxxxx). \<open>RuneCount\<close> is
  \<open>utf8.RuneCountInString\<close> and \<open>take_runes n\<close> is \<open>string([]rune(s)[:n])\<close> for a text of more than \<open>n\<close>
  characters.
\<close>

definition rune_start :: "char \<Rightarrow> bool" where [simp]: "rune_start c \<longleftrightarrow> \<not> (digit7 c \<and> \<not> digit6 c)"

fun RuneCount :: "string \<Rightarrow> nat" where
  "RuneCount [] = 0"
| "RuneCount (c # cs) = (if rune_start c then Suc (RuneCount cs) else RuneCount cs)"

fun take_runes :: "nat \<Rightarrow> string \<Rightarrow> string" where
  "take_runes n [] = []"
| "take_runes n (c # cs) =
     (if rune_start c then (case n of 0 \<Rightarrow> [] | Suc m \<Rightarrow> c # take_runes m cs) else c # take_runes n cs)"

lemma RuneCount_le_length: "RuneCount s \<le> length s"
  by (induction s) auto

lemma RuneCount_append [simp]: "RuneCount (s @ t) = RuneCount s + RuneCount t"
  by (induction s) auto

lemma RuneCount_take_runes: "n \<le> RuneCount s \<Longrightarrow> RuneCount (take_runes n s) = n"
proof (induction n s rule: take_runes.induct)
  case (2 n c cs)
  then show ?case by (cases n) auto
qed simp

text \<open>The cut falls between two characters: it is a prefix, and the rest starts a character.\<close>

lemma take_runes_prefix: "\<exists>rest. s = take_runes n s @ rest \<and> (rest = [] \<or> rune_start (hd rest))"
proof (induction n s rule: take_runes.induct)
  case (2 n c cs)
  show ?case
  proof (cases n)
    case 0
    then show ?thesis using "2.IH"(2) by (cases "rune_start c") auto
  next
    case (Suc m)
    then show ?thesis using "2.IH" by (cases "rune_start c") auto
  qed
qed simp

text \<open>The modules' \<open>clip\<close> (also called \<open>clean\<close>): one blank between words, at most \<open>n\<close> characters.\<close>

definition clip :: "string \<Rightarrow> nat \<Rightarrow> string" where
  "clip s n = (let t = squash s in if RuneCount t > n then take_runes n t else t)"

lemma RuneCount_clip: "RuneCount (clip s n) \<le> n"
  by (simp add: clip_def Let_def RuneCount_take_runes)

text \<open>The modules' normalisation of tags: lower case, no blanks around, no duplicates, at most \<open>n\<close>.\<close>

fun collect_tags :: "nat \<Rightarrow> string list \<Rightarrow> string list \<Rightarrow> string list" where
  "collect_tags n acc [] = acc"
| "collect_tags n acc (c # cs) =
     (let t = map to_lower (TrimSpace c)
      in if t = [] \<or> t \<in> set acc \<or> length acc \<ge> n then collect_tags n acc cs else collect_tags n (acc @ [t]) cs)"

lemma collect_tags_bounds:
  "distinct acc \<Longrightarrow> length acc \<le> n \<Longrightarrow> [] \<notin> set acc \<Longrightarrow>
   distinct (collect_tags n acc cs) \<and> length (collect_tags n acc cs) \<le> n \<and> [] \<notin> set (collect_tags n acc cs)"
  by (induction n acc cs rule: collect_tags.induct) (auto simp: Let_def)

section \<open>Field errors\<close>

text \<open>Go's \<open>map[string]string\<close> of field errors, as an association list with one entry per key.\<close>

type_synonym fields = "(string \<times> string) list"

definition set_field :: "string \<Rightarrow> string \<Rightarrow> fields \<Rightarrow> fields" where
  "set_field k v fs = AList.update k v fs"

definition add_field_if :: "bool \<Rightarrow> string \<Rightarrow> string \<Rightarrow> fields \<Rightarrow> fields" where
  "add_field_if b k v fs = (if b then set_field k v fs else fs)"

lemma set_field_not_Nil [simp]: "set_field k v fs \<noteq> []"
  by (cases fs) (auto simp: set_field_def split: if_splits)

lemma add_field_if_Nil [simp]: "add_field_if b k v fs = [] \<longleftrightarrow> \<not> b \<and> fs = []"
  by (simp add: add_field_if_def)

end
