(* ===== verification/Httpx.thy ===== *)
theory Httpx
  imports Prelude
begin

text \<open>
  The errors of the backend (\<open>platform/httpx/errors.go\<close> and the \<open>var (...)\<close> blocks of the
  modules) and the tables every module writes to: the transactional outbox
  (\<open>platform/events/events.go\<close>) and the audit log.
\<close>

section \<open>Errors\<close>

text \<open>
  An \<open>APIError\<close> is its code, HTTP status, whether it is retryable and the fields attached with
  \<open>WithFields\<close>; the modules declare their own values of it. A plain Go error (of the database, of
  \<open>errors.New\<close> or \<open>fmt.Errorf\<close>) is named by a string.
\<close>

datatype err =
    API (err_code: string) (err_status: nat) (err_retryable: bool) (err_fields: fields)
  | Plain string

named_theorems err_defs \<comment> \<open>the definitions of the error values\<close>

definition ErrNotFound [err_defs]: "ErrNotFound = API ''NOT_FOUND'' 404 False []"
definition ErrValidation0 [err_defs]: "ErrValidation0 = API ''VALIDATION_FAILED'' 422 False []"
definition ErrUnauthorized [err_defs]: "ErrUnauthorized = API ''UNAUTHORIZED'' 401 False []"
definition ErrForbidden [err_defs]: "ErrForbidden = API ''FORBIDDEN'' 403 False []"
definition ErrConflict [err_defs]: "ErrConflict = API ''CONFLICT'' 409 False []"
definition ErrRateLimited [err_defs]: "ErrRateLimited = API ''RATE_LIMITED'' 429 True []"
definition ErrInternal [err_defs]: "ErrInternal = API ''INTERNAL'' 500 True []"
definition ErrUnavailable [err_defs]: "ErrUnavailable = API ''UNAVAILABLE'' 503 True []"
definition ErrIdempotency [err_defs]: "ErrIdempotency = API ''IDEMPOTENCY_KEY_REUSED'' 409 False []"

fun WithFields :: "fields \<Rightarrow> err \<Rightarrow> err" where
  "WithFields fs (API c st r _) = API c st r fs"
| "WithFields fs (Plain s) = Plain s"

definition ErrValidation :: "fields \<Rightarrow> err" where
  "ErrValidation fs = WithFields fs ErrValidation0"

text \<open>\<open>APIError.Is\<close>: two API errors are the same when they have the same code, whatever they carry.\<close>

fun err_Is :: "err \<Rightarrow> err \<Rightarrow> bool" where
  "err_Is (API c _ _ _) (API d _ _ _) = (c = d)"
| "err_Is e t = (e = t)"

text \<open>\<open>WriteError\<close>: an error that is not an \<open>APIError\<close> is answered as \<open>INTERNAL\<close>.\<close>

fun WriteError :: "err \<Rightarrow> string \<times> nat \<times> bool \<times> fields" where
  "WriteError (API c st r fs) = (c, st, r, fs)"
| "WriteError (Plain _) = (''INTERNAL'', 500, True, [])"

lemma err_Is_refl [simp]: "err_Is e e"
  by (cases e) auto

lemma err_Is_WithFields [simp]: "err_Is (WithFields fs e) e" "err_Is e (WithFields fs e)"
  by (cases e; simp)+

text \<open>Errors of PostgreSQL: a violated unique index (23505), a violated check, a missing row.\<close>

definition PgUnique [err_defs]: "PgUnique = Plain ''23505''"
definition PgCheck [err_defs]: "PgCheck = Plain ''23514''"
definition NoRows [err_defs]: "NoRows = Plain ''no rows''"

section \<open>Domain events\<close>

text \<open>JSON values of event payloads; identifiers travel as strings.\<close>

datatype jval = JStr string | JInt int | JBool bool | JNull | JStrs "string list"

fun jopt :: "string option \<Rightarrow> jval" where
  "jopt None = JNull"
| "jopt (Some s) = JStr s"

fun jint_opt :: "int option \<Rightarrow> jval" where
  "jint_opt None = JNull"
| "jint_opt (Some n) = JInt n"

type_synonym payload = "(string \<times> jval) list"

record event =
  AggregateType :: string
  AggregateID :: string
  EventType :: string
  Payload :: payload

text \<open>
  A row of \<open>outbox_events\<close>. \<open>ob_seq\<close> is the \<open>bigserial\<close> column, which also identifies the row.
\<close>

record outbox_row =
  ob_seq :: nat
  ob_event :: event
  ob_created :: time
  ob_published :: "time option"
  ob_attempts :: int
  ob_next :: time
  ob_error :: "string option"

definition Emit :: "time \<Rightarrow> string \<Rightarrow> string \<Rightarrow> string \<Rightarrow> payload \<Rightarrow> outbox_row list \<Rightarrow> outbox_row list" where
  "Emit now agg_type agg_id ev_type body t =
     t @ [\<lparr>ob_seq = length t + 1,
           ob_event = \<lparr>AggregateType = agg_type, AggregateID = agg_id, EventType = ev_type, Payload = body\<rparr>,
           ob_created = now, ob_published = None, ob_attempts = 0, ob_next = now, ob_error = None\<rparr>]"

definition outbox_inv :: "outbox_row list \<Rightarrow> bool" where
  "outbox_inv t \<longleftrightarrow> map ob_seq t = [1..<length t + 1]"

lemma Emit_inv [intro]: "outbox_inv t \<Longrightarrow> outbox_inv (Emit now at ai et b t)"
  by (simp add: outbox_inv_def Emit_def)

lemma outbox_inv_distinct: "outbox_inv t \<Longrightarrow> distinct (map ob_seq t)"
  by (simp add: outbox_inv_def)

lemma Emit_append: "\<exists>r. Emit now at ai et b t = t @ [r]"
  by (simp add: Emit_def)

text \<open>The events of the outbox, oldest first.\<close>

definition emitted :: "outbox_row list \<Rightarrow> event list" where
  "emitted t = map ob_event t"

lemma emitted_Emit [simp]:
  "emitted (Emit now at ai et b t) =
     emitted t @ [\<lparr>AggregateType = at, AggregateID = ai, EventType = et, Payload = b\<rparr>]"
  by (simp add: emitted_def Emit_def)

section \<open>Audit log\<close>

record audit_row =
  au_actor :: "uuid option"
  au_action :: string
  au_target_type :: string
  au_target_id :: string
  au_meta :: payload

section \<open>Users\<close>

text \<open>The columns of \<open>users\<close> that the modules read by phone number or status.\<close>

record user_row =
  us_id :: uuid
  us_phone :: string
  us_active :: bool
  us_name :: "string option"

end
