(* ===== verification/Money.thy ===== *)
theory Money
  imports Httpx
begin

text \<open>
  \<open>domain/money/money.go\<close>: amounts as 64-bit integers of cents, with the arithmetic of Go.
\<close>

record amount =
  Minor :: int
  Currency :: string

definition ErrCurrencyMismatch [err_defs]: "ErrCurrencyMismatch = Plain ''money: currency mismatch''"

definition EUR :: "int \<Rightarrow> amount" where
  "EUR minor = \<lparr>Minor = minor, Currency = ''EUR''\<rparr>"

definition Add :: "amount \<Rightarrow> amount \<Rightarrow> err + amount" where
  "Add a b = (if Currency a \<noteq> Currency b then Inl ErrCurrencyMismatch
              else Inr \<lparr>Minor = add64 (Minor a) (Minor b), Currency = Currency a\<rparr>)"

definition Sub :: "amount \<Rightarrow> amount \<Rightarrow> err + amount" where
  "Sub a b = (if Currency a \<noteq> Currency b then Inl ErrCurrencyMismatch
              else Inr \<lparr>Minor = sub64 (Minor a) (Minor b), Currency = Currency a\<rparr>)"

definition Percent :: "amount \<Rightarrow> int \<Rightarrow> amount" where
  "Percent a bps =
     (let v = add64 (mul64 (Minor a) bps) 5000;
          v' = (if v < 0 then sub64 v (10000 - 1) else v)
      in \<lparr>Minor = quot v' 10000, Currency = Currency a\<rparr>)"

definition IsNegative :: "amount \<Rightarrow> bool" where "IsNegative a \<longleftrightarrow> Minor a < 0"
definition IsZero :: "amount \<Rightarrow> bool" where "IsZero a \<longleftrightarrow> Minor a = 0"

text \<open>Decimal digits, as \<open>fmt\<close> prints a non-negative integer with \<open>%d\<close> and \<open>%02d\<close>.\<close>

fun show_nat :: "nat \<Rightarrow> string" where
  "show_nat n = (if n < 10 then [char_of (48 + n)]
                 else show_nat (n div 10) @ [char_of (48 + n mod 10)])"

declare show_nat.simps [simp del]

definition show_int :: "int \<Rightarrow> string" where
  "show_int i = (if i < 0 then ''-'' @ show_nat (nat (- i)) else show_nat (nat i))"

definition show_02 :: "int \<Rightarrow> string" where
  "show_02 i = (let d = show_int i in if length d < 2 then ''0'' @ d else d)"

definition String :: "amount \<Rightarrow> string" where
  "String a =
     (let sign = (if Minor a < 0 then ''-'' else []);
          m = (if Minor a < 0 then neg64 (Minor a) else Minor a)
      in sign @ show_int (quot m 100) @ ''.'' @ show_02 (rem m 100) @ '' '' @ Currency a)"

section \<open>The percentage is the exact quotient rounded half up\<close>

lemma neg_div_up:
  assumes "v < (0::int)"
  shows "- ((- (v - 9999)) div 10000) = v div 10000"
proof -
  have "- (v - 9999) = 10000 * (- (v div 10000)) + (9999 - v mod 10000)"
    by (simp add: algebra_simps minus_mult_div_eq_mod [symmetric])
  then have "(- (v - 9999)) div 10000 = - (v div 10000)"
    by (rule int_div_pos_eq) (use pos_mod_bound[of 10000 v] in auto)
  then show ?thesis by simp
qed

lemma Percent_exact:
  assumes "in64 (Minor a * bps)" "in64 (Minor a * bps + 5000)" "in64 (Minor a * bps + 5000 - 9999)"
  shows "Minor (Percent a bps) = (Minor a * bps + 5000) div 10000"
proof -
  define v where "v = Minor a * bps + 5000"
  have v: "add64 (mul64 (Minor a) bps) 5000 = v"
    using assms by (simp add: v_def arith64)
  show ?thesis
  proof (cases "v < 0")
    case True
    have "sub64 v (10000 - 1) = v - 9999" using assms(3) by (simp add: v_def arith64)
    moreover have "quot (v - 9999) 10000 = - ((- (v - 9999)) div 10000)"
      using True assms(3) by (intro quot_neg) (auto simp: v_def)
    moreover have "- ((- (v - 9999)) div 10000) = v div 10000"
      using True by (rule neg_div_up)
    ultimately show ?thesis using True v by (simp add: Percent_def Let_def v_def)
  next
    case False
    then have "quot v 10000 = v div 10000" using assms(2) by (intro quot_nonneg) (auto simp: v_def)
    with False v show ?thesis by (simp add: Percent_def Let_def v_def)
  qed
qed

text \<open>
  For every amount and rate whose product fits comfortably in 64 bits, of either sign, the
  percentage is the exact value rounded half up: its distance from the exact quotient lies in
  the half-open interval of half a cent.
\<close>
theorem Percent_half_up:
  assumes "\<bar>Minor a * bps\<bar> \<le> 9000000000000000000"
  shows "2 * (Minor a * bps) - 10000 < 2 * (10000 * Minor (Percent a bps)) \<and>
         2 * (10000 * Minor (Percent a bps)) \<le> 2 * (Minor a * bps) + 10000 \<and>
         Currency (Percent a bps) = Currency a"
proof -
  have "Minor (Percent a bps) = (Minor a * bps + 5000) div 10000"
    using assms by (intro Percent_exact) (auto simp: in64_def)
  moreover have "2 * x - 10000 < 2 * (10000 * ((x + 5000) div 10000)) \<and>
                 2 * (10000 * ((x + 5000) div 10000)) \<le> 2 * x + 10000" for x :: int
    using div_bounds[of 10000 "x + 5000"] by linarith
  ultimately show ?thesis by (simp add: Percent_def Let_def)
qed

theorem Percent_half_up_witness:
  "2 * (Minor (EUR (-1240)) * 1800) - 10000 < 2 * (10000 * Minor (Percent (EUR (-1240)) 1800)) \<and>
   Minor (Percent (EUR (-1240)) 1800) = - 223"
proof -
  have "\<bar>Minor (EUR (-1240)) * 1800\<bar> \<le> 9000000000000000000" by (simp add: EUR_def)
  note bound = Percent_half_up[OF this, THEN conjunct1]
  have "Minor (Percent (EUR (-1240)) 1800) = - 223" by code_simp
  with bound show ?thesis by blast
qed

section \<open>Addition and subtraction\<close>

lemma Add_Sub_inverse:
  assumes "Add a b = Inr c" "in64 (Minor a)"
  shows "Sub c b = Inr a"
proof -
  have "wrap64 (wrap64 x - y) = wrap64 (x - y)" for x y
  proof -
    have "(wrap64 x - y + 9223372036854775808) mod 18446744073709551616
        = ((x + 9223372036854775808) mod 18446744073709551616 - y) mod 18446744073709551616"
      by (simp add: wrap64_def)
    also have "\<dots> = (x - y + 9223372036854775808) mod 18446744073709551616"
      by (subst mod_diff_left_eq) (simp add: ac_simps add_diff_eq diff_add_eq)
    finally show ?thesis by (simp add: wrap64_def)
  qed
  from this[of "Minor a + Minor b" "Minor b"] have "wrap64 (wrap64 (Minor a + Minor b) - Minor b) = wrap64 (Minor a)"
    by simp
  also have "\<dots> = Minor a" using assms(2) by (rule wrap64_id)
  finally have w: "wrap64 (wrap64 (Minor a + Minor b) - Minor b) = Minor a" .
  from assms(1) have cur: "Currency b = Currency a" and
    c: "c = \<lparr>Minor = add64 (Minor a) (Minor b), Currency = Currency a\<rparr>"
    by (simp_all add: Add_def split: if_splits)
  show ?thesis using w cur by (cases a) (simp add: c Sub_def add64_def sub64_def)
qed

end
