(* ===== verification/Ledger.thy ===== *)
theory Ledger
  imports Money
begin

text \<open>
  \<open>modules/ledger/ledger.go\<close> with the tables and triggers of \<open>migrations/0001_init.sql\<close>: the
  double-entry ledger. Every movement of money of the platform goes through \<open>Post\<close>.

  \<open>core\<close> holds the tables every module shares: the ledger, the outbox and the audit log. Accounts
  are identified by their code (unique in the database), entries refer to the code.
  Sums taken by the database are exact and unbounded: PostgreSQL sums \<open>bigint\<close> columns as \<open>numeric\<close>, and
  the error of a balance that does not fit into 64 bits is not modelled. The checks of the table of accounts on
  \<open>owner_type\<close> and \<open>kind\<close> are no branches of \<open>EnsureAccount\<close>, since every call in the code passes one of
  the constants \<open>user\<close>, \<open>driver\<close>, \<open>merchant\<close>, \<open>business\<close> and \<open>liability\<close>, which they allow.
\<close>

section \<open>State\<close>

record account =
  ac_code :: string
  ac_owner_type :: string
  ac_owner_id :: "uuid option"
  ac_kind :: string
  ac_currency :: string

record ltx =
  lt_id :: uuid
  lt_kind :: string
  lt_ref :: string
  lt_idem :: string
  lt_currency :: string

record entry =
  en_tx :: uuid
  en_account :: string
  en_debit :: int
  en_credit :: int
  en_currency :: string
  en_created :: time

record core =
  accounts :: "account list"
  ltxs :: "ltx list"
  entries :: "entry list"
  outbox :: "outbox_row list"
  audit :: "audit_row list"

record posting =
  AccountCode :: string
  Debit :: int
  Credit :: int

record transaction =
  Kind :: string
  Reference :: string
  IdempotencyKey :: string
  TxCurrency :: string
  Postings :: "posting list"

definition debit :: "string \<Rightarrow> int \<Rightarrow> posting" where
  "debit c n = \<lparr>AccountCode = c, Debit = n, Credit = 0\<rparr>"

definition credit :: "string \<Rightarrow> int \<Rightarrow> posting" where
  "credit c n = \<lparr>AccountCode = c, Debit = 0, Credit = n\<rparr>"

definition LedgerEmpty [err_defs]: "LedgerEmpty = Plain ''ledger: no postings''"
definition LedgerInvalidPosting [err_defs]:
  "LedgerInvalidPosting = Plain ''ledger: posting must have exactly one of debit or credit > 0''"
definition LedgerAccountMissing [err_defs]: "LedgerAccountMissing = Plain ''ledger: account not found''"
definition LedgerUnbalanced [err_defs]: "LedgerUnbalanced = Plain ''ledger: postings are not balanced''"
definition LedgerRequired [err_defs]:
  "LedgerRequired = Plain ''ledger: kind, reference and idempotency key are required''"

section \<open>Operations\<close>

fun Validate_loop :: "int \<Rightarrow> int \<Rightarrow> posting list \<Rightarrow> err option" where
  "Validate_loop d c [] = (if d \<noteq> c then Some LedgerUnbalanced else None)"
| "Validate_loop d c (p # ps) =
     (if Debit p > 0 \<and> Credit p = 0 then
        (if AccountCode p = [] then Some LedgerAccountMissing
         else Validate_loop (add64 d (Debit p)) c ps)
      else if Credit p > 0 \<and> Debit p = 0 then
        (if AccountCode p = [] then Some LedgerAccountMissing
         else Validate_loop d (add64 c (Credit p)) ps)
      else Some LedgerInvalidPosting)"

definition Validate :: "posting list \<Rightarrow> err option" where
  "Validate ps = (if ps = [] then Some LedgerEmpty else Validate_loop 0 0 ps)"

text \<open>
  The insert of one entry selects the account by code and currency; no row is an error, which
  rolls the transaction back.
\<close>

fun insert_entries :: "time \<Rightarrow> uuid \<Rightarrow> string \<Rightarrow> posting list \<Rightarrow> core \<Rightarrow> (err + unit) \<times> core" where
  "insert_entries now i cur [] s = (Inr (), s)"
| "insert_entries now i cur (p # ps) s =
     (if exists_where (\<lambda>a. ac_code a = AccountCode p \<and> ac_currency a = cur) (accounts s)
      then insert_entries now i cur ps
             (s\<lparr>entries := entries s @ [\<lparr>en_tx = i, en_account = AccountCode p, en_debit = Debit p,
                 en_credit = Credit p, en_currency = cur, en_created = now\<rparr>]\<rparr>)
      else (Inl LedgerAccountMissing, s))"

text \<open>The deferred trigger \<open>ledger_assert_balanced\<close>, checked at commit for the inserted rows.\<close>

definition ledger_assert_balanced :: "uuid \<Rightarrow> entry list \<Rightarrow> bool" where
  "ledger_assert_balanced i es \<longleftrightarrow>
     sum_where (\<lambda>e. en_tx e = i) en_debit es = sum_where (\<lambda>e. en_tx e = i) en_credit es"

text \<open>
  \<open>Post\<close> in one transaction. \<open>i\<close> is the identifier the database generates. The branch of the code
  for a unique violation (23505) can only be reached with a concurrent insert of the same key, and
  then PostgreSQL answers the second query of the aborted transaction with an error: here the
  violation is the error itself.
\<close>

definition post_body :: "time \<Rightarrow> uuid \<Rightarrow> string \<Rightarrow> transaction \<Rightarrow> (core, err, uuid) op" where
  "post_body now i cur tx s =
     (case find (\<lambda>t. lt_idem t = IdempotencyKey tx) (ltxs s) of
        Some t \<Rightarrow> (Inr (lt_id t), s)
      | None \<Rightarrow>
          if exists_where (\<lambda>t. lt_id t = i) (ltxs s) then (Inl PgUnique, s)
          else
            (let s1 = s\<lparr>ltxs := ltxs s @ [\<lparr>lt_id = i, lt_kind = Kind tx, lt_ref = Reference tx,
                          lt_idem = IdempotencyKey tx, lt_currency = cur\<rparr>]\<rparr>
             in case insert_entries now i cur (Postings tx) s1 of
                  (Inl e, s2) \<Rightarrow> (Inl e, s2)
                | (Inr _, s2) \<Rightarrow>
                    if ledger_assert_balanced i (entries s2) then (Inr i, s2) else (Inl PgCheck, s2)))"

definition Post :: "time \<Rightarrow> uuid \<Rightarrow> transaction \<Rightarrow> (core, err, uuid) op" where
  "Post now i tx s =
     (case Validate (Postings tx) of
        Some e \<Rightarrow> (Inl e, s)
      | None \<Rightarrow>
          (let cur = (if TxCurrency tx = [] then ''EUR'' else TxCurrency tx)
           in if IdempotencyKey tx = [] \<or> Kind tx = [] \<or> Reference tx = [] then (Inl LedgerRequired, s)
              else begin_func (post_body now i cur tx) s))"

definition EnsureAccount ::
  "string \<Rightarrow> string \<Rightarrow> uuid option \<Rightarrow> string \<Rightarrow> string \<Rightarrow> core \<Rightarrow> core" where
  "EnsureAccount c owner_type owner_id kind currency s =
     (let cur = (if currency = [] then ''EUR'' else currency)
      in if exists_where (\<lambda>a. ac_code a = c) (accounts s) then s
         else s\<lparr>accounts := accounts s @ [\<lparr>ac_code = c, ac_owner_type = owner_type,
                  ac_owner_id = owner_id, ac_kind = kind, ac_currency = cur\<rparr>]\<rparr>)"

definition Balance :: "string \<Rightarrow> core \<Rightarrow> err + amount" where
  "Balance c s =
     (case find (\<lambda>a. ac_code a = c) (accounts s) of
        None \<Rightarrow> Inl LedgerAccountMissing
      | Some a \<Rightarrow>
          Inr \<lparr>Minor = sum_where (\<lambda>e. en_account e = c) en_credit (entries s)
                       - sum_where (\<lambda>e. en_account e = c) en_debit (entries s),
               Currency = ac_currency a\<rparr>)"

definition UserWalletCode :: "uuid \<Rightarrow> string" where
  "UserWalletCode u = ''user:'' @ u @ '':wallet''"

text \<open>The value callers read from \<open>Balance\<close> when they tolerate a missing account: zero.\<close>

definition bal_or_zero :: "string \<Rightarrow> core \<Rightarrow> int" where
  "bal_or_zero c s = (case Balance c s of Inl _ \<Rightarrow> 0 | Inr a \<Rightarrow> Minor a)"

section \<open>The invariant of the ledger\<close>

definition bal :: "string \<Rightarrow> core \<Rightarrow> int" where
  "bal c s = sum_where (\<lambda>e. en_account e = c) (\<lambda>e. en_credit e - en_debit e) (entries s)"

definition one_sided :: "entry \<Rightarrow> bool" where
  "one_sided e \<longleftrightarrow> (en_debit e > 0 \<and> en_credit e = 0) \<or> (en_credit e > 0 \<and> en_debit e = 0)"

definition ledger_inv :: "core \<Rightarrow> bool" where
  "ledger_inv s \<longleftrightarrow>
     distinct (map ac_code (accounts s)) \<and> distinct (map lt_id (ltxs s)) \<and> distinct (map lt_idem (ltxs s)) \<and>
     (\<forall>e \<in> set (entries s). en_tx e \<in> lt_id ` set (ltxs s) \<and> one_sided e \<and>
        (\<exists>a \<in> set (accounts s). ac_code a = en_account e \<and> ac_currency a = en_currency e)) \<and>
     (\<forall>t \<in> set (ltxs s). ledger_assert_balanced (lt_id t) (entries s))"

definition posted :: "string \<Rightarrow> core \<Rightarrow> bool" where
  "posted k s \<longleftrightarrow> k \<in> lt_idem ` set (ltxs s)"

definition net :: "string \<Rightarrow> posting list \<Rightarrow> int" where
  "net c ps = sum_where (\<lambda>p. AccountCode p = c) (\<lambda>p. Credit p - Debit p) ps"

definition mk_entry :: "time \<Rightarrow> uuid \<Rightarrow> string \<Rightarrow> posting \<Rightarrow> entry" where
  "mk_entry now i cur p = \<lparr>en_tx = i, en_account = AccountCode p, en_debit = Debit p,
     en_credit = Credit p, en_currency = cur, en_created = now\<rparr>"

lemma Balance_bal: "Balance c s = Inr a \<Longrightarrow> Minor a = bal c s"
  by (auto simp: Balance_def bal_def sum_where_diff split: option.splits)

lemma postedI: "t \<in> set (ltxs s) \<Longrightarrow> lt_idem t = k \<Longrightarrow> posted k s"
  by (auto simp: posted_def)

lemma insert_entries_Inr:
  "insert_entries now i cur ps s = (Inr u, s') \<Longrightarrow>
     s' = s\<lparr>entries := entries s @ map (mk_entry now i cur) ps\<rparr> \<and>
     (\<forall>p \<in> set ps. \<exists>a \<in> set (accounts s). ac_code a = AccountCode p \<and> ac_currency a = cur)"
proof (induction ps arbitrary: s)
  case (Cons p ps)
  then have acc: "\<exists>a \<in> set (accounts s). ac_code a = AccountCode p \<and> ac_currency a = cur"
    and r: "insert_entries now i cur ps (s\<lparr>entries := entries s @ [mk_entry now i cur p]\<rparr>) = (Inr u, s')"
    by (auto simp: exists_where_iff mk_entry_def split: if_splits)
  from Cons.IH[OF r] acc show ?case by (auto simp: core.splits)
qed auto

lemma Validate_one_sided:
  "Validate_loop d c ps = None \<Longrightarrow>
     \<forall>p \<in> set ps. AccountCode p \<noteq> [] \<and>
       ((Debit p > 0 \<and> Credit p = 0) \<or> (Credit p > 0 \<and> Debit p = 0))"
  by (induction ps arbitrary: d c) (auto split: if_splits)

text \<open>What a successful \<open>Post\<close> did: nothing on a replay, otherwise one transaction with its entries.\<close>

lemma Post_cases:
  obtains (error) e where "fst (Post now i tx s) = Inl e" "snd (Post now i tx s) = s"
  | (replay) t where "t \<in> set (ltxs s)" "lt_idem t = IdempotencyKey tx"
      "fst (Post now i tx s) = Inr (lt_id t)" "snd (Post now i tx s) = s"
  | (fresh) cur where "\<not> posted (IdempotencyKey tx) s" "i \<notin> lt_id ` set (ltxs s)"
      "fst (Post now i tx s) = Inr i" "Validate (Postings tx) = None"
      "snd (Post now i tx s) = s\<lparr>ltxs := ltxs s @ [\<lparr>lt_id = i, lt_kind = Kind tx, lt_ref = Reference tx,
                lt_idem = IdempotencyKey tx, lt_currency = cur\<rparr>],
              entries := entries s @ map (mk_entry now i cur) (Postings tx)\<rparr>"
      "\<forall>p \<in> set (Postings tx). \<exists>a \<in> set (accounts s). ac_code a = AccountCode p \<and> ac_currency a = cur"
      "ledger_assert_balanced i (entries (snd (Post now i tx s)))"
      "cur = (if TxCurrency tx = [] then ''EUR'' else TxCurrency tx)"
proof (cases "fst (Post now i tx s)")
  case (Inl e)
  then have "snd (Post now i tx s) = s"
    by (auto simp: Post_def Let_def begin_func_def split: option.splits if_splits prod.splits sum.splits)
  with Inl show ?thesis by (rule error)
next
  case (Inr j)
  obtain s' where P: "Post now i tx s = (Inr j, s')" using Inr by (metis prod.collapse)
  define cur where "cur = (if TxCurrency tx = [] then ''EUR'' else TxCurrency tx)"
  from P have v: "Validate (Postings tx) = None"
    and "begin_func (post_body now i cur tx) s = (Inr j, s')"
    by (auto simp: Post_def Let_def cur_def split: option.splits if_splits)
  then have b: "post_body now i cur tx s = (Inr j, s')" by (simp add: begin_func_commit)
  show ?thesis
  proof (cases "find (\<lambda>t. lt_idem t = IdempotencyKey tx) (ltxs s)")
    case (Some t)
    with b have "j = lt_id t" "s' = s" by (auto simp: post_body_def)
    with find_SomeD[OF Some] P show ?thesis by (intro replay[of t]) simp_all
  next
    case None
    then have np: "\<not> posted (IdempotencyKey tx) s" by (auto simp: posted_def find_None_iff_all)
    let ?t = "\<lparr>lt_id = i, lt_kind = Kind tx, lt_ref = Reference tx,
                 lt_idem = IdempotencyKey tx, lt_currency = cur\<rparr>"
    from None b have i: "i \<notin> lt_id ` set (ltxs s)"
      by (auto simp: post_body_def exists_where_iff split: if_splits)
    from None b i obtain u s2 where
      ie: "insert_entries now i cur (Postings tx) (s\<lparr>ltxs := ltxs s @ [?t]\<rparr>) = (Inr u, s2)"
      and bal: "ledger_assert_balanced i (entries s2)" and "j = i" "s' = s2"
      by (auto simp: post_body_def Let_def split: if_splits prod.splits sum.splits)
    note ie' = insert_entries_Inr[OF ie]
    show ?thesis
      by (rule fresh[of cur, OF np i _ v]) (use P bal ie' \<open>j = i\<close> \<open>s' = s2\<close> cur_def in simp_all)
  qed
qed

lemma snd_Post_error [frame_simps]: "fst (Post now i tx s) = Inl e \<Longrightarrow> snd (Post now i tx s) = s"
  by (cases rule: Post_cases[of now i tx s]) auto

lemma Post_frame [frame_simps]:
  "accounts (snd (Post now i tx s)) = accounts s"
  "outbox (snd (Post now i tx s)) = outbox s"
  "audit (snd (Post now i tx s)) = audit s"
  by (cases rule: Post_cases[of now i tx s]; simp)+

lemma EnsureAccount_frame [frame_simps]:
  "ltxs (EnsureAccount c ot oi k cur s) = ltxs s"
  "entries (EnsureAccount c ot oi k cur s) = entries s"
  "outbox (EnsureAccount c ot oi k cur s) = outbox s"
  "audit (EnsureAccount c ot oi k cur s) = audit s"
  by (auto simp: EnsureAccount_def Let_def)

lemma bal_EnsureAccount [simp]: "bal c (EnsureAccount c' ot oi k cur s) = bal c s"
  by (simp add: bal_def frame_simps)

lemma posted_EnsureAccount [simp]: "posted k (EnsureAccount c ot oi kd cur s) = posted k s"
  by (simp add: posted_def frame_simps)

lemma EnsureAccount_exists: "\<exists>a \<in> set (accounts (EnsureAccount c ot oi k cur s)). ac_code a = c"
  by (auto simp: EnsureAccount_def Let_def exists_where_iff)

lemma EnsureAccount_idem [simp]:
  "EnsureAccount c ot oi k cur (EnsureAccount c ot' oi' k' cur' s) = EnsureAccount c ot' oi' k' cur' s"
  using EnsureAccount_exists[of c ot' oi' k' cur' s]
  by (simp add: EnsureAccount_def [of c ot oi] exists_where_iff)

lemma EnsureAccount_inv: "ledger_inv s \<Longrightarrow> ledger_inv (EnsureAccount c ot oi k cur s)"
  by (auto simp: ledger_inv_def EnsureAccount_def Let_def exists_where_iff; blast)

lemma one_sided_mk_entry:
  "Validate ps = None \<Longrightarrow> p \<in> set ps \<Longrightarrow> one_sided (mk_entry now i cur p)"
  using Validate_one_sided[of 0 0 ps]
  by (auto simp: Validate_def one_sided_def mk_entry_def split: if_splits)

lemma Post_inv:
  assumes inv: "ledger_inv s"
  shows "ledger_inv (snd (Post now i tx s))"
proof (cases rule: Post_cases[of now i tx s])
  case (fresh cur)
  let ?new = "map (mk_entry now i cur) (Postings tx)"
  have ents: "entries (snd (Post now i tx s)) = entries s @ ?new" by (simp add: fresh(5))
  have old: "ledger_assert_balanced (lt_id t) (entries s @ ?new)" if "t \<in> set (ltxs s)" for t
  proof -
    have "lt_id t \<noteq> i" using that fresh(2) by auto
    then have "sum_where (\<lambda>e. en_tx e = lt_id t) f ?new = 0" for f
      by (auto simp: mk_entry_def intro!: sum_where_False)
    with inv that show ?thesis
      by (simp add: ledger_inv_def ledger_assert_balanced_def table_simps)
  qed
  have new: "en_tx e = i \<and> one_sided e \<and>
        (\<exists>a \<in> set (accounts s). ac_code a = en_account e \<and> ac_currency a = en_currency e)"
    if "e \<in> set ?new" for e
    using that fresh(6) one_sided_mk_entry[OF fresh(4)] by (auto simp: mk_entry_def)
  have keys: "IdempotencyKey tx \<notin> lt_idem ` set (ltxs s)" using fresh(1) by (simp add: posted_def)
  have oldE: "en_tx e \<in> lt_id ` set (ltxs s) \<and> one_sided e \<and>
        (\<exists>a \<in> set (accounts s). ac_code a = en_account e \<and> ac_currency a = en_currency e)"
    if "e \<in> set (entries s)" for e
    using inv that unfolding ledger_inv_def by blast
  show ?thesis
    unfolding ledger_inv_def
  proof (intro conjI ballI)
    show "distinct (map ac_code (accounts (snd (Post now i tx s))))"
      "distinct (map lt_id (ltxs (snd (Post now i tx s))))"
      "distinct (map lt_idem (ltxs (snd (Post now i tx s))))"
      using inv keys fresh(2) by (simp_all add: ledger_inv_def fresh(5))
  next
    fix e assume "e \<in> set (entries (snd (Post now i tx s)))"
    then consider "e \<in> set (entries s)" | "e \<in> set ?new" unfolding ents by auto
    then show "en_tx e \<in> lt_id ` set (ltxs (snd (Post now i tx s)))" "one_sided e"
      "\<exists>a \<in> set (accounts (snd (Post now i tx s))). ac_code a = en_account e \<and> ac_currency a = en_currency e"
      by (cases; use oldE[of e] new[of e] in \<open>simp add: fresh(5)\<close>)+
  next
    fix t assume "t \<in> set (ltxs (snd (Post now i tx s)))"
    then have "t \<in> set (ltxs s) \<or> lt_id t = i" by (auto simp: fresh(5))
    then show "ledger_assert_balanced (lt_id t) (entries (snd (Post now i tx s)))"
      using old fresh(7) unfolding ents by auto
  qed
qed (use inv in simp_all)

section \<open>The interface of the ledger\<close>

text \<open>
  What the settling modules rely on, for a store of any type: \<open>post\<close> (its first argument stands for
  the clock and the generated identifier), the balance of an account and the keys already posted.
\<close>

locale ledger_api =
  fixes inv :: "'s \<Rightarrow> bool"
    and post :: "'p \<Rightarrow> transaction \<Rightarrow> 's \<Rightarrow> (err + uuid) \<times> 's"
    and bal :: "string \<Rightarrow> 's \<Rightarrow> int"
    and posted :: "string \<Rightarrow> 's \<Rightarrow> bool"
  assumes post_inv: "inv s \<Longrightarrow> inv (snd (post p tx s))"
    and post_error: "fst (post p tx s) = Inl e \<Longrightarrow> snd (post p tx s) = s"
    and post_marks: "fst (post p tx s) = Inr i \<Longrightarrow> posted (IdempotencyKey tx) (snd (post p tx s))"
    and post_only_marks: "posted k (snd (post p tx s)) \<Longrightarrow> posted k s \<or> k = IdempotencyKey tx"
    and post_replay: "posted (IdempotencyKey tx) s \<Longrightarrow> snd (post p tx s) = s"
    and post_moves: "\<not> posted (IdempotencyKey tx) s \<Longrightarrow> fst (post p tx s) = Inr i \<Longrightarrow>
      bal c (snd (post p tx s)) = bal c s + net c (Postings tx)"
    and post_conserves: "inv s \<Longrightarrow> \<not> posted (IdempotencyKey tx) s \<Longrightarrow> fst (post p tx s) = Inr i \<Longrightarrow>
      sum_list (map Debit (Postings tx)) = sum_list (map Credit (Postings tx))"
begin

text \<open>A second attempt with the same key changes nothing, whatever its postings are.\<close>

lemma post_twice:
  assumes "fst (post p tx s) = Inr i" "IdempotencyKey tx' = IdempotencyKey tx"
  shows "snd (post p' tx' (snd (post p tx s))) = snd (post p tx s)"
  using assms post_marks by (intro post_replay) metis

lemma bal_post:
  "bal c (snd (post p tx s)) =
     bal c s + (case fst (post p tx s) of Inl _ \<Rightarrow> 0
                | Inr _ \<Rightarrow> if posted (IdempotencyKey tx) s then 0 else net c (Postings tx))"
  by (cases "fst (post p tx s)") (simp_all add: post_error post_replay post_moves)

text \<open>An account no posting names is left alone.\<close>

lemma bal_post_other:
  assumes "c \<notin> AccountCode ` set (Postings tx)"
  shows "bal c (snd (post p tx s)) = bal c s"
proof -
  have "net c (Postings tx) = 0" using assms by (auto simp: net_def intro!: sum_where_False)
  then show ?thesis by (simp add: bal_post split: sum.splits)
qed

text \<open>Retrying until success: after any number of attempts the money has moved at most once.\<close>

lemma bal_retries:
  assumes "\<forall>tx \<in> set txs. IdempotencyKey tx = k" "posted k s"
  shows "foldl (\<lambda>s tx. snd (post p tx s)) s txs = s"
  using assms by (induction txs) (auto simp: post_replay)

end

lemma net_append [table_simps]: "net c (ps @ qs) = net c ps + net c qs"
  by (simp add: net_def table_simps)

lemma net_Cons [table_simps]:
  "net c (p # ps) = (if AccountCode p = c then Credit p - Debit p else 0) + net c ps"
  by (simp add: net_def table_simps)

lemma net_Nil [table_simps]: "net c [] = 0"
  by (simp add: net_def table_simps)

lemma posting_simps [simp]:
  "AccountCode (debit c n) = c" "Debit (debit c n) = n" "Credit (debit c n) = 0"
  "AccountCode (credit c n) = c" "Debit (credit c n) = 0" "Credit (credit c n) = n"
  by (simp_all add: debit_def credit_def)

lemma sum_mk_entry:
  "sum_where (\<lambda>e. en_account e = c) (\<lambda>e. en_credit e - en_debit e) (map (mk_entry now i cur) ps) = net c ps"
  by (induction ps) (auto simp: mk_entry_def table_simps)

lemma bal_Post_fresh:
  assumes "\<not> posted (IdempotencyKey tx) s" "fst (Post now i tx s) = Inr j"
  shows "bal c (snd (Post now i tx s)) = bal c s + net c (Postings tx)"
proof (cases rule: Post_cases[of now i tx s])
  case (replay t)
  with assms(1) postedI[OF replay(1,2)] show ?thesis by simp
next
  case (fresh cur)
  then show ?thesis by (simp add: bal_def table_simps sum_mk_entry)
qed (use assms in simp)

text \<open>When \<open>Post\<close> succeeds: accounts in the currency, a fresh key and sums that agree.\<close>

lemma insert_entries_ok:
  "\<forall>p \<in> set ps. \<exists>a \<in> set (accounts s). ac_code a = AccountCode p \<and> ac_currency a = cur \<Longrightarrow>
   insert_entries now i cur ps s = (Inr (), s\<lparr>entries := entries s @ map (mk_entry now i cur) ps\<rparr>)"
proof (induction ps arbitrary: s)
  case (Cons p ps)
  then have "exists_where (\<lambda>a. ac_code a = AccountCode p \<and> ac_currency a = cur) (accounts s)"
    by (auto simp: exists_where_iff)
  moreover have "\<forall>p \<in> set ps. \<exists>a \<in> set (accounts (s\<lparr>entries := entries s @ [mk_entry now i cur p']\<rparr>)).
      ac_code a = AccountCode p \<and> ac_currency a = cur" for p' using Cons.prems by simp
  ultimately show ?case using Cons.IH by (simp add: mk_entry_def)
qed simp

lemma sum_tx_mk_entry:
  "sum_where (\<lambda>e. en_tx e = i) en_debit (map (mk_entry now i cur) ps) = sum_list (map Debit ps)"
  "sum_where (\<lambda>e. en_tx e = i) en_credit (map (mk_entry now i cur) ps) = sum_list (map Credit ps)"
  by (induction ps) (auto simp: mk_entry_def table_simps)

lemma ledger_fresh_tx:
  assumes "ledger_inv s" "i \<notin> lt_id ` set (ltxs s)"
  shows "sum_where (\<lambda>e. en_tx e = i) f (entries s) = 0"
  using assms by (intro sum_where_False) (auto simp: ledger_inv_def)

lemma Post_succeeds:
  assumes "ledger_inv s" "Validate (Postings tx) = None"
    and "IdempotencyKey tx \<noteq> []" "Kind tx \<noteq> []" "Reference tx \<noteq> []"
    and "\<not> posted (IdempotencyKey tx) s" "i \<notin> lt_id ` set (ltxs s)"
    and "\<forall>p \<in> set (Postings tx). \<exists>a \<in> set (accounts s). ac_code a = AccountCode p \<and>
      ac_currency a = (if TxCurrency tx = [] then ''EUR'' else TxCurrency tx)"
    and "sum_list (map Debit (Postings tx)) = sum_list (map Credit (Postings tx))"
  shows "fst (Post now i tx s) = Inr i"
proof -
  have n: "find (\<lambda>t. lt_idem t = IdempotencyKey tx) (ltxs s) = None"
    using assms(6) by (auto simp: find_None_iff_all dest: postedI)
  have u: "\<not> exists_where (\<lambda>t. lt_id t = i) (ltxs s)" using assms(7) by (auto simp: exists_where_iff)
  define cur where "cur = (if TxCurrency tx = [] then ''EUR'' else TxCurrency tx)"
  let ?s1 = "s\<lparr>ltxs := ltxs s @ [\<lparr>lt_id = i, lt_kind = Kind tx, lt_ref = Reference tx,
    lt_idem = IdempotencyKey tx, lt_currency = cur\<rparr>]\<rparr>"
  have "insert_entries now i cur (Postings tx) ?s1 =
      (Inr (), ?s1\<lparr>entries := entries ?s1 @ map (mk_entry now i cur) (Postings tx)\<rparr>)"
    using assms(8) by (intro insert_entries_ok) (simp add: cur_def)
  then have "fst (post_body now i cur tx s) = Inr i"
    using assms(9) by (simp add: post_body_def n u Let_def ledger_assert_balanced_def table_simps
        ledger_fresh_tx[OF assms(1,7)] sum_tx_mk_entry)
  then show ?thesis using assms(2-5) by (simp add: Post_def Let_def cur_def)
qed

lemma Post_balanced:
  assumes "ledger_inv s" "\<not> posted (IdempotencyKey tx) s" "fst (Post now i tx s) = Inr j"
  shows "sum_list (map Debit (Postings tx)) = sum_list (map Credit (Postings tx))"
proof (cases rule: Post_cases[of now i tx s])
  case (fresh cur)
  have "en_tx e \<noteq> i" if "e \<in> set (entries s)" for e
    using assms(1) fresh(2) that by (auto simp: ledger_inv_def)
  then have "sum_where (\<lambda>e. en_tx e = i) f (entries s) = 0" for f
    by (intro sum_where_False) auto
  with fresh(7) show ?thesis
    by (simp add: fresh(5) ledger_assert_balanced_def table_simps sum_tx_mk_entry)
next
  case (replay t)
  with assms(2) postedI[OF replay(1,2)] show ?thesis by simp
qed (use assms in simp_all)

interpretation lg: ledger_api ledger_inv "\<lambda>p. Post (fst p) (snd p)" bal posted
proof (unfold_locales, goal_cases)
  case (1 s p tx) then show ?case by (rule Post_inv)
next
  case (2 p tx s e) then show ?case by (simp add: frame_simps)
next
  case (3 p tx s i) then show ?case
    by (cases rule: Post_cases[of "fst p" "snd p" tx s]) (auto intro: postedI)
next
  case (4 k p tx s) then show ?case
    by (cases rule: Post_cases[of "fst p" "snd p" tx s]) (auto simp: posted_def)
next
  case (5 tx s p) then show ?case
    by (cases rule: Post_cases[of "fst p" "snd p" tx s]) auto
next
  case (6 tx s p i c) then show ?case by (rule bal_Post_fresh)
next
  case (7 s tx p i) then show ?case by (rule Post_balanced)
qed

section \<open>Properties\<close>

text \<open>The sum of the signed entries of one transaction is zero, so the sum of all balances is.\<close>

lemma sum_balances_zero:
  assumes "ledger_inv s"
  shows "sum_list (map (\<lambda>a. bal (ac_code a) s) (accounts s)) = 0"
proof -
  let ?f = "\<lambda>e. en_credit e - en_debit e"
  have "sum_list (map (\<lambda>c. bal c s) (map ac_code (accounts s))) = sum_list (map ?f (entries s))"
    unfolding bal_def using assms by (intro sum_by_key) (force simp: ledger_inv_def)+
  also have "\<dots> = sum_list (map (\<lambda>i. sum_where (\<lambda>e. en_tx e = i) ?f (entries s)) (map lt_id (ltxs s)))"
    using assms by (intro sum_by_key [symmetric]) (auto simp: ledger_inv_def)
  also have "\<dots> = sum_list (map (\<lambda>i. 0) (map lt_id (ltxs s)))"
    using assms
    by (intro arg_cong[of _ _ sum_list] map_cong)
       (auto simp: ledger_inv_def ledger_assert_balanced_def sum_where_diff [symmetric])
  also have "\<dots> = 0" by (simp add: map_replicate_const sum_list_replicate)
  finally show ?thesis by (simp add: o_def)
qed


text \<open>
  The ledger as the rest of the platform drives it: accounts are opened and transactions posted, in
  any order, with any arguments.
\<close>

definition empty_core :: core where
  "empty_core = \<lparr>accounts = [], ltxs = [], entries = [], outbox = [], audit = []\<rparr>"

inductive ledger_step :: "core \<Rightarrow> core \<Rightarrow> bool" where
  open_account: "ledger_step s (EnsureAccount c ot oi k cur s)"
| post: "ledger_step s (snd (Post now i tx s))"
| emit: "ledger_step s (s\<lparr>outbox := Emit now at ai et b (outbox s)\<rparr>)"
| log: "ledger_step s (s\<lparr>audit := audit s @ [r]\<rparr>)"

inductive_cases ledger_stepE: "ledger_step s s'"

lemma ledger_inv_empty: "ledger_inv empty_core"
  by (simp add: ledger_inv_def empty_core_def)

lemma ledger_inv_frame [simp]:
  "ledger_inv (s\<lparr>outbox := ob\<rparr>) = ledger_inv s" "ledger_inv (s\<lparr>audit := au\<rparr>) = ledger_inv s"
  by (simp_all add: ledger_inv_def)

lemma bal_frame [simp]:
  "bal c (s\<lparr>outbox := ob\<rparr>) = bal c s" "bal c (s\<lparr>audit := au\<rparr>) = bal c s"
  by (simp_all add: bal_def)

lemma posted_frame [simp]:
  "posted k (s\<lparr>outbox := ob\<rparr>) = posted k s" "posted k (s\<lparr>audit := au\<rparr>) = posted k s"
  by (simp_all add: posted_def)

lemma ledger_step_inv: "ledger_step s s' \<Longrightarrow> ledger_inv s \<Longrightarrow> ledger_inv s'"
  by (erule ledger_stepE) (simp_all add: EnsureAccount_inv Post_inv)

lemma ledger_reach_inv: "ledger_step\<^sup>*\<^sup>* s s' \<Longrightarrow> ledger_inv s \<Longrightarrow> ledger_inv s'"
  by (induction rule: rtranclp_induct) (auto intro: ledger_step_inv)

text \<open>
  C4. Whatever accounts are opened and transactions posted, valid or not, the balances of all
  accounts add up to zero: no operation of the ledger creates or destroys money. Sums are exact,
  although \<open>Validate\<close> adds in 64 bits and can wrap.
\<close>
theorem books_balance:
  assumes "ledger_step\<^sup>*\<^sup>* empty_core s"
  shows "ledger_inv s \<and> sum_list (map (\<lambda>a. bal (ac_code a) s) (accounts s)) = 0"
  using ledger_reach_inv[OF assms ledger_inv_empty] sum_balances_zero by blast

definition demo_tx :: transaction where
  "demo_tx = \<lparr>Kind = ''topup'', Reference = ''topup:1'', IdempotencyKey = ''k1'', TxCurrency = '''',
     Postings = [debit ''psp'' 500, credit ''w'' 500]\<rparr>"

definition demo_accounts :: core where
  "demo_accounts = EnsureAccount ''w'' ''user'' None ''wallet'' '''' (EnsureAccount ''psp'' ''psp'' None ''clearing'' '''' empty_core)"

theorem books_balance_witness:
  "let s = snd (Post 0 ''t1'' demo_tx demo_accounts)
   in sum_list (map (\<lambda>a. bal (ac_code a) s) (accounts s)) = 0 \<and> bal ''w'' s = 500 \<and> bal ''psp'' s = - 500"
proof -
  let ?s = "snd (Post 0 ''t1'' demo_tx demo_accounts)"
  have "ledger_step\<^sup>*\<^sup>* empty_core demo_accounts"
    unfolding demo_accounts_def by (meson ledger_step.open_account r_into_rtranclp rtranclp_trans)
  then have "ledger_step\<^sup>*\<^sup>* empty_core ?s" by (rule rtranclp.rtrancl_into_rtrancl) (rule ledger_step.post)
  note z = books_balance[OF this, THEN conjunct2]
  have "bal ''w'' ?s = 500" "bal ''psp'' ?s = - 500" by code_simp+
  with z show ?thesis unfolding Let_def by blast
qed

text \<open>
  C2. \<open>Post\<close> moves money exactly once. When it succeeds with a key that was not used, every account
  moves by exactly the net of its postings, whose debits equal their credits exactly; when the key
  was used already, or when it fails, the whole state is unchanged; and after a success any further
  transaction with the same key, whatever its postings, changes nothing.
\<close>
theorem Post_exactly_once:
  assumes "ledger_inv s"
  shows "case fst (Post now i tx s) of
           Inl e \<Rightarrow> snd (Post now i tx s) = s
         | Inr j \<Rightarrow>
             (if posted (IdempotencyKey tx) s then snd (Post now i tx s) = s
              else sum_list (map Debit (Postings tx)) = sum_list (map Credit (Postings tx)) \<and>
                   (\<forall>c. bal c (snd (Post now i tx s)) = bal c s + net c (Postings tx))) \<and>
             (\<forall>now' i' tx'. IdempotencyKey tx' = IdempotencyKey tx \<longrightarrow>
                snd (Post now' i' tx' (snd (Post now i tx s))) = snd (Post now i tx s))"
proof (cases "fst (Post now i tx s)")
  case (Inl e)
  then show ?thesis by (simp add: frame_simps)
next
  case (Inr j)
  then show ?thesis
    using lg.post_replay[of tx s "(now, i)"] lg.post_twice[of "(now, i)" tx s j _ "(n', i')" for n' i']
      lg.post_moves[of tx s "(now, i)" j] lg.post_conserves[of s tx "(now, i)" j] assms
    by simp
qed

theorem Post_exactly_once_witness:
  "fst (Post 0 ''t1'' demo_tx demo_accounts) = Inr ''t1'' \<and>
   snd (Post 9 ''t2'' (demo_tx\<lparr>Postings := [debit ''w'' 500, credit ''psp'' 500]\<rparr>)
     (snd (Post 0 ''t1'' demo_tx demo_accounts))) = snd (Post 0 ''t1'' demo_tx demo_accounts)"
proof -
  have r: "fst (Post 0 ''t1'' demo_tx demo_accounts) = Inr ''t1''" by code_simp
  have i: "ledger_inv demo_accounts"
    unfolding demo_accounts_def by (intro EnsureAccount_inv ledger_inv_empty)
  have "IdempotencyKey (demo_tx\<lparr>Postings := [debit ''w'' 500, credit ''psp'' 500]\<rparr>) = IdempotencyKey demo_tx"
    by simp
  with Post_exactly_once[OF i, of 0 "''t1''" demo_tx] r show ?thesis by simp
qed

end
