(* ===== verification/Geo.thy ===== *)
theory Geo
  imports Httpx Complex_Main
begin

text \<open>
  \<open>domain/geo/geo.go\<close>: points, distances and the bounds of the service. Coordinates and distances
  are real numbers: the formulas are those of the code, without the rounding of \<open>float64\<close>.
  City names are the bytes of their UTF-8 text.
\<close>

record point =
  Lat :: real
  Lng :: real

definition mk_point :: "real \<Rightarrow> real \<Rightarrow> point" where
  "mk_point x y = \<lparr>Lat = x, Lng = y\<rparr>"

definition Valid :: "point \<Rightarrow> bool" where
  "Valid p \<longleftrightarrow> Lat p \<ge> - 90 \<and> Lat p \<le> 90 \<and> Lng p \<ge> - 180 \<and> Lng p \<le> 180 \<and> \<not> (Lat p = 0 \<and> Lng p = 0)"

definition InKosovo :: "point \<Rightarrow> bool" where
  "InKosovo p \<longleftrightarrow> Lat p \<ge> 41.85 \<and> Lat p \<le> 43.30 \<and> Lng p \<ge> 19.95 \<and> Lng p \<le> 21.80"

definition earthRadiusM :: real where "earthRadiusM = 6371000"

definition Haversine :: "point \<Rightarrow> point \<Rightarrow> real" where
  "Haversine a b =
     (let la1 = Lat a * pi / 180; la2 = Lat b * pi / 180;
          dLat = (Lat b - Lat a) * pi / 180; dLng = (Lng b - Lng a) * pi / 180;
          h = sin (dLat / 2) * sin (dLat / 2) + cos la1 * cos la2 * sin (dLng / 2) * sin (dLng / 2)
      in 2 * earthRadiusM * arcsin (sqrt h))"

definition e_diaeresis :: string where "e_diaeresis = [CHR 0xC3, CHR 0xAB]"
definition c_cedilla :: string where "c_cedilla = [CHR 0xC3, CHR 0xA7]"

definition cities :: "(string \<times> point) list" where
  "cities =
     [(''Prishtin'' @ e_diaeresis, mk_point 42.6629 21.1655),
      (''Prizren'', mk_point 42.2139 20.7397),
      (''Pej'' @ e_diaeresis, mk_point 42.6593 20.2887),
      (''Gjakov'' @ e_diaeresis, mk_point 42.3803 20.4308),
      (''Gjilan'', mk_point 42.4637 21.4694),
      (''Mitrovic'' @ e_diaeresis, mk_point 42.8914 20.8660),
      (''Ferizaj'', mk_point 42.3706 21.1483),
      (''Podujev'' @ e_diaeresis, mk_point 42.9106 21.1933),
      (''Vushtrri'', mk_point 42.8231 20.9675),
      (''Suharek'' @ e_diaeresis, mk_point 42.3586 20.8256),
      (''Rahovec'', mk_point 42.3994 20.6547),
      (''Drenas'', mk_point 42.6242 20.8931),
      (''Lipjan'', mk_point 42.5244 21.1256),
      (''Malishev'' @ e_diaeresis, mk_point 42.4822 20.7458),
      (''Fush'' @ e_diaeresis @ '' Kosov'' @ e_diaeresis, mk_point 42.6367 21.0972),
      (''Skenderaj'', mk_point 42.7469 20.7897),
      (''Viti'', mk_point 42.3222 21.3572),
      (''De'' @ c_cedilla @ ''an'', mk_point 42.5406 20.2886),
      (''Istog'', mk_point 42.7803 20.4856),
      (''Kamenic'' @ e_diaeresis, mk_point 42.5786 21.5772)]"

text \<open>The loop of \<open>CityOf\<close> over the cities after the first, with the best one so far.\<close>

fun CityOf_loop :: "point \<Rightarrow> string \<Rightarrow> real \<Rightarrow> (string \<times> point) list \<Rightarrow> string" where
  "CityOf_loop p best d0 [] = best"
| "CityOf_loop p best d0 ((n, c) # cs) =
     (let d = Haversine p c in if d < d0 then CityOf_loop p n d cs else CityOf_loop p best d0 cs)"

definition CityOf :: "point \<Rightarrow> string" where
  "CityOf p = (if \<not> InKosovo p then []
               else case cities of [] \<Rightarrow> []
                    | (n, c) # cs \<Rightarrow> CityOf_loop p n (Haversine p c) cs)"

section \<open>Facts\<close>

lemma Haversine_refl [simp]: "Haversine p p = 0"
  by (simp add: Haversine_def)

lemma sin_sq_flip: "sin ((a - b) * pi / 180 / 2) * sin ((a - b) * pi / 180 / 2)
   = sin ((b - a) * pi / 180 / 2) * sin ((b - a) * pi / 180 / 2)"
proof -
  have "(a - b) * pi / 180 / 2 = - ((b - a) * pi / 180 / 2)" by (simp add: field_simps)
  then have "sin ((a - b) * pi / 180 / 2) = - sin ((b - a) * pi / 180 / 2)" by (simp only: sin_minus)
  then show ?thesis by (simp only: minus_mult_minus)
qed

lemma Haversine_sym: "Haversine a b = Haversine b a"
proof -
  have flip: "c1 * c2 * s * s = c2 * c1 * t * t" if "s * s = t * t" for c1 c2 s t :: real
  proof -
    have "c1 * c2 * s * s = (c1 * c2) * (s * s)" by (simp only: mult.assoc)
    also have "\<dots> = (c2 * c1) * (t * t)" by (simp only: that mult.commute[of c1])
    finally show ?thesis by (simp only: mult.assoc)
  qed
  show ?thesis
    unfolding Haversine_def Let_def
    by (simp only: sin_sq_flip[of "Lat a" "Lat b"] flip[OF sin_sq_flip[of "Lng a" "Lng b"]])
qed

text \<open>
  For latitudes between the poles the argument of the arc sine lies between 0 and 1, so the formula
  never leaves its domain; the distance is at least the one along a meridian.
\<close>

definition hav :: "point \<Rightarrow> point \<Rightarrow> real" where
  "hav a b = sin ((Lat b - Lat a) * pi / 180 / 2) * sin ((Lat b - Lat a) * pi / 180 / 2) +
     cos (Lat a * pi / 180) * cos (Lat b * pi / 180) *
     sin ((Lng b - Lng a) * pi / 180 / 2) * sin ((Lng b - Lng a) * pi / 180 / 2)"

lemma Haversine_hav: "Haversine a b = 2 * earthRadiusM * arcsin (sqrt (hav a b))"
  by (simp add: Haversine_def hav_def Let_def)

lemma cos_lat_nonneg: "\<bar>x\<bar> \<le> 90 \<Longrightarrow> 0 \<le> cos (x * pi / 180)"
proof (rule cos_ge_zero)
  assume "\<bar>x\<bar> \<le> 90"
  then have "x * pi \<le> 90 * pi" "(- 90) * pi \<le> x * pi"
    by (intro mult_right_mono; simp add: abs_le_iff)+
  then show "- (pi / 2) \<le> x * pi / 180" "x * pi / 180 \<le> pi / 2" by simp_all
qed

lemma cos_prod_le: "cos x * cos y \<le> (1 :: real) - sin ((y - x) / 2) * sin ((y - x) / 2)"
proof -
  have "2 * ((y - x) / 2) = y - x" by simp
  then have "cos (y - x) = 1 - 2 * (sin ((y - x) / 2) * sin ((y - x) / 2))"
    using cos_double_sin[of "(y - x) / 2"] by (simp only: power2_eq_square)
  moreover have "cos x * cos y = (cos (x - y) + cos (x + y)) / 2" by (rule cos_times_cos)
  moreover have "cos (x - y) = cos (y - x)" by (metis cos_minus minus_diff_eq)
  moreover have "cos (x + y) \<le> 1" by simp
  moreover have "P \<le> 1 - S" if "C = 1 - 2 * S" "P = (A + B) / 2" "A = C" "B \<le> 1" for A B C P S :: real
    using that by (simp add: field_simps)
  ultimately show ?thesis by blast
qed

lemma hav_bounds:
  assumes "\<bar>Lat a\<bar> \<le> 90" "\<bar>Lat b\<bar> \<le> 90"
  shows "sin ((Lat b - Lat a) * pi / 180 / 2) * sin ((Lat b - Lat a) * pi / 180 / 2) \<le> hav a b"
    and "0 \<le> hav a b" "hav a b \<le> 1"
proof -
  define s where "s = sin ((Lng b - Lng a) * pi / 180 / 2)"
  define c where "c = cos (Lat a * pi / 180) * cos (Lat b * pi / 180)"
  define u where "u = sin ((Lat b - Lat a) * pi / 180 / 2)"
  have hav: "hav a b = u * u + c * (s * s)" by (simp add: hav_def s_def c_def u_def mult.assoc)
  have c0: "0 \<le> c" using assms by (simp add: c_def cos_lat_nonneg)
  have "s * s \<le> 1" using sin_squared_eq[of "(Lng b - Lng a) * pi / 180 / 2"]
    by (simp add: s_def power2_eq_square)
  then have "c * (s * s) \<le> c * 1" using c0 by (intro mult_left_mono)
  moreover have "c \<le> 1 - u * u"
    using cos_prod_le[of "Lat a * pi / 180" "Lat b * pi / 180"]
    by (simp add: c_def u_def diff_divide_distrib left_diff_distrib)
  ultimately show "hav a b \<le> 1" by (simp add: hav)
  have "0 \<le> c * (s * s)" using c0 by simp
  then show "u * u \<le> hav a b" "0 \<le> hav a b" by (simp_all add: hav)
qed

lemma Haversine_nonneg: "\<bar>Lat a\<bar> \<le> 90 \<Longrightarrow> \<bar>Lat b\<bar> \<le> 90 \<Longrightarrow> 0 \<le> Haversine a b"
  using hav_bounds[of a b] arcsin_le_arcsin[of 0 "sqrt (hav a b)"]
  by (simp add: Haversine_hav earthRadiusM_def)

lemma Haversine_ge_meridian:
  assumes "\<bar>Lat a\<bar> \<le> 90" "\<bar>Lat b\<bar> \<le> 90" "Lat a \<le> Lat b"
  shows "earthRadiusM * ((Lat b - Lat a) * pi / 180) \<le> Haversine a b"
proof -
  let ?d = "(Lat b - Lat a) * pi / 180"
  have "(Lat b - Lat a) * pi \<le> 180 * pi" using assms by (intro mult_right_mono) auto
  then have d: "0 \<le> ?d" "?d \<le> pi" using assms(3) by simp_all
  have s0: "0 \<le> sin (?d / 2)" using d by (intro sin_ge_zero) auto
  have "sin (?d / 2) \<le> sqrt (hav a b)"
    using hav_bounds(1)[OF assms(1,2)] s0 by (intro real_le_rsqrt) (simp add: power2_eq_square)
  then have "arcsin (sin (?d / 2)) \<le> arcsin (sqrt (hav a b))"
    using hav_bounds(3)[OF assms(1,2)] by (intro arcsin_le_arcsin) auto
  moreover have "arcsin (sin (?d / 2)) = ?d / 2" using d pi_ge_zero by (intro arcsin_sin) linarith+
  ultimately have "?d / 2 \<le> arcsin (sqrt (hav a b))" by (simp only:)
  then have "2 * earthRadiusM * (?d / 2) \<le> 2 * earthRadiusM * arcsin (sqrt (hav a b))"
    by (intro mult_left_mono) (simp_all add: earthRadiusM_def)
  moreover have "2 * earthRadiusM * (?d / 2) = earthRadiusM * ?d" by simp
  ultimately show ?thesis by (simp only: Haversine_hav)
qed

lemma CityOf_loop_in:
  "\<exists>x. (CityOf_loop p best (Haversine p bc) cs, x) \<in> set ((best, bc) # cs) \<and>
       Haversine p x \<le> Haversine p bc \<and> (\<forall>(n, c) \<in> set cs. Haversine p x \<le> Haversine p c)"
proof (induction cs arbitrary: best bc)
  case (Cons d ds)
  obtain m e where d: "d = (m, e)" by (cases d)
  show ?case
  proof (cases "Haversine p e < Haversine p bc")
    case True
    from Cons.IH[of m e] obtain x where x: "(CityOf_loop p m (Haversine p e) ds, x) \<in> set ((m, e) # ds)"
      "Haversine p x \<le> Haversine p e" "\<forall>(n, c) \<in> set ds. Haversine p x \<le> Haversine p c" by blast
    show ?thesis by (rule exI[of _ x]) (use True x d in \<open>auto simp: Let_def\<close>)
  next
    case False
    from Cons.IH[of best bc] obtain x where x: "(CityOf_loop p best (Haversine p bc) ds, x) \<in> set ((best, bc) # ds)"
      "Haversine p x \<le> Haversine p bc" "\<forall>(n, c) \<in> set ds. Haversine p x \<le> Haversine p c" by blast
    show ?thesis by (rule exI[of _ x]) (use False x d in \<open>auto simp: Let_def\<close>)
  qed
qed simp

text \<open>A point of the service area is named after a city nearest to it; any other point is not named.\<close>

lemma CityOf_nearest:
  assumes "InKosovo p"
  shows "\<exists>x. (CityOf p, x) \<in> set cities \<and> (\<forall>(n, c) \<in> set cities. Haversine p x \<le> Haversine p c)"
proof (cases cities)
  case (Cons d ds)
  obtain n0 c0 where d: "d = (n0, c0)" by (cases d)
  have "CityOf p = CityOf_loop p n0 (Haversine p c0) ds"
    unfolding CityOf_def Cons d using assms by simp
  with CityOf_loop_in[of p n0 c0 ds] show ?thesis unfolding Cons d by auto
qed (simp add: cities_def)

lemma CityOf_outside: "\<not> InKosovo p \<Longrightarrow> CityOf p = []"
  by (simp add: CityOf_def)

end
