(* ===== verification/Pricing.thy ===== *)
theory Pricing
  imports Geo Money
begin

text \<open>
  \<open>modules/pricing/pricing.go\<close>: fares from the rule of an area and category, and quotes that bind
  the price of a ride to what the server computed. The map provider is not part of the repository's
  logic: the route it answers is an argument of \<open>Quote\<close>, and so is the estimate of the nearest
  driver.
\<close>

definition ErrOutsideServiceArea [err_defs]: "ErrOutsideServiceArea = API ''OUTSIDE_SERVICE_AREA'' 422 False []"
definition ErrQuoteExpired [err_defs]: "ErrQuoteExpired = API ''QUOTE_EXPIRED'' 422 False []"
definition ErrNoPricing [err_defs]: "ErrNoPricing = API ''NO_PRICING'' 503 True []"

definition QuoteTTL :: time where "QuoteTTL = 2 * Minute"

record rule =
  RuleID :: uuid
  AreaID :: string
  CategoryID :: string
  RuleCurrency :: string
  BaseMinor :: int
  PerKmMinor :: int
  PerMinMinor :: int
  MinimumMinor :: int
  CancellationFee :: int
  CancellationGraceSeconds :: int
  SurgeBP :: int
  CommissionBP :: int
  Seats :: int
  Sort :: int

section \<open>Fares\<close>

definition Compute :: "rule \<Rightarrow> int \<Rightarrow> int \<Rightarrow> int" where
  "Compute r distanceM durationS =
     (let d = (if distanceM < 0 then 0 else distanceM);
          t = (if durationS < 0 then 0 else durationS);
          km = quot (add64 (mul64 (PerKmMinor r) d) 500) 1000;
          mins = quot (add64 (mul64 (PerMinMinor r) t) 30) 60;
          p = add64 (add64 (BaseMinor r) km) mins;
          surge = (if SurgeBP r < 10000 then 10000 else SurgeBP r);
          p = quot (add64 (mul64 p surge) 5000) 10000;
          p = mul64 (quot (add64 p 9) 10) 10
      in if p < MinimumMinor r then MinimumMinor r else p)"

definition Commission :: "int \<Rightarrow> int \<Rightarrow> int" where
  "Commission priceMinor commissionBP =
     (if commissionBP < 0 then 0 else quot (add64 (mul64 priceMinor commissionBP) 5000) 10000)"

section \<open>Areas, rules and quotes\<close>

record area =
  AreaId :: string
  AreaName :: string
  Center :: point
  RadiusKm :: real
  ar_active :: bool

record category =
  ct_id :: string
  ct_seats :: int
  ct_sort :: int
  ct_active :: bool

record rule_row =
  rr_rule :: rule
  rr_from :: time
  rr_to :: "time option"

record quote_row =
  qt_id :: uuid
  qt_customer :: uuid
  qt_area :: string
  qt_category :: string
  qt_rule :: uuid
  qt_pickup :: point
  qt_pickup_address :: "string option"
  qt_dropoff :: point
  qt_dropoff_address :: "string option"
  qt_distance :: int
  qt_duration :: int
  qt_price :: int
  qt_currency :: string
  qt_surge :: int
  qt_expires :: time

record pricing_db =
  areas :: "area list"
  categories :: "category list"
  rule_rows :: "rule_row list"
  quotes :: "quote_row list"

text \<open>The loop over the active areas, with the best one so far and its distance.\<close>

fun ResolveArea_loop :: "point \<Rightarrow> (area \<times> real) option \<Rightarrow> area list \<Rightarrow> area option" where
  "ResolveArea_loop p best [] = map_option fst best"
| "ResolveArea_loop p best (a # as) =
     (let d = Haversine (Center a) p
      in if d \<le> RadiusKm a * 1000 \<and> (case best of None \<Rightarrow> True | Some (_, bestD) \<Rightarrow> d < bestD)
         then ResolveArea_loop p (Some (a, d)) as else ResolveArea_loop p best as)"

definition ResolveArea :: "point \<Rightarrow> pricing_db \<Rightarrow> err + area" where
  "ResolveArea p db =
     (case ResolveArea_loop p None (filter ar_active (areas db)) of
        None \<Rightarrow> Inl ErrOutsideServiceArea | Some a \<Rightarrow> Inr a)"

text \<open>\<open>DISTINCT ON (category)\<close> in descending order of \<open>valid_from\<close>: the latest row of a list.\<close>

fun latest :: "rule_row list \<Rightarrow> rule_row option" where
  "latest [] = None"
| "latest (r # rs) = (case latest rs of None \<Rightarrow> Some r
                      | Some r' \<Rightarrow> if rr_from r' > rr_from r then Some r' else Some r)"

definition in_force :: "time \<Rightarrow> rule_row \<Rightarrow> bool" where
  "in_force dnow r \<longleftrightarrow> rr_from r \<le> dnow \<and> (case rr_to r of None \<Rightarrow> True | Some t \<Rightarrow> t > dnow)"

definition Rules :: "time \<Rightarrow> string \<Rightarrow> pricing_db \<Rightarrow> rule list" where
  "Rules dnow areaID db =
     sort_key Sort (List.map_filter
       (\<lambda>c. if ct_active c then
              map_option (\<lambda>rr. (rr_rule rr)\<lparr>RuleCurrency := TrimSpace (RuleCurrency (rr_rule rr)),
                                 Seats := ct_seats c, Sort := ct_sort c\<rparr>)
                (latest (filter (\<lambda>rr. AreaID (rr_rule rr) = areaID \<and> CategoryID (rr_rule rr) = ct_id c \<and>
                                      in_force dnow rr) (rule_rows db)))
            else None) (categories db))"

record quote_input =
  Pickup :: point
  Dropoff :: point
  PickupAddress :: string
  DropoffAddress :: string

record quote =
  QuoteID :: uuid
  QCategory :: string
  QSeats :: int
  QPrice :: int
  QCurrency :: string
  QSurge :: int
  QPickupETA :: "int option"
  QExpires :: time

definition mk_quote_row :: "uuid \<Rightarrow> string \<Rightarrow> quote_input \<Rightarrow> int \<times> int \<Rightarrow> time \<Rightarrow> uuid \<Rightarrow> rule \<Rightarrow> quote_row" where
  "mk_quote_row customer area_id inp route expires i r =
     \<lparr>qt_id = i, qt_customer = customer, qt_area = area_id, qt_category = CategoryID r, qt_rule = RuleID r,
      qt_pickup = Pickup inp, qt_pickup_address = nullable (PickupAddress inp),
      qt_dropoff = Dropoff inp, qt_dropoff_address = nullable (DropoffAddress inp),
      qt_distance = fst route, qt_duration = snd route, qt_price = Compute r (fst route) (snd route),
      qt_currency = RuleCurrency r, qt_surge = SurgeBP r, qt_expires = expires\<rparr>"

text \<open>The insertion of one quote per rule; \<open>ids\<close> supplies the generated identifiers.\<close>

fun insert_quotes ::
  "(rule \<Rightarrow> uuid \<Rightarrow> quote_row) \<Rightarrow> (string \<Rightarrow> int option) \<Rightarrow> (nat \<Rightarrow> uuid) \<Rightarrow> nat \<Rightarrow> rule list \<Rightarrow>
   quote list \<Rightarrow> (pricing_db, err, quote list) op" where
  "insert_quotes mk eta ids n [] out db = (Inr out, db)"
| "insert_quotes mk eta ids n (r # rs) out db =
     (let q = mk r (ids n)
      in if exists_where (\<lambda>q'. qt_id q' = ids n) (quotes db) then (Inl PgUnique, db)
         else insert_quotes mk eta ids (Suc n) rs
           (out @ [\<lparr>QuoteID = ids n, QCategory = CategoryID r, QSeats = Seats r, QPrice = qt_price q,
                    QCurrency = RuleCurrency r, QSurge = SurgeBP r, QPickupETA = eta (CategoryID r),
                    QExpires = qt_expires q\<rparr>])
           (db\<lparr>quotes := quotes db @ [q]\<rparr>))"

definition Quote ::
  "time \<Rightarrow> time \<Rightarrow> (nat \<Rightarrow> uuid) \<Rightarrow> (point \<Rightarrow> point \<Rightarrow> (int \<times> int) option) \<Rightarrow> (string \<Rightarrow> int option) \<Rightarrow>
   uuid \<Rightarrow> quote_input \<Rightarrow> (pricing_db, err, area \<times> int \<times> int \<times> quote list) op" where
  "Quote gnow dnow ids route eta customerID inp db =
     (let fields = add_field_if (\<not> Valid (Pickup inp) \<or> \<not> InKosovo (Pickup inp)) ''pickup'' ''invalid'' [];
          fields = add_field_if (\<not> Valid (Dropoff inp) \<or> \<not> InKosovo (Dropoff inp)) ''dropoff'' ''invalid'' fields;
          fields = add_field_if (Haversine (Pickup inp) (Dropoff inp) < 50) ''dropoff'' ''same_as_pickup'' fields;
          inp = inp\<lparr>PickupAddress := clip (PickupAddress inp) 200, DropoffAddress := clip (DropoffAddress inp) 200\<rparr>
      in if fields \<noteq> [] then (Inl (ErrValidation fields), db)
         else case ResolveArea (Pickup inp) db of
           Inl e \<Rightarrow> (Inl e, db)
         | Inr a \<Rightarrow>
             (case route (Pickup inp) (Dropoff inp) of
                None \<Rightarrow> (Inl ErrUnavailable, db)
              | Some rt \<Rightarrow>
                  let rules = Rules dnow (AreaId a) db in
                  if rules = [] then (Inl ErrNoPricing, db)
                  else (case begin_func
                               (insert_quotes (\<lambda>r i. mk_quote_row customerID (AreaId a) inp rt (gnow + QuoteTTL) i r)
                                  eta ids 0 rules []) db of
                          (Inl e, db') \<Rightarrow> (Inl e, db')
                        | (Inr qs, db') \<Rightarrow> (Inr (a, fst rt, snd rt, qs), db'))))"

text \<open>A stored quote is the row with the commission and cancellation terms of its rule.\<close>

record stored_quote =
  sq_row :: quote_row
  sq_commission_bp :: int
  sq_cancel_fee :: int
  sq_cancel_grace :: int

definition rule_of :: "uuid \<Rightarrow> pricing_db \<Rightarrow> rule option" where
  "rule_of i db = map_option rr_rule (find (\<lambda>rr. RuleID (rr_rule rr) = i) (rule_rows db))"

definition LoadQuote :: "time \<Rightarrow> uuid \<Rightarrow> uuid \<Rightarrow> pricing_db \<Rightarrow> err + stored_quote" where
  "LoadQuote gnow quoteID customerID db =
     (case find (\<lambda>q. qt_id q = quoteID \<and> qt_customer q = customerID) (quotes db) of
        None \<Rightarrow> Inl ErrNotFound
      | Some q \<Rightarrow>
          (case rule_of (qt_rule q) db of
             None \<Rightarrow> Inl ErrNotFound
           | Some r \<Rightarrow>
               if gnow > qt_expires q then Inl ErrQuoteExpired
               else Inr \<lparr>sq_row = q\<lparr>qt_currency := TrimSpace (qt_currency q)\<rparr>,
                         sq_commission_bp = CommissionBP r, sq_cancel_fee = CancellationFee r,
                         sq_cancel_grace = CancellationGraceSeconds r\<rparr>))"

text \<open>The join of a quote with its rule that the rides module repeats in its own queries.\<close>

definition quote_rule :: "uuid \<Rightarrow> pricing_db \<Rightarrow> rule option" where
  "quote_rule quoteID db =
     (case find (\<lambda>q. qt_id q = quoteID) (quotes db) of None \<Rightarrow> None | Some q \<Rightarrow> rule_of (qt_rule q) db)"

section \<open>The fare in exact arithmetic\<close>

text \<open>
  The checks of the table \<open>pricing_rules\<close>, with generous upper bounds (10,000 EUR a kilometre or a
  minute, 100,000 km, three years) under which no intermediate value leaves 64 bits.
\<close>

definition rule_ok :: "rule \<Rightarrow> bool" where
  "rule_ok r \<longleftrightarrow> 0 \<le> BaseMinor r \<and> BaseMinor r \<le> 1000000000000 \<and>
     0 \<le> PerKmMinor r \<and> PerKmMinor r \<le> 1000000 \<and> 0 \<le> PerMinMinor r \<and> PerMinMinor r \<le> 1000000 \<and>
     0 \<le> MinimumMinor r \<and> 10000 \<le> SurgeBP r \<and> SurgeBP r \<le> 30000"

definition exact_base :: "rule \<Rightarrow> int \<Rightarrow> int \<Rightarrow> int" where
  "exact_base r d t = BaseMinor r + (PerKmMinor r * d + 500) div 1000 + (PerMinMinor r * t + 30) div 60"

definition exact_fare :: "rule \<Rightarrow> int \<Rightarrow> int \<Rightarrow> int" where
  "exact_fare r d t = (exact_base r d t * SurgeBP r + 5000) div 10000"

lemma exact_base_bounds:
  assumes "rule_ok r" "0 \<le> d" "d \<le> 100000000" "0 \<le> t" "t \<le> 100000000"
  shows "0 \<le> PerKmMinor r * d" "PerKmMinor r * d \<le> 100000000000000"
    "0 \<le> PerMinMinor r * t" "PerMinMinor r * t \<le> 100000000000000"
    "BaseMinor r \<le> exact_base r d t" "exact_base r d t \<le> 10000000000000"
proof -
  have mono: "x * y \<le> 1000000 * 100000000" "0 \<le> x * y"
    if "0 \<le> x" "x \<le> 1000000" "0 \<le> y" "y \<le> 100000000" for x y :: int
    using that mult_mono[of x 1000000 y 100000000] by (simp_all del: mult_numeral_left_semiring_numeral)
  note km = mono[of "PerKmMinor r" d] and mi = mono[of "PerMinMinor r" t]
  from assms km mi show a: "0 \<le> PerKmMinor r * d" "PerKmMinor r * d \<le> 100000000000000"
    "0 \<le> PerMinMinor r * t" "PerMinMinor r * t \<le> 100000000000000"
    by (simp_all add: rule_ok_def)
  have "0 \<le> (PerKmMinor r * d + 500) div 1000" "0 \<le> (PerMinMinor r * t + 30) div 60"
    using a by (simp_all add: pos_imp_zdiv_nonneg_iff)
  then show "BaseMinor r \<le> exact_base r d t" by (simp add: exact_base_def)
  have "1000 * ((PerKmMinor r * d + 500) div 1000) \<le> PerKmMinor r * d + 500"
    "60 * ((PerMinMinor r * t + 30) div 60) \<le> PerMinMinor r * t + 30"
    by (rule div_bounds; simp)+
  moreover have "BaseMinor r \<le> 1000000000000" using assms(1) by (simp add: rule_ok_def)
  ultimately show "exact_base r d t \<le> 10000000000000" using a unfolding exact_base_def by linarith
qed

lemma exact_fare_bounds:
  assumes "rule_ok r" "0 \<le> d" "d \<le> 100000000" "0 \<le> t" "t \<le> 100000000"
  shows "0 \<le> exact_base r d t * SurgeBP r" "exact_base r d t * SurgeBP r \<le> 300000000000000000"
    "exact_base r d t \<le> exact_fare r d t" "exact_fare r d t \<le> 30000000000000"
proof -
  note b = exact_base_bounds[OF assms]
  have s: "10000 \<le> SurgeBP r" "SurgeBP r \<le> 30000" "0 \<le> BaseMinor r" using assms(1) by (simp_all add: rule_ok_def)
  then have b0: "0 \<le> exact_base r d t" using b(5) by linarith
  then show p: "0 \<le> exact_base r d t * SurgeBP r" using s by simp
  have "exact_base r d t * SurgeBP r \<le> 10000000000000 * 30000"
    using b(6) s b0 by (intro mult_mono) auto
  then show q: "exact_base r d t * SurgeBP r \<le> 300000000000000000" by simp
  have lo: "exact_base r d t * 10000 \<le> exact_base r d t * SurgeBP r"
    using b0 s by (intro mult_left_mono) auto
  note dv = div_bounds[of 10000 "exact_base r d t * SurgeBP r + 5000"]
  from dv lo show "exact_base r d t \<le> exact_fare r d t" unfolding exact_fare_def by linarith
  from dv q show "exact_fare r d t \<le> 30000000000000" unfolding exact_fare_def by linarith
qed

lemma Compute_exact:
  assumes "rule_ok r" "0 \<le> d" "d \<le> 100000000" "0 \<le> t" "t \<le> 100000000"
  shows "Compute r d t = max (MinimumMinor r) ((exact_fare r d t + 9) div 10 * 10)"
proof -
  note b = exact_base_bounds[OF assms] and f = exact_fare_bounds[OF assms]
  have b0: "0 \<le> BaseMinor r" "BaseMinor r \<le> 1000000000000" "\<not> SurgeBP r < 10000"
    using assms(1) by (simp_all add: rule_ok_def)
  have km: "quot (add64 (mul64 (PerKmMinor r) d) 500) 1000 = (PerKmMinor r * d + 500) div 1000"
    using b by (simp add: arith64 in64_bounded)
  have mi: "quot (add64 (mul64 (PerMinMinor r) t) 30) 60 = (PerMinMinor r * t + 30) div 60"
    using b by (simp add: arith64 in64_bounded)
  have k0: "0 \<le> (PerKmMinor r * d + 500) div 1000" "0 \<le> (PerMinMinor r * t + 30) div 60"
    using b by (simp_all add: pos_imp_zdiv_nonneg_iff)
  have p1: "add64 (BaseMinor r) ((PerKmMinor r * d + 500) div 1000) = BaseMinor r + (PerKmMinor r * d + 500) div 1000"
    using k0 b0 b(6) unfolding exact_base_def by (intro add64_id in64_bounded) linarith+
  have p2: "add64 (BaseMinor r + (PerKmMinor r * d + 500) div 1000) ((PerMinMinor r * t + 30) div 60) = exact_base r d t"
    using k0 b0 b(6) unfolding exact_base_def by (intro add64_id in64_bounded) linarith+
  have p3: "quot (add64 (mul64 (exact_base r d t) (SurgeBP r)) 5000) 10000 = exact_fare r d t"
  proof -
    have "mul64 (exact_base r d t) (SurgeBP r) = exact_base r d t * SurgeBP r"
      using f by (intro mul64_id in64_bounded) linarith+
    moreover have "add64 (exact_base r d t * SurgeBP r) 5000 = exact_base r d t * SurgeBP r + 5000"
      using f by (intro add64_id in64_bounded) linarith+
    ultimately show ?thesis
      using f unfolding exact_fare_def by (simp only:) (intro quot_nonneg in64_bounded; linarith)
  qed
  have f0: "0 \<le> exact_fare r d t" using f(3) b(5) b0(1) by linarith
  have p4: "mul64 (quot (add64 (exact_fare r d t) 9) 10) 10 = (exact_fare r d t + 9) div 10 * 10"
  proof -
    have "add64 (exact_fare r d t) 9 = exact_fare r d t + 9"
      using f0 f(4) by (intro add64_id in64_bounded) linarith+
    moreover have "quot (exact_fare r d t + 9) 10 = (exact_fare r d t + 9) div 10"
      using f0 f(4) by (intro quot_nonneg in64_bounded) linarith+
    moreover have "mul64 ((exact_fare r d t + 9) div 10) 10 = (exact_fare r d t + 9) div 10 * 10"
      using f0 f(4) div_self_bounds[of "exact_fare r d t + 9" 10] by (intro mul64_id in64_bounded) linarith+
    ultimately show ?thesis by (simp only:)
  qed
  show ?thesis
    using assms(2,4) b0(3) unfolding Compute_def Let_def
    by (simp add: km mi p1 p2 p3 p4 max_def del: times_divide_eq_left)
qed

lemma div_scale_mono: "x \<le> y \<Longrightarrow> 0 < (k::int) \<Longrightarrow> (x + c) div k \<le> (y + c) div k"
  by (intro zdiv_mono1) auto

lemma exact_fare_mono:
  assumes "rule_ok r" "d \<le> d'" "t \<le> t'"
  shows "exact_fare r d t \<le> exact_fare r d' t'"
proof -
  have nn: "0 \<le> PerKmMinor r" "0 \<le> PerMinMinor r" "0 \<le> SurgeBP r" using assms(1) by (simp_all add: rule_ok_def)
  have "PerKmMinor r * d \<le> PerKmMinor r * d'" "PerMinMinor r * t \<le> PerMinMinor r * t'"
    using assms nn by (auto intro: mult_left_mono)
  then have "(PerKmMinor r * d + 500) div 1000 \<le> (PerKmMinor r * d' + 500) div 1000"
    "(PerMinMinor r * t + 30) div 60 \<le> (PerMinMinor r * t' + 30) div 60"
    by (auto intro: div_scale_mono)
  then have "exact_base r d t \<le> exact_base r d' t'" by (simp add: exact_base_def)
  then have "exact_base r d t * SurgeBP r \<le> exact_base r d' t' * SurgeBP r" using nn by (intro mult_right_mono)
  then show ?thesis unfolding exact_fare_def by (intro div_scale_mono) auto
qed

text \<open>
  C6. For every rule within the checks of the table, the fare is the surged fare rounded up to the
  next ten cents (never down, and by less than ten cents), raised to the rule's minimum; a longer or
  slower route never costs less.
\<close>
theorem Compute_fare:
  assumes "rule_ok r" "0 \<le> d" "d \<le> d'" "d' \<le> 100000000" "0 \<le> t" "t \<le> t'" "t' \<le> 100000000"
  shows "MinimumMinor r \<le> Compute r d t \<and> exact_fare r d t \<le> Compute r d t \<and>
         (Compute r d t = MinimumMinor r \<or> Compute r d t mod 10 = 0 \<and> Compute r d t < exact_fare r d t + 10) \<and>
         Compute r d t \<le> Compute r d' t'"
proof -
  have c: "Compute r d t = max (MinimumMinor r) ((exact_fare r d t + 9) div 10 * 10)"
    "Compute r d' t' = max (MinimumMinor r) ((exact_fare r d' t' + 9) div 10 * 10)"
    using assms by (intro Compute_exact; linarith)+
  have m: "(exact_fare r d t + 9) div 10 * 10 \<le> (exact_fare r d' t' + 9) div 10 * 10"
    using exact_fare_mono[OF assms(1,3,6)] div_scale_mono[of _ _ 10 9] by simp
  have b: "exact_fare r d t \<le> (exact_fare r d t + 9) div 10 * 10"
    "(exact_fare r d t + 9) div 10 * 10 < exact_fare r d t + 10"
    using div_bounds[of 10 "exact_fare r d t + 9"] by linarith+
  have "max (MinimumMinor r) X = MinimumMinor r \<or> max (MinimumMinor r) X mod 10 = 0 \<and> max (MinimumMinor r) X < exact_fare r d t + 10"
    if "X = (exact_fare r d t + 9) div 10 * 10" for X
    using b that by (auto simp: max_def)
  moreover have "max (MinimumMinor r) ((exact_fare r d t + 9) div 10 * 10)
      \<le> max (MinimumMinor r) ((exact_fare r d' t' + 9) div 10 * 10)"
    using m by (intro max.mono) auto
  ultimately show ?thesis using b unfolding c by (auto intro: max.coboundedI2)
qed

definition demo_rule :: rule where
  "demo_rule = \<lparr>RuleID = ''r1'', AreaID = ''prishtina'', CategoryID = ''economy'', RuleCurrency = ''EUR'',
     BaseMinor = 100, PerKmMinor = 45, PerMinMinor = 8, MinimumMinor = 200, CancellationFee = 150,
     CancellationGraceSeconds = 120, SurgeBP = 15000, CommissionBP = 1500, Seats = 4, Sort = 1\<rparr>"

theorem Compute_fare_witness:
  "200 \<le> Compute demo_rule 5000 720 \<and> Compute demo_rule 5000 720 = 640 \<and>
   Compute demo_rule 5000 720 \<le> Compute demo_rule 6000 900"
proof -
  have "rule_ok demo_rule" by (simp add: rule_ok_def demo_rule_def)
  from Compute_fare[OF this, of 5000 6000 720 900]
  have "MinimumMinor demo_rule \<le> Compute demo_rule 5000 720 \<and> Compute demo_rule 5000 720 \<le> Compute demo_rule 6000 900"
    by simp
  moreover have "Compute demo_rule 5000 720 = 640" "MinimumMinor demo_rule = 200" by code_simp+
  ultimately show ?thesis by simp
qed

text \<open>The platform never takes more than the price.\<close>

lemma Commission_bounds:
  assumes "0 \<le> p" "p \<le> 100000000000000" "bp \<le> 10000"
  shows "0 \<le> Commission p bp" "Commission p bp \<le> p"
proof -
  have "0 \<le> Commission p bp \<and> Commission p bp \<le> p"
  proof (cases "bp < 0")
    case False
    have pb: "0 \<le> p * bp" "p * bp \<le> p * 10000"
      using False assms by (auto intro: mult_left_mono)
    have "Commission p bp = (p * bp + 5000) div 10000"
    proof -
      have "mul64 p bp = p * bp" using pb assms by (intro mul64_id in64_bounded) linarith+
      moreover have "add64 (p * bp) 5000 = p * bp + 5000" using pb assms by (intro add64_id in64_bounded) linarith+
      ultimately show ?thesis using False pb assms unfolding Commission_def
        by (simp only: if_False) (intro quot_nonneg in64_bounded; linarith)
    qed
    moreover have "0 \<le> (p * bp + 5000) div 10000" using pb by (simp add: pos_imp_zdiv_nonneg_iff)
    moreover have "(p * bp + 5000) div 10000 \<le> p"
      using pb div_bounds[of 10000 "p * bp + 5000"] by linarith
    ultimately show ?thesis by linarith
  qed (use assms in \<open>simp add: Commission_def\<close>)
  then show "0 \<le> Commission p bp" "Commission p bp \<le> p" by blast+
qed

lemma Commission_negative [simp]: "bp < 0 \<Longrightarrow> Commission p bp = 0"
  by (simp add: Commission_def)

section \<open>A quote binds the price\<close>

lemma insert_quotes_Inr:
  "insert_quotes mk eta ids n rs out db = (Inr qs, db') \<Longrightarrow> (\<And>r i. qt_id (mk r i) = i) \<Longrightarrow>
   distinct (map qt_id (quotes db)) \<Longrightarrow>
   rule_rows db' = rule_rows db \<and> distinct (map qt_id (quotes db')) \<and> set (quotes db) \<subseteq> set (quotes db') \<and>
   (\<forall>q \<in> set qs. q \<in> set out \<or>
      (\<exists>r \<in> set rs. mk r (QuoteID q) \<in> set (quotes db') \<and> QPrice q = qt_price (mk r (QuoteID q)) \<and>
                    QExpires q = qt_expires (mk r (QuoteID q))))"
proof (induction rs arbitrary: n out db)
  case (Cons r rs)
  define q where "q = mk r (ids n)"
  define o' where "o' = \<lparr>QuoteID = ids n, QCategory = CategoryID r, QSeats = Seats r, QPrice = qt_price q,
    QCurrency = RuleCurrency r, QSurge = SurgeBP r, QPickupETA = eta (CategoryID r), QExpires = qt_expires q\<rparr>"
  from Cons.prems(1) have new: "\<not> exists_where (\<lambda>q'. qt_id q' = ids n) (quotes db)"
    and rest: "insert_quotes mk eta ids (Suc n) rs (out @ [o']) (db\<lparr>quotes := quotes db @ [q]\<rparr>) = (Inr qs, db')"
    by (auto simp: q_def o'_def Let_def split: if_splits)
  have "distinct (map qt_id (quotes (db\<lparr>quotes := quotes db @ [q]\<rparr>)))"
    using Cons.prems(2,3) new by (auto simp: exists_where_iff q_def)
  note IH = Cons.IH[OF rest Cons.prems(2) this]
  have "q \<in> set (quotes db')" using IH by auto
  moreover have "QuoteID o' = ids n" "QPrice o' = qt_price q" "QExpires o' = qt_expires q" by (simp_all add: o'_def)
  ultimately show ?case using IH unfolding q_def by (auto 0 3)
qed auto

lemma latest_in: "latest rs = Some r \<Longrightarrow> r \<in> set rs"
  by (induction rs) (auto split: option.splits if_splits)

lemma Rules_rule_of:
  assumes "r \<in> set (Rules dnow a db)"
  shows "\<exists>r'. rule_of (RuleID r) db = Some r'"
proof -
  from assms obtain rr where rr: "rr \<in> set (rule_rows db)" "RuleID r = RuleID (rr_rule rr)"
    by (auto simp: Rules_def in_set_map_filter split: if_splits dest!: latest_in)
  then have "find (\<lambda>x. RuleID (rr_rule x) = RuleID r) (rule_rows db) \<noteq> None"
    by (auto simp: find_None_iff_all)
  then show ?thesis by (auto simp: rule_of_def)
qed

lemma Quote_Inr:
  assumes "Quote gnow dnow ids route eta c inp db = (Inr (a, d, t, qs), db')"
  obtains inp' where "route (Pickup inp) (Dropoff inp) = Some (d, t)"
    "insert_quotes (\<lambda>r i. mk_quote_row c (AreaId a) inp' (d, t) (gnow + QuoteTTL) i r) eta ids 0
       (Rules dnow (AreaId a) db) [] db = (Inr qs, db')"
    "ResolveArea (Pickup inp) db = Inr a"
  using assms unfolding Quote_def Let_def
  by (auto simp: begin_func_commit split: if_splits sum.splits option.splits prod.splits)

text \<open>
  C5. A price that was shown is the price that is charged: every quote \<open>Quote\<close> returns can be loaded
  by the same customer until it expires two minutes later, and then carries exactly the price shown,
  which is the fare of a rule in force in the area for the route of the map provider; after that it is
  refused as expired, and to any other customer it does not exist.
\<close>
theorem quote_binds_price:
  assumes "distinct (map qt_id (quotes db))"
    and "Quote gnow dnow ids route eta c inp db = (Inr (a, d, t, qs), db')" and "q \<in> set qs"
  shows "\<exists>r \<in> set (Rules dnow (AreaId a) db). QPrice q = Compute r d t \<and>
           (\<forall>later. case LoadQuote later (QuoteID q) c db' of
              Inr sq \<Rightarrow> later \<le> gnow + QuoteTTL \<and> qt_price (sq_row sq) = QPrice q
            | Inl e \<Rightarrow> later > gnow + QuoteTTL \<and> e = ErrQuoteExpired) \<and>
           (\<forall>later other. other \<noteq> c \<longrightarrow> LoadQuote later (QuoteID q) other db' = Inl ErrNotFound)"
proof -
  obtain inp' where ins: "insert_quotes (\<lambda>r i. mk_quote_row c (AreaId a) inp' (d, t) (gnow + QuoteTTL) i r) eta ids 0
       (Rules dnow (AreaId a) db) [] db = (Inr qs, db')"
    using assms(2) by (rule Quote_Inr)
  note I = insert_quotes_Inr[OF ins _ assms(1)]
  define mk where "mk = (\<lambda>r i. mk_quote_row c (AreaId a) inp' (d, t) (gnow + QuoteTTL) i r)"
  from I obtain r where r: "r \<in> set (Rules dnow (AreaId a) db)" "mk r (QuoteID q) \<in> set (quotes db')"
    "QPrice q = qt_price (mk r (QuoteID q))" "rule_rows db' = rule_rows db" "distinct (map qt_id (quotes db'))"
    using assms(3) by (auto simp: mk_def mk_quote_row_def)
  have f: "qt_id (mk r i) = i" "qt_customer (mk r i) = c" "qt_rule (mk r i) = RuleID r"
    "qt_expires (mk r i) = gnow + QuoteTTL" "qt_price (mk r i) = Compute r d t" for i
    by (simp_all add: mk_def mk_quote_row_def)
  have only: "x = mk r (QuoteID q)" if "x \<in> set (quotes db')" "qt_id x = QuoteID q" for x
    using that r(2,5) f(1) by (metis (mono_tags) inj_onD distinct_map)
  have found: "find (\<lambda>x. qt_id x = QuoteID q \<and> qt_customer x = c) (quotes db') = Some (mk r (QuoteID q))"
  proof (cases "find (\<lambda>x. qt_id x = QuoteID q \<and> qt_customer x = c) (quotes db')")
    case None
    with r(2) f show ?thesis by (auto simp: find_None_iff_all)
  next
    case (Some x)
    with find_SomeD[OF Some] only show ?thesis by simp
  qed
  obtain r' where "rule_of (RuleID r) db' = Some r'"
    using Rules_rule_of[OF r(1)] r(4) by (auto simp: rule_of_def)
  then have "case LoadQuote later (QuoteID q) c db' of
              Inr sq \<Rightarrow> later \<le> gnow + QuoteTTL \<and> qt_price (sq_row sq) = QPrice q
            | Inl e \<Rightarrow> later > gnow + QuoteTTL \<and> e = ErrQuoteExpired" for later
    using found r(3) by (simp add: LoadQuote_def f)
  moreover have "LoadQuote later (QuoteID q) other db' = Inl ErrNotFound" if "other \<noteq> c" for later other
  proof -
    have "find (\<lambda>x. qt_id x = QuoteID q \<and> qt_customer x = other) (quotes db') = None"
      using only f(2) that by (auto simp: find_None_iff_all)
    then show ?thesis by (simp add: LoadQuote_def)
  qed
  ultimately show ?thesis using r(1,3) f(5) by auto
qed

definition demo_pricing :: pricing_db where
  "demo_pricing = \<lparr>areas = [\<lparr>AreaId = ''prishtina'', AreaName = ''P'', Center = mk_point 42 20, RadiusKm = 25, ar_active = True\<rparr>],
     categories = [\<lparr>ct_id = ''economy'', ct_seats = 4, ct_sort = 1, ct_active = True\<rparr>],
     rule_rows = [\<lparr>rr_rule = demo_rule, rr_from = 0, rr_to = None\<rparr>], quotes = []\<rparr>"

definition demo_quote_input :: quote_input where
  "demo_quote_input = \<lparr>Pickup = mk_point 42 20, Dropoff = mk_point 43 20, PickupAddress = [], DropoffAddress = []\<rparr>"

definition demo_quote :: "(err + (area \<times> int \<times> int \<times> quote list)) \<times> pricing_db" where
  "demo_quote = Quote 100 100 (\<lambda>n. ''q1'') (\<lambda>a b. Some (5000, 720)) (\<lambda>_. None) ''u1'' demo_quote_input demo_pricing"

lemma demo_far: "\<not> Haversine (mk_point 42 20) (mk_point 43 20) < 50"
proof -
  have "earthRadiusM * ((43 - 42) * pi / 180) \<le> Haversine (mk_point 42 20) (mk_point 43 20)"
    using Haversine_ge_meridian[of "mk_point 42 20" "mk_point 43 20"] by (simp add: mk_point_def)
  moreover have "2 \<le> pi" by (rule pi_ge_two)
  ultimately show ?thesis by (simp add: earthRadiusM_def)
qed

lemma demo_Rules: "Rules 100 ''prishtina'' demo_pricing = [demo_rule]"
  by (simp add: Rules_def demo_pricing_def demo_rule_def in_force_def List.map_filter_def TrimSpace_def is_space_def)

lemma demo_quote_result:
  "\<exists>a db' q. demo_quote = (Inr (a, 5000, 720, [q]), db') \<and> QPrice q = 640 \<and> QuoteID q = ''q1'' \<and> AreaId a = ''prishtina''"
proof -
  have "Compute demo_rule 5000 720 = 640" by code_simp
  then show ?thesis
    using demo_far demo_Rules
    by (simp add: demo_quote_def Quote_def demo_quote_input_def add_field_if_def Valid_def InKosovo_def
        ResolveArea_def demo_pricing_def Let_def begin_func_def exists_where_def mk_quote_row_def mk_point_def)
qed

theorem quote_binds_price_witness:
  "\<exists>a d t qs db' q. demo_quote = (Inr (a, d, t, qs), db') \<and> q \<in> set qs \<and> QPrice q = 640 \<and>
     LoadQuote 999 ''q1'' ''u2'' db' = Inl ErrNotFound"
proof -
  obtain a db' q where r: "demo_quote = (Inr (a, 5000, 720, [q]), db')" "QPrice q = 640" "QuoteID q = ''q1''"
    using demo_quote_result by blast
  have "distinct (map qt_id (quotes demo_pricing))" by (simp add: demo_pricing_def)
  from quote_binds_price[OF this r(1)[unfolded demo_quote_def], of q] r(3)
  have "LoadQuote 999 ''q1'' ''u2'' db' = Inl ErrNotFound" by simp
  then show ?thesis using r by fastforce
qed

end
