(* ===== verification/Location.thy ===== *)
theory Location
  imports Geo
begin

text \<open>
  \<open>modules/location/location.go\<close>: the live positions of drivers and couriers. Redis is a map from a
  driver to the fields of its hash, with the instant the key expires, and one index of positions per
  category. The geographic search of Redis is an argument (\<open>gs\<close>) of the operations that use it: given
  a centre, a radius in kilometres, a count and the members of an index, the members found with
  their distance in kilometres. Calls to Redis succeed; times of samples are milliseconds.
\<close>

definition ErrDriverOffline [err_defs]: "ErrDriverOffline = API ''DRIVER_OFFLINE'' 409 False []"

definition StaleAfter :: time where "StaleAfter = 60 * Second"
definition hashTTL :: time where "hashTTL = 3 * Minute"
definition PersistEvery :: time where "PersistEvery = 30 * Second"
definition MaxBatch :: nat where "MaxBatch = 50"

abbreviation UnixMilli :: "time \<Rightarrow> int" where "UnixMilli t \<equiv> t div 1000000"

section \<open>State\<close>

record sample =
  smLat :: real
  smLng :: real
  Heading :: "real option"
  SpeedMPS :: "real option"
  RecordedAtMs :: int

record drv =
  dv_status :: string
  dv_cats :: string
  dv_ride :: string
  dv_order :: string
  dv_parcel :: string
  dv_persisted :: int
  dv_lat :: real
  dv_lng :: real
  dv_ts :: int
  dv_expires :: "time option"

record live_pos =
  lp_channel :: string
  lp_type :: string
  lp_subject :: string
  lp_sample :: sample

record sample_row =
  sr_driver :: uuid
  sr_ride :: uuid
  sr_sample :: sample

record loc_db =
  drvs :: "uuid \<Rightarrow> drv option"
  geo_idx :: "string \<Rightarrow> (uuid \<times> point) list"
  samples :: "sample_row list"
  published :: "live_pos list"

text \<open>The hash of a key that does not exist: absent fields read as empty text or zero.\<close>

definition no_drv :: drv where
  "no_drv = \<lparr>dv_status = [], dv_cats = [], dv_ride = [], dv_order = [], dv_parcel = [], dv_persisted = 0,
     dv_lat = 0, dv_lng = 0, dv_ts = 0, dv_expires = None\<rparr>"

definition live :: "time \<Rightarrow> uuid \<Rightarrow> loc_db \<Rightarrow> drv option" where
  "live now d db = (case drvs db d of None \<Rightarrow> None
     | Some h \<Rightarrow> (case dv_expires h of None \<Rightarrow> Some h | Some t \<Rightarrow> if now < t then Some h else None))"

definition HGetAll :: "time \<Rightarrow> uuid \<Rightarrow> loc_db \<Rightarrow> drv" where
  "HGetAll now d db = (case live now d db of None \<Rightarrow> no_drv | Some h \<Rightarrow> h)"

text \<open>\<open>HSet\<close> and \<open>HDel\<close> of a hash, which creates it; and the same followed by \<open>Expire\<close>.\<close>

definition HSet :: "time \<Rightarrow> uuid \<Rightarrow> (drv \<Rightarrow> drv) \<Rightarrow> loc_db \<Rightarrow> loc_db" where
  "HSet now d f db = db\<lparr>drvs := (drvs db)(d := Some (f (HGetAll now d db)))\<rparr>"

definition HSet_Expire :: "time \<Rightarrow> uuid \<Rightarrow> (drv \<Rightarrow> drv) \<Rightarrow> loc_db \<Rightarrow> loc_db" where
  "HSet_Expire now d f db = HSet now d (\<lambda>h. (f h)\<lparr>dv_expires := Some (now + hashTTL)\<rparr>) db"

definition ZRem :: "string \<Rightarrow> uuid \<Rightarrow> loc_db \<Rightarrow> loc_db" where
  "ZRem c d db = db\<lparr>geo_idx := (geo_idx db)(c := filter (\<lambda>(d', _). d' \<noteq> d) (geo_idx db c))\<rparr>"

definition GeoAdd :: "uuid \<Rightarrow> point \<Rightarrow> string \<Rightarrow> loc_db \<Rightarrow> loc_db" where
  "GeoAdd d p c db = db\<lparr>geo_idx := (geo_idx db)(c := filter (\<lambda>(d', _). d' \<noteq> d) (geo_idx db c) @ [(d, p)])\<rparr>"

section \<open>Operations\<close>

fun split_comma :: "string \<Rightarrow> string \<Rightarrow> string list" where
  "split_comma acc [] = [rev acc]"
| "split_comma acc (c # cs) = (if c = CHR '','' then rev acc # split_comma [] cs else split_comma (c # acc) cs)"

definition splitCats :: "string \<Rightarrow> string list" where
  "splitCats s = (if s = [] then [] else split_comma [] s)"

definition SetOnline :: "time \<Rightarrow> uuid \<Rightarrow> string list \<Rightarrow> loc_db \<Rightarrow> loc_db" where
  "SetOnline now d categories db =
     (let old = dv_cats (HGetAll now d db)
      in HSet_Expire now d (\<lambda>h. h\<lparr>dv_status := ''available'', dv_cats := join_with '','' categories, dv_ride := []\<rparr>)
           (fold (\<lambda>c. ZRem c d) (splitCats old) db))"

definition SetOffline :: "time \<Rightarrow> uuid \<Rightarrow> loc_db \<Rightarrow> loc_db" where
  "SetOffline now d db =
     (let db' = fold (\<lambda>c. ZRem c d) (splitCats (dv_cats (HGetAll now d db))) db
      in db'\<lparr>drvs := (drvs db')(d := None)\<rparr>)"

text \<open>The loop of \<open>Ingest\<close>: the last accepted time, the latest accepted sample and their number.\<close>

fun Ingest_loop :: "int \<Rightarrow> int \<Rightarrow> sample option \<Rightarrow> nat \<Rightarrow> sample list \<Rightarrow> sample option \<times> nat" where
  "Ingest_loop nowMs lastMs latest accepted [] = (latest, accepted)"
| "Ingest_loop nowMs lastMs latest accepted (sm # sms) =
     (let p = mk_point (smLat sm) (smLng sm)
      in if \<not> Valid p \<or> \<not> InKosovo p \<or> RecordedAtMs sm \<le> lastMs \<or> RecordedAtMs sm > nowMs + 60000
         then Ingest_loop nowMs lastMs latest accepted sms
         else Ingest_loop nowMs (RecordedAtMs sm) (Some sm) (Suc accepted) sms)"

definition publish_if :: "string \<Rightarrow> string \<Rightarrow> string \<Rightarrow> sample \<Rightarrow> loc_db \<Rightarrow> loc_db" where
  "publish_if prefix ty subject sm db =
     (if subject \<noteq> [] then db\<lparr>published := published db @
        [\<lparr>lp_channel = prefix @ subject, lp_type = ty, lp_subject = subject, lp_sample = sm\<rparr>]\<rparr> else db)"

definition Ingest :: "time \<Rightarrow> uuid \<Rightarrow> sample list \<Rightarrow> (loc_db, err, nat) op" where
  "Ingest now d sms db =
     (if sms = [] then (Inl (ErrValidation [(''samples'', ''empty'')]), db)
      else if length sms > MaxBatch then (Inl (ErrValidation [(''samples'', ''too_many'')]), db)
      else let h = HGetAll now d db in
        if dv_status h = [] then (Inl ErrDriverOffline, db)
        else (case Ingest_loop (UnixMilli now) (dv_ts h) None 0 (sort_key RecordedAtMs sms) of
                (None, _) \<Rightarrow> (Inr 0, db)
              | (Some sm, accepted) \<Rightarrow>
                  let db1 = fold (GeoAdd d (mk_point (smLat sm) (smLng sm))) (splitCats (dv_cats h)) db;
                      db2 = HSet_Expire now d (\<lambda>h. h\<lparr>dv_lat := smLat sm, dv_lng := smLng sm, dv_ts := RecordedAtMs sm\<rparr>) db1;
                      db3 = publish_if ''ride:'' ''driver_location'' (dv_ride h) sm db2;
                      db4 = publish_if ''order:'' ''courier_location'' (dv_order h) sm db3;
                      db5 = publish_if ''parcel:'' ''courier_location'' (dv_parcel h) sm db4
                  in (Inr accepted,
                      if dv_ride h \<noteq> [] \<and> RecordedAtMs sm - dv_persisted h \<ge> PersistEvery div 1000000
                      then HSet now d (\<lambda>h. h\<lparr>dv_persisted := RecordedAtMs sm\<rparr>)
                             (db5\<lparr>samples := samples db5 @ [\<lparr>sr_driver = d, sr_ride = dv_ride h, sr_sample = sm\<rparr>]\<rparr>)
                      else db5)))"

record candidate =
  DriverID :: uuid
  DistanceM :: real
  CPoint :: point
  CRecordedAt :: time

fun Nearest_loop :: "time \<Rightarrow> string \<Rightarrow> nat \<Rightarrow> int \<Rightarrow> candidate list \<Rightarrow> (uuid \<times> point \<times> real) list \<Rightarrow> loc_db \<Rightarrow>
    candidate list \<times> loc_db" where
  "Nearest_loop now category limit cutoff out [] db = (out, db)"
| "Nearest_loop now category limit cutoff out ((i, p, km) # ls) db =
     (let h = HGetAll now i db
      in if dv_status h = [] \<or> dv_ts h < cutoff then Nearest_loop now category limit cutoff out ls (ZRem category i db)
         else if dv_status h \<noteq> ''available'' then Nearest_loop now category limit cutoff out ls db
         else let out' = out @ [\<lparr>DriverID = i, DistanceM = km * 1000, CPoint = p, CRecordedAt = dv_ts h * 1000000\<rparr>]
              in if length out' = limit then (out', db) else Nearest_loop now category limit cutoff out' ls db)"

definition Nearest ::
  "(point \<Rightarrow> real \<Rightarrow> nat \<Rightarrow> (uuid \<times> point) list \<Rightarrow> (uuid \<times> point \<times> real) list) \<Rightarrow> time \<Rightarrow> string \<Rightarrow> point \<Rightarrow> real \<Rightarrow> int \<Rightarrow>
   loc_db \<Rightarrow> candidate list \<times> loc_db" where
  "Nearest gs now category p radiusKm limit db =
     (let limit = (if limit \<le> 0 then 10 else nat limit)
      in Nearest_loop now category limit (UnixMilli (now - StaleAfter)) [] (gs p radiusKm (limit * 3) (geo_idx db category)) db)"

text \<open>\<open>int(DistanceM * detourFactor / urbanSpeed)\<close>: 30 per cent of detour at 25 km/h.\<close>

definition eta_of_distance :: "real \<Rightarrow> int" where
  "eta_of_distance m = (let eta = \<lfloor>m * 1.3 / (25000 / 3600)\<rfloor> in if eta < 60 then 60 else eta)"

definition NearestETA ::
  "(point \<Rightarrow> real \<Rightarrow> nat \<Rightarrow> (uuid \<times> point) list \<Rightarrow> (uuid \<times> point \<times> real) list) \<Rightarrow> time \<Rightarrow> string \<Rightarrow> point \<Rightarrow>
   loc_db \<Rightarrow> int option \<times> loc_db" where
  "NearestETA gs now category p db =
     (case Nearest gs now category p 8 1 db of
        ([], db') \<Rightarrow> (None, db') | (c # _, db') \<Rightarrow> (Some (eta_of_distance (DistanceM c)), db'))"

definition SetBusy :: "time \<Rightarrow> uuid \<Rightarrow> uuid \<Rightarrow> loc_db \<Rightarrow> loc_db" where
  "SetBusy now d rideID = HSet_Expire now d (\<lambda>h. h\<lparr>dv_status := ''busy'', dv_ride := rideID, dv_persisted := 0\<rparr>)"

definition SetBusyOrder :: "time \<Rightarrow> uuid \<Rightarrow> uuid \<Rightarrow> loc_db \<Rightarrow> loc_db" where
  "SetBusyOrder now d orderID = HSet_Expire now d (\<lambda>h. h\<lparr>dv_status := ''busy'', dv_order := orderID, dv_ride := []\<rparr>)"

definition SetBusyParcel :: "time \<Rightarrow> uuid \<Rightarrow> uuid \<Rightarrow> loc_db \<Rightarrow> loc_db" where
  "SetBusyParcel now d parcelID =
     HSet_Expire now d (\<lambda>h. h\<lparr>dv_status := ''busy'', dv_parcel := parcelID, dv_ride := [], dv_order := []\<rparr>)"

definition SetAvailable :: "time \<Rightarrow> uuid \<Rightarrow> loc_db \<Rightarrow> loc_db" where
  "SetAvailable now d db =
     (if live now d db = None then db
      else HSet_Expire now d (\<lambda>h. h\<lparr>dv_status := ''available'', dv_ride := [], dv_order := [], dv_parcel := [], dv_persisted := 0\<rparr>) db)"

record driver_state =
  DSStatus :: string
  DSCategories :: "string list"
  DSPoint :: point
  DSRecordedAt :: time
  DSRide :: string

definition State :: "time \<Rightarrow> uuid \<Rightarrow> loc_db \<Rightarrow> driver_state option" where
  "State now d db =
     (let h = HGetAll now d db
      in if dv_status h = [] then None
         else Some \<lparr>DSStatus = dv_status h, DSCategories = splitCats (dv_cats h), DSPoint = mk_point (dv_lat h) (dv_lng h),
                    DSRecordedAt = dv_ts h * 1000000, DSRide = dv_ride h\<rparr>)"

section \<open>Facts\<close>

lemma live_after_HSet_Expire:
  "live now' d' (HSet_Expire now d f db) =
     (if d' = d then (if now' < now + hashTTL then Some ((f (HGetAll now d db))\<lparr>dv_expires := Some (now + hashTTL)\<rparr>) else None)
      else live now' d' db)"
  by (simp add: live_def HSet_Expire_def HSet_def)

lemma frame_loc [frame_simps]:
  "samples (HSet now d f db) = samples db" "geo_idx (HSet now d f db) = geo_idx db"
  "samples (HSet_Expire now d f db) = samples db" "geo_idx (HSet_Expire now d f db) = geo_idx db"
  "drvs (ZRem c d db) = drvs db" "samples (ZRem c d db) = samples db"
  "drvs (GeoAdd d p c db) = drvs db" "samples (GeoAdd d p c db) = samples db"
  "drvs (publish_if pre ty s sm db) = drvs db" "samples (publish_if pre ty s sm db) = samples db"
  by (simp_all add: HSet_def HSet_Expire_def ZRem_def GeoAdd_def publish_if_def)

lemma frame_loc_fold [frame_simps]:
  "drvs (fold (\<lambda>c. ZRem c d) cs db) = drvs db" "samples (fold (\<lambda>c. ZRem c d) cs db) = samples db"
  "drvs (fold (GeoAdd d p) cs db) = drvs db" "samples (fold (GeoAdd d p) cs db) = samples db"
  by (induction cs arbitrary: db) (simp_all add: frame_simps)

lemma HGetAll_cong: "drvs db d = drvs db' d \<Longrightarrow> HGetAll now d db = HGetAll now d db'"
  by (simp add: HGetAll_def live_def)

text \<open>The samples a batch accepts are valid, in strictly increasing order after the last known one.\<close>

lemma Ingest_loop_result:
  assumes "Ingest_loop nowMs lastMs None n sms = (Some sm, k)"
  shows "sm \<in> set sms \<and> Valid (mk_point (smLat sm) (smLng sm)) \<and> InKosovo (mk_point (smLat sm) (smLng sm)) \<and>
    lastMs < RecordedAtMs sm \<and> RecordedAtMs sm \<le> nowMs + 60000 \<and> n < k"
proof -
  have "Ingest_loop nowMs lastMs lat n sms = (Some sm, k) \<Longrightarrow>
    (lat = Some sm \<and> n = k) \<or> (sm \<in> set sms \<and> Valid (mk_point (smLat sm) (smLng sm)) \<and>
      InKosovo (mk_point (smLat sm) (smLng sm)) \<and> lastMs < RecordedAtMs sm \<and> RecordedAtMs sm \<le> nowMs + 60000 \<and> n < k)" for lat
  proof (induction nowMs lastMs lat n sms rule: Ingest_loop.induct)
    case (2 nowMs lastMs lat n x xs)
    then show ?case by (fastforce simp: Let_def split: if_splits)
  qed auto
  from this[OF assms] show ?thesis by simp
qed

lemma Ingest_samples:
  "samples (snd (Ingest now d sms db)) = samples db \<or>
   (\<exists>sm. samples (snd (Ingest now d sms db)) = samples db @ [\<lparr>sr_driver = d, sr_ride = dv_ride (HGetAll now d db), sr_sample = sm\<rparr>] \<and>
      dv_ride (HGetAll now d db) \<noteq> [] \<and> dv_persisted (HGetAll now d db) + 30000 \<le> RecordedAtMs sm \<and>
      dv_persisted (HGetAll now d (snd (Ingest now d sms db))) = RecordedAtMs sm)"
proof (cases "Ingest_loop (UnixMilli now) (dv_ts (HGetAll now d db)) None 0 (sort_key RecordedAtMs sms)")
  case (Pair lat k)
  have cat: "HGetAll now d (HSet now d f db') = f (HGetAll now d db')"
    if "dv_expires (f (HGetAll now d db')) = Some (now + hashTTL)" for f db'
    using that by (simp add: HGetAll_def HSet_def live_def hashTTL_def)
  show ?thesis
  proof (cases lat)
    case None
    then show ?thesis using Pair by (simp add: Ingest_def Let_def)
  next
    case (Some sm)
    have e: "HGetAll now d (publish_if p1 t1 s1 sm (publish_if p2 t2 s2 sm (publish_if p3 t3 s3 sm (HSet_Expire now d f db'))))
       = (f (HGetAll now d db'))\<lparr>dv_expires := Some (now + hashTTL)\<rparr>" for p1 t1 s1 p2 t2 s2 p3 t3 s3 f db'
      by (simp add: HGetAll_def live_def frame_simps) (simp add: HSet_Expire_def HSet_def hashTTL_def HGetAll_def live_def)
    have s: "HGetAll now d (db'\<lparr>samples := x\<rparr>) = HGetAll now d db'" for db' x by (rule HGetAll_cong) simp
    show ?thesis
      using Pair Some
      by (auto simp: Ingest_def Let_def frame_simps PersistEvery_def cat e s)
  qed
qed

section \<open>Searching\<close>

definition eligible :: "time \<Rightarrow> int \<Rightarrow> loc_db \<Rightarrow> uuid \<Rightarrow> bool" where
  "eligible now cutoff db i \<longleftrightarrow> dv_status (HGetAll now i db) = ''available'' \<and> cutoff \<le> dv_ts (HGetAll now i db)"

definition mk_candidate :: "time \<Rightarrow> loc_db \<Rightarrow> uuid \<times> point \<times> real \<Rightarrow> candidate" where
  "mk_candidate now db = (\<lambda>(i, p, km). \<lparr>DriverID = i, DistanceM = km * 1000, CPoint = p,
     CRecordedAt = dv_ts (HGetAll now i db) * 1000000\<rparr>)"

lemma HGetAll_ZRem [simp]: "HGetAll now i (ZRem c d db) = HGetAll now i db"
  by (rule HGetAll_cong) (simp add: frame_simps)

lemma eligible_ZRem [simp]: "eligible now cutoff (ZRem c d db) = eligible now cutoff db"
  by (simp add: eligible_def fun_eq_iff)

lemma mk_candidate_ZRem [simp]: "mk_candidate now (ZRem c d db) = mk_candidate now db"
  by (simp add: mk_candidate_def fun_eq_iff)

text \<open>The loop with its skips, its clean-up and its early exit is a filter cut at the limit.\<close>

lemma Nearest_loop_filter:
  "length out < limit \<Longrightarrow>
   fst (Nearest_loop now category limit cutoff out ls db) =
     out @ take (limit - length out) (map (mk_candidate now db) (filter (\<lambda>(i, _). eligible now cutoff db i) ls))"
proof (induction ls arbitrary: out db)
  case (Cons l ls)
  obtain i p km where l: "l = (i, p, km)" by (cases l)
  let ?h = "HGetAll now i db"
  consider (stale) "dv_status ?h = [] \<or> dv_ts ?h < cutoff"
    | (busy) "\<not> (dv_status ?h = [] \<or> dv_ts ?h < cutoff)" "dv_status ?h \<noteq> ''available''"
    | (ok) "\<not> (dv_status ?h = [] \<or> dv_ts ?h < cutoff)" "dv_status ?h = ''available''" by blast
  then show ?case
  proof cases
    case stale
    then have "\<not> eligible now cutoff db i" by (auto simp: eligible_def)
    then show ?thesis using stale Cons by (simp add: l Let_def)
  next
    case busy
    then have "\<not> eligible now cutoff db i" by (auto simp: eligible_def)
    then show ?thesis using busy Cons by (simp add: l Let_def)
  next
    case ok
    then have e: "eligible now cutoff db i" by (auto simp: eligible_def)
    have n: "limit - length out = Suc (limit - Suc (length out))" using Cons.prems by simp
    let ?c = "mk_candidate now db (i, p, km)"
    show ?thesis
    proof (cases "Suc (length out) = limit")
      case True
      then show ?thesis using ok e by (simp add: l Let_def mk_candidate_def n)
    next
      case False
      with Cons.prems have "length (out @ [?c]) < limit" by simp
      from Cons.IH[OF this, of db] show ?thesis
        using ok e False by (simp add: l Let_def n) (simp add: mk_candidate_def)
    qed
  qed
qed simp

text \<open>
  What Redis documents of \<open>GEOSEARCH\<close> with an ascending sort and a count, and a search that has it:
  the members within the radius by their distance.
\<close>

definition geosearch_ok ::
  "(point \<Rightarrow> real \<Rightarrow> nat \<Rightarrow> (uuid \<times> point) list \<Rightarrow> (uuid \<times> point \<times> real) list) \<Rightarrow> bool" where
  "geosearch_ok gs \<longleftrightarrow> (\<forall>p r n m. sorted (map (\<lambda>(_, _, km). km) (gs p r n m)) \<and> length (gs p r n m) \<le> n \<and>
     (\<forall>(i, q, km) \<in> set (gs p r n m). (i, q) \<in> set m \<and> km \<le> r))"

definition geosearch :: "point \<Rightarrow> real \<Rightarrow> nat \<Rightarrow> (uuid \<times> point) list \<Rightarrow> (uuid \<times> point \<times> real) list" where
  "geosearch p r n m = take n (sort_key (\<lambda>(_, _, km). km)
     (filter (\<lambda>(_, _, km). km \<le> r) (map (\<lambda>(i, q). (i, q, Haversine p q / 1000)) m)))"

lemma geosearch_ok_geosearch: "geosearch_ok geosearch"
proof -
  have "sorted (map (\<lambda>(_, _, km). km) (geosearch p r n m))" for p r n m
    unfolding geosearch_def take_map [symmetric] by (rule sorted_wrt_take) simp
  moreover have "length (geosearch p r n m) \<le> n" for p r n m by (simp add: geosearch_def)
  moreover have "(i, q) \<in> set m \<and> km \<le> r" if "(i, q, km) \<in> set (geosearch p r n m)" for p r n m i q km
    using in_set_takeD[OF that[unfolded geosearch_def]] by auto
  ultimately show ?thesis by (fastforce simp: geosearch_ok_def)
qed

text \<open>
  The search for drivers, given what Redis documents of its own: at most the requested number,
  nearest first, every one inside the radius, marked available (so never one on a ride or a delivery)
  and heard from within the last minute; and when fewer are returned, no eligible driver among those
  Redis found was left out.
\<close>
theorem Nearest_eligible:
  assumes "geosearch_ok gs" "0 < n"
  shows "case Nearest gs now category p r (int n) db of (out, db') \<Rightarrow>
    length out \<le> n \<and> sorted (map DistanceM out) \<and>
    (\<forall>c \<in> set out. DistanceM c \<le> r * 1000 \<and> (DriverID c, CPoint c) \<in> set (geo_idx db category) \<and>
       dv_status (HGetAll now (DriverID c) db) = ''available'' \<and>
       UnixMilli (now - StaleAfter) \<le> dv_ts (HGetAll now (DriverID c) db)) \<and>
    (length out < n \<longrightarrow> (\<forall>(i, q, km) \<in> set (gs p r (n * 3) (geo_idx db category)).
       eligible now (UnixMilli (now - StaleAfter)) db i \<longrightarrow> (\<exists>c \<in> set out. DriverID c = i)))"
proof -
  define ls where "ls = gs p r (n * 3) (geo_idx db category)"
  define E where "E = filter (\<lambda>(i, _). eligible now (UnixMilli (now - StaleAfter)) db i) ls"
  obtain out db' where N: "Nearest gs now category p r (int n) db = (out, db')" by (cases "Nearest gs now category p r (int n) db")
  have out: "out = take n (map (mk_candidate now db) E)"
    using assms(2) Nearest_loop_filter[of "[]" n now category "UnixMilli (now - StaleAfter)" ls db]
      arg_cong[OF N, of fst] by (simp add: Nearest_def Let_def ls_def E_def)
  have ok: "sorted (map (\<lambda>(_, _, km). km) ls)" "\<forall>(i, q, km) \<in> set ls. (i, q) \<in> set (geo_idx db category) \<and> km \<le> r"
    using assms(1) by (auto simp: geosearch_ok_def ls_def)
  have "sorted (map (\<lambda>(_, _, km). km) E)" unfolding E_def using ok(1) by (rule sorted_filter)
  then have "sorted (map (\<lambda>x. snd (snd x) * 1000) E)"
    unfolding sorted_map by (rule sorted_wrt_mono_rel[rotated]) auto
  then have "sorted (take n (map (\<lambda>x. snd (snd x) * 1000) E))" by (rule sorted_wrt_take)
  moreover have "map DistanceM out = take n (map (\<lambda>x. snd (snd x) * 1000) E)"
    by (simp add: out take_map [symmetric] mk_candidate_def comp_def case_prod_beta)
  ultimately have s: "sorted (map DistanceM out)" by simp
  have m: "DistanceM c \<le> r * 1000 \<and> (DriverID c, CPoint c) \<in> set (geo_idx db category) \<and>
       dv_status (HGetAll now (DriverID c) db) = ''available'' \<and>
       UnixMilli (now - StaleAfter) \<le> dv_ts (HGetAll now (DriverID c) db)" if "c \<in> set out" for c
    using in_set_takeD[OF that[unfolded out]] ok(2)
    by (auto simp: E_def mk_candidate_def eligible_def)
  have all: "\<exists>c \<in> set out. DriverID c = i"
    if "length out < n" "(i, q, km) \<in> set ls" "eligible now (UnixMilli (now - StaleAfter)) db i" for i q km
  proof -
    have "out = map (mk_candidate now db) E" using that(1) by (auto simp: out)
    moreover have "(i, q, km) \<in> set E" using that by (auto simp: E_def)
    ultimately show ?thesis by (force simp: mk_candidate_def)
  qed
  have "length out \<le> n" by (simp add: out)
  with s m all show ?thesis unfolding N ls_def by auto
qed

definition demo_drv :: "string \<Rightarrow> drv" where
  "demo_drv st = no_drv\<lparr>dv_status := st, dv_cats := ''economy'', dv_ts := 100000\<rparr>"

definition demo_loc :: loc_db where
  "demo_loc = \<lparr>drvs = [''d1'' \<mapsto> demo_drv ''busy'', ''d2'' \<mapsto> demo_drv ''available''],
     geo_idx = (\<lambda>c. if c = ''economy'' then [(''d1'', mk_point 42 21), (''d2'', mk_point 42 21)] else []),
     samples = [], published = []\<rparr>"

theorem Nearest_eligible_witness:
  "map DriverID (fst (Nearest geosearch 100000000000 ''economy'' (mk_point 42 21) 8 5 demo_loc)) = [''d2''] \<and>
   sorted (map DistanceM (fst (Nearest geosearch 100000000000 ''economy'' (mk_point 42 21) 8 5 demo_loc)))"
proof -
  have "sorted (map DistanceM (fst (Nearest geosearch 100000000000 ''economy'' (mk_point 42 21) 8 (int 5) demo_loc)))"
    using Nearest_eligible[OF geosearch_ok_geosearch, where n = 5 and now = 100000000000 and
        category = "''economy''" and p = "mk_point 42 21" and r = 8 and db = demo_loc]
    by (auto split: prod.splits)
  moreover have "map DriverID (fst (Nearest geosearch 100000000000 ''economy'' (mk_point 42 21) 8 5 demo_loc)) = [''d2'']"
    by (simp add: Nearest_def Let_def Nearest_loop_filter geosearch_def demo_loc_def eligible_def HGetAll_def live_def
        demo_drv_def no_drv_def StaleAfter_def mk_candidate_def)
  ultimately show ?thesis by simp
qed

text \<open>A driver marked busy is not found again, at any later time, until something changes that driver's hash.\<close>

lemma busy_not_eligible:
  "\<not> eligible now' cutoff (SetBusy now d ride db) d"
  "\<not> eligible now' cutoff (SetBusyOrder now d ride db) d"
  "\<not> eligible now' cutoff (SetBusyParcel now d ride db) d"
  by (simp_all add: eligible_def SetBusy_def SetBusyOrder_def SetBusyParcel_def HGetAll_def
      live_after_HSet_Expire no_drv_def)

text \<open>Taking an order leaves a parcel of before in the hash, so positions go to both channels.\<close>

lemma SetBusyOrder_keeps_parcel:
  "now < now' \<Longrightarrow> now' < now + hashTTL \<Longrightarrow>
   dv_parcel (HGetAll now' d (SetBusyOrder now d o1 db)) = dv_parcel (HGetAll now d db)"
  by (simp add: SetBusyOrder_def HGetAll_def[of now'] live_after_HSet_Expire)

end
