(* ===== verification/Business.thy ===== *)
theory Business
  imports Ledger
begin

text \<open>
  \<open>modules/business/business.go\<close> and \<open>modules/business/members.go\<close>: companies, their members with
  monthly limits, and the charges that rides and orders leave behind. Company money lives in the
  ledger under \<open>business:{id}:wallet\<close>; the operations that read or write the ledger or the outbox
  take the \<open>core\<close> tables beside their own.
\<close>

definition ErrNotMember [err_defs]: "ErrNotMember = API ''NOT_A_MEMBER'' 403 False []"
definition ErrNotAdmin [err_defs]: "ErrNotAdmin = API ''BUSINESS_FORBIDDEN'' 403 False []"
definition ErrLastOwner [err_defs]: "ErrLastOwner = API ''LAST_OWNER'' 409 False []"
definition ErrLimitReached [err_defs]: "ErrLimitReached = API ''BUSINESS_LIMIT_REACHED'' 409 False []"
definition ErrInsufficient [err_defs]: "ErrInsufficient = API ''BUSINESS_INSUFFICIENT_FUNDS'' 409 False []"

definition BusinessWalletCode :: "uuid \<Rightarrow> string" where
  "BusinessWalletCode b = ''business:'' @ b @ '':wallet''"

section \<open>State\<close>

datatype role = Owner | Admin | Plain_member

definition role_of_string :: "string \<Rightarrow> role" where
  "role_of_string s = (if s = ''owner'' then Owner else if s = ''admin'' then Admin else Plain_member)"

record business =
  bz_id :: uuid
  bz_name :: string
  bz_tax_id :: "string option"
  bz_address :: "string option"
  bz_city :: "string option"
  bz_email :: "string option"
  bz_active :: bool
  bz_created :: time

record member_row =
  mb_business :: uuid
  mb_user :: uuid
  mb_role :: role
  mb_limit :: "int option"
  mb_active :: bool

record charge =
  ch_business :: uuid
  ch_user :: uuid
  ch_kind :: string
  ch_subject :: uuid
  ch_amount :: int
  ch_tx :: uuid
  ch_created :: time

record business_db =
  users :: "user_row list"
  businesses :: "business list"
  members :: "member_row list"
  charges :: "charge list"

section \<open>The calendar\<close>

text \<open>
  \<open>monthStart\<close>: midnight of the first day of the month. The code takes the zone of the server
  (\<open>now.Location()\<close>); the model fixes UTC, the zone of the images the repository builds, which set no other. The
  day of the month is counted from the days since 1970-01-01 in the proleptic Gregorian calendar, as \<open>time.Date\<close> does.
\<close>

definition day_of_month :: "int \<Rightarrow> int" where
  "day_of_month days =
     (let doe = (days + 719468) mod 146097;
          yoe = (doe - doe div 1460 + doe div 36524 - doe div 146096) div 365;
          doy = doe - (365 * yoe + yoe div 4 - yoe div 100);
          mp = (5 * doy + 2) div 153
      in doy - (153 * mp + 2) div 5 + 1)"

definition monthStart :: "time \<Rightarrow> time" where
  "monthStart now = (let days = now div (24 * Hour) in (days - (day_of_month days - 1)) * (24 * Hour))"

section \<open>Operations\<close>

record create_input =
  ciName :: string
  ciTaxID :: string
  ciAddressLine1 :: string
  ciCity :: string
  ciBillingEmail :: string

definition create_rows ::
  "time \<Rightarrow> uuid \<Rightarrow> uuid \<Rightarrow> create_input \<Rightarrow> (business_db, err, business) op" where
  "create_rows dnow i user inp db =
     (if exists_where (\<lambda>b. bz_id b = i) (businesses db) then (Inl PgUnique, db)
      else let b = \<lparr>bz_id = i, bz_name = ciName inp, bz_tax_id = nullable (ciTaxID inp),
                    bz_address = nullable (ciAddressLine1 inp), bz_city = nullable (ciCity inp),
                    bz_email = nullable (ciBillingEmail inp), bz_active = True, bz_created = dnow\<rparr>;
               db1 = db\<lparr>businesses := businesses db @ [b]\<rparr>
           in if exists_where (\<lambda>m. mb_business m = i \<and> mb_user m = user) (members db1) then (Inl PgUnique, db1)
              else (Inr b, db1\<lparr>members := members db1 @ [\<lparr>mb_business = i, mb_user = user, mb_role = Owner,
                                 mb_limit = None, mb_active = True\<rparr>]\<rparr>))"

definition Create :: "time \<Rightarrow> uuid \<Rightarrow> uuid \<Rightarrow> create_input \<Rightarrow>
    business_db \<times> core \<Rightarrow> (err + business) \<times> business_db \<times> core" where
  "Create dnow i user inp = (\<lambda>(db, c).
     let inp = inp\<lparr>ciName := clip (ciName inp) 120\<rparr>
     in if RuneCount (ciName inp) < 2 then (Inl (ErrValidation [(''name'', ''invalid'')]), db, c)
        else
          let inp = inp\<lparr>ciTaxID := clip (ciTaxID inp) 40, ciAddressLine1 := clip (ciAddressLine1 inp) 160,
                        ciCity := clip (ciCity inp) 80,
                        ciBillingEmail := map to_lower (clip (ciBillingEmail inp) 160)\<rparr>
          in if ciBillingEmail inp \<noteq> [] \<and> CHR ''@'' \<notin> set (ciBillingEmail inp)
             then (Inl (ErrValidation [(''billing_email'', ''invalid'')]), db, c)
             else (case begin_func (create_rows dnow i user inp) db of
                     (Inl e, db') \<Rightarrow> (Inl e, db', c)
                   | (Inr b, db') \<Rightarrow>
                       (Inr b, db', EnsureAccount (BusinessWalletCode i) ''business'' None ''liability'' ''EUR'' c)))"

definition role :: "uuid \<Rightarrow> uuid \<Rightarrow> business_db \<Rightarrow> err + role" where
  "role businessID userID db =
     (case find (\<lambda>m. mb_business m = businessID \<and> mb_user m = userID \<and> mb_active m) (members db) of
        None \<Rightarrow> Inl ErrNotMember | Some m \<Rightarrow> Inr (mb_role m))"

definition requireAdmin :: "uuid \<Rightarrow> uuid \<Rightarrow> business_db \<Rightarrow> err option" where
  "requireAdmin businessID userID db =
     (case role businessID userID db of
        Inl e \<Rightarrow> Some e
      | Inr r \<Rightarrow> if r \<noteq> Owner \<and> r \<noteq> Admin then Some ErrNotAdmin else None)"

definition Mine :: "uuid \<Rightarrow> business_db \<Rightarrow> (business \<times> role) list" where
  "Mine user db =
     sort_key (\<lambda>(b, _). bz_created b) (List.map_filter
       (\<lambda>b. if bz_active b then
              map_option (\<lambda>m. (b, mb_role m))
                (find (\<lambda>m. mb_business m = bz_id b \<and> mb_user m = user \<and> mb_active m) (members db))
            else None) (businesses db))"

definition Get :: "uuid \<Rightarrow> uuid \<Rightarrow> business_db \<Rightarrow> err + (business \<times> role)" where
  "Get user businessID db =
     (case role businessID user db of
        Inl e \<Rightarrow> Inl e
      | Inr r \<Rightarrow> (case find (\<lambda>b. bz_id b = businessID) (businesses db) of
                    None \<Rightarrow> Inl ErrNotFound | Some b \<Rightarrow> Inr (b, r)))"

definition SpentThisMonth :: "time \<Rightarrow> uuid \<Rightarrow> uuid \<Rightarrow> business_db \<Rightarrow> int" where
  "SpentThisMonth gnow businessID userID db =
     sum_where (\<lambda>c. ch_business c = businessID \<and> ch_user c = userID \<and> ch_created c \<ge> monthStart gnow)
       ch_amount (charges db)"

definition Charges :: "time \<Rightarrow> uuid \<Rightarrow> uuid \<Rightarrow> time option \<Rightarrow> int \<Rightarrow> business_db \<Rightarrow> err + (charge list \<times> int)" where
  "Charges gnow user businessID before limit db =
     (case role businessID user db of
        Inl e \<Rightarrow> Inl e
      | Inr _ \<Rightarrow>
          let limit = (if limit \<le> 0 \<or> limit > 100 then 30 else limit)
          in Inr (take (nat limit) (sort_key (\<lambda>c. - ch_created c)
                    (filter (\<lambda>c. ch_business c = businessID \<and>
                                 (case before of None \<Rightarrow> True | Some t \<Rightarrow> ch_created c < t)) (charges db))),
                  sum_where (\<lambda>c. ch_business c = businessID \<and> ch_created c \<ge> monthStart gnow)
                    ch_amount (charges db)))"

record member_view =
  MemUser :: uuid
  MemName :: "string option"
  MemPhone :: string
  MemRole :: role
  MemLimit :: "int option"
  MemActive :: bool
  MemSpent :: int

text \<open>The listing of the members; the order of the rows (by role and name) is not modelled.\<close>

definition Members :: "time \<Rightarrow> uuid \<Rightarrow> uuid \<Rightarrow> business_db \<Rightarrow> err + member_view list" where
  "Members gnow user businessID db =
     (case role businessID user db of
        Inl e \<Rightarrow> Inl e
      | Inr _ \<Rightarrow>
          Inr (List.map_filter
            (\<lambda>m. if mb_business m = businessID then
                   map_option (\<lambda>u. \<lparr>MemUser = mb_user m, MemName = us_name u, MemPhone = us_phone u,
                     MemRole = mb_role m, MemLimit = mb_limit m, MemActive = mb_active m,
                     MemSpent = SpentThisMonth gnow businessID (mb_user m) db\<rparr>)
                   (find (\<lambda>u. us_id u = mb_user m) (users db))
                 else None) (members db)))"

definition upsert_member :: "uuid \<Rightarrow> uuid \<Rightarrow> role \<Rightarrow> int option \<Rightarrow> business_db \<Rightarrow> business_db" where
  "upsert_member businessID userID r limit db =
     (if exists_where (\<lambda>m. mb_business m = businessID \<and> mb_user m = userID) (members db)
      then db\<lparr>members := upd_where (\<lambda>m. mb_business m = businessID \<and> mb_user m = userID)
                (\<lambda>m. m\<lparr>mb_role := r, mb_limit := limit, mb_active := True\<rparr>) (members db)\<rparr>
      else db\<lparr>members := members db @ [\<lparr>mb_business = businessID, mb_user = userID, mb_role = r,
                mb_limit = limit, mb_active = True\<rparr>]\<rparr>)"

record member_input =
  miPhone :: string
  miRole :: string
  miLimit :: "int option"

definition AddMember :: "time \<Rightarrow> uuid \<Rightarrow> uuid \<Rightarrow> member_input \<Rightarrow> (business_db, err, member_view) op" where
  "AddMember gnow actor businessID inp db =
     (case requireAdmin businessID actor db of
        Some e \<Rightarrow> (Inl e, db)
      | None \<Rightarrow>
          if miRole inp \<noteq> ''admin'' \<and> miRole inp \<noteq> ''member'' then (Inl (ErrValidation [(''role'', ''invalid'')]), db)
          else if (case miLimit inp of None \<Rightarrow> False | Some l \<Rightarrow> l < 0)
          then (Inl (ErrValidation [(''monthly_limit_minor'', ''invalid'')]), db)
          else (case find (\<lambda>u. us_phone u = miPhone inp \<and> us_active u) (users db) of
                  None \<Rightarrow> (Inl (ErrValidation [(''phone'', ''not_found'')]), db)
                | Some u \<Rightarrow>
                    let db' = upsert_member businessID (us_id u) (role_of_string (miRole inp)) (miLimit inp) db
                    in (case Members gnow actor businessID db' of
                          Inl e \<Rightarrow> (Inl e, db')
                        | Inr ms \<Rightarrow>
                            (case find (\<lambda>m. MemUser m = us_id u) ms of
                               None \<Rightarrow> (Inl ErrNotFound, db')
                             | Some m \<Rightarrow> (Inr m, db')))))"

definition remove_body :: "uuid \<Rightarrow> uuid \<Rightarrow> (business_db, err, unit) op" where
  "remove_body businessID userID db =
     (case find (\<lambda>m. mb_business m = businessID \<and> mb_user m = userID \<and> mb_active m) (members db) of
        None \<Rightarrow> (Inr (), db)
      | Some m \<Rightarrow>
          if mb_role m = Owner \<and>
             count_where (\<lambda>m. mb_business m = businessID \<and> mb_role m = Owner \<and> mb_active m) (members db) \<le> 1
          then (Inl ErrLastOwner, db)
          else (Inr (), db\<lparr>members := upd_where (\<lambda>m. mb_business m = businessID \<and> mb_user m = userID)
                            (\<lambda>m. m\<lparr>mb_active := False\<rparr>) (members db)\<rparr>))"

definition RemoveMember :: "uuid \<Rightarrow> uuid \<Rightarrow> uuid \<Rightarrow> (business_db, err, unit) op" where
  "RemoveMember actor businessID userID db =
     (case requireAdmin businessID actor db of
        Some e \<Rightarrow> (Inl e, db)
      | None \<Rightarrow> begin_func (remove_body businessID userID) db)"

definition Authorize :: "time \<Rightarrow> uuid \<Rightarrow> uuid \<Rightarrow> int \<Rightarrow> business_db \<Rightarrow> core \<Rightarrow> err + string" where
  "Authorize gnow businessID userID amount db c =
     (if amount \<le> 0 then Inl (ErrValidation [(''amount_minor'', ''invalid'')])
      else case find (\<lambda>m. mb_business m = businessID \<and> mb_user m = userID \<and> mb_active m) (members db) of
        None \<Rightarrow> Inl ErrNotMember
      | Some m \<Rightarrow>
          if (case mb_limit m of None \<Rightarrow> False
              | Some l \<Rightarrow> add64 (SpentThisMonth gnow businessID userID db) amount > l)
          then Inl ErrLimitReached
          else (case Balance (BusinessWalletCode businessID) c of
                  Inl e \<Rightarrow> Inl e
                | Inr b \<Rightarrow> if Minor b < amount then Inl ErrInsufficient
                           else Inr (BusinessWalletCode businessID)))"

text \<open>
  \<open>RecordCharge\<close> runs in a transaction of the caller. The table checks that the amount is positive
  and that the ledger transaction of an inserted row exists.
\<close>

definition RecordCharge ::
  "time \<Rightarrow> uuid \<Rightarrow> uuid \<Rightarrow> string \<Rightarrow> uuid \<Rightarrow> uuid \<Rightarrow> int \<Rightarrow> business_db \<times> core \<Rightarrow> (err + unit) \<times> business_db \<times> core" where
  "RecordCharge dnow businessID userID kind subjectID ledgerTx amount = (\<lambda>(db, c).
     if amount \<le> 0 then (Inl PgCheck, db, c)
     else if \<not> exists_where (\<lambda>ch. ch_kind ch = kind \<and> ch_subject ch = subjectID) (charges db) \<and>
             \<not> exists_where (\<lambda>t. lt_id t = ledgerTx) (ltxs c) then (Inl PgCheck, db, c)
     else (Inr (),
           (if exists_where (\<lambda>ch. ch_kind ch = kind \<and> ch_subject ch = subjectID) (charges db) then db
            else db\<lparr>charges := charges db @ [\<lparr>ch_business = businessID, ch_user = userID, ch_kind = kind,
                      ch_subject = subjectID, ch_amount = amount, ch_tx = ledgerTx, ch_created = dnow\<rparr>]\<rparr>),
           c\<lparr>outbox := Emit dnow ''business'' businessID ''BusinessCharged''
               [(''business_id'', JStr businessID), (''user_id'', JStr userID), (''kind'', JStr kind),
                (''subject_id'', JStr subjectID), (''amount_minor'', JInt amount)] (outbox c)\<rparr>))"

section \<open>Facts\<close>

lemma day_of_month_pos: "1 \<le> day_of_month d"
proof -
  have "1 \<le> doy - (153 * ((5 * doy + 2) div 153) + 2) div 5 + 1" for doy :: int
    using div_bounds(1)[of 153 "5 * doy + 2"]
      div_bounds(1)[of 5 "153 * ((5 * doy + 2) div 153) + 2"] by linarith
  then show ?thesis unfolding day_of_month_def Let_def by blast
qed

lemma monthStart_le: "monthStart now \<le> now"
proof -
  have "(now div (24 * Hour) - (day_of_month (now div (24 * Hour)) - 1)) * (24 * Hour) \<le> now div (24 * Hour) * (24 * Hour)"
    using day_of_month_pos[of "now div (24 * Hour)"] by (intro mult_right_mono) auto
  also have "\<dots> \<le> now" using div_bounds(1)[of "24 * Hour" now] by (simp add: mult.commute)
  finally show ?thesis by (simp only: monthStart_def Let_def)
qed

definition has_owner :: "uuid \<Rightarrow> business_db \<Rightarrow> bool" where
  "has_owner b db \<longleftrightarrow> (\<exists>m \<in> set (members db). mb_business m = b \<and> mb_role m = Owner \<and> mb_active m)"

definition members_inv :: "business_db \<Rightarrow> bool" where
  "members_inv db \<longleftrightarrow> distinct (map (\<lambda>m. (mb_business m, mb_user m)) (members db))"

definition charges_inv :: "business_db \<Rightarrow> bool" where
  "charges_inv db \<longleftrightarrow> distinct (map (\<lambda>c. (ch_kind c, ch_subject c)) (charges db)) \<and>
     (\<forall>c \<in> set (charges db). ch_amount c > 0)"

text \<open>When more than one row satisfies a predicate, one of them has a key other than a given one.\<close>

lemma count_other_key:
  assumes "1 < count_where P t" "distinct (map k t)"
  shows "\<exists>r \<in> set t. P r \<and> k r \<noteq> x"
proof -
  obtain r r' rest where f: "filter P t = r # r' # rest"
    using assms(1) by (cases "filter P t" rule: remdups_adj.cases) (auto simp: count_where_def)
  have "distinct (map k (filter P t))" using assms(2) by (rule distinct_map_filter)
  then have "k r \<noteq> k r'" by (simp add: f)
  moreover have "r \<in> set (filter P t)" "r' \<in> set (filter P t)" by (simp_all add: f)
  ultimately show ?thesis by (cases "k r = x") (metis filter_set mem_Collect_eq set_filter)+
qed

lemma remove_keeps_owner:
  assumes "members_inv db" "has_owner b db"
  shows "has_owner b (snd (remove_body businessID userID db))"
proof (cases "find (\<lambda>m. mb_business m = businessID \<and> mb_user m = userID \<and> mb_active m) (members db)")
  case None
  then show ?thesis using assms by (simp add: remove_body_def)
next
  case (Some m)
  let ?own = "\<lambda>m. mb_business m = businessID \<and> mb_role m = Owner \<and> mb_active m"
  show ?thesis
  proof (cases "mb_role m = Owner \<and> count_where ?own (members db) \<le> 1")
    case True
    with Some assms show ?thesis by (simp add: remove_body_def)
  next
    case False
    from assms(2) obtain o1 where o1: "o1 \<in> set (members db)" "mb_business o1 = b" "mb_role o1 = Owner" "mb_active o1"
      by (auto simp: has_owner_def)
    have "\<exists>r \<in> set (members db). mb_business r = b \<and> mb_role r = Owner \<and> mb_active r \<and>
            (mb_business r, mb_user r) \<noteq> (businessID, userID)"
    proof (cases "mb_business o1 = businessID \<and> mb_user o1 = userID")
      case True
      have "m = o1"
        using find_SomeD[OF Some] o1 True assms(1) unfolding members_inv_def
        by (metis (mono_tags, lifting) distinct_map inj_onD)
      then have "mb_role m = Owner" using o1 by simp
      with False have gt: "1 < count_where ?own (members db)" by simp
      obtain r where r: "r \<in> set (members db)" "?own r" "(mb_business r, mb_user r) \<noteq> (businessID, userID)"
        using count_other_key[OF gt assms(1)[unfolded members_inv_def], of "(businessID, userID)"] by auto
      then show ?thesis using True o1 by auto
    qed (use o1 in auto)
    then show ?thesis using Some False
      by (auto simp: remove_body_def has_owner_def set_upd_where)
  qed
qed

section \<open>Properties\<close>

text \<open>
  C9. Removing members never leaves a company without an active owner: whoever removes whomever from
  whichever company, every company that had an active owner still has one.
\<close>
theorem RemoveMember_keeps_owner:
  assumes "members_inv db" "has_owner b db"
  shows "has_owner b (snd (RemoveMember actor businessID userID db))"
proof -
  have "has_owner b (snd (begin_func (remove_body businessID userID) db))"
  proof (rule snd_begin_func_inv)
    fix a s' assume "remove_body businessID userID db = (Inr a, s')"
    then show "has_owner b s'" using remove_keeps_owner[OF assms, of businessID userID] by simp
  qed (rule assms(2))
  then show ?thesis by (simp add: RemoveMember_def assms(2) split: option.splits)
qed

definition demo_member :: "uuid \<Rightarrow> role \<Rightarrow> int option \<Rightarrow> member_row" where
  "demo_member u r l = \<lparr>mb_business = ''b1'', mb_user = u, mb_role = r, mb_limit = l, mb_active = True\<rparr>"

definition demo_business :: business_db where
  "demo_business = \<lparr>users = [\<lparr>us_id = ''u1'', us_phone = ''+38344111222'', us_active = True, us_name = None\<rparr>],
     businesses = [], members = [demo_member ''u1'' Owner None, demo_member ''u2'' Admin (Some 5000)], charges = []\<rparr>"

theorem RemoveMember_keeps_owner_witness:
  "has_owner ''b1'' (snd (RemoveMember ''u2'' ''b1'' ''u1'' demo_business)) \<and>
   fst (RemoveMember ''u2'' ''b1'' ''u1'' demo_business) = Inl ErrLastOwner \<and>
   fst (RemoveMember ''u1'' ''b1'' ''u2'' demo_business) = Inr ()"
proof -
  have "members_inv demo_business" "has_owner ''b1'' demo_business"
    by (simp_all add: members_inv_def has_owner_def demo_business_def demo_member_def)
  note k = RemoveMember_keeps_owner[OF this, of "''u2''" "''b1''" "''u1''"]
  have "fst (RemoveMember ''u2'' ''b1'' ''u1'' demo_business) = Inl ErrLastOwner"
    "fst (RemoveMember ''u1'' ''b1'' ''u2'' demo_business) = Inr ()"
    by code_simp+
  with k show ?thesis by blast
qed

text \<open>
  \<open>AddMember\<close> has no such guard: an administrator who adds the only owner again, as a member,
  leaves the company without an owner.
\<close>

lemma AddMember_demotes_last_owner:
  "\<not> has_owner ''b1'' (snd (AddMember 0 ''u2'' ''b1'' \<lparr>miPhone = ''+38344111222'', miRole = ''member'', miLimit = None\<rparr> demo_business))"
  by (simp add: AddMember_def requireAdmin_def role_def demo_business_def demo_member_def upsert_member_def
      exists_where_def Let_def has_owner_def upd_where_def role_of_string_def split: sum.splits option.splits)

text \<open>
  C7. A company pays only what it allowed: \<open>Authorize\<close> accepts an expense exactly when the amount is
  positive, the user is an active member, the month's charges plus the amount stay within the
  member's limit, and the company's ledger balance covers it; it then names the company's wallet.
\<close>
theorem Authorize_iff:
  assumes "in64 (SpentThisMonth gnow b u db + amount)" "members_inv db"
  shows "Authorize gnow b u amount db c = Inr w \<longleftrightarrow>
    w = BusinessWalletCode b \<and> amount > 0 \<and>
    (\<exists>m \<in> set (members db). mb_business m = b \<and> mb_user m = u \<and> mb_active m \<and>
       (\<forall>l. mb_limit m = Some l \<longrightarrow> SpentThisMonth gnow b u db + amount \<le> l)) \<and>
    (\<exists>a. Balance w c = Inr a \<and> amount \<le> Minor a)"
proof -
  let ?P = "\<lambda>m. mb_business m = b \<and> mb_user m = u \<and> mb_active m"
  have one: "m = m'" if "m \<in> set (members db)" "m' \<in> set (members db)" "?P m" "?P m'" for m m'
    using that assms(2) unfolding members_inv_def by (metis (mono_tags, lifting) distinct_map inj_onD)
  show ?thesis
  proof (cases "find ?P (members db)")
    case None
    then have "\<forall>m \<in> set (members db). \<not> ?P m" by (simp add: find_None_iff_all)
    then have "\<not> (\<exists>m \<in> set (members db). mb_business m = b \<and> mb_user m = u \<and> mb_active m \<and>
       (\<forall>l. mb_limit m = Some l \<longrightarrow> SpentThisMonth gnow b u db + amount \<le> l))" by blast
    moreover have "Authorize gnow b u amount db c \<noteq> Inr w" by (simp add: Authorize_def None)
    ultimately show ?thesis by blast
  next
    case (Some m)
    then have m: "m \<in> set (members db)" "?P m" using find_SomeD by fastforce+
    have ex: "(\<exists>m' \<in> set (members db). mb_business m' = b \<and> mb_user m' = u \<and> mb_active m' \<and> Q m') \<longleftrightarrow> Q m" for Q
      using one m by blast
    show ?thesis
      using assms(1) by (auto simp: Authorize_def Some ex arith64 split: option.splits sum.splits)
  qed
qed

definition demo_business_core :: core where
  "demo_business_core = snd (Post 0 ''t0'' \<lparr>Kind = ''deposit'', Reference = ''d'', IdempotencyKey = ''d'', TxCurrency = ''EUR'',
      Postings = [debit ''bank'' 9000, credit (BusinessWalletCode ''b1'') 9000]\<rparr>
     (EnsureAccount (BusinessWalletCode ''b1'') ''business'' None ''liability'' ''EUR''
       (EnsureAccount ''bank'' ''bank'' None ''asset'' ''EUR'' empty_core)))"

theorem Authorize_iff_witness:
  "Authorize 0 ''b1'' ''u2'' 4000 demo_business demo_business_core = Inr (BusinessWalletCode ''b1'') \<and>
   Authorize 0 ''b1'' ''u2'' 6000 demo_business demo_business_core \<noteq> Inr (BusinessWalletCode ''b1'')"
proof -
  have s: "SpentThisMonth 0 ''b1'' ''u2'' demo_business = 0"
    by (simp add: SpentThisMonth_def demo_business_def table_simps)
  have i: "members_inv demo_business" by (simp add: members_inv_def demo_business_def demo_member_def)
  have b: "\<exists>a. Balance (BusinessWalletCode ''b1'') demo_business_core = Inr a \<and> 4000 \<le> Minor a"
    by (rule exI[of _ "EUR 9000"]) code_simp
  have m: "\<exists>m \<in> set (members demo_business). mb_business m = ''b1'' \<and> mb_user m = ''u2'' \<and> mb_active m \<and>
       (\<forall>l. mb_limit m = Some l \<longrightarrow> (0::int) + 4000 \<le> l)"
    by (simp add: demo_business_def demo_member_def)
  have no: "\<not> (\<exists>m \<in> set (members demo_business). mb_business m = ''b1'' \<and> mb_user m = ''u2'' \<and> mb_active m \<and>
       (\<forall>l. mb_limit m = Some l \<longrightarrow> (0::int) + 6000 \<le> l))"
    by (simp add: demo_business_def demo_member_def)
  have r: "in64 (SpentThisMonth 0 ''b1'' ''u2'' demo_business + 4000)"
    "in64 (SpentThisMonth 0 ''b1'' ''u2'' demo_business + 6000)" by (simp_all add: s in64_def)
  show ?thesis
    unfolding Authorize_iff[OF r(1) i] Authorize_iff[OF r(2) i] using b m no by (simp add: s)
qed

text \<open>A charge is recorded once per subject, however often the settlement is repeated.\<close>

lemma RecordCharge_Inr:
  assumes "RecordCharge dnow b u k sid tx n (db, c) = (Inr (), db', c')"
  shows "n > 0" "\<exists>ch \<in> set (charges db'). ch_kind ch = k \<and> ch_subject ch = sid"
    "charges_inv db \<Longrightarrow> charges_inv db'"
    "\<And>ch. ch \<in> set (charges db) \<Longrightarrow> ch_kind ch = k \<Longrightarrow> ch_subject ch = sid \<Longrightarrow> db' = db"
    "accounts c' = accounts c" "ltxs c' = ltxs c" "entries c' = entries c"
proof -
  let ?old = "exists_where (\<lambda>ch. ch_kind ch = k \<and> ch_subject ch = sid) (charges db)"
  let ?row = "\<lparr>ch_business = b, ch_user = u, ch_kind = k, ch_subject = sid, ch_amount = n, ch_tx = tx, ch_created = dnow\<rparr>"
  from assms have n: "n > 0" by (simp add: RecordCharge_def split: if_splits)
  have d: "db' = (if ?old then db else db\<lparr>charges := charges db @ [?row]\<rparr>)"
    using assms by (auto simp: RecordCharge_def Let_def split: if_splits)
  show "n > 0" by (rule n)
  show "\<exists>ch \<in> set (charges db'). ch_kind ch = k \<and> ch_subject ch = sid"
    by (cases ?old) (auto simp: d exists_where_iff)
  show "charges_inv db \<Longrightarrow> charges_inv db'" using n by (auto simp: d charges_inv_def exists_where_iff)
  show "\<And>ch. ch \<in> set (charges db) \<Longrightarrow> ch_kind ch = k \<Longrightarrow> ch_subject ch = sid \<Longrightarrow> db' = db"
    by (auto simp: d exists_where_iff)
  show "accounts c' = accounts c" "ltxs c' = ltxs c" "entries c' = entries c"
    using assms by (auto simp: RecordCharge_def split: if_splits)
qed

text \<open>
  The settlement of a ride can be repeated without charging the company twice: once a charge for
  a subject is recorded, recording it again, with any arguments for the same subject, leaves the
  charges, and so what the member has spent this month, as they are, and touches no ledger table.
\<close>
theorem RecordCharge_once:
  assumes "RecordCharge dnow b u k sid tx n (db, c) = (Inr (), db1, c1)"
    and "RecordCharge dnow' b' u' k sid tx' n' (db1, c2) = (r, db2, c3)"
  shows "db2 = db1 \<and> SpentThisMonth gnow x y db2 = SpentThisMonth gnow x y db1 \<and>
    accounts c3 = accounts c2 \<and> ltxs c3 = ltxs c2 \<and> entries c3 = entries c2"
proof -
  obtain ch where ch: "ch \<in> set (charges db1)" "ch_kind ch = k" "ch_subject ch = sid"
    using RecordCharge_Inr(2)[OF assms(1)] by blast
  show ?thesis
  proof (cases r)
    case (Inl e)
    then show ?thesis using assms(2) by (auto simp: RecordCharge_def split: if_splits)
  next
    case (Inr v)
    with RecordCharge_Inr(4,5,6,7)[of dnow' b' u' k sid tx' n' db1 c2 db2 c3] assms(2) ch show ?thesis
      by auto
  qed
qed

theorem RecordCharge_once_witness:
  "let (r1, db1, c1) = RecordCharge 5 ''b1'' ''u2'' ''ride'' ''r1'' ''t0'' 700 (demo_business, demo_business_core);
       (r2, db2, c2) = RecordCharge 6 ''b1'' ''u2'' ''ride'' ''r1'' ''t0'' 700 (db1, c1)
   in r1 = Inr () \<and> r2 = Inr () \<and> db2 = db1 \<and> SpentThisMonth 6 ''b1'' ''u2'' db2 = 700"
proof -
  obtain r1 db1 c1 where 1: "RecordCharge 5 ''b1'' ''u2'' ''ride'' ''r1'' ''t0'' 700 (demo_business, demo_business_core) = (r1, db1, c1)"
    by (cases "RecordCharge 5 ''b1'' ''u2'' ''ride'' ''r1'' ''t0'' 700 (demo_business, demo_business_core)")
  obtain r2 db2 c2 where 2: "RecordCharge 6 ''b1'' ''u2'' ''ride'' ''r1'' ''t0'' 700 (db1, c1) = (r2, db2, c2)"
    by (cases "RecordCharge 6 ''b1'' ''u2'' ''ride'' ''r1'' ''t0'' 700 (db1, c1)")
  have ok: "fst (RecordCharge 5 ''b1'' ''u2'' ''ride'' ''r1'' ''t0'' 700 (demo_business, demo_business_core)) = Inr ()"
    "fst (RecordCharge 6 ''b1'' ''u2'' ''ride'' ''r1'' ''t0'' 700
       (snd (RecordCharge 5 ''b1'' ''u2'' ''ride'' ''r1'' ''t0'' 700 (demo_business, demo_business_core)))) = Inr ()"
    "SpentThisMonth 6 ''b1'' ''u2'' (fst (snd (RecordCharge 5 ''b1'' ''u2'' ''ride'' ''r1'' ''t0'' 700 (demo_business, demo_business_core)))) = 700"
    by code_simp+
  then have r: "r1 = Inr ()" "r2 = Inr ()" "SpentThisMonth 6 ''b1'' ''u2'' db1 = 700" using 1 2 by simp_all
  from RecordCharge_once[OF 1[unfolded r(1)] 2] have "db2 = db1" by blast
  with r show ?thesis by (simp add: 1 2)
qed

end
