(* ===== verification/Drivers.thy ===== *)
theory Drivers
  imports Ledger Location
begin

text \<open>
  \<open>modules/drivers/drivers.go\<close>: driver profiles, their approval and suspension, and going online.
  The eligibility check of the documents module is an interface of the code (\<open>Eligibility\<close>, nil when
  not configured): an optional function of the driver's row here. The IP address and the request
  identifier of audit rows are left out.
\<close>

definition ErrNotDriver [err_defs]: "ErrNotDriver = API ''NOT_A_DRIVER'' 403 False []"
definition ErrNotApproved [err_defs]: "ErrNotApproved = API ''DRIVER_NOT_APPROVED'' 403 False []"
definition ErrProfileLocked [err_defs]: "ErrProfileLocked = API ''DRIVER_PROFILE_LOCKED'' 409 False []"
definition ErrDocumentsIncomplete [err_defs]: "ErrDocumentsIncomplete = API ''DRIVER_DOCUMENTS_INCOMPLETE'' 422 False []"

definition KnownCategories :: "string list" where
  "KnownCategories = [''economy'', ''comfort'', ''xl'', ''taxi'']"

section \<open>State\<close>

datatype driver_status = Pending | Approved_status | Suspended

record profile =
  UserID :: uuid
  DStatus :: driver_status
  VehicleMake :: string
  VehicleModel :: string
  VehiclePlate :: string
  VehicleColor :: string
  Categories :: "string list"
  RatingSum :: int
  RatingCount :: int
  ApprovedAt :: "time option"
  SuspendedReason :: "string option"
  PCreatedAt :: time

record capability =
  cp_user :: uuid
  cp_capability :: string
  cp_revoked :: "time option"

record drivers_db =
  profiles :: "profile list"
  capabilities :: "capability list"
  dr_users :: "user_row list"

record apply_input =
  aiMake :: string
  aiModel :: string
  aiPlate :: string
  aiColor :: string
  aiCategories :: "string list"

section \<open>Validation\<close>

definition NormalizeCategories :: "string list \<Rightarrow> string list option" where
  "NormalizeCategories inp =
     (if inp = [] then None
      else let cs = map (\<lambda>c. map to_lower (TrimSpace c)) inp
           in if list_all (\<lambda>c. c \<in> set KnownCategories) cs
              then Some (filter (\<lambda>k. k \<in> set cs) KnownCategories) else None)"

definition norm_field :: "string \<Rightarrow> string \<Rightarrow> nat \<Rightarrow> nat \<Rightarrow> fields \<Rightarrow> fields" where
  "norm_field v name mn mx f =
     (let n = RuneCount v in if n < mn then set_field name ''required'' f
                          else if n > mx then set_field name ''too_long'' f else f)"

definition validateApply :: "apply_input \<Rightarrow> apply_input \<times> fields" where
  "validateApply inp =
     (let inp = inp\<lparr>aiMake := squash (aiMake inp), aiModel := squash (aiModel inp), aiColor := squash (aiColor inp),
                   aiPlate := map to_upper (join_with ''-'' (Fields (aiPlate inp)))\<rparr>;
          f = norm_field (aiMake inp) ''vehicle_make'' 2 40 [];
          f = norm_field (aiModel inp) ''vehicle_model'' 1 40 f;
          f = norm_field (aiColor inp) ''vehicle_color'' 2 30 f;
          n = length (aiPlate inp);
          f = add_field_if (n < 4 \<or> n > 12) ''vehicle_plate'' ''invalid'' f
      in case NormalizeCategories (aiCategories inp) of
           Some cats \<Rightarrow> (inp\<lparr>aiCategories := cats\<rparr>, f)
         | None \<Rightarrow> (inp, set_field ''categories'' ''invalid'' f))"

text \<open>\<open>platform/phone\<close>: \<open>^\+[1-9][0-9]{6,14}$\<close>.\<close>

definition PhoneValid :: "string \<Rightarrow> bool" where
  "PhoneValid s = (case s of p # d # ds \<Rightarrow> p = CHR ''+'' \<and> is_digit d \<and> d \<noteq> CHR ''0'' \<and>
      list_all is_digit ds \<and> 6 \<le> length ds \<and> length ds \<le> 14 | _ \<Rightarrow> False)"

section \<open>Operations\<close>

text \<open>The two handlers that insert or rewrite a pending profile share their transaction.\<close>

definition apply_tx :: "time \<Rightarrow> uuid \<Rightarrow> string \<Rightarrow> uuid \<Rightarrow> apply_input \<Rightarrow> (drivers_db \<times> core, err, profile) op" where
  "apply_tx dnow actor action driverID inp = (\<lambda>(db, c).
     let old = find (\<lambda>p. UserID p = driverID) (profiles db)
     in case old of
          Some p \<Rightarrow>
            if DStatus p \<noteq> Pending then (Inl ErrProfileLocked, db, c)
            else let p' = p\<lparr>VehicleMake := aiMake inp, VehicleModel := aiModel inp, VehiclePlate := aiPlate inp,
                           VehicleColor := aiColor inp, Categories := aiCategories inp\<rparr>
                 in (Inr p', db\<lparr>profiles := upd_where (\<lambda>q. UserID q = driverID) (\<lambda>_. p') (profiles db)\<rparr>,
                     c\<lparr>audit := audit c @ [\<lparr>au_actor = Some actor, au_action = action, au_target_type = ''driver'',
                         au_target_id = driverID, au_meta = [(''categories'', JStrs (aiCategories inp))]\<rparr>],
                       outbox := Emit dnow ''driver'' driverID ''DriverApplied''
                         [(''driver_id'', JStr driverID), (''categories'', JStrs (aiCategories inp))] (outbox c)\<rparr>)
        | None \<Rightarrow>
            let p' = \<lparr>UserID = driverID, DStatus = Pending, VehicleMake = aiMake inp, VehicleModel = aiModel inp,
                      VehiclePlate = aiPlate inp, VehicleColor = aiColor inp, Categories = aiCategories inp,
                      RatingSum = 0, RatingCount = 0, ApprovedAt = None, SuspendedReason = None, PCreatedAt = dnow\<rparr>
            in (Inr p', db\<lparr>profiles := profiles db @ [p']\<rparr>,
                c\<lparr>audit := audit c @ [\<lparr>au_actor = Some actor, au_action = action, au_target_type = ''driver'',
                    au_target_id = driverID, au_meta = [(''categories'', JStrs (aiCategories inp))]\<rparr>],
                  outbox := Emit dnow ''driver'' driverID ''DriverApplied''
                    [(''driver_id'', JStr driverID), (''categories'', JStrs (aiCategories inp))] (outbox c)\<rparr>))"

definition Apply :: "time \<Rightarrow> uuid \<Rightarrow> apply_input \<Rightarrow> (drivers_db \<times> core, err, profile) op" where
  "Apply dnow user inp s =
     (let (inp', f) = validateApply inp
      in if f \<noteq> [] then (Inl (ErrValidation f), s)
         else begin_func (apply_tx dnow user ''driver.applied'' user inp') s)"

definition CreateFor :: "time \<Rightarrow> uuid \<Rightarrow> string \<Rightarrow> apply_input \<Rightarrow> (drivers_db \<times> core, err, profile) op" where
  "CreateFor dnow admin phone inp s =
     (let (inp', f) = validateApply inp;
          f = add_field_if (\<not> PhoneValid phone) ''phone'' ''invalid'' f
      in if f \<noteq> [] then (Inl (ErrValidation f), s)
         else begin_func (\<lambda>s.
           case find (\<lambda>u. us_phone u = phone) (dr_users (fst s)) of
             None \<Rightarrow> (Inl (WithFields [(''phone'', ''unknown'')] ErrNotFound), s)
           | Some u \<Rightarrow> apply_tx dnow admin ''driver.created_by_ops'' (us_id u) inp' s) s)"

definition GetProfile :: "uuid \<Rightarrow> drivers_db \<Rightarrow> err + profile" where
  "GetProfile user db = (case find (\<lambda>p. UserID p = user) (profiles db) of None \<Rightarrow> Inl ErrNotDriver | Some p \<Rightarrow> Inr p)"

definition Approved :: "uuid \<Rightarrow> drivers_db \<Rightarrow> err + profile" where
  "Approved user db =
     (case GetProfile user db of
        Inl e \<Rightarrow> Inl e
      | Inr p \<Rightarrow> if DStatus p \<noteq> Approved_status then Inl ErrNotApproved else Inr p)"

definition PendingProfiles :: "int \<Rightarrow> drivers_db \<Rightarrow> profile list" where
  "PendingProfiles limit db =
     take (nat (if limit \<le> 0 \<or> limit > 200 then 50 else limit))
       (sort_key PCreatedAt (filter (\<lambda>p. DStatus p = Pending) (profiles db)))"

definition grant :: "uuid \<Rightarrow> string \<Rightarrow> capability list \<Rightarrow> capability list" where
  "grant user c cs =
     (if exists_where (\<lambda>x. cp_user x = user \<and> cp_capability x = c) cs
      then upd_where (\<lambda>x. cp_user x = user \<and> cp_capability x = c) (\<lambda>x. x\<lparr>cp_revoked := None\<rparr>) cs
      else cs @ [\<lparr>cp_user = user, cp_capability = c, cp_revoked = None\<rparr>])"

definition grants_of :: "string list \<Rightarrow> string list" where
  "grants_of cats = ''RIDE_DRIVER'' # map (\<lambda>_. ''TAXI_DRIVER'') (filter (\<lambda>c. c = ''taxi'') cats)"

definition approve_tx :: "time \<Rightarrow> uuid \<Rightarrow> uuid \<Rightarrow> string list \<Rightarrow> (drivers_db \<times> core, err, profile) op" where
  "approve_tx dnow admin driverID cats = (\<lambda>(db, c).
     case find (\<lambda>p. UserID p = driverID) (profiles db) of
       None \<Rightarrow> (Inl ErrNotFound, db, c)
     | Some p \<Rightarrow>
         let p' = p\<lparr>DStatus := Approved_status, Categories := cats, ApprovedAt := Some dnow, SuspendedReason := None\<rparr>
         in (Inr p',
             db\<lparr>profiles := upd_where (\<lambda>q. UserID q = driverID) (\<lambda>_. p') (profiles db),
                capabilities := fold (grant driverID) (grants_of cats) (capabilities db)\<rparr>,
             c\<lparr>audit := audit c @ [\<lparr>au_actor = Some admin, au_action = ''driver.approved'', au_target_type = ''driver'',
                 au_target_id = driverID, au_meta = [(''categories'', JStrs cats), (''capabilities'', JStrs (grants_of cats))]\<rparr>],
               outbox := Emit dnow ''driver'' driverID ''DriverApproved''
                 [(''driver_id'', JStr driverID), (''categories'', JStrs cats)] (outbox c)\<rparr>))"

text \<open>The categories are saved before the documents are checked, outside the transaction.\<close>

definition Approve ::
  "(drivers_db \<Rightarrow> uuid \<Rightarrow> err + (bool \<times> string list)) option \<Rightarrow> time \<Rightarrow> uuid \<Rightarrow> uuid \<Rightarrow> string list \<Rightarrow>
   (drivers_db \<times> core, err, profile) op" where
  "Approve eligibility dnow admin driverID categories = (\<lambda>(db, c).
     case NormalizeCategories categories of
       None \<Rightarrow> (Inl (ErrValidation [(''categories'', ''invalid'')]), db, c)
     | Some cats \<Rightarrow>
         (case eligibility of
            None \<Rightarrow> begin_func (approve_tx dnow admin driverID cats) (db, c)
          | Some elig \<Rightarrow>
              let db1 = db\<lparr>profiles := upd_where (\<lambda>p. UserID p = driverID) (\<lambda>p. p\<lparr>Categories := cats\<rparr>) (profiles db)\<rparr>
              in (case elig db1 driverID of
                    Inl e \<Rightarrow> (Inl e, db1, c)
                  | Inr (ok, missing) \<Rightarrow>
                      if \<not> ok then
                        (Inl (WithFields (fold (\<lambda>m. set_field (''documents.'' @ m) ''missing'') missing []) ErrDocumentsIncomplete), db1, c)
                      else begin_func (approve_tx dnow admin driverID cats) (db1, c))))"

definition suspend_tx :: "time \<Rightarrow> uuid \<Rightarrow> uuid \<Rightarrow> string \<Rightarrow> (drivers_db \<times> core, err, profile) op" where
  "suspend_tx dnow admin driverID reason = (\<lambda>(db, c).
     case find (\<lambda>p. UserID p = driverID) (profiles db) of
       None \<Rightarrow> (Inl ErrNotFound, db, c)
     | Some p \<Rightarrow>
         let p' = p\<lparr>DStatus := Suspended, SuspendedReason := Some reason\<rparr>
         in (Inr p',
             db\<lparr>profiles := upd_where (\<lambda>q. UserID q = driverID) (\<lambda>_. p') (profiles db),
                capabilities := upd_where (\<lambda>x. cp_user x = driverID \<and> cp_capability x \<in> {''RIDE_DRIVER'', ''TAXI_DRIVER''} \<and>
                                  cp_revoked x = None) (\<lambda>x. x\<lparr>cp_revoked := Some dnow\<rparr>) (capabilities db)\<rparr>,
             c\<lparr>audit := audit c @ [\<lparr>au_actor = Some admin, au_action = ''driver.suspended'', au_target_type = ''driver'',
                 au_target_id = driverID, au_meta = [(''reason'', JStr reason)]\<rparr>],
               outbox := Emit dnow ''driver'' driverID ''DriverSuspended'' [(''driver_id'', JStr driverID)] (outbox c)\<rparr>))"

definition Suspend :: "time \<Rightarrow> time \<Rightarrow> uuid \<Rightarrow> uuid \<Rightarrow> string \<Rightarrow> (drivers_db \<times> core \<times> loc_db, err, profile) op" where
  "Suspend gnow dnow admin driverID reason = (\<lambda>(db, c, l).
     let reason = TrimSpace reason
     in if reason = [] \<or> RuneCount reason > 300 then (Inl (ErrValidation [(''reason'', ''required'')]), db, c, l)
        else (case begin_func (suspend_tx dnow admin driverID reason) (db, c) of
                (Inl e, db', c') \<Rightarrow> (Inl e, db', c', l)
              | (Inr p, db', c') \<Rightarrow> (Inr p, db', c', SetOffline gnow driverID l)))"

definition GoOnline :: "time \<Rightarrow> uuid \<Rightarrow> drivers_db \<Rightarrow> (loc_db, err, driver_state option) op" where
  "GoOnline gnow user db l =
     (case Approved user db of
        Inl e \<Rightarrow> (Inl e, l)
      | Inr p \<Rightarrow> let l' = SetOnline gnow user (Categories p) l in (Inr (State gnow user l'), l'))"

definition GoOffline :: "time \<Rightarrow> uuid \<Rightarrow> loc_db \<Rightarrow> loc_db" where
  "GoOffline gnow user l = SetOffline gnow user l"

section \<open>Facts\<close>

lemma NormalizeCategories_Some:
  assumes "NormalizeCategories cs = Some out"
  shows "out \<noteq> [] \<and> set out \<subseteq> set KnownCategories \<and> distinct out \<and> NormalizeCategories out = Some out"
proof -
  let ?n = "\<lambda>c. map to_lower (TrimSpace c)"
  from assms have cs: "cs \<noteq> []" "\<forall>c \<in> set cs. ?n c \<in> set KnownCategories"
    and out: "out = filter (\<lambda>k. k \<in> ?n ` set cs) KnownCategories"
    by (auto simp: NormalizeCategories_def Let_def list_all_iff split: if_splits)
  have ne: "out \<noteq> []" using cs by (cases cs) (auto simp: out filter_empty_conv)
  have known: "?n k = k" if "k \<in> set KnownCategories" for k
    using that unfolding KnownCategories_def
    by (auto simp: TrimSpace_def is_space_def to_lower_def is_upper_def)
  have sub: "set out \<subseteq> set KnownCategories" by (auto simp: out)
  then have "?n ` set out = set out" using known by (force simp: image_iff)
  then have "NormalizeCategories out = Some (filter (\<lambda>k. k \<in> set out) KnownCategories)"
    using ne sub known by (auto simp: NormalizeCategories_def Let_def list_all_iff)
  moreover have "filter (\<lambda>k. k \<in> set out) KnownCategories = out"
    unfolding out by (intro filter_cong) auto
  moreover have "distinct out" unfolding out by (simp add: KnownCategories_def)
  ultimately show ?thesis using ne sub by simp
qed

lemma Approved_iff: "Approved u db = Inr p \<longleftrightarrow> find (\<lambda>p. UserID p = u) (profiles db) = Some p \<and> DStatus p = Approved_status"
  by (auto simp: Approved_def GetProfile_def split: option.splits)

text \<open>
  Given that the categories of the profiles are normalised, as every operation that writes them
  stores them, a driver goes online only when approved, and then appears as available for exactly the
  categories of the profile, which are a non-empty list of known categories without repetition;
  otherwise nothing changes and the error says whether the user is no driver or is not approved.
\<close>
theorem GoOnline_categories:
  assumes "GoOnline gnow u db l = (r, l')" "\<forall>p \<in> set (profiles db). NormalizeCategories (Categories p) = Some (Categories p)"
  shows "case r of
     Inr st \<Rightarrow> (\<exists>p. Approved u db = Inr p \<and> (\<exists>d. st = Some d \<and> DSStatus d = ''available'' \<and> DSCategories d = Categories p) \<and>
       Categories p \<noteq> [] \<and> set (Categories p) \<subseteq> set KnownCategories \<and> distinct (Categories p))
   | Inl e \<Rightarrow> l' = l \<and> (e = ErrNotDriver \<or> e = ErrNotApproved)"
proof (cases "Approved u db")
  case (Inl e)
  then have "e = ErrNotDriver \<or> e = ErrNotApproved"
    by (auto simp: Approved_def GetProfile_def split: option.splits if_splits)
  then show ?thesis using Inl assms(1) by (auto simp: GoOnline_def)
next
  case (Inr p)
  then have "p \<in> set (profiles db)" by (auto simp: Approved_iff dest: find_SomeD)
  then have n: "NormalizeCategories (Categories p) = Some (Categories p)" using assms(2) by blast
  note N = NormalizeCategories_Some[OF n]
  have split1: "split_comma acc w = [rev acc @ w]" if "CHR '','' \<notin> set w" for acc w
    using that by (induction w arbitrary: acc) auto
  have split2: "split_comma acc (w @ CHR '','' # ws) = (rev acc @ w) # split_comma [] ws"
    if "CHR '','' \<notin> set w" for acc w ws
    using that by (induction w arbitrary: acc) auto
  have join: "split_comma [] (join_with '','' ws) = ws" if "ws \<noteq> []" "\<forall>w \<in> set ws. CHR '','' \<notin> set w" for ws
    using that
  proof (induction ws)
    case (Cons w ws)
    then show ?case using split1[of w "[]"] split2[of w "[]"] by (cases ws) auto
  qed simp
  have nocomma: "\<forall>w \<in> set (Categories p). w \<noteq> [] \<and> CHR '','' \<notin> set w"
    using N by (force simp: KnownCategories_def)
  have "join_with '','' (Categories p) \<noteq> []"
    using N nocomma by (cases "Categories p" rule: remdups_adj.cases) auto
  then have cats: "splitCats (join_with '','' (Categories p)) = Categories p"
    using join[of "Categories p"] N nocomma by (simp add: splitCats_def)
  have "\<exists>d. State gnow u (SetOnline gnow u (Categories p) l) = Some d \<and> DSStatus d = ''available'' \<and> DSCategories d = Categories p"
    by (simp add: State_def SetOnline_def Let_def HGetAll_def[of gnow u "HSet_Expire _ _ _ _"] live_after_HSet_Expire hashTTL_def cats)
  then show ?thesis using Inr N assms(1) by (auto simp: GoOnline_def Let_def)
qed

definition demo_profile :: profile where
  "demo_profile = \<lparr>UserID = ''d1'', DStatus = Approved_status, VehicleMake = ''VW'', VehicleModel = ''Golf'',
     VehiclePlate = ''01-123-AB'', VehicleColor = ''red'', Categories = [''economy'', ''comfort''], RatingSum = 0, RatingCount = 0,
     ApprovedAt = Some 5, SuspendedReason = None, PCreatedAt = 0\<rparr>"

definition demo_drivers :: drivers_db where
  "demo_drivers = \<lparr>profiles = [demo_profile], capabilities = [], dr_users = []\<rparr>"

lemma demo_normal: "NormalizeCategories [''economy'', ''comfort''] = Some [''economy'', ''comfort'']"
  by (simp add: NormalizeCategories_def Let_def KnownCategories_def TrimSpace_def is_space_def to_lower_def is_upper_def)

theorem GoOnline_categories_witness:
  "\<exists>st l'. GoOnline 100 ''d1'' demo_drivers \<lparr>drvs = (\<lambda>_. None), geo_idx = (\<lambda>_. []), samples = [], published = []\<rparr> = (Inr (Some st), l') \<and>
     DSCategories st = [''economy'', ''comfort'']"
proof -
  let ?l = "\<lparr>drvs = (\<lambda>_. None), geo_idx = (\<lambda>_. []), samples = [], published = []\<rparr>"
  obtain r l' where g: "GoOnline 100 ''d1'' demo_drivers ?l = (r, l')" by (cases "GoOnline 100 ''d1'' demo_drivers ?l")
  have "\<forall>p \<in> set (profiles demo_drivers). NormalizeCategories (Categories p) = Some (Categories p)"
    using demo_normal by (simp add: demo_drivers_def demo_profile_def)
  note P = GoOnline_categories[OF g this]
  have a: "Approved ''d1'' demo_drivers = Inr demo_profile"
    by (simp add: Approved_iff demo_drivers_def demo_profile_def)
  then obtain st where "r = Inr st" using g by (auto simp: GoOnline_def Let_def)
  with P a show ?thesis using g by (auto simp: demo_profile_def)
qed

text \<open>
  An approved driver whom the operators try to approve for a category whose documents are missing
  keeps that category although the approval fails: the categories are saved first and the driver can
  go online with them.
\<close>

lemma Approve_failure_keeps_categories:
  assumes "Approved d db = Inr p" "NormalizeCategories cats = Some cs" "\<And>db'. elig db' d = Inr (False, ms)"
  shows "\<exists>e db1 p'. Approve (Some elig) dnow admin d cats (db, c) = (Inl e, db1, c) \<and>
           Approved d db1 = Inr p' \<and> Categories p' = cs"
proof -
  have f: "find (\<lambda>p. UserID p = d) (upd_where (\<lambda>p. UserID p = d) (\<lambda>p. p\<lparr>Categories := cs\<rparr>) (profiles db)) = Some (p\<lparr>Categories := cs\<rparr>)"
    using assms(1) by (subst find_upd_where) (auto simp: Approved_iff dest: find_SomeD)
  show ?thesis
    using assms f by (auto simp: Approve_def Let_def Approved_iff)
qed

end
