(* ===== verification/RateLimits.thy ===== *)
theory RateLimits
  imports Money
begin

text \<open>
  The fixed-window counters in Redis: \<open>Allow\<close> and \<open>middleware\<close> of \<open>platform/ratelimit/ratelimit.go\<close>,
  and \<open>Allow\<close> of \<open>modules/fraud/fraud.go\<close> (the velocity limits of users). A counter has a value and
  the instant it expires; \<open>up\<close> says whether Redis answers. Keys are the strings the code builds.
\<close>

definition ErrVelocity [err_defs]: "ErrVelocity = API ''TOO_MANY_REQUESTS'' 429 True []"

section \<open>Counters\<close>

type_synonym counters = "string \<Rightarrow> (nat \<times> time) option"

definition counter :: "time \<Rightarrow> string \<Rightarrow> counters \<Rightarrow> nat" where
  "counter now k r = (case r k of None \<Rightarrow> 0 | Some (n, t) \<Rightarrow> if now < t then n else 0)"

text \<open>\<open>INCR\<close> and \<open>EXPIRE\<close> in one pipeline.\<close>

definition incr_expire :: "time \<Rightarrow> time \<Rightarrow> string \<Rightarrow> counters \<Rightarrow> nat \<times> counters" where
  "incr_expire ttl now k r = (let n = Suc (counter now k r) in (n, r(k \<mapsto> (n, now + ttl))))"

abbreviation UnixS :: "time \<Rightarrow> int" where "UnixS t \<equiv> t div Second"

definition slot_of :: "time \<Rightarrow> time \<Rightarrow> int" where
  "slot_of window now = UnixS now div (window div Second)"

section \<open>A counter that never forgets within its time to live\<close>

locale window_counter =
  fixes ttl :: time
    and incr :: "time \<Rightarrow> string \<Rightarrow> 'r \<Rightarrow> nat \<times> 'r"
    and count :: "time \<Rightarrow> string \<Rightarrow> 'r \<Rightarrow> nat"
  assumes incr_count: "fst (incr now k r) = Suc (count now k r)"
    and count_kept: "now' < now + ttl \<Longrightarrow> count now' k (snd (incr now k r)) = Suc (count now k r)"
    and count_other: "k' \<noteq> k \<Longrightarrow> count now' k' (snd (incr now k r)) = count now' k' r"
begin

text \<open>The decisions of a limiter for one key, over the instants at which it is asked.\<close>

fun admitted :: "nat \<Rightarrow> string \<Rightarrow> time list \<Rightarrow> 'r \<Rightarrow> nat" where
  "admitted limit k [] r = 0"
| "admitted limit k (t # ts) r =
     (if fst (incr t k r) > limit then 0 else 1) + admitted limit k ts (snd (incr t k r))"

text \<open>
  Asked at instants less than the time to live apart, the limiter admits exactly the first ones,
  up to the limit.
\<close>

lemma admitted_exact:
  "\<forall>t \<in> set ts. \<forall>t' \<in> set ts. t' < t + ttl \<Longrightarrow> \<forall>t \<in> set ts. count t k r = n \<Longrightarrow>
   admitted limit k ts r = min (length ts) (limit - n)"
proof (induction ts arbitrary: n r)
  case (Cons t ts)
  have "\<forall>t' \<in> set ts. count t' k (snd (incr t k r)) = Suc n"
    using Cons.prems count_kept[of _ t k r] by simp
  moreover have "\<forall>t \<in> set ts. \<forall>t' \<in> set ts. t' < t + ttl" using Cons.prems(1) by simp
  ultimately have "admitted limit k ts (snd (incr t k r)) = min (length ts) (limit - Suc n)"
    by (intro Cons.IH)
  then show ?case using Cons.prems(2) incr_count[of t k r] by auto
qed simp

end

interpretation rc: window_counter ttl "incr_expire ttl" counter
  by unfold_locales (simp_all add: incr_expire_def counter_def Let_def)

section \<open>Velocity limits\<close>

definition velocity_key :: "string \<Rightarrow> uuid \<Rightarrow> int \<Rightarrow> string" where
  "velocity_key action user slot = ''risk:'' @ action @ '':'' @ user @ '':'' @ show_int slot"

definition VelocityAllow ::
  "bool \<Rightarrow> time \<Rightarrow> uuid \<Rightarrow> string \<Rightarrow> nat \<Rightarrow> time \<Rightarrow> counters \<Rightarrow> err option \<times> counters" where
  "VelocityAllow up gnow user action limit window r =
     (if \<not> up then (None, r)
      else let (n, r') = incr_expire (window + Minute) gnow (velocity_key action user (slot_of window gnow)) r
           in (if n > limit then Some ErrVelocity else None, r'))"

text \<open>The decisions on a sequence of requests of one user for one action.\<close>

fun velocity_run :: "uuid \<Rightarrow> string \<Rightarrow> nat \<Rightarrow> time \<Rightarrow> time list \<Rightarrow> counters \<Rightarrow> bool list" where
  "velocity_run user action limit window [] r = []"
| "velocity_run user action limit window (t # ts) r =
     (let (e, r') = VelocityAllow True t user action limit window r
      in (e = None) # velocity_run user action limit window ts r')"

lemma same_slot_close:
  assumes "slot_of window t = slot_of window t'" "Second \<le> window"
  shows "t' < t + (window + Minute)"
proof -
  have w: "0 < window div Second" using assms(2) by (simp add: pos_imp_zdiv_pos_iff)
  have s: "UnixS t div (window div Second) = UnixS t' div (window div Second)" using assms(1) by (simp add: slot_of_def)
  have "UnixS t' < (window div Second) * (UnixS t div (window div Second)) + window div Second"
    using div_bounds(2)[OF w, of "UnixS t'"] s by simp
  also have "\<dots> \<le> UnixS t + window div Second" using div_bounds(1)[OF w, of "UnixS t"] by simp
  finally have "UnixS t' < UnixS t + window div Second" .
  then show ?thesis
    using div_bounds[of Second t] div_bounds[of Second t'] div_bounds(1)[of Second window] by simp
qed

lemma velocity_run_admitted:
  "\<forall>t \<in> set ts. slot_of window t = s \<Longrightarrow>
   length (filter id (velocity_run user action limit window ts r)) =
     rc.admitted (window + Minute) limit (velocity_key action user s) ts r"
  by (induction ts arbitrary: r) (auto simp: VelocityAllow_def split: prod.splits)

text \<open>
  C8. The velocity limit holds and is not stricter than announced: of any number of requests of a
  user for an action inside one window, exactly the first \<open>limit\<close> are admitted, because a counter
  outlives its window.
\<close>
theorem velocity_exact:
  assumes "Second \<le> window" "\<forall>t \<in> set ts. slot_of window t = s"
    and "r (velocity_key action user s) = None"
  shows "length (filter id (velocity_run user action limit window ts r)) = min (length ts) limit"
proof -
  have "\<forall>t \<in> set ts. \<forall>t' \<in> set ts. t' < t + (window + Minute)"
    using assms(1,2) same_slot_close by metis
  moreover have "\<forall>t \<in> set ts. counter t (velocity_key action user s) r = 0"
    using assms(3) by (simp add: counter_def)
  ultimately show ?thesis
    using rc.admitted_exact[of ts "window + Minute" "velocity_key action user s" r 0 limit]
      velocity_run_admitted[OF assms(2)] by simp
qed

theorem velocity_exact_witness:
  "length (filter id (velocity_run ''u1'' ''ride_request'' 2 Hour [7200 * Second, 7300 * Second, 10799 * Second] Map.empty)) = 2"
  using velocity_exact[of Hour "[7200 * Second, 7300 * Second, 10799 * Second]" 2 Map.empty "''ride_request''" "''u1''" 2]
  by (simp add: slot_of_def)

section \<open>The HTTP rate limiter\<close>

definition rl_key :: "string \<Rightarrow> string \<Rightarrow> int \<Rightarrow> string" where
  "rl_key scope ident slot = ''rl:'' @ scope @ '':'' @ ident @ '':'' @ show_int slot"

text \<open>\<open>Allow\<close>: whether the request passes, the wait until it may, and whether Redis failed.\<close>

definition Allow :: "bool \<Rightarrow> time \<Rightarrow> string \<Rightarrow> string \<Rightarrow> nat \<Rightarrow> time \<Rightarrow> counters \<Rightarrow> (bool \<times> time \<times> bool) \<times> counters" where
  "Allow up now scope ident limit window r =
     (if ident = [] then ((True, 0, False), r)
      else if \<not> up then ((True, 0, True), r)
      else let slot = slot_of window now;
               (n, r') = incr_expire (window + Second) now (rl_key scope ident slot) r
           in if n > limit then ((False, (slot + 1) * (window div Second) * Second - now, False), r')
              else ((True, 0, False), r'))"

datatype outcome = Served | Limited (retry_after_s: int)

definition middleware :: "bool \<Rightarrow> time \<Rightarrow> string \<Rightarrow> string \<Rightarrow> string \<Rightarrow> nat \<Rightarrow> time \<Rightarrow> counters \<Rightarrow> outcome \<times> counters" where
  "middleware up now path scope ident limit window r =
     (if path = ''/healthz'' \<or> path = ''/readyz'' then (Served, r)
      else let ((allowed, retry, failed), r') = Allow up now scope ident limit window r
           in if failed then (Served, r')
              else if \<not> allowed then (Limited (retry div Second + 1), r') else (Served, r'))"

text \<open>
  A refused client is told a truthful delay: it is positive and at most the window (plus the
  second added by rounding), and a request after that delay falls into a later window.
\<close>
theorem middleware_retry_after:
  assumes "Second \<le> window" "0 \<le> now"
    and "fst (middleware up now path scope ident limit window r) = Limited d"
  shows "0 < d \<and> d \<le> window div Second + 1 \<and> slot_of window now < slot_of window (now + d * Second)"
proof -
  define w where "w = window div Second"
  define sl where "sl = slot_of window now"
  have w: "0 < w" using assms(1) by (simp add: w_def pos_imp_zdiv_pos_iff)
  from assms(3) have d: "d = ((sl + 1) * w * Second - now) div Second + 1"
    by (auto simp: middleware_def Allow_def Let_def sl_def w_def split: if_splits prod.splits)
  note u = div_bounds[of Second now, simplified]
  have sl: "w * sl \<le> UnixS now" "UnixS now < w * sl + w"
    using div_bounds[OF w, of "UnixS now"] by (simp_all add: sl_def slot_of_def w_def)
  have m: "(sl + 1) * w = w * sl + w" by (simp add: algebra_simps)
  define q where "q = ((sl + 1) * w * Second - now) div Second"
  have q: "Second * q \<le> (sl + 1) * w * Second - now" "(sl + 1) * w * Second - now < Second * q + Second"
    using div_bounds[of Second "(sl + 1) * w * Second - now"] by (simp_all add: q_def)
  have dq: "d = q + 1" by (simp add: d q_def)
  have "0 < Second * q + Second" using q(2) u sl(2) m by simp
  then have "0 < d" using dq by simp
  moreover have "Second * q \<le> w * Second" using q(1) u sl(1) m by (simp add: algebra_simps)
  then have "d \<le> w + 1" using dq by simp
  moreover have "sl < slot_of window (now + d * Second)"
  proof -
    have "(w * sl + w) * Second \<le> now + d * Second" using q(2) dq m by (simp add: algebra_simps)
    then have "w * sl + w \<le> UnixS (now + d * Second)" using div_bounds(2)[of Second "now + d * Second"] by simp
    then have "(w * (sl + 1)) div w \<le> UnixS (now + d * Second) div w"
      using w by (intro zdiv_mono1) (simp_all add: algebra_simps)
    then show ?thesis using w by (simp add: slot_of_def w_def)
  qed
  ultimately show ?thesis by (simp add: w_def sl_def)
qed

theorem middleware_retry_after_witness:
  "fst (middleware True (61 * Second + 1) ''/api/v1/rides'' ''ip'' ''10.0.0.1'' 0 Minute Map.empty) = Limited 59 \<and>
   slot_of Minute (61 * Second + 1) < slot_of Minute (61 * Second + 1 + 59 * Second)"
proof -
  have m: "fst (middleware True (61 * Second + 1) ''/api/v1/rides'' ''ip'' ''10.0.0.1'' 0 Minute Map.empty) = Limited 59"
    by (simp add: middleware_def Allow_def incr_expire_def counter_def slot_of_def Let_def)
  from middleware_retry_after[OF _ _ m] m show ?thesis by simp
qed

text \<open>When Redis is down nothing is refused.\<close>

lemma middleware_fail_open: "fst (middleware False now path scope ident limit window r) = Served"
  by (simp add: middleware_def Allow_def Let_def)

lemma VelocityAllow_error: "VelocityAllow up gnow u a l w r = (Some e, r') \<Longrightarrow> e = ErrVelocity"
  by (auto simp: VelocityAllow_def Let_def split: if_splits prod.splits)

end
