(* ===== verification/StateMachine.thy ===== *)
theory StateMachine
  imports Httpx
begin

text \<open>
  What the four state machines of the platform share (rides, orders, parcels, service requests): a
  table of allowed transitions consulted by \<open>CanTransition\<close>, states from which nothing follows, and
  the journal of transitions that every handler appends to. Also the offers that rides, orders and
  parcels make to drivers, which have the same columns in their three tables, and the enumerations of
  payment methods and statuses.
\<close>

section \<open>Shared enumerations\<close>

datatype pay_method = Cash | Wallet | Business_account | Card

datatype pay_status = PayPending | PayPaid | PayFailed | PayCash | PayNone

fun method_text :: "pay_method \<Rightarrow> string" where
  "method_text Cash = ''cash''"
| "method_text Wallet = ''wallet''"
| "method_text Business_account = ''business''"
| "method_text Card = ''card''"

fun status_text :: "pay_status \<Rightarrow> string" where
  "status_text PayPending = ''pending''"
| "status_text PayPaid = ''paid''"
| "status_text PayFailed = ''failed''"
| "status_text PayCash = ''cash''"
| "status_text PayNone = ''none''"

section \<open>Transition tables\<close>

text \<open>The loop of \<open>CanTransition\<close> over the targets of a state.\<close>

definition can_transition :: "('st \<Rightarrow> 'st list) \<Rightarrow> 'st \<Rightarrow> 'st \<Rightarrow> bool" where
  "can_transition table from to \<longleftrightarrow> to \<in> set (table from)"

text \<open>A row of \<open>ride_events\<close>, \<open>order_events\<close>, ... in the order of insertion.\<close>

record 'st journal_row =
  jn_subject :: uuid
  jn_from :: "'st option"
  jn_to :: 'st
  jn_actor_type :: string
  jn_actor :: "uuid option"
  jn_meta :: payload
  jn_created :: time

definition history :: "uuid \<Rightarrow> 'st journal_row list \<Rightarrow> ('st option \<times> 'st) list" where
  "history i j = map (\<lambda>r. (jn_from r, jn_to r)) (filter (\<lambda>r. jn_subject r = i) j)"

text \<open>A history that starts with the initial state, follows the table and ends in \<open>s\<close>.\<close>

inductive lawful :: "('st \<Rightarrow> 'st list) \<Rightarrow> 'st \<Rightarrow> ('st option \<times> 'st) list \<Rightarrow> 'st \<Rightarrow> bool" for table init where
  start: "lawful table init [(None, init)] init"
| step: "lawful table init h s \<Longrightarrow> can_transition table s t \<Longrightarrow> lawful table init (h @ [(Some s, t)]) t"

inductive_cases lawfulE: "lawful table init h s"

lemma history_append [simp]:
  "history i (j @ [r]) = history i j @ (if jn_subject r = i then [(jn_from r, jn_to r)] else [])"
  by (simp add: history_def)

lemma history_append_list:
  "history i (j @ j') = history i j @ history i j'"
  by (simp add: history_def)

lemma history_empty_iff: "history i j = [] \<longleftrightarrow> (\<forall>r \<in> set j. jn_subject r \<noteq> i)"
  by (auto simp: history_def filter_empty_conv)

locale state_machine =
  fixes table :: "'st \<Rightarrow> 'st list"
    and init :: 'st
    and terminal :: "'st \<Rightarrow> bool"
  assumes terminal_stuck: "terminal s \<Longrightarrow> table s = []"
    and only_terminal: "table s = [] \<Longrightarrow> terminal s"
    and init_open: "\<not> terminal init"
begin

lemma lawful_reaches: "lawful table init h s \<Longrightarrow> (\<lambda>s t. can_transition table s t)\<^sup>*\<^sup>* init s"
  by (induction rule: lawful.induct) (auto intro: rtranclp.rtrancl_into_rtrancl)

lemma no_step_from_terminal: "terminal s \<Longrightarrow> \<not> can_transition table s t"
  using terminal_stuck by (simp add: can_transition_def)

text \<open>Once a terminal state is entered it is the last entry of the history.\<close>

lemma terminal_is_last:
  assumes "lawful table init (h @ (f, s) # rest) t" "terminal s"
  shows "rest = []"
  using assms
proof (induction rest arbitrary: t rule: rev_induct)
  case (snoc r rest)
  obtain f' t' where r: "r = (f', t')" by (cases r)
  from snoc.prems(1) have "lawful table init ((h @ (f, s) # rest) @ [(f', t')]) t" by (simp add: r)
  then obtain s0 where s0: "lawful table init (h @ (f, s) # rest) s0" "can_transition table s0 t'"
    by (rule lawfulE) auto
  with snoc.IH snoc.prems(2) have "rest = []" by blast
  with s0(1) have "lawful table init (h @ [(f, s)]) s0" by simp
  then have "s0 = s" by (rule lawfulE) (auto simp: Cons_eq_append_conv)
  with s0(2) snoc.prems(2) no_step_from_terminal show ?case by blast
qed simp

text \<open>The history determines where the subject is.\<close>

lemma lawful_last: "lawful table init h s \<Longrightarrow> h \<noteq> [] \<and> snd (last h) = s"
  by (induction rule: lawful.induct) auto

lemma lawful_functional: "lawful table init h s \<Longrightarrow> lawful table init h t \<Longrightarrow> s = t"
  using lawful_last by metis

end

section \<open>Offers to drivers\<close>

datatype offer_state = Offered | Accepted | Declined | Expired | Withdrawn

record offer =
  of_id :: uuid
  of_subject :: uuid
  of_driver :: uuid
  of_round :: int
  of_state :: offer_state
  of_distance :: int
  of_eta :: int
  of_expires :: time
  of_responded :: "time option"
  of_created :: time

text \<open>\<open>UPDATE ... SET state = st, responded_at = now() WHERE P\<close>.\<close>

definition respond :: "time \<Rightarrow> offer_state \<Rightarrow> (offer \<Rightarrow> bool) \<Rightarrow> offer list \<Rightarrow> offer list" where
  "respond dnow st P t = upd_where P (\<lambda>o'. o'\<lparr>of_state := st, of_responded := Some dnow\<rparr>) t"

lemma respond_ids [simp]:
  "map of_id (respond dnow st P t) = map of_id t"
  "map (\<lambda>x. (of_subject x, of_driver x)) (respond dnow st P t) = map (\<lambda>x. (of_subject x, of_driver x)) t"
  by (simp_all add: respond_def)

lemma in_respond:
  "x \<in> set (respond dnow st P t) \<longleftrightarrow>
     (\<exists>y \<in> set t. P y \<and> x = y\<lparr>of_state := st, of_responded := Some dnow\<rparr>) \<or> (x \<in> set t \<and> \<not> P x)"
  by (auto simp: respond_def set_upd_where)

lemma accepted_respond:
  assumes "x \<in> set (respond dnow st P t)" "of_state x = Accepted" "st \<noteq> Accepted"
  shows "x \<in> set t" "\<not> P x"
proof -
  have "x \<in> set t \<and> \<not> P x"
    using assms(1) unfolding in_respond
  proof (elim disjE bexE conjE)
    fix y assume "x = y\<lparr>of_state := st, of_responded := Some dnow\<rparr>"
    then have "of_state x = st" by simp
    with assms(2,3) show ?thesis by simp
  qed blast
  then show "x \<in> set t" "\<not> P x" by blast+
qed

end
