(* ===== verification/Rides.thy ===== *)
theory Rides
  imports StateMachine Pricing Drivers Business RateLimits
begin

text \<open>
  \<open>modules/rides\<close> (\<open>state.go\<close>, \<open>service.go\<close>, \<open>driver.go\<close>): the life of a ride from the request to its
  settlement in the ledger. A handler takes the clock of the server (\<open>gnow\<close>), the clock of the database
  (\<open>dnow\<close>), the identifiers the database generates, the actor's user id and its input, and returns the
  result with the state it leaves. The view of a ride is its row: the driver card that \<open>decorate\<close>
  adds to a response is not modelled.
\<close>

definition ErrActiveRide [err_defs]: "ErrActiveRide = API ''RIDE_ALREADY_ACTIVE'' 409 False []"
definition ErrPaymentMethodUnavailable [err_defs]: "ErrPaymentMethodUnavailable = API ''PAYMENT_METHOD_UNAVAILABLE'' 422 False []"
definition ErrInsufficientFunds [err_defs]: "ErrInsufficientFunds = API ''INSUFFICIENT_FUNDS'' 402 False []"
definition ErrInvalidState [err_defs]: "ErrInvalidState = API ''RIDE_INVALID_STATE'' 409 False []"
definition ErrOfferGone [err_defs]: "ErrOfferGone = API ''OFFER_GONE'' 409 False []"
definition ErrServiceDisabled [err_defs]: "ErrServiceDisabled = API ''SERVICE_DISABLED'' 503 True []"
definition ErrPickupCode [err_defs]: "ErrPickupCode = API ''PICKUP_CODE_INVALID'' 422 False []"
definition ErrSettleState [err_defs]: "ErrSettleState = Plain ''rides: settle: unexpected state''"

section \<open>States\<close>

datatype ride_state = Matching | Assigned | Arrived_state | InProgress | Completed | Cancelled | NoDriver

fun transitions :: "ride_state \<Rightarrow> ride_state list" where
  "transitions Matching = [Assigned, Cancelled, NoDriver]"
| "transitions Assigned = [Arrived_state, Cancelled, Matching]"
| "transitions Arrived_state = [InProgress, Cancelled, Matching]"
| "transitions InProgress = [Completed]"
| "transitions _ = []"

definition CanTransition :: "ride_state \<Rightarrow> ride_state \<Rightarrow> bool" where
  "CanTransition from to = can_transition transitions from to"

definition IsActive :: "ride_state \<Rightarrow> bool" where
  "IsActive s \<longleftrightarrow> s \<in> {Matching, Assigned, Arrived_state, InProgress}"

definition IsTerminal :: "ride_state \<Rightarrow> bool" where
  "IsTerminal s \<longleftrightarrow> s = Completed \<or> s = Cancelled \<or> s = NoDriver"

interpretation ride_sm: state_machine transitions Matching IsTerminal
proof
  fix s show "IsTerminal s \<Longrightarrow> transitions s = []" by (auto simp: IsTerminal_def)
  show "transitions s = [] \<Longrightarrow> IsTerminal s" by (cases s) (auto simp: IsTerminal_def)
qed (simp add: IsTerminal_def)

text \<open>The states in which a driver is busy with the ride (the condition of a unique index).\<close>

definition DriverBusy :: "ride_state \<Rightarrow> bool" where
  "DriverBusy s \<longleftrightarrow> s \<in> {Assigned, Arrived_state, InProgress}"

section \<open>Tables\<close>

record ride =
  rd_id :: uuid
  rd_customer :: uuid
  rd_driver :: "uuid option"
  rd_category :: string
  rd_state :: ride_state
  rd_method :: pay_method
  rd_pay :: pay_status
  rd_pickup :: point
  rd_pickup_address :: "string option"
  rd_dropoff :: point
  rd_dropoff_address :: "string option"
  rd_distance :: int
  rd_duration :: int
  rd_quoted :: int
  rd_final :: "int option"
  rd_commission :: "int option"
  rd_fee :: int
  rd_currency :: string
  rd_note :: "string option"
  rd_attempts :: int
  rd_cancelled_by :: "string option"
  rd_reason :: "string option"
  rd_requested_at :: time
  rd_assigned_at :: "time option"
  rd_arrived_at :: "time option"
  rd_started_at :: "time option"
  rd_completed_at :: "time option"
  rd_cancelled_at :: "time option"
  rd_updated_at :: time
  rd_quote :: uuid
  rd_code :: "string option"
  rd_business :: "uuid option"
  rd_idem :: string

record rides_db =
  r_core :: core
  r_loc :: loc_db
  r_pricing :: pricing_db
  r_business :: business_db
  r_drivers :: drivers_db
  r_counters :: counters
  rides :: "ride list"
  offers :: "offer list"
  journal :: "ride_state journal_row list"

text \<open>What is configured: feature flags (nil allows everything), velocity limits, business accounts.\<close>

record rides_cfg =
  cfg_enabled :: "uuid \<Rightarrow> bool"
  cfg_velocity :: bool
  cfg_redis_up :: bool
  cfg_business :: bool

definition upd_ride :: "uuid \<Rightarrow> (ride \<Rightarrow> ride) \<Rightarrow> rides_db \<Rightarrow> rides_db" where
  "upd_ride i f s = s\<lparr>rides := upd_where (\<lambda>r. rd_id r = i) f (rides s)\<rparr>"

definition rideEvent ::
  "time \<Rightarrow> uuid \<Rightarrow> ride_state option \<Rightarrow> ride_state \<Rightarrow> string \<Rightarrow> uuid option \<Rightarrow> payload \<Rightarrow> rides_db \<Rightarrow> rides_db" where
  "rideEvent dnow i from to actor_type actor meta s =
     s\<lparr>journal := journal s @ [\<lparr>jn_subject = i, jn_from = from, jn_to = to, jn_actor_type = actor_type,
        jn_actor = actor, jn_meta = meta, jn_created = dnow\<rparr>]\<rparr>"

definition r_emit :: "time \<Rightarrow> uuid \<Rightarrow> string \<Rightarrow> payload \<Rightarrow> rides_db \<Rightarrow> rides_db" where
  "r_emit dnow i ev body s = s\<lparr>r_core := (r_core s)\<lparr>outbox := Emit dnow ''ride'' i ev body (outbox (r_core s))\<rparr>\<rparr>"

definition r_on_core :: "(core \<Rightarrow> (err + 'a) \<times> core) \<Rightarrow> (rides_db, err, 'a) op" where
  "r_on_core f s = (case f (r_core s) of (r, c) \<Rightarrow> (r, s\<lparr>r_core := c\<rparr>))"

section \<open>The customer's side (\<open>service.go\<close>)\<close>

record request_input =
  inQuoteID :: uuid
  inPaymentMethod :: string
  inNote :: string
  inBusinessID :: "uuid option"

text \<open>\<open>%04d\<close> of the two random bytes modulo 10,000.\<close>

definition newPickupCode :: "int \<Rightarrow> string" where
  "newPickupCode u16 = (let n = u16 mod 10000
     in map (\<lambda>k. char_of (48 + n div k mod 10)) [1000, 100, 10, 1])"

fun parse_method :: "string \<Rightarrow> pay_method option" where
  "parse_method m = (if m = ''cash'' then Some Cash else if m = ''wallet'' then Some Wallet
     else if m = ''business'' then Some Business_account else if m = ''card'' then Some Card else None)"

text \<open>
  The checks of \<open>Request\<close> before anything is read: \<open>Inl\<close> is an immediate answer, \<open>Inr\<close> the trimmed key,
  the payment method and the note.
\<close>

definition validate_request :: "rides_cfg \<Rightarrow> string \<Rightarrow> request_input \<Rightarrow> err + (string \<times> pay_method \<times> string)" where
  "validate_request cfg idemKey inp =
     (let idemKey = TrimSpace idemKey;
          fields = add_field_if (idemKey = [] \<or> length idemKey > 100) ''idempotency_key'' ''required'' [];
          m = parse_method (inPaymentMethod inp)
      in if m = Some Card then Inl ErrPaymentMethodUnavailable
         else if m = Some Business_account \<and> inBusinessID inp \<noteq> None \<and> \<not> cfg_business cfg
         then Inl ErrPaymentMethodUnavailable
         else
           let fields = add_field_if (m = Some Business_account \<and> inBusinessID inp = None) ''business_id'' ''required'' fields;
               fields = add_field_if (m = None) ''payment_method'' ''invalid'' fields;
               fields = add_field_if (inQuoteID inp = uuid_Nil) ''quote_id'' ''required'' fields;
               note = squash (inNote inp);
               fields = add_field_if (RuneCount note > 200) ''note'' ''too_long'' fields
           in if fields \<noteq> [] then Inl (ErrValidation fields)
              else case m of None \<Rightarrow> Inl (ErrValidation fields) | Some pm \<Rightarrow> Inr (idemKey, pm, note))"

definition new_ride :: "time \<Rightarrow> uuid \<Rightarrow> int \<Rightarrow> uuid \<Rightarrow> string \<Rightarrow> pay_method \<Rightarrow> string \<Rightarrow> uuid option \<Rightarrow> quote_row \<Rightarrow> ride" where
  "new_ride dnow i u16 user key pm note business q =
     \<lparr>rd_id = i, rd_customer = user, rd_driver = None, rd_category = qt_category q, rd_state = Matching,
      rd_method = pm, rd_pay = PayPending, rd_pickup = qt_pickup q, rd_pickup_address = qt_pickup_address q,
      rd_dropoff = qt_dropoff q, rd_dropoff_address = qt_dropoff_address q, rd_distance = qt_distance q,
      rd_duration = qt_duration q, rd_quoted = qt_price q, rd_final = None, rd_commission = None, rd_fee = 0,
      rd_currency = TrimSpace (qt_currency q), rd_note = nullable note, rd_attempts = 0, rd_cancelled_by = None,
      rd_reason = None, rd_requested_at = dnow, rd_assigned_at = None, rd_arrived_at = None, rd_started_at = None,
      rd_completed_at = None, rd_cancelled_at = None, rd_updated_at = dnow, rd_quote = qt_id q,
      rd_code = Some (newPickupCode u16), rd_business = business, rd_idem = key\<rparr>"

text \<open>
  The insert: the primary key and the two unique indexes (one idempotency key per customer, one active
  ride per customer) answer 23505, which the code reports as an active ride; the check of the table
  wants a business exactly with the business method.
\<close>

definition insert_ride :: "ride \<Rightarrow> (rides_db, err, ride) op" where
  "insert_ride r s =
     (if (rd_method r = Business_account) \<noteq> (rd_business r \<noteq> None) then (Inl PgCheck, s)
      else if exists_where (\<lambda>x. rd_id x = rd_id r \<or>
          rd_customer x = rd_customer r \<and> (rd_idem x = rd_idem r \<or> IsActive (rd_state x))) (rides s)
      then (Inl ErrActiveRide, s)
      else (Inr r, s\<lparr>rides := rides s @ [r]\<rparr>))"

definition request_tx ::
  "time \<Rightarrow> time \<Rightarrow> uuid \<Rightarrow> int \<Rightarrow> uuid \<Rightarrow> string \<Rightarrow> pay_method \<Rightarrow> string \<Rightarrow> request_input \<Rightarrow> (rides_db, err, ride) op" where
  "request_tx gnow dnow i u16 user key pm note inp s =
     (case LoadQuote gnow (inQuoteID inp) user (r_pricing s) of
        Inl e \<Rightarrow> (Inl e, s)
      | Inr sq \<Rightarrow>
          let q = sq_row sq in
          if pm = Wallet \<and> bal_or_zero (UserWalletCode user) (r_core s) < qt_price q then (Inl ErrInsufficientFunds, s)
          else (case (case (pm, inBusinessID inp) of
                        (Business_account, Some b) \<Rightarrow> Authorize gnow b user (qt_price q) (r_business s) (r_core s)
                      | _ \<Rightarrow> Inr []) of
                  Inl e \<Rightarrow> (Inl e, s)
                | Inr _ \<Rightarrow>
                    (case insert_ride (new_ride dnow i u16 user key pm note (inBusinessID inp) q) s of
                       (Inl e, s1) \<Rightarrow> (Inl e, s1)
                     | (Inr r, s1) \<Rightarrow>
                         (Inr r, r_emit dnow i ''RideRequested''
                            [(''ride_id'', JStr i), (''customer_id'', JStr user), (''category'', JStr (rd_category r)),
                             (''area'', JStr (qt_area q)), (''attempt'', JInt 1)]
                            (rideEvent dnow i None Matching ''customer'' (Some user)
                               [(''payment_method'', JStr (method_text pm))] s1)))))"

definition Request ::
  "rides_cfg \<Rightarrow> time \<Rightarrow> time \<Rightarrow> uuid \<Rightarrow> int \<Rightarrow> uuid \<Rightarrow> string \<Rightarrow> request_input \<Rightarrow> (rides_db, err, ride) op" where
  "Request cfg gnow dnow i u16 user idemKey inp s =
     (case validate_request cfg idemKey inp of
        Inl e \<Rightarrow> (Inl e, s)
      | Inr (key, pm, note) \<Rightarrow>
          if \<not> cfg_enabled cfg user then (Inl ErrServiceDisabled, s)
          else
            let (verr, cs) = (if cfg_velocity cfg
                              then VelocityAllow (cfg_redis_up cfg) gnow user ''ride_request'' 10 Hour (r_counters s)
                              else (None, r_counters s));
                s = s\<lparr>r_counters := cs\<rparr>
            in (case verr of
                  Some e \<Rightarrow> (Inl e, s)
                | None \<Rightarrow>
                    (case find (\<lambda>r. rd_customer r = user \<and> rd_idem r = key) (rides s) of
                       Some r \<Rightarrow> if rd_quote r \<noteq> inQuoteID inp then (Inl ErrIdempotency, s) else (Inr r, s)
                     | None \<Rightarrow> begin_func (request_tx gnow dnow i u16 user key pm note inp) s)))"

text \<open>The pickup code is shown to the customer only.\<close>

definition forActor :: "uuid \<Rightarrow> ride \<Rightarrow> ride" where
  "forActor user r = (if rd_customer r \<noteq> user then r\<lparr>rd_code := None\<rparr> else r)"

definition GetRide :: "uuid \<Rightarrow> uuid \<Rightarrow> rides_db \<Rightarrow> err + ride" where
  "GetRide user i s =
     (case find (\<lambda>r. rd_id r = i \<and> (rd_customer r = user \<or> rd_driver r = Some user)) (rides s) of
        None \<Rightarrow> Inl ErrNotFound | Some r \<Rightarrow> Inr (forActor user r))"

definition History :: "time \<Rightarrow> uuid \<Rightarrow> time option \<Rightarrow> int \<Rightarrow> rides_db \<Rightarrow> ride list" where
  "History gnow user before limit s =
     (let limit = (if limit \<le> 0 \<or> limit > 50 then 20 else limit);
          b = (case before of None \<Rightarrow> gnow + Hour | Some t \<Rightarrow> t)
      in take (nat limit) (sort_key (\<lambda>r. - rd_requested_at r)
           (filter (\<lambda>r. rd_customer r = user \<and> rd_requested_at r < b) (rides s))))"

text \<open>
  Settlement of a finished ride (\<open>driver.go\<close>). \<open>txi\<close> is the identifier of the ledger transaction.
\<close>

definition setPaymentStatus ::
  "rides_cfg \<Rightarrow> time \<Rightarrow> ride \<Rightarrow> pay_status \<Rightarrow> uuid \<Rightarrow> (rides_db, err, unit) op" where
  "setPaymentStatus cfg dnow r st ledgerTx = begin_func (\<lambda>s.
     let s1 = s\<lparr>rides := upd_where (\<lambda>x. rd_id x = rd_id r \<and> rd_pay x = PayPending)
                  (\<lambda>x. x\<lparr>rd_pay := st, rd_updated_at := dnow\<rparr>) (rides s)\<rparr>;
         ev = (if st = PayFailed then ''RidePaymentFailed'' else ''RidePaymentSettled'');
         finish = r_emit dnow (rd_id r) ev [(''ride_id'', JStr (rd_id r)), (''customer_id'', JStr (rd_customer r)),
                    (''status'', JStr (status_text st)), (''method'', JStr (method_text (rd_method r)))]
     in case rd_business r of
          Some b \<Rightarrow>
            if st = PayPaid \<and> rd_method r = Business_account \<and> cfg_business cfg then
              let amount = (case rd_final r of None \<Rightarrow> rd_quoted r | Some p \<Rightarrow> p)
              in (case RecordCharge dnow b (rd_customer r) ''ride'' (rd_id r) ledgerTx amount (r_business s1, r_core s1) of
                    (Inl e, bdb, c) \<Rightarrow> (Inl e, s1\<lparr>r_business := bdb, r_core := c\<rparr>)
                  | (Inr _, bdb, c) \<Rightarrow> (Inr (), finish (s1\<lparr>r_business := bdb, r_core := c\<rparr>)))
            else (Inr (), finish s1)
        | None \<Rightarrow> (Inr (), finish s1))"

definition ride_tx :: "string \<Rightarrow> string \<Rightarrow> ride \<Rightarrow> posting list \<Rightarrow> transaction" where
  "ride_tx kind suffix r ps =
     \<lparr>Kind = kind, Reference = ''ride:'' @ rd_id r, IdempotencyKey = ''ride:'' @ rd_id r @ suffix,
      TxCurrency = rd_currency r, Postings = ps\<rparr>"

definition DriverWalletCode :: "uuid \<Rightarrow> string" where
  "DriverWalletCode d = ''driver:'' @ d @ '':wallet''"

definition payer_of :: "ride \<Rightarrow> string" where
  "payer_of r = (case (rd_method r, rd_business r) of
      (Business_account, Some b) \<Rightarrow> BusinessWalletCode b | _ \<Rightarrow> UserWalletCode (rd_customer r))"

text \<open>
  The decision of \<open>settle\<close>: the status to set and the transaction to post, if any. \<open>Inl\<close> with no
  status stands for the branch that records a failed payment.
\<close>

datatype plan = Reject err | Fail_payment | Pay pay_status "transaction option"

definition settle_plan :: "ride \<Rightarrow> core \<Rightarrow> plan" where
  "settle_plan r c =
     (if rd_state r = Cancelled \<and> rd_fee r > 0 \<and> rd_method r = Wallet then
        Pay PayPaid (Some (ride_tx ''ride_cancellation_fee'' '':cancel_fee'' r
          [debit (UserWalletCode (rd_customer r)) (rd_fee r), credit ''krejt:commission'' (rd_fee r)]))
      else case (rd_state r, rd_driver r, rd_final r) of
        (Completed, Some d, Some price) \<Rightarrow>
          let commission = (case rd_commission r of None \<Rightarrow> 0 | Some x \<Rightarrow> x) in
          if rd_method r = Cash then
            Pay PayCash (if commission > 0
              then Some (ride_tx ''ride_cash_commission'' '':fare'' r
                     [debit (DriverWalletCode d) commission, credit ''krejt:commission'' commission])
              else None)
          else (case Balance (payer_of r) c of
                  Inl e \<Rightarrow> Reject e
                | Inr b \<Rightarrow>
                    if Minor b < price then Fail_payment
                    else Pay PayPaid (Some (ride_tx ''ride_fare'' '':fare'' r
                      ([debit (payer_of r) price, credit (DriverWalletCode d) (sub64 price commission)] @
                       (if commission = 0 then [] else [credit ''krejt:commission'' commission])))))
      | _ \<Rightarrow> Reject ErrSettleState)"

definition settle_account :: "ride \<Rightarrow> core \<Rightarrow> core" where
  "settle_account r c =
     (case (rd_state r, rd_driver r, rd_final r) of
        (Completed, Some d, Some _) \<Rightarrow> EnsureAccount (DriverWalletCode d) ''driver'' (Some d) ''liability'' (rd_currency r) c
      | _ \<Rightarrow> c)"

definition settle :: "rides_cfg \<Rightarrow> time \<Rightarrow> uuid \<Rightarrow> ride \<Rightarrow> (rides_db, err, unit) op" where
  "settle cfg dnow txi r s =
     (let s = s\<lparr>r_core := settle_account r (r_core s)\<rparr>
      in case settle_plan r (r_core s) of
           Reject e \<Rightarrow> (Inl e, s)
         | Fail_payment \<Rightarrow> setPaymentStatus cfg dnow r PayFailed uuid_Nil s
         | Pay st None \<Rightarrow> setPaymentStatus cfg dnow r st uuid_Nil s
         | Pay st (Some tx) \<Rightarrow>
             (case r_on_core (Post dnow txi tx) s of
                (Inl e, s1) \<Rightarrow> (Inl e, s1)
              | (Inr i, s1) \<Rightarrow> setPaymentStatus cfg dnow r st i s1))"

text \<open>\<open>CancelByCustomer\<close>.\<close>

definition cancellation_fee :: "time \<Rightarrow> ride \<Rightarrow> pricing_db \<Rightarrow> err + int" where
  "cancellation_fee gnow r db =
     (case (rd_state r = Assigned \<or> rd_state r = Arrived_state, rd_assigned_at r) of
        (True, Some t) \<Rightarrow>
          (case quote_rule (rd_quote r) db of
             None \<Rightarrow> Inl NoRows
           | Some rule \<Rightarrow> Inr (if gnow - t > CancellationGraceSeconds rule * Second then CancellationFee rule else 0))
      | _ \<Rightarrow> Inr 0)"

definition cancel_customer_tx :: "time \<Rightarrow> time \<Rightarrow> uuid \<Rightarrow> uuid \<Rightarrow> string \<Rightarrow> (rides_db, err, ride) op" where
  "cancel_customer_tx gnow dnow user i reason s =
     (case find (\<lambda>r. rd_id r = i \<and> rd_customer r = user) (rides s) of
        None \<Rightarrow> (Inl ErrNotFound, s)
      | Some r \<Rightarrow>
          if \<not> CanTransition (rd_state r) Cancelled then (Inl ErrInvalidState, s)
          else (case cancellation_fee gnow r (r_pricing s) of
                  Inl e \<Rightarrow> (Inl e, s)
                | Inr fee \<Rightarrow>
                    let payStatus = (if fee > 0 \<and> rd_method r = Wallet then PayPending else PayNone);
                        r' = r\<lparr>rd_state := Cancelled, rd_cancelled_by := Some ''customer'', rd_reason := nullable reason,
                               rd_fee := fee, rd_pay := payStatus, rd_cancelled_at := Some dnow, rd_updated_at := dnow\<rparr>;
                        s1 = upd_ride i (\<lambda>_. r') s;
                        s2 = s1\<lparr>offers := respond dnow Withdrawn (\<lambda>x. of_subject x = i \<and> of_state x = Offered) (offers s1)\<rparr>
                    in (Inr r', r_emit dnow i ''RideCancelled''
                          [(''ride_id'', JStr i), (''by'', JStr ''customer''), (''driver_id'', jopt (rd_driver r')), (''fee_minor'', JInt fee)]
                          (rideEvent dnow i (Some (rd_state r)) Cancelled ''customer'' (Some user)
                             [(''fee_minor'', JInt fee), (''reason'', JStr reason)] s2))))"

definition CancelByCustomer ::
  "rides_cfg \<Rightarrow> time \<Rightarrow> time \<Rightarrow> uuid \<Rightarrow> uuid \<Rightarrow> uuid \<Rightarrow> string \<Rightarrow> (rides_db, err, ride) op" where
  "CancelByCustomer cfg gnow dnow txi user i reason s =
     (case begin_func (cancel_customer_tx gnow dnow user i (clip reason 200)) s of
        (Inl e, s1) \<Rightarrow> (Inl e, s1)
      | (Inr r, s1) \<Rightarrow>
          let s2 = (case rd_driver r of None \<Rightarrow> s1 | Some d \<Rightarrow> s1\<lparr>r_loc := SetAvailable gnow d (r_loc s1)\<rparr>)
          in if rd_pay r = PayPending
             then let s3 = snd (settle cfg dnow txi r s2)
                  in (case find (\<lambda>x. rd_id x = i) (rides s3) of None \<Rightarrow> (Inr r, s3) | Some r' \<Rightarrow> (Inr r', s3))
             else (Inr r, s2))"

text \<open>\<open>QRToken\<close>: the claims that are signed; the signing is not part of the module.\<close>

definition QRToken :: "uuid \<Rightarrow> uuid \<Rightarrow> rides_db \<Rightarrow> err + (string \<times> string)" where
  "QRToken user i s =
     (case find (\<lambda>r. rd_id r = i \<and> rd_customer r = user) (rides s) of
        None \<Rightarrow> Inl ErrNotFound
      | Some r \<Rightarrow> (case rd_code r of
                    None \<Rightarrow> Inl ErrInvalidState
                  | Some code \<Rightarrow> if IsActive (rd_state r) then Inr (i, code) else Inl ErrInvalidState))"

section \<open>The driver's side (\<open>driver.go\<close>)\<close>

definition Offers :: "time \<Rightarrow> uuid \<Rightarrow> rides_db \<Rightarrow> (offer \<times> ride \<times> int) list" where
  "Offers dnow user s =
     sort_key (\<lambda>(x, _, _). of_created x) (List.map_filter
       (\<lambda>x. if of_driver x = user \<and> of_state x = Offered \<and> of_expires x > dnow then
              (case find (\<lambda>r. rd_id r = of_subject x \<and> rd_state r = Matching) (rides s) of
                 None \<Rightarrow> None
               | Some r \<Rightarrow> map_option (\<lambda>rule. (x, r, sub64 (rd_quoted r) (Commission (rd_quoted r) (CommissionBP rule))))
                            (quote_rule (rd_quote r) (r_pricing s)))
            else None) (offers s))"

definition accept_tx :: "time \<Rightarrow> time \<Rightarrow> uuid \<Rightarrow> uuid \<Rightarrow> (rides_db, err, ride) op" where
  "accept_tx gnow dnow user offerID s =
     (case find (\<lambda>x. of_id x = offerID \<and> of_driver x = user) (offers s) of
        None \<Rightarrow> (Inl ErrNotFound, s)
      | Some x \<Rightarrow>
          if of_state x \<noteq> Offered \<or> gnow > of_expires x then (Inl ErrOfferGone, s)
          else (case find (\<lambda>r. rd_id r = of_subject x) (rides s) of
                  None \<Rightarrow> (Inl NoRows, s)
                | Some r \<Rightarrow>
                    if rd_state r \<noteq> Matching
                    then (Inl ErrOfferGone, s\<lparr>offers := respond dnow Withdrawn (\<lambda>y. of_id y = offerID) (offers s)\<rparr>)
                    else if exists_where (\<lambda>y. rd_driver y = Some user \<and> DriverBusy (rd_state y) \<and> rd_id y \<noteq> rd_id r) (rides s)
                    then (Inl ErrActiveRide, s)
                    else
                      let i = rd_id r;
                          r' = r\<lparr>rd_state := Assigned, rd_driver := Some user, rd_assigned_at := Some dnow, rd_updated_at := dnow\<rparr>;
                          s1 = upd_ride i (\<lambda>_. r') s;
                          s2 = s1\<lparr>offers := respond dnow Withdrawn (\<lambda>y. of_subject y = i \<and> of_state y = Offered)
                                  (respond dnow Accepted (\<lambda>y. of_id y = offerID) (offers s1))\<rparr>
                      in (Inr r', r_emit dnow i ''RideAssigned''
                            [(''ride_id'', JStr i), (''driver_id'', JStr user), (''customer_id'', JStr (rd_customer r'))]
                            (rideEvent dnow i (Some Matching) Assigned ''driver'' (Some user) [(''offer_id'', JStr offerID)] s2))))"

definition AcceptOffer :: "time \<Rightarrow> time \<Rightarrow> uuid \<Rightarrow> uuid \<Rightarrow> (rides_db, err, ride) op" where
  "AcceptOffer gnow dnow user offerID s =
     (case Approved user (r_drivers s) of
        Inl e \<Rightarrow> (Inl e, s)
      | Inr _ \<Rightarrow>
          (case begin_func (accept_tx gnow dnow user offerID) s of
             (Inl e, s1) \<Rightarrow> (Inl e, s1)
           | (Inr r, s1) \<Rightarrow> (Inr (forActor user r), s1\<lparr>r_loc := SetBusy gnow user (rd_id r) (r_loc s1)\<rparr>)))"

definition DeclineOffer :: "time \<Rightarrow> uuid \<Rightarrow> uuid \<Rightarrow> (rides_db, err, unit) op" where
  "DeclineOffer dnow user offerID = begin_func (\<lambda>s.
     case find (\<lambda>x. of_id x = offerID \<and> of_driver x = user \<and> of_state x = Offered) (offers s) of
       None \<Rightarrow> (Inl ErrOfferGone, s)
     | Some x \<Rightarrow>
         (Inr (), r_emit dnow (of_subject x) ''RideOfferDeclined''
            [(''ride_id'', JStr (of_subject x)), (''driver_id'', JStr user), (''offer_id'', JStr offerID)]
            (s\<lparr>offers := respond dnow Declined (\<lambda>y. of_id y = offerID \<and> of_driver y = user \<and> of_state y = Offered) (offers s)\<rparr>)))"

definition ActiveForDriver :: "uuid \<Rightarrow> rides_db \<Rightarrow> ride option" where
  "ActiveForDriver user s =
     map_option (forActor user) (find (\<lambda>r. rd_driver r = Some user \<and> DriverBusy (rd_state r)) (rides s))"

text \<open>The column updates of \<open>driverTransition\<close>, by the state to enter.\<close>

definition driver_update :: "time \<Rightarrow> ride_state \<Rightarrow> ride \<Rightarrow> pricing_db \<Rightarrow> err + ride" where
  "driver_update dnow to r db =
     (case to of
        Arrived_state \<Rightarrow> Inr (r\<lparr>rd_state := Arrived_state, rd_arrived_at := Some dnow\<rparr>)
      | InProgress \<Rightarrow> Inr (r\<lparr>rd_state := InProgress, rd_started_at := Some dnow\<rparr>)
      | Completed \<Rightarrow>
          (case quote_rule (rd_quote r) db of
             None \<Rightarrow> Inl NoRows
           | Some rule \<Rightarrow>
               Inr (r\<lparr>rd_state := Completed, rd_completed_at := Some dnow, rd_final := Some (rd_quoted r),
                      rd_commission := Some (Commission (rd_quoted r) (CommissionBP rule)), rd_pay := PayPending\<rparr>))
      | _ \<Rightarrow> Inl ErrInvalidState)"

definition driver_event :: "ride_state \<Rightarrow> string" where
  "driver_event to = (case to of Arrived_state \<Rightarrow> ''RideDriverArrived'' | InProgress \<Rightarrow> ''RideStarted''
     | Completed \<Rightarrow> ''RideCompleted'' | _ \<Rightarrow> [])"

definition driverTransition :: "time \<Rightarrow> uuid \<Rightarrow> uuid \<Rightarrow> ride_state \<Rightarrow> (rides_db, err, ride) op" where
  "driverTransition dnow user i to = begin_func (\<lambda>s.
     case find (\<lambda>r. rd_id r = i \<and> rd_driver r = Some user) (rides s) of
       None \<Rightarrow> (Inl ErrNotFound, s)
     | Some r \<Rightarrow>
         if \<not> CanTransition (rd_state r) to then (Inl ErrInvalidState, s)
         else (case driver_update dnow to r (r_pricing s) of
                 Inl e \<Rightarrow> (Inl e, s)
               | Inr r1 \<Rightarrow>
                   let r' = r1\<lparr>rd_updated_at := dnow\<rparr>
                   in (Inr r', r_emit dnow i (driver_event to)
                         [(''ride_id'', JStr i), (''driver_id'', JStr user), (''customer_id'', JStr (rd_customer r')),
                          (''price_final_minor'', jint_opt (rd_final r'))]
                         (rideEvent dnow i (Some (rd_state r)) to ''driver'' (Some user) [] (upd_ride i (\<lambda>_. r') s)))))"

definition Arrived :: "time \<Rightarrow> uuid \<Rightarrow> uuid \<Rightarrow> (rides_db, err, ride) op" where
  "Arrived dnow user i = driverTransition dnow user i Arrived_state"

text \<open>
  \<open>parse\<close> is the verifier of signed tokens, nil when not configured: the purpose, the ride and the
  code of a valid token.
\<close>

definition Start ::
  "(string \<Rightarrow> (string \<times> string \<times> string) option) option \<Rightarrow> time \<Rightarrow> uuid \<Rightarrow> uuid \<Rightarrow> string \<Rightarrow> string \<Rightarrow> (rides_db, err, ride) op" where
  "Start qr dnow user i code qrToken s =
     (let given = (case (qrToken \<noteq> [], qr) of
                     (True, Some parse) \<Rightarrow>
                       (case parse qrToken of
                          None \<Rightarrow> None
                        | Some (purpose, ride, c) \<Rightarrow> if purpose \<noteq> ''ride_pickup'' \<or> ride \<noteq> i then None else Some c)
                   | _ \<Rightarrow> Some code)
      in case given of
           None \<Rightarrow> (Inl ErrPickupCode, s)
         | Some c \<Rightarrow>
             (case find (\<lambda>r. rd_id r = i \<and> rd_driver r = Some user) (rides s) of
                None \<Rightarrow> (Inl ErrNotFound, s)
              | Some r \<Rightarrow>
                  if (case rd_code r of None \<Rightarrow> False | Some e \<Rightarrow> TrimSpace c \<noteq> e) then (Inl ErrPickupCode, s)
                  else driverTransition dnow user i InProgress s))"

definition Complete :: "rides_cfg \<Rightarrow> time \<Rightarrow> time \<Rightarrow> uuid \<Rightarrow> uuid \<Rightarrow> uuid \<Rightarrow> (rides_db, err, ride) op" where
  "Complete cfg gnow dnow txi user i s =
     (case driverTransition dnow user i Completed s of
        (Inl e, s1) \<Rightarrow> (Inl e, s1)
      | (Inr r, s1) \<Rightarrow>
          let s2 = s1\<lparr>r_loc := SetAvailable gnow user (r_loc s1)\<rparr>;
              s3 = snd (settle cfg dnow txi r s2)
          in (case find (\<lambda>x. rd_id x = i) (rides s3) of
                None \<Rightarrow> (Inl NoRows, s3) | Some r' \<Rightarrow> (Inr (forActor user r'), s3)))"

definition cancel_driver_tx :: "time \<Rightarrow> uuid \<Rightarrow> uuid \<Rightarrow> string \<Rightarrow> (rides_db, err, ride) op" where
  "cancel_driver_tx dnow user i reason s =
     (case find (\<lambda>r. rd_id r = i \<and> rd_driver r = Some user) (rides s) of
        None \<Rightarrow> (Inl ErrNotFound, s)
      | Some r \<Rightarrow>
          if \<not> CanTransition (rd_state r) Matching then (Inl ErrInvalidState, s)
          else
            let r' = r\<lparr>rd_state := Matching, rd_driver := None, rd_assigned_at := None, rd_arrived_at := None,
                       rd_attempts := rd_attempts r + 1, rd_requested_at := dnow, rd_updated_at := dnow\<rparr>;
                s1 = upd_ride i (\<lambda>_. r') s;
                s2 = s1\<lparr>offers := respond dnow Declined (\<lambda>y. of_subject y = i \<and> of_driver y = user) (offers s1)\<rparr>;
                s3 = rideEvent dnow i (Some (rd_state r)) Matching ''driver'' (Some user)
                       [(''reason'', JStr reason), (''reassign'', JBool True)] s2;
                s4 = s3\<lparr>r_core := (r_core s3)\<lparr>audit := audit (r_core s3) @
                       [\<lparr>au_actor = Some user, au_action = ''driver.cancelled_ride'', au_target_type = ''ride'',
                         au_target_id = i, au_meta = [(''reason'', JStr reason)]\<rparr>]\<rparr>\<rparr>
            in (Inr r', r_emit dnow i ''RideRequested''
                  [(''ride_id'', JStr i), (''customer_id'', JStr (rd_customer r')), (''category'', JStr (rd_category r')),
                   (''attempt'', JInt (rd_attempts r' + 1)), (''reassign'', JBool True), (''previous_driver_id'', JStr user)] s4))"

definition CancelByDriver :: "time \<Rightarrow> time \<Rightarrow> uuid \<Rightarrow> uuid \<Rightarrow> string \<Rightarrow> (rides_db, err, ride) op" where
  "CancelByDriver gnow dnow user i reason s =
     (case begin_func (cancel_driver_tx dnow user i (clip reason 200)) s of
        (Inl e, s1) \<Rightarrow> (Inl e, s1)
      | (Inr r, s1) \<Rightarrow> (Inr (forActor user r), s1\<lparr>r_loc := SetAvailable gnow user (r_loc s1)\<rparr>))"

text \<open>\<open>SettlePending\<close>: the loop stops at the first error; \<open>txis\<close> supplies the identifiers.\<close>

fun settle_all :: "rides_cfg \<Rightarrow> time \<Rightarrow> (nat \<Rightarrow> uuid) \<Rightarrow> nat \<Rightarrow> ride list \<Rightarrow> (rides_db, err \<times> nat, nat) op" where
  "settle_all cfg dnow txis n [] s = (Inr n, s)"
| "settle_all cfg dnow txis n (r # rs) s =
     (case settle cfg dnow (txis n) r s of
        (Inl e, s1) \<Rightarrow> (Inl (e, n), s1)
      | (Inr _, s1) \<Rightarrow> settle_all cfg dnow txis (Suc n) rs s1)"

definition pending_rides :: "time \<Rightarrow> rides_db \<Rightarrow> ride list" where
  "pending_rides dnow s = take 50 (sort_key rd_updated_at
     (filter (\<lambda>r. rd_pay r = PayPending \<and> rd_state r \<in> {Completed, Cancelled} \<and>
                 rd_updated_at r < dnow - 10 * Second) (rides s)))"

definition SettlePending :: "rides_cfg \<Rightarrow> time \<Rightarrow> (nat \<Rightarrow> uuid) \<Rightarrow> (rides_db, err \<times> nat, nat) op" where
  "SettlePending cfg dnow txis s = settle_all cfg dnow txis 0 (pending_rides dnow s) s"

end
