(* ===== verification/Dispatch.thy ===== *)
theory Dispatch
  imports Rides
begin

text \<open>
  \<open>modules/dispatch/dispatch.go\<close>: offering a ride to drivers one at a time. \<open>gs\<close> is the geographic
  search of Redis. The search also cleans the index of stale drivers; Redis does not take part in
  the transaction, so that survives a rollback.
\<close>

definition OfferTTL :: time where "OfferTTL = 20 * Second"
definition SearchRadiusKm :: real where "SearchRadiusKm = 6"
definition MatchingTimeout :: time where "MatchingTimeout = 3 * Minute"

type_synonym geo_search = "point \<Rightarrow> real \<Rightarrow> nat \<Rightarrow> (uuid \<times> point) list \<Rightarrow> (uuid \<times> point \<times> real) list"

text \<open>The query of eligibility: approved for the category, not on a ride, no open offer.\<close>

definition dispatchable :: "time \<Rightarrow> string \<Rightarrow> rides_db \<Rightarrow> uuid \<Rightarrow> bool" where
  "dispatchable dnow category s d \<longleftrightarrow>
     exists_where (\<lambda>p. UserID p = d \<and> DStatus p = Approved_status \<and> category \<in> set (Categories p)) (profiles (r_drivers s)) \<and>
     \<not> exists_where (\<lambda>r. rd_driver r = Some d \<and> DriverBusy (rd_state r)) (rides s) \<and>
     \<not> exists_where (\<lambda>x. of_driver x = d \<and> of_state x = Offered \<and> of_expires x > dnow) (offers s)"

definition open_offers :: "time \<Rightarrow> uuid \<Rightarrow> offer list \<Rightarrow> nat" where
  "open_offers dnow i t = count_where (\<lambda>x. of_subject x = i \<and> of_state x = Offered \<and> of_expires x > dnow) t"

definition make_offer :: "time \<Rightarrow> time \<Rightarrow> uuid \<Rightarrow> uuid \<Rightarrow> nat \<Rightarrow> candidate \<Rightarrow> (rides_db, err, bool) op" where
  "make_offer gnow dnow offerID i rnd c s =
     (if exists_where (\<lambda>x. of_id x = offerID \<or> of_subject x = i \<and> of_driver x = DriverID c) (offers s) then (Inl PgUnique, s)
      else (Inr True, r_emit dnow i ''RideOffered''
             [(''ride_id'', JStr i), (''driver_id'', JStr (DriverID c)), (''offer_id'', JStr offerID),
              (''expires_at'', JInt (gnow + OfferTTL)), (''round'', JInt (int rnd + 1))]
             (s\<lparr>offers := offers s @ [\<lparr>of_id = offerID, of_subject = i, of_driver = DriverID c, of_round = int rnd + 1,
                 of_state = Offered, of_distance = \<lfloor>DistanceM c\<rfloor>, of_eta = eta_of_distance (DistanceM c),
                 of_expires = gnow + OfferTTL, of_responded = None, of_created = dnow\<rparr>]\<rparr>)))"

text \<open>The loop over the candidates: the first one not excluded and dispatchable gets the offer.\<close>

definition pick :: "time \<Rightarrow> string \<Rightarrow> uuid list \<Rightarrow> rides_db \<Rightarrow> candidate list \<Rightarrow> candidate option" where
  "pick dnow category excluded s cands =
     find (\<lambda>c. DriverID c \<notin> set excluded \<and> dispatchable dnow category s (DriverID c)) cands"

definition round_tx :: "geo_search \<Rightarrow> time \<Rightarrow> time \<Rightarrow> uuid \<Rightarrow> uuid \<Rightarrow> (rides_db, err, bool) op" where
  "round_tx gs gnow dnow offerID i s =
     (case find (\<lambda>r. rd_id r = i) (rides s) of
        None \<Rightarrow> (Inl NoRows, s)
      | Some r \<Rightarrow>
          if rd_state r \<noteq> Matching then (Inr False, s)
          else if open_offers dnow i (offers s) > 0 then (Inr False, s)
          else if gnow - rd_requested_at r > MatchingTimeout then
            (Inr False, r_emit dnow i ''RideNoDriver'' [(''ride_id'', JStr i)]
               (rideEvent dnow i (Some Matching) NoDriver ''system'' None [(''attempts'', JInt (rd_attempts r))]
                  (upd_ride i (\<lambda>x. x\<lparr>rd_state := NoDriver, rd_updated_at := dnow\<rparr>) s)))
          else
            let excluded = map of_driver (filter (\<lambda>x. of_subject x = i) (offers s));
                rnd = count_where (\<lambda>x. of_subject x = i) (offers s);
                (cands, l) = Nearest gs gnow (rd_category r) (rd_pickup r) SearchRadiusKm 10 (r_loc s);
                s1 = s\<lparr>r_loc := l\<rparr>
            in (case pick dnow (rd_category r) excluded s1 cands of
                  None \<Rightarrow> (Inr False, s1)
                | Some c \<Rightarrow> make_offer gnow dnow offerID i rnd c s1))"

definition Round :: "geo_search \<Rightarrow> time \<Rightarrow> time \<Rightarrow> uuid \<Rightarrow> uuid \<Rightarrow> (rides_db, err, bool) op" where
  "Round gs gnow dnow offerID i s =
     (case begin_func (round_tx gs gnow dnow offerID i) s of
        (Inl e, s1) \<Rightarrow> (Inl e, s1\<lparr>r_loc := r_loc (snd (round_tx gs gnow dnow offerID i s))\<rparr>)
      | (Inr b, s1) \<Rightarrow> (Inr b, s1))"

record sweep_stats =
  swExpired :: nat
  swRounds :: nat
  swOffered :: nat

fun emit_expired :: "time \<Rightarrow> offer list \<Rightarrow> rides_db \<Rightarrow> rides_db" where
  "emit_expired dnow [] s = s"
| "emit_expired dnow (x # xs) s = emit_expired dnow xs (r_emit dnow (of_subject x) ''RideOfferExpired''
     [(''ride_id'', JStr (of_subject x)), (''driver_id'', JStr (of_driver x)), (''offer_id'', JStr (of_id x))] s)"

fun sweep_rounds :: "geo_search \<Rightarrow> time \<Rightarrow> time \<Rightarrow> (nat \<Rightarrow> uuid) \<Rightarrow> uuid list \<Rightarrow> sweep_stats \<Rightarrow>
    (rides_db, err \<times> sweep_stats, sweep_stats) op" where
  "sweep_rounds gs gnow dnow ids [] st s = (Inr st, s)"
| "sweep_rounds gs gnow dnow ids (i # is) st s =
     (let st1 = st\<lparr>swRounds := swRounds st + 1\<rparr>
      in case Round gs gnow dnow (ids (swRounds st)) i s of
           (Inl e, s1) \<Rightarrow> (Inl (e, st1), s1)
         | (Inr b, s1) \<Rightarrow> sweep_rounds gs gnow dnow ids is (if b then st1\<lparr>swOffered := swOffered st1 + 1\<rparr> else st1) s1)"

definition overdue :: "time \<Rightarrow> offer \<Rightarrow> bool" where
  "overdue dnow x \<longleftrightarrow> of_state x = Offered \<and> of_expires x \<le> dnow"

definition Sweep :: "geo_search \<Rightarrow> time \<Rightarrow> time \<Rightarrow> (nat \<Rightarrow> uuid) \<Rightarrow> (rides_db, err \<times> sweep_stats, sweep_stats) op" where
  "Sweep gs gnow dnow ids s =
     (let expired = filter (overdue dnow) (offers s);
          s1 = emit_expired dnow expired (s\<lparr>offers := respond dnow Expired (overdue dnow) (offers s)\<rparr>);
          is = map rd_id (take 200 (sort_key rd_requested_at
                 (filter (\<lambda>r. rd_state r = Matching \<and> open_offers dnow (rd_id r) (offers s1) = 0) (rides s1))))
      in sweep_rounds gs gnow dnow ids is \<lparr>swExpired = length expired, swRounds = 0, swOffered = 0\<rparr> s1)"

end
