(* ===== verification/RideSafety.thy ===== *)
theory RideSafety
  imports Dispatch
begin

text \<open>
  The safety of rides: an abstract protocol over the three tables of the module (rides, offers,
  journal) whose moves are the only things that can happen to a ride, the invariant of that protocol,
  and the proof that every handler of \<open>Rides\<close> and \<open>Dispatch\<close> is a sequence of moves.
\<close>

section \<open>The protocol\<close>

type_synonym tables = "ride list \<times> offer list \<times> ride_state journal_row list"

abbreviation tabs :: "rides_db \<Rightarrow> tables" where "tabs s \<equiv> (rides s, offers s, journal s)"

definition same_ride :: "ride \<Rightarrow> ride \<Rightarrow> bool" where
  "same_ride r r' \<longleftrightarrow> rd_id r' = rd_id r \<and> rd_customer r' = rd_customer r \<and> rd_quoted r' = rd_quoted r \<and>
     rd_idem r' = rd_idem r \<and> rd_method r' = rd_method r \<and> rd_code r' = rd_code r"

text \<open>Which states have a driver and a final price, and when a payment may have been decided.\<close>

definition ride_ok :: "ride \<Rightarrow> bool" where
  "ride_ok r \<longleftrightarrow> (rd_state r \<in> {Matching, NoDriver} \<longrightarrow> rd_driver r = None) \<and>
     (DriverBusy (rd_state r) \<or> rd_state r = Completed \<longrightarrow> rd_driver r \<noteq> None) \<and>
     rd_final r = (if rd_state r = Completed then Some (rd_quoted r) else None) \<and>
     (rd_pay r \<noteq> PayPending \<longrightarrow> rd_state r = Completed \<or> rd_state r = Cancelled)"

inductive ride_move :: "tables \<Rightarrow> tables \<Rightarrow> bool" where
  request: "rd_state r = Matching \<Longrightarrow> ride_ok r \<Longrightarrow>
    \<forall>x \<in> set R. rd_id x \<noteq> rd_id r \<and> \<not> (rd_customer x = rd_customer r \<and> IsActive (rd_state x)) \<Longrightarrow>
    jn_subject e = rd_id r \<Longrightarrow> jn_from e = None \<Longrightarrow> jn_to e = Matching \<Longrightarrow>
    ride_move (R, O', J) (R @ [r], O', J @ [e])"
| transition: "r \<in> set R \<Longrightarrow> CanTransition (rd_state r) (rd_state r') \<Longrightarrow> same_ride r r' \<Longrightarrow> ride_ok r' \<Longrightarrow>
    DriverBusy (rd_state r') \<longrightarrow> (\<forall>x \<in> set R. rd_id x \<noteq> rd_id r \<longrightarrow> DriverBusy (rd_state x) \<longrightarrow> rd_driver x \<noteq> rd_driver r') \<Longrightarrow>
    \<forall>x \<in> set O2. of_state x = Accepted \<longrightarrow>
      (x \<in> set O1 \<and> of_subject x \<noteq> rd_id r) \<or> (of_subject x = rd_id r \<and> rd_driver r' = Some (of_driver x)) \<Longrightarrow>
    map of_id O2 = map of_id O1 \<Longrightarrow>
    jn_subject e = rd_id r \<Longrightarrow> jn_from e = Some (rd_state r) \<Longrightarrow> jn_to e = rd_state r' \<Longrightarrow>
    ride_move (R, O1, J) (upd_where (\<lambda>x. rd_id x = rd_id r) (\<lambda>_. r') R, O2, J @ [e])"
| payment: "\<forall>x \<in> set R. rd_id x = i \<longrightarrow> rd_state x = Completed \<or> rd_state x = Cancelled \<Longrightarrow>
    ride_move (R, O', J)
      (upd_where (\<lambda>x. rd_id x = i \<and> rd_pay x = PayPending) (\<lambda>x. x\<lparr>rd_pay := st, rd_updated_at := t\<rparr>) R, O', J)"
| offering: "\<forall>x \<in> set O2. of_state x = Accepted \<longrightarrow> x \<in> set O1 \<Longrightarrow>
    distinct (map of_id O1) \<longrightarrow> distinct (map of_id O2) \<Longrightarrow> ride_move (R, O1, J) (R, O2, J)"

inductive_cases ride_moveE: "ride_move t t'"

text \<open>The two partial unique indexes of \<open>rides\<close>: one active ride per customer, one per driver.\<close>

definition customer_key :: "ride \<Rightarrow> uuid option" where
  "customer_key r = (if IsActive (rd_state r) then Some (rd_customer r) else None)"

definition driver_key :: "ride \<Rightarrow> uuid option" where
  "driver_key r = (if DriverBusy (rd_state r) then rd_driver r else None)"

abbreviation one_active :: "ride list \<Rightarrow> bool" where "one_active \<equiv> unique_index rd_id customer_key"
abbreviation one_driver :: "ride list \<Rightarrow> bool" where "one_driver \<equiv> unique_index rd_id driver_key"

definition accepted_ok :: "ride list \<Rightarrow> offer list \<Rightarrow> bool" where
  "accepted_ok R Os \<longleftrightarrow> (\<forall>x \<in> set Os. of_state x = Accepted \<longrightarrow>
     (\<exists>r \<in> set R. rd_id r = of_subject x \<and> rd_driver r = Some (of_driver x)))"

definition journal_ok :: "ride list \<Rightarrow> ride_state journal_row list \<Rightarrow> bool" where
  "journal_ok R J \<longleftrightarrow> (\<forall>r \<in> set R. lawful transitions Matching (history (rd_id r) J) (rd_state r)) \<and>
     (\<forall>e \<in> set J. jn_subject e \<in> rd_id ` set R)"

definition protocol_inv :: "tables \<Rightarrow> bool" where
  "protocol_inv = (\<lambda>(R, Os, J). distinct (map rd_id R) \<and> distinct (map of_id Os) \<and> (\<forall>r \<in> set R. ride_ok r) \<and>
     one_active R \<and> one_driver R \<and> accepted_ok R Os \<and> journal_ok R J)"

lemma upd_ride_set:
  assumes "distinct (map rd_id R)" "r \<in> set R"
  shows "set (upd_where (\<lambda>x. rd_id x = rd_id r) (\<lambda>_. r') R) = insert r' {x \<in> set R. rd_id x \<noteq> rd_id r}"
  using assms(2) by (auto simp: set_upd_where)

lemma ids_upd: "rd_id r' = i \<Longrightarrow> map rd_id (upd_where (\<lambda>x. rd_id x = i) (\<lambda>_. r') R) = map rd_id R"
  by (auto simp: upd_where_def)

lemma transition_active:
  "CanTransition a b \<Longrightarrow> IsActive b \<Longrightarrow> IsActive a"
  by (cases a) (auto simp: CanTransition_def can_transition_def IsActive_def)

lemma history_skip: "jn_subject e \<noteq> i \<Longrightarrow> history i (J @ [e]) = history i J"
  by simp

lemma inv_request:
  assumes inv: "protocol_inv (R, Os, J)" and r: "rd_state r = Matching" "ride_ok r"
    and new: "\<forall>x \<in> set R. rd_id x \<noteq> rd_id r \<and> \<not> (rd_customer x = rd_customer r \<and> IsActive (rd_state x))"
    and e: "jn_subject e = rd_id r" "jn_from e = None" "jn_to e = Matching"
  shows "protocol_inv (R @ [r], Os, J @ [e])"
proof -
  have J: "journal_ok R J" using inv by (simp add: protocol_inv_def)
  then have none: "history (rd_id r) J = []" using new by (fastforce simp: journal_ok_def history_empty_iff)
  have "journal_ok (R @ [r]) (J @ [e])"
    using J new e none r(1) unfolding journal_ok_def by (auto intro: lawful.start)
  moreover have "one_active (R @ [r])" 
    using inv new by (intro unique_index_append) (auto simp: protocol_inv_def customer_key_def split: if_splits)
  moreover have "one_driver (R @ [r])" 
    using inv r(1) by (intro unique_index_append) (auto simp: protocol_inv_def driver_key_def DriverBusy_def)
  moreover have "accepted_ok (R @ [r]) Os" using inv by (auto simp: protocol_inv_def accepted_ok_def)
  moreover have "distinct (map rd_id (R @ [r]))" using inv new by (auto simp: protocol_inv_def)
  ultimately show ?thesis using inv r(2) by (auto simp: protocol_inv_def)
qed

lemma ride_inv_transition:
  assumes inv: "protocol_inv (R, O1, J)" and r: "r \<in> set R" "CanTransition (rd_state r) (rd_state r')" "same_ride r r'" "ride_ok r'"
    and busy: "DriverBusy (rd_state r') \<longrightarrow> (\<forall>x \<in> set R. rd_id x \<noteq> rd_id r \<longrightarrow> DriverBusy (rd_state x) \<longrightarrow> rd_driver x \<noteq> rd_driver r')"
    and acc: "\<forall>x \<in> set O2. of_state x = Accepted \<longrightarrow>
      (x \<in> set O1 \<and> of_subject x \<noteq> rd_id r) \<or> (of_subject x = rd_id r \<and> rd_driver r' = Some (of_driver x))"
    and oid: "map of_id O2 = map of_id O1"
    and e: "jn_subject e = rd_id r" "jn_from e = Some (rd_state r)" "jn_to e = rd_state r'"
  shows "protocol_inv (upd_where (\<lambda>x. rd_id x = rd_id r) (\<lambda>_. r') R, O2, J @ [e])"
proof -
  let ?R = "upd_where (\<lambda>x. rd_id x = rd_id r) (\<lambda>_. r') R"
  have d: "distinct (map rd_id R)" using inv by (simp add: protocol_inv_def)
  have id: "rd_id r' = rd_id r" and cust: "rd_customer r' = rd_customer r" using r(3) by (simp_all add: same_ride_def)
  note S = upd_ride_set[OF d r(1), of r']
  have act: "IsActive (rd_state r') \<Longrightarrow> IsActive (rd_state r)" using r(2) transition_active by blast
  have "one_active ?R"
  proof (intro unique_index_replace[where i = rd_id, OF _ id])
    show U: "one_active R" using inv by (simp add: protocol_inv_def)
    assume "customer_key r' \<noteq> None"
    then have "customer_key r' = customer_key r" "customer_key r \<noteq> None"
      using act cust by (auto simp: customer_key_def split: if_splits)
    then show "\<forall>x \<in> set R. rd_id x \<noteq> rd_id r \<longrightarrow> customer_key x \<noteq> customer_key r'"
      using U r(1) unfolding unique_index_def by metis
  qed
  moreover have "one_driver ?R"
    using inv busy by (intro unique_index_replace[where i = rd_id, OF _ id]) (auto simp: protocol_inv_def driver_key_def split: if_splits)
  moreover have "accepted_ok ?R O2"
  proof -
    have "\<exists>q \<in> set ?R. rd_id q = of_subject x \<and> rd_driver q = Some (of_driver x)"
      if x: "x \<in> set O2" "of_state x = Accepted" for x
    proof (cases "of_subject x = rd_id r")
      case True
      with acc x have "rd_driver r' = Some (of_driver x)" by blast
      then show ?thesis using True id unfolding S by auto
    next
      case False
      with acc x have "x \<in> set O1" by blast
      with inv x obtain q where "q \<in> set R" "rd_id q = of_subject x" "rd_driver q = Some (of_driver x)"
        by (auto simp: protocol_inv_def accepted_ok_def)
      then show ?thesis using False unfolding S by auto
    qed
    then show ?thesis by (auto simp: accepted_ok_def)
  qed
  moreover have "journal_ok ?R (J @ [e])"
  proof -
    have J: "\<forall>r \<in> set R. lawful transitions Matching (history (rd_id r) J) (rd_state r)"
      "\<forall>e \<in> set J. jn_subject e \<in> rd_id ` set R" using inv by (simp_all add: protocol_inv_def journal_ok_def)
    have "lawful transitions Matching (history (rd_id r) (J @ [e])) (rd_state r')"
      using J(1) r(1,2) e by (simp add: CanTransition_def lawful.step)
    moreover have "lawful transitions Matching (history (rd_id x) (J @ [e])) (rd_state x)"
      if "x \<in> set R" "rd_id x \<noteq> rd_id r" for x
      using J(1) that e(1) by simp
    moreover have "rd_id ` set ?R = rd_id ` set R" by (metis id ids_upd set_map)
    ultimately show ?thesis using J(2) e(1) r(1) id unfolding journal_ok_def S by auto
  qed
  moreover have "distinct (map rd_id ?R)" using d ids_upd[OF id] by simp
  moreover have "\<forall>x \<in> set ?R. ride_ok x" using inv r(4) unfolding S by (auto simp: protocol_inv_def)
  moreover have "distinct (map of_id O2)" using inv by (simp add: protocol_inv_def oid)
  ultimately show ?thesis by (simp add: protocol_inv_def)
qed

lemma inv_payment:
  assumes inv: "protocol_inv (R, Os, J)" and t: "\<forall>x \<in> set R. rd_id x = i \<longrightarrow> rd_state x = Completed \<or> rd_state x = Cancelled"
  shows "protocol_inv (upd_where (\<lambda>x. rd_id x = i \<and> rd_pay x = PayPending) (\<lambda>x. x\<lparr>rd_pay := st, rd_updated_at := tm\<rparr>) R, Os, J)"
proof -
  let ?f = "\<lambda>x. if rd_id x = i \<and> rd_pay x = PayPending then x\<lparr>rd_pay := st, rd_updated_at := tm\<rparr> else x"
  let ?R = "upd_where (\<lambda>x. rd_id x = i \<and> rd_pay x = PayPending) (\<lambda>x. x\<lparr>rd_pay := st, rd_updated_at := tm\<rparr>) R"
  have R: "?R = map ?f R" by (simp add: upd_where_def)
  have f: "rd_id (?f x) = rd_id x" "rd_customer (?f x) = rd_customer x" "rd_driver (?f x) = rd_driver x"
    "rd_state (?f x) = rd_state x" for x by simp_all
  have ok: "ride_ok (?f x)" if "x \<in> set R" for x
  proof -
    have "ride_ok x" using inv that by (auto simp: protocol_inv_def)
    then show ?thesis using t that by (auto simp: ride_ok_def)
  qed
  have P: "one_active R" "one_driver R" "accepted_ok R Os" "journal_ok R J" "distinct (map rd_id R)"
    using inv by (simp_all add: protocol_inv_def)
  have ids: "map rd_id ?R = map rd_id R" by simp
  then have idset: "rd_id ` set ?R = rd_id ` set R" by (metis set_map)
  have "\<forall>x \<in> set ?R. ride_ok x" using ok unfolding R set_map by blast
  moreover have "one_active ?R" using P(1) by (rule unique_index_update) (simp_all add: customer_key_def)
  moreover have "one_driver ?R" using P(2) by (rule unique_index_update) (simp_all add: driver_key_def)
  moreover have "accepted_ok ?R Os"
    unfolding accepted_ok_def
  proof (intro ballI impI)
    fix x assume "x \<in> set Os" "of_state x = Accepted"
    with P(3) obtain r where "r \<in> set R" "rd_id r = of_subject x" "rd_driver r = Some (of_driver x)"
      by (auto simp: accepted_ok_def)
    note r = this
    have 1: "?f r \<in> set ?R" unfolding R set_map using r(1) by (rule imageI)
    show "\<exists>r \<in> set ?R. rd_id r = of_subject x \<and> rd_driver r = Some (of_driver x)"
      by (rule bexI[OF _ 1]) (use r in auto)
  qed
  moreover have "journal_ok ?R J"
    unfolding journal_ok_def idset
  proof
    show "\<forall>r \<in> set ?R. lawful transitions Matching (history (rd_id r) J) (rd_state r)"
      unfolding R set_map ball_simps f using P(4) by (simp add: journal_ok_def)
    show "\<forall>e \<in> set J. jn_subject e \<in> rd_id ` set R" using P(4) by (simp add: journal_ok_def)
  qed
  moreover have "distinct (map of_id Os)" using inv by (simp add: protocol_inv_def)
  ultimately show ?thesis using P(5) ids by (simp add: protocol_inv_def)
qed

lemma ride_move_inv: "ride_move t t' \<Longrightarrow> protocol_inv t \<Longrightarrow> protocol_inv t'"
proof (induction rule: ride_move.induct)
  case (request r R e O' J) then show ?case by (blast intro: inv_request)
next
  case (transition r R r' O2 O1 e J) then show ?case by (intro ride_inv_transition)
next
  case (payment R i Os J t st) then show ?case by (intro inv_payment)
next
  case (offering O2 O1 R J) then show ?case by (auto simp: protocol_inv_def accepted_ok_def)
qed

lemma ride_moves_inv: "ride_move\<^sup>*\<^sup>* t t' \<Longrightarrow> protocol_inv t \<Longrightarrow> protocol_inv t'"
  by (induction rule: rtranclp_induct) (auto intro: ride_move_inv)

text \<open>What a move leaves of a ride: a finished ride keeps everything but its payment status.\<close>

definition closed_in :: "ride \<Rightarrow> tables \<Rightarrow> bool" where
  "closed_in r = (\<lambda>(R, _, _). \<exists>x \<in> set R. same_ride r x \<and> rd_state x = rd_state r \<and> rd_driver x = rd_driver r \<and>
     rd_final x = rd_final r \<and> rd_fee x = rd_fee r \<and> rd_commission x = rd_commission r)"

lemma ride_closed_move:
  assumes "ride_move t t'" "closed_in r t" "IsTerminal (rd_state r)" "protocol_inv t"
  shows "closed_in r t'"
  using assms
proof (induction rule: ride_move.induct)
  case (transition q R r' O2 O1 e J)
  then obtain x where x: "x \<in> set R" "same_ride r x" "rd_state x = rd_state r" "rd_driver x = rd_driver r"
     "rd_final x = rd_final r" "rd_fee x = rd_fee r" "rd_commission x = rd_commission r"
    by (auto simp: closed_in_def)
  have "rd_id x \<noteq> rd_id q"
  proof
    assume "rd_id x = rd_id q"
    then have "x = q" using x(1) transition.hyps(1) transition.prems(3) by (auto simp: protocol_inv_def intro: distinct_keyD)
    then show False using transition.hyps(2) transition.prems(2) x(3) ride_sm.no_step_from_terminal by (auto simp: CanTransition_def)
  qed
  then have "x \<in> set (upd_where (\<lambda>x. rd_id x = rd_id q) (\<lambda>_. r') R)" using x(1) by (auto simp: set_upd_where)
  then show ?case using x by (auto simp: closed_in_def)
next
  case (payment R i Os J t st)
  then obtain x where x: "x \<in> set R" "same_ride r x" "rd_state x = rd_state r" "rd_driver x = rd_driver r"
     "rd_final x = rd_final r" "rd_fee x = rd_fee r" "rd_commission x = rd_commission r"
    by (auto simp: closed_in_def)
  let ?f = "\<lambda>x. if rd_id x = i \<and> rd_pay x = PayPending then x\<lparr>rd_pay := st, rd_updated_at := t\<rparr> else x"
  have "?f x \<in> set (upd_where (\<lambda>x. rd_id x = i \<and> rd_pay x = PayPending) (\<lambda>x. x\<lparr>rd_pay := st, rd_updated_at := t\<rparr>) R)"
    using x(1) by (auto simp: set_upd_where)
  moreover have "same_ride r (?f x)" using x(2) by (simp add: same_ride_def)
  ultimately show ?case using x unfolding closed_in_def by fastforce
qed (auto simp: closed_in_def)

lemma ride_closed_moves:
  assumes "ride_move\<^sup>*\<^sup>* t t'" "closed_in r t" "IsTerminal (rd_state r)" "protocol_inv t"
  shows "closed_in r t'"
  using assms
  by (induction rule: rtranclp_induct) (auto intro: ride_closed_move ride_moves_inv)

section \<open>Every handler is a sequence of moves\<close>

lemma tabs_frame [simp]:
  "tabs (s\<lparr>r_core := c\<rparr>) = tabs s" "tabs (s\<lparr>r_loc := l\<rparr>) = tabs s"
  "tabs (s\<lparr>r_counters := k\<rparr>) = tabs s" "tabs (s\<lparr>r_business := b\<rparr>) = tabs s"
  "tabs (r_emit dnow i ev body s) = tabs s"
  "tabs (rideEvent dnow i from to aty ac meta s) =
     (rides s, offers s, journal s @ [\<lparr>jn_subject = i, jn_from = from, jn_to = to, jn_actor_type = aty,
        jn_actor = ac, jn_meta = meta, jn_created = dnow\<rparr>])"
  "tabs (upd_ride i f s) = (upd_where (\<lambda>r. rd_id r = i) f (rides s), offers s, journal s)"
  "tabs (s\<lparr>offers := x\<rparr>) = (rides s, x, journal s)"
  by (simp_all add: r_emit_def rideEvent_def upd_ride_def)

lemma fields_frame [simp]:
  "rides (r_emit dnow i ev body s) = rides s" "offers (r_emit dnow i ev body s) = offers s"
  "journal (r_emit dnow i ev body s) = journal s"
  "rides (rideEvent dnow i from to aty ac meta s) = rides s" "offers (rideEvent dnow i from to aty ac meta s) = offers s"
  "journal (rideEvent dnow i from to aty ac meta s) = journal s @ [\<lparr>jn_subject = i, jn_from = from, jn_to = to,
     jn_actor_type = aty, jn_actor = ac, jn_meta = meta, jn_created = dnow\<rparr>]"
  "journal (upd_ride i f s) = journal s" "offers (upd_ride i f s) = offers s"
  "rides (upd_ride i f s) = upd_where (\<lambda>r. rd_id r = i) f (rides s)"
  by (simp_all add: r_emit_def rideEvent_def upd_ride_def)

lemma moves_begin_func:
  assumes "\<And>a s'. body s = (Inr a, s') \<Longrightarrow> ride_move\<^sup>*\<^sup>* (tabs s) (tabs s')"
  shows "ride_move\<^sup>*\<^sup>* (tabs s) (tabs (snd (begin_func body s)))"
  using assms by (cases body s rule: begin_func_cases) auto

text \<open>The shape of the handlers that move one ride: its row, the offers, one line in the journal.\<close>

lemma transition_move:
  assumes "r \<in> set (rides s)" "CanTransition (rd_state r) (rd_state r')" "same_ride r r'" "ride_ok r'"
    "DriverBusy (rd_state r') \<longrightarrow> (\<forall>x \<in> set (rides s). rd_id x \<noteq> rd_id r \<longrightarrow> DriverBusy (rd_state x) \<longrightarrow> rd_driver x \<noteq> rd_driver r')"
    "\<forall>x \<in> set O2. of_state x = Accepted \<longrightarrow>
      (x \<in> set (offers s) \<and> of_subject x \<noteq> rd_id r) \<or> (of_subject x = rd_id r \<and> rd_driver r' = Some (of_driver x))"
    "map of_id O2 = map of_id (offers s)"
    "tabs s' = (upd_where (\<lambda>x. rd_id x = rd_id r) (\<lambda>_. r') (rides s), O2,
       journal s @ [\<lparr>jn_subject = rd_id r, jn_from = Some (rd_state r), jn_to = rd_state r', jn_actor_type = aty,
         jn_actor = ac, jn_meta = meta, jn_created = dnow\<rparr>])"
  shows "ride_move\<^sup>*\<^sup>* (tabs s) (tabs s')"
  unfolding assms(8) using assms(1-7) by (intro r_into_rtranclp ride_move.transition) simp_all

text \<open>In a state of the protocol, accepted offers for a ride belong to its driver.\<close>

lemma accepted_driver:
  assumes "protocol_inv (tabs s)" "r \<in> set (rides s)" "x \<in> set (offers s)" "of_state x = Accepted" "of_subject x = rd_id r"
  shows "rd_driver r = Some (of_driver x)"
proof -
  obtain q where "q \<in> set (rides s)" "rd_id q = of_subject x" "rd_driver q = Some (of_driver x)"
    using assms by (auto simp: protocol_inv_def accepted_ok_def)
  moreover have "q = r" if "q \<in> set (rides s)" "rd_id q = rd_id r" for q
    using assms(1,2) that by (auto simp: protocol_inv_def intro: distinct_keyD)
  ultimately show ?thesis using assms(5) by auto
qed

lemma protocol_okD: "protocol_inv (tabs s) \<Longrightarrow> r \<in> set (rides s) \<Longrightarrow> ride_ok r"
  by (simp add: protocol_inv_def)

lemma insert_ride_Inr:
  "insert_ride r s = (Inr r', s') \<Longrightarrow> r' = r \<and> s' = s\<lparr>rides := rides s @ [r]\<rparr> \<and>
     (\<forall>x \<in> set (rides s). rd_id x \<noteq> rd_id r \<and> \<not> (rd_customer x = rd_customer r \<and> IsActive (rd_state x))) \<and>
     ((rd_method r = Business_account) = (rd_business r \<noteq> None))"
  by (auto simp: insert_ride_def exists_where_iff split: if_splits)

lemma request_tx_moves:
  assumes "request_tx gnow dnow i u16 user key pm note inp s = (Inr r, s')"
  shows "ride_move\<^sup>*\<^sup>* (tabs s) (tabs s')"
proof -
  obtain sq where lq: "LoadQuote gnow (inQuoteID inp) user (r_pricing s) = Inr sq"
    using assms by (cases "LoadQuote gnow (inQuoteID inp) user (r_pricing s)") (simp_all add: request_tx_def)
  obtain s1 where ins: "insert_ride (new_ride dnow i u16 user key pm note (inBusinessID inp) (sq_row sq)) s = (Inr r, s1)"
    and s': "s' = r_emit dnow i ''RideRequested''
       [(''ride_id'', JStr i), (''customer_id'', JStr user), (''category'', JStr (rd_category r)),
        (''area'', JStr (qt_area (sq_row sq))), (''attempt'', JInt 1)]
       (rideEvent dnow i None Matching ''customer'' (Some user) [(''payment_method'', JStr (method_text pm))] s1)"
    using assms lq
    by (cases "insert_ride (new_ride dnow i u16 user key pm note (inBusinessID inp) (sq_row sq)) s")
       (auto simp: request_tx_def Let_def split: sum.splits if_splits)
  note I = insert_ride_Inr[OF ins]
  define r0 where "r0 = new_ride dnow i u16 user key pm note (inBusinessID inp) (sq_row sq)"
  have r0: "rd_id r0 = i" "rd_customer r0 = user" "rd_state r0 = Matching" "ride_ok r0"
    by (simp_all add: r0_def new_ride_def ride_ok_def DriverBusy_def)
  show ?thesis
    using I r0 unfolding s' r0_def [symmetric]
    by (auto intro!: r_into_rtranclp ride_move.request)
qed

lemma Request_moves: "ride_move\<^sup>*\<^sup>* (tabs s) (tabs (snd (Request cfg gnow dnow i u16 user idem inp s)))"
proof -
  have "ride_move\<^sup>*\<^sup>* (tabs t) (tabs (snd (begin_func (request_tx gnow dnow i u16 user key pm nt inp) t)))" for t key pm nt
    by (rule moves_begin_func) (rule request_tx_moves)
  from this[of "s\<lparr>r_counters := k\<rparr>" for k] this[of s] show ?thesis
    by (auto simp: Request_def Let_def split: sum.splits prod.splits option.splits)
qed

lemma cancel_customer_moves:
  assumes inv: "protocol_inv (tabs s)" and c: "cancel_customer_tx gnow dnow user i reason s = (Inr r', s')"
  shows "ride_move\<^sup>*\<^sup>* (tabs s) (tabs s')"
    and "rd_state r' = Cancelled \<and> rd_id r' = i \<and> r' \<in> set (rides s')"
proof -
  obtain r where f: "find (\<lambda>r. rd_id r = i \<and> rd_customer r = user) (rides s) = Some r"
    using c by (cases "find (\<lambda>r. rd_id r = i \<and> rd_customer r = user) (rides s)") (simp_all add: cancel_customer_tx_def)
  have can: "CanTransition (rd_state r) Cancelled"
    using c f by (simp add: cancel_customer_tx_def split: if_splits)
  obtain fee where fee: "cancellation_fee gnow r (r_pricing s) = Inr fee"
    using c f can by (cases "cancellation_fee gnow r (r_pricing s)") (simp_all add: cancel_customer_tx_def)
  have r': "r' = r\<lparr>rd_state := Cancelled, rd_cancelled_by := Some ''customer'', rd_reason := nullable reason,
         rd_fee := fee, rd_pay := (if fee > 0 \<and> rd_method r = Wallet then PayPending else PayNone),
         rd_cancelled_at := Some dnow, rd_updated_at := dnow\<rparr>"
    and t: "tabs s' = (upd_where (\<lambda>x. rd_id x = i) (\<lambda>_. r') (rides s),
         respond dnow Withdrawn (\<lambda>x. of_subject x = i \<and> of_state x = Offered) (offers s),
         journal s @ [\<lparr>jn_subject = i, jn_from = Some (rd_state r), jn_to = Cancelled, jn_actor_type = ''customer'',
           jn_actor = Some user, jn_meta = [(''fee_minor'', JInt fee), (''reason'', JStr reason)], jn_created = dnow\<rparr>])"
    using c f can fee by (auto simp: cancel_customer_tx_def Let_def)
  have r: "r \<in> set (rides s)" "rd_id r = i" using find_SomeD[OF f] by auto
  have ok: "ride_ok r" using inv r(1) by (rule protocol_okD)
  have no: "rd_state r \<noteq> Completed" using can by (auto simp: CanTransition_def can_transition_def)
  show "ride_move\<^sup>*\<^sup>* (tabs s) (tabs s')"
  proof (rule transition_move[OF r(1)])
    show "tabs s' = (upd_where (\<lambda>x. rd_id x = rd_id r) (\<lambda>_. r') (rides s),
         respond dnow Withdrawn (\<lambda>x. of_subject x = i \<and> of_state x = Offered) (offers s),
         journal s @ [\<lparr>jn_subject = rd_id r, jn_from = Some (rd_state r), jn_to = rd_state r', jn_actor_type = ''customer'',
           jn_actor = Some user, jn_meta = [(''fee_minor'', JInt fee), (''reason'', JStr reason)], jn_created = dnow\<rparr>])"
      by (simp add: t r(2) r')
    show "\<forall>x \<in> set (respond dnow Withdrawn (\<lambda>x. of_subject x = i \<and> of_state x = Offered) (offers s)). of_state x = Accepted \<longrightarrow>
      (x \<in> set (offers s) \<and> of_subject x \<noteq> rd_id r) \<or> (of_subject x = rd_id r \<and> rd_driver r' = Some (of_driver x))"
      using accepted_driver[OF inv r(1)] by (auto simp: in_respond r')
    show "same_ride r r'" by (simp add: r' same_ride_def)
    show "CanTransition (rd_state r) (rd_state r')" using can by (simp add: r')
    show "ride_ok r'" using ok no by (simp add: r' ride_ok_def DriverBusy_def)
  qed (simp_all add: r' DriverBusy_def)
  have "rides s' = upd_where (\<lambda>x. rd_id x = i) (\<lambda>_. r') (rides s)" using t by simp
  then have "r' \<in> set (rides s')" using r by (auto simp: set_upd_where)
  then show "rd_state r' = Cancelled \<and> rd_id r' = i \<and> r' \<in> set (rides s')" using r' r(2) by simp
qed

lemma accept_moves:
  assumes inv: "protocol_inv (tabs s)" and c: "accept_tx gnow dnow user offerID s = (Inr r', s')"
  shows "ride_move\<^sup>*\<^sup>* (tabs s) (tabs s')"
    and "rd_driver r' = Some user \<and> rd_state r' = Assigned \<and> r' \<in> set (rides s')"
proof -
  obtain x where fx: "find (\<lambda>x. of_id x = offerID \<and> of_driver x = user) (offers s) = Some x"
    using c by (cases "find (\<lambda>x. of_id x = offerID \<and> of_driver x = user) (offers s)") (simp_all add: accept_tx_def)
  have open_x: "of_state x = Offered" "\<not> gnow > of_expires x"
    using c fx by (auto simp: accept_tx_def split: if_splits)
  obtain r where f: "find (\<lambda>r. rd_id r = of_subject x) (rides s) = Some r"
    using c fx open_x by (cases "find (\<lambda>r. rd_id r = of_subject x) (rides s)") (simp_all add: accept_tx_def)
  have st: "rd_state r = Matching" using c fx open_x f by (auto simp: accept_tx_def split: if_splits)
  have free: "\<not> exists_where (\<lambda>y. rd_driver y = Some user \<and> DriverBusy (rd_state y) \<and> rd_id y \<noteq> rd_id r) (rides s)"
    using c fx open_x f st by (auto simp: accept_tx_def split: if_splits)
  let ?O2 = "respond dnow Withdrawn (\<lambda>y. of_subject y = rd_id r \<and> of_state y = Offered)
      (respond dnow Accepted (\<lambda>y. of_id y = offerID) (offers s))"
  have r': "r' = r\<lparr>rd_state := Assigned, rd_driver := Some user, rd_assigned_at := Some dnow, rd_updated_at := dnow\<rparr>"
    and t: "tabs s' = (upd_where (\<lambda>x. rd_id x = rd_id r) (\<lambda>_. r') (rides s), ?O2,
       journal s @ [\<lparr>jn_subject = rd_id r, jn_from = Some Matching, jn_to = Assigned, jn_actor_type = ''driver'',
         jn_actor = Some user, jn_meta = [(''offer_id'', JStr offerID)], jn_created = dnow\<rparr>])"
    using c fx open_x f st free by (auto simp: accept_tx_def Let_def)
  have r: "r \<in> set (rides s)" "rd_id r = of_subject x" using find_SomeD[OF f] by auto
  have x: "x \<in> set (offers s)" "of_id x = offerID" "of_driver x = user" using find_SomeD[OF fx] by auto
  have ok: "ride_ok r" using inv r(1) by (rule protocol_okD)
  have none: "\<not> (of_state y = Accepted \<and> of_subject y = rd_id r)" if "y \<in> set (offers s)" for y
    using accepted_driver[OF inv r(1) that] ok st by (auto simp: ride_ok_def)
  show "ride_move\<^sup>*\<^sup>* (tabs s) (tabs s')"
  proof (rule transition_move[OF r(1)])
    show "tabs s' = (upd_where (\<lambda>x. rd_id x = rd_id r) (\<lambda>_. r') (rides s), ?O2,
       journal s @ [\<lparr>jn_subject = rd_id r, jn_from = Some (rd_state r), jn_to = rd_state r', jn_actor_type = ''driver'',
         jn_actor = Some user, jn_meta = [(''offer_id'', JStr offerID)], jn_created = dnow\<rparr>])"
      by (simp add: t st r')
    have only: "y = x" if "y \<in> set (offers s)" "of_id y = offerID" for y
      using inv x that by (auto simp: protocol_inv_def intro: distinct_keyD)
    show "\<forall>y \<in> set ?O2. of_state y = Accepted \<longrightarrow>
      (y \<in> set (offers s) \<and> of_subject y \<noteq> rd_id r) \<or> (of_subject y = rd_id r \<and> rd_driver r' = Some (of_driver y))"
    proof (intro ballI impI)
      fix y assume y: "y \<in> set ?O2" "of_state y = Accepted"
      then have "y \<in> set (respond dnow Accepted (\<lambda>y. of_id y = offerID) (offers s))"
        unfolding in_respond[of y dnow Withdrawn] by auto
      then consider (new) z where "z \<in> set (offers s)" "of_id z = offerID" "y = z\<lparr>of_state := Accepted, of_responded := Some dnow\<rparr>"
        | (old) "y \<in> set (offers s)"
        unfolding in_respond by blast
      then show "(y \<in> set (offers s) \<and> of_subject y \<noteq> rd_id r) \<or> (of_subject y = rd_id r \<and> rd_driver r' = Some (of_driver y))"
      proof cases
        case new
        then have "z = x" using only by blast
        with new x r(2) show ?thesis by (simp add: r')
      next
        case old
        with none y(2) show ?thesis by blast
      qed
    qed
    show "ride_ok r'" using ok st by (simp add: r' ride_ok_def DriverBusy_def)
    show "DriverBusy (rd_state r') \<longrightarrow> (\<forall>x \<in> set (rides s). rd_id x \<noteq> rd_id r \<longrightarrow> DriverBusy (rd_state x) \<longrightarrow> rd_driver x \<noteq> rd_driver r')"
      using free by (auto simp: exists_where_iff r')
  qed (simp_all add: r' same_ride_def st CanTransition_def can_transition_def)
  show "rd_driver r' = Some user \<and> rd_state r' = Assigned \<and> r' \<in> set (rides s')"
    using t r by (auto simp: r' set_upd_where)
qed

lemma AcceptOffer_moves:
  assumes "protocol_inv (tabs s)"
  shows "ride_move\<^sup>*\<^sup>* (tabs s) (tabs (snd (AcceptOffer gnow dnow user offerID s)))"
  using moves_begin_func[of "accept_tx gnow dnow user offerID" s] accept_moves(1)[OF assms]
  by (auto simp: AcceptOffer_def split: sum.splits prod.splits)

lemma respond_offering:
  assumes "st \<noteq> Accepted" "tabs s' = (rides s, respond dnow st P (offers s), journal s)"
  shows "ride_move\<^sup>*\<^sup>* (tabs s) (tabs s')"
  unfolding assms(2) using assms(1)
  by (intro r_into_rtranclp ride_move.offering) (auto simp: in_respond)

lemma DeclineOffer_moves: "ride_move\<^sup>*\<^sup>* (tabs s) (tabs (snd (DeclineOffer dnow user offerID s)))"
  unfolding DeclineOffer_def
proof (rule moves_begin_func)
  fix a s'
  assume "(case find (\<lambda>x. of_id x = offerID \<and> of_driver x = user \<and> of_state x = Offered) (offers s) of
       None \<Rightarrow> (Inl ErrOfferGone, s)
     | Some x \<Rightarrow>
         (Inr (), r_emit dnow (of_subject x) ''RideOfferDeclined''
            [(''ride_id'', JStr (of_subject x)), (''driver_id'', JStr user), (''offer_id'', JStr offerID)]
            (s\<lparr>offers := respond dnow Declined (\<lambda>y. of_id y = offerID \<and> of_driver y = user \<and> of_state y = Offered) (offers s)\<rparr>))) = (Inr a, s')"
  then have "tabs s' = (rides s, respond dnow Declined (\<lambda>y. of_id y = offerID \<and> of_driver y = user \<and> of_state y = Offered) (offers s), journal s)"
    by (auto split: option.splits)
  then show "ride_move\<^sup>*\<^sup>* (tabs s) (tabs s')" by (rule respond_offering[rotated]) simp
qed

lemma driver_update_cases:
  assumes "driver_update dnow to r db = Inr r1"
  shows "to \<in> {Arrived_state, InProgress, Completed} \<and> rd_state r1 = to \<and> same_ride r r1 \<and> rd_driver r1 = rd_driver r \<and>
    (to \<noteq> Completed \<longrightarrow> rd_final r1 = rd_final r \<and> rd_pay r1 = rd_pay r) \<and>
    (to = Completed \<longrightarrow> rd_final r1 = Some (rd_quoted r) \<and> rd_pay r1 = PayPending)"
  using assms by (auto simp: driver_update_def same_ride_def split: ride_state.splits option.splits)

lemma driverTransition_moves:
  assumes inv: "protocol_inv (tabs s)"
  shows "ride_move\<^sup>*\<^sup>* (tabs s) (tabs (snd (driverTransition dnow user i to s)))"
  unfolding driverTransition_def
proof (rule moves_begin_func)
  let ?body = "\<lambda>s. case find (\<lambda>r. rd_id r = i \<and> rd_driver r = Some user) (rides s) of
       None \<Rightarrow> (Inl ErrNotFound, s)
     | Some r \<Rightarrow>
         if \<not> CanTransition (rd_state r) to then (Inl ErrInvalidState, s)
         else (case driver_update dnow to r (r_pricing s) of
                 Inl e \<Rightarrow> (Inl e, s)
               | Inr r1 \<Rightarrow>
                   let r' = r1\<lparr>rd_updated_at := dnow\<rparr>
                   in (Inr r', r_emit dnow i (driver_event to)
                         [(''ride_id'', JStr i), (''driver_id'', JStr user), (''customer_id'', JStr (rd_customer r')),
                          (''price_final_minor'', jint_opt (rd_final r'))]
                         (rideEvent dnow i (Some (rd_state r)) to ''driver'' (Some user) [] (upd_ride i (\<lambda>_. r') s))))"
  fix a s' assume b: "?body s = (Inr a, s')"
  obtain r where f: "find (\<lambda>r. rd_id r = i \<and> rd_driver r = Some user) (rides s) = Some r"
    using b by (cases "find (\<lambda>r. rd_id r = i \<and> rd_driver r = Some user) (rides s)") simp_all
  have can: "CanTransition (rd_state r) to" using b f by (simp split: if_splits)
  obtain r1 where u: "driver_update dnow to r (r_pricing s) = Inr r1"
    using b f can by (cases "driver_update dnow to r (r_pricing s)") simp_all
  define r' where "r' = r1\<lparr>rd_updated_at := dnow\<rparr>"
  have t: "tabs s' = (upd_where (\<lambda>x. rd_id x = i) (\<lambda>_. r') (rides s), offers s,
      journal s @ [\<lparr>jn_subject = i, jn_from = Some (rd_state r), jn_to = to, jn_actor_type = ''driver'',
        jn_actor = Some user, jn_meta = [], jn_created = dnow\<rparr>])"
    using b f can u by (auto simp: Let_def r'_def)
  have r: "r \<in> set (rides s)" "rd_id r = i" "rd_driver r = Some user" using find_SomeD[OF f] by auto
  note D = driver_update_cases[OF u]
  have ok: "ride_ok r" using inv r(1) by (rule protocol_okD)
  have busy_r: "DriverBusy (rd_state r)"
    using can D by (cases "rd_state r") (auto simp: CanTransition_def can_transition_def DriverBusy_def)
  have r1: "rd_state r' = to" "same_ride r r'" "rd_driver r' = rd_driver r" "rd_final r' = rd_final r1" "rd_pay r' = rd_pay r1"
    using D by (simp_all add: r'_def same_ride_def)
  show "ride_move\<^sup>*\<^sup>* (tabs s) (tabs s')"
  proof (rule transition_move[OF r(1)])
    show "tabs s' = (upd_where (\<lambda>x. rd_id x = rd_id r) (\<lambda>_. r') (rides s), offers s,
      journal s @ [\<lparr>jn_subject = rd_id r, jn_from = Some (rd_state r), jn_to = rd_state r', jn_actor_type = ''driver'',
        jn_actor = Some user, jn_meta = [], jn_created = dnow\<rparr>])"
      using t r(2) r1(1) by simp
    show "CanTransition (rd_state r) (rd_state r')" using can r1(1) by simp
    show "same_ride r r'" by (rule r1(2))
    have q: "rd_quoted r' = rd_quoted r" using r1(2) by (simp add: same_ride_def)
    have pay: "rd_pay r = PayPending" "rd_final r = None" using ok busy_r by (auto simp: ride_ok_def DriverBusy_def)
    have fin: "rd_final r' = (if to = Completed then Some (rd_quoted r) else None)"
      using D pay(2) r1(4) by (simp split: if_splits)
    have pp: "rd_pay r' = PayPending" using D pay(1) r1(5) by (cases "to = Completed") simp_all
    have "to \<noteq> Matching" "to \<noteq> NoDriver" using D by blast+
    then show "ride_ok r'"
      unfolding ride_ok_def r1(1,3) fin pp q by (simp add: r(3))
    show "\<forall>x \<in> set (offers s). of_state x = Accepted \<longrightarrow>
      (x \<in> set (offers s) \<and> of_subject x \<noteq> rd_id r) \<or> (of_subject x = rd_id r \<and> rd_driver r' = Some (of_driver x))"
      using accepted_driver[OF inv r(1)] r1(3) by auto
    have D1: "one_driver (rides s)" using inv by (simp add: protocol_inv_def)
    show "DriverBusy (rd_state r') \<longrightarrow> (\<forall>x \<in> set (rides s). rd_id x \<noteq> rd_id r \<longrightarrow> DriverBusy (rd_state x) \<longrightarrow> rd_driver x \<noteq> rd_driver r')"
    proof (intro impI ballI notI)
      fix x assume x: "x \<in> set (rides s)" "rd_id x \<noteq> rd_id r" "DriverBusy (rd_state x)" "rd_driver x = rd_driver r'"
      then have "driver_key x = driver_key r" "driver_key x \<noteq> None"
        using busy_r r(3) r1(3) by (simp_all add: driver_key_def)
      with D1 x(1,2) r(1) show False unfolding unique_index_def by blast
    qed
  qed simp
qed

lemma cancel_driver_moves:
  assumes inv: "protocol_inv (tabs s)" and c: "cancel_driver_tx dnow user i reason s = (Inr r', s')"
  shows "ride_move\<^sup>*\<^sup>* (tabs s) (tabs s')"
proof -
  obtain r where f: "find (\<lambda>r. rd_id r = i \<and> rd_driver r = Some user) (rides s) = Some r"
    using c by (cases "find (\<lambda>r. rd_id r = i \<and> rd_driver r = Some user) (rides s)") (simp_all add: cancel_driver_tx_def)
  have can: "CanTransition (rd_state r) Matching" using c f by (simp add: cancel_driver_tx_def split: if_splits)
  let ?O2 = "respond dnow Declined (\<lambda>y. of_subject y = i \<and> of_driver y = user) (offers s)"
  have r': "r' = r\<lparr>rd_state := Matching, rd_driver := None, rd_assigned_at := None, rd_arrived_at := None,
                       rd_attempts := rd_attempts r + 1, rd_requested_at := dnow, rd_updated_at := dnow\<rparr>"
    and t: "tabs s' = (upd_where (\<lambda>x. rd_id x = i) (\<lambda>_. r') (rides s), ?O2,
      journal s @ [\<lparr>jn_subject = i, jn_from = Some (rd_state r), jn_to = Matching, jn_actor_type = ''driver'',
        jn_actor = Some user, jn_meta = [(''reason'', JStr reason), (''reassign'', JBool True)], jn_created = dnow\<rparr>])"
    using c f can by (auto simp: cancel_driver_tx_def Let_def)
  have r: "r \<in> set (rides s)" "rd_id r = i" "rd_driver r = Some user" using find_SomeD[OF f] by auto
  have ok: "ride_ok r" using inv r(1) by (rule protocol_okD)
  have busy_r: "DriverBusy (rd_state r)"
    using can by (cases "rd_state r") (auto simp: CanTransition_def can_transition_def DriverBusy_def)
  show ?thesis
  proof (rule transition_move[OF r(1)])
    show "tabs s' = (upd_where (\<lambda>x. rd_id x = rd_id r) (\<lambda>_. r') (rides s), ?O2,
      journal s @ [\<lparr>jn_subject = rd_id r, jn_from = Some (rd_state r), jn_to = rd_state r', jn_actor_type = ''driver'',
        jn_actor = Some user, jn_meta = [(''reason'', JStr reason), (''reassign'', JBool True)], jn_created = dnow\<rparr>])"
      using t r(2) by (simp add: r')
    show "CanTransition (rd_state r) (rd_state r')" using can by (simp add: r')
    show "ride_ok r'" using ok busy_r by (auto simp: r' ride_ok_def DriverBusy_def)
    show "\<forall>x \<in> set ?O2. of_state x = Accepted \<longrightarrow>
      (x \<in> set (offers s) \<and> of_subject x \<noteq> rd_id r) \<or> (of_subject x = rd_id r \<and> rd_driver r' = Some (of_driver x))"
    proof (intro ballI impI)
      fix x assume "x \<in> set ?O2" "of_state x = Accepted"
      then have x: "x \<in> set (offers s)" "\<not> (of_subject x = i \<and> of_driver x = user)" "of_state x = Accepted"
        using accepted_respond[of x dnow Declined] by blast+
      have "of_subject x \<noteq> rd_id r" using accepted_driver[OF inv r(1) x(1,3)] x(2) r by auto
      then show "(x \<in> set (offers s) \<and> of_subject x \<noteq> rd_id r) \<or> (of_subject x = rd_id r \<and> rd_driver r' = Some (of_driver x))"
        using x(1) by blast
    qed
  qed (simp_all add: r' DriverBusy_def same_ride_def)
qed

lemma CancelByDriver_moves:
  assumes "protocol_inv (tabs s)"
  shows "ride_move\<^sup>*\<^sup>* (tabs s) (tabs (snd (CancelByDriver gnow dnow user i reason s)))"
  using moves_begin_func[of "cancel_driver_tx dnow user i (clip reason 200)" s] cancel_driver_moves[OF assms]
  by (auto simp: CancelByDriver_def split: sum.splits prod.splits)

section \<open>Settlement in the protocol\<close>

text \<open>A settlement touches the tables only through the payment status of its ride.\<close>

definition settled_rides :: "uuid \<Rightarrow> pay_status \<Rightarrow> time \<Rightarrow> ride list \<Rightarrow> ride list" where
  "settled_rides i st t R = upd_where (\<lambda>x. rd_id x = i \<and> rd_pay x = PayPending) (\<lambda>x. x\<lparr>rd_pay := st, rd_updated_at := t\<rparr>) R"

lemma setPaymentStatus_tabs:
  "tabs (snd (setPaymentStatus cfg dnow r st tx s)) = tabs s \<or>
   tabs (snd (setPaymentStatus cfg dnow r st tx s)) = (settled_rides (rd_id r) st dnow (rides s), offers s, journal s)"
  unfolding setPaymentStatus_def
  by (rule snd_begin_func_inv)
     (auto simp: settled_rides_def Let_def split: option.splits if_splits prod.splits sum.splits)

lemma settle_tabs:
  "\<exists>st. tabs (snd (settle cfg dnow txi r s)) = tabs s \<or>
        tabs (snd (settle cfg dnow txi r s)) = (settled_rides (rd_id r) st dnow (rides s), offers s, journal s)"
proof -
  let ?s = "s\<lparr>r_core := settle_account r (r_core s)\<rparr>"
  have p: "\<exists>st'. tabs (snd (setPaymentStatus cfg dnow r st tx s')) = tabs s \<or>
      tabs (snd (setPaymentStatus cfg dnow r st tx s')) = (settled_rides (rd_id r) st' dnow (rides s), offers s, journal s)"
    if "tabs s' = tabs s" for st tx s'
    using setPaymentStatus_tabs[of cfg dnow r st tx s'] that by auto
  show ?thesis
  proof (cases "settle_plan r (r_core ?s)")
    case (Reject e)
    then show ?thesis by (simp add: settle_def)
  next
    case Fail_payment
    then show ?thesis using p[of ?s PayFailed uuid_Nil] by (simp add: settle_def)
  next
    case (Pay st txo)
    show ?thesis
    proof (cases txo)
      case None
      then show ?thesis using p[of ?s st uuid_Nil] Pay by (simp add: settle_def)
    next
      case (Some tx)
      obtain res s1 where P: "r_on_core (Post dnow txi tx) ?s = (res, s1)" by (cases "r_on_core (Post dnow txi tx) ?s")
      then have "tabs s1 = tabs s" by (auto simp: r_on_core_def split: prod.splits)
      then show ?thesis using p[of s1 st] Pay Some P by (cases res) (simp_all add: settle_def)
    qed
  qed
qed

lemma settle_moves:
  assumes "\<forall>x \<in> set (rides s). rd_id x = rd_id r \<longrightarrow> rd_state x = Completed \<or> rd_state x = Cancelled"
  shows "ride_move\<^sup>*\<^sup>* (tabs s) (tabs (snd (settle cfg dnow txi r s)))"
proof -
  obtain st where "tabs (snd (settle cfg dnow txi r s)) = tabs s \<or>
        tabs (snd (settle cfg dnow txi r s)) = (settled_rides (rd_id r) st dnow (rides s), offers s, journal s)"
    using settle_tabs by blast
  then show ?thesis
    using ride_move.payment[OF assms, where O' = "offers s" and J = "journal s" and st = st and t = dnow]
    by (auto simp: settled_rides_def)
qed

lemma settle_states:
  "map (\<lambda>x. (rd_id x, rd_state x)) (rides (snd (settle cfg dnow txi r s))) = map (\<lambda>x. (rd_id x, rd_state x)) (rides s)"
  using settle_tabs[of cfg dnow txi r s] by (auto simp: settled_rides_def)

lemma settle_all_moves:
  assumes "\<forall>r \<in> set rs. \<forall>x \<in> set (rides s). rd_id x = rd_id r \<longrightarrow> rd_state x = Completed \<or> rd_state x = Cancelled"
  shows "ride_move\<^sup>*\<^sup>* (tabs s) (tabs (snd (settle_all cfg dnow txis n rs s)))"
  using assms
proof (induction rs arbitrary: n s)
  case (Cons r rs)
  let ?s1 = "snd (settle cfg dnow (txis n) r s)"
  have 1: "ride_move\<^sup>*\<^sup>* (tabs s) (tabs ?s1)" using Cons.prems by (intro settle_moves) simp
  have st: "\<exists>y \<in> set (rides s). rd_id y = rd_id x \<and> rd_state y = rd_state x" if "x \<in> set (rides ?s1)" for x
  proof -
    have "(rd_id x, rd_state x) \<in> set (map (\<lambda>x. (rd_id x, rd_state x)) (rides ?s1))" using that by auto
    then have "(rd_id x, rd_state x) \<in> set (map (\<lambda>x. (rd_id x, rd_state x)) (rides s))" by (simp only: settle_states)
    then show ?thesis by auto
  qed
  have "\<forall>r' \<in> set rs. \<forall>x \<in> set (rides ?s1). rd_id x = rd_id r' \<longrightarrow> rd_state x = Completed \<or> rd_state x = Cancelled"
  proof (intro ballI impI)
    fix r' x assume "r' \<in> set rs" "x \<in> set (rides ?s1)" "rd_id x = rd_id r'"
    then show "rd_state x = Completed \<or> rd_state x = Cancelled" using st[of x] Cons.prems by fastforce
  qed
  from rtranclp_trans[OF 1 Cons.IH[OF this]] 1 show ?case
    by (auto split: prod.splits sum.splits)
qed simp

lemma SettlePending_moves:
  assumes "protocol_inv (tabs s)"
  shows "ride_move\<^sup>*\<^sup>* (tabs s) (tabs (snd (SettlePending cfg dnow txis s)))"
  unfolding SettlePending_def
proof (rule settle_all_moves, intro ballI impI)
  fix r x assume r: "r \<in> set (pending_rides dnow s)" and x: "x \<in> set (rides s)" "rd_id x = rd_id r"
  have "r \<in> set (rides s)" "rd_state r = Completed \<or> rd_state r = Cancelled"
    using in_set_takeD[OF r[unfolded pending_rides_def]] by auto
  moreover have "x = r" if "r \<in> set (rides s)"
    using assms x that by (auto simp: protocol_inv_def intro: distinct_keyD)
  ultimately show "rd_state x = Completed \<or> rd_state x = Cancelled" by blast
qed

lemma driverTransition_Inr:
  assumes "driverTransition dnow user i to s = (Inr r', s')"
  shows "rd_state r' = to \<and> rd_id r' = i \<and> rd_driver r' = Some user \<and> r' \<in> set (rides s')"
proof -
  have b: "(case find (\<lambda>r. rd_id r = i \<and> rd_driver r = Some user) (rides s) of
       None \<Rightarrow> (Inl ErrNotFound, s)
     | Some r \<Rightarrow>
         if \<not> CanTransition (rd_state r) to then (Inl ErrInvalidState, s)
         else (case driver_update dnow to r (r_pricing s) of
                 Inl e \<Rightarrow> (Inl e, s)
               | Inr r1 \<Rightarrow>
                   let r' = r1\<lparr>rd_updated_at := dnow\<rparr>
                   in (Inr r', r_emit dnow i (driver_event to)
                         [(''ride_id'', JStr i), (''driver_id'', JStr user), (''customer_id'', JStr (rd_customer r')),
                          (''price_final_minor'', jint_opt (rd_final r'))]
                         (rideEvent dnow i (Some (rd_state r)) to ''driver'' (Some user) [] (upd_ride i (\<lambda>_. r') s))))) = (Inr r', s')"
    using assms unfolding driverTransition_def begin_func_commit .
  obtain r where f: "find (\<lambda>r. rd_id r = i \<and> rd_driver r = Some user) (rides s) = Some r"
    using b by (cases "find (\<lambda>r. rd_id r = i \<and> rd_driver r = Some user) (rides s)") simp_all
  have can: "CanTransition (rd_state r) to" using b f by (simp split: if_splits)
  obtain r1 where u: "driver_update dnow to r (r_pricing s) = Inr r1"
    using b f can by (cases "driver_update dnow to r (r_pricing s)") simp_all
  have r': "r' = r1\<lparr>rd_updated_at := dnow\<rparr>" and R: "rides s' = upd_where (\<lambda>x. rd_id x = i) (\<lambda>_. r') (rides s)"
    using b f can u by (auto simp: Let_def)
  have r: "r \<in> set (rides s)" "rd_id r = i" "rd_driver r = Some user" using find_SomeD[OF f] by auto
  have "r' \<in> set (rides s')" unfolding R using r(1,2) by (auto simp: set_upd_where)
  then show ?thesis using driver_update_cases[OF u] r r' by (auto simp: same_ride_def)
qed

lemma settle_step:
  assumes "protocol_inv (tabs s)" "r \<in> set (rides s)" "rd_state r = Completed \<or> rd_state r = Cancelled"
  shows "ride_move\<^sup>*\<^sup>* (tabs s) (tabs (snd (settle cfg dnow txi r s)))"
proof (rule settle_moves, intro ballI impI)
  fix x assume "x \<in> set (rides s)" "rd_id x = rd_id r"
  then have "x = r" using assms(1,2) by (auto simp: protocol_inv_def intro: distinct_keyD)
  then show "rd_state x = Completed \<or> rd_state x = Cancelled" using assms(3) by simp
qed

lemma Complete_moves:
  assumes inv: "protocol_inv (tabs s)"
  shows "ride_move\<^sup>*\<^sup>* (tabs s) (tabs (snd (Complete cfg gnow dnow txi user i s)))"
proof (cases "driverTransition dnow user i Completed s")
  case (Pair res s1)
  have m: "ride_move\<^sup>*\<^sup>* (tabs s) (tabs s1)"
    using driverTransition_moves[OF inv, of dnow user i Completed] by (simp add: Pair)
  show ?thesis
  proof (cases res)
    case (Inl e)
    then show ?thesis using m Pair by (simp add: Complete_def)
  next
    case (Inr r)
    note D = driverTransition_Inr[OF Pair[unfolded Inr]]
    let ?s2 = "s1\<lparr>r_loc := SetAvailable gnow user (r_loc s1)\<rparr>"
    have "protocol_inv (tabs ?s2)" using ride_moves_inv[OF m inv] by simp
    then have "ride_move\<^sup>*\<^sup>* (tabs ?s2) (tabs (snd (settle cfg dnow txi r ?s2)))"
      using D by (intro settle_step) auto
    then have "ride_move\<^sup>*\<^sup>* (tabs s) (tabs (snd (settle cfg dnow txi r ?s2)))" using m by simp
    then show ?thesis using Pair Inr by (auto simp: Complete_def Let_def split: option.splits)
  qed
qed

lemma CancelByCustomer_moves:
  assumes inv: "protocol_inv (tabs s)"
  shows "ride_move\<^sup>*\<^sup>* (tabs s) (tabs (snd (CancelByCustomer cfg gnow dnow txi user i reason s)))"
proof (cases "begin_func (cancel_customer_tx gnow dnow user i (clip reason 200)) s")
  case (Pair res s1)
  show ?thesis
  proof (cases res)
    case (Inl e)
    have "s1 = s" using Pair[unfolded Inl] by (rule begin_func_rollback)
    then show ?thesis using Inl Pair by (simp add: CancelByCustomer_def)
  next
    case (Inr r)
    note C = cancel_customer_moves[OF inv Pair[unfolded Inr begin_func_commit]]
    define s2 where "s2 = (case rd_driver r of None \<Rightarrow> s1 | Some d \<Rightarrow> s1\<lparr>r_loc := SetAvailable gnow d (r_loc s1)\<rparr>)"
    have t2: "tabs s2 = tabs s1" by (simp add: s2_def split: option.splits)
    have "protocol_inv (tabs s2)" using ride_moves_inv[OF C(1) inv] t2 by simp
    then have "ride_move\<^sup>*\<^sup>* (tabs s2) (tabs (snd (settle cfg dnow txi r s2)))"
      using C(2) t2 by (intro settle_step) auto
    then have "ride_move\<^sup>*\<^sup>* (tabs s) (tabs (snd (settle cfg dnow txi r s2)))" using C(1) t2 by simp
    moreover have "ride_move\<^sup>*\<^sup>* (tabs s) (tabs s2)" using C(1) t2 by simp
    ultimately show ?thesis
      using Pair Inr unfolding CancelByCustomer_def s2_def
      by (auto simp: Let_def split: option.splits)
  qed
qed

section \<open>Dispatch in the protocol\<close>

lemma make_offer_moves:
  assumes "make_offer gnow dnow offerID i rnd c s = (Inr b, s')"
  shows "ride_move\<^sup>*\<^sup>* (tabs s) (tabs s')"
proof -
  have new: "\<forall>x \<in> set (offers s). of_id x \<noteq> offerID"
    and t: "\<exists>y. of_id y = offerID \<and> of_state y = Offered \<and> tabs s' = (rides s, offers s @ [y], journal s)"
    using assms by (auto simp: make_offer_def exists_where_iff split: if_splits)
  from t obtain y where y: "of_id y = offerID" "of_state y = Offered" "tabs s' = (rides s, offers s @ [y], journal s)" by blast
  show ?thesis unfolding y(3)
    using new y(1,2) by (intro r_into_rtranclp ride_move.offering) auto
qed

lemma round_tx_moves:
  assumes inv: "protocol_inv (tabs s)" and c: "round_tx gs gnow dnow offerID i s = (Inr b, s')"
  shows "ride_move\<^sup>*\<^sup>* (tabs s) (tabs s')"
proof -
  obtain r where f: "find (\<lambda>r. rd_id r = i) (rides s) = Some r"
    using c by (cases "find (\<lambda>r. rd_id r = i) (rides s)") (simp_all add: round_tx_def)
  have r: "r \<in> set (rides s)" "rd_id r = i" using find_SomeD[OF f] by auto
  consider (quiet) "s' = s" | (gone) "rd_state r = Matching" "tabs s' = (upd_where (\<lambda>x. rd_id x = i) (\<lambda>x. x\<lparr>rd_state := NoDriver, rd_updated_at := dnow\<rparr>) (rides s),
        offers s, journal s @ [\<lparr>jn_subject = i, jn_from = Some Matching, jn_to = NoDriver, jn_actor_type = ''system'',
          jn_actor = None, jn_meta = [(''attempts'', JInt (rd_attempts r))], jn_created = dnow\<rparr>])"
    | (search) l where "tabs s' = tabs s" | (offer) l c0 rnd where "make_offer gnow dnow offerID i rnd c0 (s\<lparr>r_loc := l\<rparr>) = (Inr b, s')"
  proof (cases "rd_state r \<noteq> Matching \<or> open_offers dnow i (offers s) > 0")
    case True
    then have "s' = s" using c f by (auto simp: round_tx_def split: if_splits)
    then show ?thesis by (rule quiet)
  next
    case False
    show ?thesis
    proof (cases "gnow - rd_requested_at r > MatchingTimeout")
      case True
      then show ?thesis using False c f by (intro gone) (auto simp: round_tx_def)
    next
      case lt: False
      obtain cands l where N: "Nearest gs gnow (rd_category r) (rd_pickup r) SearchRadiusKm 10 (r_loc s) = (cands, l)"
        by (cases "Nearest gs gnow (rd_category r) (rd_pickup r) SearchRadiusKm 10 (r_loc s)")
      let ?p = "pick dnow (rd_category r) (map of_driver (filter (\<lambda>x. of_subject x = i) (offers s))) (s\<lparr>r_loc := l\<rparr>) cands"
      show ?thesis
      proof (cases ?p)
        case None
        then have "s' = s\<lparr>r_loc := l\<rparr>" using False lt c f N by (simp add: round_tx_def Let_def)
        then show ?thesis by (intro search) simp
      next
        case (Some c0)
        then have "make_offer gnow dnow offerID i (count_where (\<lambda>x. of_subject x = i) (offers s)) c0 (s\<lparr>r_loc := l\<rparr>) = (Inr b, s')"
          using False lt c f N by (simp add: round_tx_def Let_def)
        then show ?thesis by (rule offer)
      qed
    qed
  qed
  then show ?thesis
  proof cases
    case gone
    define r' where "r' = r\<lparr>rd_state := NoDriver, rd_updated_at := dnow\<rparr>"
    have ok: "ride_ok r" using inv r(1) by (rule protocol_okD)
    have "upd_where (\<lambda>x. rd_id x = i) (\<lambda>x. x\<lparr>rd_state := NoDriver, rd_updated_at := dnow\<rparr>) (rides s)
        = upd_where (\<lambda>x. rd_id x = i) (\<lambda>_. r') (rides s)"
      unfolding upd_where_def
    proof (rule map_cong[OF refl])
      fix x assume "x \<in> set (rides s)"
      then have "rd_id x = i \<Longrightarrow> x = r" using inv r by (auto simp: protocol_inv_def intro: distinct_keyD)
      then show "(if rd_id x = i then x\<lparr>rd_state := NoDriver, rd_updated_at := dnow\<rparr> else x) = (if rd_id x = i then r' else x)"
        by (auto simp: r'_def)
    qed
    then have t: "tabs s' = (upd_where (\<lambda>x. rd_id x = rd_id r) (\<lambda>_. r') (rides s), offers s,
        journal s @ [\<lparr>jn_subject = rd_id r, jn_from = Some (rd_state r), jn_to = rd_state r', jn_actor_type = ''system'',
          jn_actor = None, jn_meta = [(''attempts'', JInt (rd_attempts r))], jn_created = dnow\<rparr>])"
      using gone r(2) by (simp add: r'_def)
    show ?thesis
    proof (rule transition_move[OF r(1) _ _ _ _ _ _ t])
      show "\<forall>x \<in> set (offers s). of_state x = Accepted \<longrightarrow>
        (x \<in> set (offers s) \<and> of_subject x \<noteq> rd_id r) \<or> (of_subject x = rd_id r \<and> rd_driver r' = Some (of_driver x))"
        using accepted_driver[OF inv r(1)] by (auto simp: r'_def)
      show "ride_ok r'" using ok gone(1) by (auto simp: r'_def ride_ok_def DriverBusy_def)
    qed (simp_all add: r'_def gone(1) CanTransition_def can_transition_def same_ride_def DriverBusy_def)
  next
    case (offer l c0 rnd)
    from make_offer_moves[OF this] show ?thesis by simp
  qed simp_all
qed

lemma Round_moves:
  assumes "protocol_inv (tabs s)"
  shows "ride_move\<^sup>*\<^sup>* (tabs s) (tabs (snd (Round gs gnow dnow offerID i s)))"
  using moves_begin_func[of "round_tx gs gnow dnow offerID i" s] round_tx_moves[OF assms]
  by (auto simp: Round_def begin_func_def split: sum.splits prod.splits)

lemma sweep_rounds_moves:
  assumes "protocol_inv (tabs s)"
  shows "ride_move\<^sup>*\<^sup>* (tabs s) (tabs (snd (sweep_rounds gs gnow dnow ids is st s)))"
  using assms
proof (induction "is" arbitrary: st s)
  case (Cons i "is")
  have 1: "ride_move\<^sup>*\<^sup>* (tabs s) (tabs (snd (Round gs gnow dnow (ids (swRounds st)) i s)))"
    using Cons.prems by (rule Round_moves)
  note inv = ride_moves_inv[OF 1 Cons.prems]
  show ?case
    using 1 rtranclp_trans[OF 1 Cons.IH[OF inv]] by (auto simp: Let_def split: prod.splits sum.splits)
qed simp

lemma emit_expired_tabs [simp]: "tabs (emit_expired dnow xs s) = tabs s"
proof (induction xs arbitrary: s)
  case (Cons x xs)
  show ?case by (simp only: emit_expired.simps Cons.IH) simp
qed simp

lemma Sweep_moves:
  assumes "protocol_inv (tabs s)"
  shows "ride_move\<^sup>*\<^sup>* (tabs s) (tabs (snd (Sweep gs gnow dnow ids s)))"
proof -
  let ?s0 = "s\<lparr>offers := respond dnow Expired (overdue dnow) (offers s)\<rparr>"
  let ?s1 = "emit_expired dnow (filter (overdue dnow) (offers s)) ?s0"
  have 1: "ride_move\<^sup>*\<^sup>* (tabs s) (tabs ?s1)"
    by (rule respond_offering[where st = Expired]) simp_all
  then have "protocol_inv (tabs ?s1)" using assms by (rule ride_moves_inv)
  then have "ride_move\<^sup>*\<^sup>* (tabs ?s1) (tabs (snd (sweep_rounds gs gnow dnow ids is st ?s1)))" for "is" st
    by (rule sweep_rounds_moves)
  with 1 show ?thesis unfolding Sweep_def Let_def by (meson rtranclp_trans)
qed

lemma Start_moves:
  assumes "protocol_inv (tabs s)"
  shows "ride_move\<^sup>*\<^sup>* (tabs s) (tabs (snd (Start qr dnow user i code tok s)))"
  using driverTransition_moves[OF assms, of dnow user i InProgress]
  by (auto simp: Start_def Let_def split: option.splits)

section \<open>The module as a transition system\<close>

text \<open>
  Every entry point of the module, with any arguments, and anything the rest of the platform does
  to its own tables (\<open>outside\<close>).
\<close>

inductive rides_step :: "rides_db \<Rightarrow> rides_db \<Rightarrow> bool" where
  request: "rides_step s (snd (Request cfg gnow dnow i u16 user idem inp s))"
| cancel: "rides_step s (snd (CancelByCustomer cfg gnow dnow txi user i reason s))"
| accept: "rides_step s (snd (AcceptOffer gnow dnow user offerID s))"
| decline: "rides_step s (snd (DeclineOffer dnow user offerID s))"
| arrived: "rides_step s (snd (Arrived dnow user i s))"
| begin_ride: "rides_step s (snd (Start qr dnow user i code tok s))"
| complete: "rides_step s (snd (Complete cfg gnow dnow txi user i s))"
| give_up: "rides_step s (snd (CancelByDriver gnow dnow user i reason s))"
| settle_pending: "rides_step s (snd (SettlePending cfg dnow txis s))"
| dispatch_round: "rides_step s (snd (Round gs gnow dnow offerID i s))"
| sweep: "rides_step s (snd (Sweep gs gnow dnow ids s))"
| outside: "tabs s' = tabs s \<Longrightarrow> rides_step s s'"

inductive_cases rides_stepE: "rides_step s s'"

lemma rides_step_moves:
  assumes "rides_step s s'" "protocol_inv (tabs s)"
  shows "ride_move\<^sup>*\<^sup>* (tabs s) (tabs s')"
  using assms
proof (cases rule: rides_step.cases)
  case outside
  then show ?thesis by simp
qed (simp_all add: Arrived_def Request_moves CancelByCustomer_moves AcceptOffer_moves DeclineOffer_moves
    driverTransition_moves Start_moves Complete_moves CancelByDriver_moves SettlePending_moves Round_moves Sweep_moves
    del: tabs_frame)

lemma rides_steps_moves:
  assumes "rides_step\<^sup>*\<^sup>* s s'" "protocol_inv (tabs s)"
  shows "ride_move\<^sup>*\<^sup>* (tabs s) (tabs s')"
  using assms
proof (induction rule: rtranclp_induct)
  case (step s' s'')
  then have 1: "ride_move\<^sup>*\<^sup>* (tabs s) (tabs s')" by blast
  then have "protocol_inv (tabs s')" using step.prems by (rule ride_moves_inv)
  with 1 rides_step_moves[OF step.hyps(2)] show ?case by (meson rtranclp_trans)
qed simp

lemma protocol_inv_empty: "protocol_inv ([], [], [])"
  by (simp add: protocol_inv_def unique_index_def accepted_ok_def journal_ok_def)

definition fresh_rides :: "rides_db \<Rightarrow> bool" where
  "fresh_rides s \<longleftrightarrow> rides s = [] \<and> offers s = [] \<and> journal s = []"

text \<open>
  C1. Whatever the customers, drivers and workers do, in any order and with any arguments: a customer
  has at most one active ride and a driver at most one ride in hand; the journal of every ride starts
  with the request, follows the transition table and ends in the ride's present state; a ride has a
  driver exactly while one is bound to it, a final price exactly when it is completed, and then the
  price that was quoted; no payment is decided before the end; and an accepted offer belongs to the
  driver of its ride.
\<close>
theorem rides_protocol:
  assumes "fresh_rides s0" "rides_step\<^sup>*\<^sup>* s0 s"
  shows "(\<forall>x \<in> set (rides s). \<forall>y \<in> set (rides s).
            IsActive (rd_state x) \<and> IsActive (rd_state y) \<and> rd_customer x = rd_customer y \<longrightarrow> x = y) \<and>
         (\<forall>x \<in> set (rides s). \<forall>y \<in> set (rides s).
            DriverBusy (rd_state x) \<and> DriverBusy (rd_state y) \<and> rd_driver x = rd_driver y \<longrightarrow> x = y) \<and>
         (\<forall>r \<in> set (rides s). lawful transitions Matching (history (rd_id r) (journal s)) (rd_state r)) \<and>
         (\<forall>r \<in> set (rides s).
            (rd_state r \<in> {Matching, NoDriver} \<longrightarrow> rd_driver r = None) \<and>
            (DriverBusy (rd_state r) \<or> rd_state r = Completed \<longrightarrow> rd_driver r \<noteq> None) \<and>
            rd_final r = (if rd_state r = Completed then Some (rd_quoted r) else None) \<and>
            (rd_pay r \<noteq> PayPending \<longrightarrow> rd_state r = Completed \<or> rd_state r = Cancelled)) \<and>
         (\<forall>x \<in> set (offers s). of_state x = Accepted \<longrightarrow>
            (\<exists>r \<in> set (rides s). rd_id r = of_subject x \<and> rd_driver r = Some (of_driver x)))"
proof -
  have "protocol_inv (tabs s0)" using assms(1) protocol_inv_empty by (simp add: fresh_rides_def)
  then have inv: "protocol_inv (tabs s)" using rides_steps_moves[OF assms(2)] ride_moves_inv by blast
  then have d: "distinct (map rd_id (rides s))" and A: "one_active (rides s)" and B: "one_driver (rides s)"
    and J: "journal_ok (rides s) (journal s)" and O: "accepted_ok (rides s) (offers s)" and K: "\<forall>r \<in> set (rides s). ride_ok r"
    by (simp_all add: protocol_inv_def)
  have "x = y" if "x \<in> set (rides s)" "y \<in> set (rides s)" "IsActive (rd_state x)" "IsActive (rd_state y)" "rd_customer x = rd_customer y" for x y
  proof -
    have "customer_key x = customer_key y" "customer_key x \<noteq> None" using that by (simp_all add: customer_key_def)
    then have "rd_id x = rd_id y" using A that(1,2) unfolding unique_index_def by blast
    with d that(1,2) show ?thesis by (blast intro: distinct_keyD)
  qed
  moreover have "x = y" if "x \<in> set (rides s)" "y \<in> set (rides s)" "DriverBusy (rd_state x)" "DriverBusy (rd_state y)" "rd_driver x = rd_driver y" for x y
  proof -
    have "ride_ok x" using K that(1) by blast
    then have "driver_key x = driver_key y" "driver_key x \<noteq> None" using that by (simp_all add: driver_key_def ride_ok_def)
    then have "rd_id x = rd_id y" using B that(1,2) unfolding unique_index_def by blast
    with d that(1,2) show ?thesis by (blast intro: distinct_keyD)
  qed
  moreover have "\<forall>r \<in> set (rides s). lawful transitions Matching (history (rd_id r) (journal s)) (rd_state r)"
    using J by (simp add: journal_ok_def)
  moreover have "\<forall>x \<in> set (offers s). of_state x = Accepted \<longrightarrow>
            (\<exists>r \<in> set (rides s). rd_id r = of_subject x \<and> rd_driver r = Some (of_driver x))"
    using O by (simp add: accepted_ok_def)
  ultimately show ?thesis using K unfolding ride_ok_def by blast
qed

definition demo_quote_row :: quote_row where
  "demo_quote_row = \<lparr>qt_id = ''q1'', qt_customer = ''u1'', qt_area = ''prishtina'', qt_category = ''economy'', qt_rule = ''r1'',
     qt_pickup = mk_point 42 21, qt_pickup_address = None, qt_dropoff = mk_point 43 21, qt_dropoff_address = None,
     qt_distance = 5000, qt_duration = 720, qt_price = 640, qt_currency = ''EUR'', qt_surge = 15000, qt_expires = 1000\<rparr>"

definition demo_core :: core where
  "demo_core = snd (Post 0 ''t0'' \<lparr>Kind = ''topup'', Reference = ''t'', IdempotencyKey = ''t'', TxCurrency = ''EUR'',
      Postings = [debit ''psp'' 700, credit (UserWalletCode ''u1'') 700]\<rparr>
     (EnsureAccount ''krejt:commission'' ''krejt'' None ''revenue'' ''EUR''
     (EnsureAccount (UserWalletCode ''u1'') ''user'' None ''liability'' ''EUR''
       (EnsureAccount ''psp'' ''psp'' None ''asset'' ''EUR'' empty_core))))"

definition demo_rides :: rides_db where
  "demo_rides = \<lparr>r_core = demo_core,
     r_loc = \<lparr>drvs = (\<lambda>_. None), geo_idx = (\<lambda>_. []), samples = [], published = []\<rparr>,
     r_pricing = \<lparr>areas = [], categories = [], rule_rows = [\<lparr>rr_rule = demo_rule, rr_from = 0, rr_to = None\<rparr>], quotes = [demo_quote_row]\<rparr>,
     r_business = \<lparr>users = [], businesses = [], members = [], charges = []\<rparr>, r_drivers = demo_drivers,
     r_counters = (\<lambda>_. None), rides = [], offers = [], journal = []\<rparr>"

definition demo_cfg :: rides_cfg where
  "demo_cfg = \<lparr>cfg_enabled = (\<lambda>_. True), cfg_velocity = True, cfg_redis_up = True, cfg_business = True\<rparr>"

definition demo_request :: request_input where
  "demo_request = \<lparr>inQuoteID = ''q1'', inPaymentMethod = ''wallet'', inNote = [], inBusinessID = None\<rparr>"

definition demo_requested :: rides_db where
  "demo_requested = snd (Request demo_cfg 100 100 ''ride1'' 1234 ''u1'' ''k1'' demo_request demo_rides)"

lemma demo_steps:
  "validate_request demo_cfg ''k1'' demo_request = Inr (''k1'', Wallet, [])"
  "bal_or_zero (UserWalletCode ''u1'') demo_core = 700"
  "newPickupCode 1234 = ''1234''"
  by code_simp+

lemma demo_velocity: "\<exists>k. VelocityAllow True 100 ''u1'' ''ride_request'' 10 Hour (\<lambda>_. None) = (None, k)"
  by (simp add: VelocityAllow_def incr_expire_def counter_def Let_def)

lemma demo_LoadQuote:
  "\<exists>sq. LoadQuote 100 ''q1'' ''u1'' (r_pricing demo_rides) = Inr sq \<and> qt_price (sq_row sq) = 640"
  by (simp add: LoadQuote_def demo_rides_def demo_quote_row_def rule_of_def demo_rule_def)

lemma demo_requested_rides:
  "map (\<lambda>r. (rd_id r, rd_customer r, rd_state r, rd_code r)) (rides demo_requested) = [(''ride1'', ''u1'', Matching, Some ''1234'')]"
proof -
  obtain sq where sq: "LoadQuote 100 ''q1'' ''u1'' (r_pricing demo_rides) = Inr sq" "qt_price (sq_row sq) = 640"
    using demo_LoadQuote by blast
  obtain k where k: "VelocityAllow True 100 ''u1'' ''ride_request'' 10 Hour (\<lambda>_. None) = (None, k)"
    using demo_velocity by blast
  let ?s = "demo_rides\<lparr>r_counters := k\<rparr>"
  have c: "r_counters demo_rides = (\<lambda>_. None)" "rides demo_rides = []" "r_core demo_rides = demo_core"
    by (simp_all add: demo_rides_def)
  have tx: "\<exists>r s'. request_tx 100 100 ''ride1'' 1234 ''u1'' ''k1'' Wallet [] demo_request ?s = (Inr r, s') \<and>
      map (\<lambda>r. (rd_id r, rd_customer r, rd_state r, rd_code r)) (rides s') = [(''ride1'', ''u1'', Matching, Some ''1234'')]"
    using sq demo_steps(2,3) c
    by (simp add: request_tx_def demo_request_def insert_ride_def exists_where_def new_ride_def Let_def)
  then obtain r s' where t: "request_tx 100 100 ''ride1'' 1234 ''u1'' ''k1'' Wallet [] demo_request ?s = (Inr r, s')"
    and m: "map (\<lambda>r. (rd_id r, rd_customer r, rd_state r, rd_code r)) (rides s') = [(''ride1'', ''u1'', Matching, Some ''1234'')]"
    by (elim exE conjE) (rule that)
  have "cfg_enabled demo_cfg ''u1''" "cfg_velocity demo_cfg" "cfg_redis_up demo_cfg" by (simp_all add: demo_cfg_def)
  then have "demo_requested = s'"
    using t k demo_steps(1) c by (simp add: demo_requested_def Request_def begin_func_def)
  with m show ?thesis by simp
qed

theorem rides_protocol_witness:
  "rides_step\<^sup>*\<^sup>* demo_rides demo_requested \<and>
   map (\<lambda>r. (rd_id r, rd_customer r, rd_state r, rd_code r)) (rides demo_requested) = [(''ride1'', ''u1'', Matching, Some ''1234'')] \<and>
   lawful transitions Matching (history ''ride1'' (journal demo_requested)) Matching"
proof -
  have f: "fresh_rides demo_rides" by (simp add: fresh_rides_def demo_rides_def)
  have s: "rides_step\<^sup>*\<^sup>* demo_rides demo_requested"
    unfolding demo_requested_def by (rule r_into_rtranclp) (rule rides_step.request)
  from demo_requested_rides obtain r where r: "r \<in> set (rides demo_requested)" "rd_id r = ''ride1''" "rd_state r = Matching"
    by (cases "rides demo_requested") auto
  have "lawful transitions Matching (history (rd_id r) (journal demo_requested)) (rd_state r)"
    using rides_protocol[OF f s] r(1) by blast
  then show ?thesis using s demo_requested_rides r by simp
qed

text \<open>
  A finished ride is final: once a ride is completed, cancelled or given up for lack of drivers,
  nothing that happens later changes its customer, driver, state, quoted or final price, cancellation
  fee or commission, and no further line is added to its history.
\<close>
theorem finished_ride_final:
  assumes "fresh_rides s0" "rides_step\<^sup>*\<^sup>* s0 s" "r \<in> set (rides s)" "IsTerminal (rd_state r)" "rides_step\<^sup>*\<^sup>* s s'"
  shows "\<exists>r' \<in> set (rides s'). same_ride r r' \<and> rd_state r' = rd_state r \<and> rd_driver r' = rd_driver r \<and>
           rd_final r' = rd_final r \<and> rd_fee r' = rd_fee r \<and> rd_commission r' = rd_commission r \<and>
           lawful transitions Matching (history (rd_id r) (journal s')) (rd_state r)"
proof -
  have "protocol_inv (tabs s0)" using assms(1) protocol_inv_empty by (simp add: fresh_rides_def)
  then have inv: "protocol_inv (tabs s)" using rides_steps_moves[OF assms(2)] ride_moves_inv by blast
  note m = rides_steps_moves[OF assms(5) inv]
  have "closed_in r (tabs s)" using assms(3) by (auto simp: closed_in_def same_ride_def)
  from ride_closed_moves[OF m this assms(4) inv] obtain r' where r': "r' \<in> set (rides s')" "same_ride r r'" "rd_state r' = rd_state r"
     "rd_driver r' = rd_driver r" "rd_final r' = rd_final r" "rd_fee r' = rd_fee r" "rd_commission r' = rd_commission r"
    by (auto simp: closed_in_def)
  have "journal_ok (rides s') (journal s')" using ride_moves_inv[OF m inv] by (simp add: protocol_inv_def)
  then have "lawful transitions Matching (history (rd_id r') (journal s')) (rd_state r')" using r'(1) by (simp add: journal_ok_def)
  then show ?thesis using r' by (intro bexI[of _ r']) (auto simp: same_ride_def)
qed

lemma demo_requested_reach: "rides_step\<^sup>*\<^sup>* demo_rides demo_requested"
  unfolding demo_requested_def by (rule r_into_rtranclp) (rule rides_step.request)

definition demo_cancelled :: rides_db where
  "demo_cancelled = snd (CancelByCustomer demo_cfg 200 200 ''t1'' ''u1'' ''ride1'' [] demo_requested)"

lemma demo_requested_shape:
  "\<exists>r. rides demo_requested = [r] \<and> rd_id r = ''ride1'' \<and> rd_customer r = ''u1'' \<and> rd_state r = Matching"
  using demo_requested_rides by auto

lemma demo_cancelled_shape:
  "\<exists>r. rides demo_cancelled = [r] \<and> rd_id r = ''ride1'' \<and> rd_state r = Cancelled"
proof -
  obtain r where r: "rides demo_requested = [r]" "rd_id r = ''ride1''" "rd_customer r = ''u1''" "rd_state r = Matching"
    using demo_requested_shape by blast
  have fee: "cancellation_fee 200 r db = Inr 0" for db by (simp add: cancellation_fee_def r(4))
  obtain r' s' where c: "cancel_customer_tx 200 200 ''u1'' ''ride1'' (clip [] 200) demo_requested = (Inr r', s')"
    "rides s' = [r']" "rd_id r' = ''ride1''" "rd_state r' = Cancelled" "rd_pay r' = PayNone"
    by (simp add: cancel_customer_tx_def r fee CanTransition_def can_transition_def Let_def table_simps)
  then have "rides demo_cancelled = [r']"
    by (simp add: demo_cancelled_def CancelByCustomer_def begin_func_def split: option.splits)
  then show ?thesis using c by blast
qed

theorem finished_ride_final_witness:
  "\<exists>r. rides demo_cancelled = [r] \<and> IsTerminal (rd_state r) \<and>
     (\<exists>r' \<in> set (rides (snd (AcceptOffer 300 300 ''d1'' ''o1'' demo_cancelled))). rd_id r' = ''ride1'' \<and> rd_state r' = Cancelled)"
proof -
  obtain r where r: "rides demo_cancelled = [r]" "rd_id r = ''ride1''" "rd_state r = Cancelled"
    using demo_cancelled_shape by blast
  have t: "IsTerminal (rd_state r)" by (simp add: r IsTerminal_def)
  have f: "fresh_rides demo_rides" by (simp add: fresh_rides_def demo_rides_def)
  have "rides_step demo_requested demo_cancelled" unfolding demo_cancelled_def by (rule rides_step.cancel)
  with demo_requested_reach have s: "rides_step\<^sup>*\<^sup>* demo_rides demo_cancelled" by (rule rtranclp.rtrancl_into_rtrancl)
  have a: "rides_step\<^sup>*\<^sup>* demo_cancelled (snd (AcceptOffer 300 300 ''d1'' ''o1'' demo_cancelled))"
    by (rule r_into_rtranclp) (rule rides_step.accept)
  have "r \<in> set (rides demo_cancelled)" by (simp add: r)
  from finished_ride_final[OF f s this t a] r t show ?thesis by (auto simp: same_ride_def)
qed

end
