(* ===== verification/RideSettlement.thy ===== *)
theory RideSettlement
  imports RideSafety
begin

text \<open>
  What the settlement of a ride does to the ledger: the split of the fare, the cash commission and the
  cancellation fee; that a settlement repeated for whatever reason moves no money again; and what
  happens when it is repeated after a crash between its two transactions.
\<close>

section \<open>The effect on the ledger\<close>

lemma setPaymentStatus_core:
  "accounts (r_core (snd (setPaymentStatus cfg dnow r st tx s))) = accounts (r_core s) \<and>
   ltxs (r_core (snd (setPaymentStatus cfg dnow r st tx s))) = ltxs (r_core s) \<and>
   entries (r_core (snd (setPaymentStatus cfg dnow r st tx s))) = entries (r_core s)"
  unfolding setPaymentStatus_def
proof (rule snd_begin_func_inv, simp)
  fix a s'
  assume b: "(let s1 = s\<lparr>rides := upd_where (\<lambda>x. rd_id x = rd_id r \<and> rd_pay x = PayPending)
                  (\<lambda>x. x\<lparr>rd_pay := st, rd_updated_at := dnow\<rparr>) (rides s)\<rparr>;
         ev = (if st = PayFailed then ''RidePaymentFailed'' else ''RidePaymentSettled'');
         finish = r_emit dnow (rd_id r) ev [(''ride_id'', JStr (rd_id r)), (''customer_id'', JStr (rd_customer r)),
                    (''status'', JStr (status_text st)), (''method'', JStr (method_text (rd_method r)))]
     in case rd_business r of
          Some b \<Rightarrow>
            if st = PayPaid \<and> rd_method r = Business_account \<and> cfg_business cfg then
              let amount = (case rd_final r of None \<Rightarrow> rd_quoted r | Some p \<Rightarrow> p)
              in (case RecordCharge dnow b (rd_customer r) ''ride'' (rd_id r) tx amount (r_business s1, r_core s1) of
                    (Inl e, bdb, c) \<Rightarrow> (Inl e, s1\<lparr>r_business := bdb, r_core := c\<rparr>)
                  | (Inr _, bdb, c) \<Rightarrow> (Inr (), finish (s1\<lparr>r_business := bdb, r_core := c\<rparr>)))
            else (Inr (), finish s1)
        | None \<Rightarrow> (Inr (), finish s1)) = (Inr a, s')"
  have R: "accounts c' = accounts c \<and> ltxs c' = ltxs c \<and> entries c' = entries c"
    if "RecordCharge dnow bb u k i t n (db, c) = (Inr (), db', c')" for bb u k i t n db c db' c'
    using RecordCharge_Inr(5-7)[OF that] by blast
  show "accounts (r_core s') = accounts (r_core s) \<and> ltxs (r_core s') = ltxs (r_core s) \<and> entries (r_core s') = entries (r_core s)"
    using b by (auto simp: Let_def r_emit_def dest!: R split: option.splits if_splits prod.splits sum.splits)
qed

lemma setPaymentStatus_ledger [simp]:
  "bal c (r_core (snd (setPaymentStatus cfg dnow r st tx s))) = bal c (r_core s)"
  "posted k (r_core (snd (setPaymentStatus cfg dnow r st tx s))) = posted k (r_core s)"
  "ledger_inv (r_core (snd (setPaymentStatus cfg dnow r st tx s))) = ledger_inv (r_core s)"
  using setPaymentStatus_core[of cfg dnow r st tx s] by (simp_all add: bal_def posted_def ledger_inv_def)

text \<open>After the account of the driver is there, a settlement is at most one \<open>Post\<close>.\<close>

definition settle_core :: "time \<Rightarrow> uuid \<Rightarrow> ride \<Rightarrow> core \<Rightarrow> core" where
  "settle_core dnow txi r c =
     (let c1 = settle_account r c
      in case settle_plan r c1 of Pay _ (Some tx) \<Rightarrow> snd (Post dnow txi tx c1) | _ \<Rightarrow> c1)"

lemma settle_ledger:
  "bal c (r_core (snd (settle cfg dnow txi r s))) = bal c (settle_core dnow txi r (r_core s))"
  "posted k (r_core (snd (settle cfg dnow txi r s))) = posted k (settle_core dnow txi r (r_core s))"
  "ledger_inv (r_core (snd (settle cfg dnow txi r s))) = ledger_inv (settle_core dnow txi r (r_core s))"
proof -
  let ?s = "s\<lparr>r_core := settle_account r (r_core s)\<rparr>"
  have "P (r_core (snd (settle cfg dnow txi r s))) = P (settle_core dnow txi r (r_core s))"
    if P: "\<And>r st tx s. P (r_core (snd (setPaymentStatus cfg dnow r st tx s))) = P (r_core s)" for P :: "core \<Rightarrow> 'x"
  proof (cases "settle_plan r (settle_account r (r_core s))")
    case (Pay st txo)
    show ?thesis
    proof (cases txo)
      case (Some tx)
      obtain res c1 where "Post dnow txi tx (settle_account r (r_core s)) = (res, c1)"
        by (cases "Post dnow txi tx (settle_account r (r_core s))")
      then show ?thesis using Pay Some P
        by (cases res) (simp_all add: settle_def settle_core_def r_on_core_def)
    qed (simp add: Pay P settle_def settle_core_def)
  qed (simp_all add: P settle_def settle_core_def)
  note Q = this
  show "bal c (r_core (snd (settle cfg dnow txi r s))) = bal c (settle_core dnow txi r (r_core s))" by (rule Q) simp
  show "posted k (r_core (snd (settle cfg dnow txi r s))) = posted k (settle_core dnow txi r (r_core s))" by (rule Q) simp
  show "ledger_inv (r_core (snd (settle cfg dnow txi r s))) = ledger_inv (settle_core dnow txi r (r_core s))" by (rule Q) simp
qed

lemma settle_account_ledger [simp]:
  "bal c (settle_account r s) = bal c s" "posted k (settle_account r s) = posted k s"
  "ledger_inv s \<Longrightarrow> ledger_inv (settle_account r s)"
  by (auto simp: settle_account_def EnsureAccount_inv split: ride_state.splits option.splits)

lemma settle_core_inv: "ledger_inv c \<Longrightarrow> ledger_inv (settle_core dnow txi r c)"
  by (auto simp: settle_core_def Let_def Post_inv split: plan.splits option.splits)

section \<open>The fare\<close>

definition fare_key :: "ride \<Rightarrow> string" where "fare_key r = ''ride:'' @ rd_id r @ '':fare''"

text \<open>The plan of a completed ride never uses a key other than that of its fare.\<close>

lemma completed_plan_key:
  "rd_state r = Completed \<Longrightarrow> settle_plan r c = Pay st (Some tx) \<Longrightarrow> IdempotencyKey tx = fare_key r"
  by (auto simp: settle_plan_def ride_tx_def fare_key_def Let_def split: option.splits sum.splits if_splits)

lemma settle_again:
  assumes "rd_state r = Completed" "posted (fare_key r) (r_core s)"
  shows "bal c (r_core (snd (settle cfg dnow txi r s))) = bal c (r_core s)"
proof -
  have "snd (Post dnow txi tx (settle_account r (r_core s))) = settle_account r (r_core s)"
    if "settle_plan r (settle_account r (r_core s)) = Pay st (Some tx)" for st tx
    using lg.post_replay[of tx "settle_account r (r_core s)" "(dnow, txi)"] completed_plan_key[OF assms(1) that] assms(2) by simp
  then show ?thesis
    by (auto simp: settle_ledger settle_core_def Let_def split: plan.splits option.splits)
qed

lemma settle_posts:
  assumes "rd_state r = Completed" "rd_driver r = Some d" "rd_final r = Some price" "rd_commission r = Some com"
    "rd_method r \<noteq> Cash" "\<not> posted (fare_key r) (r_core s)"
    "settle_plan r (settle_account r (r_core s)) \<noteq> Fail_payment" "fst (settle cfg dnow txi r s) = Inr ()"
  shows "\<exists>tx i. settle_plan r (settle_account r (r_core s)) = Pay PayPaid (Some tx) \<and>
     Postings tx = [debit (payer_of r) price, credit (DriverWalletCode d) (sub64 price com)] @
       (if com = 0 then [] else [credit ''krejt:commission'' com]) \<and>
     fst (Post dnow txi tx (settle_account r (r_core s))) = Inr i \<and> IdempotencyKey tx = fare_key r"
proof -
  let ?c = "settle_account r (r_core s)"
  obtain b where b: "Balance (payer_of r) ?c = Inr b"
    using assms(1-5,8) by (cases "Balance (payer_of r) ?c") (simp_all add: settle_def settle_plan_def Let_def)
  have ge: "\<not> Minor b < price" using assms(1-5,7) b by (auto simp: settle_plan_def Let_def)
  define tx where "tx = ride_tx ''ride_fare'' '':fare'' r ([debit (payer_of r) price, credit (DriverWalletCode d) (sub64 price com)] @
     (if com = 0 then [] else [credit ''krejt:commission'' com]))"
  have p: "settle_plan r ?c = Pay PayPaid (Some tx)"
    using assms(1-5) b ge by (simp add: settle_plan_def Let_def tx_def)
  obtain res c1 where P: "Post dnow txi tx ?c = (res, c1)" by (cases "Post dnow txi tx ?c")
  then have "\<exists>i. res = Inr i" using assms(8) p by (cases res) (simp_all add: settle_def r_on_core_def)
  then show ?thesis using p P by (auto simp: tx_def ride_tx_def fare_key_def)
qed

text \<open>
  C3. A ride that is not paid in cash is paid exactly once and split exactly: when the settlement of a
  completed ride goes through as a payment, the payer (the customer, or the company for a business
  ride) is charged the final price, the driver receives the price less the commission and the platform
  the commission, every other account is untouched and the books stay balanced; and any later
  settlement of the ride, at any time, in whatever state the rest of the platform is, moves nothing.
\<close>
theorem ride_fare_exactly_once:
  assumes "ledger_inv (r_core s)" "rd_state r = Completed" "rd_driver r = Some d" "rd_final r = Some price"
    "rd_commission r = Some com" "rd_method r \<noteq> Cash" "in64 (price - com)" "\<not> posted (fare_key r) (r_core s)"
    "settle_plan r (settle_account r (r_core s)) \<noteq> Fail_payment" "fst (settle cfg dnow txi r s) = Inr ()"
  shows "let s1 = snd (settle cfg dnow txi r s) in
    ledger_inv (r_core s1) \<and>
    (\<forall>c. bal c (r_core s1) = bal c (r_core s) - (if c = payer_of r then price else 0)
        + (if c = DriverWalletCode d then price - com else 0) + (if c = ''krejt:commission'' then com else 0)) \<and>
    (\<forall>s2 cfg' dnow' txi' r' c. posted (fare_key r) (r_core s1) \<and>
       (posted (fare_key r) (r_core s2) \<and> rd_state r' = Completed \<and> rd_id r' = rd_id r \<longrightarrow>
        bal c (r_core (snd (settle cfg' dnow' txi' r' s2))) = bal c (r_core s2)))"
proof -
  let ?c = "settle_account r (r_core s)"
  obtain tx i where p: "settle_plan r ?c = Pay PayPaid (Some tx)"
    and ps: "Postings tx = [debit (payer_of r) price, credit (DriverWalletCode d) (sub64 price com)] @
       (if com = 0 then [] else [credit ''krejt:commission'' com])"
    and post: "fst (Post dnow txi tx ?c) = Inr i" and key: "IdempotencyKey tx = fare_key r"
    using settle_posts[OF assms(2-6,8-10)] by blast
  have np: "\<not> posted (IdempotencyKey tx) ?c" using assms(8) key by simp
  have b: "bal c (r_core (snd (settle cfg dnow txi r s))) = bal c (r_core s) + net c (Postings tx)" for c
    using bal_Post_fresh[OF np post, of c] p by (simp add: settle_ledger settle_core_def)
  have n: "net c (Postings tx) = - (if c = payer_of r then price else 0)
        + (if c = DriverWalletCode d then price - com else 0) + (if c = ''krejt:commission'' then com else 0)" for c
    using assms(7) by (simp add: ps table_simps sub64_id)
  have pd: "posted (fare_key r) (r_core (snd (settle cfg dnow txi r s)))"
    using lg.post_marks[of "(dnow, txi)" tx ?c i] post key p by (simp add: settle_ledger settle_core_def)
  have again: "bal c (r_core (snd (settle cfg' dnow' txi' r' s2))) = bal c (r_core s2)"
    if "posted (fare_key r) (r_core s2)" "rd_state r' = Completed" "rd_id r' = rd_id r" for s2 cfg' dnow' txi' r' c
    using settle_again[of r' s2] that by (simp add: fare_key_def)
  show ?thesis
    unfolding Let_def using b n pd again settle_core_inv[OF assms(1)] by (simp add: settle_ledger)
qed

definition demo_done :: ride where
  "demo_done = (new_ride 100 ''ride1'' 7 ''u1'' ''k1'' Wallet [] None demo_quote_row)
     \<lparr>rd_state := Completed, rd_driver := Some ''d1'', rd_final := Some 640, rd_commission := Some 96\<rparr>"

lemma demo_core_inv: "ledger_inv demo_core"
  unfolding demo_core_def by (intro Post_inv EnsureAccount_inv ledger_inv_empty)

lemma demo_settle_core:
  "bal (UserWalletCode ''u1'') demo_core = 700" "\<not> posted ''ride:ride1:fare'' demo_core"
  "Balance (UserWalletCode ''u1'') (EnsureAccount (DriverWalletCode ''d1'') ''driver'' (Some ''d1'') ''liability'' ''EUR'' demo_core) = Inr (EUR 700)"
  "fst (Post 300 ''t9'' \<lparr>Kind = ''ride_fare'', Reference = ''ride:ride1'', IdempotencyKey = ''ride:ride1:fare'', TxCurrency = ''EUR'',
     Postings = [debit (UserWalletCode ''u1'') 640, credit (DriverWalletCode ''d1'') 544, credit ''krejt:commission'' 96]\<rparr>
     (EnsureAccount (DriverWalletCode ''d1'') ''driver'' (Some ''d1'') ''liability'' ''EUR'' demo_core)) = Inr ''t9''"
  by code_simp+

lemma fst_setPaymentStatus_no_business:
  "rd_business r = None \<Longrightarrow> fst (setPaymentStatus cfg dnow r st tx s) = Inr ()"
  by (simp add: setPaymentStatus_def Let_def)

lemma demo_plan:
  "settle_plan demo_done (settle_account demo_done demo_core) = Pay PayPaid (Some
     \<lparr>Kind = ''ride_fare'', Reference = ''ride:ride1'', IdempotencyKey = ''ride:ride1:fare'', TxCurrency = ''EUR'',
       Postings = [debit (UserWalletCode ''u1'') 640, credit (DriverWalletCode ''d1'') 544, credit ''krejt:commission'' 96]\<rparr>)"
  "settle_account demo_done demo_core = EnsureAccount (DriverWalletCode ''d1'') ''driver'' (Some ''d1'') ''liability'' ''EUR'' demo_core"
proof -
  have t: "TrimSpace ''EUR'' = ''EUR''" by (simp add: TrimSpace_def is_space_def)
  then show a: "settle_account demo_done demo_core = EnsureAccount (DriverWalletCode ''d1'') ''driver'' (Some ''d1'') ''liability'' ''EUR'' demo_core"
    by (simp add: settle_account_def demo_done_def new_ride_def demo_quote_row_def)
  show "settle_plan demo_done (settle_account demo_done demo_core) = Pay PayPaid (Some
     \<lparr>Kind = ''ride_fare'', Reference = ''ride:ride1'', IdempotencyKey = ''ride:ride1:fare'', TxCurrency = ''EUR'',
       Postings = [debit (UserWalletCode ''u1'') 640, credit (DriverWalletCode ''d1'') 544, credit ''krejt:commission'' 96]\<rparr>)"
    unfolding a using demo_settle_core(3) t
    by (simp add: settle_plan_def demo_done_def new_ride_def demo_quote_row_def payer_of_def EUR_def ride_tx_def sub64_def wrap64_def)
qed

theorem ride_fare_exactly_once_witness:
  "let s1 = snd (settle demo_cfg 300 ''t9'' demo_done demo_rides) in
   bal (UserWalletCode ''u1'') (r_core s1) = 60 \<and> bal (DriverWalletCode ''d1'') (r_core s1) = 544 \<and>
   bal ''krejt:commission'' (r_core s1) = 96"
proof -
  have c: "r_core demo_rides = demo_core" by (simp add: demo_rides_def)
  have d: "rd_state demo_done = Completed" "rd_driver demo_done = Some ''d1''" "rd_final demo_done = Some 640"
    "rd_commission demo_done = Some 96" "rd_method demo_done \<noteq> Cash" "rd_business demo_done = None"
    "fare_key demo_done = ''ride:ride1:fare''" "payer_of demo_done = UserWalletCode ''u1''"
    by (simp_all add: demo_done_def new_ride_def fare_key_def payer_of_def)
  have ok: "fst (settle demo_cfg 300 ''t9'' demo_done demo_rides) = Inr ()"
  proof -
    obtain c1 where "Post 300 ''t9'' \<lparr>Kind = ''ride_fare'', Reference = ''ride:ride1'', IdempotencyKey = ''ride:ride1:fare'', TxCurrency = ''EUR'',
     Postings = [debit (UserWalletCode ''u1'') 640, credit (DriverWalletCode ''d1'') 544, credit ''krejt:commission'' 96]\<rparr>
     (EnsureAccount (DriverWalletCode ''d1'') ''driver'' (Some ''d1'') ''liability'' ''EUR'' demo_core) = (Inr ''t9'', c1)"
      using demo_settle_core(4) by (metis prod.collapse)
    then show ?thesis
      using demo_plan fst_setPaymentStatus_no_business[OF d(6)] by (simp add: settle_def c r_on_core_def)
  qed
  have z: "bal (DriverWalletCode ''d1'') demo_core = 0" "bal ''krejt:commission'' demo_core = 0"
    "UserWalletCode ''u1'' \<noteq> DriverWalletCode ''d1''" "UserWalletCode ''u1'' \<noteq> ''krejt:commission''"
    "DriverWalletCode ''d1'' \<noteq> ''krejt:commission''"
    by code_simp+
  have "in64 (640 - 96)" by (simp add: in64_def)
  from ride_fare_exactly_once[of demo_rides demo_done "''d1''" 640 96 demo_cfg 300 "''t9''", OF _ d(1-5) this]
  show ?thesis using demo_core_inv demo_settle_core(1,2) demo_plan(1) ok z d by (simp add: c Let_def)
qed

text \<open>
  A settlement consists of two transactions, and a retry starts with the balance check. If the server
  stops between them (the fare is posted, the status still pending) and the customer's balance no
  longer covers the price, the retry records the payment as failed although it was taken.
\<close>

lemma retry_after_crash_reports_failure:
  assumes "rd_state r = Completed" "rd_driver r = Some d" "rd_final r = Some price" "rd_method r = Wallet"
    "rd_business r = None" "rd_pay r = PayPending" "rides s = [r]" "posted (fare_key r) (r_core s)"
    "Balance (payer_of r) (settle_account r (r_core s)) = Inr b" "Minor b < price"
  shows "map rd_pay (rides (snd (settle cfg dnow txi r s))) = [PayFailed]"
proof -
  have "settle_plan r (settle_account r (r_core s)) = Fail_payment"
    using assms by (simp add: settle_plan_def Let_def)
  then show ?thesis
    using assms(5-7) by (simp add: settle_def setPaymentStatus_def begin_func_def Let_def table_simps)
qed

end
