(* ===== verification/Payments.thy ===== *)
theory Payments
  imports Ledger
begin

text \<open>
  Card payments: \<open>platform/providers/payment/payment.go\<close> (the interface of a provider, and Stripe's
  verification of webhooks) and \<open>modules/payments/payments.go\<close> (top-ups of the wallet, their
  confirmation by webhook, refunds). The answers of a provider to \<open>CreateIntent\<close> and \<open>Refund\<close> are
  arguments, as are HMAC-SHA256 and the decoding of Stripe's JSON.
\<close>

section \<open>Providers\<close>

record intent_request =
  IRAmount :: int
  IRCurrency :: string
  IRIdem :: string
  IRMeta :: fields
  IRDescription :: string

record intent_result =
  ProviderIntentID :: string
  ClientSecret :: string
  IStatus :: string

record refund_request =
  RRIntent :: string
  RRAmount :: int
  RRIdem :: string
  RRReason :: string

record refund_result =
  ProviderRefundID :: string
  RStatus :: string

record webhook_event =
  EvID :: string
  EvType :: string
  EvIntent :: string
  EvRefund :: string
  EvStatus :: string
  EvAmount :: int
  EvCurrency :: string
  EvFailure :: string

datatype provider_err = Disabled | BadSignature | ProviderError string

record provider =
  PName :: string
  PCreate :: "intent_request \<Rightarrow> provider_err + intent_result"
  PRefund :: "refund_request \<Rightarrow> provider_err + refund_result"
  PParse :: "string \<Rightarrow> string \<Rightarrow> time \<Rightarrow> provider_err + webhook_event"

text \<open>\<open>strings.Split\<close> at one character, \<open>strings.Cut\<close> and \<open>strconv.ParseInt(s, 10, 64)\<close>.\<close>

fun split_on :: "char \<Rightarrow> string \<Rightarrow> string \<Rightarrow> string list" where
  "split_on d acc [] = [rev acc]"
| "split_on d acc (c # cs) = (if c = d then rev acc # split_on d [] cs else split_on d (c # acc) cs)"

fun cut :: "char \<Rightarrow> string \<Rightarrow> (string \<times> string) option" where
  "cut d [] = None"
| "cut d (c # cs) = (if c = d then Some ([], cs) else map_option (\<lambda>(k, v). (c # k, v)) (cut d cs))"

fun digits_value :: "int \<Rightarrow> string \<Rightarrow> int option" where
  "digits_value acc [] = Some acc"
| "digits_value acc (c # cs) =
     (if is_digit c then digits_value (acc * 10 + (of_char c - 48)) cs else None)"

definition ParseInt :: "string \<Rightarrow> int option" where
  "ParseInt s =
     (case s of [] \<Rightarrow> None
      | c # cs \<Rightarrow>
          let (neg, ds) = (if c = CHR ''-'' then (True, cs) else if c = CHR ''+'' then (False, cs) else (False, s)) in
          if ds = [] then None
          else (case digits_value 0 ds of None \<Rightarrow> None
                | Some n \<Rightarrow> let v = (if neg then - n else n) in if in64 v then Some v else None))"

text \<open>The fields of the signature header: the last \<open>t\<close> and every \<open>v1\<close>.\<close>

fun sig_fields :: "string list \<Rightarrow> string \<Rightarrow> string list \<Rightarrow> string \<times> string list" where
  "sig_fields [] ts sigs = (ts, sigs)"
| "sig_fields (p # ps) ts sigs =
     (case cut CHR ''='' (TrimSpace p) of
        None \<Rightarrow> sig_fields ps ts sigs
      | Some (k, v) \<Rightarrow>
          if k = ''t'' then sig_fields ps v sigs
          else if k = ''v1'' then sig_fields ps ts (sigs @ [v]) else sig_fields ps ts sigs)"

definition normalizeStripeStatus :: "string \<Rightarrow> string" where
  "normalizeStripeStatus s =
     (if s = ''requires_payment_method'' \<or> s = ''requires_confirmation'' then ''created''
      else if s = ''requires_action'' \<or> s = ''requires_capture'' then ''requires_action''
      else if s = ''processing'' then ''processing''
      else if s = ''succeeded'' then ''succeeded''
      else if s = ''canceled'' then ''canceled'' else ''created'')"

record stripe_object =
  SoEventID :: string
  SoEventType :: string
  SoID :: string
  SoObject :: string
  SoStatus :: string
  SoAmount :: int
  SoCurrency :: string
  SoPaymentIntent :: string
  SoLastError :: "(string \<times> string) option"  \<comment> \<open>code, decline code\<close>

definition stripe_event :: "stripe_object \<Rightarrow> webhook_event" where
  "stripe_event o' =
     (let out = \<lparr>EvID = SoEventID o', EvType = SoEventType o', EvIntent = [], EvRefund = [], EvStatus = [],
                 EvAmount = SoAmount o', EvCurrency = map to_upper (SoCurrency o'), EvFailure = []\<rparr>
      in if SoObject o' = ''payment_intent'' then
           out\<lparr>EvIntent := SoID o', EvStatus := normalizeStripeStatus (SoStatus o'),
               EvFailure := (case SoLastError o' of None \<Rightarrow> []
                             | Some (code, decline) \<Rightarrow> if decline = [] then code else decline)\<rparr>
         else if SoObject o' = ''refund'' then
           out\<lparr>EvRefund := SoID o', EvIntent := SoPaymentIntent o', EvStatus := SoStatus o'\<rparr>
         else out)"

definition StripeParseWebhook ::
  "(string \<Rightarrow> string \<Rightarrow> string) \<Rightarrow> (string \<Rightarrow> stripe_object option) \<Rightarrow> string \<Rightarrow>
   string \<Rightarrow> string \<Rightarrow> time \<Rightarrow> provider_err + webhook_event" where
  "StripeParseWebhook hmac decode secret body header now =
     (let (ts, sigs) = sig_fields (split_on CHR '','' [] header) [] []
      in case ParseInt ts of
           None \<Rightarrow> Inl BadSignature
         | Some t \<Rightarrow>
             if sigs = [] then Inl BadSignature
             else let d = now - t * Second in
               if d > 5 * Minute \<or> d < - (5 * Minute) then Inl BadSignature
               else let want = hmac secret (ts @ ''.'' @ body) in
                 if \<not> list_ex (\<lambda>g. g = want) sigs then Inl BadSignature
                 else (case decode body of
                         None \<Rightarrow> Inl (ProviderError ''payment: webhook json'')
                       | Some o' \<Rightarrow> Inr (stripe_event o')))"

text \<open>\<open>NoneProvider\<close>: cash and wallet only.\<close>

definition NoneProvider :: provider where
  "NoneProvider = \<lparr>PName = ''none'', PCreate = (\<lambda>_. Inl Disabled), PRefund = (\<lambda>_. Inl Disabled),
     PParse = (\<lambda>_ _ _. Inl BadSignature)\<rparr>"

section \<open>Errors, limits and tables\<close>

definition ErrAmount [err_defs]: "ErrAmount = API ''TOPUP_AMOUNT_INVALID'' 422 False []"
definition ErrDailyLimit [err_defs]: "ErrDailyLimit = API ''TOPUP_DAILY_LIMIT'' 422 False []"
definition ErrProviderDown [err_defs]: "ErrProviderDown = API ''PAYMENT_PROVIDER_UNAVAILABLE'' 503 True []"
definition ErrTopUpClosed [err_defs]: "ErrTopUpClosed = API ''TOPUP_UNAVAILABLE'' 409 False []"
definition ErrBadSignature [err_defs]: "ErrBadSignature = API ''WEBHOOK_SIGNATURE_INVALID'' 400 False []"
definition ErrNotRefundable [err_defs]: "ErrNotRefundable = API ''NOT_REFUNDABLE'' 409 False []"
definition ErrTopUpDisabled [err_defs]: "ErrTopUpDisabled = API ''TOPUP_DISABLED'' 503 True []"

definition MinTopUpMinor :: int where "MinTopUpMinor = 100"
definition MaxTopUpMinor :: int where "MaxTopUpMinor = 50000"
definition DailyTopUpMinor :: int where "DailyTopUpMinor = 100000"

record intent =
  pi_id :: uuid
  pi_user :: uuid
  pi_purpose :: string
  pi_amount :: int
  pi_currency :: string
  pi_provider :: string
  pi_pid :: "string option"
  pi_status :: string
  pi_failure :: "string option"
  pi_idem :: string
  pi_created :: time
  pi_updated :: time
  pi_succeeded :: "time option"

record webhook_row =
  wh_provider :: string
  wh_event :: string
  wh_type :: string
  wh_intent :: "uuid option"
  wh_received :: time
  wh_processed :: "time option"
  wh_error :: "err option"

record refund_row =
  rf_id :: uuid
  rf_intent :: uuid
  rf_amount :: int
  rf_reason :: string
  rf_pid :: "string option"
  rf_status :: string
  rf_by :: uuid
  rf_idem :: string

record payments_db =
  intents :: "intent list"
  webhook_rows :: "webhook_row list"
  refunds :: "refund_row list"
  p_core :: core

definition intent_statuses :: "string list" where
  "intent_statuses = [''created'', ''requires_action'', ''processing'', ''succeeded'', ''failed'', ''canceled'']"

definition refund_statuses :: "string list" where
  "refund_statuses = [''pending'', ''succeeded'', ''failed'']"

definition p_audit :: "uuid option \<Rightarrow> string \<Rightarrow> string \<Rightarrow> string \<Rightarrow> payload \<Rightarrow> payments_db \<Rightarrow> payments_db" where
  "p_audit actor act ty i meta s =
     s\<lparr>p_core := (p_core s)\<lparr>audit := audit (p_core s) @
        [\<lparr>au_actor = actor, au_action = act, au_target_type = ty, au_target_id = i, au_meta = meta\<rparr>]\<rparr>\<rparr>"

definition p_post :: "time \<Rightarrow> uuid \<Rightarrow> transaction \<Rightarrow> (payments_db, err, uuid) op" where
  "p_post now i tx s = (fst (Post now i tx (p_core s)), s\<lparr>p_core := snd (Post now i tx (p_core s))\<rparr>)"

text \<open>An update of the status column, which the table checks.\<close>

definition set_intent :: "(intent \<Rightarrow> bool) \<Rightarrow> (intent \<Rightarrow> intent) \<Rightarrow> payments_db \<Rightarrow> (err + unit) \<times> payments_db" where
  "set_intent P f s =
     (if list_ex (\<lambda>x. P x \<and> pi_status (f x) \<notin> set intent_statuses) (intents s) then (Inl PgCheck, s)
      else (Inr (), s\<lparr>intents := upd_where P f (intents s)\<rparr>))"

section \<open>Top-ups\<close>

definition live_statuses :: "string list" where
  "live_statuses = [''created'', ''requires_action'', ''processing'', ''succeeded'']"

definition topup_today :: "time \<Rightarrow> uuid \<Rightarrow> intent list \<Rightarrow> int" where
  "topup_today dnow user = sum_where (\<lambda>x. pi_user x = user \<and> pi_purpose x = ''wallet_topup'' \<and>
     pi_status x \<in> set live_statuses \<and> pi_created x > dnow - 24 * Hour) pi_amount"

definition topup_request :: "uuid \<Rightarrow> uuid \<Rightarrow> int \<Rightarrow> intent_request" where
  "topup_request user i amount =
     \<lparr>IRAmount = amount, IRCurrency = ''EUR'', IRIdem = ''topup:'' @ i,
      IRMeta = [(''intent_id'', i), (''user_id'', user), (''purpose'', ''wallet_topup'')],
      IRDescription = ''KREJT Wallet top-up''\<rparr>"

text \<open>
  Step 2 of \<open>CreateTopUp\<close>: the provider is asked for the inserted intent \<open>i\<close>. Its identifier is unique
  in the table, its status is checked; the client gets the intent and the provider's secret.
\<close>

definition start_intent :: "provider \<Rightarrow> time \<Rightarrow> uuid \<Rightarrow> uuid \<Rightarrow> int \<Rightarrow> (payments_db, err, intent \<times> string) op" where
  "start_intent pv dnow user i amount s =
     (case PCreate pv (topup_request user i amount) of
        Inl Disabled \<Rightarrow> (Inl ErrTopUpClosed, s)
      | Inl _ \<Rightarrow>
          (Inl ErrProviderDown, s\<lparr>intents := upd_where (\<lambda>x. pi_id x = i \<and> pi_status x = ''created'')
             (\<lambda>x. x\<lparr>pi_status := ''failed'', pi_failure := Some ''provider_error'', pi_updated := dnow\<rparr>) (intents s)\<rparr>)
      | Inr res \<Rightarrow>
          if IStatus res \<notin> set intent_statuses then (Inl PgCheck, s)
          else if exists_where (\<lambda>x. pi_id x \<noteq> i \<and> pi_pid x = Some (ProviderIntentID res)) (intents s) then (Inl PgUnique, s)
          else
            let s1 = s\<lparr>intents := upd_where (\<lambda>x. pi_id x = i)
                  (\<lambda>x. x\<lparr>pi_pid := Some (ProviderIntentID res), pi_status := IStatus res, pi_updated := dnow\<rparr>) (intents s)\<rparr>
            in (case find (\<lambda>x. pi_id x = i) (intents s1) of
                  None \<Rightarrow> (Inl NoRows, s1)
                | Some x \<Rightarrow> (Inr (x, ClientSecret res),
                    p_audit (Some user) ''wallet.topup_started'' ''payment_intent'' i
                      [(''amount_minor'', JInt amount), (''provider'', JStr (PName pv))] s1)))"

text \<open>
  \<open>CreateTopUp\<close>. The list holds the identifiers the database generates: a unique violation of the
  insert (the key cannot clash here, so only the identifier) makes the code start over.
\<close>

fun CreateTopUp :: "provider \<Rightarrow> bool \<Rightarrow> time \<Rightarrow> uuid list \<Rightarrow> uuid \<Rightarrow> string \<Rightarrow> int \<Rightarrow> (payments_db, err, intent \<times> string) op" where
  "CreateTopUp pv enabled dnow ids user idemKey amount s =
     (let idem = TrimSpace idemKey in
      if idem = [] \<or> length idem > 100 then (Inl (ErrValidation [(''idempotency_key'', ''required'')]), s)
      else if amount < MinTopUpMinor \<or> amount > MaxTopUpMinor \<or> rem amount 50 \<noteq> 0 then (Inl ErrAmount, s)
      else if \<not> enabled then (Inl ErrTopUpDisabled, s)
      else case find (\<lambda>x. pi_user x = user \<and> pi_idem x = idem) (intents s) of
        Some x \<Rightarrow> if pi_amount x \<noteq> amount then (Inl ErrIdempotency, s) else (Inr (x, []), s)
      | None \<Rightarrow>
          if add64 (topup_today dnow user (intents s)) amount > DailyTopUpMinor then (Inl ErrDailyLimit, s)
          else case ids of
            [] \<Rightarrow> (Inl PgUnique, s)
          | i # rest \<Rightarrow>
              if exists_where (\<lambda>x. pi_id x = i) (intents s)
              then CreateTopUp pv enabled dnow rest user idemKey amount s
              else start_intent pv dnow user i amount
                (s\<lparr>intents := intents s @
                   [\<lparr>pi_id = i, pi_user = user, pi_purpose = ''wallet_topup'', pi_amount = amount, pi_currency = ''EUR'',
                     pi_provider = PName pv, pi_pid = None, pi_status = ''created'', pi_failure = None, pi_idem = idem,
                     pi_created = dnow, pi_updated = dnow, pi_succeeded = None\<rparr>]\<rparr>))"

declare CreateTopUp.simps [simp del]

definition GetIntent :: "uuid \<Rightarrow> uuid \<Rightarrow> payments_db \<Rightarrow> err + intent" where
  "GetIntent user i s =
     (case find (\<lambda>x. pi_id x = i \<and> pi_user x = user) (intents s) of None \<Rightarrow> Inl ErrNotFound | Some x \<Rightarrow> Inr x)"

section \<open>Webhooks\<close>

definition topup_tx :: "uuid \<Rightarrow> uuid \<Rightarrow> int \<Rightarrow> string \<Rightarrow> transaction" where
  "topup_tx i user amount cur =
     \<lparr>Kind = ''wallet_topup_card'', Reference = ''payment_intent:'' @ i, IdempotencyKey = ''topup:'' @ i,
      TxCurrency = cur, Postings = [debit ''krejt:card_clearing'' amount, credit (UserWalletCode user) amount]\<rparr>"

definition credit_tx :: "time \<Rightarrow> uuid \<Rightarrow> uuid \<Rightarrow> int \<Rightarrow> string \<Rightarrow> (payments_db, err, unit) op" where
  "credit_tx dnow i user amount cur s =
     (if \<not> exists_where (\<lambda>x. pi_id x = i \<and> pi_status x \<noteq> ''succeeded'') (intents s) then (Inr (), s)
      else
        let s1 = s\<lparr>intents := upd_where (\<lambda>x. pi_id x = i \<and> pi_status x \<noteq> ''succeeded'')
                   (\<lambda>x. x\<lparr>pi_status := ''succeeded'', pi_succeeded := Some dnow, pi_updated := dnow\<rparr>) (intents s)\<rparr>;
            s2 = p_audit None ''wallet.topup_succeeded'' ''payment_intent'' i
                   [(''amount_minor'', JInt amount), (''user_id'', JStr user)] s1
        in (Inr (), s2\<lparr>p_core := (p_core s2)\<lparr>outbox := Emit dnow ''wallet'' user ''WalletToppedUp''
              [(''user_id'', JStr user), (''intent_id'', JStr i), (''amount_minor'', JInt amount), (''currency'', JStr cur)]
              (outbox (p_core s2))\<rparr>\<rparr>))"

definition credit_wallet :: "time \<Rightarrow> uuid \<Rightarrow> uuid \<Rightarrow> uuid \<Rightarrow> int \<Rightarrow> string \<Rightarrow> (payments_db, err, unit) op" where
  "credit_wallet dnow txi i user amount cur s =
     (let s1 = s\<lparr>p_core := EnsureAccount (UserWalletCode user) ''user'' (Some user) ''liability'' cur (p_core s)\<rparr>
      in case p_post dnow txi (topup_tx i user amount cur) s1 of
           (Inl e, s2) \<Rightarrow> (Inl e, s2)
         | (Inr _, s2) \<Rightarrow> begin_func (credit_tx dnow i user amount cur) s2)"

text \<open>\<open>apply\<close>: what an event that was not seen before does. \<open>txi\<close> is the identifier of a ledger transaction.\<close>

definition refund_status_of :: "string \<Rightarrow> string" where
  "refund_status_of st = (if st = ''succeeded'' then ''succeeded''
     else if st = ''failed'' \<or> st = ''canceled'' then ''failed'' else ''pending'')"

definition apply_status :: "time \<Rightarrow> uuid \<Rightarrow> webhook_event \<Rightarrow> intent \<Rightarrow> (payments_db, err, unit) op" where
  "apply_status dnow txi ev x s =
     (if EvStatus ev = ''succeeded'' then
        if EvAmount ev \<noteq> pi_amount x \<or> (EvCurrency ev \<noteq> [] \<and> EvCurrency ev \<noteq> pi_currency x) then
          set_intent (\<lambda>y. pi_id y = pi_id x \<and> pi_status y \<noteq> ''succeeded'')
            (\<lambda>y. y\<lparr>pi_status := ''failed'', pi_failure := Some ''amount_mismatch'', pi_updated := dnow\<rparr>) s
        else credit_wallet dnow txi (pi_id x) (pi_user x) (pi_amount x) (pi_currency x) s
      else if EvStatus ev = ''canceled'' then
        set_intent (\<lambda>y. pi_id y = pi_id x \<and> pi_status y \<notin> {''succeeded'', ''canceled''})
          (\<lambda>y. y\<lparr>pi_status := ''canceled'', pi_updated := dnow\<rparr>) s
      else if EvFailure ev \<noteq> [] then
        set_intent (\<lambda>y. pi_id y = pi_id x \<and> pi_status y \<notin> {''succeeded'', ''canceled''})
          (\<lambda>y. y\<lparr>pi_status := ''failed'', pi_failure := Some (EvFailure ev), pi_updated := dnow\<rparr>) s
      else
        set_intent (\<lambda>y. pi_id y = pi_id x \<and> pi_status y \<notin> {''succeeded'', ''canceled'', ''failed''})
          (\<lambda>y. y\<lparr>pi_status := EvStatus ev, pi_updated := dnow\<rparr>) s)"

definition apply_event :: "provider \<Rightarrow> time \<Rightarrow> uuid \<Rightarrow> webhook_event \<Rightarrow> (payments_db, err, unit) op" where
  "apply_event pv dnow txi ev s =
     (if EvRefund ev \<noteq> [] then
        (Inr (), s\<lparr>refunds := upd_where (\<lambda>r. rf_pid r = Some (EvRefund ev))
           (\<lambda>r. r\<lparr>rf_status := refund_status_of (EvStatus ev)\<rparr>) (refunds s)\<rparr>)
      else if EvIntent ev = [] then (Inr (), s)
      else case find (\<lambda>x. pi_pid x = Some (EvIntent ev)) (intents s) of
        None \<Rightarrow> (Inr (), s)
      | Some x \<Rightarrow> apply_status dnow txi ev x
          (s\<lparr>webhook_rows := upd_where (\<lambda>w. wh_provider w = PName pv \<and> wh_event w = EvID ev)
               (\<lambda>w. w\<lparr>wh_intent := Some (pi_id x)\<rparr>) (webhook_rows s)\<rparr>))"

definition HandleWebhook :: "provider \<Rightarrow> time \<Rightarrow> time \<Rightarrow> uuid \<Rightarrow> string \<Rightarrow> string \<Rightarrow> (payments_db, err, unit) op" where
  "HandleWebhook pv gnow dnow txi body signature s =
     (case PParse pv body signature gnow of
        Inl BadSignature \<Rightarrow> (Inl ErrBadSignature, s)
      | Inl _ \<Rightarrow> (Inl ErrValidation0, s)
      | Inr ev \<Rightarrow>
          if EvID ev = [] then (Inl (ErrValidation [(''event'', ''missing_id'')]), s)
          else if exists_where (\<lambda>w. wh_provider w = PName pv \<and> wh_event w = EvID ev) (webhook_rows s) then (Inr (), s)
          else
            let s1 = s\<lparr>webhook_rows := webhook_rows s @
                   [\<lparr>wh_provider = PName pv, wh_event = EvID ev, wh_type = EvType ev, wh_intent = None,
                     wh_received = dnow, wh_processed = None, wh_error = None\<rparr>]\<rparr>;
                (r, s2) = apply_event pv dnow txi ev s1
            in (r, s2\<lparr>webhook_rows := upd_where (\<lambda>w. wh_provider w = PName pv \<and> wh_event w = EvID ev)
                   (\<lambda>w. w\<lparr>wh_processed := Some dnow, wh_error := (case r of Inl e \<Rightarrow> Some e | Inr _ \<Rightarrow> None)\<rparr>)
                   (webhook_rows s2)\<rparr>))"

section \<open>Refunds\<close>

definition refunded_of :: "uuid \<Rightarrow> refund_row list \<Rightarrow> int" where
  "refunded_of i = sum_where (\<lambda>r. rf_intent r = i \<and> rf_status r \<noteq> ''failed'') rf_amount"

definition refund_tx :: "uuid \<Rightarrow> uuid \<Rightarrow> int \<Rightarrow> string \<Rightarrow> transaction" where
  "refund_tx rid user amount cur =
     \<lparr>Kind = ''wallet_topup_refund'', Reference = ''refund:'' @ rid, IdempotencyKey = ''refund:'' @ rid,
      TxCurrency = cur, Postings = [debit (UserWalletCode user) amount, credit ''krejt:card_clearing'' amount]\<rparr>"

definition reversal_tx :: "uuid \<Rightarrow> uuid \<Rightarrow> int \<Rightarrow> string \<Rightarrow> transaction" where
  "reversal_tx rid user amount cur =
     \<lparr>Kind = ''wallet_topup_refund_reversal'', Reference = ''refund:'' @ rid, IdempotencyKey = (''refund:'' @ rid) @ '':reversal'',
      TxCurrency = cur, Postings = [debit ''krejt:card_clearing'' amount, credit (UserWalletCode user) amount]\<rparr>"

text \<open>
  After the checks: the row, the ledger and then the provider. \<open>rid\<close> is \<open>uuid.New()\<close>; \<open>t1\<close> and \<open>t2\<close> are
  identifiers of ledger transactions. The signal to the fraud rules at the end, whose result is
  ignored, is \<open>RefundPattern\<close> of that module.
\<close>

definition refund_body ::
  "provider \<Rightarrow> time \<Rightarrow> uuid \<Rightarrow> uuid \<Rightarrow> uuid \<Rightarrow> uuid \<Rightarrow> intent \<Rightarrow> string \<Rightarrow> int \<Rightarrow> string \<Rightarrow> (payments_db, err, uuid) op" where
  "refund_body pv dnow rid t1 t2 finance x pid amount reason s =
     (let idem = ''refund:'' @ rid; cur = pi_currency x; user = pi_user x in
      if exists_where (\<lambda>r. rf_id r = rid \<or> rf_idem r = idem) (refunds s) then (Inl PgUnique, s)
      else
        let s1 = s\<lparr>refunds := refunds s @ [\<lparr>rf_id = rid, rf_intent = pi_id x, rf_amount = amount, rf_reason = reason,
                   rf_pid = None, rf_status = ''pending'', rf_by = finance, rf_idem = idem\<rparr>]\<rparr>
        in case p_post dnow t1 (refund_tx rid user amount cur) s1 of
             (Inl e, s2) \<Rightarrow> (Inl e, s2)
           | (Inr _, s2) \<Rightarrow>
               (case PRefund pv \<lparr>RRIntent = pid, RRAmount = amount, RRIdem = idem, RRReason = reason\<rparr> of
                  Inl _ \<Rightarrow>
                    let s3 = s2\<lparr>refunds := upd_where (\<lambda>r. rf_id r = rid) (\<lambda>r. r\<lparr>rf_status := ''failed''\<rparr>) (refunds s2)\<rparr>
                    in (Inl ErrProviderDown, snd (p_post dnow t2 (reversal_tx rid user amount cur) s3))
                | Inr res \<Rightarrow>
                    if RStatus res \<notin> set refund_statuses then (Inl PgCheck, s2)
                    else if exists_where (\<lambda>r. rf_id r \<noteq> rid \<and> rf_pid r = Some (ProviderRefundID res)) (refunds s2)
                    then (Inl PgUnique, s2)
                    else (Inr rid, p_audit (Some finance) ''wallet.refund'' ''payment_refund'' rid
                            [(''amount_minor'', JInt amount), (''reason'', JStr reason), (''user_id'', JStr user)]
                            (s2\<lparr>refunds := upd_where (\<lambda>r. rf_id r = rid)
                               (\<lambda>r. r\<lparr>rf_pid := Some (ProviderRefundID res), rf_status := RStatus res\<rparr>) (refunds s2)\<rparr>))))"

definition Refund ::
  "provider \<Rightarrow> time \<Rightarrow> uuid \<Rightarrow> uuid \<Rightarrow> uuid \<Rightarrow> uuid \<Rightarrow> uuid \<Rightarrow> int \<Rightarrow> string \<Rightarrow> (payments_db, err, uuid) op" where
  "Refund pv dnow rid t1 t2 finance intentID amount reason0 s =
     (let reason = squash reason0 in
      if amount \<le> 0 \<or> reason = [] \<or> RuneCount reason > 300
      then (Inl (ErrValidation [(''amount_minor'', ''invalid''), (''reason'', ''required'')]), s)
      else case find (\<lambda>x. pi_id x = intentID) (intents s) of
        None \<Rightarrow> (Inl ErrNotFound, s)
      | Some x \<Rightarrow>
          (case pi_pid x of
             None \<Rightarrow> (Inl ErrNotRefundable, s)
           | Some pid \<Rightarrow>
               if pi_status x \<noteq> ''succeeded'' \<or> add64 (refunded_of intentID (refunds s)) amount > pi_amount x
               then (Inl ErrNotRefundable, s)
               else (case Balance (UserWalletCode (pi_user x)) (p_core s) of
                       Inl e \<Rightarrow> (Inl e, s)
                     | Inr b \<Rightarrow>
                         if Minor b < amount
                         then (Inl (WithFields [(''wallet'', ''insufficient_balance'')] ErrNotRefundable), s)
                         else refund_body pv dnow rid t1 t2 finance x pid amount reason s)))"

section \<open>Webhooks credit a top-up once\<close>

abbreviation topup_key :: "uuid \<Rightarrow> string" where "topup_key i \<equiv> ''topup:'' @ i"

lemma p_audit_frame [frame_simps]:
  "intents (p_audit a b c d e s) = intents s" "refunds (p_audit a b c d e s) = refunds s"
  "webhook_rows (p_audit a b c d e s) = webhook_rows s"
  "accounts (p_core (p_audit a b c d e s)) = accounts (p_core s)"
  "ltxs (p_core (p_audit a b c d e s)) = ltxs (p_core s)"
  "entries (p_core (p_audit a b c d e s)) = entries (p_core s)"
  by (simp_all add: p_audit_def)

lemma core_money:
  assumes "accounts c = accounts d" "ltxs c = ltxs d" "entries c = entries d"
  shows "ledger_inv c = ledger_inv d" "bal a c = bal a d" "posted k c = posted k d"
  using assms by (simp_all add: ledger_inv_def bal_def posted_def)

lemma p_audit_money [simp]:
  "ledger_inv (p_core (p_audit a b c d e s)) = ledger_inv (p_core s)"
  "bal x (p_core (p_audit a b c d e s)) = bal x (p_core s)"
  "posted k (p_core (p_audit a b c d e s)) = posted k (p_core s)"
  by (simp_all add: p_audit_def)

lemma set_intent_core [simp]: "p_core (snd (set_intent P f s)) = p_core s"
  by (simp add: set_intent_def)

lemma credit_tx_money [simp]:
  "ledger_inv (p_core (snd (credit_tx dnow i u n cur s))) = ledger_inv (p_core s)"
  "bal x (p_core (snd (credit_tx dnow i u n cur s))) = bal x (p_core s)"
  "posted k (p_core (snd (credit_tx dnow i u n cur s))) = posted k (p_core s)"
  by (simp_all add: credit_tx_def Let_def)

lemma begin_credit_tx [simp]: "begin_func (credit_tx dnow i u n cur) s = credit_tx dnow i u n cur s"
  by (simp add: begin_func_def credit_tx_def Let_def)

text \<open>The wallet and the clearing account move by the amount when the key is new, and by nothing else.\<close>

definition credits :: "intent \<Rightarrow> core \<Rightarrow> core \<Rightarrow> bool" where
  "credits x c c' \<longleftrightarrow> \<not> posted (topup_key (pi_id x)) c \<and>
     (\<forall>k. posted k c' \<longleftrightarrow> posted k c \<or> k = topup_key (pi_id x)) \<and>
     (\<forall>a. bal a c' = bal a c + (if a = UserWalletCode (pi_user x) then pi_amount x else 0)
                            - (if a = ''krejt:card_clearing'' then pi_amount x else 0))"

definition same_money :: "core \<Rightarrow> core \<Rightarrow> bool" where
  "same_money c c' \<longleftrightarrow> (\<forall>a. bal a c' = bal a c) \<and> (\<forall>k. posted k c' \<longleftrightarrow> posted k c)"

lemma same_money_refl [simp]: "same_money c c"
  by (simp add: same_money_def)

lemma Post_credits:
  fixes x :: intent and c :: core
  defines "tx \<equiv> topup_tx (pi_id x) (pi_user x) (pi_amount x) (pi_currency x)"
  shows "same_money c (snd (Post dnow i tx c)) \<or> credits x c (snd (Post dnow i tx c))"
proof (cases "posted (topup_key (pi_id x)) c \<or> (\<exists>e. fst (Post dnow i tx c) = Inl e)")
  case True
  then have "snd (Post dnow i tx c) = c"
    using lg.post_error[of "(dnow, i)" tx c] lg.post_replay[of tx c "(dnow, i)"] by (auto simp: tx_def topup_tx_def)
  then show ?thesis by simp
next
  case False
  then obtain j where j: "fst (Post dnow i tx c) = Inr j" by (cases "fst (Post dnow i tx c)") auto
  have k: "IdempotencyKey tx = topup_key (pi_id x)" by (simp add: tx_def topup_tx_def)
  have np: "\<not> posted (IdempotencyKey tx) c" using False k by simp
  have p: "posted k' (snd (Post dnow i tx c)) \<longleftrightarrow> posted k' c \<or> k' = topup_key (pi_id x)" for k'
  proof (cases rule: Post_cases[of dnow i tx c])
    case (fresh cur)
    then show ?thesis using k by (auto simp: posted_def)
  next
    case (replay t)
    then show ?thesis using np postedI[OF replay(1,2)] by simp
  qed (use j in simp)
  have "credits x c (snd (Post dnow i tx c))"
    using False p bal_Post_fresh[OF np j] by (auto simp: credits_def tx_def topup_tx_def table_simps)
  then show ?thesis by simp
qed

lemma credit_wallet_money:
  fixes x :: intent and s :: payments_db and dnow :: time and txi :: uuid
  defines "s' \<equiv> snd (credit_wallet dnow txi (pi_id x) (pi_user x) (pi_amount x) (pi_currency x) s)"
  shows "same_money (p_core s) (p_core s') \<or> credits x (p_core s) (p_core s')"
    and "ledger_inv (p_core s) \<Longrightarrow> ledger_inv (p_core s')"
proof -
  let ?c = "EnsureAccount (UserWalletCode (pi_user x)) ''user'' (Some (pi_user x)) ''liability'' (pi_currency x) (p_core s)"
  let ?P = "Post dnow txi (topup_tx (pi_id x) (pi_user x) (pi_amount x) (pi_currency x)) ?c"
  have m: "bal a (p_core s') = bal a (snd ?P)" "posted k (p_core s') = posted k (snd ?P)"
    "ledger_inv (p_core s') = ledger_inv (snd ?P)" for a k
    by (auto simp: s'_def credit_wallet_def p_post_def Let_def split: sum.splits)
  show "same_money (p_core s) (p_core s') \<or> credits x (p_core s) (p_core s')"
    using Post_credits[where x = x and dnow = dnow and i = txi and c = ?c] by (simp add: same_money_def credits_def m)
  show "ledger_inv (p_core s) \<Longrightarrow> ledger_inv (p_core s')"
    by (simp add: m Post_inv EnsureAccount_inv)
qed

lemma apply_event_cases:
  obtains (keep) "p_core (snd (apply_event pv dnow txi ev s)) = p_core s"
  | (pay) x s1 where "x \<in> set (intents s)" "pi_pid x = Some (EvIntent ev)" "EvStatus ev = ''succeeded''"
      "EvAmount ev = pi_amount x" "p_core s1 = p_core s" "intents s1 = intents s"
      "apply_event pv dnow txi ev s = credit_wallet dnow txi (pi_id x) (pi_user x) (pi_amount x) (pi_currency x) s1"
proof (cases "find (\<lambda>x. pi_pid x = Some (EvIntent ev)) (intents s)")
  case None
  then show ?thesis by (intro keep) (simp add: apply_event_def)
next
  case (Some x)
  let ?s1 = "s\<lparr>webhook_rows := upd_where (\<lambda>w. wh_provider w = PName pv \<and> wh_event w = EvID ev)
               (\<lambda>w. w\<lparr>wh_intent := Some (pi_id x)\<rparr>) (webhook_rows s)\<rparr>"
  show ?thesis
  proof (cases "EvRefund ev = [] \<and> EvIntent ev \<noteq> [] \<and> EvStatus ev = ''succeeded'' \<and> EvAmount ev = pi_amount x \<and>
      (EvCurrency ev = [] \<or> EvCurrency ev = pi_currency x)")
    case True
    then show ?thesis using find_SomeD[OF Some] by (intro pay[of x ?s1]) (auto simp: apply_event_def apply_status_def Some)
  next
    case False
    then show ?thesis by (intro keep) (auto simp: apply_event_def apply_status_def Some)
  qed
qed

lemma apply_event_money:
  "same_money (p_core s) (p_core (snd (apply_event pv dnow txi ev s))) \<or>
   (\<exists>x \<in> set (intents s). EvStatus ev = ''succeeded'' \<and> pi_pid x = Some (EvIntent ev) \<and> EvAmount ev = pi_amount x \<and>
      credits x (p_core s) (p_core (snd (apply_event pv dnow txi ev s))))"
  "ledger_inv (p_core s) \<Longrightarrow> ledger_inv (p_core (snd (apply_event pv dnow txi ev s)))"
proof -
  show "same_money (p_core s) (p_core (snd (apply_event pv dnow txi ev s))) \<or>
   (\<exists>x \<in> set (intents s). EvStatus ev = ''succeeded'' \<and> pi_pid x = Some (EvIntent ev) \<and> EvAmount ev = pi_amount x \<and>
      credits x (p_core s) (p_core (snd (apply_event pv dnow txi ev s))))"
  proof (cases rule: apply_event_cases[of pv dnow txi ev s])
    case (pay x s1)
    then show ?thesis using credit_wallet_money(1)[of s1 dnow txi x] by auto
  qed simp
  show "ledger_inv (p_core s) \<Longrightarrow> ledger_inv (p_core (snd (apply_event pv dnow txi ev s)))"
    by (cases rule: apply_event_cases[of pv dnow txi ev s]) (simp_all add: credit_wallet_money(2))
qed

lemma HandleWebhook_money:
  fixes s :: payments_db
  shows "same_money (p_core s) (p_core (snd (HandleWebhook pv gnow dnow txi body sg s))) \<or>
    (\<exists>x ev. x \<in> set (intents s) \<and> PParse pv body sg gnow = Inr ev \<and> EvStatus ev = ''succeeded'' \<and>
       pi_pid x = Some (EvIntent ev) \<and> EvAmount ev = pi_amount x \<and>
       credits x (p_core s) (p_core (snd (HandleWebhook pv gnow dnow txi body sg s))))"
    and "ledger_inv (p_core s) \<Longrightarrow> ledger_inv (p_core (snd (HandleWebhook pv gnow dnow txi body sg s)))"
proof -
  let ?s' = "snd (HandleWebhook pv gnow dnow txi body sg s)"
  have "p_core ?s' = p_core s \<or>
      (\<exists>ev s1. PParse pv body sg gnow = Inr ev \<and> p_core s1 = p_core s \<and> intents s1 = intents s \<and>
         p_core ?s' = p_core (snd (apply_event pv dnow txi ev s1)))"
    by (auto simp: HandleWebhook_def Let_def split: sum.splits provider_err.splits prod.splits)
      (metis (no_types, lifting) payments_db.select_convs(1,4) payments_db.surjective payments_db.update_convs(2) snd_conv)+
  then show "same_money (p_core s) (p_core ?s') \<or> (\<exists>x ev. x \<in> set (intents s) \<and> PParse pv body sg gnow = Inr ev \<and>
       EvStatus ev = ''succeeded'' \<and> pi_pid x = Some (EvIntent ev) \<and> EvAmount ev = pi_amount x \<and> credits x (p_core s) (p_core ?s'))"
    and "ledger_inv (p_core s) \<Longrightarrow> ledger_inv (p_core ?s')"
    using apply_event_money(1)[of _ pv dnow txi] apply_event_money(2)[of _ pv dnow txi] by (auto; metis)+
qed

text \<open>Webhooks do not change which intents there are, whose they are and for how much.\<close>

definition topups :: "payments_db \<Rightarrow> (uuid \<times> uuid \<times> int) list" where
  "topups s = map (\<lambda>x. (pi_id x, pi_user x, pi_amount x)) (intents s)"

lemma topups_set_intent:
  "(\<And>x. (pi_id (f x), pi_user (f x), pi_amount (f x)) = (pi_id x, pi_user x, pi_amount x)) \<Longrightarrow>
   topups (snd (set_intent P f s)) = topups s"
  by (simp add: set_intent_def topups_def)

lemma topups_credit_wallet: "topups (snd (credit_wallet dnow txi i u n cur s)) = topups s"
  by (simp add: credit_wallet_def p_post_def credit_tx_def topups_def Let_def frame_simps split: sum.splits)

lemma topups_apply_event: "topups (snd (apply_event pv dnow txi ev s)) = topups s"
proof (cases "find (\<lambda>x. pi_pid x = Some (EvIntent ev)) (intents s)")
  case None
  then show ?thesis by (simp add: apply_event_def topups_def)
next
  case (Some x)
  have t: "topups (snd (apply_status dnow txi ev x s1)) = topups s1" for s1
    by (simp add: apply_status_def topups_set_intent topups_credit_wallet)
  show ?thesis by (simp add: apply_event_def Some t) (simp add: topups_def)
qed

lemma topups_HandleWebhook: "topups (snd (HandleWebhook pv gnow dnow txi body sg s)) = topups s"
proof -
  have w: "topups (t\<lparr>webhook_rows := w\<rparr>) = topups t" for t w by (simp add: topups_def)
  show ?thesis
    using topups_apply_event
    by (auto simp: HandleWebhook_def Let_def w split: sum.splits provider_err.splits prod.splits) (metis snd_conv w)+
qed

text \<open>Deliveries: each has its provider, the clocks, a fresh identifier, the body and the signature.\<close>

fun deliver :: "(provider \<times> time \<times> time \<times> uuid \<times> string \<times> string) list \<Rightarrow> payments_db \<Rightarrow> payments_db" where
  "deliver [] s = s"
| "deliver ((pv, gnow, dnow, txi, body, sg) # ds) s = deliver ds (snd (HandleWebhook pv gnow dnow txi body sg s))"

definition confirmed :: "core \<Rightarrow> core \<Rightarrow> uuid \<Rightarrow> (uuid \<times> uuid \<times> int) \<Rightarrow> bool" where
  "confirmed c c' u t \<longleftrightarrow> fst (snd t) = u \<and> \<not> posted (topup_key (fst t)) c \<and> posted (topup_key (fst t)) c'"

abbreviation amount_of :: "uuid \<times> uuid \<times> int \<Rightarrow> int" where "amount_of t \<equiv> snd (snd t)"

lemma sum_where_key:
  assumes "distinct (map k t)" "x \<in> set t"
  shows "sum_where (\<lambda>y. k y = k x \<and> Q y) f t = (if Q x then f x else 0)"
  using assms
proof (induction t)
  case (Cons a t)
  show ?case
  proof (cases "a = x")
    case True
    with Cons.prems have "sum_where (\<lambda>y. k y = k x \<and> Q y) f t = 0"
      by (intro sum_where_False) (auto simp: image_iff)
    with True show ?thesis by (simp add: table_simps)
  next
    case False
    with Cons show ?thesis by (auto simp: table_simps)
  qed
qed simp

lemma sum_where_map: "sum_where P f (map g t) = sum_where (\<lambda>x. P (g x)) (\<lambda>x. f (g x)) t"
  by (induction t) (auto simp: table_simps)

lemma sum_where_split:
  "\<forall>x \<in> set t. (P x \<longleftrightarrow> Q x \<or> R x) \<and> \<not> (Q x \<and> R x) \<Longrightarrow>
   sum_where P f t = sum_where Q f t + sum_where R f t"
  by (induction t) (auto simp: table_simps)

lemma delivery_step:
  fixes pv :: provider and gnow dnow :: time and txi :: uuid and body sg :: string
  assumes "distinct (map fst (topups s))"
  defines "s' \<equiv> snd (HandleWebhook pv gnow dnow txi body sg s)"
  shows "bal (UserWalletCode u) (p_core s') = bal (UserWalletCode u) (p_core s) +
      sum_where (confirmed (p_core s) (p_core s') u) amount_of (topups s)"
    and "posted k (p_core s) \<Longrightarrow> posted k (p_core s')"
proof -
  have *: "same_money (p_core s) (p_core s') \<or> (\<exists>x \<in> set (intents s). credits x (p_core s) (p_core s'))"
    using HandleWebhook_money(1)[of s pv gnow dnow txi body sg] unfolding s'_def by blast
  then show "posted k (p_core s) \<Longrightarrow> posted k (p_core s')" by (auto simp: same_money_def credits_def)
  from * show "bal (UserWalletCode u) (p_core s') = bal (UserWalletCode u) (p_core s) +
      sum_where (confirmed (p_core s) (p_core s') u) amount_of (topups s)"
  proof
    assume "same_money (p_core s) (p_core s')"
    moreover from this have "sum_where (confirmed (p_core s) (p_core s') u) amount_of (topups s) = 0"
      by (intro sum_where_False) (auto simp: same_money_def confirmed_def)
    ultimately show ?thesis by (simp add: same_money_def)
  next
    assume "\<exists>x \<in> set (intents s). credits x (p_core s) (p_core s')"
    then obtain x where x: "x \<in> set (intents s)" and c: "credits x (p_core s) (p_core s')" by blast
    let ?t = "(pi_id x, pi_user x, pi_amount x)"
    have t: "?t \<in> set (topups s)" using x by (auto simp: topups_def)
    have "confirmed (p_core s) (p_core s') u = (\<lambda>y. fst y = fst ?t \<and> fst (snd y) = u)"
      using c by (auto simp: confirmed_def credits_def fun_eq_iff)
    then have "sum_where (confirmed (p_core s) (p_core s') u) amount_of (topups s) = (if pi_user x = u then pi_amount x else 0)"
      using sum_where_key[OF assms(1) t, of "\<lambda>y. fst (snd y) = u" amount_of] by simp
    with c show ?thesis by (simp add: credits_def UserWalletCode_def)
  qed
qed

text \<open>
  C10. However often, in whatever order and with whatever contents webhooks are delivered, forged,
  repeated or late ones included: the wallet of a user grows by exactly the amounts of the user's
  top-ups that were confirmed in the ledger meanwhile, each counted once.
\<close>
theorem deliveries_credit_once:
  assumes "distinct (map pi_id (intents s))"
  shows "bal (UserWalletCode u) (p_core (deliver ds s)) = bal (UserWalletCode u) (p_core s) +
     sum_where (\<lambda>x. pi_user x = u \<and> \<not> posted (topup_key (pi_id x)) (p_core s) \<and>
       posted (topup_key (pi_id x)) (p_core (deliver ds s))) pi_amount (intents s)"
proof -
  have "distinct (map fst (topups s)) \<Longrightarrow> topups (deliver ds s) = topups s \<and>
      bal (UserWalletCode u) (p_core (deliver ds s)) = bal (UserWalletCode u) (p_core s) +
        sum_where (confirmed (p_core s) (p_core (deliver ds s)) u) amount_of (topups s) \<and>
      (\<forall>k. posted k (p_core s) \<longrightarrow> posted k (p_core (deliver ds s)))"
  proof (induction ds s rule: deliver.induct)
    case (1 s)
    have "sum_where (confirmed (p_core s) (p_core s) u) amount_of (topups s) = 0"
      by (intro sum_where_False) (simp add: confirmed_def)
    then show ?case by simp
  next
    case (2 pv gnow dnow txi body sg ds s)
    let ?s1 = "snd (HandleWebhook pv gnow dnow txi body sg s)"
    let ?s2 = "deliver ds ?s1"
    have t: "topups ?s1 = topups s" by (rule topups_HandleWebhook)
    note step = delivery_step[OF 2(2), where pv = pv and gnow = gnow and dnow = dnow and txi = txi and body = body and sg = sg]
    note ih = 2(1)[unfolded t, OF 2(2)]
    have "sum_where (confirmed (p_core s) (p_core ?s2) u) amount_of (topups s) =
        sum_where (confirmed (p_core s) (p_core ?s1) u) amount_of (topups s) +
        sum_where (confirmed (p_core ?s1) (p_core ?s2) u) amount_of (topups s)"
      using step(2) ih by (intro sum_where_split) (auto simp: confirmed_def)
    then show ?case using step ih by simp
  qed
  moreover have "sum_where (confirmed c c' u) amount_of (topups s) = sum_where (\<lambda>x. pi_user x = u \<and>
      \<not> posted (topup_key (pi_id x)) c \<and> posted (topup_key (pi_id x)) c') pi_amount (intents s)" for c c'
    by (simp add: topups_def sum_where_map confirmed_def)
  ultimately show ?thesis using assms by (simp add: topups_def comp_def)
qed

definition demo_intent :: intent where
  "demo_intent = \<lparr>pi_id = ''i1'', pi_user = ''u1'', pi_purpose = ''wallet_topup'', pi_amount = 500, pi_currency = ''EUR'',
     pi_provider = ''stripe'', pi_pid = Some ''pi_1'', pi_status = ''created'', pi_failure = None, pi_idem = ''k1'',
     pi_created = 0, pi_updated = 0, pi_succeeded = None\<rparr>"

definition demo_payments :: payments_db where
  "demo_payments = \<lparr>intents = [demo_intent], webhook_rows = [], refunds = [],
     p_core = \<lparr>accounts = [\<lparr>ac_code = ''krejt:card_clearing'', ac_owner_type = ''krejt'', ac_owner_id = None,
       ac_kind = ''asset'', ac_currency = ''EUR''\<rparr>], ltxs = [], entries = [], outbox = [], audit = []\<rparr>\<rparr>"

definition demo_event :: webhook_event where
  "demo_event = \<lparr>EvID = [], EvType = ''payment_intent.succeeded'', EvIntent = ''pi_1'', EvRefund = [],
     EvStatus = ''succeeded'', EvAmount = 500, EvCurrency = ''EUR'', EvFailure = []\<rparr>"

text \<open>A provider whose webhook bodies are event identifiers.\<close>

definition demo_provider :: provider where
  "demo_provider = \<lparr>PName = ''stripe'', PCreate = (\<lambda>_. Inr \<lparr>ProviderIntentID = ''pi_2'', ClientSecret = ''s'', IStatus = ''created''\<rparr>),
     PRefund = (\<lambda>_. Inl (ProviderError ''down'')),
     PParse = (\<lambda>body sg now. if sg = ''ok'' then Inr (demo_event\<lparr>EvID := body\<rparr>) else Inl BadSignature)\<rparr>"

theorem deliveries_credit_once_witness:
  "bal (UserWalletCode ''u1'') (p_core (deliver [(demo_provider, 1, 1, ''t1'', ''e1'', ''ok''),
     (demo_provider, 2, 2, ''t2'', ''e1'', ''ok''), (demo_provider, 3, 3, ''t3'', ''e2'', ''ok''),
     (demo_provider, 4, 4, ''t4'', ''e3'', ''bad'')] demo_payments)) = 500"
proof -
  let ?ds = "[(demo_provider, 1, 1, ''t1'', ''e1'', ''ok''), (demo_provider, 2, 2, ''t2'', ''e1'', ''ok''),
    (demo_provider, 3, 3, ''t3'', ''e2'', ''ok''), (demo_provider, 4, 4, ''t4'', ''e3'', ''bad'')]"
  have "distinct (map pi_id (intents demo_payments))" by (simp add: demo_payments_def)
  note once = deliveries_credit_once[OF this, of "''u1''" ?ds]
  have "topup_key ''i1'' \<in> set (map lt_idem (ltxs (p_core (deliver ?ds demo_payments))))" by code_simp
  then have "posted (topup_key ''i1'') (p_core (deliver ?ds demo_payments))" by (simp add: posted_def)
  then show ?thesis unfolding once by (simp add: demo_payments_def demo_intent_def table_simps posted_def bal_def)
qed

text \<open>An event is recorded before it is applied, so a delivery whose application failed is not retried.\<close>

lemma seen_event_is_ignored:
  assumes "PParse pv body sg gnow = Inr ev" "EvID ev \<noteq> []"
    and "exists_where (\<lambda>w. wh_provider w = PName pv \<and> wh_event w = EvID ev) (webhook_rows s)"
  shows "HandleWebhook pv gnow dnow txi body sg s = (Inr (), s)"
  using assms by (simp add: HandleWebhook_def)

lemma webhook_after_failure_is_lost:
  "let s = demo_payments\<lparr>p_core := (p_core demo_payments)\<lparr>accounts := []\<rparr>\<rparr>;
       (r1, s1) = HandleWebhook demo_provider 1 1 ''t1'' ''e1'' ''ok'' s;
       s2 = s1\<lparr>p_core := p_core demo_payments\<rparr>
   in r1 = Inl LedgerAccountMissing \<and> HandleWebhook demo_provider 2 2 ''t2'' ''e1'' ''ok'' s2 = (Inr (), s2)"
  by code_simp

section \<open>Top-up limits\<close>

lemma start_intent_limits:
  assumes "start_intent pv dnow user i n (s\<lparr>intents := intents s @ [x0]\<rparr>) = (Inr (x, sec), s')"
    and "pi_id x0 = i" "pi_user x0 = user" "pi_amount x0 = n" "\<not> exists_where (\<lambda>x. pi_id x = i) (intents s)" "0 < n"
  shows "pi_user x = user \<and> pi_amount x = n \<and> entries (p_core s') = entries (p_core s) \<and>
    topup_today t user (intents s') \<le> topup_today t user (intents s) + n"
proof -
  have u: "upd_where (\<lambda>x. pi_id x = i) f (intents s) = intents s" for f
    using assms(5) by (auto simp: upd_where_def exists_where_iff intro: map_idI)
  have f: "find (\<lambda>x. pi_id x = i) (intents s) = None" using assms(5) by (auto simp: find_None_iff_all exists_where_iff)
  show ?thesis
    using assms(1-4,6) by (auto simp: start_intent_def Let_def u f find_append table_simps topup_today_def p_audit_def
        split: sum.splits provider_err.splits if_splits option.splits)
qed

text \<open>
  A top-up is within the limits and costs nothing yet: when \<open>CreateTopUp\<close> answers with an intent,
  it is the user's own for the amount asked, between 1 and 500 euros in steps of 50 cents; either it
  was there already under that key and nothing changed, or it is new and with it the user's top-ups of
  the last 24 hours stay within 1000 euros. No account moves.
\<close>
theorem CreateTopUp_limits:
  assumes "CreateTopUp pv en dnow ids user k n s = (Inr (x, sec), s')" "in64 (topup_today dnow user (intents s) + n)"
  shows "100 \<le> n \<and> n \<le> 50000 \<and> n mod 50 = 0 \<and> pi_user x = user \<and> pi_amount x = n \<and>
    (s' = s \<and> x \<in> set (intents s) \<or> topup_today dnow user (intents s') \<le> DailyTopUpMinor) \<and>
    (\<forall>c. bal c (p_core s') = bal c (p_core s))"
  using assms
proof (induction pv en dnow ids user k n s rule: CreateTopUp.induct)
  case (1 pv en dnow ids user k n s)
  let ?old = "find (\<lambda>x. pi_user x = user \<and> pi_idem x = TrimSpace k) (intents s)"
  have g: "TrimSpace k \<noteq> []" "\<not> length (TrimSpace k) > 100" "100 \<le> n" "n \<le> 50000" "rem n 50 = 0" "en"
    using 1(2) by (auto simp: CreateTopUp.simps[of pv en] Let_def MinTopUpMinor_def MaxTopUpMinor_def split: if_splits)
  have m: "n mod 50 = 0" using g(3,5) by (simp add: rem_def)
  show ?case
  proof (cases ?old)
    case (Some y)
    with 1(2) g find_SomeD[OF Some] m show ?thesis
      by (auto simp: CreateTopUp.simps[of pv True] Let_def MinTopUpMinor_def MaxTopUpMinor_def split: if_splits)
  next
    case None
    have day: "topup_today dnow user (intents s) + n \<le> DailyTopUpMinor"
      using 1(2,3) g None by (auto simp: CreateTopUp.simps[of pv True] Let_def MinTopUpMinor_def MaxTopUpMinor_def add64_id split: if_splits)
    show ?thesis
    proof (cases ids)
      case Nil
      with 1(2) g None show ?thesis
        by (auto simp: CreateTopUp.simps[of pv True] Let_def MinTopUpMinor_def MaxTopUpMinor_def split: if_splits)
    next
      case (Cons i rest)
      show ?thesis
      proof (cases "exists_where (\<lambda>x. pi_id x = i) (intents s)")
        case True
        with 1(2) g None Cons have "CreateTopUp pv en dnow rest user k n s = (Inr (x, sec), s')"
          by (auto simp: CreateTopUp.simps[of pv True dnow "i # rest"] Let_def MinTopUpMinor_def MaxTopUpMinor_def split: if_splits)
        with 1(1)[OF refl _ _ _ None _ Cons True] 1(3) g m day show ?thesis
          by (simp add: MinTopUpMinor_def MaxTopUpMinor_def add64_id)
      next
        case False
        obtain x0 where "start_intent pv dnow user i n (s\<lparr>intents := intents s @ [x0]\<rparr>) = (Inr (x, sec), s')"
          "pi_id x0 = i" "pi_user x0 = user" "pi_amount x0 = n"
          using 1(2) g None Cons False
          by (auto simp: CreateTopUp.simps[of pv True] Let_def MinTopUpMinor_def MaxTopUpMinor_def split: if_splits)
        from start_intent_limits[OF this False, of dnow] g m day show ?thesis by (auto simp: bal_def)
      qed
    qed
  qed
qed

theorem CreateTopUp_limits_witness:
  "(\<exists>x s'. CreateTopUp demo_provider True 5 [''i1'', ''i2''] ''u2'' ''k'' 500 demo_payments = (Inr (x, ''s''), s') \<and>
     pi_id x = ''i2'' \<and> pi_amount x = 500) \<and>
   fst (CreateTopUp demo_provider True 5 [''i2''] ''u2'' ''k'' 520 demo_payments) = Inl ErrAmount"
proof -
  let ?r = "CreateTopUp demo_provider True 5 [''i1'', ''i2''] ''u2'' ''k'' 500 demo_payments"
  obtain x sec s' where r: "?r = (Inr (x, sec), s')" "pi_id x = ''i2''" "sec = ''s''"
  proof -
    have "(case ?r of (Inr (x, sec), _) \<Rightarrow> pi_id x = ''i2'' \<and> sec = ''s'' | _ \<Rightarrow> False)" by code_simp
    then show ?thesis by (auto split: prod.splits sum.splits intro: that)
  qed
  have "in64 (topup_today 5 ''u2'' (intents demo_payments) + 500)" by code_simp
  from CreateTopUp_limits[OF r(1) this] have "pi_amount x = 500" by blast
  moreover have "fst (CreateTopUp demo_provider True 5 [''i2''] ''u2'' ''k'' 520 demo_payments) = Inl ErrAmount" by code_simp
  ultimately show ?thesis using r by blast
qed

section \<open>Refunds take exactly what the provider gives back\<close>

abbreviation refund_key :: "uuid \<Rightarrow> string" where "refund_key r \<equiv> ''refund:'' @ r"

definition refund_moves :: "uuid \<Rightarrow> int \<Rightarrow> core \<Rightarrow> core \<Rightarrow> bool" where
  "refund_moves user n c c' \<longleftrightarrow>
     (\<forall>a. bal a c' = bal a c - (if a = UserWalletCode user then n else 0) + (if a = ''krejt:card_clearing'' then n else 0))"

lemma Validate_pair: "0 < n \<Longrightarrow> in64 n \<Longrightarrow> a \<noteq> [] \<Longrightarrow> b \<noteq> [] \<Longrightarrow> Validate [debit a n, credit b n] = None"
  by (simp add: Validate_def add64_id)

lemma refund_then_reversal:
  assumes "ledger_inv c" "0 < n" "in64 n" "fst (Post dnow t1 (refund_tx rid u n cur) c) = Inr j"
    and "\<not> posted (refund_key rid) c" "\<not> posted (refund_key rid @ '':reversal'') c"
    and "t2 \<notin> lt_id ` set (ltxs c)" "t2 \<noteq> t1"
  defines "c1 \<equiv> snd (Post dnow t1 (refund_tx rid u n cur) c)"
  shows "refund_moves u n c c1" "\<And>a. bal a (snd (Post dnow t2 (reversal_tx rid u n cur) c1)) = bal a c"
proof -
  have np: "\<not> posted (IdempotencyKey (refund_tx rid u n cur)) c" using assms(5) by (simp add: refund_tx_def)
  show m: "refund_moves u n c c1"
    unfolding refund_moves_def c1_def using bal_Post_fresh[OF np assms(4)] by (auto simp: refund_tx_def table_simps)
  have c1: "(\<exists>t. ltxs c1 = ltxs c @ [t] \<and> lt_id t = t1 \<and> lt_idem t = refund_key rid) \<and> accounts c1 = accounts c \<and>
      (\<forall>p \<in> set (Postings (refund_tx rid u n cur)). \<exists>a \<in> set (accounts c). ac_code a = AccountCode p \<and>
         ac_currency a = (if cur = [] then ''EUR'' else cur))"
  proof (cases rule: Post_cases[of dnow t1 "refund_tx rid u n cur" c])
    case (fresh cu)
    have e: "c1 = c\<lparr>ltxs := ltxs c @ [\<lparr>lt_id = t1, lt_kind = Kind (refund_tx rid u n cur), lt_ref = Reference (refund_tx rid u n cur),
        lt_idem = IdempotencyKey (refund_tx rid u n cur), lt_currency = cu\<rparr>],
        entries := entries c @ map (mk_entry dnow t1 cu) (Postings (refund_tx rid u n cur))\<rparr>"
      unfolding c1_def by (rule fresh(5))
    have "cu = (if cur = [] then ''EUR'' else cur)" using fresh(8) by (simp add: refund_tx_def)
    with fresh(6) have "\<forall>p \<in> set (Postings (refund_tx rid u n cur)). \<exists>a \<in> set (accounts c). ac_code a = AccountCode p \<and>
         ac_currency a = (if cur = [] then ''EUR'' else cur)" by simp
    moreover have "\<exists>t. ltxs c1 = ltxs c @ [t] \<and> lt_id t = t1 \<and> lt_idem t = refund_key rid"
      by (simp add: e) (simp add: refund_tx_def)
    moreover have "accounts c1 = accounts c" by (simp add: e)
    ultimately show ?thesis by blast
  qed (use assms(4) np postedI in simp_all)
  have "fst (Post dnow t2 (reversal_tx rid u n cur) c1) = Inr t2"
  proof (rule Post_succeeds)
    show "ledger_inv c1" using assms(1) by (simp add: c1_def Post_inv)
    show "\<not> posted (IdempotencyKey (reversal_tx rid u n cur)) c1"
      using c1 assms(6) by (auto simp: posted_def reversal_tx_def)
    show "t2 \<notin> lt_id ` set (ltxs c1)" using c1 assms(7,8) by auto
  qed (use c1 assms(2,3) in \<open>auto simp: reversal_tx_def refund_tx_def Validate_pair UserWalletCode_def\<close>)
  moreover have "\<not> posted (IdempotencyKey (reversal_tx rid u n cur)) c1"
    using c1 assms(6) by (auto simp: posted_def reversal_tx_def)
  ultimately show "bal a (snd (Post dnow t2 (reversal_tx rid u n cur) c1)) = bal a c" for a
    using bal_Post_fresh[of "reversal_tx rid u n cur" c1 dnow t2 t2 a] m
    by (auto simp: refund_moves_def reversal_tx_def table_simps)
qed

text \<open>
  What a provider answers to the request of a refund: one of the three statuses of the interface (its
  comment in \<open>payment.go\<close>, and what both implementations return), and an identifier that no refund made before has.
\<close>

definition refund_answers :: "provider \<Rightarrow> uuid \<Rightarrow> refund_row list \<Rightarrow> bool" where
  "refund_answers pv rid rs \<longleftrightarrow> (\<forall>q res. RRIdem q = refund_key rid \<longrightarrow> PRefund pv q = Inr res \<longrightarrow>
     RStatus res \<in> set refund_statuses \<and> Some (ProviderRefundID res) \<notin> rf_pid ` set rs)"

lemma refund_body_effect:
  assumes "ledger_inv (p_core s)" "0 < n" "in64 n"
    and "\<not> posted (refund_key rid) (p_core s)" "\<not> posted (refund_key rid @ '':reversal'') (p_core s)"
    and "t2 \<notin> lt_id ` set (ltxs (p_core s))" "t2 \<noteq> t1" "refund_answers pv rid (refunds s)"
    and r: "refund_body pv dnow rid t1 t2 fin x pid n reason s = (r, s')"
  shows "case r of
      Inr j \<Rightarrow> j = rid \<and> refund_moves (pi_user x) n (p_core s) (p_core s') \<and>
        (\<exists>res. PRefund pv \<lparr>RRIntent = pid, RRAmount = n, RRIdem = refund_key rid, RRReason = reason\<rparr> = Inr res \<and>
          refunds s' = refunds s @ [\<lparr>rf_id = rid, rf_intent = pi_id x, rf_amount = n, rf_reason = reason,
            rf_pid = Some (ProviderRefundID res), rf_status = RStatus res, rf_by = fin, rf_idem = refund_key rid\<rparr>])
    | Inl e \<Rightarrow> \<forall>a. bal a (p_core s') = bal a (p_core s)"
proof (cases "exists_where (\<lambda>r. rf_id r = rid \<or> rf_idem r = refund_key rid) (refunds s)")
  case True
  with r show ?thesis by (auto simp: refund_body_def)
next
  case False
  then have nr: "\<not> exists_where (\<lambda>r. rf_id r = rid) (refunds s)" by (auto simp: exists_where_iff)
  have u: "upd_where (\<lambda>r. rf_id r = rid) f (refunds s) = refunds s" for f
    using nr by (auto simp: upd_where_def exists_where_iff intro: map_idI)
  let ?tx = "refund_tx rid (pi_user x) n (pi_currency x)"
  let ?q = "\<lparr>RRIntent = pid, RRAmount = n, RRIdem = refund_key rid, RRReason = reason\<rparr>"
  show ?thesis
  proof (cases "fst (Post dnow t1 ?tx (p_core s))")
    case (Inl e)
    with r False show ?thesis
      by (auto simp: refund_body_def Let_def p_post_def snd_Post_error[OF Inl] split: sum.splits)
  next
    case (Inr j)
    note m = refund_then_reversal[OF assms(1-3) Inr assms(4-7)]
    show ?thesis
    proof (cases "PRefund pv ?q")
      case (Inl e)
      with r False \<open>fst _ = Inr j\<close> m(2) show ?thesis
        by (auto simp: refund_body_def Let_def p_post_def split: sum.splits if_splits)
    next
      case (Inr res)
      then have ok: "RStatus res \<in> set refund_statuses" "\<forall>f \<in> set (refunds s). rf_pid f \<noteq> Some (ProviderRefundID res)"
        using assms(8)[unfolded refund_answers_def, rule_format, of ?q res] by (auto simp: image_iff)
      let ?s2 = "\<lambda>s0. s0\<lparr>p_core := snd (Post dnow t1 ?tx (p_core s))\<rparr>"
      have "r = Inr rid" "accounts (p_core s') = accounts (p_core (?s2 s))" "ltxs (p_core s') = ltxs (p_core (?s2 s))"
        "entries (p_core s') = entries (p_core (?s2 s))"
        "refunds s' = refunds s @ [\<lparr>rf_id = rid, rf_intent = pi_id x, rf_amount = n, rf_reason = reason,
            rf_pid = Some (ProviderRefundID res), rf_status = RStatus res, rf_by = fin, rf_idem = refund_key rid\<rparr>]"
        using r False \<open>fst _ = Inr j\<close> Inr ok
        by (auto simp: refund_body_def Let_def p_post_def exists_where_iff table_simps u frame_simps split: if_splits)
      with m(1) Inr show ?thesis by (simp add: refund_moves_def core_money(2)[of "p_core s'" "p_core (?s2 s)"])
    qed
  qed
qed

text \<open>
  C11. A refund takes from the wallet exactly what the provider was asked to give back. When it is granted,
  the top-up had succeeded, the wallet held the amount, the wallet and the clearing account move by it and
  no other account moves, the provider accepted a request for this amount, the refund is recorded with the
  provider's status, and the refunds of the top-up that did not fail do not exceed it. When it is refused by
  a check or by the database, or the call of the provider fails, no account has moved at the end, because
  the ledger entry is reversed. Two comments of \<open>Refund\<close> (\<open>modules/payments/payments.go\<close>, lines 331 and 339)
  say otherwise: after a failed call the row is not left pending for Finance, but marked as failed and
  reversed at once; and a refund that did not happen does not always return the money: when
  the provider answers, without an error, that the refund failed, it is granted, the wallet stays
  debited, and the refund is recorded as failed and does not count against the top-up.
\<close>
theorem Refund_pays_once:
  assumes "ledger_inv (p_core s)" "in64 n" "in64 (refunded_of i (refunds s) + n)"
    and "\<not> posted (refund_key rid) (p_core s)" "\<not> posted (refund_key rid @ '':reversal'') (p_core s)"
    and "t2 \<notin> lt_id ` set (ltxs (p_core s))" "t2 \<noteq> t1" "refund_answers pv rid (refunds s)"
    and "Refund pv dnow rid t1 t2 fin i n reason s = (r, s')"
  shows "case r of
      Inr j \<Rightarrow> j = rid \<and> (\<exists>x \<in> set (intents s). pi_id x = i \<and> pi_status x = ''succeeded'' \<and>
        0 < n \<and> n \<le> bal (UserWalletCode (pi_user x)) (p_core s) \<and> refund_moves (pi_user x) n (p_core s) (p_core s') \<and>
        refunded_of i (refunds s') \<le> pi_amount x \<and>
        (\<exists>q res f. PRefund pv q = Inr res \<and> pi_pid x = Some (RRIntent q) \<and> RRAmount q = n \<and>
          refunds s' = refunds s @ [f] \<and> rf_id f = rid \<and> rf_intent f = i \<and> rf_amount f = n \<and>
          rf_pid f = Some (ProviderRefundID res) \<and> rf_status f = RStatus res \<and>
          refunded_of i (refunds s') = refunded_of i (refunds s) + (if RStatus res = ''failed'' then 0 else n)))
    | Inl e \<Rightarrow> \<forall>a. bal a (p_core s') = bal a (p_core s)"
proof (cases "s' = s \<and> (\<exists>e. r = Inl e)")
  case True
  then show ?thesis by auto
next
  case False
  obtain x where f: "find (\<lambda>x. pi_id x = i) (intents s) = Some x" and n: "0 < n"
    using assms(9) False by (auto simp: Refund_def Let_def split: if_splits option.splits)
  then obtain pid reason' where
    g: "pi_status x = ''succeeded''" "refunded_of i (refunds s) + n \<le> pi_amount x"
      "n \<le> bal (UserWalletCode (pi_user x)) (p_core s)" "pi_pid x = Some pid" and
    b: "refund_body pv dnow rid t1 t2 fin x pid n reason' s = (r, s')"
    using assms(9,3) False
    by (auto simp: Refund_def Let_def add64_id split: if_splits option.splits sum.splits dest: Balance_bal)
  have x: "pi_id x = i" "x \<in> set (intents s)" using find_SomeD[OF f] by auto
  note eff = refund_body_effect[OF assms(1) n assms(2,4-8) b]
  show ?thesis
  proof (cases r)
    case (Inl e)
    then show ?thesis using eff by simp
  next
    case (Inr j)
    then obtain res where res: "j = rid" "refund_moves (pi_user x) n (p_core s) (p_core s')"
      "PRefund pv \<lparr>RRIntent = pid, RRAmount = n, RRIdem = refund_key rid, RRReason = reason'\<rparr> = Inr res"
      "refunds s' = refunds s @ [\<lparr>rf_id = rid, rf_intent = pi_id x, rf_amount = n, rf_reason = reason',
            rf_pid = Some (ProviderRefundID res), rf_status = RStatus res, rf_by = fin, rf_idem = refund_key rid\<rparr>]"
      using eff by auto
    then have "refunded_of i (refunds s') = refunded_of i (refunds s) + (if RStatus res = ''failed'' then 0 else n)"
      by (simp add: refunded_of_def table_simps x)
    moreover have "refunded_of i (refunds s') \<le> pi_amount x" using calculation g(2) n by (auto split: if_splits)
    ultimately show ?thesis using Inr res g x n by (fastforce intro: bexI[of _ x])
  qed
qed

definition demo_paid :: payments_db where
  "demo_paid = snd (HandleWebhook demo_provider 1 1 ''t1'' ''e1'' ''ok'' demo_payments)"

definition demo_refuser :: provider where
  "demo_refuser = demo_provider\<lparr>PRefund := \<lambda>_. Inr \<lparr>ProviderRefundID = ''re_1'', RStatus = ''failed''\<rparr>\<rparr>"

theorem Refund_pays_once_witness:
  "fst (Refund demo_refuser 9 ''r1'' ''t2'' ''t3'' ''f'' ''i1'' 200 ''card lost'' demo_paid) = Inr ''r1'' \<and>
   bal (UserWalletCode ''u1'') (p_core (snd (Refund demo_refuser 9 ''r1'' ''t2'' ''t3'' ''f'' ''i1'' 200 ''card lost'' demo_paid))) = 300 \<and>
   refunded_of ''i1'' (refunds (snd (Refund demo_refuser 9 ''r1'' ''t2'' ''t3'' ''f'' ''i1'' 200 ''card lost'' demo_paid))) = 0"
proof -
  let ?r = "Refund demo_refuser 9 ''r1'' ''t2'' ''t3'' ''f'' ''i1'' 200 ''card lost'' demo_paid"
  have e: "fst ?r = Inr ''r1''" by code_simp
  then obtain s' where r: "?r = (Inr ''r1'', s')" by (cases ?r) simp
  have i: "ledger_inv (p_core demo_paid)"
    unfolding demo_paid_def by (rule HandleWebhook_money(2)) (simp add: demo_payments_def ledger_inv_def)
  have k: "map lt_idem (ltxs (p_core demo_paid)) = [topup_key ''i1'']" "map lt_id (ltxs (p_core demo_paid)) = [''t1'']"
    by code_simp+
  have np: "\<not> posted (refund_key ''r1'') (p_core demo_paid)" "\<not> posted (refund_key ''r1'' @ '':reversal'') (p_core demo_paid)"
    using k(1) by (auto simp: posted_def)
  have t: "''t3'' \<notin> lt_id ` set (ltxs (p_core demo_paid))" using k(2) by auto
  have b: "bal (UserWalletCode ''u1'') (p_core demo_paid) = 500" and u: "map pi_user (intents demo_paid) = [''u1'']"
    and z: "refunds demo_paid = []" by code_simp+
  have n: "in64 200" "in64 (refunded_of ''i1'' (refunds demo_paid) + 200)" by code_simp+
  have a: "refund_answers demo_refuser ''r1'' (refunds demo_paid)"
    by (auto simp: refund_answers_def demo_refuser_def refund_statuses_def z)
  obtain x q res where "x \<in> set (intents demo_paid)" "refund_moves (pi_user x) 200 (p_core demo_paid) (p_core s')" "PRefund demo_refuser q = Inr res"
    "refunded_of ''i1'' (refunds s') = refunded_of ''i1'' (refunds demo_paid) + (if RStatus res = ''failed'' then 0 else 200)"
    using Refund_pays_once[OF i n np t _ a r] by auto
  moreover have "pi_user x = ''u1''" if "x \<in> set (intents demo_paid)" for x using that u by (cases "intents demo_paid") auto
  ultimately show ?thesis
    using b r z by (auto simp: refund_moves_def demo_refuser_def refunded_of_def table_simps UserWalletCode_def)
qed

text \<open>A refund that the provider reports as failed afterwards leaves the wallet debited.\<close>

lemma failed_refund_event_keeps_debit:
  assumes "EvRefund ev \<noteq> []"
  shows "p_core (snd (apply_event pv dnow txi ev s)) = p_core s"
  using assms by (simp add: apply_event_def)

section \<open>Signatures\<close>

text \<open>\<open>SignDev\<close>, the signature in Stripe's format that the development endpoint makes.\<close>

definition SignDev :: "(string \<Rightarrow> string \<Rightarrow> string) \<Rightarrow> string \<Rightarrow> string \<Rightarrow> time \<Rightarrow> string" where
  "SignDev hmac secret body now =
     (let ts = show_int (now div Second) in ''t='' @ ts @ '',v1='' @ hmac secret (ts @ ''.'' @ body))"

lemma split_on_last: "d \<notin> set xs \<Longrightarrow> split_on d acc xs = [rev acc @ xs]"
  by (induction xs arbitrary: acc) auto

lemma split_on_append: "d \<notin> set xs \<Longrightarrow> split_on d acc (xs @ d # ys) = (rev acc @ xs) # split_on d [] ys"
  by (induction xs arbitrary: acc) auto

lemma cut_append: "d \<notin> set k \<Longrightarrow> cut d (k @ d # v) = Some (k, v)"
  by (induction k) auto

lemma digit_char: "d < 10 \<Longrightarrow> is_digit (char_of (48 + d :: nat)) \<and> of_char (char_of (48 + d)) = (48 + int d)"
proof -
  have "of_char c = int (of_char c)" for c :: char by (simp add: of_nat_of_char)
  from this[of "char_of (48 + d)"] show "d < 10 \<Longrightarrow> is_digit (char_of (48 + d :: nat)) \<and> of_char (char_of (48 + d)) = (48 + int d)"
    by (simp add: is_digit_def)
qed

lemma digits_value_append:
  "digits_value acc (xs @ [c]) = (case digits_value acc xs of None \<Rightarrow> None
     | Some v \<Rightarrow> if is_digit c then Some (v * 10 + (of_char c - 48)) else None)"
  by (induction xs arbitrary: acc) auto

lemma digits_value_show: "digits_value 0 (show_nat n) = Some (int n)"
proof (induction n rule: show_nat.induct)
  case (1 n)
  show ?case
  proof (cases "n < 10")
    case True
    then show ?thesis using digit_char[of n] by (simp add: show_nat.simps[of n])
  next
    case False
    have "int (n div 10) * 10 + int (n mod 10) = int n" by presburger
    then show ?thesis
      using False 1 digit_char[of "n mod 10"] by (simp add: show_nat.simps[of n] digits_value_append)
  qed
qed

lemma show_nat_digits: "c \<in> set (show_nat n) \<Longrightarrow> is_digit c"
proof (induction n rule: show_nat.induct)
  case (1 n)
  then show ?case using digit_char[of n] digit_char[of "n mod 10"]
    by (cases "n < 10") (auto simp: show_nat.simps[of n])
qed

lemma show_nat_Cons: "\<exists>c cs. show_nat n = c # cs \<and> is_digit c"
  using show_nat_digits[of "hd (show_nat n)" n] by (cases "show_nat n") (auto simp: show_nat.simps[of n] split: if_splits)

text \<open>Printing a time stamp and parsing it again gives it back.\<close>

lemma ParseInt_show: "0 \<le> i \<Longrightarrow> in64 i \<Longrightarrow> ParseInt (show_int i) = Some i"
  using show_nat_Cons[of "nat i"] digits_value_show[of "nat i"]
  by (auto simp: ParseInt_def show_int_def is_digit_def)

lemma show_int_plain: "0 \<le> i \<Longrightarrow> c \<in> set (show_int i) \<Longrightarrow> c \<noteq> CHR '','' \<and> \<not> is_space c"
  using show_nat_digits[of c "nat i"] by (auto simp: show_int_def is_digit_def is_space_def)

lemma sig_fields_SignDev:
  assumes "\<forall>c \<in> set ts. c \<noteq> CHR '','' \<and> \<not> is_space c" "\<forall>c \<in> set h. c \<noteq> CHR '','' \<and> \<not> is_space c"
  shows "sig_fields (split_on CHR '','' [] (''t='' @ ts @ '',v1='' @ h)) [] [] = (ts, [h])"
proof -
  have "split_on CHR '','' [] ((''t='' @ ts) @ CHR '','' # (''v1='' @ h)) =
      (rev [] @ (''t='' @ ts)) # split_on CHR '','' [] (''v1='' @ h)"
    by (rule split_on_append) (use assms(1) in auto)
  also have "split_on CHR '','' [] (''v1='' @ h) = [rev [] @ (''v1='' @ h)]"
    by (rule split_on_last) (use assms(2) in auto)
  finally have "split_on CHR '','' [] ((''t='' @ ts) @ CHR '','' # (''v1='' @ h)) = [''t='' @ ts, ''v1='' @ h]"
    by simp
  moreover have "TrimSpace (''t='' @ ts) = ''t='' @ ts" "TrimSpace (''v1='' @ h) = ''v1='' @ h"
    using assms by (intro TrimSpace_id; simp add: is_space_def)+
  moreover have "cut CHR ''='' (''t='' @ ts) = Some (''t'', ts)" "cut CHR ''='' (''v1='' @ h) = Some (''v1'', h)"
    by simp_all
  ultimately show ?thesis by simp
qed

text \<open>
  Signing and verifying agree: a webhook signed at some time with some secret for some body is
  taken for another body under another secret exactly when the signed texts have the same MAC and
  the clocks differ by at most five minutes, and then yields the event that the received body
  describes. Of the MAC nothing is used but that it is hexadecimal.
\<close>
theorem SignDev_verify:
  assumes "\<forall>k m. \<forall>c \<in> set (hmac k m). c \<noteq> CHR '','' \<and> \<not> is_space c" "0 \<le> now" "in64 now"
  defines "ts \<equiv> show_int (now div Second)"
  shows "StripeParseWebhook hmac decode secret body (SignDev hmac secret' body' now) later =
     (if \<bar>later - now div Second * Second\<bar> \<le> 5 * Minute \<and>
         hmac secret (ts @ ''.'' @ body) = hmac secret' (ts @ ''.'' @ body')
      then case decode body of None \<Rightarrow> Inl (ProviderError ''payment: webhook json'') | Some o' \<Rightarrow> Inr (stripe_event o')
      else Inl BadSignature)"
proof -
  have n: "0 \<le> now div Second" "in64 (now div Second)"
    using assms(2,3) div_self_bounds[OF assms(2), of Second] by (auto simp: in64_def)
  have "sig_fields (split_on CHR '','' [] (SignDev hmac secret' body' now)) [] [] = (ts, [hmac secret' (ts @ ''.'' @ body')])"
    unfolding SignDev_def Let_def ts_def
    using assms(1) show_int_plain[OF n(1)] by (intro sig_fields_SignDev) auto
  moreover have "ParseInt ts = Some (now div Second)" using ParseInt_show[OF n] by (simp add: ts_def)
  ultimately show ?thesis by (auto simp: StripeParseWebhook_def Let_def split: option.splits)
qed

text \<open>An instance with a MAC over hexadecimal digits that depends on the secret.\<close>

definition demo_mac :: "string \<Rightarrow> string \<Rightarrow> string" where
  "demo_mac k m = show_nat (length k + length m)"

definition demo_object :: stripe_object where
  "demo_object = \<lparr>SoEventID = ''e1'', SoEventType = ''payment_intent.succeeded'', SoID = ''pi_1'', SoObject = ''payment_intent'',
     SoStatus = ''succeeded'', SoAmount = 500, SoCurrency = ''eur'', SoPaymentIntent = [], SoLastError = None\<rparr>"

theorem SignDev_verify_witness:
  "StripeParseWebhook demo_mac (\<lambda>_. Some demo_object) ''whsec'' ''{}'' (SignDev demo_mac ''whsec'' ''{}'' (1700000000 * Second))
     (1700000300 * Second) = Inr (stripe_event demo_object) \<and>
   StripeParseWebhook demo_mac (\<lambda>_. Some demo_object) ''whsec'' ''{}'' (SignDev demo_mac ''whsec'' ''{}'' (1700000000 * Second))
     (1700000301 * Second) = Inl BadSignature \<and>
   EvCurrency (stripe_event demo_object) = ''EUR''"
proof -
  have h: "\<forall>k m. \<forall>c \<in> set (demo_mac k m). c \<noteq> CHR '','' \<and> \<not> is_space c"
    by (auto simp: demo_mac_def is_digit_def is_space_def dest!: show_nat_digits)
  have "EvCurrency (stripe_event demo_object) = ''EUR''" by code_simp
  then show ?thesis
    by (subst (1 2) SignDev_verify[OF h]) (simp_all add: in64_def)
qed

end
