(* ===== verification/Promos.thy ===== *)
theory Promos
  imports Httpx
begin

text \<open>
  Discount coupons (\<open>modules/promos/promos.go\<close>, tables of \<open>migrations/0018_coupons.sql\<close>): codes,
  the discount of a coupon on an amount, validation, redemption inside the transaction of an order or
  a parcel, and the administration.
\<close>

definition ErrInvalid [err_defs]: "ErrInvalid = API ''COUPON_INVALID'' 422 False []"
definition ErrExpired [err_defs]: "ErrExpired = API ''COUPON_EXPIRED'' 422 False []"
definition ErrMinOrder [err_defs]: "ErrMinOrder = API ''COUPON_MIN_ORDER'' 422 False []"
definition ErrUsedUp [err_defs]: "ErrUsedUp = API ''COUPON_USED_UP'' 422 False []"
definition ErrNotApplicable [err_defs]: "ErrNotApplicable = API ''COUPON_NOT_APPLICABLE'' 422 False []"

definition MarketingAccount :: string where "MarketingAccount = ''krejt:marketing''"

definition ScopeAll :: string where "ScopeAll = ''all''"
definition ScopeFood :: string where "ScopeFood = ''food''"
definition ScopeParcels :: string where "ScopeParcels = ''parcels''"

record coupon =
  cp_code :: string
  cp_kind :: string
  cp_percent :: int
  cp_amount :: int
  cp_min :: int
  cp_scope :: string
  cp_starts :: "time option"
  cp_ends :: "time option"
  cp_max :: "int option"
  cp_max_user :: "int option"
  cp_uses :: int
  cp_active :: bool
  cp_note :: "string option"
  cp_created :: time
  cp_updated :: time

record redemption =
  re_coupon :: string
  re_user :: uuid
  re_reference :: string
  re_discount :: int

record promos_db =
  coupons :: "coupon list"
  redemptions :: "redemption list"

record applied =
  ap_code :: string
  ap_kind :: string
  ap_discount :: int

section \<open>Codes and discounts\<close>

text \<open>
  \<open>Normalize\<close> keeps letters and digits and changes them to capitals. The code asks \<open>unicode.IsLetter\<close> and \<open>unicode.IsDigit\<close>;
  the model knows the letters and digits of ASCII and drops the bytes of all others.
\<close>

definition Normalize :: "string \<Rightarrow> string" where
  "Normalize s = filter (\<lambda>c. is_upper c \<or> is_lower c \<or> is_digit c) (map to_upper (TrimSpace s))"

definition Discount :: "coupon \<Rightarrow> int \<Rightarrow> int" where
  "Discount c base =
     (if base \<le> 0 then 0
      else
        let d = (if cp_kind c = ''percent'' then quot (add64 (mul64 base (cp_percent c)) 5000) 10000
                 else if cp_kind c = ''fixed'' then cp_amount c else 0);
            d = (if d > base then base else d)
        in if d < 0 then 0 else d)"

lemma Discount_range: "0 \<le> Discount c base \<and> (0 \<le> base \<longrightarrow> Discount c base \<le> base)"
  by (auto simp: Discount_def Let_def)

section \<open>Applying and redeeming\<close>

definition check :: "time \<Rightarrow> coupon \<Rightarrow> string \<Rightarrow> int \<Rightarrow> err option" where
  "check gnow c scope user_uses =
     (if \<not> cp_active c then Some ErrInvalid
      else if cp_scope c \<noteq> ScopeAll \<and> cp_scope c \<noteq> scope then Some ErrNotApplicable
      else if (case cp_starts c of None \<Rightarrow> False | Some t \<Rightarrow> gnow < t) then Some ErrExpired
      else if (case cp_ends c of None \<Rightarrow> False | Some t \<Rightarrow> gnow > t) then Some ErrExpired
      else if (case cp_max c of None \<Rightarrow> False | Some m \<Rightarrow> cp_uses c \<ge> m) then Some ErrUsedUp
      else if (case cp_max_user c of None \<Rightarrow> False | Some m \<Rightarrow> user_uses \<ge> m) then Some ErrUsedUp
      else None)"

definition user_uses :: "string \<Rightarrow> uuid \<Rightarrow> redemption list \<Rightarrow> int" where
  "user_uses code user t = int (count_where (\<lambda>r. re_coupon r = code \<and> re_user r = user) t)"

definition Apply :: "time \<Rightarrow> string \<Rightarrow> uuid \<Rightarrow> string \<Rightarrow> int \<Rightarrow> promos_db \<Rightarrow> err + applied" where
  "Apply gnow code0 user scope base s =
     (let code = Normalize code0 in
      if code = [] \<or> length code > 32 then Inl ErrInvalid
      else case find (\<lambda>c. cp_code c = code) (coupons s) of
        None \<Rightarrow> Inl ErrInvalid
      | Some c \<Rightarrow>
          (case check gnow c scope (user_uses code user (redemptions s)) of
             Some e \<Rightarrow> Inl e
           | None \<Rightarrow>
               if base < cp_min c then Inl ErrMinOrder
               else Inr \<lparr>ap_code = cp_code c, ap_kind = cp_kind c, ap_discount = Discount c base\<rparr>))"

definition redeem_rows :: "time \<Rightarrow> string \<Rightarrow> uuid \<Rightarrow> string \<Rightarrow> int \<Rightarrow> (promos_db, err, unit) op" where
  "redeem_rows dnow code user reference discount s =
     (if discount < 0 then (Inl PgCheck, s)
      else if exists_where (\<lambda>r. re_reference r = reference) (redemptions s) then (Inl PgUnique, s)
      else (Inr (), s\<lparr>redemptions := redemptions s @
                 [\<lparr>re_coupon = code, re_user = user, re_reference = reference, re_discount = discount\<rparr>],
               coupons := upd_where (\<lambda>c. cp_code c = code)
                 (\<lambda>c. c\<lparr>cp_uses := cp_uses c + 1, cp_updated := dnow\<rparr>) (coupons s)\<rparr>))"

text \<open>
  \<open>Redeem\<close> runs in the caller's transaction. The table refuses a second redemption for a reference
  and a negative discount.
\<close>

definition Redeem :: "time \<Rightarrow> time \<Rightarrow> string \<Rightarrow> uuid \<Rightarrow> string \<Rightarrow> int \<Rightarrow> (promos_db, err, unit) op" where
  "Redeem gnow dnow code0 user reference discount s =
     (let code = Normalize code0 in
      case find (\<lambda>c. cp_code c = code) (coupons s) of
        None \<Rightarrow> (Inl ErrInvalid, s)
      | Some c \<Rightarrow>
          (case check gnow c ScopeAll (user_uses code user (redemptions s)) of
             Some e \<Rightarrow>
               if \<not> err_Is e ErrNotApplicable then (Inl e, s)
               else redeem_rows dnow code user reference discount s
           | None \<Rightarrow> redeem_rows dnow code user reference discount s))"

section \<open>Administration\<close>

record upsert_input =
  UpCode :: string
  UpKind :: string
  UpPercent :: int
  UpAmount :: int
  UpMin :: int
  UpScope :: string
  UpStarts :: "time option"
  UpEnds :: "time option"
  UpMax :: "int option"
  UpMaxUser :: "int option"
  UpActive :: "bool option"
  UpNote :: string

definition prepare :: "upsert_input \<Rightarrow> upsert_input" where
  "prepare inp = inp\<lparr>UpCode := Normalize (UpCode inp), UpScope := (if UpScope inp = [] then ScopeAll else UpScope inp)\<rparr>"

definition validate :: "upsert_input \<Rightarrow> err + upsert_input" where
  "validate inp0 =
     (let inp = prepare inp0; n = length (UpCode inp);
          fs = add_field_if (n < 3 \<or> n > 32) ''code'' ''length'' [];
          fs = (if UpKind inp = ''percent'' then add_field_if (UpPercent inp \<le> 0 \<or> UpPercent inp > 10000) ''percent_bp'' ''range'' fs
                else if UpKind inp = ''fixed'' then add_field_if (UpAmount inp \<le> 0) ''amount_minor'' ''range'' fs
                else set_field ''kind'' ''invalid'' fs);
          fs = add_field_if (UpScope inp \<noteq> ScopeAll \<and> UpScope inp \<noteq> ScopeFood \<and> UpScope inp \<noteq> ScopeParcels) ''scope'' ''invalid'' fs;
          fs = add_field_if (UpMin inp < 0) ''min_order_minor'' ''range'' fs;
          fs = add_field_if (case (UpStarts inp, UpEnds inp) of (Some a, Some b) \<Rightarrow> b < a | _ \<Rightarrow> False) ''ends_at'' ''before_start'' fs
      in if fs \<noteq> [] then Inl (ErrValidation fs) else Inr inp)"

definition coupon_checks :: "coupon \<Rightarrow> bool" where
  "coupon_checks c \<longleftrightarrow> cp_kind c \<in> {''percent'', ''fixed''} \<and> 0 \<le> cp_percent c \<and> cp_percent c \<le> 10000 \<and> 0 \<le> cp_amount c \<and>
     0 \<le> cp_min c \<and> cp_scope c \<in> {''all'', ''food'', ''parcels''}"

definition write_coupon :: "time \<Rightarrow> upsert_input \<Rightarrow> coupon \<Rightarrow> coupon" where
  "write_coupon dnow inp c =
     c\<lparr>cp_kind := UpKind inp, cp_percent := UpPercent inp, cp_amount := UpAmount inp, cp_min := UpMin inp,
       cp_scope := UpScope inp, cp_starts := UpStarts inp, cp_ends := UpEnds inp, cp_max := UpMax inp,
       cp_max_user := UpMaxUser inp, cp_active := (case UpActive inp of None \<Rightarrow> True | Some b \<Rightarrow> b),
       cp_note := nullable (TrimSpace (UpNote inp)), cp_updated := dnow\<rparr>"

definition Upsert :: "time \<Rightarrow> upsert_input \<Rightarrow> (promos_db, err, coupon) op" where
  "Upsert dnow inp0 s =
     (case validate inp0 of
        Inl e \<Rightarrow> (Inl e, s)
      | Inr inp \<Rightarrow>
          let fresh = \<lparr>cp_code = UpCode inp, cp_kind = [], cp_percent = 0, cp_amount = 0, cp_min = 0, cp_scope = [],
                cp_starts = None, cp_ends = None, cp_max = None, cp_max_user = None, cp_uses = 0, cp_active = True,
                cp_note = None, cp_created = dnow, cp_updated = dnow\<rparr>;
              c = write_coupon dnow inp (case find (\<lambda>c. cp_code c = UpCode inp) (coupons s) of None \<Rightarrow> fresh | Some c \<Rightarrow> c)
          in if \<not> coupon_checks c then (Inl PgCheck, s)
             else if exists_where (\<lambda>c. cp_code c = UpCode inp) (coupons s)
             then (Inr c, s\<lparr>coupons := upd_where (\<lambda>c. cp_code c = UpCode inp) (write_coupon dnow inp) (coupons s)\<rparr>)
             else (Inr c, s\<lparr>coupons := coupons s @ [c]\<rparr>))"

definition SetActive :: "time \<Rightarrow> string \<Rightarrow> bool \<Rightarrow> (promos_db, err, coupon) op" where
  "SetActive dnow code b s =
     (let f = (\<lambda>c. c\<lparr>cp_active := b, cp_updated := dnow\<rparr>) in
      case find (\<lambda>c. cp_code c = Normalize code) (coupons s) of
        None \<Rightarrow> (Inl ErrNotFound, s)
      | Some c \<Rightarrow> (Inr (f c), s\<lparr>coupons := upd_where (\<lambda>c. cp_code c = Normalize code) f (coupons s)\<rparr>))"

definition ListCoupons :: "int \<Rightarrow> promos_db \<Rightarrow> coupon list" where
  "ListCoupons limit s =
     take (nat (if limit \<le> 0 \<or> limit > 200 then 100 else limit)) (rev (sort_key cp_created (coupons s)))"

section \<open>Codes and discounts are what they say\<close>

lemma kept_not_space: "is_upper c \<or> is_lower c \<or> is_digit c \<Longrightarrow> \<not> is_space c"
  by (auto simp: is_upper_def is_lower_def is_digit_def is_space_def)

lemma Normalize_shape: "c \<in> set (Normalize s) \<Longrightarrow> is_upper c \<or> is_digit c"
  using to_upper_no_lower by (auto simp: Normalize_def)

lemma Normalize_idem [simp]: "Normalize (Normalize s) = Normalize s"
proof -
  have t: "TrimSpace (Normalize s) = Normalize s"
    by (rule TrimSpace_id) (use Normalize_shape kept_not_space in blast)
  have "map to_upper (Normalize s) = Normalize s"
    by (rule map_idI) (use to_upper_no_lower in \<open>auto simp: Normalize_def\<close>)
  then have "filter (\<lambda>c. is_upper c \<or> is_lower c \<or> is_digit c) (map to_upper (Normalize s)) = Normalize s"
    by (simp add: Normalize_def filter_empty_conv)
  then show ?thesis by (subst Normalize_def) (simp add: t)
qed

text \<open>
  A discount is never negative and never more than the amount it is taken from, even where the
  64-bit product wraps; where it does not, a percentage coupon takes the exact percentage of the
  amount, rounded half up to the cent.
\<close>
theorem Discount_bounds:
  "0 \<le> Discount c base \<and> Discount c base \<le> max 0 base \<and>
   (cp_kind c = ''percent'' \<and> 0 \<le> cp_percent c \<and> cp_percent c \<le> 10000 \<and> 0 < base \<and> base * cp_percent c \<le> 9000000000000000000 \<longrightarrow>
      base * cp_percent c - 5000 < 10000 * Discount c base \<and> 10000 * Discount c base \<le> base * cp_percent c + 5000)"
proof (intro conjI impI)
  show "0 \<le> Discount c base" "Discount c base \<le> max 0 base" by (auto simp: Discount_def Let_def)
next
  assume a: "cp_kind c = ''percent'' \<and> 0 \<le> cp_percent c \<and> cp_percent c \<le> 10000 \<and> 0 < base \<and> base * cp_percent c \<le> 9000000000000000000"
  then have p: "0 \<le> base * cp_percent c" by (intro mult_nonneg_nonneg) auto
  with a have w: "mul64 base (cp_percent c) = base * cp_percent c"
    "add64 (base * cp_percent c) 5000 = base * cp_percent c + 5000"
    by (intro mul64_id add64_id; simp only: in64_def; linarith)+
  have q: "quot (base * cp_percent c + 5000) 10000 = (base * cp_percent c + 5000) div 10000"
    using a p by (intro quot_nonneg) (auto simp: in64_def)
  let ?q = "(base * cp_percent c + 5000) div 10000"
  have "base * cp_percent c \<le> base * 10000" using a by (intro mult_left_mono) auto
  then have "?q \<le> base" by simp
  moreover have "0 \<le> ?q" using p by (simp add: pos_imp_zdiv_nonneg_iff)
  ultimately have d: "Discount c base = ?q" using a by (simp add: Discount_def w q)
  note b = div_bounds[of 10000 "base * cp_percent c + 5000"]
  show "base * cp_percent c - 5000 < 10000 * Discount c base" "10000 * Discount c base \<le> base * cp_percent c + 5000"
    using b by (simp_all add: d)
qed

section \<open>The counter of uses is the number of redemptions\<close>

definition promos_inv :: "promos_db \<Rightarrow> bool" where
  "promos_inv s \<longleftrightarrow> distinct (map cp_code (coupons s)) \<and> distinct (map re_reference (redemptions s)) \<and>
     (\<forall>r \<in> set (redemptions s). 0 \<le> re_discount r \<and> re_coupon r \<in> cp_code ` set (coupons s)) \<and>
     (\<forall>c \<in> set (coupons s). coupon_checks c \<and> cp_uses c = int (count_where (\<lambda>r. re_coupon r = cp_code c) (redemptions s)))"

lemma redeem_rows_inv:
  assumes "promos_inv s" "code \<in> cp_code ` set (coupons s)" "redeem_rows dnow code u ref d s = (r, s')"
  shows "promos_inv s'"
proof (cases "d < 0 \<or> exists_where (\<lambda>r. re_reference r = ref) (redemptions s)")
  case True
  then show ?thesis using assms by (auto simp: redeem_rows_def split: if_splits)
next
  case False
  then have n: "ref \<notin> re_reference ` set (redemptions s)" "0 \<le> d" by (auto simp: exists_where_iff)
  have s': "s' = s\<lparr>redemptions := redemptions s @ [\<lparr>re_coupon = code, re_user = u, re_reference = ref, re_discount = d\<rparr>],
      coupons := upd_where (\<lambda>c. cp_code c = code) (\<lambda>c. c\<lparr>cp_uses := cp_uses c + 1, cp_updated := dnow\<rparr>) (coupons s)\<rparr>"
    using assms(3) False by (auto simp: redeem_rows_def)
  have codes: "cp_code ` set (upd_where (\<lambda>c. cp_code c = code) (\<lambda>c. c\<lparr>cp_uses := cp_uses c + 1, cp_updated := dnow\<rparr>) (coupons s))
      = cp_code ` set (coupons s)"
    by (metis (no_types, lifting) coupon.ext_inject coupon.surjective coupon.update_convs(11,15) list.set_map map_upd_where)
  show ?thesis
    using assms(1,2) n unfolding promos_inv_def s'
    by (auto simp: codes) (auto simp: set_upd_where table_simps coupon_checks_def)
qed

lemma Redeem_inv: "promos_inv s \<Longrightarrow> promos_inv (snd (Redeem gnow dnow code u ref d s))"
proof (cases "find (\<lambda>c. cp_code c = Normalize code) (coupons s)")
  case (Some c)
  assume i: "promos_inv s"
  have "Normalize code \<in> cp_code ` set (coupons s)" using find_SomeD[OF Some] by force
  with redeem_rows_inv[OF i this] show ?thesis
    using i by (auto simp: Redeem_def Let_def Some split: option.splits) (metis prod.collapse)+
qed (simp add: Redeem_def)

lemma Upsert_inv:
  assumes "promos_inv s"
  shows "promos_inv (snd (Upsert dnow inp s))"
proof (cases "validate inp")
  case (Inr i)
  show ?thesis
  proof (cases "find (\<lambda>c. cp_code c = UpCode i) (coupons s)")
    case None
    then have "\<forall>c \<in> set (coupons s). cp_code c \<noteq> UpCode i" by (simp add: find_None_iff_all)
    moreover from this assms have "count_where (\<lambda>r. re_coupon r = UpCode i) (redemptions s) = 0"
      by (auto simp: count_where_0_iff promos_inv_def)
    ultimately show ?thesis using assms
      by (auto simp: Upsert_def Inr None Let_def exists_where_iff promos_inv_def write_coupon_def)
  next
    case (Some c)
    have code: "cp_code (write_coupon dnow i x) = cp_code x" "cp_uses (write_coupon dnow i x) = cp_uses x" for x
      by (simp_all add: write_coupon_def)
    have ck: "coupon_checks (write_coupon dnow i x) = coupon_checks (write_coupon dnow i y)" for x y
      by (simp add: write_coupon_def coupon_checks_def)
    have codes: "cp_code ` set (upd_where P (write_coupon dnow i) t) = cp_code ` set t" for P t
      by (metis code(1) list.set_map map_upd_where)
    have "exists_where (\<lambda>c. cp_code c = UpCode i) (coupons s)"
      using find_SomeD[OF Some] by (auto simp: exists_where_iff)
    then show ?thesis using assms ck[of _ c]
      by (auto simp: Upsert_def Inr Some Let_def promos_inv_def code codes) (auto simp: set_upd_where code)
  qed
qed (use assms in \<open>simp add: Upsert_def\<close>)

lemma SetActive_inv:
  assumes "promos_inv s"
  shows "promos_inv (snd (SetActive dnow code b s))"
proof -
  have codes: "cp_code ` set (upd_where P (\<lambda>c. c\<lparr>cp_active := b, cp_updated := dnow\<rparr>) t) = cp_code ` set t" for P t
    by (metis (no_types, lifting) coupon.ext_inject coupon.surjective coupon.update_convs(12,15) list.set_map map_upd_where)
  show ?thesis using assms
    by (auto simp: SetActive_def Let_def promos_inv_def codes split: option.splits)
      (auto simp: set_upd_where coupon_checks_def)
qed

inductive promos_step :: "promos_db \<Rightarrow> promos_db \<Rightarrow> bool" where
  redeem: "promos_step s (snd (Redeem gnow dnow code u ref d s))"
| upsert: "promos_step s (snd (Upsert dnow inp s))"
| set_active: "promos_step s (snd (SetActive dnow code b s))"

inductive_cases promos_stepE: "promos_step s s'"

lemma promos_step_inv: "promos_step s s' \<Longrightarrow> promos_inv s \<Longrightarrow> promos_inv s'"
  by (erule promos_stepE) (simp_all add: Redeem_inv Upsert_inv SetActive_inv)

lemma promos_reach_inv: "promos_step\<^sup>*\<^sup>* s s' \<Longrightarrow> promos_inv s \<Longrightarrow> promos_inv s'"
  by (induction rule: rtranclp_induct) (auto intro: promos_step_inv)

text \<open>
  The counter that limits a coupon tells the truth: after any sequence of redemptions, changes of
  the coupon and (de)activations, every coupon's counter is the number of its redemptions, no order or
  parcel has redeemed two coupons, and every coupon and discount is within the checks of the tables.
\<close>
theorem coupon_uses_counted:
  assumes "promos_step\<^sup>*\<^sup>* \<lparr>coupons = [], redemptions = []\<rparr> s"
  shows "(\<forall>c \<in> set (coupons s). cp_uses c = int (count_where (\<lambda>r. re_coupon r = cp_code c) (redemptions s)) \<and> coupon_checks c) \<and>
    distinct (map re_reference (redemptions s)) \<and> (\<forall>r \<in> set (redemptions s). 0 \<le> re_discount r)"
proof -
  have "promos_inv \<lparr>coupons = [], redemptions = []\<rparr>" by (simp add: promos_inv_def)
  from promos_reach_inv[OF assms this] show ?thesis by (auto simp: promos_inv_def)
qed

definition demo_upsert :: upsert_input where
  "demo_upsert = \<lparr>UpCode = '' save-10 '', UpKind = ''percent'', UpPercent = 1000, UpAmount = 0, UpMin = 500, UpScope = [],
     UpStarts = None, UpEnds = Some 1000, UpMax = Some 1, UpMaxUser = None, UpActive = None, UpNote = []\<rparr>"

definition demo_promos :: promos_db where
  "demo_promos = snd (Redeem 5 5 ''SAVE10'' ''u1'' ''order:1'' 124 (snd (Upsert 1 demo_upsert \<lparr>coupons = [], redemptions = []\<rparr>)))"

lemma demo_promos_reach: "promos_step\<^sup>*\<^sup>* \<lparr>coupons = [], redemptions = []\<rparr> demo_promos"
  unfolding demo_promos_def
  by (rule rtranclp.rtrancl_into_rtrancl[OF r_into_rtranclp]) (rule promos_step.upsert, rule promos_step.redeem)

theorem coupon_uses_counted_witness:
  "map (\<lambda>c. (cp_code c, cp_uses c)) (coupons demo_promos) = [(''SAVE10'', 1)] \<and>
   distinct (map re_reference (redemptions demo_promos))"
proof -
  have "map (\<lambda>c. (cp_code c, cp_uses c)) (coupons demo_promos) = [(''SAVE10'', 1)]" by code_simp
  with coupon_uses_counted[OF demo_promos_reach] show ?thesis by blast
qed

theorem Discount_bounds_witness:
  "\<exists>c. cp_kind c = ''percent'' \<and> Discount c 1245 = 125 \<and> 10000 * Discount c 1245 \<le> 1245 * 1000 + 5000"
proof -
  let ?c = "hd (coupons demo_promos)"
  have k: "cp_kind ?c = ''percent''" "cp_percent ?c = 1000" "Discount ?c 1245 = 125" by code_simp+
  with Discount_bounds[of ?c 1245] show ?thesis by (intro exI[of _ ?c]) simp
qed

text \<open>
  C14. A coupon for everything is redeemed only while it lasts: a redemption that succeeds found the
  coupon active, started and not ended, and with it neither the number of redemptions of the coupon
  nor those of the user exceed their limits; a reference is never redeemed twice.
\<close>
theorem Redeem_limits:
  assumes "promos_inv s" "Redeem gnow dnow code u ref d s = (Inr (), s')"
    and "c \<in> set (coupons s)" "cp_code c = Normalize code" "cp_scope c = ScopeAll"
  shows "cp_active c \<and> (case cp_starts c of None \<Rightarrow> True | Some t \<Rightarrow> t \<le> gnow) \<and> (case cp_ends c of None \<Rightarrow> True | Some t \<Rightarrow> gnow \<le> t) \<and>
    (case cp_max c of None \<Rightarrow> True | Some m \<Rightarrow> int (count_where (\<lambda>r. re_coupon r = cp_code c) (redemptions s')) \<le> m) \<and>
    (case cp_max_user c of None \<Rightarrow> True | Some m \<Rightarrow> user_uses (cp_code c) u (redemptions s') \<le> m) \<and>
    ref \<notin> re_reference ` set (redemptions s)"
proof -
  have f: "find (\<lambda>c. cp_code c = Normalize code) (coupons s) = Some c"
    using find_key[of cp_code "coupons s" c] assms(1,3,4) by (simp add: promos_inv_def)
  have uses: "cp_uses c = int (count_where (\<lambda>r. re_coupon r = cp_code c) (redemptions s))"
    using assms(1,3) by (auto simp: promos_inv_def)
  have e: "check gnow c ScopeAll n = Some x \<Longrightarrow> \<not> err_Is x ErrNotApplicable" for n x
    using assms(5) by (auto simp: check_def err_defs split: if_splits option.splits)
  have "Redeem gnow dnow code u ref d s =
      (case check gnow c ScopeAll (user_uses (cp_code c) u (redemptions s)) of
         Some e \<Rightarrow> if \<not> err_Is e ErrNotApplicable then (Inl e, s) else redeem_rows dnow (cp_code c) u ref d s
       | None \<Rightarrow> redeem_rows dnow (cp_code c) u ref d s)"
    unfolding Redeem_def Let_def f assms(4) by simp
  with assms(2) e have ok: "check gnow c ScopeAll (user_uses (cp_code c) u (redemptions s)) = None"
    and rows: "redeem_rows dnow (cp_code c) u ref d s = (Inr (), s')"
    by (auto split: option.splits if_splits)
  have r: "redemptions s' = redemptions s @ [\<lparr>re_coupon = cp_code c, re_user = u, re_reference = ref, re_discount = d\<rparr>]"
    "ref \<notin> re_reference ` set (redemptions s)"
    using rows by (auto simp: redeem_rows_def exists_where_iff split: if_splits)
  show ?thesis
    using ok r by (auto simp: check_def uses user_uses_def table_simps split: if_splits option.splits)
qed

theorem Redeem_limits_witness:
  "(\<exists>s'. Redeem 5 5 ''save 10'' ''u1'' ''order:1'' 124 (snd (Upsert 1 demo_upsert \<lparr>coupons = [], redemptions = []\<rparr>)) = (Inr (), s')
     \<and> int (count_where (\<lambda>r. re_coupon r = ''SAVE10'') (redemptions s')) \<le> 1) \<and>
   fst (Redeem 6 6 ''SAVE10'' ''u2'' ''order:2'' 124 demo_promos) = Inl ErrUsedUp"
proof -
  let ?s = "snd (Upsert 1 demo_upsert \<lparr>coupons = [], redemptions = []\<rparr>)"
  let ?c = "hd (coupons ?s)"
  have c: "cp_code ?c = Normalize ''save 10''" "cp_scope ?c = ScopeAll" "cp_max ?c = Some 1" "cp_code ?c = ''SAVE10''" by code_simp+
  have m: "?c \<in> set (coupons ?s)" by (rule hd_in_set) code_simp
  have i: "promos_inv ?s" by (intro Upsert_inv) (simp add: promos_inv_def)
  have "fst (Redeem 5 5 ''save 10'' ''u1'' ''order:1'' 124 ?s) = Inr ()" by code_simp
  then obtain s' where r: "Redeem 5 5 ''save 10'' ''u1'' ''order:1'' 124 ?s = (Inr (), s')" by (metis prod.collapse)
  have "fst (Redeem 6 6 ''SAVE10'' ''u2'' ''order:2'' 124 demo_promos) = Inl ErrUsedUp" by code_simp
  with Redeem_limits[OF i r m c(1,2)] r show ?thesis by (simp add: c(3,4))
qed

text \<open>
  The limit of a coupon for one kind of purchase is not enforced: \<open>Redeem\<close> checks with the scope
  \<open>all\<close>, and the check stops at the scope, before the limits.
\<close>

lemma scoped_coupon_unlimited:
  assumes "find (\<lambda>c. cp_code c = Normalize code) (coupons s) = Some c" "cp_active c" "cp_scope c \<noteq> ScopeAll"
    and "0 \<le> d" "ref \<notin> re_reference ` set (redemptions s)"
  shows "fst (Redeem gnow dnow code u ref d s) = Inr ()"
  using assms by (auto simp: Redeem_def Let_def check_def err_defs redeem_rows_def exists_where_iff split: option.splits)

end
