(* ===== verification/Outbox.thy ===== *)
theory Outbox
  imports Httpx
begin

text \<open>
  The relay of the transactional outbox (\<open>workers/outbox/relay.go\<close>): one tick over the heads of the
  aggregates, the delay before a retry, and draining. The publisher is an argument: it answers each
  row with an error text or with success. The log of what it accepted is kept beside the table, so
  that the order in which consumers see the events can be stated. \<open>commit\<close> tells whether the
  transaction of a tick commits: when it does not, the rows stay as they were, but what was published
  was published.
\<close>

section \<open>The relay\<close>

type_synonym agg = "string \<times> string"

definition agg_of :: "outbox_row \<Rightarrow> agg" where
  "agg_of e = (AggregateType (ob_event e), AggregateID (ob_event e))"

definition BatchSize :: nat where "BatchSize = 50"

definition Backoff :: "int \<Rightarrow> time" where
  "Backoff attempt =
     (let attempt = (if attempt < 1 then 1 else attempt)
      in if attempt > 9 then 10 * Minute else 2 ^ nat attempt * Second)"

text \<open>The query of \<open>Tick\<close>: due rows that are the oldest unpublished of their aggregate.\<close>

definition head_of :: "outbox_row list \<Rightarrow> outbox_row \<Rightarrow> bool" where
  "head_of t e \<longleftrightarrow> ob_published e = None \<and>
     \<not> exists_where (\<lambda>p. ob_published p = None \<and> agg_of p = agg_of e \<and> ob_seq p < ob_seq e) t"

definition due_heads :: "time \<Rightarrow> outbox_row list \<Rightarrow> outbox_row list" where
  "due_heads dnow t = filter (\<lambda>e. ob_next e \<le> dnow \<and> head_of t e) t"

record relay =
  rl_rows :: "outbox_row list"
  rl_sent :: "(agg \<times> nat) list"

definition settle_row :: "time \<Rightarrow> string option \<Rightarrow> outbox_row \<Rightarrow> outbox_row" where
  "settle_row dnow perr e =
     (case perr of
        None \<Rightarrow> e\<lparr>ob_published := Some dnow, ob_error := None\<rparr>
      | Some msg \<Rightarrow> e\<lparr>ob_attempts := ob_attempts e + 1, ob_next := dnow + Backoff (ob_attempts e + 1),
          ob_error := Some (take 500 msg)\<rparr>)"

fun relay_loop :: "time \<Rightarrow> (outbox_row \<Rightarrow> string option) \<Rightarrow> outbox_row list \<Rightarrow> relay \<Rightarrow> relay" where
  "relay_loop dnow pub [] s = s"
| "relay_loop dnow pub (e # es) s =
     relay_loop dnow pub es
       \<lparr>rl_rows = upd_where (\<lambda>x. ob_seq x = ob_seq e) (settle_row dnow (pub e)) (rl_rows s),
        rl_sent = (if pub e = None then rl_sent s @ [(agg_of e, ob_seq e)] else rl_sent s)\<rparr>"

definition Tick :: "time \<Rightarrow> (outbox_row \<Rightarrow> string option) \<Rightarrow> bool \<Rightarrow> relay \<Rightarrow> nat \<times> relay" where
  "Tick dnow pub commit s =
     (let batch = take BatchSize (due_heads dnow (rl_rows s));
          s' = relay_loop dnow pub batch s
      in (length batch, if commit then s' else s'\<lparr>rl_rows := rl_rows s\<rparr>))"

text \<open>\<open>Drain\<close>: ticks until one handles nothing; the clock reads \<open>clk k\<close> in the \<open>k\<close>-th.\<close>

partial_function (option) Drain :: "(nat \<Rightarrow> time) \<Rightarrow> nat \<Rightarrow> (outbox_row \<Rightarrow> string option) \<Rightarrow> relay \<Rightarrow> relay option" where
  "Drain clk k pub s =
     (let (n, s') = Tick (clk k) pub True s
      in if n = 0 then Some s' else Drain clk (Suc k) pub s')"

section \<open>The delay before a retry\<close>

text \<open>
  A failed event waits at least two seconds and at most ten minutes, and never less after more
  failures: the delays double from 2 s to 512 s and stay at ten minutes from the tenth attempt on.
\<close>
theorem Backoff_bounds:
  "2 * Second \<le> Backoff n \<and> Backoff n \<le> 10 * Minute \<and> Backoff n \<le> Backoff (n + 1) \<and>
   (1 \<le> n \<and> n < 9 \<longrightarrow> Backoff (n + 1) = 2 * Backoff n)"
proof -
  consider "n < 1" | "n \<in> {1, 2, 3, 4, 5, 6, 7, 8, 9}" | "n > 9" by force
  then show ?thesis
  proof cases
    case 2
    then show ?thesis by (auto simp: Backoff_def)
  next
    case 1
    then show ?thesis by (cases "n = 0") (auto simp: Backoff_def)
  qed (simp add: Backoff_def)
qed

theorem Backoff_bounds_witness: "Backoff 4 = 2 * Backoff 3 \<and> Backoff 3 = 8 * Second"
proof -
  have "Backoff 3 = 8 * Second" by (simp add: Backoff_def)
  with Backoff_bounds[of 3] show ?thesis by simp
qed

section \<open>Events of an aggregate are published in order\<close>

definition of_agg :: "agg \<Rightarrow> outbox_row list \<Rightarrow> outbox_row list" where
  "of_agg a t = filter (\<lambda>r. agg_of r = a) t"

definition sent_of :: "agg \<Rightarrow> (agg \<times> nat) list \<Rightarrow> nat list" where
  "sent_of a l = map snd (filter (\<lambda>x. fst x = a) l)"

text \<open>
  Of an aggregate's rows a prefix \<open>P\<close> is published. What the publisher accepted, repetitions of one
  event in a row aside, is that prefix, or one event more when a tick that published it did not commit.
\<close>

definition agg_ok :: "agg \<Rightarrow> relay \<Rightarrow> outbox_row list \<Rightarrow> outbox_row list \<Rightarrow> bool" where
  "agg_ok a s P U \<longleftrightarrow> of_agg a (rl_rows s) = P @ U \<and> (\<forall>r \<in> set P. ob_published r \<noteq> None) \<and> (\<forall>r \<in> set U. ob_published r = None) \<and>
     (remdups_adj (sent_of a (rl_sent s)) = map ob_seq P \<or>
      (\<exists>u V. U = u # V \<and> remdups_adj (sent_of a (rl_sent s)) = map ob_seq P @ [ob_seq u]))"

definition relay_inv :: "relay \<Rightarrow> bool" where
  "relay_inv s \<longleftrightarrow> outbox_inv (rl_rows s) \<and> (\<forall>a. \<exists>P U. agg_ok a s P U)"

lemma settle_row_frame [simp]:
  "ob_seq (settle_row d p e) = ob_seq e" "agg_of (settle_row d p e) = agg_of e" "ob_event (settle_row d p e) = ob_event e"
  "ob_published (settle_row d p e) = (if p = None then Some d else ob_published e)"
  by (cases p; simp add: settle_row_def agg_of_def)+

lemma remdups_adj_snoc:
  "remdups_adj (xs @ [x]) = (if xs \<noteq> [] \<and> last xs = x then remdups_adj xs else remdups_adj xs @ [x])"
  by (cases "xs = []") (auto simp: remdups_adj_append'')

lemma outbox_seq_unique: "outbox_inv t \<Longrightarrow> x \<in> set t \<Longrightarrow> y \<in> set t \<Longrightarrow> ob_seq x = ob_seq y \<Longrightarrow> x = y"
  using outbox_inv_distinct by (metis distinct_keyD)

lemma outbox_sorted: "outbox_inv t \<Longrightarrow> sorted_wrt (\<lambda>x y. ob_seq x < ob_seq y) t"
  by (subst sorted_wrt_map[of "(<)" ob_seq, symmetric]) (simp only: outbox_inv_def sorted_wrt_upt)

lemma of_agg_upd: "of_agg a (upd_where (\<lambda>x. ob_seq x = i) (settle_row d p) t) = upd_where (\<lambda>x. ob_seq x = i) (settle_row d p) (of_agg a t)"
  by (induction t) (auto simp: of_agg_def table_simps)

text \<open>The head of an aggregate is the first of its unpublished rows.\<close>

lemma head_is_first:
  assumes "outbox_inv (rl_rows s)" "agg_ok (agg_of e) s P U" "e \<in> set (rl_rows s)" "head_of (rl_rows s) e"
  obtains V where "U = e # V"
proof -
  have all: "of_agg (agg_of e) (rl_rows s) = P @ U" using assms(2) by (simp add: agg_ok_def)
  have n: "ob_published e = None" using assms(4) by (simp add: head_of_def)
  have "e \<in> set (of_agg (agg_of e) (rl_rows s))" using assms(3) by (simp add: of_agg_def)
  with all n assms(2) have u: "e \<in> set U" by (auto simp: agg_ok_def)
  then obtain u V where U: "U = u # V" by (cases U) auto
  have "u = e"
  proof (rule ccontr)
    assume "u \<noteq> e"
    with u U have v: "e \<in> set V" by auto
    have "sorted_wrt (\<lambda>x y. ob_seq x < ob_seq y) (of_agg (agg_of e) (rl_rows s))"
      unfolding of_agg_def by (intro sorted_wrt_filter outbox_sorted assms(1))
    then have lt: "ob_seq u < ob_seq e" using v by (simp add: all U sorted_wrt_append)
    have "u \<in> set (of_agg (agg_of e) (rl_rows s))" by (simp add: all U)
    then have "u \<in> set (rl_rows s)" "agg_of u = agg_of e" by (auto simp: of_agg_def)
    moreover have "ob_published u = None" using assms(2) U by (simp add: agg_ok_def)
    ultimately show False using assms(4) lt by (auto simp: head_of_def exists_where_iff)
  qed
  with U that show ?thesis by blast
qed

lemma sent_of_snoc:
  "sent_of a (l @ [(b, i)]) = (if a = b then sent_of a l @ [i] else sent_of a l)"
  by (simp add: sent_of_def)

text \<open>What the publisher accepts of a head keeps the order, whether the row is marked or not.\<close>

lemma sent_head:
  assumes "outbox_inv (rl_rows s)" "agg_ok (agg_of e) s P (e # V)"
  shows "remdups_adj (sent_of (agg_of e) (rl_sent s @ [(agg_of e, ob_seq e)])) = map ob_seq P @ [ob_seq e]"
proof -
  let ?S = "sent_of (agg_of e) (rl_sent s)"
  have all: "of_agg (agg_of e) (rl_rows s) = P @ e # V" using assms(2) by (simp add: agg_ok_def)
  have "distinct (map ob_seq (of_agg (agg_of e) (rl_rows s)))"
    unfolding of_agg_def using outbox_inv_distinct[OF assms(1)] by (rule distinct_map_filter)
  then have ne: "ob_seq e \<notin> set (map ob_seq P)" by (simp add: all)
  from assms(2) consider "remdups_adj ?S = map ob_seq P" | "remdups_adj ?S = map ob_seq P @ [ob_seq e]"
    by (auto simp: agg_ok_def)
  then show ?thesis
  proof cases
    case 1
    have "?S \<noteq> [] \<Longrightarrow> last ?S \<noteq> ob_seq e"
      using 1 ne by (metis last_in_set last_remdups_adj remdups_adj_Nil_iff)
    with 1 show ?thesis by (auto simp: sent_of_snoc remdups_adj_snoc)
  next
    case 2
    then have "?S \<noteq> []" by auto
    moreover have "last ?S = ob_seq e" using 2 by (metis last_remdups_adj last_snoc)
    ultimately show ?thesis using 2 by (simp add: sent_of_snoc remdups_adj_snoc)
  qed
qed

definition one :: "time \<Rightarrow> (outbox_row \<Rightarrow> string option) \<Rightarrow> bool \<Rightarrow> outbox_row \<Rightarrow> relay \<Rightarrow> relay" where
  "one dnow pub commit e s =
     \<lparr>rl_rows = (if commit then upd_where (\<lambda>x. ob_seq x = ob_seq e) (settle_row dnow (pub e)) (rl_rows s) else rl_rows s),
      rl_sent = (if pub e = None then rl_sent s @ [(agg_of e, ob_seq e)] else rl_sent s)\<rparr>"

lemma upd_rows_id: "\<forall>r \<in> set t. ob_seq r \<noteq> i \<Longrightarrow> upd_where (\<lambda>x. ob_seq x = i) f t = t"
  by (induction t) (auto simp: table_simps)

lemma one_other_rows:
  assumes "outbox_inv (rl_rows s)" "e \<in> set (rl_rows s)" "a \<noteq> agg_of e"
  shows "of_agg a (rl_rows (one dnow pub commit e s)) = of_agg a (rl_rows s)"
proof -
  have "\<forall>r \<in> set (of_agg a (rl_rows s)). ob_seq r \<noteq> ob_seq e"
    using assms outbox_seq_unique[OF assms(1)] by (auto simp: of_agg_def)
  then show ?thesis by (simp add: one_def of_agg_upd upd_rows_id)
qed

lemma one_inv:
  assumes "relay_inv s" "e \<in> set (rl_rows s)" "head_of (rl_rows s) e"
  shows "relay_inv (one dnow pub commit e s)"
  unfolding relay_inv_def
proof (intro conjI allI)
  have o: "outbox_inv (rl_rows s)" using assms(1) by (simp add: relay_inv_def)
  have "map ob_seq (rl_rows (one dnow pub commit e s)) = map ob_seq (rl_rows s)"
    "length (rl_rows (one dnow pub commit e s)) = length (rl_rows s)" by (simp_all add: one_def)
  then show "outbox_inv (rl_rows (one dnow pub commit e s))" using o by (simp only: outbox_inv_def)
  fix a
  obtain P U where ok: "agg_ok a s P U" using assms(1) unfolding relay_inv_def by blast
  show "\<exists>P U. agg_ok a (one dnow pub commit e s) P U"
  proof (cases "a = agg_of e")
    case False
    then have "agg_ok a (one dnow pub commit e s) P U"
      using ok one_other_rows[OF o assms(2) False] by (simp add: agg_ok_def) (simp add: one_def sent_of_snoc)
    then show ?thesis by blast
  next
    case True
    obtain V where U: "U = e # V" using head_is_first[OF o ok[unfolded True] assms(2,3)] by blast
    note ok' = ok[unfolded True U]
    have all: "of_agg (agg_of e) (rl_rows s) = P @ e # V" and pub: "\<forall>r \<in> set P. ob_published r \<noteq> None"
      and unpub: "ob_published e = None" "\<forall>r \<in> set V. ob_published r = None" using ok' by (auto simp: agg_ok_def)
    have "distinct (map ob_seq (of_agg (agg_of e) (rl_rows s)))"
      unfolding of_agg_def using outbox_inv_distinct[OF o] by (rule distinct_map_filter)
    then have "ob_seq e \<notin> ob_seq ` set P" "ob_seq e \<notin> ob_seq ` set V" by (simp_all add: all)
    then have d: "\<forall>r \<in> set P. ob_seq r \<noteq> ob_seq e" "\<forall>r \<in> set V. ob_seq r \<noteq> ob_seq e" by (metis image_eqI)+
    then have rows: "of_agg (agg_of e) (upd_where (\<lambda>x. ob_seq x = ob_seq e) (settle_row dnow (pub e)) (rl_rows s))
        = P @ settle_row dnow (pub e) e # V"
      by (simp add: of_agg_upd all table_simps upd_rows_id)
    note sent = sent_head[OF o ok']
    show ?thesis
    proof (cases "pub e")
      case None
      show ?thesis
      proof (cases commit)
        case True
        then have "agg_ok (agg_of e) (one dnow pub commit e s) (P @ [settle_row dnow (pub e) e]) V"
          using None rows sent pub unpub by (auto simp: agg_ok_def one_def)
        with \<open>a = agg_of e\<close> show ?thesis by blast
      next
        case False
        then have "agg_ok (agg_of e) (one dnow pub commit e s) P (e # V)"
          using None all sent pub unpub by (auto simp: agg_ok_def one_def)
        with \<open>a = agg_of e\<close> show ?thesis by blast
      qed
    next
      case (Some msg)
      have "agg_ok (agg_of e) (one dnow pub commit e s) P ((if commit then settle_row dnow (pub e) e else e) # V)"
        using Some rows all ok' pub unpub by (auto simp: agg_ok_def one_def)
      with \<open>a = agg_of e\<close> show ?thesis by blast
    qed
  qed
qed

lemma one_keeps_heads:
  assumes "outbox_inv (rl_rows s)" "e \<in> set (rl_rows s)" "e' \<in> set (rl_rows s)" "head_of (rl_rows s) e'" "agg_of e' \<noteq> agg_of e"
  shows "e' \<in> set (rl_rows (one dnow pub commit e s))" "head_of (rl_rows (one dnow pub commit e s)) e'"
proof -
  have r: "of_agg (agg_of e') (rl_rows (one dnow pub commit e s)) = of_agg (agg_of e') (rl_rows s)"
    by (rule one_other_rows[OF assms(1,2,5)])
  have "e' \<in> set (of_agg (agg_of e') (rl_rows s))" using assms(3) by (simp add: of_agg_def)
  then have "e' \<in> set (of_agg (agg_of e') (rl_rows (one dnow pub commit e s)))" by (simp only: r)
  then show "e' \<in> set (rl_rows (one dnow pub commit e s))" by (simp add: of_agg_def)
  show "head_of (rl_rows (one dnow pub commit e s)) e'"
    using assms(4) arg_cong[OF r, of set] by (auto simp: head_of_def exists_where_iff of_agg_def set_eq_iff)
qed

definition batch_of :: "outbox_row list \<Rightarrow> outbox_row list \<Rightarrow> bool" where
  "batch_of t es \<longleftrightarrow> (\<forall>e \<in> set es. e \<in> set t \<and> head_of t e) \<and> distinct (map agg_of es)"

lemma due_heads_batch:
  assumes "outbox_inv t"
  shows "batch_of t (take n (due_heads dnow t))"
proof -
  have "x = y" if "x \<in> set t" "y \<in> set t" "head_of t x" "head_of t y" "agg_of x = agg_of y" for x y
  proof -
    have "\<not> ob_seq x < ob_seq y" "\<not> ob_seq y < ob_seq x"
      using that by (auto simp: head_of_def exists_where_iff)
    then show ?thesis using outbox_seq_unique[OF assms that(1,2)] by simp
  qed
  moreover have "distinct t" using outbox_inv_distinct[OF assms] by (simp add: distinct_map)
  ultimately have "distinct (map agg_of (due_heads dnow t))"
    by (auto simp: due_heads_def distinct_map inj_on_def)
  then show ?thesis unfolding batch_of_def
    by (auto simp: due_heads_def take_map[symmetric] dest: in_set_takeD intro: distinct_take)
qed

lemma batch_inv:
  "relay_inv s \<Longrightarrow> batch_of (rl_rows s) es \<Longrightarrow> relay_inv (fold (one dnow pub commit) es s)"
proof (induction es arbitrary: s)
  case (Cons e es)
  have o: "outbox_inv (rl_rows s)" using Cons.prems(1) by (simp add: relay_inv_def)
  have e: "e \<in> set (rl_rows s)" "head_of (rl_rows s) e" using Cons.prems(2) by (auto simp: batch_of_def)
  have "batch_of (rl_rows (one dnow pub commit e s)) es"
    unfolding batch_of_def
  proof (intro conjI ballI)
    fix x assume x: "x \<in> set es"
    then have "x \<in> set (rl_rows s)" "head_of (rl_rows s) x" "agg_of x \<noteq> agg_of e"
      using Cons.prems(2) by (auto simp: batch_of_def) (metis image_eqI)
    from one_keeps_heads[OF o e(1) this]
    show "x \<in> set (rl_rows (one dnow pub commit e s))" "head_of (rl_rows (one dnow pub commit e s)) x" by blast+
  qed (use Cons.prems(2) in \<open>simp add: batch_of_def\<close>)
  from Cons.IH[OF one_inv[OF Cons.prems(1) e] this] show ?case by simp
qed simp

lemma relay_loop_fold: "relay_loop dnow pub es s = fold (one dnow pub True) es s"
  by (induction es arbitrary: s) (simp_all add: one_def)

lemma relay_loop_sent:
  "rl_sent (relay_loop dnow pub es s) = rl_sent s @ map (\<lambda>e. (agg_of e, ob_seq e)) (filter (\<lambda>e. pub e = None) es)"
  by (induction es arbitrary: s) auto

lemma no_commit_fold:
  "fold (one dnow pub False) es s = (relay_loop dnow pub es s)\<lparr>rl_rows := rl_rows s\<rparr>"
proof -
  have "rl_rows (fold (one dnow pub False) es s) = rl_rows s"
    by (induction es arbitrary: s) (simp_all add: one_def)
  moreover have "rl_sent (fold (one dnow pub False) es s) =
      rl_sent s @ map (\<lambda>e. (agg_of e, ob_seq e)) (filter (\<lambda>e. pub e = None) es)"
    by (induction es arbitrary: s) (simp_all add: one_def)
  ultimately show ?thesis by (simp add: relay_loop_sent)
qed

lemma Tick_inv: "relay_inv s \<Longrightarrow> relay_inv (snd (Tick dnow pub commit s))"
  using batch_inv[of s "take BatchSize (due_heads dnow (rl_rows s))" dnow pub commit] due_heads_batch[of "rl_rows s"]
  by (auto simp: Tick_def Let_def relay_loop_fold[symmetric] no_commit_fold[symmetric] relay_inv_def split: if_splits)


lemma of_agg_append: "of_agg a (t @ u) = of_agg a t @ of_agg a u"
  by (simp add: of_agg_def)

lemma emit_relay_inv:
  assumes "relay_inv s"
  shows "relay_inv (s\<lparr>rl_rows := Emit now at ai et b (rl_rows s)\<rparr>)"
  unfolding relay_inv_def
proof (intro conjI allI)
  show "outbox_inv (rl_rows (s\<lparr>rl_rows := Emit now at ai et b (rl_rows s)\<rparr>))"
    using assms by (auto simp: relay_inv_def)
  fix a
  obtain P U where ok: "agg_ok a s P U" using assms unfolding relay_inv_def by blast
  obtain r where r: "Emit now at ai et b (rl_rows s) = rl_rows s @ [r]" "ob_published r = None"
    by (simp add: Emit_def)
  have "agg_ok a (s\<lparr>rl_rows := Emit now at ai et b (rl_rows s)\<rparr>) P (U @ of_agg a [r])"
    using ok r(2) by (auto simp: agg_ok_def r(1) of_agg_append) (auto simp: of_agg_def split: if_splits)
  then show "\<exists>P U. agg_ok a (s\<lparr>rl_rows := Emit now at ai et b (rl_rows s)\<rparr>) P U" by blast
qed

inductive relay_step :: "relay \<Rightarrow> relay \<Rightarrow> bool" where
  emit: "relay_step s (s\<lparr>rl_rows := Emit now at ai et b (rl_rows s)\<rparr>)"
| tick: "relay_step s (snd (Tick dnow pub commit s))"

inductive_cases relay_stepE: "relay_step s s'"

lemma relay_reach_inv: "relay_step\<^sup>*\<^sup>* s s' \<Longrightarrow> relay_inv s \<Longrightarrow> relay_inv s'"
  by (induction rule: rtranclp_induct) (auto elim!: relay_stepE simp: Tick_inv emit_relay_inv)

lemma relay_inv_empty: "relay_inv \<lparr>rl_rows = [], rl_sent = []\<rparr>"
  by (auto simp: relay_inv_def outbox_inv_def agg_ok_def of_agg_def sent_of_def)

text \<open>What one loop of a tick does to a row that is not in its batch, and to one that it sends.\<close>

lemma relay_loop_other:
  "r \<in> set (rl_rows s) \<Longrightarrow> \<forall>e \<in> set es. ob_seq e \<noteq> ob_seq r \<Longrightarrow> r \<in> set (rl_rows (relay_loop dnow pub es s))"
  by (induction es arbitrary: s) (auto simp: set_upd_where)

lemma relay_loop_published:
  "\<exists>r \<in> set (rl_rows s). ob_seq r = i \<and> agg_of r = a \<and> ob_published r \<noteq> None \<Longrightarrow>
   \<exists>r \<in> set (rl_rows (relay_loop dnow pub es s)). ob_seq r = i \<and> agg_of r = a \<and> ob_published r \<noteq> None"
proof (induction es arbitrary: s)
  case (Cons e es)
  then obtain r where r: "r \<in> set (rl_rows s)" "ob_seq r = i" "agg_of r = a" "ob_published r \<noteq> None" by blast
  let ?t = "upd_where (\<lambda>x. ob_seq x = ob_seq e) (settle_row dnow (pub e)) (rl_rows s)"
  have "(if ob_seq r = ob_seq e then settle_row dnow (pub e) r else r) \<in> set ?t" using r(1) by (auto simp: set_upd_where)
  then have "\<exists>r \<in> set ?t. ob_seq r = i \<and> agg_of r = a \<and> ob_published r \<noteq> None"
    by (rule bexI[rotated]) (use r(2-4) in auto)
  then show ?case using Cons.IH by simp
qed simp

lemma relay_loop_settles:
  "e \<in> set es \<Longrightarrow> pub e = None \<Longrightarrow> \<forall>x \<in> set es. x \<in> set (rl_rows s) \<Longrightarrow> distinct (map ob_seq es) \<Longrightarrow>
   \<exists>r \<in> set (rl_rows (relay_loop dnow pub es s)). ob_seq r = ob_seq e \<and> agg_of r = agg_of e \<and> ob_published r \<noteq> None"
proof (induction es arbitrary: s)
  case (Cons x es)
  let ?s = "\<lparr>rl_rows = upd_where (\<lambda>y. ob_seq y = ob_seq x) (settle_row dnow (pub x)) (rl_rows s),
        rl_sent = (if pub x = None then rl_sent s @ [(agg_of x, ob_seq x)] else rl_sent s)\<rparr>"
  show ?case
  proof (cases "e = x")
    case True
    have "settle_row dnow (pub x) x \<in> set (rl_rows ?s)" using Cons.prems(3) by (auto simp: set_upd_where)
    then have "\<exists>r \<in> set (rl_rows ?s). ob_seq r = ob_seq e \<and> agg_of r = agg_of e \<and> ob_published r \<noteq> None"
      by (rule bexI[rotated]) (use True Cons.prems(2) in auto)
    then show ?thesis using relay_loop_published by simp
  next
    case False
    have "ob_seq y \<noteq> ob_seq x" if "y \<in> set es" for y using Cons.prems(4) that by (auto simp: image_iff)
    then have "\<forall>y \<in> set es. y \<in> set (rl_rows ?s)" using Cons.prems(3) by (auto simp: set_upd_where)
    then show ?thesis using Cons.IH[of ?s] Cons.prems False by simp
  qed
qed simp

definition batch :: "time \<Rightarrow> relay \<Rightarrow> outbox_row list" where
  "batch dnow s = take BatchSize (due_heads dnow (rl_rows s))"

lemma batch_rows: "e \<in> set (batch dnow s) \<Longrightarrow> e \<in> set (rl_rows s) \<and> ob_published e = None"
  by (auto simp: batch_def due_heads_def head_of_def dest: in_set_takeD)

lemma Tick_batch:
  "rl_rows (snd (Tick dnow pub commit s)) = (if commit then rl_rows (relay_loop dnow pub (batch dnow s) s) else rl_rows s)"
  "rl_sent (snd (Tick dnow pub commit s)) =
     rl_sent s @ map (\<lambda>e. (agg_of e, ob_seq e)) (filter (\<lambda>e. pub e = None) (batch dnow s))"
  by (simp_all add: Tick_def Let_def batch_def relay_loop_sent)

text \<open>A published row stays as it is, and nothing more is sent for it.\<close>

lemma published_step:
  assumes "relay_step s s'" "relay_inv s" "r \<in> set (rl_rows s)" "ob_published r \<noteq> None"
  shows "r \<in> set (rl_rows s') \<and> count_list (rl_sent s') (a, ob_seq r) = count_list (rl_sent s) (a, ob_seq r)"
  using assms(1)
proof (cases rule: relay_step.cases)
  case (emit now at ai et b)
  then show ?thesis using assms(3) by (simp add: Emit_def)
next
  case (tick dnow pub commit)
  have o: "outbox_inv (rl_rows s)" using assms(2) by (simp add: relay_inv_def)
  have ne: "\<forall>e \<in> set (batch dnow s). ob_seq e \<noteq> ob_seq r"
    using batch_rows outbox_seq_unique[OF o _ assms(3)] assms(4) by metis
  then have "(a, ob_seq r) \<notin> set (map (\<lambda>e. (agg_of e, ob_seq e)) (filter (\<lambda>e. pub e = None) (batch dnow s)))" by auto
  then show ?thesis using ne relay_loop_other[OF assms(3)] assms(3) by (simp add: tick Tick_batch count_list_0_iff)
qed

lemma published_for_good:
  assumes "relay_step\<^sup>*\<^sup>* s s'" "relay_inv s" "r \<in> set (rl_rows s)" "ob_published r \<noteq> None"
  shows "r \<in> set (rl_rows s') \<and> count_list (rl_sent s') (a, ob_seq r) = count_list (rl_sent s) (a, ob_seq r)"
  using assms(1)
proof (induction rule: rtranclp_induct)
  case (step s1 s2)
  then show ?case using published_step[OF step.hyps(2) relay_reach_inv[OF step.hyps(1) assms(2)] _ assms(4)] by metis
qed (use assms(3) in simp)

text \<open>A tick that commits marks what it sent.\<close>

lemma Tick_marks:
  assumes "relay_inv s"
  shows "\<exists>new. rl_sent (snd (Tick dnow pub True s)) = rl_sent s @ new \<and>
    (\<forall>(b, i) \<in> set new. \<exists>r \<in> set (rl_rows (snd (Tick dnow pub True s))). ob_seq r = i \<and> agg_of r = b \<and> ob_published r \<noteq> None)"
proof -
  have o: "outbox_inv (rl_rows s)" using assms by (simp add: relay_inv_def)
  have "distinct (map ob_seq (batch dnow s))"
    unfolding batch_def due_heads_def take_map[symmetric] using outbox_inv_distinct[OF o]
    by (simp add: distinct_map_filter distinct_take flip: take_map)
  then have "\<exists>r \<in> set (rl_rows (relay_loop dnow pub (batch dnow s) s)). ob_seq r = ob_seq e \<and> agg_of r = agg_of e \<and> ob_published r \<noteq> None"
    if "e \<in> set (batch dnow s)" "pub e = None" for e
    using relay_loop_settles[of e "batch dnow s" pub s dnow] that batch_rows by blast
  then show ?thesis by (auto simp: Tick_batch)
qed

text \<open>
  C12. The events of an aggregate reach the publisher in the order in which they were emitted, none is
  skipped, and one is repeated only until its tick commits. Whatever ticks run, whatever fails and
  whichever ticks do not commit: what the publisher accepted of an aggregate is, immediate
  repetitions aside, an initial part of its events, and it covers every event marked as published. A
  tick that commits marks every event it has sent as published, and nothing more is ever sent for an
  event that is marked.
\<close>
theorem relay_order:
  assumes "relay_step\<^sup>*\<^sup>* \<lparr>rl_rows = [], rl_sent = []\<rparr> s"
  shows "(\<exists>n. remdups_adj (sent_of a (rl_sent s)) = take n (map ob_seq (of_agg a (rl_rows s)))) \<and>
    (\<forall>r \<in> set (of_agg a (rl_rows s)). ob_published r \<noteq> None \<longrightarrow> ob_seq r \<in> set (sent_of a (rl_sent s))) \<and>
    (\<exists>new. rl_sent (snd (Tick dnow pub True s)) = rl_sent s @ new \<and>
       (\<forall>(b, i) \<in> set new. \<exists>r \<in> set (rl_rows (snd (Tick dnow pub True s))). ob_seq r = i \<and> agg_of r = b \<and> ob_published r \<noteq> None)) \<and>
    (\<forall>r \<in> set (rl_rows s). ob_published r \<noteq> None \<longrightarrow>
       (\<forall>s'. relay_step\<^sup>*\<^sup>* s s' \<longrightarrow> count_list (rl_sent s') (agg_of r, ob_seq r) = count_list (rl_sent s) (agg_of r, ob_seq r)))"
proof -
  have inv: "relay_inv s" by (rule relay_reach_inv[OF assms relay_inv_empty])
  then obtain P U where ok: "agg_ok a s P U" unfolding relay_inv_def by blast
  then have all: "of_agg a (rl_rows s) = P @ U" by (simp add: agg_ok_def)
  from ok consider "remdups_adj (sent_of a (rl_sent s)) = map ob_seq P"
    | u V where "U = u # V" "remdups_adj (sent_of a (rl_sent s)) = map ob_seq P @ [ob_seq u]"
    by (auto simp: agg_ok_def)
  then have "(\<exists>n. remdups_adj (sent_of a (rl_sent s)) = take n (map ob_seq (of_agg a (rl_rows s)))) \<and>
      ob_seq ` set P \<subseteq> set (sent_of a (rl_sent s))"
  proof cases
    case 1
    have "ob_seq ` set P = set (sent_of a (rl_sent s))" by (metis 1 remdups_adj_set set_map)
    with 1 show ?thesis by (auto simp: all intro!: exI[of _ "length P"])
  next
    case 2
    have "set (map ob_seq P @ [ob_seq u]) = set (sent_of a (rl_sent s))" by (metis 2(2) remdups_adj_set)
    with 2 show ?thesis by (auto simp: all intro!: exI[of _ "Suc (length P)"])
  qed
  moreover have "\<forall>r \<in> set U. ob_published r = None" using ok by (simp add: agg_ok_def)
  ultimately have "(\<exists>n. remdups_adj (sent_of a (rl_sent s)) = take n (map ob_seq (of_agg a (rl_rows s)))) \<and>
      (\<forall>r \<in> set (of_agg a (rl_rows s)). ob_published r \<noteq> None \<longrightarrow> ob_seq r \<in> set (sent_of a (rl_sent s)))" by (auto simp: all)
  with Tick_marks[OF inv, of dnow pub] published_for_good[OF _ inv] show ?thesis by blast
qed

definition demo_relay :: relay where
  "demo_relay = \<lparr>rl_rows = Emit 3 ''ride'' ''r2'' ''B'' [] (Emit 2 ''ride'' ''r1'' ''C'' [] (Emit 1 ''ride'' ''r1'' ''A'' [] [])), rl_sent = []\<rparr>"

lemma demo_relay_reach: "relay_step\<^sup>*\<^sup>* \<lparr>rl_rows = [], rl_sent = []\<rparr> demo_relay"
proof -
  have e: "relay_step \<lparr>rl_rows = t, rl_sent = []\<rparr> \<lparr>rl_rows = Emit now at ai et b t, rl_sent = []\<rparr>" for now at ai et b t
    using relay_step.emit[of "\<lparr>rl_rows = t, rl_sent = []\<rparr>" now at ai et b] by simp
  show ?thesis unfolding demo_relay_def by (meson e r_into_rtranclp rtranclp_trans)
qed

definition demo_sent :: relay where
  "demo_sent = snd (Tick 9 (\<lambda>_. None) True (snd (Tick 9 (\<lambda>_. None) False demo_relay)))"

theorem relay_order_witness:
  "sent_of (''ride'', ''r1'') (rl_sent demo_sent) = [1, 1] \<and>
   count_list (rl_sent (snd (Tick 10 (\<lambda>_. None) True demo_sent))) ((''ride'', ''r1''), 1) = 2"
proof -
  let ?t = "snd (Tick 10 (\<lambda>_. None) True demo_sent)"
  let ?r = "hd (rl_rows demo_sent)"
  have r: "relay_step\<^sup>*\<^sup>* \<lparr>rl_rows = [], rl_sent = []\<rparr> demo_sent"
    unfolding demo_sent_def using demo_relay_reach by (meson relay_step.tick rtranclp.rtrancl_into_rtrancl)
  have 1: "relay_step\<^sup>*\<^sup>* demo_sent ?t" by (meson relay_step.tick r_into_rtranclp)
  have 2: "ob_published ?r = Some 9" "agg_of ?r = (''ride'', ''r1'')" "ob_seq ?r = 1" "rl_rows demo_sent \<noteq> []"
    and 3: "sent_of (''ride'', ''r1'') (rl_sent demo_sent) = [1, 1]" "count_list (rl_sent demo_sent) ((''ride'', ''r1''), 1) = 2"
    by code_simp+
  have "ob_published ?r \<noteq> None \<longrightarrow> count_list (rl_sent ?t) (agg_of ?r, ob_seq ?r) = count_list (rl_sent demo_sent) (agg_of ?r, ob_seq ?r)"
    using relay_order[OF r, of "(''ride'', ''r1'')"] 1 hd_in_set[OF 2(4)] by blast
  then show ?thesis unfolding 2 using 3 by simp
qed

section \<open>Draining ends\<close>

definition unpublished :: "relay \<Rightarrow> nat" where
  "unpublished s = count_where (\<lambda>e. ob_published e = None) (rl_rows s)"

lemma take_due_nonempty:
  assumes "outbox_inv t" "\<exists>e \<in> set t. ob_published e = None \<and> ob_next e \<le> dnow" "\<forall>e \<in> set t. ob_next e \<le> dnow"
  shows "due_heads dnow t \<noteq> []"
proof -
  obtain i where i: "\<exists>e \<in> set t. ob_published e = None \<and> ob_seq e = i"
    and least: "\<forall>e \<in> set t. ob_published e = None \<longrightarrow> i \<le> ob_seq e"
  proof -
    let ?A = "{ob_seq e | e. e \<in> set t \<and> ob_published e = None}"
    have "?A \<noteq> {}" using assms(2) by auto
    then have "(LEAST n. n \<in> ?A) \<in> ?A" by (metis (mono_tags, lifting) LeastI_ex all_not_in_conv)
    moreover have "\<forall>n \<in> ?A. (LEAST n. n \<in> ?A) \<le> n" by (auto intro: Least_le)
    ultimately show ?thesis by (intro that[of "LEAST n. n \<in> ?A"]) auto
  qed
  then obtain e where "e \<in> set t" "ob_published e = None" "ob_seq e = i" by blast
  moreover from this least have "head_of t e" by (auto simp: head_of_def exists_where_iff not_less)
  ultimately have "e \<in> set (due_heads dnow t)" using assms(3) by (simp add: due_heads_def)
  then show ?thesis by auto
qed


lemma one_unpublished_le: "unpublished (one dnow pub True e s) \<le> unpublished s"
proof -
  have "count_where (\<lambda>x. ob_published x = None) (upd_where (\<lambda>x. ob_seq x = i) (settle_row dnow p) t)
      \<le> count_where (\<lambda>x. ob_published x = None) t" for i p t
    by (induction t) (auto simp: table_simps)
  then show ?thesis by (simp add: unpublished_def one_def)
qed

lemma one_unpublished_less:
  assumes "e \<in> set (rl_rows s)" "ob_published e = None" "pub e = None"
  shows "unpublished (one dnow pub True e s) < unpublished s"
proof -
  have le: "count_where (\<lambda>x. ob_published x = None) (upd_where (\<lambda>x. ob_seq x = i) (settle_row dnow p) t)
      \<le> count_where (\<lambda>x. ob_published x = None) t" for i p t
    by (induction t) (auto simp: table_simps)
  have "e \<in> set t \<Longrightarrow> count_where (\<lambda>x. ob_published x = None) (upd_where (\<lambda>x. ob_seq x = ob_seq e) (settle_row dnow None) t)
      < count_where (\<lambda>x. ob_published x = None) t" for t
    using assms(2) le by (induction t) (auto simp: table_simps less_Suc_eq_le)
  with assms show ?thesis by (simp add: unpublished_def one_def)
qed

lemma fold_unpublished_le: "unpublished (fold (one dnow pub True) es s) \<le> unpublished s"
  by (induction es arbitrary: s) (auto intro: order_trans[OF _ one_unpublished_le])

lemma one_due:
  "pub e = None \<Longrightarrow> \<forall>e \<in> set (rl_rows s). ob_next e \<le> t \<Longrightarrow> \<forall>e \<in> set (rl_rows (one dnow pub c e s)). ob_next e \<le> t"
  by (auto simp: one_def set_upd_where settle_row_def)

lemma one_events: "map ob_event (rl_rows (one dnow pub c e s)) = map ob_event (rl_rows s)"
  by (simp add: one_def)

lemma Tick_progress:
  assumes "relay_inv s" "\<forall>e. pub e = None" "Tick dnow pub True s = (n, s')"
  shows "n \<noteq> 0 \<Longrightarrow> unpublished s' < unpublished s"
    and "\<forall>e \<in> set (rl_rows s). ob_next e \<le> t \<Longrightarrow> \<forall>e \<in> set (rl_rows s'). ob_next e \<le> t"
    and "map ob_event (rl_rows s') = map ob_event (rl_rows s)"
proof -
  let ?es = "take BatchSize (due_heads dnow (rl_rows s))"
  have s': "s' = fold (one dnow pub True) ?es s" "n = length ?es"
    using assms(3) by (auto simp: Tick_def Let_def relay_loop_fold)
  show "unpublished s' < unpublished s" if "n \<noteq> 0"
  proof (cases ?es)
    case (Cons e es)
    then have "e \<in> set (due_heads dnow (rl_rows s))" by (metis in_set_takeD list.set_intros(1))
    then have "e \<in> set (rl_rows s)" "ob_published e = None" by (auto simp: due_heads_def head_of_def)
    from one_unpublished_less[OF this, of pub dnow] assms(2) have "unpublished (one dnow pub True e s) < unpublished s" by simp
    then show ?thesis using fold_unpublished_le[of dnow pub es] by (simp add: s' Cons) (meson le_less_trans)
  qed (use that s' in simp)
  have "\<forall>e \<in> set (rl_rows s). ob_next e \<le> t \<Longrightarrow> \<forall>e \<in> set (rl_rows (fold (one dnow pub True) es s)). ob_next e \<le> t" for es
  proof (induction es arbitrary: s)
    case (Cons e es)
    have "\<forall>e \<in> set (rl_rows (one dnow pub True e s)). ob_next e \<le> t"
      by (rule one_due) (use assms(2) Cons.prems in blast)+
    from Cons.IH[OF this] show ?case by simp
  qed simp
  moreover have "map ob_event (rl_rows (fold (one dnow pub True) es s)) = map ob_event (rl_rows s)" for es
    by (induction es arbitrary: s) (simp_all add: one_events)
  ultimately show "\<forall>e \<in> set (rl_rows s). ob_next e \<le> t \<Longrightarrow> \<forall>e \<in> set (rl_rows s'). ob_next e \<le> t"
    "map ob_event (rl_rows s') = map ob_event (rl_rows s)" by (simp_all add: s')
qed

text \<open>
  C13. Draining ends and leaves nothing behind: when the publisher accepts everything and every event
  is due, \<open>Drain\<close> returns, after finitely many ticks, with all events published, each aggregate's in
  the order of emission and none missing; no event is changed.
\<close>
theorem Drain_publishes_all:
  assumes "relay_inv s" "\<forall>e. pub e = None" "\<forall>e \<in> set (rl_rows s). \<forall>j. ob_next e \<le> clk j"
  shows "\<exists>s'. Drain clk k pub s = Some s' \<and> unpublished s' = 0 \<and> map ob_event (rl_rows s') = map ob_event (rl_rows s) \<and>
    (\<forall>a. remdups_adj (sent_of a (rl_sent s')) = map ob_seq (of_agg a (rl_rows s')))"
  using assms
proof (induction "unpublished s" arbitrary: s k rule: less_induct)
  case less
  obtain n s1 where t: "Tick (clk k) pub True s = (n, s1)" by (cases "Tick (clk k) pub True s")
  have inv: "relay_inv s1" using Tick_inv[OF less.prems(1), of "clk k" pub True] t by simp
  note p = Tick_progress[OF less.prems(1,2) t]
  show ?case
  proof (cases "n = 0")
    case False
    have "\<forall>e \<in> set (rl_rows s1). \<forall>j. ob_next e \<le> clk j" using p(2) less.prems(3) by blast
    from less.hyps[OF p(1)[OF False] inv less.prems(2) this, of "Suc k"] p(3) False
    show ?thesis by (subst Drain.simps) (simp add: t)
  next
    case True
    have d: "due_heads (clk k) (rl_rows s) = []"
      using t True by (cases "due_heads (clk k) (rl_rows s)") (auto simp: Tick_def Let_def BatchSize_def)
    then have same: "s1 = s" using t by (simp add: Tick_def)
    from d have "\<not> (\<exists>e \<in> set (rl_rows s). ob_published e = None)"
      using take_due_nonempty[of "rl_rows s" "clk k"] less.prems(1,3) unfolding relay_inv_def by blast
    then have u: "unpublished s = 0" and pub: "\<forall>e \<in> set (rl_rows s). ob_published e \<noteq> None"
      by (auto simp: unpublished_def count_where_0_iff)
    have "remdups_adj (sent_of a (rl_sent s)) = map ob_seq (of_agg a (rl_rows s))" for a
    proof -
      obtain P U where ok: "agg_ok a s P U" using less.prems(1) unfolding relay_inv_def by blast
      then have all: "of_agg a (rl_rows s) = P @ U" by (simp add: agg_ok_def)
      have "U = []"
      proof (cases U)
        case (Cons u V)
        then have "u \<in> set (of_agg a (rl_rows s))" by (simp add: all)
        then have "u \<in> set (rl_rows s)" by (simp add: of_agg_def)
        with pub ok Cons show ?thesis by (auto simp: agg_ok_def)
      qed simp
      with ok all show ?thesis by (auto simp: agg_ok_def)
    qed
    with u True show ?thesis by (subst Drain.simps) (simp add: t same)
  qed
qed

theorem Drain_publishes_all_witness:
  "\<exists>s'. Drain (\<lambda>j. 10 + int j) 0 (\<lambda>_. None) demo_relay = Some s' \<and>
     remdups_adj (sent_of (''ride'', ''r1'') (rl_sent s')) = map ob_seq (of_agg (''ride'', ''r1'') (rl_rows s')) \<and> unpublished s' = 0"
proof -
  have i: "relay_inv demo_relay" by (rule relay_reach_inv[OF demo_relay_reach relay_inv_empty])
  have n: "\<forall>e \<in> set (rl_rows demo_relay). \<forall>j. ob_next e \<le> 10 + int j" by (auto simp: demo_relay_def Emit_def)
  from Drain_publishes_all[OF i _ n, of "\<lambda>_. None" 0] show ?thesis by blast
qed

end
