(* ===== verification/Deliveries.thy ===== *)
theory Deliveries
  imports StateMachine
begin

text \<open>
  The protocol that orders, parcels and service requests have in common. A module keeps a table of
  rows, each with an identifier, a state and the courier it is bound to, and a journal. All a handler
  may do is insert a row in the initial state with the first line of its journal, take a row along the
  transition table with one line in the journal, or adjust columns that the state does not depend on.
  The locale proves what follows for any such module; the modules interpret it on their own tables and
  show that their handlers are sequences of these moves.
\<close>

type_synonym ('r, 'st) tables = "'r list \<times> 'st journal_row list"

locale courier_protocol = state_machine table init terminal
  for table :: "'st \<Rightarrow> 'st list" and init :: 'st and terminal :: "'st \<Rightarrow> bool" +
  fixes rid :: "'r \<Rightarrow> uuid" and state :: "'r \<Rightarrow> 'st" and courier :: "'r \<Rightarrow> uuid option"
    and idem :: "'r \<Rightarrow> 'i" and fixed :: "'r \<Rightarrow> 'k" and final :: "'r \<Rightarrow> 'f"
    and busy :: "'st \<Rightarrow> bool" and ok :: "'r \<Rightarrow> bool"
  assumes busy_init: "\<not> busy init"
    and busy_bound: "ok r \<Longrightarrow> busy (state r) \<Longrightarrow> courier r \<noteq> None"
    and fixed_id: "fixed r = fixed r' \<Longrightarrow> rid r = rid r'"
    and fixed_idem: "fixed r = fixed r' \<Longrightarrow> idem r = idem r'"
begin

inductive move :: "('r, 'st) tables \<Rightarrow> ('r, 'st) tables \<Rightarrow> bool" where
  insert: "state r = init \<Longrightarrow> ok r \<Longrightarrow> \<forall>x \<in> set R. rid x \<noteq> rid r \<and> idem x \<noteq> idem r \<Longrightarrow>
    jn_subject e = rid r \<Longrightarrow> jn_from e = None \<Longrightarrow> jn_to e = init \<Longrightarrow> move (R, J) (R @ [r], J @ [e])"
| transition: "r \<in> set R \<Longrightarrow> can_transition table (state r) (state r') \<Longrightarrow> fixed r' = fixed r \<Longrightarrow> ok r' \<Longrightarrow>
    busy (state r') \<longrightarrow> (\<forall>x \<in> set R. rid x \<noteq> rid r \<longrightarrow> busy (state x) \<longrightarrow> courier x \<noteq> courier r') \<Longrightarrow>
    jn_subject e = rid r \<Longrightarrow> jn_from e = Some (state r) \<Longrightarrow> jn_to e = state r' \<Longrightarrow>
    move (R, J) (upd_where (\<lambda>x. rid x = rid r) (\<lambda>_. r') R, J @ [e])"
| adjust: "\<forall>x \<in> set R. fixed (f x) = fixed x \<and> final (f x) = final x \<and> state (f x) = state x \<and>
      courier (f x) = courier x \<and> ok (f x) \<Longrightarrow> move (R, J) (map f R, J)"

definition courier_key :: "'r \<Rightarrow> uuid option" where
  "courier_key r = (if busy (state r) then courier r else None)"

definition inv :: "('r, 'st) tables \<Rightarrow> bool" where
  "inv = (\<lambda>(R, J). distinct (map rid R) \<and> distinct (map idem R) \<and> (\<forall>r \<in> set R. ok r) \<and>
     unique_index rid courier_key R \<and>
     (\<forall>r \<in> set R. lawful table init (history (rid r) J) (state r)) \<and> (\<forall>e \<in> set J. jn_subject e \<in> rid ` set R))"

lemma inv_empty [simp]: "inv ([], [])"
  by (simp add: inv_def unique_index_def)

lemma inv_D:
  assumes "inv (R, J)"
  shows "distinct (map rid R)" "distinct (map idem R)" "r \<in> set R \<Longrightarrow> ok r" "unique_index rid courier_key R"
    "r \<in> set R \<Longrightarrow> lawful table init (history (rid r) J) (state r)" "e \<in> set J \<Longrightarrow> jn_subject e \<in> rid ` set R"
  using assms by (auto simp: inv_def)

lemma same_row: "inv (R, J) \<Longrightarrow> x \<in> set R \<Longrightarrow> y \<in> set R \<Longrightarrow> rid x = rid y \<Longrightarrow> x = y"
  using inv_D(1) by (blast intro: distinct_keyD)

lemma inv_insert:
  assumes inv: "inv (R, J)" and r: "state r = init" "ok r"
    and new: "\<forall>x \<in> set R. rid x \<noteq> rid r \<and> idem x \<noteq> idem r"
    and e: "jn_subject e = rid r" "jn_from e = None" "jn_to e = init"
  shows "inv (R @ [r], J @ [e])"
proof -
  note D = inv_D[OF inv]
  have none: "history (rid r) J = []" using new D(6) by (fastforce simp: history_empty_iff)
  have "unique_index rid courier_key (R @ [r])"
    using D(4) r(1) busy_init by (intro unique_index_append) (simp_all add: courier_key_def)
  moreover have "\<forall>x \<in> set (R @ [r]). lawful table init (history (rid x) (J @ [e])) (state x)"
    using D(5) new e none r(1) by (auto intro: lawful.start)
  moreover have "distinct (map rid (R @ [r]))" "distinct (map idem (R @ [r]))" using D(1,2) new by auto
  ultimately show ?thesis using D(3,6) r(2) e(1) by (auto simp: inv_def simp del: history_append)
qed

lemma upd_row_set:
  assumes "r \<in> set R"
  shows "set (upd_where (\<lambda>x. rid x = rid r) (\<lambda>_. r') R) = insert r' {x \<in> set R. rid x \<noteq> rid r}"
  using assms by (auto simp: set_upd_where)

lemma map_upd_row:
  assumes "distinct (map rid R)" "r \<in> set R" "g r' = g r"
  shows "map g (upd_where (\<lambda>x. rid x = rid r) (\<lambda>_. r') R) = map g R"
proof -
  have "x \<in> set R \<Longrightarrow> rid x = rid r \<Longrightarrow> x = r" for x using assms(1,2) by (blast intro: distinct_keyD)
  then show ?thesis using assms(3) by (auto simp: upd_where_def)
qed

lemma inv_transition:
  assumes inv: "inv (R, J)" and r: "r \<in> set R" "can_transition table (state r) (state r')" "fixed r' = fixed r" "ok r'"
    and busy: "busy (state r') \<longrightarrow> (\<forall>x \<in> set R. rid x \<noteq> rid r \<longrightarrow> busy (state x) \<longrightarrow> courier x \<noteq> courier r')"
    and e: "jn_subject e = rid r" "jn_from e = Some (state r)" "jn_to e = state r'"
  shows "inv (upd_where (\<lambda>x. rid x = rid r) (\<lambda>_. r') R, J @ [e])"
proof -
  let ?R = "upd_where (\<lambda>x. rid x = rid r) (\<lambda>_. r') R"
  note D = inv_D[OF inv]
  have id: "rid r' = rid r" "idem r' = idem r" using r(3) fixed_id fixed_idem by blast+
  note S = upd_row_set[OF r(1), of r']
  have "unique_index rid courier_key ?R"
    using D(4) busy by (intro unique_index_replace[where i = rid, OF _ id(1)]) (auto simp: courier_key_def split: if_splits)
  moreover have "\<forall>x \<in> set ?R. lawful table init (history (rid x) (J @ [e])) (state x)"
    using D(5) r(1,2) e id(1) unfolding S by (auto intro: lawful.step)
  moreover have "map rid ?R = map rid R" "map idem ?R = map idem R"
    using map_upd_row[OF D(1) r(1)] id by blast+
  moreover have "rid ` set ?R = rid ` set R" using id(1) r(1) unfolding S by (auto simp: image_iff)
  moreover have "\<forall>x \<in> set ?R. ok x" using D(3) r(4) unfolding S by simp
  ultimately show ?thesis using D(1,2,6) e(1) r(1) by (auto simp: inv_def)
qed

lemma inv_adjust:
  assumes inv: "inv (R, J)"
    and f: "\<forall>x \<in> set R. fixed (f x) = fixed x \<and> final (f x) = final x \<and> state (f x) = state x \<and> courier (f x) = courier x \<and> ok (f x)"
  shows "inv (map f R, J)"
proof -
  note D = inv_D[OF inv]
  have g: "rid (f x) = rid x" "idem (f x) = idem x" "courier_key (f x) = courier_key x" "state (f x) = state x" "ok (f x)"
    if "x \<in> set R" for x
    using f that fixed_id[of "f x" x] fixed_idem[of "f x" x] by (simp_all add: courier_key_def)
  have m: "map rid (map f R) = map rid R" "map idem (map f R) = map idem R" using g by simp_all
  have "rid ` set (map f R) = rid ` set R" using m(1) by (metis set_map)
  moreover have "unique_index rid courier_key (map f R)"
    using D(4) unfolding unique_index_def by (simp add: g)
  moreover have "\<forall>x \<in> set (map f R). lawful table init (history (rid x) J) (state x)" using D(5) g by auto
  ultimately show ?thesis using D(1,2,6) m g(5) by (simp add: inv_def del: map_map)
qed

lemma move_inv: "move t t' \<Longrightarrow> inv t \<Longrightarrow> inv t'"
proof (induction rule: move.induct)
  case (insert r R e J) then show ?case by (intro inv_insert)
next
  case (transition r R r' e J) then show ?case by (intro inv_transition)
next
  case (adjust R f J) then show ?case by (intro inv_adjust)
qed

lemma moves_inv: "move\<^sup>*\<^sup>* t t' \<Longrightarrow> inv t \<Longrightarrow> inv t'"
  by (induction rule: rtranclp_induct) (auto intro: move_inv)

text \<open>A courier holds at most one row at a time.\<close>

lemma one_busy:
  assumes "inv (R, J)" "x \<in> set R" "y \<in> set R" "busy (state x)" "busy (state y)" "courier x = courier y" "courier x \<noteq> None"
  shows "x = y"
proof -
  have "courier_key x = courier_key y" "courier_key x \<noteq> None" using assms(4-7) by (simp_all add: courier_key_def)
  then have "rid x = rid y" using inv_D(4)[OF assms(1)] assms(2,3) unfolding unique_index_def by blast
  then show ?thesis using same_row[OF assms(1-3)] by simp
qed

text \<open>A row in a terminal state keeps its columns and its history.\<close>

definition closed :: "'r \<Rightarrow> (('st option \<times> 'st) list) \<Rightarrow> ('r, 'st) tables \<Rightarrow> bool" where
  "closed r h = (\<lambda>(R, J). (\<exists>x \<in> set R. fixed x = fixed r \<and> final x = final r \<and> state x = state r \<and> courier x = courier r) \<and>
     history (rid r) J = h)"

lemma closed_move:
  assumes "move t t'" "closed r h t" "terminal (state r)" "inv t"
  shows "closed r h t'"
  using assms
proof (induction rule: move.induct)
  case (insert q R e J)
  then obtain x where x: "x \<in> set R" "fixed x = fixed r" "final x = final r" "state x = state r" "courier x = courier r"
    by (auto simp: closed_def)
  then have "rid r \<noteq> rid q" using insert.hyps(3) fixed_id by metis
  then show ?case using insert.prems(1) insert.hyps(4) by (auto simp: closed_def)
next
  case (transition q R r' e J)
  then obtain x where x: "x \<in> set R" "fixed x = fixed r" "final x = final r" "state x = state r" "courier x = courier r"
    by (auto simp: closed_def)
  have "rid x \<noteq> rid q"
    using same_row[OF transition.prems(3) x(1) transition.hyps(1)] transition.hyps(2) transition.prems(2) x(4)
      no_step_from_terminal by auto
  then have "x \<in> set (upd_where (\<lambda>x. rid x = rid q) (\<lambda>_. r') R)" "rid r \<noteq> rid q"
    using x(1,2) fixed_id[of x r] by (auto simp: set_upd_where)
  then show ?case using x transition.prems(1) transition.hyps(6) by (auto simp: closed_def)
next
  case (adjust R f J)
  then show ?case by (force simp: closed_def)
qed

lemma closed_moves:
  assumes "move\<^sup>*\<^sup>* t t'" "closed r h t" "terminal (state r)" "inv t"
  shows "closed r h t'"
  using assms by (induction rule: rtranclp_induct) (auto intro: closed_move moves_inv)

lemma final_row:
  assumes "move\<^sup>*\<^sup>* (R, J) (R', J')" "inv (R, J)" "r \<in> set R" "terminal (state r)"
  shows "\<exists>x \<in> set R'. fixed x = fixed r \<and> final x = final r \<and> state x = state r \<and> courier x = courier r \<and>
           history (rid x) J' = history (rid r) J"
proof -
  have "closed r (history (rid r) J) (R', J')"
    using assms by (intro closed_moves[OF assms(1)]) (auto simp: closed_def)
  then obtain x where x: "x \<in> set R'" "fixed x = fixed r" "final x = final r" "state x = state r" "courier x = courier r"
    and h: "history (rid r) J' = history (rid r) J"
    by (auto simp: closed_def)
  have "rid x = rid r" using x(2) by (rule fixed_id)
  then show ?thesis using x h by auto
qed

text \<open>Simulation: when every step of a system is a sequence of moves on its tables, so is every run.\<close>

lemma run_moves:
  assumes sim: "\<And>s s'. step s s' \<Longrightarrow> inv (tab s) \<Longrightarrow> move\<^sup>*\<^sup>* (tab s) (tab s')"
    and run: "step\<^sup>*\<^sup>* s s'" and inv: "inv (tab s)"
  shows "move\<^sup>*\<^sup>* (tab s) (tab s')" "inv (tab s')"
proof -
  show m: "move\<^sup>*\<^sup>* (tab s) (tab s')"
    using run
  proof (induction rule: rtranclp_induct)
    case (step s' s'')
    then show ?case using sim[OF step.hyps(2) moves_inv[OF step.IH inv]] by (meson rtranclp_trans)
  qed simp
  show "inv (tab s')" using m inv by (rule moves_inv)
qed

lemma tx_moves:
  assumes "\<And>a s'. body s = (Inr a, s') \<Longrightarrow> move\<^sup>*\<^sup>* (tab s) (tab s')"
  shows "move\<^sup>*\<^sup>* (tab s) (tab (snd (begin_func body s)))"
  using assms by (cases body s rule: begin_func_cases) auto

text \<open>Updating the row found by its identifier, with a line in the journal.\<close>

lemma row_moves:
  assumes "inv (R, J)" "r \<in> set R" "can_transition table (state r) (state r')" "fixed r' = fixed r" "ok r'"
    "busy (state r') \<longrightarrow> (\<forall>x \<in> set R. rid x \<noteq> rid r \<longrightarrow> busy (state x) \<longrightarrow> courier x \<noteq> courier r')"
    "rid r = i" "jn_subject e = i" "jn_from e = Some (state r)" "jn_to e = state r'"
    "R' = upd_where (\<lambda>x. rid x = i) (\<lambda>_. r') R" "J' = J @ [e]"
  shows "move\<^sup>*\<^sup>* (R, J) (R', J')"
  using assms by (auto intro: r_into_rtranclp move.transition)

text \<open>A row that stays with its courier does not get in the way of the others.\<close>

lemma busy_kept:
  assumes "inv (R, J)" "r \<in> set R" "busy (state r)" "courier r' = courier r" "courier r \<noteq> None"
  shows "\<forall>x \<in> set R. rid x \<noteq> rid r \<longrightarrow> busy (state x) \<longrightarrow> courier x \<noteq> courier r'"
  using one_busy[OF assms(1) _ assms(2) _ assms(3)] assms(4,5) by metis

text \<open>The shape in which handlers use it: the row was found by a query, and the new one takes its place.\<close>

lemma found_moves:
  assumes "inv (R, J)" "find P R = Some r" "rid r = i" "can_transition table (state r) (state r')" "fixed r' = fixed r" "ok r'"
    "busy (state r') \<longrightarrow> busy (state r) \<and> courier r' = courier r \<or>
       (\<forall>x \<in> set R. rid x \<noteq> i \<longrightarrow> busy (state x) \<longrightarrow> courier x \<noteq> courier r')"
    "jn_subject e = i" "jn_from e = Some (state r)" "jn_to e = state r'"
    "R' = upd_where (\<lambda>x. rid x = i) (\<lambda>_. r') R" "J' = J @ [e]"
  shows "move\<^sup>*\<^sup>* (R, J) (R', J')"
proof -
  have r: "r \<in> set R" using assms(2) find_SomeD by metis
  have "busy (state r') \<longrightarrow> (\<forall>x \<in> set R. rid x \<noteq> rid r \<longrightarrow> busy (state x) \<longrightarrow> courier x \<noteq> courier r')"
    using assms(3,7) busy_kept[OF assms(1) r] busy_bound[OF inv_D(3)[OF assms(1) r]] by blast
  then show ?thesis using row_moves[OF assms(1) r assms(4-6) _ assms(3) assms(8-12)] by blast
qed

text \<open>An update of columns that the state does not depend on.\<close>

lemma update_moves:
  assumes "\<forall>x \<in> set R. ok x"
    "\<forall>x \<in> set R. P x \<longrightarrow> fixed (f x) = fixed x \<and> final (f x) = final x \<and> state (f x) = state x \<and> courier (f x) = courier x \<and> ok (f x)"
  shows "move\<^sup>*\<^sup>* (R, J) (upd_where P f R, J)"
  using assms unfolding upd_where_def by (intro r_into_rtranclp move.adjust) auto

text \<open>The fixed columns of a row are those of the row with its identifier before.\<close>

lemma fixed_move:
  assumes "move t t'" "inv t" "r \<in> set (fst t)"
  shows "\<exists>r' \<in> set (fst t'). fixed r' = fixed r"
  using assms
proof (induction rule: move.induct)
  case (transition q R q' e J)
  show ?case
  proof (cases "rid r = rid q")
    case True
    then have "r = q" using same_row[OF transition.prems(1) _ transition.hyps(1)] transition.prems(2) by simp
    then show ?thesis using transition.hyps(1,3) by (auto simp: set_upd_where)
  next
    case False
    then show ?thesis using transition.prems(2) by (auto simp: set_upd_where)
  qed
qed auto

lemma fixed_moves:
  assumes "move\<^sup>*\<^sup>* (R, J) (R', J')" "inv (R, J)" "r \<in> set R" "r' \<in> set R'" "rid r' = rid r"
  shows "fixed r' = fixed r"
proof -
  have "inv t' \<and> (\<exists>x \<in> set (fst t'). fixed x = fixed r)" if "move\<^sup>*\<^sup>* (R, J) t'" for t'
    using that
  proof (induction rule: rtranclp_induct)
    case (step u v)
    then obtain x where "x \<in> set (fst u)" "fixed x = fixed r" "inv u" by blast
    then show ?case using fixed_move[OF step.hyps(2)] move_inv[OF step.hyps(2)] by metis
  qed (use assms in auto)
  from this[OF assms(1)] obtain x where x: "inv (R', J')" "x \<in> set R'" "fixed x = fixed r" by auto
  then have "x = r'" using same_row[OF x(1) x(2) assms(4)] fixed_id[of x r] assms(5) by simp
  then show ?thesis using x(3) by simp
qed

end

end
