(* ===== verification/Merchants.thy ===== *)
theory Merchants
  imports Drivers Pricing
begin

text \<open>
  \<open>modules/merchants\<close> (\<open>merchants.go\<close>, \<open>favourites.go\<close>; tables of \<open>migrations/0013\<close> and \<open>0020\<close>):
  the merchants of the platform, their opening hours, staff with roles, approval by operations, public
  discovery and the favourites of a customer. Text is bytes; only \<open>Slugify\<close> looks inside UTF-8. URLs
  of images, the IP address and the request identifier of audit rows are left out.
\<close>

definition ErrNotMember [err_defs]: "ErrNotMember = API ''NOT_MERCHANT_STAFF'' 403 False []"
definition ErrSlugTaken [err_defs]: "ErrSlugTaken = API ''MERCHANT_SLUG_TAKEN'' 409 False []"
definition ErrStaffMissing [err_defs]: "ErrStaffMissing = API ''STAFF_USER_NOT_FOUND'' 422 False []"

definition Types :: "string list" where
  "Types = [''restaurant'', ''store'', ''grocery'', ''pharmacy'']"

definition FulfillmentModes :: "string list" where
  "FulfillmentModes = [''courier'', ''merchant_delivers'', ''pickup'']"

section \<open>State\<close>

datatype merchant_status = MPending | MActive | MPaused | MSuspended

datatype staff_role = StOwner | StManager | StStaff

record merchant =
  me_id :: uuid
  me_owner :: uuid
  me_type :: string
  me_name :: string
  me_slug :: string
  me_description :: "string option"
  me_phone :: "string option"
  me_address :: string
  me_city :: string
  me_location :: point
  me_area :: "string option"
  me_status :: merchant_status
  me_cuisines :: "string list"
  me_fulfillment :: string
  me_min_order :: int
  me_fee :: int
  me_prep :: int
  me_rating_sum :: int
  me_rating_count :: int
  me_logo :: "string option"
  me_cover :: "string option"
  me_accepting :: bool
  me_commission :: int
  me_approved_at :: "time option"
  me_approved_by :: "uuid option"
  me_suspended :: "string option"
  me_created :: time
  me_updated :: time

text \<open>A row of \<open>merchant_hours\<close>: the columns of type \<open>time\<close> are seconds since midnight.\<close>

record hours_row =
  hw_merchant :: uuid
  hw_weekday :: int
  hw_opens :: int
  hw_closes :: int

record staff_row =
  sf_merchant :: uuid
  sf_user :: uuid
  sf_role :: staff_role

record favourite_row =
  fv_user :: uuid
  fv_merchant :: uuid
  fv_created :: time

record merchants_db =
  merchants :: "merchant list"
  hours_rows :: "hours_row list"
  staff :: "staff_row list"
  favourites :: "favourite_row list"
  m_caps :: "capability list"
  m_users :: "user_row list"
  m_pricing :: pricing_db

record hours =
  Weekday :: int
  Opens :: string
  Closes :: string

text \<open>\<open>scanMerchant\<close>: the rating is rounded to two decimals, and absent without reviews.\<close>

definition Rating :: "merchant \<Rightarrow> real option" where
  "Rating m = (if me_rating_count m > 0
     then Some (real_of_int \<lfloor>real_of_int (me_rating_sum m) / real_of_int (me_rating_count m) * 100 + 0.5\<rfloor> / 100)
     else None)"

section \<open>Slugs\<close>

text \<open>\<open>strings.ToLower\<close> on the UTF-8 bytes, as far as a slug can tell: ASCII, the Latin-1 letters, the
  dotted capital I, the Kelvin sign and the capital sharp s (U+1E9E); every other capital has a lower case that is no
  letter of a slug and is not replaced by one.\<close>

fun utf8_lower :: "string \<Rightarrow> string" where
  "utf8_lower [] = []"
| "utf8_lower [a] = [to_lower a]"
| "utf8_lower (a # b # cs) =
     (if a = CHR 0xC3 \<and> 0x80 \<le> (of_char b :: nat) \<and> (of_char b :: nat) \<le> 0x9E \<and> b \<noteq> CHR 0x97
      then a # char_of ((of_char b :: nat) + 0x20) # utf8_lower cs
      else if a = CHR 0xC4 \<and> b = CHR 0xB0 then CHR ''i'' # utf8_lower cs
      else if a = CHR 0xE2 \<and> b = CHR 0x84 \<and> take 1 cs = [CHR 0xAA] then CHR ''k'' # utf8_lower (drop 1 cs)
      else if a = CHR 0xE1 \<and> b = CHR 0xBA \<and> take 1 cs = [CHR 0x9E] then CHR 0xC3 # CHR 0x9F # utf8_lower (drop 1 cs)
      else to_lower a # utf8_lower (b # cs))"

fun replace_letters :: "string \<Rightarrow> string" where
  "replace_letters [] = []"
| "replace_letters [a] = [a]"
| "replace_letters (a # b # cs) =
     (if a = CHR 0xC3 \<and> b = CHR 0xAB then CHR ''e'' # replace_letters cs
      else if a = CHR 0xC3 \<and> b = CHR 0xA7 then CHR ''c'' # replace_letters cs
      else if a = CHR 0xC3 \<and> b = CHR 0xA4 then CHR ''a'' # replace_letters cs
      else if a = CHR 0xC3 \<and> b = CHR 0xB6 then CHR ''o'' # replace_letters cs
      else if a = CHR 0xC3 \<and> b = CHR 0xBC then CHR ''u'' # replace_letters cs
      else if a = CHR 0xC3 \<and> b = CHR 0x9F then ''ss'' @ replace_letters cs
      else a # replace_letters (b # cs))"

definition slug_char :: "char \<Rightarrow> bool" where "slug_char c \<longleftrightarrow> is_lower c \<or> is_digit c"

text \<open>\<open>slugRe.ReplaceAllString(s, "-")\<close>: every maximal run of other characters becomes one dash.\<close>

fun slug_runs :: "bool \<Rightarrow> string \<Rightarrow> string" where
  "slug_runs inrun [] = []"
| "slug_runs inrun (c # cs) =
     (if slug_char c then c # slug_runs False cs
      else if inrun then slug_runs True cs else CHR ''-'' # slug_runs True cs)"

definition trim_dash :: "string \<Rightarrow> string" where
  "trim_dash s = rev (dropWhile ((=) (CHR ''-'')) (rev (dropWhile ((=) (CHR ''-'')) s)))"

definition Slugify :: "string \<Rightarrow> string" where
  "Slugify name =
     (let s = trim_dash (slug_runs False (replace_letters (utf8_lower (TrimSpace name))))
      in if length s > 60 then trim_dash (take 60 s) else s)"

section \<open>Opening hours\<close>

definition digit_val :: "char \<Rightarrow> int" where "digit_val c = of_char c - 48"

fun parseHM :: "string \<Rightarrow> int option" where
  "parseHM [a, b, c, d, e] =
     (if c \<noteq> CHR '':'' \<or> \<not> is_digit a \<or> \<not> is_digit b \<or> \<not> is_digit d \<or> \<not> is_digit e then None
      else let h = digit_val a * 10 + digit_val b; m = digit_val d * 10 + digit_val e
           in if h > 23 \<or> m > 59 then None else Some (h * 60 + m))"
| "parseHM _ = None"

text \<open>The wall clock of a server whose zone is \<open>tz\<close> ahead of UTC; 1 January 1970 was a Thursday.\<close>

definition weekday_of :: "time \<Rightarrow> time \<Rightarrow> int" where
  "weekday_of tz t = ((t + tz) div (24 * Hour) + 4) mod 7"

definition second_of_day :: "time \<Rightarrow> time \<Rightarrow> int" where
  "second_of_day tz t = (t + tz) mod (24 * Hour) div Second"

text \<open>The body of the loop: within a day, or across midnight.\<close>

definition open_interval :: "int \<Rightarrow> int \<Rightarrow> hours \<Rightarrow> bool" where
  "open_interval today minute h =
     (case parseHM (Opens h) of
        None \<Rightarrow> False
      | Some op \<Rightarrow>
          (case parseHM (Closes h) of
             None \<Rightarrow> False
           | Some cl \<Rightarrow>
               if cl > op then Weekday h = today \<and> minute \<ge> op \<and> minute < cl
               else (Weekday h = today \<and> minute \<ge> op) \<or> (Weekday h = (today + 6) mod 7 \<and> minute < cl)))"

definition OpenAt :: "hours list \<Rightarrow> time \<Rightarrow> time \<Rightarrow> bool" where
  "OpenAt hs tz t = list_ex (open_interval (weekday_of tz t) (second_of_day tz t div 60)) hs"

text \<open>\<open>to_char(x, 'HH24:MI')\<close>, and the reading of the rows of a merchant.\<close>

definition to_char_HM :: "int \<Rightarrow> string" where
  "to_char_HM x = show_02 (x div 3600) @ '':'' @ show_02 (x div 60 mod 60)"

definition read_hours :: "hours_row \<Rightarrow> hours" where
  "read_hours h = \<lparr>Weekday = hw_weekday h, Opens = to_char_HM (hw_opens h), Closes = to_char_HM (hw_closes h)\<rparr>"

definition hours_of :: "uuid \<Rightarrow> merchants_db \<Rightarrow> hours list" where
  "hours_of i db = map read_hours
     (sort_key hw_weekday (sort_key hw_opens (filter (\<lambda>h. hw_merchant h = i) (hours_rows db))))"

section \<open>Roles\<close>

definition Membership :: "uuid \<Rightarrow> uuid \<Rightarrow> merchants_db \<Rightarrow> err + staff_role" where
  "Membership user i db =
     (case find (\<lambda>s. sf_merchant s = i \<and> sf_user s = user) (staff db) of
        None \<Rightarrow> Inl ErrNotMember | Some s \<Rightarrow> Inr (sf_role s))"

definition requireRole :: "uuid \<Rightarrow> uuid \<Rightarrow> staff_role list \<Rightarrow> merchants_db \<Rightarrow> err option" where
  "requireRole user i roles db =
     (case Membership user i db of Inl e \<Rightarrow> Some e
      | Inr r \<Rightarrow> if r \<in> set roles then None else Some ErrForbidden)"

section \<open>Applying and the profile\<close>

record merchant_input =
  aType :: string
  aName :: string
  aDescription :: string
  aPhone :: string
  aAddress :: string
  aCity :: string
  aLocation :: point
  aCuisines :: "string list"
  aFulfillment :: string
  aMinOrder :: int
  aPrep :: int

definition normalize_apply :: "merchant_input \<Rightarrow> merchant_input" where
  "normalize_apply inp = inp\<lparr>aType := map to_lower (TrimSpace (aType inp)), aName := squash (aName inp),
     aDescription := TrimSpace (aDescription inp), aAddress := squash (aAddress inp), aCity := squash (aCity inp),
     aFulfillment := (if aFulfillment inp = [] then ''courier'' else aFulfillment inp),
     aPrep := (if aPrep inp = 0 then 20 else aPrep inp), aCuisines := collect_tags 6 [] (aCuisines inp),
     aPhone := concat (Fields (aPhone inp))\<rparr>"

definition validateMerchant :: "merchant_input \<Rightarrow> merchant_input \<times> fields" where
  "validateMerchant inp0 =
     (let inp = normalize_apply inp0;
          f = add_field_if (aType inp \<notin> set Types) ''type'' ''invalid'' [];
          f = add_field_if (RuneCount (aName inp) < 2 \<or> RuneCount (aName inp) > 80) ''name'' ''invalid'' f;
          f = add_field_if (RuneCount (aDescription inp) > 600) ''description'' ''too_long'' f;
          f = add_field_if (RuneCount (aAddress inp) < 3 \<or> RuneCount (aAddress inp) > 120) ''address_line1'' ''invalid'' f;
          f = add_field_if (RuneCount (aCity inp) < 2 \<or> RuneCount (aCity inp) > 60) ''city'' ''invalid'' f;
          f = add_field_if (\<not> Valid (aLocation inp) \<or> \<not> InKosovo (aLocation inp)) ''location'' ''outside_kosovo'' f;
          f = add_field_if (aFulfillment inp \<notin> set FulfillmentModes) ''fulfillment_mode'' ''invalid'' f;
          f = add_field_if (aMinOrder inp < 0 \<or> aMinOrder inp > 20000) ''min_order_minor'' ''invalid'' f;
          f = add_field_if (aPrep inp < 5 \<or> aPrep inp > 180) ''prep_time_min'' ''invalid'' f;
          f = add_field_if (aPhone inp \<noteq> [] \<and> (length (aPhone inp) < 8 \<or> length (aPhone inp) > 16)) ''phone'' ''invalid'' f
      in (inp, f))"

text \<open>The choice of a slug: at most five checks; the random suffixes are given.\<close>

fun pick_slug :: "string list \<Rightarrow> string \<Rightarrow> string \<Rightarrow> string list \<Rightarrow> string" where
  "pick_slug taken base slug [] = slug"
| "pick_slug taken base slug (x # xs) =
     (if slug \<in> set taken then pick_slug taken base (base @ ''-'' @ x) xs else slug)"

definition m_audit :: "uuid \<Rightarrow> string \<Rightarrow> uuid \<Rightarrow> payload \<Rightarrow> core \<Rightarrow> core" where
  "m_audit user action i meta c = c\<lparr>audit := audit c @ [\<lparr>au_actor = Some user, au_action = action,
     au_target_type = ''merchant'', au_target_id = i, au_meta = meta\<rparr>]\<rparr>"

definition apply_merchant_tx ::
  "time \<Rightarrow> uuid \<Rightarrow> uuid \<Rightarrow> string \<Rightarrow> string option \<Rightarrow> merchant_input \<Rightarrow> (merchants_db \<times> core, err, merchant) op" where
  "apply_merchant_tx dnow i user slug areaID inp = (\<lambda>(db, c).
     let m = \<lparr>me_id = i, me_owner = user, me_type = aType inp, me_name = aName inp, me_slug = slug,
              me_description = nullable (aDescription inp), me_phone = nullable (aPhone inp),
              me_address = aAddress inp, me_city = aCity inp, me_location = aLocation inp, me_area = areaID,
              me_status = MPending, me_cuisines = aCuisines inp, me_fulfillment = aFulfillment inp,
              me_min_order = aMinOrder inp, me_fee = 150, me_prep = aPrep inp, me_rating_sum = 0, me_rating_count = 0,
              me_logo = None, me_cover = None, me_accepting = True, me_commission = 1500, me_approved_at = None,
              me_approved_by = None, me_suspended = None, me_created = dnow, me_updated = dnow\<rparr>
     in if exists_where (\<lambda>x. me_id x = i \<or> me_slug x = slug) (merchants db) then (Inl ErrSlugTaken, db, c)
        else (Inr m, db\<lparr>merchants := merchants db @ [m],
                       staff := staff db @ [\<lparr>sf_merchant = i, sf_user = user, sf_role = StOwner\<rparr>]\<rparr>,
              (m_audit user ''merchant.applied'' i [(''type'', JStr (aType inp)), (''name'', JStr (aName inp))] c)
                \<lparr>outbox := Emit dnow ''merchant'' i ''MerchantApplied''
                   [(''merchant_id'', JStr i), (''owner_id'', JStr user), (''type'', JStr (aType inp))] (outbox c)\<rparr>))"

definition ApplyMerchant ::
  "time \<Rightarrow> uuid \<Rightarrow> string list \<Rightarrow> uuid \<Rightarrow> merchant_input \<Rightarrow> (merchants_db \<times> core, err, merchant) op" where
  "ApplyMerchant dnow i suffixes user inp0 s =
     (let (inp, f) = validateMerchant inp0
      in if f \<noteq> [] then (Inl (ErrValidation f), s)
         else
           let areaID = (case ResolveArea (aLocation inp) (m_pricing (fst s)) of Inl _ \<Rightarrow> None | Inr a \<Rightarrow> Some (AreaId a));
               base = Slugify (aName inp);
               slug = pick_slug (map me_slug (merchants (fst s))) base (if base = [] then ''merchant'' else base) (take 5 suffixes)
           in begin_func (apply_merchant_tx dnow i user slug areaID inp) s)"

type_synonym merchant_view = "merchant \<times> hours list \<times> bool"

definition view_of :: "time \<Rightarrow> time \<Rightarrow> merchants_db \<Rightarrow> merchant \<Rightarrow> merchant_view" where
  "view_of tz gnow db m = (m, hours_of (me_id m) db, OpenAt (hours_of (me_id m) db) tz gnow \<and> me_accepting m)"

definition Mine :: "time \<Rightarrow> time \<Rightarrow> uuid \<Rightarrow> merchants_db \<Rightarrow> merchant_view list" where
  "Mine tz gnow user db = map (view_of tz gnow db) (sort_key me_created
     (filter (\<lambda>m. exists_where (\<lambda>s. sf_merchant s = me_id m \<and> sf_user s = user) (staff db)) (merchants db)))"

record profile_update =
  uName :: "string option"
  uDescription :: "string option"
  uPhone :: "string option"
  uCuisines :: "string list option"
  uFulfillment :: "string option"
  uMinOrder :: "int option"
  uFee :: "int option"
  uPrep :: "int option"
  uAccepting :: "bool option"
  uLogo :: "string option"
  uCover :: "string option"

definition outside :: "int \<Rightarrow> int \<Rightarrow> int option \<Rightarrow> bool" where
  "outside lo hi x = (case x of None \<Rightarrow> False | Some n \<Rightarrow> n < lo \<or> n > hi)"

definition validateUpdate :: "profile_update \<Rightarrow> profile_update \<times> fields" where
  "validateUpdate inp0 =
     (let inp = inp0\<lparr>uName := map_option squash (uName inp0)\<rparr>;
          f = add_field_if (case uName inp of None \<Rightarrow> False | Some n \<Rightarrow> RuneCount n < 2 \<or> RuneCount n > 80) ''name'' ''invalid'' [];
          f = add_field_if (case uFulfillment inp of None \<Rightarrow> False | Some m \<Rightarrow> m \<notin> set FulfillmentModes)
                ''fulfillment_mode'' ''invalid'' f;
          f = add_field_if (outside 5 180 (uPrep inp)) ''prep_time_min'' ''invalid'' f;
          f = add_field_if (outside 0 20000 (uMinOrder inp)) ''min_order_minor'' ''invalid'' f;
          f = add_field_if (outside 0 2000 (uFee inp)) ''delivery_fee_minor'' ''invalid'' f
      in (inp, f))"

text \<open>\<open>COALESCE\<close> of a parameter and a column.\<close>

definition coalesce :: "'a option \<Rightarrow> 'a \<Rightarrow> 'a" where
  "coalesce p x = (case p of None \<Rightarrow> x | Some y \<Rightarrow> y)"

definition coalesce_opt :: "'a option \<Rightarrow> 'a option \<Rightarrow> 'a option" where
  "coalesce_opt p x = (case p of None \<Rightarrow> x | Some y \<Rightarrow> Some y)"

definition update_row :: "time \<Rightarrow> profile_update \<Rightarrow> merchant \<Rightarrow> merchant" where
  "update_row dnow inp m = m\<lparr>me_name := coalesce (uName inp) (me_name m),
     me_description := coalesce_opt (uDescription inp) (me_description m), me_phone := coalesce_opt (uPhone inp) (me_phone m),
     me_cuisines := coalesce (uCuisines inp) (me_cuisines m), me_fulfillment := coalesce (uFulfillment inp) (me_fulfillment m),
     me_min_order := coalesce (uMinOrder inp) (me_min_order m), me_fee := coalesce (uFee inp) (me_fee m),
     me_prep := coalesce (uPrep inp) (me_prep m), me_accepting := coalesce (uAccepting inp) (me_accepting m),
     me_logo := coalesce_opt (uLogo inp) (me_logo m), me_cover := coalesce_opt (uCover inp) (me_cover m), me_updated := dnow\<rparr>"

definition update_profile_tx ::
  "time \<Rightarrow> uuid \<Rightarrow> uuid \<Rightarrow> profile_update \<Rightarrow> (merchants_db \<times> core, err, merchant) op" where
  "update_profile_tx dnow user i inp = (\<lambda>(db, c).
     case find (\<lambda>m. me_id m = i) (merchants db) of
       None \<Rightarrow> (Inl NoRows, db, c)
     | Some m \<Rightarrow>
         let m' = update_row dnow inp m
         in (Inr m', db\<lparr>merchants := upd_where (\<lambda>x. me_id x = i) (\<lambda>_. m') (merchants db)\<rparr>,
             m_audit user ''merchant.profile_updated'' i [] c))"

definition UpdateProfile ::
  "time \<Rightarrow> time \<Rightarrow> time \<Rightarrow> uuid \<Rightarrow> uuid \<Rightarrow> profile_update \<Rightarrow> (merchants_db \<times> core, err, merchant_view) op" where
  "UpdateProfile tz gnow dnow user i inp0 s =
     (case requireRole user i [StOwner, StManager] (fst s) of
        Some e \<Rightarrow> (Inl e, s)
      | None \<Rightarrow>
          let (inp, f) = validateUpdate inp0
          in if f \<noteq> [] then (Inl (ErrValidation f), s)
             else (case begin_func (update_profile_tx dnow user i inp) s of
                     (Inl e, s1) \<Rightarrow> (Inl e, s1)
                   | (Inr m, s1) \<Rightarrow> (Inr (m, hours_of i (fst s1), OpenAt (hours_of i (fst s1)) tz gnow), s1)))"

section \<open>Hours and staff\<close>

text \<open>The checks of \<open>SetHours\<close> in the order of the list; \<open>days\<close> are the weekdays seen so far.\<close>

fun check_hours :: "int list \<Rightarrow> hours list \<Rightarrow> string option" where
  "check_hours days [] = None"
| "check_hours days (h # hs) =
     (if Weekday h < 0 \<or> Weekday h > 6 then Some ''weekday''
      else if parseHM (Opens h) = None then Some ''opens''
      else if parseHM (Closes h) = None then Some ''closes''
      else if count_list days (Weekday h) + 1 > 3 then Some ''too_many''
      else check_hours (Weekday h # days) hs)"

text \<open>\<open>'HH:MM'::time\<close>.\<close>

definition time_of_HM :: "string \<Rightarrow> int" where
  "time_of_HM s = (case parseHM s of None \<Rightarrow> 0 | Some m \<Rightarrow> m * 60)"

fun insert_hours :: "uuid \<Rightarrow> hours list \<Rightarrow> hours_row list \<Rightarrow> hours_row list" where
  "insert_hours i [] rows = rows"
| "insert_hours i (h # hs) rows =
     insert_hours i hs
       (if exists_where (\<lambda>r. hw_merchant r = i \<and> hw_weekday r = Weekday h \<and> hw_opens r = time_of_HM (Opens h)) rows then rows
        else rows @ [\<lparr>hw_merchant = i, hw_weekday = Weekday h, hw_opens = time_of_HM (Opens h), hw_closes = time_of_HM (Closes h)\<rparr>])"

definition SetHours :: "uuid \<Rightarrow> uuid \<Rightarrow> hours list \<Rightarrow> (merchants_db \<times> core, err, hours list) op" where
  "SetHours user i hs s =
     (case requireRole user i [StOwner, StManager] (fst s) of
        Some e \<Rightarrow> (Inl e, s)
      | None \<Rightarrow>
          (case check_hours [] hs of
             Some what \<Rightarrow> (Inl (ErrValidation [(''hours'', what)]), s)
           | None \<Rightarrow>
               let (db, c) = s;
                   db' = db\<lparr>hours_rows := insert_hours i hs (filter (\<lambda>r. hw_merchant r \<noteq> i) (hours_rows db))\<rparr>
               in (Inr (hours_of i db'), db',
                   m_audit user ''merchant.hours_updated'' i [(''count'', JInt (int (length hs)))] c)))"

fun staff_role_of :: "string \<Rightarrow> staff_role option" where
  "staff_role_of r = (if r = ''manager'' then Some StManager else if r = ''staff'' then Some StStaff else None)"

text \<open>\<open>INSERT ... ON CONFLICT DO UPDATE SET role WHERE role <> 'owner'\<close>.\<close>

definition upsert_staff :: "uuid \<Rightarrow> uuid \<Rightarrow> staff_role \<Rightarrow> staff_row list \<Rightarrow> staff_row list" where
  "upsert_staff i user r t =
     (if exists_where (\<lambda>x. sf_merchant x = i \<and> sf_user x = user) t
      then upd_where (\<lambda>x. sf_merchant x = i \<and> sf_user x = user \<and> sf_role x \<noteq> StOwner) (\<lambda>x. x\<lparr>sf_role := r\<rparr>) t
      else t @ [\<lparr>sf_merchant = i, sf_user = user, sf_role = r\<rparr>])"

definition AddStaff :: "uuid \<Rightarrow> uuid \<Rightarrow> string \<Rightarrow> string \<Rightarrow> (merchants_db \<times> core, err, unit) op" where
  "AddStaff actor i phone r s =
     (case requireRole actor i [StOwner] (fst s) of
        Some e \<Rightarrow> (Inl e, s)
      | None \<Rightarrow>
          (case staff_role_of r of
             None \<Rightarrow> (Inl (ErrValidation [(''role'', ''invalid'')]), s)
           | Some rl \<Rightarrow>
               (case find (\<lambda>u. us_phone u = concat (Fields phone) \<and> us_active u) (m_users (fst s)) of
                  None \<Rightarrow> (Inl ErrStaffMissing, s)
                | Some u \<Rightarrow>
                    let (db, c) = s
                    in (Inr (), db\<lparr>staff := upsert_staff i (us_id u) rl (staff db)\<rparr>,
                        m_audit actor ''merchant.staff_added'' i [(''user_id'', JStr (us_id u)), (''role'', JStr r)] c))))"

definition RemoveStaff :: "uuid \<Rightarrow> uuid \<Rightarrow> uuid \<Rightarrow> (merchants_db \<times> core, err, unit) op" where
  "RemoveStaff actor i user s =
     (case requireRole actor i [StOwner] (fst s) of
        Some e \<Rightarrow> (Inl e, s)
      | None \<Rightarrow> begin_func (\<lambda>(db, c).
          let gone = (\<lambda>x. sf_merchant x = i \<and> sf_user x = user \<and> sf_role x \<noteq> StOwner)
          in if \<not> exists_where gone (staff db) then (Inl ErrNotFound, db, c)
             else (Inr (), db\<lparr>staff := filter (\<lambda>x. \<not> gone x) (staff db)\<rparr>,
                   m_audit actor ''merchant.staff_removed'' i [(''user_id'', JStr user)] c)) s)"

section \<open>Operations\<close>

definition PendingMerchants :: "time \<Rightarrow> time \<Rightarrow> int \<Rightarrow> merchants_db \<Rightarrow> merchant_view list" where
  "PendingMerchants tz gnow limit db = map (view_of tz gnow db)
     (take (nat (if limit \<le> 0 \<or> limit > 200 then 50 else limit))
        (sort_key me_created (filter (\<lambda>m. me_status m = MPending) (merchants db))))"

fun status_of_action :: "string \<Rightarrow> merchant_status option" where
  "status_of_action a = (if a = ''activate'' then Some MActive else if a = ''pause'' then Some MPaused
     else if a = ''suspend'' then Some MSuspended else None)"

fun merchant_status_text :: "merchant_status \<Rightarrow> string" where
  "merchant_status_text MPending = ''pending''"
| "merchant_status_text MActive = ''active''"
| "merchant_status_text MPaused = ''paused''"
| "merchant_status_text MSuspended = ''suspended''"

definition set_status_row :: "time \<Rightarrow> uuid \<Rightarrow> merchant_status \<Rightarrow> string \<Rightarrow> merchant \<Rightarrow> merchant" where
  "set_status_row dnow ops st reason m = m\<lparr>me_status := st, me_suspended := nullable reason,
     me_approved_at := (if st = MActive then Some (coalesce (me_approved_at m) dnow) else me_approved_at m),
     me_approved_by := (if st = MActive then Some ops else me_approved_by m), me_updated := dnow\<rparr>"

definition set_status_tx ::
  "time \<Rightarrow> uuid \<Rightarrow> uuid \<Rightarrow> merchant_status \<Rightarrow> string \<Rightarrow> (merchants_db \<times> core, err, merchant) op" where
  "set_status_tx dnow ops i st reason = (\<lambda>(db, c).
     case find (\<lambda>m. me_id m = i) (merchants db) of
       None \<Rightarrow> (Inl ErrNotFound, db, c)
     | Some m \<Rightarrow>
         let m' = set_status_row dnow ops st reason m;
             db1 = db\<lparr>merchants := upd_where (\<lambda>x. me_id x = i) (\<lambda>_. m') (merchants db)\<rparr>;
             db2 = (if st = MActive then db1\<lparr>m_caps := grant (me_owner m) ''MERCHANT'' (m_caps db1)\<rparr> else db1)
         in (Inr m', db2,
             (m_audit ops (''merchant.'' @ merchant_status_text st) i [(''reason'', JStr reason)] c)
               \<lparr>outbox := Emit dnow ''merchant'' i ''MerchantStatusChanged''
                  [(''merchant_id'', JStr i), (''owner_id'', JStr (me_owner m)),
                   (''status'', JStr (merchant_status_text st)), (''reason'', JStr reason)] (outbox c)\<rparr>))"

definition SetStatus :: "time \<Rightarrow> uuid \<Rightarrow> uuid \<Rightarrow> string \<Rightarrow> string \<Rightarrow> (merchants_db \<times> core, err, merchant) op" where
  "SetStatus dnow ops i action reason s =
     (case status_of_action action of
        None \<Rightarrow> (Inl (ErrValidation [(''action'', ''invalid'')]), s)
      | Some st \<Rightarrow>
          if st = MSuspended \<and> TrimSpace reason = [] then (Inl (ErrValidation [(''reason'', ''required'')]), s)
          else begin_func (set_status_tx dnow ops i st reason) s)"

section \<open>Reading\<close>

text \<open>\<open>is_uuid\<close> is \<open>uuid.Parse\<close> of the uuid package: orders keep the identifier, links the slug.\<close>

definition BySlug :: "(string \<Rightarrow> bool) \<Rightarrow> time \<Rightarrow> time \<Rightarrow> string \<Rightarrow> merchants_db \<Rightarrow> err + merchant_view" where
  "BySlug is_uuid tz gnow slug db =
     (let key = map to_lower (TrimSpace slug);
          col = (if is_uuid key then me_id else me_slug)
      in case find (\<lambda>m. col m = key \<and> me_status m = MActive) (merchants db) of
           None \<Rightarrow> Inl ErrNotFound
         | Some m \<Rightarrow> Inr (view_of tz gnow db (m\<lparr>me_phone := None\<rparr>)))"

definition GetMerchant :: "time \<Rightarrow> time \<Rightarrow> uuid \<Rightarrow> uuid \<Rightarrow> merchants_db \<Rightarrow> err + merchant_view" where
  "GetMerchant tz gnow user i db =
     (case Membership user i db of
        Inl e \<Rightarrow> Inl e
      | Inr _ \<Rightarrow> (case find (\<lambda>m. me_id m = i) (merchants db) of
                    None \<Rightarrow> Inl ErrNotFound | Some m \<Rightarrow> Inr (view_of tz gnow db m)))"

text \<open>\<open>favourites.go\<close>.\<close>

definition AddFavourite :: "time \<Rightarrow> uuid \<Rightarrow> uuid \<Rightarrow> (merchants_db, err, unit) op" where
  "AddFavourite dnow user i db =
     (if \<not> exists_where (\<lambda>m. me_id m = i \<and> me_status m = MActive) (merchants db) then (Inl ErrNotFound, db)
      else if exists_where (\<lambda>f. fv_user f = user \<and> fv_merchant f = i) (favourites db) then (Inr (), db)
      else (Inr (), db\<lparr>favourites := favourites db @ [\<lparr>fv_user = user, fv_merchant = i, fv_created = dnow\<rparr>]\<rparr>))"

definition RemoveFavourite :: "uuid \<Rightarrow> uuid \<Rightarrow> merchants_db \<Rightarrow> merchants_db" where
  "RemoveFavourite user i db = db\<lparr>favourites := filter (\<lambda>f. \<not> (fv_user f = user \<and> fv_merchant f = i)) (favourites db)\<rparr>"

definition IsFavourite :: "uuid \<Rightarrow> uuid \<Rightarrow> merchants_db \<Rightarrow> bool" where
  "IsFavourite user i db = exists_where (\<lambda>f. fv_user f = user \<and> fv_merchant f = i) (favourites db)"

definition favouriteIDs :: "uuid \<Rightarrow> uuid list \<Rightarrow> merchants_db \<Rightarrow> uuid list" where
  "favouriteIDs user ids db =
     (if user = uuid_Nil \<or> ids = [] then []
      else map fv_merchant (filter (\<lambda>f. fv_user f = user \<and> fv_merchant f \<in> set ids) (favourites db)))"

definition distance_to :: "point option \<Rightarrow> merchant \<Rightarrow> int option" where
  "distance_to loc m = (case loc of None \<Rightarrow> None
     | Some p \<Rightarrow> if Valid p then Some \<lfloor>Haversine p (me_location m)\<rfloor> else None)"

definition Favourites :: "time \<Rightarrow> time \<Rightarrow> uuid \<Rightarrow> point option \<Rightarrow> merchants_db \<Rightarrow> (merchant_view \<times> int option) list" where
  "Favourites tz gnow user loc db =
     List.map_filter (\<lambda>f. map_option (\<lambda>m. (view_of tz gnow db (m\<lparr>me_phone := None\<rparr>), distance_to loc m))
         (find (\<lambda>m. me_id m = fv_merchant f \<and> me_status m = MActive) (merchants db)))
       (sort_key (\<lambda>f. - fv_created f) (filter (\<lambda>f. fv_user f = user) (favourites db)))"

section \<open>Slugs\<close>

lemma dash_not_slug [simp]: "\<not> slug_char (CHR ''-'')"
  by (simp add: slug_char_def is_lower_def is_digit_def)

lemma slug_runs_chars: "c \<in> set (slug_runs b s) \<Longrightarrow> slug_char c \<or> c = CHR ''-''"
  by (induction b s rule: slug_runs.induct) (auto split: if_splits)

lemma set_trim_dash: "set (trim_dash s) \<subseteq> set s"
proof
  fix c assume "c \<in> set (trim_dash s)"
  then have "c \<in> set (dropWhile ((=) (CHR ''-'')) (rev (dropWhile ((=) (CHR ''-'')) s)))" by (simp add: trim_dash_def)
  from set_dropWhileD[OF this] have "c \<in> set (dropWhile ((=) (CHR ''-'')) s)" by simp
  from set_dropWhileD[OF this] show "c \<in> set s" .
qed

lemma length_trim_dash: "length (trim_dash s) \<le> length s"
  by (simp add: trim_dash_def) (metis length_dropWhile_le length_rev order_trans)

lemma trim_dash_ends:
  "trim_dash s = [] \<or> (hd (trim_dash s) \<noteq> CHR ''-'' \<and> last (trim_dash s) \<noteq> CHR ''-'')"
proof (cases "trim_dash s")
  case (Cons a xs)
  define t where "t = dropWhile ((=) (CHR ''-'')) s"
  define u where "u = dropWhile ((=) (CHR ''-'')) (rev t)"
  have u: "trim_dash s = rev u" "u \<noteq> []" using Cons by (auto simp: trim_dash_def t_def u_def)
  have 1: "last (trim_dash s) \<noteq> CHR ''-''"
    using hd_dropWhile[of "(=) (CHR ''-'')" "rev t"] u by (metis last_rev u_def)
  have "t \<noteq> []" using u(2) u_def by auto
  then have "hd t \<noteq> CHR ''-''" using hd_dropWhile[of "(=) (CHR ''-'')" s] t_def by metis
  moreover have "last u = hd t"
  proof -
    obtain ys where "rev t = ys @ u" unfolding u_def by (metis takeWhile_dropWhile_id)
    then have "last (rev t) = last u" using u(2) by simp
    then show ?thesis using \<open>t \<noteq> []\<close> by (simp add: last_rev)
  qed
  ultimately show ?thesis using 1 u by (simp add: hd_rev)
qed simp

lemma trim_dash_id: "s = [] \<or> (hd s \<noteq> CHR ''-'' \<and> last s \<noteq> CHR ''-'') \<Longrightarrow> trim_dash s = s"
proof -
  have d: "dropWhile ((=) (CHR ''-'')) xs = xs" if "xs = [] \<or> hd xs \<noteq> CHR ''-''" for xs
    using that by (cases xs) auto
  assume "s = [] \<or> (hd s \<noteq> CHR ''-'' \<and> last s \<noteq> CHR ''-'')"
  then show ?thesis using d[of s] d[of "rev s"] by (auto simp: trim_dash_def hd_rev)
qed

abbreviation slugish :: "string \<Rightarrow> bool" where "slugish s \<equiv> \<forall>c \<in> set s. slug_char c \<or> c = CHR ''-''"

lemma slug_plain:
  "slug_char c \<or> c = CHR ''-'' \<Longrightarrow> \<not> is_space c \<and> to_lower c = c \<and> c \<noteq> CHR 0xC3 \<and> c \<noteq> CHR 0xC4 \<and> c \<noteq> CHR 0xE2 \<and> c \<noteq> CHR 0xE1"
  by (auto simp: slug_char_def is_lower_def is_digit_def is_space_def to_lower_def is_upper_def)

lemma utf8_lower_id: "slugish s \<Longrightarrow> utf8_lower s = s"
proof (induction s rule: utf8_lower.induct)
  case (3 a b cs)
  then show ?case using slug_plain[of a] by simp
qed (simp_all add: slug_plain)

lemma replace_letters_id: "slugish s \<Longrightarrow> replace_letters s = s"
proof (induction s rule: replace_letters.induct)
  case (3 a b cs)
  then show ?case using slug_plain[of a] by simp
qed simp_all

text \<open>No two dashes in a row.\<close>

fun single_dashes :: "bool \<Rightarrow> string \<Rightarrow> bool" where
  "single_dashes b [] = True"
| "single_dashes b (c # cs) = (if c = CHR ''-'' then \<not> b \<and> single_dashes True cs else single_dashes False cs)"

lemma single_dashes_runs: "single_dashes b (slug_runs b s)"
  by (induction b s rule: slug_runs.induct) auto

lemma slug_runs_id: "slugish s \<Longrightarrow> single_dashes b s \<Longrightarrow> slug_runs b s = s"
  by (induction b s rule: slug_runs.induct) (auto split: if_splits)

lemma single_dashes_append: "single_dashes b (xs @ ys) \<Longrightarrow> single_dashes b xs \<and> single_dashes False ys"
proof (induction xs arbitrary: b)
  case Nil
  then show ?case by (cases ys) (auto split: if_splits)
next
  case (Cons x xs)
  then show ?case by (auto split: if_splits)
qed

lemma trim_dash_infix: "\<exists>a b. s = a @ trim_dash s @ b"
proof -
  obtain a where a: "s = a @ dropWhile ((=) (CHR ''-'')) s" by (metis takeWhile_dropWhile_id)
  obtain b where b: "rev (dropWhile ((=) (CHR ''-'')) s) = b @ rev (trim_dash s)"
    unfolding trim_dash_def rev_rev_ident by (metis takeWhile_dropWhile_id)
  have "dropWhile ((=) (CHR ''-'')) s = trim_dash s @ rev b" using arg_cong[OF b, of rev] by simp
  then show ?thesis using a by metis
qed

lemma single_dashes_trim: "single_dashes False s \<Longrightarrow> single_dashes False (trim_dash s)"
  using trim_dash_infix[of s] single_dashes_append by metis

definition slug_ok :: "string \<Rightarrow> bool" where
  "slug_ok s \<longleftrightarrow> list_all (\<lambda>c. slug_char c \<or> c = CHR ''-'') s \<and> length s \<le> 60 \<and> single_dashes False s \<and>
     (s = [] \<or> hd s \<noteq> CHR ''-'' \<and> last s \<noteq> CHR ''-'')"

lemma slug_ok_Slugify: "slug_ok (Slugify name)"
proof -
  define r where "r = slug_runs False (replace_letters (utf8_lower (TrimSpace name)))"
  have r: "slugish r" "single_dashes False r" using slug_runs_chars single_dashes_runs by (auto simp: r_def)
  have t: "slugish (trim_dash r)" "single_dashes False (trim_dash r)"
    using set_trim_dash[of r] r single_dashes_trim by blast+
  have u: "slugish (take 60 (trim_dash r))" "single_dashes False (take 60 (trim_dash r))"
    using t single_dashes_append[of False "take 60 (trim_dash r)" "drop 60 (trim_dash r)"] in_set_takeD
    by (fastforce, simp)
  have v: "slugish (trim_dash (take 60 (trim_dash r)))" "single_dashes False (trim_dash (take 60 (trim_dash r)))"
    using set_trim_dash u single_dashes_trim by blast+
  have l: "length (trim_dash (take 60 (trim_dash r))) \<le> 60"
    using length_trim_dash[of "take 60 (trim_dash r)"] by simp
  show ?thesis
    using t v l trim_dash_ends unfolding slug_ok_def Slugify_def Let_def r_def [symmetric] list_all_iff by auto
qed

lemma slug_ok_fixed: "slug_ok s \<Longrightarrow> Slugify s = s"
proof -
  assume ok: "slug_ok s"
  then have s: "slugish s" "single_dashes False s" "length s \<le> 60" "trim_dash s = s"
    using trim_dash_id by (auto simp: slug_ok_def list_all_iff)
  have "TrimSpace s = s" using s(1) slug_plain by (intro TrimSpace_id) auto
  then show ?thesis using s by (simp add: Slugify_def utf8_lower_id replace_letters_id slug_runs_id Let_def)
qed

section \<open>Hours\<close>

definition day_minutes :: int where "day_minutes = 1440"
definition week_minutes :: int where "week_minutes = 10080"

definition hours_row_ok :: "hours_row \<Rightarrow> bool" where
  "hours_row_ok r \<longleftrightarrow> 0 \<le> hw_weekday r \<and> hw_weekday r \<le> 6 \<and> 0 \<le> hw_opens r \<and> hw_opens r < 86400 \<and> hw_opens r mod 60 = 0 \<and>
     0 \<le> hw_closes r \<and> hw_closes r < 86400 \<and> hw_closes r mod 60 = 0"

lemma char_of_int: "(char_of (int n) :: char) = char_of n"
  by (simp add: char_of_def bit_of_nat_iff_bit)

lemma show_02_digits:
  assumes "0 \<le> x" "x \<le> 9" "0 \<le> y" "y \<le> 9"
  shows "show_02 (10 * x + y) = [char_of (48 + x), char_of (48 + y)]"
proof -
  have n: "\<not> 10 * x + y < 0" using assms by simp
  have c: "char_of (48 + nat z) = (char_of (48 + z) :: char)" if "0 \<le> z" for z :: int
    using char_of_int[of "48 + nat z"] that by simp
  show ?thesis
  proof (cases "x = 0")
    case True
    moreover have "nat y < 10" using assms by simp
    moreover have "(char_of (48 :: nat) :: char) = CHR ''0''" by code_simp
    ultimately show ?thesis using assms c[of y] c[of 0] by (simp add: show_02_def show_int_def show_nat.simps Let_def)
  next
    case False
    then have big: "\<not> nat (10 * x + y) < 10" using assms by simp
    have d: "nat (10 * x + y) div 10 = nat x" "nat (10 * x + y) mod 10 = nat y"
      using assms by (simp_all add: nat_add_distrib nat_mult_distrib)
    have "show_nat (nat x) = [char_of (48 + nat x)]" using assms by (simp add: show_nat.simps)
    then have "show_nat (nat (10 * x + y)) = [char_of (48 + nat x), char_of (48 + nat y)]"
      using show_nat.simps[of "nat (10 * x + y)"] big d by simp
    then show ?thesis using n assms c by (simp add: show_02_def show_int_def Let_def)
  qed
qed

lemma digit_val_bounds: "is_digit c \<Longrightarrow> 0 \<le> digit_val c \<and> digit_val c \<le> 9"
proof -
  assume "is_digit c"
  then have "48 \<le> (of_char c :: nat)" "(of_char c :: nat) \<le> 57" by (simp_all add: is_digit_def)
  moreover have "(of_char c :: int) = int (of_char c)" by (simp add: of_nat_of_char)
  ultimately show ?thesis unfolding digit_val_def by linarith
qed

lemma char_of_digit_val [simp]: "char_of (48 + digit_val c) = c"
  by (simp add: digit_val_def)

lemma parseHM_cases:
  assumes "parseHM s = Some m"
  obtains a b d e where "s = [a, b, CHR '':'', d, e]" "is_digit a" "is_digit b" "is_digit d" "is_digit e"
    "m = (10 * digit_val a + digit_val b) * 60 + (10 * digit_val d + digit_val e)"
    "10 * digit_val a + digit_val b \<le> 23" "10 * digit_val d + digit_val e \<le> 59"
  using assms by (cases s rule: parseHM.cases) (auto simp: Let_def algebra_simps split: if_splits)

lemma parseHM_bounds: "parseHM s = Some m \<Longrightarrow> 0 \<le> m \<and> m < 1440"
  by (elim parseHM_cases) (use digit_val_bounds in fastforce)

lemma to_char_time_of [simp]: "parseHM s \<noteq> None \<Longrightarrow> to_char_HM (time_of_HM s) = s"
proof -
  assume "parseHM s \<noteq> None"
  then obtain m where m: "parseHM s = Some m" by blast
  from m show ?thesis
  proof (rule parseHM_cases)
    fix a b d e
    assume s: "s = [a, b, CHR '':'', d, e]" "is_digit a" "is_digit b" "is_digit d" "is_digit e"
      "m = (10 * digit_val a + digit_val b) * 60 + (10 * digit_val d + digit_val e)"
      "10 * digit_val a + digit_val b \<le> 23" "10 * digit_val d + digit_val e \<le> 59"
    define h where "h = 10 * digit_val a + digit_val b"
    define n where "n = 10 * digit_val d + digit_val e"
    have b: "0 \<le> digit_val a" "digit_val a \<le> 9" "0 \<le> digit_val b" "digit_val b \<le> 9" "0 \<le> digit_val d" "digit_val d \<le> 9"
      "0 \<le> digit_val e" "digit_val e \<le> 9" using digit_val_bounds s(2-5) by blast+
    have t: "time_of_HM s = (h * 60 + n) * 60" using m s(6) by (simp add: time_of_HM_def h_def n_def)
    have n: "0 \<le> n" "n \<le> 59" using b s(8) by (simp_all add: n_def)
    have "time_of_HM s div 3600 = h" "time_of_HM s div 60 mod 60 = n" using n unfolding t by (simp_all add: div_mult2_eq)
    then have "to_char_HM (time_of_HM s) = show_02 h @ '':'' @ show_02 n" by (simp add: to_char_HM_def)
    also have "\<dots> = s" using b by (simp add: h_def n_def show_02_digits s(1))
    finally show ?thesis .
  qed
qed

lemma time_of_HM_ok: "parseHM s = Some m \<Longrightarrow> 0 \<le> time_of_HM s \<and> time_of_HM s < 86400 \<and> time_of_HM s mod 60 = 0"
  using parseHM_bounds[of s m] by (simp add: time_of_HM_def)

lemma parseHM_to_char:
  assumes "0 \<le> x" "x < 86400"
  shows "parseHM (to_char_HM x) = Some (x div 60)"
proof -
  define h where "h = x div 3600"
  define n where "n = x div 60 mod 60"
  have h: "0 \<le> h" "h \<le> 23" and n: "0 \<le> n" "n \<le> 59" using assms by (auto simp: h_def n_def)
  have hd: "h = 10 * (h div 10) + h mod 10" "n = 10 * (n div 10) + n mod 10" by simp_all
  have dg: "is_digit (char_of (48 + z)) \<and> digit_val (char_of (48 + z)) = z" if "0 \<le> z" "z \<le> 9" for z :: int
  proof -
    have "(of_char (char_of (48 + z) :: char) :: int) = 48 + z" using that by (simp add: of_char_of)
    moreover have "(of_char (char_of (48 + z) :: char) :: nat) = nat (48 + z)"
      using calculation by (metis nat_int of_nat_of_char)
    moreover have "48 \<le> nat (48 + z)" "nat (48 + z) \<le> 57" using that by linarith+
    ultimately show ?thesis by (simp add: is_digit_def digit_val_def)
  qed
  have "to_char_HM x = [char_of (48 + h div 10), char_of (48 + h mod 10), CHR '':'', char_of (48 + n div 10), char_of (48 + n mod 10)]"
    using show_02_digits[of "h div 10" "h mod 10"] show_02_digits[of "n div 10" "n mod 10"] h n hd
    by (simp add: to_char_HM_def h_def [symmetric] n_def [symmetric])
  moreover have "x div 60 = h * 60 + n"
  proof -
    have "h = x div 60 div 60" by (simp add: h_def div_mult2_eq [symmetric])
    then show ?thesis by (simp add: n_def)
  qed
  ultimately show ?thesis using dg h n by (simp add: Let_def)
qed

text \<open>The minute of the week, and the interval of minutes a row stands for.\<close>

definition minute_of_week :: "time \<Rightarrow> time \<Rightarrow> int" where
  "minute_of_week tz t = weekday_of tz t * 1440 + second_of_day tz t div 60"

definition row_covers :: "hours_row \<Rightarrow> int \<Rightarrow> bool" where
  "row_covers r w =
     (let op = hw_opens r div 60; cl = hw_closes r div 60; len = (if cl > op then cl - op else 1440 - op + cl)
      in (w - (hw_weekday r * 1440 + op)) mod 10080 < len)"

lemma clock_bounds: "0 \<le> weekday_of tz t \<and> weekday_of tz t \<le> 6" "0 \<le> second_of_day tz t \<and> second_of_day tz t < 86400"
proof -
  show "0 \<le> weekday_of tz t \<and> weekday_of tz t \<le> 6" by (simp add: weekday_of_def)
  have "0 \<le> (t + tz) mod (24 * Hour)" "(t + tz) mod (24 * Hour) < 86400 * Second" by simp_all
  then have "0 \<le> (t + tz) mod (24 * Hour) div Second \<and> (t + tz) mod (24 * Hour) div Second < 86400"
    using div_bounds[of Second "(t + tz) mod (24 * Hour)"] by (intro conjI pos_imp_zdiv_nonneg_iff[THEN iffD2]) linarith+
  then show "0 \<le> second_of_day tz t \<and> second_of_day tz t < 86400" by (simp only: second_of_day_def)
qed

lemma week_interval:
  fixes today wd m op cl :: int
  assumes "0 \<le> today" "today \<le> 6" "0 \<le> wd" "wd \<le> 6" "0 \<le> m" "m < 1440" "0 \<le> op" "op < 1440" "0 \<le> cl" "cl < 1440"
  shows "(today * 1440 + m - (wd * 1440 + op)) mod 10080 < (if cl > op then cl - op else 1440 - op + cl) \<longleftrightarrow>
    (if cl > op then wd = today \<and> m \<ge> op \<and> m < cl
     else (wd = today \<and> m \<ge> op) \<or> (wd = (today + 6) mod 7 \<and> m < cl))"
proof -
  define x where "x = today * 1440 + m - (wd * 1440 + op)"
  have y: "(today + 6) mod 7 = (if today = 0 then 6 else today - 1)"
  proof (cases "today = 0")
    case False
    have "(today + 6) mod 7 = (today - 1 + 7) mod 7" by (rule arg_cong[where f = "\<lambda>x. x mod 7"]) simp
    also have "\<dots> = (today - 1) mod 7" by (rule mod_add_self2)
    also have "\<dots> = today - 1" using False assms(1,2) by (intro mod_pos_pos_trivial) simp_all
    finally show ?thesis using False by simp
  qed simp
  have xm: "x mod 10080 = (if x < 0 then x + 10080 else x)"
  proof (cases "x < 0")
    case True
    then have "0 \<le> x + 10080" "x + 10080 < 10080" using assms by (auto simp: x_def)
    then show ?thesis using True by (metis mod_add_self2 mod_pos_pos_trivial)
  next
    case False
    then have "0 \<le> x" "x < 10080" using assms by (auto simp: x_def)
    then show ?thesis using False by simp
  qed
  define d where "d = today - wd"
  have x: "x = d * 1440 + m - op" by (simp add: x_def d_def algebra_simps)
  have d: "- 6 \<le> d" "d \<le> 6" "wd = today \<longleftrightarrow> d = 0" "wd = (today + 6) mod 7 \<longleftrightarrow> d = 1 \<or> d = - 6"
    using assms(1-4) unfolding y by (auto simp: d_def)
  have v: "(if cl > op then cl - op else 1440 - op + cl) \<le> 1440" using assms(7-10) by simp
  consider "d = 0" | "d = 1 \<or> d = - 6" | "2 \<le> d" | "- 5 \<le> d" "d \<le> - 1" using d(1,2) by linarith
  then have "(if x < 0 then x + 10080 else x) < (if cl > op then cl - op else 1440 - op + cl) \<longleftrightarrow>
    (if cl > op then d = 0 \<and> m \<ge> op \<and> m < cl else (d = 0 \<and> m \<ge> op) \<or> ((d = 1 \<or> d = - 6) \<and> m < cl))"
  proof cases
    case 1
    then show ?thesis using assms(5-10) x by simp
  next
    case 2
    then have "(if x < 0 then x + 10080 else x) = 1440 + m - op" "d \<noteq> 0" using assms(5-8) x by auto
    then show ?thesis using 2 assms(5-10) by simp
  next
    case 3
    then have "(if x < 0 then x + 10080 else x) > 1440" "d \<noteq> 0" "d \<noteq> 1" "d \<noteq> - 6" using assms(5-8) x by simp_all
    then show ?thesis using v by simp
  next
    case 4
    then have "(if x < 0 then x + 10080 else x) > 1440" "d \<noteq> 0" "d \<noteq> 1" "d \<noteq> - 6" using assms(5-8) x by simp_all
    then show ?thesis using v by simp
  qed
  then show ?thesis unfolding x_def [symmetric] xm d(3,4) .
qed

lemma OpenAt_set: "set hs = set hs' \<Longrightarrow> OpenAt hs tz t = OpenAt hs' tz t"
  by (simp add: OpenAt_def list_ex_iff Let_def)

lemma set_hours_of:
  "set (hours_of i db) = read_hours ` {r \<in> set (hours_rows db). hw_merchant r = i}"
  by (simp add: hours_of_def)

lemma row_open:
  assumes "hours_row_ok r"
  shows "open_interval (weekday_of tz t) (second_of_day tz t div 60) (read_hours r) \<longleftrightarrow> row_covers r (minute_of_week tz t)"
proof -
  define op where "op = hw_opens r div 60"
  define cl where "cl = hw_closes r div 60"
  define m where "m = second_of_day tz t div 60"
  have p: "parseHM (to_char_HM (hw_opens r)) = Some op" "parseHM (to_char_HM (hw_closes r)) = Some cl"
    using assms by (simp_all add: hours_row_ok_def parseHM_to_char op_def cl_def)
  have b: "0 \<le> op" "op < 1440" "0 \<le> cl" "cl < 1440" using assms by (auto simp: hours_row_ok_def op_def cl_def)
  have m: "0 \<le> m" "m < 1440" using clock_bounds(2)[of tz t] by (auto simp: m_def)
  have w: "0 \<le> weekday_of tz t" "weekday_of tz t \<le> 6" "0 \<le> hw_weekday r" "hw_weekday r \<le> 6"
    using clock_bounds(1)[of tz t] assms by (simp_all add: hours_row_ok_def)
  have "open_interval (weekday_of tz t) m (read_hours r) \<longleftrightarrow>
     (if cl > op then hw_weekday r = weekday_of tz t \<and> m \<ge> op \<and> m < cl
     else (hw_weekday r = weekday_of tz t \<and> m \<ge> op) \<or> (hw_weekday r = (weekday_of tz t + 6) mod 7 \<and> m < cl))"
    using p by (simp add: open_interval_def read_hours_def)
  then show ?thesis
    unfolding m_def [symmetric] row_covers_def minute_of_week_def op_def [symmetric] cl_def [symmetric] Let_def
    using week_interval[OF w m b] by simp
qed

lemma OpenAt_covers:
  assumes "\<forall>r \<in> set (hours_rows db). hours_row_ok r"
  shows "OpenAt (hours_of i db) tz t \<longleftrightarrow>
    (\<exists>r \<in> set (hours_rows db). hw_merchant r = i \<and> row_covers r (minute_of_week tz t))"
  using assms row_open unfolding OpenAt_def list_ex_iff set_hours_of by auto

lemma check_hours_ok:
  "check_hours days hs = None \<Longrightarrow> h \<in> set hs \<Longrightarrow>
   0 \<le> Weekday h \<and> Weekday h \<le> 6 \<and> parseHM (Opens h) \<noteq> None \<and> parseHM (Closes h) \<noteq> None"
  by (induction days hs rule: check_hours.induct) (auto split: if_splits)

abbreviation row_of_hours :: "uuid \<Rightarrow> hours \<Rightarrow> hours_row" where
  "row_of_hours i h \<equiv> \<lparr>hw_merchant = i, hw_weekday = Weekday h, hw_opens = time_of_HM (Opens h), hw_closes = time_of_HM (Closes h)\<rparr>"

lemma insert_hours_from: "r \<in> set (insert_hours i hs rows) \<Longrightarrow> r \<in> set rows \<or> (\<exists>h \<in> set hs. r = row_of_hours i h)"
  by (induction i hs rows rule: insert_hours.induct) (force split: if_splits)+

lemma insert_hours_keeps: "r \<in> set rows \<Longrightarrow> r \<in> set (insert_hours i hs rows)"
  by (induction i hs rows rule: insert_hours.induct) auto

lemma insert_hours_key:
  "h \<in> set hs \<Longrightarrow> \<exists>r \<in> set (insert_hours i hs rows). hw_merchant r = i \<and> hw_weekday r = Weekday h \<and> hw_opens r = time_of_HM (Opens h)"
proof (induction i hs rows rule: insert_hours.induct)
  case (2 i h' hs rows)
  show ?case
  proof (cases "h = h'")
    case True
    let ?rows = "if exists_where (\<lambda>r. hw_merchant r = i \<and> hw_weekday r = Weekday h' \<and> hw_opens r = time_of_HM (Opens h')) rows
      then rows else rows @ [row_of_hours i h']"
    have "\<exists>r \<in> set ?rows. hw_merchant r = i \<and> hw_weekday r = Weekday h' \<and> hw_opens r = time_of_HM (Opens h')"
      by (auto simp: exists_where_iff)
    then show ?thesis using True insert_hours_keeps by fastforce
  qed (use 2 in auto)
qed simp

lemma row_of_hours_ok: "check_hours [] hs = None \<Longrightarrow> h \<in> set hs \<Longrightarrow> hours_row_ok (row_of_hours i h)"
  using check_hours_ok[of "[]" hs h] time_of_HM_ok by (fastforce simp: hours_row_ok_def)

lemma time_of_HM_inj: "parseHM s \<noteq> None \<Longrightarrow> parseHM s' \<noteq> None \<Longrightarrow> time_of_HM s = time_of_HM s' \<Longrightarrow> s = s'"
  using to_char_time_of by metis

lemma SetHours_cases:
  assumes "SetHours user i hs (db, c) = (Inr out, s')"
  shows "check_hours [] hs = None \<and>
    fst s' = db\<lparr>hours_rows := insert_hours i hs (filter (\<lambda>r. hw_merchant r \<noteq> i) (hours_rows db))\<rparr> \<and> out = hours_of i (fst s')"
  using assms by (auto simp: SetHours_def Let_def split: option.splits)

lemma SetHours_rows:
  assumes "SetHours user i hs (db, c) = (Inr out, s')"
  shows "set out \<subseteq> set hs" "h \<in> set hs \<Longrightarrow> \<exists>h' \<in> set out. Weekday h' = Weekday h \<and> Opens h' = Opens h"
proof -
  note C = SetHours_cases[OF assms]
  let ?rows = "insert_hours i hs (filter (\<lambda>r. hw_merchant r \<noteq> i) (hours_rows db))"
  have ok: "parseHM (Opens h) \<noteq> None \<and> parseHM (Closes h) \<noteq> None" if "h \<in> set hs" for h using C check_hours_ok that by blast
  have rows: "{r \<in> set ?rows. hw_merchant r = i} \<subseteq> row_of_hours i ` set hs" using insert_hours_from by fastforce
  have out: "set out = read_hours ` {r \<in> set ?rows. hw_merchant r = i}"
    using C by (simp add: set_hours_of)
  have readback: "read_hours (row_of_hours i h) = h" if "h \<in> set hs" for h
    using ok[OF that] by (simp add: read_hours_def)
  show "set out \<subseteq> set hs"
  proof
    fix x assume "x \<in> set out"
    then obtain r where "r \<in> set ?rows" "hw_merchant r = i" 
      and x: "x = read_hours r"
      unfolding out by blast
    then obtain h where "h \<in> set hs" "r = row_of_hours i h" using rows by blast
    then show "x \<in> set hs" using x readback by simp
  qed
  show "\<exists>h' \<in> set out. Weekday h' = Weekday h \<and> Opens h' = Opens h" if h: "h \<in> set hs"
  proof -
    obtain r where r: "r \<in> set ?rows" "hw_merchant r = i" "hw_weekday r = Weekday h" "hw_opens r = time_of_HM (Opens h)"
      using insert_hours_key[OF h] by blast
    then have "read_hours r \<in> set out"
      unfolding out by blast
    then show ?thesis using r ok[OF h] by (intro bexI[of _ "read_hours r"]) (simp_all add: read_hours_def)
  qed
qed

text \<open>
  C39. Setting the opening hours of a merchant and reading them back gives what was set: when no two of
  the given intervals start at the same time of the same day, the answer holds exactly the given
  intervals, and the place is open at exactly the times the given list says, whatever hours were
  stored before.
\<close>
theorem SetHours_reads_back:
  assumes "SetHours user i hs (db, c) = (Inr out, s')" "distinct (map (\<lambda>h. (Weekday h, Opens h)) hs)"
  shows "set out = set hs \<and> hours_of i (fst s') = out \<and> OpenAt (hours_of i (fst s')) tz t = OpenAt hs tz t"
proof -
  note R = SetHours_rows[OF assms(1)]
  have "set hs \<subseteq> set out"
  proof
    fix h assume h: "h \<in> set hs"
    then obtain h' where h': "h' \<in> set out" "Weekday h' = Weekday h" "Opens h' = Opens h" using R(2) by blast
    with R(1) have "h' \<in> set hs" by blast
    with h h' assms(2) have "h' = h" by (auto intro: distinct_keyD[where k = "\<lambda>h. (Weekday h, Opens h)"])
    with h' show "h \<in> set out" by simp
  qed
  with R(1) have "set out = set hs" by blast
  then show ?thesis using SetHours_cases[OF assms(1)] OpenAt_set by metis
qed

definition demo_hours :: "hours list" where
  "demo_hours = [\<lparr>Weekday = 1, Opens = ''08:00'', Closes = ''23:00''\<rparr>, \<lparr>Weekday = 5, Opens = ''18:00'', Closes = ''02:00''\<rparr>]"

definition demo_merchants :: merchants_db where
  "demo_merchants = \<lparr>merchants = [], hours_rows = [], staff = [\<lparr>sf_merchant = ''m1'', sf_user = ''u9'', sf_role = StOwner\<rparr>],
     favourites = [], m_caps = [], m_users = [],
     m_pricing = \<lparr>areas = [], categories = [], rule_rows = [], quotes = []\<rparr>\<rparr>"

theorem SetHours_reads_back_witness:
  "\<exists>out s'. SetHours ''u9'' ''m1'' demo_hours (demo_merchants, empty_core) = (Inr out, s') \<and> set out = set demo_hours"
proof -
  have chk: "check_hours [] demo_hours = None" by (simp add: demo_hours_def is_digit_def digit_val_def Let_def)
  have role: "requireRole ''u9'' ''m1'' [StOwner, StManager] demo_merchants = None"
    by (simp add: requireRole_def Membership_def demo_merchants_def)
  obtain out s' where S: "SetHours ''u9'' ''m1'' demo_hours (demo_merchants, empty_core) = (Inr out, s')"
    using chk role by (simp add: SetHours_def Let_def)
  have "distinct (map (\<lambda>h. (Weekday h, Opens h)) demo_hours)" by (simp add: demo_hours_def)
  from SetHours_reads_back[OF S this, of 0 0] S show ?thesis by blast
qed

section \<open>The invariant of the module\<close>

definition merchant_ok :: "merchant \<Rightarrow> bool" where
  "merchant_ok m \<longleftrightarrow> me_fulfillment m \<in> set FulfillmentModes \<and> 0 \<le> me_min_order m \<and> me_min_order m \<le> 20000 \<and>
     0 \<le> me_fee m \<and> me_fee m \<le> 2000 \<and> 5 \<le> me_prep m \<and> me_prep m \<le> 180 \<and>
     (me_status m = MActive \<longrightarrow> me_approved_at m \<noteq> None \<and> me_approved_by m \<noteq> None) \<and>
     (me_status m = MSuspended \<longrightarrow> me_suspended m \<noteq> None)"

definition merchants_inv :: "merchants_db \<Rightarrow> bool" where
  "merchants_inv db \<longleftrightarrow> distinct (map me_id (merchants db)) \<and> distinct (map me_slug (merchants db)) \<and>
     (\<forall>m \<in> set (merchants db). merchant_ok m \<and> \<lparr>sf_merchant = me_id m, sf_user = me_owner m, sf_role = StOwner\<rparr> \<in> set (staff db)) \<and>
     (\<forall>r \<in> set (hours_rows db). hours_row_ok r) \<and>
     distinct (map (\<lambda>f. (fv_user f, fv_merchant f)) (favourites db))"

lemma merchants_invD:
  assumes "merchants_inv db"
  shows "distinct (map me_id (merchants db))" "distinct (map me_slug (merchants db))"
    "m \<in> set (merchants db) \<Longrightarrow> merchant_ok m"
    "m \<in> set (merchants db) \<Longrightarrow> \<lparr>sf_merchant = me_id m, sf_user = me_owner m, sf_role = StOwner\<rparr> \<in> set (staff db)"
    "\<forall>r \<in> set (hours_rows db). hours_row_ok r"
    "distinct (map (\<lambda>f. (fv_user f, fv_merchant f)) (favourites db))"
  using assms by (auto simp: merchants_inv_def)

text \<open>Replacing a merchant's row by one with the same identity.\<close>

lemma replace_merchant_inv:
  assumes inv: "merchants_inv db" and m: "m \<in> set (merchants db)" "me_id m = i"
    and m': "me_id m' = i" "me_slug m' = me_slug m" "me_owner m' = me_owner m" "merchant_ok m'"
  shows "merchants_inv (db\<lparr>merchants := upd_where (\<lambda>x. me_id x = i) (\<lambda>_. m') (merchants db), m_caps := caps\<rparr>)"
proof -
  note D = merchants_invD[OF inv]
  have only: "x = m" if "x \<in> set (merchants db)" "me_id x = i" for x
    using D(1) m that by (auto intro: distinct_keyD)
  have ms: "map me_id (upd_where (\<lambda>x. me_id x = i) (\<lambda>_. m') (merchants db)) = map me_id (merchants db)"
    "map me_slug (upd_where (\<lambda>x. me_id x = i) (\<lambda>_. m') (merchants db)) = map me_slug (merchants db)"
    using only m' by (auto simp: upd_where_def)
  have "merchant_ok x \<and> \<lparr>sf_merchant = me_id x, sf_user = me_owner x, sf_role = StOwner\<rparr> \<in> set (staff db)"
    if "x \<in> set (upd_where (\<lambda>x. me_id x = i) (\<lambda>_. m') (merchants db))" for x
    using that D(3,4) m m' by (auto simp: set_upd_where)
  then show ?thesis using D ms by (simp add: merchants_inv_def)
qed

lemma validateMerchant_ok:
  assumes "validateMerchant inp0 = (inp, [])"
  shows "aFulfillment inp \<in> set FulfillmentModes" "0 \<le> aMinOrder inp" "aMinOrder inp \<le> 20000" "5 \<le> aPrep inp" "aPrep inp \<le> 180"
  using assms by (auto simp: validateMerchant_def Let_def)

lemma ApplyMerchant_inv:
  assumes "merchants_inv (fst s)"
  shows "merchants_inv (fst (snd (ApplyMerchant dnow i suffixes user inp0 s)))"
proof -
  obtain inp f where v: "validateMerchant inp0 = (inp, f)" by (cases "validateMerchant inp0")
  have "merchants_inv (fst (snd (begin_func (apply_merchant_tx dnow i user slug areaID inp) s)))" if f: "f = []" for slug areaID
  proof (rule snd_begin_func_inv[where P = "\<lambda>s. merchants_inv (fst s)", OF assms])
    fix m s' assume b: "apply_merchant_tx dnow i user slug areaID inp s = (Inr m, s')"
    note D = merchants_invD[OF assms] and V = validateMerchant_ok[OF v[unfolded f]]
    have "\<not> exists_where (\<lambda>x. me_id x = i \<or> me_slug x = slug) (merchants (fst s))"
      and r: "fst s' = fst s\<lparr>merchants := merchants (fst s) @ [m], staff := staff (fst s) @ [\<lparr>sf_merchant = i, sf_user = user, sf_role = StOwner\<rparr>]\<rparr>"
      and m: "me_id m = i" "me_slug m = slug" "me_owner m = user" "me_status m = MPending" "me_fulfillment m = aFulfillment inp"
        "me_min_order m = aMinOrder inp" "me_fee m = 150" "me_prep m = aPrep inp"
      using b by (auto simp: apply_merchant_tx_def Let_def split: prod.splits if_splits)
    then have new: "\<forall>x \<in> set (merchants (fst s)). me_id x \<noteq> i \<and> me_slug x \<noteq> slug" by (auto simp: exists_where_iff)
    have "merchant_ok m" using V m by (simp add: merchant_ok_def)
    then show "merchants_inv (fst s')"
      using D new m unfolding r by (auto simp: merchants_inv_def)
  qed
  then show ?thesis using v assms by (simp add: ApplyMerchant_def Let_def)
qed

lemma validateUpdate_ok:
  assumes "validateUpdate inp0 = (inp, [])" "merchant_ok m"
  shows "merchant_ok (update_row dnow inp m)"
proof -
  have o: "lo \<le> coalesce x y \<and> coalesce x y \<le> hi" if "\<not> outside lo hi x" "lo \<le> y" "y \<le> hi" for lo hi y :: int and x
    using that by (cases x) (auto simp: outside_def coalesce_def)
  have v: "\<not> outside 5 180 (uPrep inp)" "\<not> outside 0 20000 (uMinOrder inp)" "\<not> outside 0 2000 (uFee inp)"
    and u: "\<not> (case uFulfillment inp of None \<Rightarrow> False | Some m \<Rightarrow> m \<notin> set FulfillmentModes)"
    using assms(1) by (auto simp: validateUpdate_def Let_def)
  have "coalesce (uFulfillment inp) (me_fulfillment m) \<in> set FulfillmentModes"
    using u assms(2) by (cases "uFulfillment inp") (auto simp: coalesce_def merchant_ok_def)
  then show ?thesis using assms(2) o[OF v(1)] o[OF v(2)] o[OF v(3)] by (simp add: merchant_ok_def update_row_def)
qed

lemma UpdateProfile_inv:
  assumes "merchants_inv (fst s)"
  shows "merchants_inv (fst (snd (UpdateProfile tz gnow dnow user i inp0 s)))"
proof -
  obtain inp f where v: "validateUpdate inp0 = (inp, f)" by (cases "validateUpdate inp0")
  have "merchants_inv (fst (snd (begin_func (update_profile_tx dnow user i inp) s)))" if f: "f = []"
  proof (rule snd_begin_func_inv[where P = "\<lambda>s. merchants_inv (fst s)", OF assms])
    fix m' s' assume b: "update_profile_tx dnow user i inp s = (Inr m', s')"
    obtain m where F: "find (\<lambda>m. me_id m = i) (merchants (fst s)) = Some m"
      using b by (cases "find (\<lambda>m. me_id m = i) (merchants (fst s))") (auto simp: update_profile_tx_def split: prod.splits)
    have m: "m \<in> set (merchants (fst s))" "me_id m = i" using find_SomeD[OF F] by auto
    have r: "fst s' = fst s\<lparr>merchants := upd_where (\<lambda>x. me_id x = i) (\<lambda>_. update_row dnow inp m) (merchants (fst s)), m_caps := m_caps (fst s)\<rparr>"
      using b F by (auto simp: update_profile_tx_def Let_def split: prod.splits)
    have "merchant_ok (update_row dnow inp m)"
      using validateUpdate_ok[OF v[unfolded f]] merchants_invD(3)[OF assms m(1)] by blast
    then show "merchants_inv (fst s')"
      unfolding r using m by (intro replace_merchant_inv[OF assms m]) (simp_all add: update_row_def)
  qed
  then show ?thesis using v assms by (auto simp: UpdateProfile_def split: option.splits sum.splits prod.splits)
qed

lemma SetHours_inv:
  assumes "merchants_inv (fst s)"
  shows "merchants_inv (fst (snd (SetHours user i hs s)))"
proof -
  obtain db c where s: "s = (db, c)" by (cases s)
  define res where "res = fst (SetHours user i hs s)"
  define s' where "s' = snd (SetHours user i hs s)"
  have Pair: "SetHours user i hs s = (res, s')" by (simp add: res_def s'_def)
  show ?thesis
  proof (cases res)
    case (Inl e)
    then show ?thesis using Pair assms by (auto simp: SetHours_def Let_def split: option.splits prod.splits)
  next
    case (Inr out)
    note C = SetHours_cases[OF Pair[unfolded s Inr]]
    note D = merchants_invD[OF assms]
    have "hours_row_ok r" if "r \<in> set (insert_hours i hs (filter (\<lambda>r. hw_merchant r \<noteq> i) (hours_rows db)))" for r
      using insert_hours_from[OF that] D(5) s C row_of_hours_ok by fastforce
    then show ?thesis using D C Pair s by (simp add: merchants_inv_def)
  qed
qed

lemma staff_change_inv:
  assumes "merchants_inv db" "\<forall>x \<in> set (staff db). sf_role x = StOwner \<longrightarrow> x \<in> set t"
  shows "merchants_inv (db\<lparr>staff := t\<rparr>)"
proof -
  have "\<lparr>sf_merchant = me_id m, sf_user = me_owner m, sf_role = StOwner\<rparr> \<in> set t" if "m \<in> set (merchants db)" for m
    using merchants_invD(4)[OF assms(1) that] assms(2) by fastforce
  then show ?thesis using assms(1) by (simp add: merchants_inv_def)
qed

lemma AddStaff_inv: "merchants_inv (fst s) \<Longrightarrow> merchants_inv (fst (snd (AddStaff actor i phone r s)))"
  by (cases s) (auto simp: AddStaff_def Let_def upsert_staff_def set_upd_where split: option.splits intro!: staff_change_inv)

lemma RemoveStaff_inv:
  assumes "merchants_inv (fst s)"
  shows "merchants_inv (fst (snd (RemoveStaff actor i user s)))"
proof (cases "requireRole actor i [StOwner] (fst s)")
  case None
  obtain db c where s: "s = (db, c)" by (cases s)
  let ?gone = "\<lambda>x. sf_merchant x = i \<and> sf_user x = user \<and> sf_role x \<noteq> StOwner"
  have "merchants_inv (db\<lparr>staff := filter (\<lambda>x. \<not> ?gone x) (staff db)\<rparr>)"
    using assms s by (intro staff_change_inv) auto
  then show ?thesis using None assms s by (simp add: RemoveStaff_def begin_func_def Let_def)
qed (use assms in \<open>simp add: RemoveStaff_def\<close>)

lemma SetStatus_inv:
  assumes "merchants_inv (fst s)"
  shows "merchants_inv (fst (snd (SetStatus dnow ops i action reason s)))"
proof -
  have "merchants_inv (fst (snd (begin_func (set_status_tx dnow ops i st reason) s)))"
    if ok: "st \<noteq> MSuspended \<or> TrimSpace reason \<noteq> []" for st
  proof (rule snd_begin_func_inv[where P = "\<lambda>s. merchants_inv (fst s)", OF assms])
    fix m' s' assume b: "set_status_tx dnow ops i st reason s = (Inr m', s')"
    obtain m where F: "find (\<lambda>m. me_id m = i) (merchants (fst s)) = Some m"
      using b by (cases "find (\<lambda>m. me_id m = i) (merchants (fst s))") (auto simp: set_status_tx_def split: prod.splits)
    have m: "m \<in> set (merchants (fst s))" "me_id m = i" using find_SomeD[OF F] by auto
    have r: "fst s' = fst s\<lparr>merchants := upd_where (\<lambda>x. me_id x = i) (\<lambda>_. set_status_row dnow ops st reason m) (merchants (fst s)),
        m_caps := (if st = MActive then grant (me_owner m) ''MERCHANT'' (m_caps (fst s)) else m_caps (fst s))\<rparr>"
      using b F by (cases "st = MActive") (auto simp: set_status_tx_def Let_def split: prod.splits)
    have "reason \<noteq> []" if "st = MSuspended" using ok that by (auto simp: TrimSpace_def)
    then have "merchant_ok (set_status_row dnow ops st reason m)"
      using merchants_invD(3)[OF assms m(1)] by (auto simp: merchant_ok_def set_status_row_def nullable_def)
    then show "merchants_inv (fst s')"
      unfolding r using m by (intro replace_merchant_inv[OF assms m]) (simp_all add: set_status_row_def)
  qed
  then show ?thesis using assms by (auto simp: SetStatus_def split: option.splits)
qed

lemma favourites_inv:
  "merchants_inv db \<Longrightarrow> merchants_inv (snd (AddFavourite dnow user i db))"
  "merchants_inv db \<Longrightarrow> merchants_inv (RemoveFavourite user i db)"
  by (auto simp: AddFavourite_def RemoveFavourite_def merchants_inv_def exists_where_iff distinct_map_filter)

inductive merchants_step :: "merchants_db \<times> core \<Rightarrow> merchants_db \<times> core \<Rightarrow> bool" where
  application: "merchants_step s (snd (ApplyMerchant dnow i suffixes user inp s))"
| profile: "merchants_step s (snd (UpdateProfile tz gnow dnow user i upd s))"
| set_hours: "merchants_step s (snd (SetHours user i hs s))"
| add: "merchants_step s (snd (AddStaff actor i phone r s))"
| remove: "merchants_step s (snd (RemoveStaff actor i user s))"
| status: "merchants_step s (snd (SetStatus dnow ops i action reason s))"
| like: "merchants_step (db, c) (snd (AddFavourite dnow user i db), c)"
| unlike: "merchants_step (db, c) (RemoveFavourite user i db, c)"
| other_modules: "merchants_step (db, c) (db\<lparr>m_users := us, m_caps := caps, m_pricing := p\<rparr>, c')"

inductive_cases merchants_stepE: "merchants_step s s'"

lemma merchants_step_inv: "merchants_step s s' \<Longrightarrow> merchants_inv (fst s) \<Longrightarrow> merchants_inv (fst s')"
proof (induction rule: merchants_step.induct)
  case (other_modules db c us caps p c')
  then show ?case by (simp add: merchants_inv_def)
qed (simp_all add: ApplyMerchant_inv UpdateProfile_inv SetHours_inv AddStaff_inv RemoveStaff_inv SetStatus_inv favourites_inv)

lemma merchants_reach_inv: "merchants_step\<^sup>*\<^sup>* s s' \<Longrightarrow> merchants_inv (fst s) \<Longrightarrow> merchants_inv (fst s')"
  by (induction rule: rtranclp_induct) (auto intro: merchants_step_inv)

definition no_merchants :: "merchants_db \<Rightarrow> bool" where
  "no_merchants db \<longleftrightarrow> merchants db = [] \<and> hours_rows db = [] \<and> favourites db = []"

text \<open>
  C38. Whatever owners, staff, customers and operations do: no two merchants share a slug; every
  merchant keeps its owner among its staff with the role of owner, so no member of the staff can
  remove or demote the owner; the terms of every merchant stay within the limits of the platform;
  and a merchant is active only after an approval, suspended only with a reason.
\<close>
theorem merchants_invariant:
  assumes "no_merchants db0" "merchants_step\<^sup>*\<^sup>* (db0, c0) (db, c)"
  shows "distinct (map me_slug (merchants db)) \<and>
    (\<forall>m \<in> set (merchants db).
       Membership (me_owner m) (me_id m) db \<noteq> Inl ErrNotMember \<and>
       \<lparr>sf_merchant = me_id m, sf_user = me_owner m, sf_role = StOwner\<rparr> \<in> set (staff db) \<and>
       me_fulfillment m \<in> set FulfillmentModes \<and> 0 \<le> me_min_order m \<and> me_min_order m \<le> 20000 \<and>
       0 \<le> me_fee m \<and> me_fee m \<le> 2000 \<and> 5 \<le> me_prep m \<and> me_prep m \<le> 180 \<and>
       (me_status m = MActive \<longrightarrow> me_approved_at m \<noteq> None \<and> me_approved_by m \<noteq> None) \<and>
       (me_status m = MSuspended \<longrightarrow> me_suspended m \<noteq> None))"
proof -
  have "merchants_inv db0" using assms(1) by (simp add: no_merchants_def merchants_inv_def)
  then have inv: "merchants_inv db" using merchants_reach_inv[OF assms(2)] by simp
  note D = merchants_invD[OF inv]
  have "Membership (me_owner m) (me_id m) db \<noteq> Inl ErrNotMember" if "m \<in> set (merchants db)" for m
  proof (cases "find (\<lambda>s. sf_merchant s = me_id m \<and> sf_user s = me_owner m) (staff db)")
    case None
    then show ?thesis using D(4)[OF that] unfolding find_None_iff by (metis staff_row.select_convs(1,2))
  qed (simp add: Membership_def)
  then show ?thesis using D(2-4) by (auto simp: merchant_ok_def)
qed

definition demo_apply :: merchant_input where
  "demo_apply = \<lparr>aType = ''restaurant'', aName = ''Te Agimi 2'', aDescription = [], aPhone = [], aAddress = ''Rr. B 7'',
     aCity = ''Peja'', aLocation = mk_point 42 21, aCuisines = [''Grill''], aFulfillment = [], aMinOrder = 300, aPrep = 0\<rparr>"

definition demo_shop :: "merchants_db \<times> core" where
  "demo_shop = snd (ApplyMerchant 100 ''m7'' [] ''u7'' demo_apply (demo_merchants, empty_core))"

lemma demo_validate: "\<exists>inp. validateMerchant demo_apply = (inp, []) \<and> aName inp = ''Te Agimi 2'' \<and> aMinOrder inp = 300"
proof -
  have n: "normalize_apply demo_apply = demo_apply\<lparr>aFulfillment := ''courier'', aPrep := 20, aCuisines := [''grill'']\<rparr>"
    unfolding normalize_apply_def demo_apply_def by code_simp
  have g: "Valid (mk_point 42 21)" "InKosovo (mk_point 42 21)" by (simp_all add: Valid_def InKosovo_def mk_point_def)
  show ?thesis unfolding validateMerchant_def n
    using g by (simp add: demo_apply_def Types_def FulfillmentModes_def add_field_if_def Let_def)
qed

lemma demo_shop_slug: "map me_slug (merchants (fst demo_shop)) = [''te-agimi-2'']"
proof -
  obtain inp where v: "validateMerchant demo_apply = (inp, [])" "aName inp = ''Te Agimi 2''" using demo_validate by blast
  have "Slugify ''Te Agimi 2'' = ''te-agimi-2''" by code_simp
  then show ?thesis
    using v by (simp add: demo_shop_def ApplyMerchant_def begin_func_def apply_merchant_tx_def demo_merchants_def exists_where_def Let_def)
qed

theorem merchants_invariant_witness:
  "\<exists>m. merchants (fst demo_shop) = [m] \<and> me_slug m = ''te-agimi-2'' \<and>
     \<lparr>sf_merchant = me_id m, sf_user = me_owner m, sf_role = StOwner\<rparr> \<in> set (staff (fst demo_shop))"
proof -
  have n: "no_merchants demo_merchants" by (simp add: no_merchants_def demo_merchants_def)
  have "merchants_step (demo_merchants, empty_core) demo_shop" unfolding demo_shop_def by (rule merchants_step.application)
  then have s: "merchants_step\<^sup>*\<^sup>* (demo_merchants, empty_core) (fst demo_shop, snd demo_shop)" by simp
  obtain m where m: "merchants (fst demo_shop) = [m]" "me_slug m = ''te-agimi-2''" using demo_shop_slug by auto
  then show ?thesis using merchants_invariant[OF n s] by simp
qed

text \<open>
  C40. A slug is fit for a link: it consists of lower case letters, digits and dashes, has at most 60
  characters, never begins or ends with a dash nor holds two dashes in a row, and taking the slug of
  a slug changes nothing.
\<close>
theorem Slugify_shape:
  "list_all (\<lambda>c. slug_char c \<or> c = CHR ''-'') (Slugify name) \<and> length (Slugify name) \<le> 60 \<and>
   (Slugify name = [] \<or> hd (Slugify name) \<noteq> CHR ''-'' \<and> last (Slugify name) \<noteq> CHR ''-'') \<and>
   single_dashes False (Slugify name) \<and> Slugify (Slugify name) = Slugify name"
  using slug_ok_Slugify[of name] slug_ok_fixed[OF slug_ok_Slugify[of name]] by (simp add: slug_ok_def)

text \<open>
  When the name has no letter that survives and the fallback is taken, the next slug is a bare suffix
  that begins with a dash.
\<close>

lemma nameless_second_merchant:
  "Slugify name = [] \<Longrightarrow> ''merchant'' \<in> set taken \<Longrightarrow> ''-'' @ x \<notin> set taken \<Longrightarrow>
   pick_slug taken (Slugify name) ''merchant'' (x # xs) = ''-'' @ x"
  by (cases xs) auto

text \<open>The profile update answers that the place is open even when it takes no orders.\<close>

lemma UpdateProfile_ignores_pause:
  "UpdateProfile tz gnow dnow user i inp s = (Inr (m, hs, is_open), s') \<Longrightarrow> is_open = OpenAt hs tz gnow"
  by (auto simp: UpdateProfile_def split: option.splits sum.splits prod.splits if_splits)

end
