(* ===== verification/Catalog.thy ===== *)
theory Catalog
  imports Merchants
begin

text \<open>
  \<open>modules/catalog/catalog.go\<close> (tables of \<open>migrations/0013\<close>): the categories, products and modifiers of a
  merchant, the public menu with its cache of thirty seconds, and the pricing of a selection, which is
  the only source of the prices of an order. The public discovery of merchants is here too, since it
  searches products. The changes of product images by \<open>modules/media/media.go\<close>, which empty the cache as
  well, are here with the tables they change. \<open>byname\<close> and \<open>byid\<close> are the order of the database on texts and identifiers.

  Bounds of the model of the menu: the map \<open>cache\<close> lies in the memory of one API process (the state
  here is that of one process and the database), and reading the tables and storing the menu is one step of \<open>Menu\<close>. The code
  releases its lock in between, and several processes may run: a change made by another process, or
  between the reading and the storing, can be missing in a menu for at most the thirty seconds.
\<close>

definition ErrUnavailable :: err where [err_defs]: "ErrUnavailable = API ''PRODUCT_UNAVAILABLE'' 409 False []"
definition ErrModifiers [err_defs]: "ErrModifiers = API ''MODIFIERS_INVALID'' 422 False []"
definition ErrWrongMerchant [err_defs]: "ErrWrongMerchant = API ''PRODUCT_WRONG_MERCHANT'' 422 False []"
definition PgRange [err_defs]: "PgRange = Plain ''22003''"

definition Units :: "string list" where
  "Units = [''piece'', ''kg'', ''g'', ''l'', ''ml'', ''portion'']"

definition MenuCacheTTL :: time where "MenuCacheTTL = 30 * Second"

section \<open>Tables\<close>

record cat_row =
  ca_id :: uuid
  ca_merchant :: uuid
  ca_name :: string
  ca_sort :: int
  ca_active :: bool

record product =
  pr_id :: uuid
  pr_merchant :: uuid
  pr_category :: "uuid option"
  pr_name :: string
  pr_description :: "string option"
  pr_price :: int
  pr_currency :: string
  pr_image :: "string option"
  pr_available :: bool
  pr_unit :: string
  pr_tags :: "string list"
  pr_sort :: int
  pr_deleted :: "time option"
  pr_updated :: time

record group_row =
  mg_id :: uuid
  mg_product :: uuid
  mg_name :: string
  mg_min :: int
  mg_max :: int
  mg_sort :: int

record option_row =
  mo_id :: uuid
  mo_group :: uuid
  mo_name :: string
  mo_delta :: int
  mo_available :: bool
  mo_sort :: int

type_synonym product_view = "product \<times> (group_row \<times> option_row list) list"

record menu =
  mn_merchant :: uuid
  mn_categories :: "cat_row list"
  mn_products :: "product_view list"
  mn_generated :: time

record catalog_db =
  cat_rows :: "cat_row list"
  products :: "product list"
  group_rows :: "group_row list"
  option_rows :: "option_row list"
  cache :: "uuid \<Rightarrow> (menu \<times> time) option"

definition requireStaff :: "uuid \<Rightarrow> uuid \<Rightarrow> merchants_db \<Rightarrow> err option" where
  "requireStaff user i mdb = (case Membership user i mdb of Inl e \<Rightarrow> Some e | Inr _ \<Rightarrow> None)"

definition invalidate :: "uuid \<Rightarrow> catalog_db \<Rightarrow> catalog_db" where
  "invalidate i db = db\<lparr>cache := (cache db)(i := None)\<rparr>"

text \<open>A column of type \<open>int\<close> or \<open>smallint\<close>.\<close>

definition in32 :: "int \<Rightarrow> bool" where "in32 n \<longleftrightarrow> - 2147483648 \<le> n \<and> n \<le> 2147483647"
definition in16 :: "int \<Rightarrow> bool" where "in16 n \<longleftrightarrow> - 32768 \<le> n \<and> n \<le> 32767"

section \<open>Categories\<close>

record category_input =
  ciName :: string
  ciSort :: int
  ciActive :: "bool option"

definition UpsertCategory ::
  "merchants_db \<Rightarrow> uuid \<Rightarrow> uuid \<Rightarrow> uuid \<Rightarrow> uuid option \<Rightarrow> category_input \<Rightarrow> (catalog_db, err, cat_row) op" where
  "UpsertCategory mdb newID user i cid inp db =
     (case requireStaff user i mdb of
        Some e \<Rightarrow> (Inl e, db)
      | None \<Rightarrow>
          let name = squash (ciName inp); active = coalesce (ciActive inp) True
          in if RuneCount name < 1 \<or> RuneCount name > 60 then (Inl (ErrValidation [(''name'', ''invalid'')]), db)
             else if \<not> in32 (ciSort inp) then (Inl PgRange, db)
             else (case cid of
                     None \<Rightarrow>
                       if exists_where (\<lambda>c. ca_id c = newID) (cat_rows db) then (Inl PgUnique, db)
                       else let c = \<lparr>ca_id = newID, ca_merchant = i, ca_name = name, ca_sort = ciSort inp, ca_active = active\<rparr>
                            in (Inr c, invalidate i (db\<lparr>cat_rows := cat_rows db @ [c]\<rparr>))
                   | Some k \<Rightarrow>
                       (case find (\<lambda>c. ca_id c = k \<and> ca_merchant c = i) (cat_rows db) of
                          None \<Rightarrow> (Inl ErrNotFound, db)
                        | Some c \<Rightarrow>
                            let c' = c\<lparr>ca_name := name, ca_sort := ciSort inp, ca_active := active\<rparr>
                            in (Inr c', invalidate i (db\<lparr>cat_rows :=
                                 upd_where (\<lambda>x. ca_id x = k \<and> ca_merchant x = i) (\<lambda>_. c') (cat_rows db)\<rparr>)))))"

text \<open>The products of a deleted category stay, without a category (\<open>ON DELETE SET NULL\<close>).\<close>

definition DeleteCategory :: "merchants_db \<Rightarrow> uuid \<Rightarrow> uuid \<Rightarrow> uuid \<Rightarrow> (catalog_db, err, unit) op" where
  "DeleteCategory mdb user i k db =
     (case requireStaff user i mdb of
        Some e \<Rightarrow> (Inl e, db)
      | None \<Rightarrow>
          if \<not> exists_where (\<lambda>c. ca_id c = k \<and> ca_merchant c = i) (cat_rows db) then (Inl ErrNotFound, db)
          else (Inr (), invalidate i (db\<lparr>cat_rows := filter (\<lambda>c. \<not> (ca_id c = k \<and> ca_merchant c = i)) (cat_rows db),
                 products := upd_where (\<lambda>p. pr_category p = Some k) (\<lambda>p. p\<lparr>pr_category := None\<rparr>) (products db)\<rparr>)))"

section \<open>Products\<close>

record option_input =
  oiName :: string
  oiDelta :: int
  oiAvailable :: "bool option"

record group_input =
  giName :: string
  giMin :: int
  giMax :: int
  giOptions :: "option_input list"

record product_input =
  piCategory :: "uuid option"
  piName :: string
  piDescription :: string
  piPrice :: int
  piImage :: "string option"
  piAvailable :: "bool option"
  piUnit :: string
  piTags :: "string list"
  piSort :: int
  piModifiers :: "group_input list option"

definition norm_group :: "group_input \<Rightarrow> group_input" where
  "norm_group g = g\<lparr>giName := squash (giName g), giMax := (if giMax g < 1 then 1 else giMax g),
     giOptions := map (\<lambda>x. x\<lparr>oiName := squash (oiName x)\<rparr>) (giOptions g)\<rparr>"

definition normalize_product :: "product_input \<Rightarrow> product_input" where
  "normalize_product inp = inp\<lparr>piName := squash (piName inp), piDescription := TrimSpace (piDescription inp),
     piUnit := (if piUnit inp = [] then ''piece'' else piUnit inp),
     piModifiers := map_option (map norm_group) (piModifiers inp), piTags := collect_tags 10 [] (piTags inp)\<rparr>"

text \<open>The checks of one group, on normalised input; a later complaint replaces an earlier one.\<close>

definition bad_option :: "option_input \<Rightarrow> bool" where
  "bad_option x \<longleftrightarrow> oiName x = [] \<or> RuneCount (oiName x) > 60 \<or> oiDelta x < - 100000 \<or> oiDelta x > 100000"

definition check_group :: "group_input \<Rightarrow> fields \<Rightarrow> fields" where
  "check_group g f =
     (let f = add_field_if (giName g = [] \<or> RuneCount (giName g) > 60) ''modifiers'' ''name'' f;
          f = add_field_if (giMin g < 0 \<or> giMin g > giMax g \<or> giOptions g = [] \<or> length (giOptions g) > 30)
                ''modifiers'' ''rules'' f
      in fold (\<lambda>x. add_field_if (bad_option x) ''modifiers'' ''option'') (giOptions g) f)"

definition validateProduct :: "product_input \<Rightarrow> product_input \<times> fields" where
  "validateProduct inp0 =
     (let inp = normalize_product inp0; groups = coalesce (piModifiers inp) [];
          f = add_field_if (RuneCount (piName inp) < 1 \<or> RuneCount (piName inp) > 120) ''name'' ''invalid'' [];
          f = add_field_if (RuneCount (piDescription inp) > 600) ''description'' ''too_long'' f;
          f = add_field_if (piPrice inp < 0 \<or> piPrice inp > 100000000) ''price_minor'' ''invalid'' f;
          f = add_field_if (piUnit inp \<notin> set Units) ''unit'' ''invalid'' f;
          f = add_field_if (length groups > 10) ''modifiers'' ''too_many'' f
      in (inp, fold check_group groups f))"

text \<open>\<open>loadModifiers\<close>: the groups of a product in their order, each with its options.\<close>

definition groups_of :: "catalog_db \<Rightarrow> uuid \<Rightarrow> (group_row \<times> option_row list) list" where
  "groups_of db pid = map (\<lambda>g. (g, sort_key mo_sort (filter (\<lambda>x. mo_group x = mg_id g) (option_rows db))))
     (sort_key mg_sort (filter (\<lambda>g. mg_product g = pid) (group_rows db)))"

text \<open>
  The inserts of the groups and options of a product. \<open>gid\<close> and \<open>oid\<close> are the identifiers the database
  generates; the columns \<open>min_select\<close> and \<open>max_select\<close> are of type \<open>smallint\<close>.
\<close>

fun insert_options :: "(nat \<Rightarrow> uuid) \<Rightarrow> uuid \<Rightarrow> nat \<Rightarrow> option_input list \<Rightarrow> (catalog_db, err, unit) op" where
  "insert_options oid gid n [] db = (Inr (), db)"
| "insert_options oid gid n (x # xs) db =
     (if exists_where (\<lambda>y. mo_id y = oid n) (option_rows db) then (Inl PgUnique, db)
      else insert_options oid gid (Suc n) xs (db\<lparr>option_rows := option_rows db @
             [\<lparr>mo_id = oid n, mo_group = gid, mo_name = oiName x, mo_delta = oiDelta x,
               mo_available = coalesce (oiAvailable x) True, mo_sort = int n\<rparr>]\<rparr>))"

fun insert_groups :: "(nat \<Rightarrow> uuid) \<Rightarrow> (nat \<Rightarrow> nat \<Rightarrow> uuid) \<Rightarrow> uuid \<Rightarrow> nat \<Rightarrow> group_input list \<Rightarrow> (catalog_db, err, unit) op" where
  "insert_groups gid oid pid n [] db = (Inr (), db)"
| "insert_groups gid oid pid n (g # gs) db =
     (if \<not> in16 (giMin g) \<or> \<not> in16 (giMax g) then (Inl PgRange, db)
      else if exists_where (\<lambda>y. mg_id y = gid n) (group_rows db) then (Inl PgUnique, db)
      else (case insert_options (oid n) (gid n) 0 (giOptions g) (db\<lparr>group_rows := group_rows db @
               [\<lparr>mg_id = gid n, mg_product = pid, mg_name = giName g, mg_min = giMin g, mg_max = giMax g, mg_sort = int n\<rparr>]\<rparr>) of
              (Inl e, db1) \<Rightarrow> (Inl e, db1)
            | (Inr _, db1) \<Rightarrow> insert_groups gid oid pid (Suc n) gs db1))"

text \<open>\<open>DELETE FROM modifier_groups\<close>: the options go with their groups.\<close>

definition delete_groups :: "uuid \<Rightarrow> catalog_db \<Rightarrow> catalog_db" where
  "delete_groups pid db = db\<lparr>group_rows := filter (\<lambda>g. mg_product g \<noteq> pid) (group_rows db),
     option_rows := filter (\<lambda>x. \<not> exists_where (\<lambda>g. mg_id g = mo_group x \<and> mg_product g = pid) (group_rows db)) (option_rows db)\<rparr>"

definition new_product :: "time \<Rightarrow> uuid \<Rightarrow> uuid \<Rightarrow> product_input \<Rightarrow> product" where
  "new_product dnow newID i inp =
     \<lparr>pr_id = newID, pr_merchant = i, pr_category = piCategory inp, pr_name = piName inp,
      pr_description = nullable (piDescription inp), pr_price = piPrice inp, pr_currency = ''EUR'', pr_image = piImage inp,
      pr_available = coalesce (piAvailable inp) True, pr_unit = piUnit inp, pr_tags = piTags inp, pr_sort = piSort inp,
      pr_deleted = None, pr_updated = dnow\<rparr>"

definition update_product :: "time \<Rightarrow> product_input \<Rightarrow> product \<Rightarrow> product" where
  "update_product dnow inp p = p\<lparr>pr_category := piCategory inp, pr_name := piName inp,
     pr_description := nullable (piDescription inp), pr_price := piPrice inp, pr_image := coalesce_opt (piImage inp) (pr_image p),
     pr_available := coalesce (piAvailable inp) True, pr_unit := piUnit inp, pr_tags := piTags inp, pr_sort := piSort inp,
     pr_updated := dnow\<rparr>"

definition live_product :: "uuid \<Rightarrow> uuid \<Rightarrow> product \<Rightarrow> bool" where
  "live_product i pid p \<longleftrightarrow> pr_id p = pid \<and> pr_merchant p = i \<and> pr_deleted p = None"

definition upsert_product_row :: "time \<Rightarrow> uuid \<Rightarrow> uuid \<Rightarrow> uuid option \<Rightarrow> product_input \<Rightarrow> (catalog_db, err, product) op" where
  "upsert_product_row dnow newID i pid inp db =
     (if \<not> in32 (piSort inp) then (Inl PgRange, db)
      else case pid of
        None \<Rightarrow>
          if exists_where (\<lambda>p. pr_id p = newID) (products db) then (Inl PgUnique, db)
          else let p = new_product dnow newID i inp in (Inr p, db\<lparr>products := products db @ [p]\<rparr>)
      | Some k \<Rightarrow>
          (case find (live_product i k) (products db) of
             None \<Rightarrow> (Inl ErrNotFound, db)
           | Some p \<Rightarrow>
               let p' = update_product dnow inp p
               in (Inr p', db\<lparr>products := upd_where (live_product i k) (\<lambda>_. p') (products db)\<rparr>)))"

definition upsert_product_tx ::
  "time \<Rightarrow> uuid \<Rightarrow> (nat \<Rightarrow> uuid) \<Rightarrow> (nat \<Rightarrow> nat \<Rightarrow> uuid) \<Rightarrow> uuid \<Rightarrow> uuid option \<Rightarrow> product_input \<Rightarrow> (catalog_db, err, product) op" where
  "upsert_product_tx dnow newID gid oid i pid inp db =
     (case upsert_product_row dnow newID i pid inp db of
        (Inl e, db1) \<Rightarrow> (Inl e, db1)
      | (Inr p, db1) \<Rightarrow>
          (case piModifiers inp of
             None \<Rightarrow> (Inr p, db1)
           | Some gs \<Rightarrow>
               (case insert_groups gid oid (pr_id p) 0 gs (delete_groups (pr_id p) db1) of
                  (Inl e, db2) \<Rightarrow> (Inl e, db2)
                | (Inr _, db2) \<Rightarrow> (Inr p, db2))))"

definition UpsertProduct ::
  "merchants_db \<Rightarrow> time \<Rightarrow> uuid \<Rightarrow> (nat \<Rightarrow> uuid) \<Rightarrow> (nat \<Rightarrow> nat \<Rightarrow> uuid) \<Rightarrow> uuid \<Rightarrow> uuid \<Rightarrow> uuid option \<Rightarrow> product_input \<Rightarrow>
    (catalog_db, err, product_view) op" where
  "UpsertProduct mdb dnow newID gid oid user i pid inp0 db =
     (case requireStaff user i mdb of
        Some e \<Rightarrow> (Inl e, db)
      | None \<Rightarrow>
          let (inp, f) = validateProduct inp0
          in if f \<noteq> [] then (Inl (ErrValidation f), db)
             else if (case piCategory inp of None \<Rightarrow> False
                      | Some k \<Rightarrow> \<not> exists_where (\<lambda>c. ca_id c = k \<and> ca_merchant c = i) (cat_rows db))
             then (Inl (ErrValidation [(''category_id'', ''invalid'')]), db)
             else (case begin_func (upsert_product_tx dnow newID gid oid i pid inp) db of
                     (Inl e, db1) \<Rightarrow> (Inl e, db1)
                   | (Inr p, db1) \<Rightarrow> (Inr (p, groups_of db1 (pr_id p)), invalidate i db1)))"

definition SetAvailability :: "merchants_db \<Rightarrow> time \<Rightarrow> uuid \<Rightarrow> uuid \<Rightarrow> uuid \<Rightarrow> bool \<Rightarrow> (catalog_db, err, unit) op" where
  "SetAvailability mdb dnow user i pid available db =
     (case requireStaff user i mdb of
        Some e \<Rightarrow> (Inl e, db)
      | None \<Rightarrow>
          if \<not> exists_where (live_product i pid) (products db) then (Inl ErrNotFound, db)
          else (Inr (), invalidate i (db\<lparr>products :=
                 upd_where (live_product i pid) (\<lambda>p. p\<lparr>pr_available := available, pr_updated := dnow\<rparr>) (products db)\<rparr>)))"

definition DeleteProduct :: "merchants_db \<Rightarrow> time \<Rightarrow> uuid \<Rightarrow> uuid \<Rightarrow> uuid \<Rightarrow> (catalog_db, err, unit) op" where
  "DeleteProduct mdb dnow user i pid db =
     (case requireStaff user i mdb of
        Some e \<Rightarrow> (Inl e, db)
      | None \<Rightarrow>
          if \<not> exists_where (live_product i pid) (products db) then (Inl ErrNotFound, db)
          else (Inr (), invalidate i (db\<lparr>products :=
                 upd_where (live_product i pid)
                   (\<lambda>p. p\<lparr>pr_deleted := Some dnow, pr_available := False, pr_updated := dnow\<rparr>) (products db)\<rparr>)))"

section \<open>The menu\<close>

definition menu_categories :: "(string \<Rightarrow> int) \<Rightarrow> uuid \<Rightarrow> bool \<Rightarrow> catalog_db \<Rightarrow> cat_row list" where
  "menu_categories byname i all db = sort_key ca_sort (sort_key (byname \<circ> ca_name)
     (filter (\<lambda>c. ca_merchant c = i \<and> (ca_active c \<or> all)) (cat_rows db)))"

definition menu_products :: "(string \<Rightarrow> int) \<Rightarrow> (uuid option \<Rightarrow> int) \<Rightarrow> uuid \<Rightarrow> bool \<Rightarrow> catalog_db \<Rightarrow> product_view list" where
  "menu_products byname byid i all db = map (\<lambda>p. (p, groups_of db (pr_id p)))
     (sort_key (byid \<circ> pr_category) (sort_key pr_sort (sort_key (byname \<circ> pr_name)
       (filter (\<lambda>p. pr_merchant p = i \<and> pr_deleted p = None \<and> (pr_available p \<or> all)) (products db)))))"

definition build_menu :: "(string \<Rightarrow> int) \<Rightarrow> (uuid option \<Rightarrow> int) \<Rightarrow> time \<Rightarrow> uuid \<Rightarrow> bool \<Rightarrow> catalog_db \<Rightarrow> menu" where
  "build_menu byname byid gnow i all db =
     \<lparr>mn_merchant = i, mn_categories = menu_categories byname i all db,
      mn_products = menu_products byname byid i all db, mn_generated = gnow\<rparr>"

definition Menu :: "(string \<Rightarrow> int) \<Rightarrow> (uuid option \<Rightarrow> int) \<Rightarrow> time \<Rightarrow> uuid \<Rightarrow> bool \<Rightarrow> catalog_db \<Rightarrow> menu \<times> catalog_db" where
  "Menu byname byid gnow i all db =
     (case (if all then None else cache db i) of
        Some (m, t) \<Rightarrow>
          if gnow - t < MenuCacheTTL then (m, db)
          else let m = build_menu byname byid gnow i all db in (m, db\<lparr>cache := (cache db)(i \<mapsto> (m, gnow))\<rparr>)
      | None \<Rightarrow>
          let m = build_menu byname byid gnow i all db
          in (m, if all then db else db\<lparr>cache := (cache db)(i \<mapsto> (m, gnow))\<rparr>))"

section \<open>Product images\<close>

text \<open>
  \<open>Confirm\<close> and \<open>Remove\<close> of \<open>modules/media\<close> for images of products: the check of \<open>owner\<close>, then the new key
  in the row, and the menu of the merchant is dropped from the cache. \<open>pid\<close> is the product that the object
  key names, \<open>stored\<close> the error when the object is missing in the store or is not what was announced.
\<close>

definition image_owner :: "merchants_db \<Rightarrow> uuid \<Rightarrow> uuid \<Rightarrow> catalog_db \<Rightarrow> err + uuid" where
  "image_owner mdb user pid db =
     (case find (\<lambda>p. pr_id p = pid \<and> pr_deleted p = None) (products db) of
        None \<Rightarrow> Inl ErrNotFound
      | Some p \<Rightarrow> (case Membership user (pr_merchant p) mdb of Inl e \<Rightarrow> Inl e | Inr _ \<Rightarrow> Inr (pr_merchant p)))"

definition set_image :: "time \<Rightarrow> uuid \<Rightarrow> uuid \<Rightarrow> string option \<Rightarrow> catalog_db \<Rightarrow> catalog_db" where
  "set_image dnow i pid key db = invalidate i (db\<lparr>products :=
     upd_where (\<lambda>p. pr_id p = pid \<and> pr_deleted p = None) (\<lambda>p. p\<lparr>pr_image := key, pr_updated := dnow\<rparr>) (products db)\<rparr>)"

definition ConfirmImage :: "merchants_db \<Rightarrow> time \<Rightarrow> uuid \<Rightarrow> uuid \<Rightarrow> err option \<Rightarrow> string \<Rightarrow> (catalog_db, err, unit) op" where
  "ConfirmImage mdb dnow user pid stored key db =
     (case image_owner mdb user pid db of
        Inl e \<Rightarrow> (Inl e, db)
      | Inr i \<Rightarrow> (case stored of Some e \<Rightarrow> (Inl e, db) | None \<Rightarrow> (Inr (), set_image dnow i pid (Some key) db)))"

definition RemoveImage :: "merchants_db \<Rightarrow> time \<Rightarrow> uuid \<Rightarrow> uuid option \<Rightarrow> (catalog_db, err, unit) op" where
  "RemoveImage mdb dnow user target db =
     (case target of
        None \<Rightarrow> (Inl (ErrValidation [(''target_id'', ''required'')]), db)
      | Some pid \<Rightarrow> (case image_owner mdb user pid db of
                      Inl e \<Rightarrow> (Inl e, db) | Inr i \<Rightarrow> (Inr (), set_image dnow i pid None db)))"

section \<open>Pricing a selection\<close>

record selection =
  slProduct :: uuid
  slOptions :: "uuid list"
  slQuantity :: int

record priced_line =
  plProduct :: uuid
  plName :: string
  plOptions :: "string list"
  plOptionIDs :: "uuid list"
  plUnit :: int
  plQuantity :: int
  plTotal :: int
  plCurrency :: string

text \<open>The inner loop over the options of a group: the number chosen and the line so far.\<close>

fun pick_options :: "uuid list \<Rightarrow> string \<Rightarrow> option_row list \<Rightarrow> nat \<times> priced_line \<Rightarrow> err + nat \<times> priced_line" where
  "pick_options chosen gname [] (n, line) = Inr (n, line)"
| "pick_options chosen gname (x # xs) (n, line) =
     (if mo_id x \<in> set chosen
      then if \<not> mo_available x then Inl ErrUnavailable
           else pick_options chosen gname xs (n + 1, line\<lparr>plUnit := add64 (plUnit line) (mo_delta x),
                  plOptions := plOptions line @ [gname @ '': '' @ mo_name x], plOptionIDs := plOptionIDs line @ [mo_id x]\<rparr>)
      else pick_options chosen gname xs (n, line))"

fun pick_groups :: "uuid list \<Rightarrow> (group_row \<times> option_row list) list \<Rightarrow> nat \<times> priced_line \<Rightarrow> err + nat \<times> priced_line" where
  "pick_groups chosen [] (matched, line) = Inr (matched, line)"
| "pick_groups chosen ((g, xs) # gs) (matched, line) =
     (case pick_options chosen (mg_name g) xs (0, line) of
        Inl e \<Rightarrow> Inl e
      | Inr (n, line') \<Rightarrow>
          if int n < mg_min g \<or> int n > mg_max g then Inl ErrModifiers
          else pick_groups chosen gs (matched + n, line'))"

definition Price :: "uuid \<Rightarrow> selection \<Rightarrow> catalog_db \<Rightarrow> err + priced_line" where
  "Price i sel db =
     (if slQuantity sel < 1 \<or> slQuantity sel > 50 then Inl (ErrValidation [(''quantity'', ''invalid'')])
      else case find (\<lambda>p. pr_id p = slProduct sel \<and> pr_deleted p = None) (products db) of
        None \<Rightarrow> Inl ErrNotFound
      | Some p \<Rightarrow>
          if pr_merchant p \<noteq> i then Inl ErrWrongMerchant
          else if \<not> pr_available p then Inl ErrUnavailable
          else (case pick_groups (slOptions sel) (groups_of db (pr_id p))
                  (0, \<lparr>plProduct = pr_id p, plName = pr_name p, plOptions = [], plOptionIDs = [], plUnit = pr_price p,
                       plQuantity = slQuantity sel, plTotal = 0, plCurrency = TrimSpace (pr_currency p)\<rparr>) of
                  Inl e \<Rightarrow> Inl e
                | Inr (matched, line) \<Rightarrow>
                    if matched \<noteq> length (remdups (slOptions sel)) then Inl ErrModifiers
                    else let unit = (if plUnit line < 0 then 0 else plUnit line)
                         in Inr (line\<lparr>plUnit := unit, plTotal := mul64 unit (slQuantity sel)\<rparr>)))"

section \<open>Discovery\<close>

record discover_filter =
  dfAt :: "point option"
  dfType :: string
  dfQuery :: string
  dfCuisine :: string
  dfLimit :: int
  dfUser :: uuid

text \<open>\<open>like name q\<close>: whether \<open>q\<close> occurs in \<open>name\<close> without regard to accents and case (PostgreSQL).\<close>

definition discovered :: "(string \<Rightarrow> string \<Rightarrow> bool) \<Rightarrow> discover_filter \<Rightarrow> catalog_db \<Rightarrow> merchant \<Rightarrow> bool" where
  "discovered like f db m \<longleftrightarrow> me_status m = MActive \<and> (dfType f = [] \<or> me_type m = dfType f) \<and>
     (dfCuisine f = [] \<or> map to_lower (dfCuisine f) \<in> set (me_cuisines m)) \<and>
     (let q = TrimSpace (dfQuery f) in q = [] \<or> like (me_name m) q \<or>
        exists_where (\<lambda>p. pr_merchant p = me_id m \<and> pr_deleted p = None \<and> pr_available p \<and> like (pr_name p) q) (products db))"

text \<open>\<open>ORDER BY dist NULLS LAST, rating_count DESC, name\<close>, by stable sorts from the last key on.\<close>

definition search_distance :: "point option \<Rightarrow> merchant \<Rightarrow> real option" where
  "search_distance loc m = (case loc of None \<Rightarrow> None | Some p \<Rightarrow> if Valid p then Some (Haversine p (me_location m)) else None)"

definition Discover ::
  "(string \<Rightarrow> string \<Rightarrow> bool) \<Rightarrow> (string \<Rightarrow> int) \<Rightarrow> time \<Rightarrow> time \<Rightarrow> discover_filter \<Rightarrow> catalog_db \<Rightarrow> merchants_db \<Rightarrow>
    (merchant_view \<times> int option \<times> bool) list" where
  "Discover like byname tz gnow f db mdb =
     (let limit = (if dfLimit f \<le> 0 \<or> dfLimit f > 100 then 30 else dfLimit f);
          rows = take (nat limit) (sort_key (\<lambda>m. case search_distance (dfAt f) m of None \<Rightarrow> 0 | Some d \<Rightarrow> d)
            (sort_key (\<lambda>m. - me_rating_count m) (sort_key (byname \<circ> me_name) (filter (discovered like f db) (merchants mdb)))));
          near = filter (\<lambda>m. case distance_to (dfAt f) m of None \<Rightarrow> True | Some d \<Rightarrow> d \<le> 15000) rows;
          fav = favouriteIDs (dfUser f) (map me_id near) mdb
      in map (\<lambda>m. (view_of tz gnow mdb (m\<lparr>me_phone := None\<rparr>), distance_to (dfAt f) m, me_id m \<in> set fav)) near)"

section \<open>The price of a selection\<close>

definition chosen_options :: "uuid list \<Rightarrow> (group_row \<times> option_row list) list \<Rightarrow> option_row list" where
  "chosen_options chosen gs = concat (map (\<lambda>(g, xs). filter (\<lambda>x. mo_id x \<in> set chosen) xs) gs)"

definition group_respected :: "uuid list \<Rightarrow> group_row \<Rightarrow> option_row list \<Rightarrow> bool" where
  "group_respected chosen g xs \<longleftrightarrow>
     (let c = filter (\<lambda>x. mo_id x \<in> set chosen) xs
      in list_all mo_available c \<and> mg_min g \<le> int (length c) \<and> int (length c) \<le> mg_max g)"

lemma pick_options_spec:
  "pick_options chosen gn xs (n, line) =
     (let c = filter (\<lambda>x. mo_id x \<in> set chosen) xs
      in if list_all mo_available c
         then Inr (n + length c, line\<lparr>plUnit := foldl add64 (plUnit line) (map mo_delta c),
                plOptions := plOptions line @ map (\<lambda>x. gn @ '': '' @ mo_name x) c, plOptionIDs := plOptionIDs line @ map mo_id c\<rparr>)
         else Inl ErrUnavailable)"
  by (induction xs arbitrary: n line) (simp_all add: Let_def)

lemma pick_groups_Inr:
  "pick_groups chosen gs (n, line) = Inr (n', line') \<Longrightarrow>
     (\<forall>(g, xs) \<in> set gs. group_respected chosen g xs) \<and> n' = n + length (chosen_options chosen gs) \<and>
     plUnit line' = foldl add64 (plUnit line) (map mo_delta (chosen_options chosen gs)) \<and>
     plOptionIDs line' = plOptionIDs line @ map mo_id (chosen_options chosen gs) \<and>
     plProduct line' = plProduct line \<and> plQuantity line' = plQuantity line"
proof (induction gs arbitrary: n line)
  case Nil
  then show ?case by (simp add: chosen_options_def)
next
  case (Cons gx gs)
  obtain g xs where gx: "gx = (g, xs)" by (cases gx)
  define c where "c = filter (\<lambda>x. mo_id x \<in> set chosen) xs"
  have av: "list_all mo_available c"
    using Cons.prems by (auto simp: gx pick_options_spec c_def [symmetric] Let_def split: if_splits)
  let ?line = "line\<lparr>plUnit := foldl add64 (plUnit line) (map mo_delta c),
      plOptions := plOptions line @ map (\<lambda>x. mg_name g @ '': '' @ mo_name x) c, plOptionIDs := plOptionIDs line @ map mo_id c\<rparr>"
  have ok: "mg_min g \<le> int (length c)" "int (length c) \<le> mg_max g"
    and rest: "pick_groups chosen gs (n + length c, ?line) = Inr (n', line')"
    using Cons.prems av by (auto simp: gx pick_options_spec c_def [symmetric] Let_def split: if_splits)
  have "group_respected chosen g xs" using av ok by (simp add: group_respected_def c_def [symmetric])
  moreover have "chosen_options chosen (gx # gs) = c @ chosen_options chosen gs" by (simp add: gx chosen_options_def c_def)
  ultimately show ?case using Cons.IH[OF rest] by (simp add: gx)
qed

lemma pick_groups_ok:
  "\<forall>(g, xs) \<in> set gs. group_respected chosen g xs \<Longrightarrow> \<exists>line'. pick_groups chosen gs (n, line) = Inr (n + length (chosen_options chosen gs), line')"
proof (induction gs arbitrary: n line)
  case (Cons gx gs)
  obtain g xs where gx: "gx = (g, xs)" by (cases gx)
  define c where "c = filter (\<lambda>x. mo_id x \<in> set chosen) xs"
  have "group_respected chosen g xs" using Cons.prems gx by auto
  then have ok: "list_all mo_available c" "\<not> int (length c) < mg_min g" "\<not> int (length c) > mg_max g"
    by (simp_all add: group_respected_def c_def [symmetric])
  have "chosen_options chosen (gx # gs) = c @ chosen_options chosen gs" by (simp add: gx chosen_options_def c_def)
  then show ?case
    using Cons.IH[of "n + length c"] Cons.prems ok by (simp add: gx pick_options_spec c_def [symmetric] Let_def add.assoc)
qed (simp add: chosen_options_def)

text \<open>A sum of bounded terms does not wrap around.\<close>

lemma foldl_add64:
  assumes "\<forall>d \<in> set ds. \<bar>d\<bar> \<le> B" "\<bar>a\<bar> + B * int (length ds) < 2 ^ 63" "0 \<le> B"
  shows "foldl add64 a ds = a + sum_list ds"
  using assms(1,2)
proof (induction ds arbitrary: a)
  case (Cons d ds)
  have d: "\<bar>d\<bar> \<le> B" using Cons.prems(1) by simp
  have e: "B * int (length (d # ds)) = B + B * int (length ds)" by (simp add: algebra_simps)
  have b: "\<bar>a + d\<bar> + B * int (length ds) < 2 ^ 63" using Cons.prems(2) d e by linarith
  moreover have "0 \<le> B * int (length ds)" using assms(3) by simp
  ultimately have "\<bar>a + d\<bar> < 2 ^ 63" by linarith
  then have "in64 (a + d)" by (simp add: in64_def abs_less_iff)
  then have "add64 a d = a + d" by (simp add: add64_id)
  then show ?case using Cons.IH[of "a + d"] b Cons.prems(1) by simp
qed simp

lemma sum_list_bound:
  assumes "\<forall>d \<in> set ds. \<bar>d\<bar> \<le> (B :: int)"
  shows "\<bar>sum_list ds\<bar> \<le> B * int (length ds)"
  using assms
proof (induction ds)
  case (Cons d ds)
  have "B * int (length (d # ds)) = B + B * int (length ds)" by (simp add: algebra_simps)
  moreover have "\<bar>d\<bar> \<le> B" "\<bar>sum_list ds\<bar> \<le> B * int (length ds)" using Cons by simp_all
  ultimately show ?case by (simp only: sum_list.Cons)
qed simp

definition catalog_inv :: "catalog_db \<Rightarrow> bool" where
  "catalog_inv db \<longleftrightarrow> distinct (map ca_id (cat_rows db)) \<and> distinct (map pr_id (products db)) \<and>
     distinct (map mg_id (group_rows db)) \<and> distinct (map mo_id (option_rows db)) \<and>
     (\<forall>p \<in> set (products db). 0 \<le> pr_price p \<and> pr_price p \<le> 100000000 \<and>
        (\<forall>k. pr_category p = Some k \<longrightarrow> (\<exists>c \<in> set (cat_rows db). ca_id c = k \<and> ca_merchant c = pr_merchant p))) \<and>
     (\<forall>x \<in> set (option_rows db). \<bar>mo_delta x\<bar> \<le> 100000)"

lemma catalog_invD:
  assumes "catalog_inv db"
  shows "distinct (map ca_id (cat_rows db))" "distinct (map pr_id (products db))" "distinct (map mg_id (group_rows db))"
    "distinct (map mo_id (option_rows db))" "p \<in> set (products db) \<Longrightarrow> 0 \<le> pr_price p \<and> pr_price p \<le> 100000000"
    "p \<in> set (products db) \<Longrightarrow> pr_category p = Some k \<Longrightarrow> \<exists>c \<in> set (cat_rows db). ca_id c = k \<and> ca_merchant c = pr_merchant p"
    "x \<in> set (option_rows db) \<Longrightarrow> \<bar>mo_delta x\<bar> \<le> 100000"
  using assms by (auto simp: catalog_inv_def)

lemma distinct_grouped:
  assumes "distinct (map mo_id opts)" "distinct (map mg_id gs)"
  shows "distinct (map mo_id (concat (map (\<lambda>g. sort_key mo_sort (filter (\<lambda>x. mo_group x = mg_id g) opts)) gs)))"
  using assms(2)
proof (induction gs)
  case (Cons g gs)
  let ?own = "filter (\<lambda>x. mo_group x = mg_id g) opts"
  let ?rest = "concat (map (\<lambda>g. sort_key mo_sort (filter (\<lambda>x. mo_group x = mg_id g) opts)) gs)"
  have "distinct (map mo_id (sort_key mo_sort ?own))"
    using assms(1) by (simp add: distinct_map distinct_filter inj_on_def)
  moreover have "set (map mo_id (sort_key mo_sort ?own)) \<inter> set (map mo_id ?rest) = {}"
  proof (rule ccontr)
    assume "\<not> ?thesis"
    then obtain x y where "x \<in> set opts" "mo_group x = mg_id g" "y \<in> set opts" "mo_group y \<in> mg_id ` set gs" "mo_id x = mo_id y"
      by auto
    moreover from this have "x = y" using assms(1) by (auto intro: distinct_keyD)
    ultimately show False using Cons.prems by auto
  qed
  ultimately show ?case using Cons by simp
qed simp

lemma options_of_product:
  assumes "catalog_inv db"
  shows "distinct (map mo_id (concat (map snd (groups_of db pid))))" "set (concat (map snd (groups_of db pid))) \<subseteq> set (option_rows db)"
proof -
  have xs: "concat (map snd (groups_of db pid)) = concat (map (\<lambda>g. sort_key mo_sort (filter (\<lambda>x. mo_group x = mg_id g) (option_rows db)))
     (sort_key mg_sort (filter (\<lambda>g. mg_product g = pid) (group_rows db))))"
    by (simp add: groups_of_def comp_def)
  have "distinct (map mg_id (sort_key mg_sort (filter (\<lambda>g. mg_product g = pid) (group_rows db))))"
    using catalog_invD(3)[OF assms(1)] by (simp add: distinct_map distinct_filter inj_on_def)
  then show "distinct (map mo_id (concat (map snd (groups_of db pid))))" unfolding xs by (rule distinct_grouped[OF catalog_invD(4)[OF assms(1)]])
  show "set (concat (map snd (groups_of db pid))) \<subseteq> set (option_rows db)" unfolding xs by auto
qed

lemma chosen_options_filter: "chosen_options chosen gs = filter (\<lambda>x. mo_id x \<in> set chosen) (concat (map snd gs))"
  by (induction gs) (auto simp: chosen_options_def)

lemma chosen_all_iff:
  assumes "distinct (map mo_id xs)"
  shows "length (filter (\<lambda>x. mo_id x \<in> set chosen) xs) = length (remdups chosen) \<longleftrightarrow> set chosen \<subseteq> mo_id ` set xs"
proof -
  let ?c = "filter (\<lambda>x. mo_id x \<in> set chosen) xs"
  have d: "distinct (map mo_id ?c)" using assms by (rule distinct_map_filter)
  have l: "length ?c = card (mo_id ` set ?c)" using distinct_card[OF d] by simp
  have r: "length (remdups chosen) = card (set chosen)" by (simp add: length_remdups_card_conv)
  have sub: "mo_id ` set ?c \<subseteq> set chosen" by auto
  have "card (mo_id ` set ?c) = card (set chosen) \<longleftrightarrow> mo_id ` set ?c = set chosen"
    using card_subset_eq[OF _ sub] by auto
  also have "\<dots> \<longleftrightarrow> set chosen \<subseteq> mo_id ` set xs" by auto
  finally show ?thesis using l r by simp
qed

definition selection_ok :: "uuid \<Rightarrow> selection \<Rightarrow> catalog_db \<Rightarrow> bool" where
  "selection_ok i sel db \<longleftrightarrow> 1 \<le> slQuantity sel \<and> slQuantity sel \<le> 50 \<and>
     (\<exists>p \<in> set (products db). live_product i (slProduct sel) p \<and> pr_available p) \<and>
     set (slOptions sel) \<subseteq> mo_id ` set (concat (map snd (groups_of db (slProduct sel)))) \<and>
     (\<forall>(g, xs) \<in> set (groups_of db (slProduct sel)). group_respected (slOptions sel) g xs)"

lemma Price_product:
  assumes "catalog_inv db"
  shows "(case find (\<lambda>p. pr_id p = k \<and> pr_deleted p = None) (products db) of
            None \<Rightarrow> False | Some p \<Rightarrow> pr_merchant p = i \<and> pr_available p) \<longleftrightarrow>
         (\<exists>p \<in> set (products db). live_product i k p \<and> pr_available p)"
proof (cases "find (\<lambda>p. pr_id p = k \<and> pr_deleted p = None) (products db)")
  case None
  then have "\<not> (\<exists>p \<in> set (products db). live_product i k p \<and> pr_available p)"
    unfolding find_None_iff live_product_def by blast
  then show ?thesis by (simp add: None)
next
  case (Some p)
  then have p: "p \<in> set (products db)" "pr_id p = k" "pr_deleted p = None" using find_SomeD[OF Some] by auto
  have "q = p" if "q \<in> set (products db)" "pr_id q = k" for q
    using catalog_invD(2)[OF assms] p that by (auto intro: distinct_keyD)
  then have "(\<exists>p \<in> set (products db). live_product i k p \<and> pr_available p) \<longleftrightarrow> pr_merchant p = i \<and> pr_available p"
    using p unfolding live_product_def by blast
  then show ?thesis by (simp add: Some)
qed

text \<open>What a priced line says, and when there is one.\<close>

lemma Price_Inr:
  assumes "catalog_inv db" "length (slOptions sel) \<le> 1000000" and pr: "Price i sel db = Inr line"
  shows "selection_ok i sel db \<and> plOptionIDs line = map mo_id (chosen_options (slOptions sel) (groups_of db (slProduct sel))) \<and>
      set (plOptionIDs line) = set (slOptions sel) \<and>
      (\<forall>p \<in> set (products db). pr_id p = slProduct sel \<longrightarrow>
         plUnit line = max 0 (pr_price p + sum_list (map mo_delta (chosen_options (slOptions sel) (groups_of db (slProduct sel))))) \<and>
         plTotal line = plUnit line * slQuantity sel) \<and>
      plQuantity line = slQuantity sel \<and> 0 \<le> plTotal line \<and> plTotal line \<le> 5005000000000"
proof -
  let ?gs = "groups_of db (slProduct sel)"
  let ?c = "chosen_options (slOptions sel) ?gs"
  note O = options_of_product[OF assms(1), of "slProduct sel"]
  have c: "?c = filter (\<lambda>x. mo_id x \<in> set (slOptions sel)) (concat (map snd ?gs))" by (rule chosen_options_filter)
  note A = chosen_all_iff[OF O(1), of "slOptions sel", folded c]
  let ?start = "\<lambda>p. \<lparr>plProduct = pr_id p, plName = pr_name p, plOptions = [], plOptionIDs = [], plUnit = pr_price p,
                       plQuantity = slQuantity sel, plTotal = 0, plCurrency = TrimSpace (pr_currency p)\<rparr>"
  have q: "1 \<le> slQuantity sel" "slQuantity sel \<le> 50" using pr by (auto simp: Price_def split: if_splits)
  obtain p where f: "find (\<lambda>p. pr_id p = slProduct sel \<and> pr_deleted p = None) (products db) = Some p"
    using pr q by (cases "find (\<lambda>p. pr_id p = slProduct sel \<and> pr_deleted p = None) (products db)") (auto simp: Price_def)
  have p: "p \<in> set (products db)" "pr_id p = slProduct sel" using find_SomeD[OF f] by auto
  have mine: "pr_merchant p = i" "pr_available p" using pr q f by (auto simp: Price_def split: if_splits)
  obtain m line0 where g: "pick_groups (slOptions sel) ?gs (0, ?start p) = Inr (m, line0)"
    using pr q f mine p by (cases "pick_groups (slOptions sel) ?gs (0, ?start p)") (auto simp: Price_def)
  note G = pick_groups_Inr[OF g]
  have m: "m = length (remdups (slOptions sel))" and
    l: "line = line0\<lparr>plUnit := (if plUnit line0 < 0 then 0 else plUnit line0),
       plTotal := mul64 (if plUnit line0 < 0 then 0 else plUnit line0) (slQuantity sel)\<rparr>"
    using pr q f mine p g by (auto simp: Price_def Let_def split: if_splits)
  have all: "set (slOptions sel) \<subseteq> mo_id ` set (concat (map snd ?gs))" using A G m by simp
  have gen: "f ` {x \<in> S. f x \<in> C} = C" if "C \<subseteq> f ` S" for f :: "option_row \<Rightarrow> uuid" and S C using that by blast
  have ids: "mo_id ` set ?c = set (slOptions sel)" unfolding c set_filter by (rule gen[OF all])
  have len: "int (length ?c) \<le> 1000000"
    using G m assms(2) length_remdups_leq[of "slOptions sel"] by simp
  have pb: "0 \<le> pr_price p" "pr_price p \<le> 100000000" using catalog_invD(5)[OF assms(1) p(1)] by auto
  have db: "\<forall>d \<in> set (map mo_delta ?c). \<bar>d\<bar> \<le> 100000"
    using O(2) catalog_invD(7)[OF assms(1)] unfolding c by fastforce
  have u: "plUnit line0 = pr_price p + sum_list (map mo_delta ?c)"
    using G foldl_add64[OF db, of "pr_price p"] pb len by simp
  have sum: "\<bar>sum_list (map mo_delta ?c)\<bar> \<le> 100000 * int (length ?c)"
    using sum_list_bound[OF db] by simp
  have unit: "0 \<le> plUnit line" "plUnit line \<le> 100100000000" using l u sum pb len by auto
  have "in64 (plUnit line * slQuantity sel)"
  proof -
    have "plUnit line * slQuantity sel \<le> 100100000000 * 50" using unit q by (intro mult_mono) auto
    moreover have "0 \<le> plUnit line * slQuantity sel" using unit q by simp
    ultimately show ?thesis by (simp add: in64_def)
  qed
  then have tot: "plTotal line = plUnit line * slQuantity sel" using l by (simp add: mul64_id)
  have "selection_ok i sel db"
    using q p mine all G f[THEN find_SomeD(1)] by (auto simp: selection_ok_def live_product_def)
  moreover have "p' = p" if "p' \<in> set (products db)" "pr_id p' = slProduct sel" for p'
    using catalog_invD(2)[OF assms(1)] p that by (auto intro: distinct_keyD)
  moreover have "0 \<le> plTotal line" "plTotal line \<le> 5005000000000"
    using tot unit q mult_mono[of "plUnit line" 100100000000 "slQuantity sel" 50] by auto
  ultimately show ?thesis using G l u tot ids unfolding c[symmetric] by auto
qed

lemma Price_succeeds:
  assumes "catalog_inv db" and ok: "selection_ok i sel db"
  shows "\<exists>line. Price i sel db = Inr line"
proof -
  let ?gs = "groups_of db (slProduct sel)"
  let ?c = "chosen_options (slOptions sel) ?gs"
  note O = options_of_product[OF assms(1), of "slProduct sel"]
  have c: "?c = filter (\<lambda>x. mo_id x \<in> set (slOptions sel)) (concat (map snd ?gs))" by (rule chosen_options_filter)
  note A = chosen_all_iff[OF O(1), of "slOptions sel", folded c]
  note P = Price_product[OF assms(1), where k = "slProduct sel" and i = i]
  let ?start = "\<lambda>p. \<lparr>plProduct = pr_id p, plName = pr_name p, plOptions = [], plOptionIDs = [], plUnit = pr_price p,
                       plQuantity = slQuantity sel, plTotal = 0, plCurrency = TrimSpace (pr_currency p)\<rparr>"
  have q: "1 \<le> slQuantity sel" "slQuantity sel \<le> 50" and P': "\<exists>p \<in> set (products db). live_product i (slProduct sel) p \<and> pr_available p"
    and all: "set (slOptions sel) \<subseteq> mo_id ` set (concat (map snd ?gs))"
    and R: "\<forall>(g, xs) \<in> set ?gs. group_respected (slOptions sel) g xs" using ok unfolding selection_ok_def by blast+
  obtain p where f: "find (\<lambda>p. pr_id p = slProduct sel \<and> pr_deleted p = None) (products db) = Some p" "pr_merchant p = i" "pr_available p"
    using P P' by (cases "find (\<lambda>p. pr_id p = slProduct sel \<and> pr_deleted p = None) (products db)") auto
  have p: "pr_id p = slProduct sel" using find_SomeD[OF f(1)] by auto
  obtain line' where "pick_groups (slOptions sel) ?gs (0, ?start p) = Inr (0 + length ?c, line')"
    using pick_groups_ok[OF R] by blast
  then show ?thesis using q f p A all by (simp add: Price_def Let_def)
qed

text \<open>
  C36. The price of a selection. A selection is priced exactly when its quantity is between 1 and 50,
  the product is an available product of that merchant, every option chosen belongs to the product and
  is available, and every group gets between its minimum and maximum of options; naming an option twice
  makes no difference. The unit price is then the price of the product plus the surcharges of the
  chosen options, never below zero, and the total is the unit price times the quantity.
\<close>
theorem Price_iff:
  assumes "catalog_inv db" "length (slOptions sel) \<le> 1000000"
  shows "((\<exists>line. Price i sel db = Inr line) \<longleftrightarrow> selection_ok i sel db) \<and>
    (\<forall>line p. Price i sel db = Inr line \<and> p \<in> set (products db) \<and> pr_id p = slProduct sel \<longrightarrow>
       (let chosen = filter (\<lambda>x. mo_id x \<in> set (slOptions sel)) (concat (map snd (groups_of db (slProduct sel))))
        in plOptionIDs line = map mo_id chosen \<and> set (plOptionIDs line) = set (slOptions sel) \<and>
           plUnit line = max 0 (pr_price p + sum_list (map mo_delta chosen)) \<and>
           plTotal line = plUnit line * slQuantity sel \<and> plQuantity line = slQuantity sel))"
  using Price_Inr[OF assms] Price_succeeds[OF assms(1)] unfolding Let_def chosen_options_filter[symmetric] by blast

definition demo_catalog :: catalog_db where
  "demo_catalog = \<lparr>cat_rows = [],
     products = [\<lparr>pr_id = ''p1'', pr_merchant = ''m1'', pr_category = None, pr_name = ''Pizza'', pr_description = None,
        pr_price = 450, pr_currency = ''EUR'', pr_image = None, pr_available = True, pr_unit = ''piece'', pr_tags = [],
        pr_sort = 0, pr_deleted = None, pr_updated = 0\<rparr>],
     group_rows = [\<lparr>mg_id = ''g1'', mg_product = ''p1'', mg_name = ''Size'', mg_min = 1, mg_max = 1, mg_sort = 0\<rparr>],
     option_rows = [\<lparr>mo_id = ''o1'', mo_group = ''g1'', mo_name = ''L'', mo_delta = 150, mo_available = True, mo_sort = 0\<rparr>,
                    \<lparr>mo_id = ''o2'', mo_group = ''g1'', mo_name = ''S'', mo_delta = - 50, mo_available = True, mo_sort = 1\<rparr>],
     cache = (\<lambda>_. None)\<rparr>"

definition demo_selection :: selection where
  "demo_selection = \<lparr>slProduct = ''p1'', slOptions = [''o1'', ''o1''], slQuantity = 2\<rparr>"

lemma demo_catalog_inv: "catalog_inv demo_catalog"
  by (simp add: catalog_inv_def demo_catalog_def)

theorem Price_iff_witness:
  "\<exists>line. Price ''m1'' demo_selection demo_catalog = Inr line \<and> plUnit line = 600 \<and> plTotal line = 1200"
proof -
  have gs: "groups_of demo_catalog ''p1'' = [(hd (group_rows demo_catalog), option_rows demo_catalog)]"
    by (simp add: groups_of_def demo_catalog_def)
  have ok: "selection_ok ''m1'' demo_selection demo_catalog"
    unfolding selection_ok_def demo_selection_def
    by (simp add: gs) (simp add: group_respected_def demo_catalog_def live_product_def Let_def)
  have l: "length (slOptions demo_selection) \<le> 1000000" by (simp add: demo_selection_def)
  note P = Price_iff[OF demo_catalog_inv l, where i = "''m1''"]
  obtain line where line: "Price ''m1'' demo_selection demo_catalog = Inr line" using P ok by blast
  have p: "hd (products demo_catalog) \<in> set (products demo_catalog)" "pr_id (hd (products demo_catalog)) = slProduct demo_selection"
    "pr_price (hd (products demo_catalog)) = 450"
    by (simp_all add: demo_catalog_def demo_selection_def)
  have c: "filter (\<lambda>x. mo_id x \<in> set (slOptions demo_selection)) (concat (map snd (groups_of demo_catalog (slProduct demo_selection)))) =
      [hd (option_rows demo_catalog)]"
    by (simp add: demo_selection_def gs) (simp add: demo_catalog_def)
  have d: "mo_delta (hd (option_rows demo_catalog)) = 150" by (simp add: demo_catalog_def)
  have "plUnit line = 600" "plTotal line = 1200"
    using P line p d unfolding Let_def c by (auto simp: demo_selection_def)
  then show ?thesis using line by blast
qed

section \<open>The cache of menus\<close>

text \<open>What the menu of a merchant depends on.\<close>

definition menu_same :: "uuid \<Rightarrow> catalog_db \<Rightarrow> catalog_db \<Rightarrow> bool" where
  "menu_same j db db' \<longleftrightarrow>
     filter (\<lambda>c. ca_merchant c = j) (cat_rows db') = filter (\<lambda>c. ca_merchant c = j) (cat_rows db) \<and>
     filter (\<lambda>p. pr_merchant p = j) (products db') = filter (\<lambda>p. pr_merchant p = j) (products db) \<and>
     (\<forall>p \<in> set (products db). pr_merchant p = j \<longrightarrow> groups_of db' (pr_id p) = groups_of db (pr_id p))"

lemma filter_sub: "filter P xs = filter P ys \<Longrightarrow> filter (\<lambda>x. P x \<and> Q x) xs = filter (\<lambda>x. P x \<and> Q x) ys"
  by (metis (mono_tags, lifting) filter_filter)

lemma build_menu_same:
  assumes "menu_same j db db'"
  shows "build_menu byname byid t j all db' = build_menu byname byid t j all db"
proof -
  have c: "menu_categories byname j all db' = menu_categories byname j all db"
    using assms filter_sub[of "\<lambda>c. ca_merchant c = j" "cat_rows db'" "cat_rows db" "\<lambda>c. ca_active c \<or> all"]
    by (simp add: menu_categories_def menu_same_def)
  have f: "filter (\<lambda>p. pr_merchant p = j \<and> pr_deleted p = None \<and> (pr_available p \<or> all)) (products db') =
      filter (\<lambda>p. pr_merchant p = j \<and> pr_deleted p = None \<and> (pr_available p \<or> all)) (products db)"
    using assms by (intro filter_sub) (simp add: menu_same_def)
  have "menu_products byname byid j all db' = menu_products byname byid j all db"
    unfolding menu_products_def f using assms by (intro map_cong refl) (simp add: menu_same_def)
  then show ?thesis using c by (simp add: build_menu_def)
qed

definition coherent :: "(string \<Rightarrow> int) \<Rightarrow> (uuid option \<Rightarrow> int) \<Rightarrow> catalog_db \<Rightarrow> bool" where
  "coherent byname byid db \<longleftrightarrow> (\<forall>j m t. cache db j = Some (m, t) \<longrightarrow> m = build_menu byname byid t j False db)"

text \<open>What every operation on merchant \<open>i\<close> does: it changes only that merchant's menu and drops it from the cache.\<close>

definition confined :: "uuid \<Rightarrow> catalog_db \<Rightarrow> catalog_db \<Rightarrow> bool" where
  "confined i db db' \<longleftrightarrow> db' = db \<or>
     catalog_inv db' \<and> cache db' = (cache db)(i := None) \<and> (\<forall>j. j \<noteq> i \<longrightarrow> menu_same j db db')"

lemma confined_keeps:
  assumes "confined i db db'" "catalog_inv db" "coherent byname byid db"
  shows "catalog_inv db' \<and> coherent byname byid db'"
proof (cases "db' = db")
  case False
  then have c: "catalog_inv db'" "cache db' = (cache db)(i := None)" "j \<noteq> i \<Longrightarrow> menu_same j db db'" for j
    using assms(1) by (auto simp: confined_def)
  have "m = build_menu byname byid t j False db'" if "cache db' j = Some (m, t)" for j m t
  proof -
    have "j \<noteq> i" "cache db j = Some (m, t)" using that c(2) by (auto split: if_splits)
    then show ?thesis using assms(3) build_menu_same[OF c(3)] by (simp add: coherent_def)
  qed
  then show ?thesis using c(1) by (simp add: coherent_def)
qed (use assms in simp)

lemma groups_of_cong: "group_rows db' = group_rows db \<Longrightarrow> option_rows db' = option_rows db \<Longrightarrow> groups_of db' = groups_of db"
  by (simp add: groups_of_def fun_eq_iff)

lemma filter_upd_other:
  assumes "\<And>x. x \<in> set t \<Longrightarrow> P x \<Longrightarrow> \<not> Q x \<and> \<not> Q (f x)"
  shows "filter Q (upd_where P f t) = filter Q t"
  using assms
proof (induction t)
  case (Cons x t)
  have IH: "filter Q (upd_where P f t) = filter Q t" by (rule Cons.IH) (rule Cons.prems, simp_all)
  have "P x \<Longrightarrow> \<not> Q x \<and> \<not> Q (f x)" by (rule Cons.prems) simp
  then show ?case using IH by (cases "P x") (simp_all add: upd_where_def)
qed (simp add: upd_where_def)

lemma menu_same_I:
  assumes "filter (\<lambda>c. ca_merchant c = j) (cat_rows db') = filter (\<lambda>c. ca_merchant c = j) (cat_rows db)"
    "filter (\<lambda>p. pr_merchant p = j) (products db') = filter (\<lambda>p. pr_merchant p = j) (products db)"
    "group_rows db' = group_rows db" "option_rows db' = option_rows db"
  shows "menu_same j db db'"
  using assms(1,2) groups_of_cong[OF assms(3,4)] by (simp add: menu_same_def)

lemma invalidate_simps [simp]:
  "cat_rows (invalidate i db) = cat_rows db" "products (invalidate i db) = products db"
  "group_rows (invalidate i db) = group_rows db" "option_rows (invalidate i db) = option_rows db"
  "cache (invalidate i db) = (cache db)(i := None)" "groups_of (invalidate i db) = groups_of db"
  by (simp_all add: invalidate_def groups_of_def fun_eq_iff)

lemma catalog_inv_invalidate [simp]: "catalog_inv (invalidate i db) = catalog_inv db"
  by (simp add: catalog_inv_def)

lemma confined_invalidate:
  assumes "catalog_inv db'" "cache db' = cache db" "\<And>j. j \<noteq> i \<Longrightarrow> menu_same j db db'"
  shows "confined i db (invalidate i db')"
  using assms by (simp add: confined_def menu_same_def)

lemma confined_refl [simp]: "confined i db db"
  by (simp add: confined_def)

lemma UpsertCategory_confined:
  assumes inv: "catalog_inv db"
  shows "confined i db (snd (UpsertCategory mdb newID user i cid inp db))"
proof -
  note D = catalog_invD[OF inv]
  have add: "confined i db (invalidate i (db\<lparr>cat_rows := cat_rows db @ [c]\<rparr>))"
    if "\<not> exists_where (\<lambda>c. ca_id c = newID) (cat_rows db)" "ca_id c = newID" "ca_merchant c = i" for c
    using inv that by (intro confined_invalidate menu_same_I) (auto simp: catalog_inv_def exists_where_iff)
  have upd: "confined i db (invalidate i (db\<lparr>cat_rows := upd_where (\<lambda>x. ca_id x = k \<and> ca_merchant x = i) (\<lambda>_. c') (cat_rows db)\<rparr>))"
    if c: "c \<in> set (cat_rows db)" "ca_id c = k" "ca_merchant c = i" "ca_id c' = k" "ca_merchant c' = i" for c c' k
  proof (intro confined_invalidate menu_same_I)
    let ?t = "upd_where (\<lambda>x. ca_id x = k \<and> ca_merchant x = i) (\<lambda>_. c') (cat_rows db)"
    have p: "map (\<lambda>x. (ca_id x, ca_merchant x)) ?t = map (\<lambda>x. (ca_id x, ca_merchant x)) (cat_rows db)"
      and m: "map ca_id ?t = map ca_id (cat_rows db)"
      using c(4,5) by (auto simp: upd_where_def)
    have s: "(\<lambda>x. (ca_id x, ca_merchant x)) ` set ?t = (\<lambda>x. (ca_id x, ca_merchant x)) ` set (cat_rows db)"
      using arg_cong[OF p, of set] by (simp only: set_map)
    have "\<exists>x \<in> set ?t. ca_id x = a \<and> ca_merchant x = b" if "\<exists>x \<in> set (cat_rows db). ca_id x = a \<and> ca_merchant x = b" for a b
    proof -
      have "(a, b) \<in> (\<lambda>x. (ca_id x, ca_merchant x)) ` set (cat_rows db)" using that by force
      then show ?thesis unfolding s [symmetric] by force
    qed
    then show "catalog_inv (db\<lparr>cat_rows := ?t\<rparr>)" using inv m by (simp add: catalog_inv_def)
    show "filter (\<lambda>c. ca_merchant c = j) (cat_rows (db\<lparr>cat_rows := ?t\<rparr>)) = filter (\<lambda>c. ca_merchant c = j) (cat_rows db)" if "j \<noteq> i" for j
      using c that by (simp, intro filter_upd_other) simp
  qed simp_all
  show ?thesis
  proof (cases cid)
    case None
    then show ?thesis using add by (simp add: UpsertCategory_def Let_def split: option.splits)
  next
    case (Some k)
    show ?thesis
    proof (cases "find (\<lambda>c. ca_id c = k \<and> ca_merchant c = i) (cat_rows db)")
      case None
      then show ?thesis using Some by (simp add: UpsertCategory_def Let_def split: option.splits)
    next
      case (Some c)
      have "c \<in> set (cat_rows db)" "ca_id c = k" "ca_merchant c = i" using find_SomeD[OF Some] by auto
      from upd[OF this] show ?thesis
        using \<open>cid = Some k\<close> Some \<open>ca_id c = k\<close> \<open>ca_merchant c = i\<close>
        by (simp add: UpsertCategory_def Let_def split: option.splits)
    qed
  qed
qed

lemma DeleteCategory_confined:
  assumes inv: "catalog_inv db"
  shows "confined i db (snd (DeleteCategory mdb user i k db))"
proof -
  note D = catalog_invD[OF inv]
  let ?db = "db\<lparr>cat_rows := filter (\<lambda>c. \<not> (ca_id c = k \<and> ca_merchant c = i)) (cat_rows db),
       products := upd_where (\<lambda>p. pr_category p = Some k) (\<lambda>p. p\<lparr>pr_category := None\<rparr>) (products db)\<rparr>"
  have "confined i db (invalidate i ?db)" if "exists_where (\<lambda>c. ca_id c = k \<and> ca_merchant c = i) (cat_rows db)"
  proof -
    obtain c where c: "c \<in> set (cat_rows db)" "ca_id c = k" "ca_merchant c = i" using \<open>exists_where _ _\<close> by (auto simp: exists_where_iff)
    have mine: "pr_merchant p = i" if p: "p \<in> set (products db)" "pr_category p = Some k" for p
    proof -
      obtain c' where "c' \<in> set (cat_rows db)" "ca_id c' = k" "ca_merchant c' = pr_merchant p" using D(6)[OF p] by blast
      moreover from this have "c' = c" using D(1) c by (auto intro: distinct_keyD)
      ultimately show ?thesis using c by simp
    qed
    have "map pr_id (products ?db) = map pr_id (products db)" by (auto simp: upd_where_def)
    moreover have "0 \<le> pr_price p \<and> pr_price p \<le> 100000000 \<and>
        (\<forall>a. pr_category p = Some a \<longrightarrow> (\<exists>c \<in> set (cat_rows ?db). ca_id c = a \<and> ca_merchant c = pr_merchant p))"
      if "p \<in> set (products ?db)" for p
    proof -
      from that consider (old) "p \<in> set (products db)" "pr_category p \<noteq> Some k"
        | (new) q where "q \<in> set (products db)" "p = q\<lparr>pr_category := None\<rparr>"
        by (auto simp: set_upd_where)
      then show ?thesis
      proof cases
        case old
        then show ?thesis using D(5)[OF old(1)] D(6)[OF old(1)] by fastforce
      next
        case new
        then show ?thesis using D(5)[OF new(1)] by simp
      qed
    qed
    ultimately have "catalog_inv ?db" using inv by (simp add: catalog_inv_def distinct_map_filter)
    moreover have "menu_same j db ?db" if "j \<noteq> i" for j
    proof (rule menu_same_I)
      show "filter (\<lambda>c. ca_merchant c = j) (cat_rows ?db) = filter (\<lambda>c. ca_merchant c = j) (cat_rows db)"
        using that by (auto intro: filter_cong)
      show "filter (\<lambda>p. pr_merchant p = j) (products ?db) = filter (\<lambda>p. pr_merchant p = j) (products db)"
        using mine that by (simp, intro filter_upd_other) simp
    qed simp_all
    ultimately show ?thesis by (intro confined_invalidate) simp_all
  qed
  then show ?thesis by (auto simp: DeleteCategory_def split: option.splits)
qed

lemma product_update_confined:
  assumes inv: "catalog_inv db" and f: "\<And>p. pr_id (f p) = pr_id p" "\<And>p. pr_merchant (f p) = pr_merchant p"
    "\<And>p. pr_price (f p) = pr_price p" "\<And>p. pr_category (f p) = pr_category p"
  shows "confined i db (invalidate i (db\<lparr>products := upd_where (live_product i k) f (products db)\<rparr>))"
proof (intro confined_invalidate menu_same_I)
  have m: "map pr_id (upd_where (live_product i k) f (products db)) = map pr_id (products db)" using f(1) by (auto simp: upd_where_def)
  have "\<exists>q \<in> set (products db). pr_merchant p = pr_merchant q \<and> pr_price p = pr_price q \<and> pr_category p = pr_category q"
    if "p \<in> set (upd_where (live_product i k) f (products db))" for p
    using that f by (auto simp: set_upd_where)
  then show "catalog_inv (db\<lparr>products := upd_where (live_product i k) f (products db)\<rparr>)"
    using inv m by (fastforce simp: catalog_inv_def)
  show "filter (\<lambda>p. pr_merchant p = j) (products (db\<lparr>products := upd_where (live_product i k) f (products db)\<rparr>))
      = filter (\<lambda>p. pr_merchant p = j) (products db)" if "j \<noteq> i" for j
    using f(2) that by (simp, intro filter_upd_other) (simp add: live_product_def)
qed simp_all

lemma SetAvailability_confined:
  "catalog_inv db \<Longrightarrow> confined i db (snd (SetAvailability mdb dnow user i pid av db))"
  by (auto simp: SetAvailability_def split: option.splits intro: product_update_confined)

lemma DeleteProduct_confined:
  "catalog_inv db \<Longrightarrow> confined i db (snd (DeleteProduct mdb dnow user i pid db))"
  by (auto simp: DeleteProduct_def split: option.splits intro: product_update_confined)

lemma set_image_confined:
  assumes "catalog_inv db" "image_owner mdb user pid db = Inr i"
  shows "confined i db (set_image dnow i pid key db)"
proof -
  let ?f = "\<lambda>p. p\<lparr>pr_image := key, pr_updated := dnow\<rparr>"
  obtain p where f: "find (\<lambda>p. pr_id p = pid \<and> pr_deleted p = None) (products db) = Some p" and i: "pr_merchant p = i"
    using assms(2) by (auto simp: image_owner_def split: option.splits sum.splits)
  note p = find_SomeD[OF f]
  have "q = p" if "q \<in> set (products db)" "pr_id q = pid" for q
    using distinct_keyD[OF catalog_invD(2)[OF assms(1)] that(1), of p] p that(2) by simp
  then have "upd_where (\<lambda>p. pr_id p = pid \<and> pr_deleted p = None) ?f (products db) = upd_where (live_product i pid) ?f (products db)"
    unfolding upd_where_def live_product_def using i by (intro map_cong) auto
  then show ?thesis using product_update_confined[OF assms(1), of ?f i pid] by (simp add: set_image_def)
qed

lemma image_confined:
  assumes "catalog_inv db"
  shows "\<exists>i. confined i db (snd (ConfirmImage mdb dnow user pid stored key db))" "\<exists>i. confined i db (snd (RemoveImage mdb dnow user target db))"
proof -
  show "\<exists>i. confined i db (snd (ConfirmImage mdb dnow user pid stored key db))"
    by (cases "image_owner mdb user pid db"; cases stored) (auto simp: ConfirmImage_def intro: set_image_confined[OF assms])
  show "\<exists>i. confined i db (snd (RemoveImage mdb dnow user target db))"
    by (cases target; cases "image_owner mdb user (the target) db") (auto simp: RemoveImage_def intro: set_image_confined[OF assms])
qed

text \<open>The rows the inserts of groups and options add.\<close>

lemma insert_options_rows:
  assumes "insert_options oid gid n xs db = (Inr u, db')" "\<forall>x \<in> set xs. \<bar>oiDelta x\<bar> \<le> B"
  shows "\<exists>new. db' = db\<lparr>option_rows := option_rows db @ new\<rparr> \<and> (\<forall>y \<in> set new. mo_group y = gid \<and> \<bar>mo_delta y\<bar> \<le> B) \<and>
     (distinct (map mo_id (option_rows db)) \<longrightarrow> distinct (map mo_id (option_rows db @ new)))"
  using assms
proof (induction xs arbitrary: n db)
  case Nil
  then show ?case by (intro exI[of _ "[]"]) simp
next
  case (Cons x xs)
  let ?y = "\<lparr>mo_id = oid n, mo_group = gid, mo_name = oiName x, mo_delta = oiDelta x,
               mo_available = coalesce (oiAvailable x) True, mo_sort = int n\<rparr>"
  have new: "\<forall>y \<in> set (option_rows db). mo_id y \<noteq> oid n"
    and r: "insert_options oid gid (Suc n) xs (db\<lparr>option_rows := option_rows db @ [?y]\<rparr>) = (Inr u, db')"
    using Cons.prems(1) by (auto simp: exists_where_iff split: if_splits)
  obtain ys where ys: "db' = db\<lparr>option_rows := (option_rows db @ [?y]) @ ys\<rparr>" "\<forall>y \<in> set ys. mo_group y = gid \<and> \<bar>mo_delta y\<bar> \<le> B"
    "distinct (map mo_id (option_rows db @ [?y])) \<longrightarrow> distinct (map mo_id ((option_rows db @ [?y]) @ ys))"
    using Cons.IH[OF r] Cons.prems(2) by auto
  have "distinct (map mo_id (option_rows db)) \<longrightarrow> distinct (map mo_id (option_rows db @ [?y]))" using new by auto
  then show ?case using ys Cons.prems(2) by (intro exI[of _ "?y # ys"]) auto
qed

lemma insert_groups_rows:
  assumes "insert_groups gid oid pid n gs db = (Inr u, db')" "\<forall>g \<in> set gs. \<forall>x \<in> set (giOptions g). \<bar>oiDelta x\<bar> \<le> B"
  shows "\<exists>ng no. db' = db\<lparr>group_rows := group_rows db @ ng, option_rows := option_rows db @ no\<rparr> \<and>
     (\<forall>g \<in> set ng. mg_product g = pid) \<and> (\<forall>y \<in> set no. mo_group y \<in> mg_id ` set ng \<and> \<bar>mo_delta y\<bar> \<le> B) \<and>
     (distinct (map mg_id (group_rows db)) \<longrightarrow> distinct (map mg_id (group_rows db @ ng))) \<and>
     (distinct (map mo_id (option_rows db)) \<longrightarrow> distinct (map mo_id (option_rows db @ no)))"
  using assms
proof (induction gs arbitrary: n db)
  case Nil
  then show ?case by (intro exI[of _ "[]"]) simp
next
  case (Cons g gs)
  let ?g = "\<lparr>mg_id = gid n, mg_product = pid, mg_name = giName g, mg_min = giMin g, mg_max = giMax g, mg_sort = int n\<rparr>"
  let ?db = "db\<lparr>group_rows := group_rows db @ [?g]\<rparr>"
  have new: "\<forall>y \<in> set (group_rows db). mg_id y \<noteq> gid n"
    using Cons.prems(1) by (auto simp: exists_where_iff split: if_splits)
  obtain db1 where o1: "insert_options (oid n) (gid n) 0 (giOptions g) ?db = (Inr (), db1)"
    and r: "insert_groups gid oid pid (Suc n) gs db1 = (Inr u, db')"
    using Cons.prems(1) by (auto split: if_splits prod.splits sum.splits)
  obtain no where no: "db1 = ?db\<lparr>option_rows := option_rows ?db @ no\<rparr>" "\<forall>y \<in> set no. mo_group y = gid n \<and> \<bar>mo_delta y\<bar> \<le> B"
    "distinct (map mo_id (option_rows ?db)) \<longrightarrow> distinct (map mo_id (option_rows ?db @ no))"
    using insert_options_rows[OF o1, of B] Cons.prems(2) by auto
  have b: "\<forall>g \<in> set gs. \<forall>x \<in> set (giOptions g). \<bar>oiDelta x\<bar> \<le> B" using Cons.prems(2) by simp
  obtain ng no' where R: "db' = db1\<lparr>group_rows := group_rows db1 @ ng, option_rows := option_rows db1 @ no'\<rparr>"
    "\<forall>g \<in> set ng. mg_product g = pid" "\<forall>y \<in> set no'. mo_group y \<in> mg_id ` set ng \<and> \<bar>mo_delta y\<bar> \<le> B"
    "distinct (map mg_id (group_rows db1)) \<longrightarrow> distinct (map mg_id (group_rows db1 @ ng))"
    "distinct (map mo_id (option_rows db1)) \<longrightarrow> distinct (map mo_id (option_rows db1 @ no'))"
    using Cons.IH[OF r b] by blast
  have "distinct (map mg_id (group_rows db)) \<longrightarrow> distinct (map mg_id (group_rows db @ [?g]))" using new by auto
  then show ?case
    using no R by (intro exI[of _ "?g # ng"] exI[of _ "no @ no'"]) auto
qed

lemma fold_bad_options:
  "fold (\<lambda>x. add_field_if (bad_option x) ''modifiers'' ''option'') xs f = [] \<Longrightarrow> f = [] \<and> (\<forall>x \<in> set xs. \<not> bad_option x)"
proof (induction xs arbitrary: f)
  case (Cons x xs)
  have "fold (\<lambda>x. add_field_if (bad_option x) ''modifiers'' ''option'') xs (add_field_if (bad_option x) ''modifiers'' ''option'' f) = []"
    using Cons.prems by simp
  from Cons.IH[OF this] show ?case by simp
qed simp

lemma fold_check_group:
  "fold check_group gs f = [] \<Longrightarrow> f = [] \<and> (\<forall>g \<in> set gs. \<forall>x \<in> set (giOptions g). \<bar>oiDelta x\<bar> \<le> 100000)"
proof (induction gs arbitrary: f)
  case (Cons g gs)
  have "fold check_group gs (check_group g f) = []" using Cons.prems by simp
  from Cons.IH[OF this] have h: "check_group g f = []" and t: "\<forall>g \<in> set gs. \<forall>x \<in> set (giOptions g). \<bar>oiDelta x\<bar> \<le> 100000"
    by blast+
  have b: "f = [] \<and> (\<forall>x \<in> set (giOptions g). \<not> bad_option x)"
    using fold_bad_options[OF h[unfolded check_group_def Let_def]] by simp
  have "\<bar>oiDelta x\<bar> \<le> 100000" if "x \<in> set (giOptions g)" for x
  proof -
    have "\<not> bad_option x" using b that by blast
    then show ?thesis unfolding bad_option_def by linarith
  qed
  then show ?case using t b by simp
qed simp

lemma validateProduct_ok:
  assumes "validateProduct inp0 = (inp, [])"
  shows "0 \<le> piPrice inp" "piPrice inp \<le> 100000000"
    "piModifiers inp = Some gs \<Longrightarrow> \<forall>g \<in> set gs. \<forall>x \<in> set (giOptions g). \<bar>oiDelta x\<bar> \<le> 100000"
proof -
  have v: "fold check_group (coalesce (piModifiers inp) []) (add_field_if (length (coalesce (piModifiers inp) []) > 10) ''modifiers'' ''too_many''
      (add_field_if (piUnit inp \<notin> set Units) ''unit'' ''invalid''
      (add_field_if (piPrice inp < 0 \<or> piPrice inp > 100000000) ''price_minor'' ''invalid''
      (add_field_if (RuneCount (piDescription inp) > 600) ''description'' ''too_long''
      (add_field_if (RuneCount (piName inp) < 1 \<or> RuneCount (piName inp) > 120) ''name'' ''invalid'' []))))) = []"
    using assms by (auto simp: validateProduct_def Let_def)
  note F = fold_check_group[OF v]
  show "0 \<le> piPrice inp" "piPrice inp \<le> 100000000" using F by (auto simp del: add_field_if_def)
  show "piModifiers inp = Some gs \<Longrightarrow> \<forall>g \<in> set gs. \<forall>x \<in> set (giOptions g). \<bar>oiDelta x\<bar> \<le> 100000"
    using F by (simp add: coalesce_def)
qed

lemma upsert_product_row_cases:
  assumes "upsert_product_row dnow newID i pid inp db = (Inr p, db1)" "catalog_inv db"
    "0 \<le> piPrice inp" "piPrice inp \<le> 100000000"
    "\<forall>k. piCategory inp = Some k \<longrightarrow> (\<exists>c \<in> set (cat_rows db). ca_id c = k \<and> ca_merchant c = i)"
  shows "catalog_inv db1 \<and> pr_merchant p = i \<and> p \<in> set (products db1) \<and> (\<exists>ps. db1 = db\<lparr>products := ps\<rparr>) \<and>
    (\<forall>j. j \<noteq> i \<longrightarrow> filter (\<lambda>p. pr_merchant p = j) (products db1) = filter (\<lambda>p. pr_merchant p = j) (products db))"
proof (cases pid)
  case None
  then have p: "p = new_product dnow newID i inp" and d: "db1 = db\<lparr>products := products db @ [p]\<rparr>"
    and new: "\<forall>q \<in> set (products db). pr_id q \<noteq> newID"
    using assms(1) by (auto simp: upsert_product_row_def Let_def exists_where_iff split: if_splits)
  have "catalog_inv db1" using assms(2-5) new unfolding d p by (auto simp: catalog_inv_def new_product_def)
  then show ?thesis using d p by (auto simp: new_product_def)
next
  case (Some k)
  obtain q where F: "find (live_product i k) (products db) = Some q"
    using assms(1) Some by (cases "find (live_product i k) (products db)") (auto simp: upsert_product_row_def split: if_splits)
  have p: "p = update_product dnow inp q" and d: "db1 = db\<lparr>products := upd_where (live_product i k) (\<lambda>_. p) (products db)\<rparr>"
    using assms(1) Some F by (auto simp: upsert_product_row_def Let_def split: if_splits)
  have q: "q \<in> set (products db)" "pr_id q = k" "pr_merchant q = i" using find_SomeD[OF F] by (auto simp: live_product_def)
  have pp: "pr_id p = k" "pr_merchant p = i" "pr_price p = piPrice inp" "pr_category p = piCategory inp"
    using q p by (simp_all add: update_product_def)
  have m: "map pr_id (upd_where (live_product i k) (\<lambda>_. p) (products db)) = map pr_id (products db)"
    using pp by (auto simp: upd_where_def live_product_def)
  have "catalog_inv db1"
    using assms(2-5) m pp unfolding d catalog_inv_def by (auto simp: set_upd_where)
  moreover have "p \<in> set (products db1)" using q find_SomeD(1)[OF F] unfolding d by (auto simp: set_upd_where)
  moreover have "filter (\<lambda>p. pr_merchant p = j) (products db1) = filter (\<lambda>p. pr_merchant p = j) (products db)" if "j \<noteq> i" for j
    using pp that unfolding d by (simp, intro filter_upd_other) (auto simp: live_product_def)
  ultimately show ?thesis using pp d by blast
qed

lemma replace_groups_confined:
  assumes inv: "catalog_inv db" and ins: "insert_groups gid oid pid 0 gs (delete_groups pid db) = (Inr u, db')"
    and b: "\<forall>g \<in> set gs. \<forall>x \<in> set (giOptions g). \<bar>oiDelta x\<bar> \<le> 100000"
  shows "catalog_inv db' \<and> cat_rows db' = cat_rows db \<and> products db' = products db \<and> cache db' = cache db \<and>
     (\<forall>q. q \<noteq> pid \<longrightarrow> groups_of db' q = groups_of db q)"
proof -
  note D = catalog_invD[OF inv]
  obtain ng no where R: "db' = (delete_groups pid db)\<lparr>group_rows := group_rows (delete_groups pid db) @ ng,
       option_rows := option_rows (delete_groups pid db) @ no\<rparr>"
    "\<forall>g \<in> set ng. mg_product g = pid" "\<forall>y \<in> set no. mo_group y \<in> mg_id ` set ng \<and> \<bar>mo_delta y\<bar> \<le> 100000"
    and dg: "distinct (map mg_id (group_rows (delete_groups pid db))) \<longrightarrow> distinct (map mg_id (group_rows (delete_groups pid db) @ ng))"
    and dopt: "distinct (map mo_id (option_rows (delete_groups pid db))) \<longrightarrow> distinct (map mo_id (option_rows (delete_groups pid db) @ no))"
    using insert_groups_rows[OF ins b] by blast
  have g: "distinct (map mg_id (group_rows db'))" "distinct (map mo_id (option_rows db'))"
    using dg dopt D(3,4) R(1) by (simp_all add: delete_groups_def distinct_map_filter)
  have "catalog_inv db'"
    using inv g R D(7) unfolding catalog_inv_def by (auto simp: delete_groups_def)
  moreover have "groups_of db' q = groups_of db q" if q: "q \<noteq> pid" for q
  proof -
    have f: "filter (\<lambda>g. mg_product g = q) (group_rows db') = filter (\<lambda>g. mg_product g = q) (group_rows db)"
      using R q by (auto simp: delete_groups_def filter_empty_conv intro: filter_cong)
    have "filter (\<lambda>x. mo_group x = mg_id g) (option_rows db') = filter (\<lambda>x. mo_group x = mg_id g) (option_rows db)"
      if g': "g \<in> set (group_rows db)" "mg_product g = q" for g
    proof -
      have "\<not> (\<exists>h \<in> set (group_rows db). mg_id h = mg_id g \<and> mg_product h = pid)"
        using D(3) g' q by (metis distinct_keyD)
      then have keep: "filter (\<lambda>x. mo_group x = mg_id g) (option_rows (delete_groups pid db)) = filter (\<lambda>x. mo_group x = mg_id g) (option_rows db)"
        by (auto simp: delete_groups_def exists_where_iff intro!: filter_cong)
      have "g \<in> set (group_rows (delete_groups pid db))" using g' q by (simp add: delete_groups_def)
      then have "mg_id g \<notin> mg_id ` set ng" using g(1) R(1) by (auto simp: delete_groups_def)
      then have "filter (\<lambda>x. mo_group x = mg_id g) no = []" using R(3) unfolding filter_empty_conv by metis
      then show ?thesis using keep R(1) by simp
    qed
    then show ?thesis unfolding groups_of_def f by (intro map_cong refl) simp
  qed
  ultimately show ?thesis using R(1) by (simp add: delete_groups_def)
qed

lemma UpsertProduct_confined:
  assumes inv: "catalog_inv db"
  shows "confined i db (snd (UpsertProduct mdb dnow newID gid oid user i pid inp0 db))"
proof -
  obtain inp f where v: "validateProduct inp0 = (inp, f)" by (cases "validateProduct inp0")
  have main: "confined i db (invalidate i db')"
    if f: "f = []" and c: "\<forall>k. piCategory inp = Some k \<longrightarrow> (\<exists>c \<in> set (cat_rows db). ca_id c = k \<and> ca_merchant c = i)"
      and t: "upsert_product_tx dnow newID gid oid i pid inp db = (Inr p, db')" for p db'
  proof -
    note V = validateProduct_ok[OF v[unfolded f]]
    obtain p1 db1 where r: "upsert_product_row dnow newID i pid inp db = (Inr p1, db1)"
      using t by (auto simp: upsert_product_tx_def split: prod.splits sum.splits)
    note U = upsert_product_row_cases[OF r inv V(1,2) c]
    have base: "cat_rows db1 = cat_rows db" "group_rows db1 = group_rows db" "option_rows db1 = option_rows db" "cache db1 = cache db"
      using U by auto
    show ?thesis
    proof (cases "piModifiers inp")
      case None
      then have "db' = db1" using t r by (simp add: upsert_product_tx_def)
      then show ?thesis using U base by (intro confined_invalidate menu_same_I) simp_all
    next
      case (Some gs)
      have ins: "insert_groups gid oid (pr_id p1) 0 gs (delete_groups (pr_id p1) db1) = (Inr (), db')"
        using t r Some by (auto simp: upsert_product_tx_def split: prod.splits sum.splits)
      have "catalog_inv db1" using U by blast
      note G = replace_groups_confined[OF this ins V(3)[OF Some]]
      have "menu_same j db db'" if j: "j \<noteq> i" for j
      proof -
        have "groups_of db' (pr_id q) = groups_of db (pr_id q)" if q: "q \<in> set (products db)" "pr_merchant q = j" for q
        proof -
          have "q \<in> set (filter (\<lambda>p. pr_merchant p = j) (products db))" using q by simp
          then have "q \<in> set (filter (\<lambda>p. pr_merchant p = j) (products db1))" using U j by simp
          then have in1: "q \<in> set (products db1)" by simp
          have "pr_id q \<noteq> pr_id p1"
          proof
            assume "pr_id q = pr_id p1"
            then have "q = p1" using U in1 catalog_invD(2)[of db1] by (blast intro: distinct_keyD)
            then show False using U q(2) j by simp
          qed
          then show ?thesis using G groups_of_cong[OF base(2,3)] by simp
        qed
        then show ?thesis using U G base j by (simp add: menu_same_def)
      qed
      then show ?thesis using G base by (intro confined_invalidate) simp_all
    qed
  qed
  show ?thesis
  proof (cases "requireStaff user i mdb = None \<and> f = [] \<and> \<not> (case piCategory inp of None \<Rightarrow> False
                      | Some k \<Rightarrow> \<not> exists_where (\<lambda>c. ca_id c = k \<and> ca_merchant c = i) (cat_rows db))")
    case True
    then have c: "\<forall>k. piCategory inp = Some k \<longrightarrow> (\<exists>c \<in> set (cat_rows db). ca_id c = k \<and> ca_merchant c = i)"
      by (auto simp: exists_where_iff)
    show ?thesis
      using True v main[OF _ c] by (cases "upsert_product_tx dnow newID gid oid i pid inp db" rule: prod.exhaust)
        (auto simp: UpsertProduct_def begin_func_def Let_def split: sum.splits)
  next
    case False
    then show ?thesis using v by (auto simp: UpsertProduct_def Let_def split: option.splits)
  qed
qed

inductive catalog_step :: "(string \<Rightarrow> int) \<Rightarrow> (uuid option \<Rightarrow> int) \<Rightarrow> catalog_db \<Rightarrow> catalog_db \<Rightarrow> bool" for byname byid where
  category: "catalog_step byname byid db (snd (UpsertCategory mdb newID user i cid cinp db))"
| drop_category: "catalog_step byname byid db (snd (DeleteCategory mdb user i k db))"
| product: "catalog_step byname byid db (snd (UpsertProduct mdb dnow newID gid oid user i pid inp db))"
| availability: "catalog_step byname byid db (snd (SetAvailability mdb dnow user i pid av db))"
| drop_product: "catalog_step byname byid db (snd (DeleteProduct mdb dnow user i pid db))"
| image: "catalog_step byname byid db (snd (ConfirmImage mdb dnow user pid stored key db))"
| drop_image: "catalog_step byname byid db (snd (RemoveImage mdb dnow user target db))"
| look: "catalog_step byname byid db (snd (Menu byname byid gnow i all db))"

inductive_cases catalog_stepE: "catalog_step byname byid db db'"

lemma catalog_inv_cache [simp]: "catalog_inv (db\<lparr>cache := c\<rparr>) = catalog_inv db"
  by (simp add: catalog_inv_def)

lemma build_menu_cache [simp]: "build_menu byname byid t i all (db\<lparr>cache := c\<rparr>) = build_menu byname byid t i all db"
  by (rule build_menu_same) (simp add: menu_same_def groups_of_def)

lemma Menu_keeps:
  assumes "catalog_inv db" "coherent byname byid db"
  shows "catalog_inv (snd (Menu byname byid gnow i all db)) \<and> coherent byname byid (snd (Menu byname byid gnow i all db))"
proof -
  have new: "coherent byname byid (db\<lparr>cache := (cache db)(i \<mapsto> (build_menu byname byid gnow i False db, gnow))\<rparr>)"
    using assms(2) by (auto simp: coherent_def)
  show ?thesis
  proof (cases "all \<or> cache db i = None")
    case True
    then show ?thesis using assms new by (cases all) (simp_all add: Menu_def Let_def)
  next
    case False
    then obtain m t where "cache db i = Some (m, t)" "\<not> all" by auto
    then show ?thesis using assms new by (simp add: Menu_def Let_def)
  qed
qed

lemma catalog_step_keeps:
  assumes "catalog_step byname byid db db'" "catalog_inv db" "coherent byname byid db"
  shows "catalog_inv db' \<and> coherent byname byid db'"
  using assms
proof (cases rule: catalog_step.cases)
  case (look gnow i all)
  then show ?thesis using Menu_keeps assms(2,3) by simp
next
  case image
  then show ?thesis using image_confined(1)[OF assms(2)] confined_keeps assms(2,3) by blast
next
  case drop_image
  then show ?thesis using image_confined(2)[OF assms(2)] confined_keeps assms(2,3) by blast
qed (simp only:, rule confined_keeps,
     rule UpsertCategory_confined DeleteCategory_confined UpsertProduct_confined SetAvailability_confined DeleteProduct_confined,
     (rule assms)+)+

lemma catalog_run_keeps:
  assumes "(catalog_step byname byid)\<^sup>*\<^sup>* db db'" "catalog_inv db" "coherent byname byid db"
  shows "catalog_inv db' \<and> coherent byname byid db'"
  using assms by (induction rule: rtranclp_induct) (auto dest: catalog_step_keeps)

definition empty_catalog :: catalog_db where
  "empty_catalog = \<lparr>cat_rows = [], products = [], group_rows = [], option_rows = [], cache = (\<lambda>_. None)\<rparr>"

lemma empty_catalog_ok: "catalog_inv empty_catalog" "coherent byname byid empty_catalog"
  by (simp_all add: empty_catalog_def catalog_inv_def coherent_def)

text \<open>
  C37. The cache of menus cannot be noticed: after any sequence of changes to categories, products, their
  images and modifiers of any merchants and of readings of any menus, the menu that is served, from the cache or
  not, holds exactly the categories and products that a fresh reading of the tables gives, and it was
  generated less than thirty seconds before.
\<close>
theorem Menu_fresh:
  assumes "(catalog_step byname byid)\<^sup>*\<^sup>* empty_catalog db"
  shows "let m = fst (Menu byname byid gnow i all db) in
    mn_categories m = menu_categories byname i all db \<and> mn_products m = menu_products byname byid i all db \<and>
    mn_merchant m = i \<and> (\<exists>t. gnow - t < MenuCacheTTL \<and> m = build_menu byname byid t i all db)"
proof -
  define m where "m = fst (Menu byname byid gnow i all db)"
  have coh: "coherent byname byid db" using catalog_run_keeps[OF assms(1)] empty_catalog_ok by blast
  have z: "gnow - gnow < MenuCacheTTL" by (simp add: MenuCacheTTL_def)
  have "\<exists>t. gnow - t < MenuCacheTTL \<and> m = build_menu byname byid t i all db"
  proof (cases "all \<or> cache db i = None")
    case True
    then have "m = build_menu byname byid gnow i all db" unfolding m_def by (cases all) (simp_all add: Menu_def Let_def)
    then show ?thesis using z by blast
  next
    case False
    then obtain m' t where c: "cache db i = Some (m', t)" "\<not> all" by auto
    show ?thesis
    proof (cases "gnow - t < MenuCacheTTL")
      case True
      then show ?thesis using c coh unfolding m_def by (intro exI[of _ t]) (simp add: Menu_def coherent_def)
    next
      case False
      then show ?thesis using c z unfolding m_def by (intro exI[of _ gnow]) (simp add: Menu_def Let_def)
    qed
  qed
  then show ?thesis unfolding m_def[symmetric] Let_def by (auto simp: build_menu_def)
qed

definition demo_category :: "catalog_db" where
  "demo_category = snd (UpsertCategory demo_merchants ''c1'' ''u9'' ''m1'' None
     \<lparr>ciName = ''Pizza'', ciSort = 1, ciActive = None\<rparr> (snd (Menu (\<lambda>_. 0) (\<lambda>_. 0) 0 ''m1'' False empty_catalog)))"

theorem Menu_fresh_witness:
  "map ca_name (mn_categories (fst (Menu (\<lambda>_. 0) (\<lambda>_. 0) 5 ''m1'' False demo_category))) = [''Pizza'']"
proof -
  have sq: "squash ''Pizza'' = ''Pizza''" by code_simp
  have st: "requireStaff ''u9'' ''m1'' demo_merchants = None" by (simp add: requireStaff_def Membership_def demo_merchants_def)
  have "catalog_step (\<lambda>_. 0) (\<lambda>_. 0) empty_catalog (snd (Menu (\<lambda>_. 0) (\<lambda>_. 0) 0 ''m1'' False empty_catalog))"
    by (rule catalog_step.look)
  moreover have "catalog_step (\<lambda>_. 0) (\<lambda>_. 0) (snd (Menu (\<lambda>_. 0) (\<lambda>_. 0) 0 ''m1'' False empty_catalog)) demo_category"
    unfolding demo_category_def by (rule catalog_step.category)
  ultimately have run: "(catalog_step (\<lambda>_. 0) (\<lambda>_. 0))\<^sup>*\<^sup>* empty_catalog demo_category" by simp
  have "menu_categories (\<lambda>_. 0) ''m1'' False demo_category = [\<lparr>ca_id = ''c1'', ca_merchant = ''m1'', ca_name = ''Pizza'', ca_sort = 1, ca_active = True\<rparr>]"
    by (simp add: demo_category_def UpsertCategory_def st sq in32_def coalesce_def exists_where_def Menu_def Let_def
        empty_catalog_def menu_categories_def comp_def)
  then show ?thesis using Menu_fresh[OF run, of 5 "''m1''" False] by (simp add: Let_def)
qed

end
