(* ===== verification/Orders.thy ===== *)
theory Orders
  imports Dispatch Deliveries Catalog Promos
begin

text \<open>
  \<open>modules/orders\<close> (\<open>state.go\<close>, \<open>orders.go\<close>, \<open>courier.go\<close>; tables of \<open>migrations/0014\<close>): an order from
  the checkout, priced on the server, through the merchant and the courier to its settlement in the
  ledger. Conventions are those of the rides. \<open>dz\<close> is how far the time zone of the database session is
  ahead of UTC. The dispatcher of couriers is in the theory of that name.
\<close>

definition ErrMerchantClosed [err_defs]: "ErrMerchantClosed = API ''MERCHANT_CLOSED'' 409 False []"
definition ErrMinOrder :: err where [err_defs]: "ErrMinOrder = API ''ORDER_BELOW_MINIMUM'' 422 False []"
definition ErrInsufficient :: err where [err_defs]: "ErrInsufficient = API ''INSUFFICIENT_FUNDS'' 402 False []"
definition ErrInvalidState :: err where [err_defs]: "ErrInvalidState = API ''ORDER_INVALID_STATE'' 409 False []"
definition ErrPaymentMethod [err_defs]: "ErrPaymentMethod = API ''PAYMENT_METHOD_UNAVAILABLE'' 422 False []"
definition ErrAddressRequired [err_defs]: "ErrAddressRequired = API ''ADDRESS_REQUIRED'' 422 False []"
definition ErrOfferGone :: err where [err_defs]: "ErrOfferGone = API ''OFFER_GONE'' 409 False []"
definition ErrCourierAssigned [err_defs]: "ErrCourierAssigned = API ''COURIER_ALREADY_BUSY'' 409 False []"
definition ErrPickupCode :: err where [err_defs]: "ErrPickupCode = API ''PICKUP_CODE_INVALID'' 422 False []"

text \<open>PostgreSQL refuses every statement of a transaction after one that failed.\<close>

definition PgAborted :: err where [err_defs]: "PgAborted = Plain ''25P02''"

section \<open>States\<close>

datatype order_state = PendingMerchant | OAccepted | Preparing | Ready | CourierAssigned | PickedUp | Delivered
  | OCancelled | Rejected

fun transitions :: "order_state \<Rightarrow> order_state list" where
  "transitions PendingMerchant = [OAccepted, Rejected, OCancelled]"
| "transitions OAccepted = [Preparing, OCancelled]"
| "transitions Preparing = [Ready, OCancelled]"
| "transitions Ready = [CourierAssigned, Delivered, OCancelled]"
| "transitions CourierAssigned = [PickedUp, Ready, OCancelled]"
| "transitions PickedUp = [Delivered]"
| "transitions _ = []"

definition CanTransition :: "order_state \<Rightarrow> order_state \<Rightarrow> bool" where
  "CanTransition from to = can_transition transitions from to"

definition IsActive :: "order_state \<Rightarrow> bool" where
  "IsActive s \<longleftrightarrow> s \<in> {PendingMerchant, OAccepted, Preparing, Ready, CourierAssigned, PickedUp}"

definition IsTerminal :: "order_state \<Rightarrow> bool" where
  "IsTerminal s \<longleftrightarrow> s = Delivered \<or> s = OCancelled \<or> s = Rejected"

definition CustomerCanCancel :: "order_state \<Rightarrow> bool" where
  "CustomerCanCancel s \<longleftrightarrow> s = PendingMerchant \<or> s = OAccepted"

text \<open>The names of the states in requests; any other text is no state.\<close>

definition state_names :: "(string \<times> order_state) list" where
  "state_names = [(''pending_merchant'', PendingMerchant), (''accepted'', OAccepted), (''preparing'', Preparing),
     (''ready'', Ready), (''courier_assigned'', CourierAssigned), (''picked_up'', PickedUp), (''delivered'', Delivered),
     (''cancelled'', OCancelled), (''rejected'', Rejected)]"

text \<open>The states in which the courier is busy with the order (the condition of a unique index).\<close>

definition CourierBusy :: "order_state \<Rightarrow> bool" where
  "CourierBusy s \<longleftrightarrow> s = CourierAssigned \<or> s = PickedUp"

section \<open>Tables\<close>

record order =
  od_id :: uuid
  od_code :: string
  od_customer :: uuid
  od_merchant :: uuid
  od_courier :: "uuid option"
  od_state :: order_state
  od_fulfillment :: string
  od_method :: pay_method
  od_pay :: pay_status
  od_items_total :: int
  od_fee :: int
  od_discount :: int
  od_total :: int
  od_commission :: "int option"
  od_currency :: string
  od_address :: "string option"
  od_point :: "point option"
  od_instructions :: "string option"
  od_note :: "string option"
  od_prep :: int
  od_ready_estimate :: time
  od_cancelled_by :: "string option"
  od_reason :: "string option"
  od_created :: time
  od_accepted_at :: "time option"
  od_ready_at :: "time option"
  od_picked_at :: "time option"
  od_delivered_at :: "time option"
  od_cancelled_at :: "time option"
  od_updated :: time
  od_idem :: string
  od_coupon :: "string option"

record item_row =
  it_order :: uuid
  it_line :: priced_line

record orders_db =
  o_core :: core
  o_loc :: loc_db
  o_drivers :: drivers_db
  o_rides :: "ride list"
  o_promos :: promos_db
  o_merchants :: merchants_db
  o_catalog :: catalog_db
  orders :: "order list"
  order_items :: "item_row list"
  order_offers :: "offer list"
  order_journal :: "order_state journal_row list"

text \<open>Whether coupons and the location service are configured.\<close>

record orders_cfg =
  oc_promos :: bool
  oc_loc :: bool

definition upd_order :: "uuid \<Rightarrow> (order \<Rightarrow> order) \<Rightarrow> orders_db \<Rightarrow> orders_db" where
  "upd_order i f s = s\<lparr>orders := upd_where (\<lambda>o'. od_id o' = i) f (orders s)\<rparr>"

definition orderEvent ::
  "time \<Rightarrow> uuid \<Rightarrow> order_state option \<Rightarrow> order_state \<Rightarrow> string \<Rightarrow> uuid option \<Rightarrow> payload \<Rightarrow> orders_db \<Rightarrow> orders_db" where
  "orderEvent dnow i from to actor_type actor meta s =
     s\<lparr>order_journal := order_journal s @ [\<lparr>jn_subject = i, jn_from = from, jn_to = to, jn_actor_type = actor_type,
        jn_actor = actor, jn_meta = meta, jn_created = dnow\<rparr>]\<rparr>"

definition o_emit :: "time \<Rightarrow> uuid \<Rightarrow> string \<Rightarrow> payload \<Rightarrow> orders_db \<Rightarrow> orders_db" where
  "o_emit dnow i ev body s = s\<lparr>o_core := (o_core s)\<lparr>outbox := Emit dnow ''order'' i ev body (outbox (o_core s))\<rparr>\<rparr>"

definition find_order :: "uuid \<Rightarrow> orders_db \<Rightarrow> order option" where
  "find_order i s = find (\<lambda>o'. od_id o' = i) (orders s)"

definition merchant_row :: "uuid \<Rightarrow> orders_db \<Rightarrow> merchant option" where
  "merchant_row i s = find (\<lambda>m. me_id m = i) (merchants (o_merchants s))"

text \<open>The order as answered: with its lines and the name and place of the merchant (\<open>withItems\<close>).\<close>

record order_view =
  ov_order :: order
  ov_items :: "priced_line list"
  ov_merchant :: "(string \<times> point) option"

definition withItems :: "orders_db \<Rightarrow> order \<Rightarrow> order_view" where
  "withItems s r = \<lparr>ov_order = r, ov_items = map it_line (filter (\<lambda>x. it_order x = od_id r) (order_items s)),
     ov_merchant = map_option (\<lambda>m. (me_name m, me_location m)) (merchant_row (od_merchant r) s)\<rparr>"

section \<open>Checkout\<close>

record checkout_input =
  ckMerchant :: uuid
  ckItems :: "selection list"
  ckMethod :: string
  ckFulfillment :: string
  ckAddressLine :: string
  ckAddress :: "point option"
  ckInstructions :: string
  ckNote :: string
  ckCoupon :: string

record order_quote =
  oqItems :: "priced_line list"
  oqItemsTotal :: int
  oqFee :: int
  oqDiscount :: int
  oqCoupon :: string
  oqTotal :: int
  oqMinOrder :: int
  oqCurrency :: string
  oqPrep :: int
  oqOpen :: bool

text \<open>\<open>openNow\<close>: the query over the rows of opening hours, to the precision of \<open>now()::time\<close>.\<close>

definition time_of_day :: "time \<Rightarrow> time \<Rightarrow> int" where
  "time_of_day dz t = (t + dz) mod (24 * Hour)"

definition openNow :: "time \<Rightarrow> time \<Rightarrow> uuid \<Rightarrow> merchants_db \<Rightarrow> bool" where
  "openNow dz dnow i db = exists_where (\<lambda>h. hw_merchant h = i \<and>
     (let d = weekday_of dz dnow; t = time_of_day dz dnow in
      hw_closes h > hw_opens h \<and> hw_weekday h = d \<and> t \<ge> hw_opens h * Second \<and> t < hw_closes h * Second \<or>
      hw_closes h \<le> hw_opens h \<and>
        (hw_weekday h = d \<and> t \<ge> hw_opens h * Second \<or>
         hw_weekday h = (d + 6) mod 7 \<and> t < hw_closes h * Second))) (hours_rows db)"

fun price_lines :: "uuid \<Rightarrow> catalog_db \<Rightarrow> selection list \<Rightarrow> order_quote \<Rightarrow> err + order_quote" where
  "price_lines i db [] q = Inr q"
| "price_lines i db (sel # sels) q =
     (case Price i sel db of
        Inl e \<Rightarrow> Inl e
      | Inr line \<Rightarrow> price_lines i db sels (q\<lparr>oqItems := oqItems q @ [line],
                      oqItemsTotal := add64 (oqItemsTotal q) (plTotal line), oqCurrency := plCurrency line\<rparr>))"

definition chosen_fulfillment :: "checkout_input \<Rightarrow> merchant \<Rightarrow> string" where
  "chosen_fulfillment inp m = (if ckFulfillment inp = [] then me_fulfillment m else ckFulfillment inp)"

definition price_coupon :: "orders_cfg \<Rightarrow> time \<Rightarrow> uuid \<Rightarrow> string \<Rightarrow> promos_db \<Rightarrow> order_quote \<Rightarrow> err + order_quote" where
  "price_coupon cfg gnow user coupon db q =
     (let code = Normalize coupon in
      if code = [] then Inr q
      else if \<not> oc_promos cfg then Inl Promos.ErrInvalid
      else (case Apply gnow code user ScopeFood (oqItemsTotal q) db of
              Inl e \<Rightarrow> Inl e
            | Inr a \<Rightarrow> Inr (q\<lparr>oqDiscount := ap_discount a, oqCoupon := ap_code a\<rparr>)))"

definition price ::
  "orders_cfg \<Rightarrow> time \<Rightarrow> time \<Rightarrow> time \<Rightarrow> uuid \<Rightarrow> checkout_input \<Rightarrow> orders_db \<Rightarrow> err + order_quote \<times> merchant" where
  "price cfg dz gnow dnow user inp s =
     (if ckItems inp = [] \<or> length (ckItems inp) > 50 then Inl (ErrValidation [(''items'', ''invalid'')])
      else case merchant_row (ckMerchant inp) s of
        None \<Rightarrow> Inl ErrNotFound
      | Some m \<Rightarrow>
          if me_status m \<noteq> MActive \<or> \<not> me_accepting m then Inl ErrMerchantClosed
          else
            let q0 = \<lparr>oqItems = [], oqItemsTotal = 0, oqFee = 0, oqDiscount = 0, oqCoupon = [], oqTotal = 0,
                      oqMinOrder = me_min_order m, oqCurrency = ''EUR'', oqPrep = me_prep m,
                      oqOpen = openNow dz dnow (ckMerchant inp) (o_merchants s)\<rparr>
            in (case price_lines (ckMerchant inp) (o_catalog s) (ckItems inp) q0 of
                  Inl e \<Rightarrow> Inl e
                | Inr q1 \<Rightarrow>
                    let q2 = (if chosen_fulfillment inp m \<noteq> ''pickup'' then q1\<lparr>oqFee := me_fee m\<rparr> else q1)
                    in (case price_coupon cfg gnow user (ckCoupon inp) (o_promos s) q2 of
                          Inl e \<Rightarrow> Inl e
                        | Inr q \<Rightarrow> Inr (q\<lparr>oqTotal := sub64 (add64 (oqItemsTotal q) (oqFee q)) (oqDiscount q)\<rparr>, m))))"

definition Quote :: "orders_cfg \<Rightarrow> time \<Rightarrow> time \<Rightarrow> time \<Rightarrow> uuid \<Rightarrow> checkout_input \<Rightarrow> orders_db \<Rightarrow> err + order_quote" where
  "Quote cfg dz gnow dnow user inp s =
     (case price cfg dz gnow dnow user inp s of Inl e \<Rightarrow> Inl e | Inr (q, _) \<Rightarrow> Inr q)"

text \<open>\<open>newCode\<close> on its six random bytes.\<close>

definition alphabet :: string where "alphabet = ''ABCDEFGHJKLMNPQRSTUVWXYZ23456789''"

definition newCode :: "nat list \<Rightarrow> string" where
  "newCode b = map (\<lambda>x. alphabet ! (x mod length alphabet)) (take 6 b)"

text \<open>The checks of \<open>Create\<close> on the request alone: the key, the method, the instructions and the note.\<close>

definition validate_checkout :: "string \<Rightarrow> checkout_input \<Rightarrow> err + (string \<times> pay_method \<times> checkout_input)" where
  "validate_checkout idemKey inp =
     (let key = TrimSpace idemKey;
          fields = add_field_if (key = [] \<or> length key > 100) ''idempotency_key'' ''required'' [];
          m = (if ckMethod inp = ''cash'' then Some Cash else if ckMethod inp = ''wallet'' then Some Wallet else None)
      in if ckMethod inp = ''card'' then Inl ErrPaymentMethod
         else
           let fields = add_field_if (m = None) ''payment_method'' ''invalid'' fields;
               inp1 = inp\<lparr>ckNote := squash (ckNote inp), ckInstructions := squash (ckInstructions inp)\<rparr>;
               fields = add_field_if (RuneCount (ckNote inp1) > 300) ''note'' ''too_long'' fields;
               fields = add_field_if (RuneCount (ckInstructions inp1) > 200) ''instructions'' ''too_long'' fields
           in if fields \<noteq> [] then Inl (ErrValidation fields)
              else case m of None \<Rightarrow> Inl (ErrValidation fields) | Some pm \<Rightarrow> Inr (key, pm, inp1))"

text \<open>The insertion: the checks of the table, then its unique constraints. \<open>None\<close> is a taken code.\<close>

definition order_checks :: "order \<Rightarrow> bool" where
  "order_checks r \<longleftrightarrow> od_fulfillment r \<in> {''courier'', ''merchant_delivers'', ''pickup''} \<and> od_items_total r \<ge> 0 \<and> od_total r \<ge> 0"

definition new_order ::
  "time \<Rightarrow> time \<Rightarrow> uuid \<Rightarrow> string \<Rightarrow> uuid \<Rightarrow> string \<Rightarrow> pay_method \<Rightarrow> checkout_input \<Rightarrow> order_quote \<Rightarrow> merchant \<Rightarrow> order" where
  "new_order gnow dnow i code user key pm inp q m =
     \<lparr>od_id = i, od_code = code, od_customer = user, od_merchant = ckMerchant inp, od_courier = None,
      od_state = PendingMerchant, od_fulfillment = chosen_fulfillment inp m, od_method = pm, od_pay = PayPending,
      od_items_total = oqItemsTotal q, od_fee = oqFee q, od_discount = oqDiscount q, od_total = oqTotal q,
      od_commission = None, od_currency = oqCurrency q, od_address = nullable (ckAddressLine inp),
      od_point = ckAddress inp, od_instructions = nullable (ckInstructions inp), od_note = nullable (ckNote inp),
      od_prep = me_prep m, od_ready_estimate = gnow + me_prep m * Minute, od_cancelled_by = None, od_reason = None,
      od_created = dnow, od_accepted_at = None, od_ready_at = None, od_picked_at = None, od_delivered_at = None,
      od_cancelled_at = None, od_updated = dnow, od_idem = key, od_coupon = nullable (oqCoupon q)\<rparr>"

text \<open>
  The loop of five attempts. A taken code is tried again, but in the same transaction, which the failed
  statement has aborted.
\<close>

fun insert_attempts :: "bool \<Rightarrow> (string \<Rightarrow> order) \<Rightarrow> string list \<Rightarrow> order list \<Rightarrow> err + order" where
  "insert_attempts aborted mk [] t = Inl PgUnique"
| "insert_attempts aborted mk (code # codes) t =
     (let r = mk code in
      if aborted then Inl PgAborted
      else if \<not> order_checks r then Inl PgCheck
      else if exists_where (\<lambda>x. od_id x = od_id r) t then Inl PgUnique
      else if exists_where (\<lambda>x. od_code x = od_code r) t then insert_attempts True mk codes t
      else if exists_where (\<lambda>x. od_customer x = od_customer r \<and> od_idem x = od_idem r) t then Inl PgUnique
      else Inr r)"

definition create_tx ::
  "time \<Rightarrow> time \<Rightarrow> uuid \<Rightarrow> string list \<Rightarrow> uuid \<Rightarrow> string \<Rightarrow> pay_method \<Rightarrow> checkout_input \<Rightarrow> order_quote \<Rightarrow> merchant \<Rightarrow>
    (orders_db, err, order) op" where
  "create_tx gnow dnow i codes user key pm inp q m s =
     (case insert_attempts False (\<lambda>code. new_order gnow dnow i code user key pm inp q m) (take 5 codes) (orders s) of
        Inl e \<Rightarrow> (Inl e, s)
      | Inr r \<Rightarrow>
          (case (if oqCoupon q = [] then (Inr (), o_promos s)
                 else Redeem gnow dnow (oqCoupon q) user (''order:'' @ i) (oqDiscount q) (o_promos s)) of
             (Inl e, p) \<Rightarrow> (Inl e, s\<lparr>o_promos := p\<rparr>)
           | (Inr _, p) \<Rightarrow>
               let s1 = s\<lparr>o_promos := p, orders := orders s @ [r],
                          order_items := order_items s @ map (\<lambda>line. \<lparr>it_order = i, it_line = line\<rparr>) (oqItems q)\<rparr>
               in (Inr r, o_emit dnow i ''OrderCreated''
                     [(''order_id'', JStr i), (''code'', JStr (od_code r)), (''customer_id'', JStr user),
                      (''merchant_id'', JStr (ckMerchant inp)), (''owner_id'', JStr (me_owner m)), (''total_minor'', JInt (oqTotal q))]
                     (orderEvent dnow i None PendingMerchant ''customer'' (Some user)
                        [(''payment_method'', JStr (ckMethod inp)), (''fulfillment'', JStr (od_fulfillment r))] s1))))"

definition address_missing :: "checkout_input \<Rightarrow> bool" where
  "address_missing inp = (case ckAddress inp of None \<Rightarrow> True
     | Some p \<Rightarrow> \<not> Valid p \<or> \<not> InKosovo p \<or> TrimSpace (ckAddressLine inp) = [])"

definition Create ::
  "orders_cfg \<Rightarrow> time \<Rightarrow> time \<Rightarrow> time \<Rightarrow> uuid \<Rightarrow> string list \<Rightarrow> uuid \<Rightarrow> string \<Rightarrow> checkout_input \<Rightarrow> (orders_db, err, order_view) op" where
  "Create cfg dz gnow dnow i codes user idemKey inp0 s =
     (case validate_checkout idemKey inp0 of
        Inl e \<Rightarrow> (Inl e, s)
      | Inr (key, pm, inp) \<Rightarrow>
          (case find (\<lambda>r. od_customer r = user \<and> od_idem r = key) (orders s) of
             Some r \<Rightarrow> (Inr (withItems s r), s)
           | None \<Rightarrow>
               (case price cfg dz gnow dnow user inp s of
                  Inl e \<Rightarrow> (Inl e, s)
                | Inr (q, m) \<Rightarrow>
                    if \<not> oqOpen q then (Inl ErrMerchantClosed, s)
                    else if oqItemsTotal q < me_min_order m
                    then (Inl (WithFields [(''min_order_minor'', ''not_met'')] ErrMinOrder), s)
                    else if chosen_fulfillment inp m \<noteq> ''pickup'' \<and> address_missing inp then (Inl ErrAddressRequired, s)
                    else if pm = Wallet \<and> bal_or_zero (UserWalletCode user) (o_core s) < oqTotal q
                    then (Inl ErrInsufficient, s)
                    else (case begin_func (create_tx gnow dnow i codes user key pm inp q m) s of
                            (Inl e, s1) \<Rightarrow> (Inl e, s1)
                          | (Inr r, s1) \<Rightarrow> (Inr (withItems s1 r), s1)))))"

section \<open>The customer\<close>

definition Get :: "uuid \<Rightarrow> uuid \<Rightarrow> orders_db \<Rightarrow> err + order_view" where
  "Get user i s =
     (case find (\<lambda>r. od_id r = i \<and> (od_customer r = user \<or> od_courier r = Some user \<or>
              exists_where (\<lambda>st. sf_merchant st = od_merchant r \<and> sf_user st = user) (staff (o_merchants s)))) (orders s) of
        None \<Rightarrow> Inl ErrNotFound | Some r \<Rightarrow> Inr (withItems s r))"

definition History :: "time \<Rightarrow> uuid \<Rightarrow> time option \<Rightarrow> int \<Rightarrow> orders_db \<Rightarrow> order list" where
  "History gnow user before limit s =
     (let limit = (if limit \<le> 0 \<or> limit > 50 then 20 else limit);
          b = (case before of None \<Rightarrow> gnow + Hour | Some t \<Rightarrow> t)
      in take (nat limit) (sort_key (\<lambda>r. - od_created r)
           (filter (\<lambda>r. od_customer r = user \<and> od_created r < b) (orders s))))"

definition cancel_tx :: "time \<Rightarrow> uuid \<Rightarrow> uuid \<Rightarrow> string \<Rightarrow> (orders_db, err, order) op" where
  "cancel_tx dnow user i reason s =
     (case find (\<lambda>r. od_id r = i \<and> od_customer r = user) (orders s) of
        None \<Rightarrow> (Inl ErrNotFound, s)
      | Some r \<Rightarrow>
          if \<not> CustomerCanCancel (od_state r) then (Inl ErrInvalidState, s)
          else
            let r' = r\<lparr>od_state := OCancelled, od_cancelled_by := Some ''customer'', od_reason := nullable reason,
                       od_pay := PayNone, od_cancelled_at := Some dnow, od_updated := dnow\<rparr>
            in (Inr r', o_emit dnow i ''OrderCancelled''
                  [(''order_id'', JStr i), (''by'', JStr ''customer''), (''merchant_id'', JStr (od_merchant r')),
                   (''customer_id'', JStr (od_customer r'))]
                  (orderEvent dnow i (Some (od_state r)) OCancelled ''customer'' (Some user) [(''reason'', JStr reason)]
                     (upd_order i (\<lambda>_. r') s))))"

definition CancelByCustomer :: "time \<Rightarrow> uuid \<Rightarrow> uuid \<Rightarrow> string \<Rightarrow> (orders_db, err, order_view) op" where
  "CancelByCustomer dnow user i reason s =
     (case begin_func (cancel_tx dnow user i (clip reason 200)) s of
        (Inl e, s1) \<Rightarrow> (Inl e, s1) | (Inr r, s1) \<Rightarrow> (Inr (withItems s1 r), s1))"

section \<open>Settlement\<close>

text \<open>
  The plan of \<open>settle\<close> for a delivered order that is pending: with the wallet the customer pays the
  total and the merchant receives the items less the commission; with cash the merchant, who holds the
  money, owes the commission and the delivery fee and is compensated for the discount.
\<close>

definition order_commission :: "order \<Rightarrow> merchant \<Rightarrow> int" where
  "order_commission r m = quot (add64 (mul64 (od_items_total r) (me_commission m)) 5000) 10000"

definition MerchantWalletCode :: "uuid \<Rightarrow> string" where
  "MerchantWalletCode m = ''merchant:'' @ m @ '':wallet''"

definition order_tx :: "string \<Rightarrow> order \<Rightarrow> posting list \<Rightarrow> transaction" where
  "order_tx kind r ps = \<lparr>Kind = kind, Reference = ''order:'' @ od_id r,
     IdempotencyKey = ''order:'' @ od_id r @ '':settle'', TxCurrency = od_currency r, Postings = ps\<rparr>"

definition wallet_postings :: "order \<Rightarrow> int \<Rightarrow> posting list" where
  "wallet_postings r com =
     [debit (UserWalletCode (od_customer r)) (od_total r),
      credit (MerchantWalletCode (od_merchant r)) (sub64 (od_items_total r) com)] @
     (if com > 0 then [credit ''krejt:commission'' com] else []) @
     (if od_fee r > 0 then [credit ''krejt:delivery_fees'' (od_fee r)] else []) @
     (if od_discount r > 0 then [debit MarketingAccount (od_discount r)] else [])"

definition cash_postings :: "order \<Rightarrow> int \<Rightarrow> posting list" where
  "cash_postings r com =
     (let owed = add64 com (od_fee r) in
      (if owed > 0 then [debit (MerchantWalletCode (od_merchant r)) owed] else []) @
      (if com > 0 then [credit ''krejt:commission'' com] else []) @
      (if od_fee r > 0 then [credit ''krejt:delivery_fees'' (od_fee r)] else []) @
      (if od_discount r > 0
       then [credit (MerchantWalletCode (od_merchant r)) (od_discount r), debit MarketingAccount (od_discount r)] else []))"

definition settle_plan :: "order \<Rightarrow> int \<Rightarrow> core \<Rightarrow> plan" where
  "settle_plan r com c =
     (if od_method r = Wallet then
        (case Balance (UserWalletCode (od_customer r)) c of
           Inl e \<Rightarrow> Reject e
         | Inr b \<Rightarrow> if Minor b < od_total r then Fail_payment
                    else Pay PayPaid (Some (order_tx ''order_payment'' r (wallet_postings r com))))
      else if (add64 com (od_fee r) > 0 \<or> od_discount r > 0) \<and> cash_postings r com \<noteq> []
      then Pay PayCash (Some (order_tx ''order_cash_fees'' r (cash_postings r com)))
      else Pay PayCash None)"

definition set_payment :: "time \<Rightarrow> uuid \<Rightarrow> (order \<Rightarrow> order) \<Rightarrow> orders_db \<Rightarrow> orders_db" where
  "set_payment dnow i f s = s\<lparr>orders := upd_where (\<lambda>x. od_id x = i \<and> od_pay x = PayPending)
     (\<lambda>x. (f x)\<lparr>od_updated := dnow\<rparr>) (orders s)\<rparr>"

definition finish_settlement :: "time \<Rightarrow> order \<Rightarrow> pay_status \<Rightarrow> int \<Rightarrow> (orders_db, err, unit) op" where
  "finish_settlement dnow r st com = begin_func (\<lambda>s.
     (Inr (), o_emit dnow (od_id r) ''OrderPaymentSettled''
        [(''order_id'', JStr (od_id r)), (''customer_id'', JStr (od_customer r)), (''merchant_id'', JStr (od_merchant r)),
         (''status'', JStr (status_text st)), (''method'', JStr (method_text (od_method r))), (''total_minor'', JInt (od_total r))]
        (set_payment dnow (od_id r) (\<lambda>x. x\<lparr>od_pay := st, od_commission := Some com\<rparr>) s)))"

definition settle :: "time \<Rightarrow> uuid \<Rightarrow> order \<Rightarrow> (orders_db, err, unit) op" where
  "settle dnow txi r s =
     (if od_state r \<noteq> Delivered \<or> od_pay r \<noteq> PayPending then (Inr (), s)
      else case merchant_row (od_merchant r) s of
        None \<Rightarrow> (Inl NoRows, s)
      | Some m \<Rightarrow>
          let com = order_commission r m;
              s1 = s\<lparr>o_core := EnsureAccount (MerchantWalletCode (od_merchant r)) ''merchant'' (Some (od_merchant r))
                     ''liability'' (od_currency r) (o_core s)\<rparr>
          in (case settle_plan r com (o_core s1) of
                Reject e \<Rightarrow> (Inl e, s1)
              | Fail_payment \<Rightarrow> (Inr (), set_payment dnow (od_id r) (\<lambda>x. x\<lparr>od_pay := PayFailed\<rparr>) s1)
              | Pay st None \<Rightarrow> finish_settlement dnow r st com s1
              | Pay st (Some tx) \<Rightarrow>
                  (case Post dnow txi tx (o_core s1) of
                     (Inl e, c) \<Rightarrow> (Inl e, s1\<lparr>o_core := c\<rparr>)
                   | (Inr _, c) \<Rightarrow> finish_settlement dnow r st com (s1\<lparr>o_core := c\<rparr>))))"

text \<open>\<open>SettlePending\<close>: the loop stops at the first error; the count so far is returned with it.\<close>

fun settle_loop :: "time \<Rightarrow> (nat \<Rightarrow> uuid) \<Rightarrow> order list \<Rightarrow> nat \<Rightarrow> (orders_db, err \<times> nat, nat) op" where
  "settle_loop dnow txs [] n s = (Inr n, s)"
| "settle_loop dnow txs (r # rs) n s =
     (case settle dnow (txs n) r s of
        (Inl e, s1) \<Rightarrow> (Inl (e, n), s1)
      | (Inr _, s1) \<Rightarrow> settle_loop dnow txs rs (n + 1) s1)"

definition pending_orders :: "time \<Rightarrow> orders_db \<Rightarrow> order list" where
  "pending_orders dnow s = take 50 (sort_key od_updated
     (filter (\<lambda>r. od_pay r = PayPending \<and> od_state r = Delivered \<and> od_updated r < dnow - 10 * Second) (orders s)))"

definition SettlePending :: "time \<Rightarrow> (nat \<Rightarrow> uuid) \<Rightarrow> (orders_db, err \<times> nat, nat) op" where
  "SettlePending dnow txs s = settle_loop dnow txs (pending_orders dnow s) 0 s"

section \<open>The merchant\<close>

definition MerchantQueue :: "uuid \<Rightarrow> uuid \<Rightarrow> bool \<Rightarrow> int \<Rightarrow> orders_db \<Rightarrow> err + order_view list" where
  "MerchantQueue user i includeClosed limit s =
     (case Membership user i (o_merchants s) of
        Inl e \<Rightarrow> Inl e
      | Inr _ \<Rightarrow>
          let limit = (if limit \<le> 0 \<or> limit > 100 then 50 else limit)
          in Inr (map (withItems s) (take (nat limit) (sort_key (\<lambda>r. - od_created r)
               (filter (\<lambda>r. od_merchant r = i \<and> (includeClosed \<or> IsActive (od_state r))) (orders s))))))"

text \<open>The column updates of \<open>MerchantTransition\<close>, by the state to enter.\<close>

definition merchant_update :: "time \<Rightarrow> order_state \<Rightarrow> int \<Rightarrow> string \<Rightarrow> order \<Rightarrow> err + order" where
  "merchant_update dnow to prep reason r =
     (case to of
        OAccepted \<Rightarrow>
          let prep = (if prep < 5 \<or> prep > 180 then od_prep r else prep)
          in Inr (r\<lparr>od_state := OAccepted, od_accepted_at := Some dnow, od_prep := prep, od_ready_estimate := dnow + prep * Minute\<rparr>)
      | Preparing \<Rightarrow> Inr (r\<lparr>od_state := Preparing\<rparr>)
      | Ready \<Rightarrow> Inr (r\<lparr>od_state := Ready, od_ready_at := Some dnow\<rparr>)
      | Delivered \<Rightarrow> Inr (r\<lparr>od_state := Delivered, od_delivered_at := Some dnow, od_pay := PayPending\<rparr>)
      | OCancelled \<Rightarrow> Inr (r\<lparr>od_state := OCancelled, od_cancelled_by := Some ''merchant'', od_reason := Some reason,
                            od_pay := PayNone, od_cancelled_at := Some dnow\<rparr>)
      | Rejected \<Rightarrow> Inr (r\<lparr>od_state := Rejected, od_cancelled_by := Some ''merchant'', od_reason := Some reason,
                          od_pay := PayNone, od_cancelled_at := Some dnow\<rparr>)
      | _ \<Rightarrow> Inl ErrInvalidState)"

definition merchant_event :: "order_state \<Rightarrow> string" where
  "merchant_event to = (case to of OAccepted \<Rightarrow> ''OrderAccepted'' | Preparing \<Rightarrow> ''OrderPreparing'' | Ready \<Rightarrow> ''OrderReady''
     | Delivered \<Rightarrow> ''OrderDelivered'' | OCancelled \<Rightarrow> ''OrderCancelled'' | Rejected \<Rightarrow> ''OrderRejected'' | _ \<Rightarrow> [])"

definition merchant_tx :: "time \<Rightarrow> uuid \<Rightarrow> uuid \<Rightarrow> string \<Rightarrow> int \<Rightarrow> string \<Rightarrow> (orders_db, err, order) op" where
  "merchant_tx dnow user i to_name prep reason s =
     (case find_order i s of
        None \<Rightarrow> (Inl ErrNotFound, s)
      | Some r \<Rightarrow>
          (case Membership user (od_merchant r) (o_merchants s) of
             Inl _ \<Rightarrow> (Inl ErrNotFound, s)
           | Inr _ \<Rightarrow>
               (case map_of state_names to_name of
                  None \<Rightarrow> (Inl ErrInvalidState, s)
                | Some to \<Rightarrow>
                    if \<not> CanTransition (od_state r) to then (Inl ErrInvalidState, s)
                    else if to = Delivered \<and> od_fulfillment r = ''courier'' then (Inl ErrInvalidState, s)
                    else if (to = OCancelled \<or> to = Rejected) \<and> reason = []
                    then (Inl (ErrValidation [(''reason'', ''required'')]), s)
                    else (case merchant_update dnow to prep reason r of
                            Inl e \<Rightarrow> (Inl e, s)
                          | Inr r1 \<Rightarrow>
                              let r' = r1\<lparr>od_updated := dnow\<rparr>
                              in (Inr r', o_emit dnow i (merchant_event to)
                                    [(''order_id'', JStr i), (''code'', JStr (od_code r')), (''customer_id'', JStr (od_customer r')),
                                     (''merchant_id'', JStr (od_merchant r')), (''courier_id'', jopt (od_courier r')),
                                     (''by'', JStr ''merchant''), (''reason'', JStr reason),
                                     (''ready_at_estimate'', JInt (od_ready_estimate r')), (''fulfillment'', JStr (od_fulfillment r'))]
                                    (orderEvent dnow i (Some (od_state r)) to ''merchant'' (Some user)
                                       [(''reason'', JStr reason), (''prep_time_min'', JInt (od_prep r'))]
                                       (upd_order i (\<lambda>_. r') s)))))))"

definition MerchantTransition ::
  "time \<Rightarrow> uuid \<Rightarrow> uuid \<Rightarrow> uuid \<Rightarrow> string \<Rightarrow> int \<Rightarrow> string \<Rightarrow> (orders_db, err, order_view) op" where
  "MerchantTransition dnow txi user i to_name prep reason s =
     (case begin_func (merchant_tx dnow user i to_name prep (clip reason 200)) s of
        (Inl e, s1) \<Rightarrow> (Inl e, s1)
      | (Inr r, s1) \<Rightarrow>
          if od_state r = Delivered
          then let s2 = snd (settle dnow txi r s1)
               in (case find_order i s2 of None \<Rightarrow> (Inr (withItems s2 r), s2) | Some r' \<Rightarrow> (Inr (withItems s2 r'), s2))
          else (Inr (withItems s1 r), s1))"

section \<open>The courier\<close>

text \<open>\<open>Offers\<close>: the open offers to a courier with their orders and merchants.\<close>

definition Offers :: "time \<Rightarrow> uuid \<Rightarrow> orders_db \<Rightarrow> (offer \<times> order \<times> merchant) list" where
  "Offers dnow user s =
     sort_key (\<lambda>(x, _, _). of_created x) (List.map_filter
       (\<lambda>x. if of_driver x = user \<and> of_state x = Offered \<and> of_expires x > dnow then
              (case find (\<lambda>r. od_id r = of_subject x \<and> od_state r = Ready) (orders s) of
                 None \<Rightarrow> None
               | Some r \<Rightarrow> map_option (\<lambda>m. (x, r, m)) (merchant_row (od_merchant r) s))
            else None) (order_offers s))"

definition accept_tx :: "time \<Rightarrow> time \<Rightarrow> uuid \<Rightarrow> uuid \<Rightarrow> (orders_db, err, order) op" where
  "accept_tx gnow dnow user offerID s =
     (case find (\<lambda>x. of_id x = offerID \<and> of_driver x = user) (order_offers s) of
        None \<Rightarrow> (Inl ErrNotFound, s)
      | Some x \<Rightarrow>
          if of_state x \<noteq> Offered \<or> gnow > of_expires x then (Inl ErrOfferGone, s)
          else (case find_order (of_subject x) s of
                  None \<Rightarrow> (Inl NoRows, s)
                | Some r \<Rightarrow>
                    if od_state r \<noteq> Ready
                    then (Inl ErrOfferGone, s\<lparr>order_offers := respond dnow Withdrawn (\<lambda>y. of_id y = offerID) (order_offers s)\<rparr>)
                    else if exists_where (\<lambda>y. od_courier y = Some user \<and> CourierBusy (od_state y) \<and> od_id y \<noteq> od_id r) (orders s)
                    then (Inl ErrCourierAssigned, s)
                    else
                      let i = od_id r;
                          r' = r\<lparr>od_state := CourierAssigned, od_courier := Some user, od_updated := dnow\<rparr>;
                          s1 = upd_order i (\<lambda>_. r') s;
                          s2 = s1\<lparr>order_offers := respond dnow Withdrawn (\<lambda>y. of_subject y = i \<and> of_state y = Offered)
                                  (respond dnow Accepted (\<lambda>y. of_id y = offerID) (order_offers s1))\<rparr>
                      in (Inr r', o_emit dnow i ''OrderCourierAssigned''
                            [(''order_id'', JStr i), (''code'', JStr (od_code r')), (''customer_id'', JStr (od_customer r')),
                             (''merchant_id'', JStr (od_merchant r')), (''courier_id'', JStr user)]
                            (orderEvent dnow i (Some Ready) CourierAssigned ''courier'' (Some user) [(''offer_id'', JStr offerID)] s2))))"

text \<open>The marks in Redis, when the location service is configured.\<close>

definition mark_loc :: "orders_cfg \<Rightarrow> (loc_db \<Rightarrow> loc_db) \<Rightarrow> orders_db \<Rightarrow> orders_db" where
  "mark_loc cfg f s = (if oc_loc cfg then s\<lparr>o_loc := f (o_loc s)\<rparr> else s)"

definition AcceptOffer :: "orders_cfg \<Rightarrow> time \<Rightarrow> time \<Rightarrow> uuid \<Rightarrow> uuid \<Rightarrow> (orders_db, err, order_view) op" where
  "AcceptOffer cfg gnow dnow user offerID s =
     (case begin_func (accept_tx gnow dnow user offerID) s of
        (Inl e, s1) \<Rightarrow> (Inl e, s1)
      | (Inr r, s1) \<Rightarrow> (Inr (withItems s1 r), mark_loc cfg (SetBusyOrder gnow user (od_id r)) s1))"

definition DeclineOffer :: "time \<Rightarrow> uuid \<Rightarrow> uuid \<Rightarrow> (orders_db, err, unit) op" where
  "DeclineOffer dnow user offerID = begin_func (\<lambda>s.
     case find (\<lambda>x. of_id x = offerID \<and> of_driver x = user \<and> of_state x = Offered) (order_offers s) of
       None \<Rightarrow> (Inl ErrOfferGone, s)
     | Some x \<Rightarrow>
         (Inr (), o_emit dnow (of_subject x) ''OrderOfferDeclined''
            [(''order_id'', JStr (of_subject x)), (''courier_id'', JStr user), (''offer_id'', JStr offerID)]
            (s\<lparr>order_offers := respond dnow Declined (\<lambda>y. of_id y = offerID \<and> of_driver y = user \<and> of_state y = Offered) (order_offers s)\<rparr>)))"

definition ActiveForCourier :: "uuid \<Rightarrow> orders_db \<Rightarrow> order_view option" where
  "ActiveForCourier user s =
     map_option (withItems s) (find (\<lambda>r. od_courier r = Some user \<and> CourierBusy (od_state r)) (orders s))"

definition equalFold :: "string \<Rightarrow> string \<Rightarrow> bool" where
  "equalFold a b \<longleftrightarrow> length a = length b \<and> list_all2 (\<lambda>x y. to_upper x = to_upper y) a b"

definition courier_update :: "time \<Rightarrow> order_state \<Rightarrow> order \<Rightarrow> err + order" where
  "courier_update dnow to r =
     (case to of
        PickedUp \<Rightarrow> Inr (r\<lparr>od_state := PickedUp, od_picked_at := Some dnow\<rparr>)
      | Delivered \<Rightarrow> Inr (r\<lparr>od_state := Delivered, od_delivered_at := Some dnow, od_pay := PayPending\<rparr>)
      | Ready \<Rightarrow> Inr (r\<lparr>od_state := Ready, od_courier := None\<rparr>)
      | _ \<Rightarrow> Inl ErrInvalidState)"

definition courier_event :: "order_state \<Rightarrow> string" where
  "courier_event to = (case to of PickedUp \<Rightarrow> ''OrderPickedUp'' | Delivered \<Rightarrow> ''OrderDelivered''
     | Ready \<Rightarrow> ''OrderCourierReleased'' | _ \<Rightarrow> [])"

definition courier_tx :: "time \<Rightarrow> uuid \<Rightarrow> uuid \<Rightarrow> order_state \<Rightarrow> string \<Rightarrow> string \<Rightarrow> (orders_db, err, order) op" where
  "courier_tx dnow user i to code reason s =
     (case find (\<lambda>r. od_id r = i \<and> od_courier r = Some user) (orders s) of
        None \<Rightarrow> (Inl ErrNotFound, s)
      | Some r \<Rightarrow>
          if \<not> CanTransition (od_state r) to then (Inl ErrInvalidState, s)
          else if to = PickedUp \<and> \<not> equalFold code (od_code r) then (Inl ErrPickupCode, s)
          else (case courier_update dnow to r of
                  Inl e \<Rightarrow> (Inl e, s)
                | Inr r1 \<Rightarrow>
                    let r' = r1\<lparr>od_updated := dnow\<rparr>;
                        s1 = upd_order i (\<lambda>_. r') s;
                        s2 = (if to = Ready
                              then s1\<lparr>order_offers := respond dnow Declined (\<lambda>y. of_subject y = i \<and> of_driver y = user) (order_offers s1)\<rparr>
                              else s1)
                    in (Inr r', o_emit dnow i (courier_event to)
                          [(''order_id'', JStr i), (''code'', JStr (od_code r')), (''customer_id'', JStr (od_customer r')),
                           (''merchant_id'', JStr (od_merchant r')), (''courier_id'', JStr user), (''reason'', JStr reason)]
                          (orderEvent dnow i (Some (od_state r)) to ''courier'' (Some user) [(''reason'', JStr reason)] s2))))"

definition courierTransition ::
  "time \<Rightarrow> uuid \<Rightarrow> uuid \<Rightarrow> order_state \<Rightarrow> string \<Rightarrow> string \<Rightarrow> (orders_db, err, order_view) op" where
  "courierTransition dnow user i to code reason s =
     (case begin_func (courier_tx dnow user i to code reason) s of
        (Inl e, s1) \<Rightarrow> (Inl e, s1) | (Inr r, s1) \<Rightarrow> (Inr (withItems s1 r), s1))"

definition PickUp :: "time \<Rightarrow> uuid \<Rightarrow> uuid \<Rightarrow> string \<Rightarrow> (orders_db, err, order_view) op" where
  "PickUp dnow user i code = courierTransition dnow user i PickedUp code []"

definition Deliver :: "orders_cfg \<Rightarrow> time \<Rightarrow> time \<Rightarrow> uuid \<Rightarrow> uuid \<Rightarrow> uuid \<Rightarrow> (orders_db, err, order_view) op" where
  "Deliver cfg gnow dnow txi user i s =
     (case courierTransition dnow user i Delivered [] [] s of
        (Inl e, s1) \<Rightarrow> (Inl e, s1)
      | (Inr v, s1) \<Rightarrow>
          let s2 = mark_loc cfg (SetAvailable gnow user) s1;
              s3 = snd (settle dnow txi (ov_order v) s2)
          in (case find_order i s3 of None \<Rightarrow> (Inl NoRows, s3) | Some r \<Rightarrow> (Inr (withItems s3 r), s3)))"

definition ReleaseByCourier :: "orders_cfg \<Rightarrow> time \<Rightarrow> time \<Rightarrow> uuid \<Rightarrow> uuid \<Rightarrow> string \<Rightarrow> (orders_db, err, order_view) op" where
  "ReleaseByCourier cfg gnow dnow user i reason s =
     (case courierTransition dnow user i Ready [] (clip reason 200) s of
        (Inl e, s1) \<Rightarrow> (Inl e, s1)
      | (Inr v, s1) \<Rightarrow> (Inr v, mark_loc cfg (SetAvailable gnow user) s1))"

end
