(* ===== verification/OrderDispatch.thy ===== *)
theory OrderDispatch
  imports Orders
begin

text \<open>
  \<open>modules/orders/dispatch.go\<close>: offering the delivery of an order that is ready to couriers, one at a
  time. Couriers are drivers of the category economy. The search in Redis also cleans its index of
  stale drivers, which survives a rollback of the transaction.
\<close>

definition OfferTTL :: time where "OfferTTL = 25 * Second"
definition SearchRadiusKm :: real where "SearchRadiusKm = 5"
definition Category :: string where "Category = ''economy''"
definition Timeout :: time where "Timeout = 10 * Minute"

definition urbanSpeed :: real where "urbanSpeed = 25000 / 3600"
definition detourFactor :: real where "detourFactor = 1.3"

definition courier_eta :: "real \<Rightarrow> int" where
  "courier_eta d = (let eta = \<lfloor>d * detourFactor / urbanSpeed\<rfloor> in if eta < 60 then 60 else eta)"

text \<open>The query of eligibility: an approved driver without a ride, a delivery or an open offer.\<close>

definition eligible_courier :: "time \<Rightarrow> orders_db \<Rightarrow> uuid \<Rightarrow> bool" where
  "eligible_courier dnow s d \<longleftrightarrow>
     exists_where (\<lambda>p. UserID p = d \<and> DStatus p = Approved_status) (profiles (o_drivers s)) \<and>
     \<not> exists_where (\<lambda>r. rd_driver r = Some d \<and> DriverBusy (rd_state r)) (o_rides s) \<and>
     \<not> exists_where (\<lambda>r. od_courier r = Some d \<and> CourierBusy (od_state r)) (orders s) \<and>
     \<not> exists_where (\<lambda>x. of_driver x = d \<and> of_state x = Offered \<and> of_expires x > dnow) (order_offers s)"

definition offer_order :: "time \<Rightarrow> time \<Rightarrow> uuid \<Rightarrow> uuid \<Rightarrow> nat \<Rightarrow> candidate \<Rightarrow> (orders_db, err, bool) op" where
  "offer_order gnow dnow offerID i rnd c s =
     (if exists_where (\<lambda>x. of_id x = offerID \<or> of_subject x = i \<and> of_driver x = DriverID c) (order_offers s) then (Inl PgUnique, s)
      else (Inr True, o_emit dnow i ''OrderOffered''
             [(''order_id'', JStr i), (''courier_id'', JStr (DriverID c)), (''offer_id'', JStr offerID),
              (''expires_at'', JInt (gnow + OfferTTL)), (''round'', JInt (int rnd + 1))]
             (s\<lparr>order_offers := order_offers s @ [\<lparr>of_id = offerID, of_subject = i, of_driver = DriverID c,
                 of_round = int rnd + 1, of_state = Offered, of_distance = \<lfloor>DistanceM c\<rfloor>, of_eta = courier_eta (DistanceM c),
                 of_expires = gnow + OfferTTL, of_responded = None, of_created = dnow\<rparr>]\<rparr>)))"

definition pick_courier :: "time \<Rightarrow> uuid list \<Rightarrow> orders_db \<Rightarrow> candidate list \<Rightarrow> candidate option" where
  "pick_courier dnow excluded s cands =
     find (\<lambda>c. DriverID c \<notin> set excluded \<and> eligible_courier dnow s (DriverID c)) cands"

text \<open>The alert to operations when no courier was found in time: once, recorded in the journal.\<close>

definition alert_no_courier :: "time \<Rightarrow> uuid \<Rightarrow> orders_db \<Rightarrow> orders_db" where
  "alert_no_courier dnow i s =
     (if exists_where (\<lambda>e. jn_subject e = i \<and> jn_to e = Ready \<and> jn_actor_type e = ''system'') (order_journal s) then s
      else o_emit dnow i ''OrderNoCourier'' [(''order_id'', JStr i)]
             (orderEvent dnow i (Some Ready) Ready ''system'' None [(''no_courier'', JBool True)] s))"

definition round_tx :: "geo_search \<Rightarrow> time \<Rightarrow> time \<Rightarrow> uuid \<Rightarrow> uuid \<Rightarrow> (orders_db, err, bool) op" where
  "round_tx gs gnow dnow offerID i s =
     (case find_order i s of
        None \<Rightarrow> (Inl NoRows, s)
      | Some r \<Rightarrow>
          (case merchant_row (od_merchant r) s of
             None \<Rightarrow> (Inl NoRows, s)
           | Some m \<Rightarrow>
               if od_state r \<noteq> Ready \<or> od_fulfillment r \<noteq> ''courier'' then (Inr False, s)
               else if open_offers dnow i (order_offers s) > 0 then (Inr False, s)
               else if (case od_ready_at r of None \<Rightarrow> False | Some t \<Rightarrow> gnow - t > Timeout)
               then (Inr False, alert_no_courier dnow i s)
               else
                 let excluded = map of_driver (filter (\<lambda>x. of_subject x = i) (order_offers s));
                     rnd = count_where (\<lambda>x. of_subject x = i) (order_offers s);
                     (cands, l) = Nearest gs gnow Category (me_location m) SearchRadiusKm 10 (o_loc s);
                     s1 = s\<lparr>o_loc := l\<rparr>
                 in (case pick_courier dnow excluded s1 cands of
                       None \<Rightarrow> (Inr False, s1)
                     | Some c \<Rightarrow> offer_order gnow dnow offerID i rnd c s1)))"

definition Round :: "geo_search \<Rightarrow> time \<Rightarrow> time \<Rightarrow> uuid \<Rightarrow> uuid \<Rightarrow> (orders_db, err, bool) op" where
  "Round gs gnow dnow offerID i s =
     (case begin_func (round_tx gs gnow dnow offerID i) s of
        (Inl e, s1) \<Rightarrow> (Inl e, s1\<lparr>o_loc := o_loc (snd (round_tx gs gnow dnow offerID i s))\<rparr>)
      | (Inr b, s1) \<Rightarrow> (Inr b, s1))"

text \<open>The statistics are those of the ride dispatcher: offers expired, rounds made, offers made.\<close>

fun emit_expired :: "time \<Rightarrow> offer list \<Rightarrow> orders_db \<Rightarrow> orders_db" where
  "emit_expired dnow [] s = s"
| "emit_expired dnow (x # xs) s = emit_expired dnow xs (o_emit dnow (of_subject x) ''OrderOfferExpired''
     [(''order_id'', JStr (of_subject x)), (''courier_id'', JStr (of_driver x)), (''offer_id'', JStr (of_id x))] s)"

fun sweep_rounds :: "geo_search \<Rightarrow> time \<Rightarrow> time \<Rightarrow> (nat \<Rightarrow> uuid) \<Rightarrow> uuid list \<Rightarrow> sweep_stats \<Rightarrow>
    (orders_db, err \<times> sweep_stats, sweep_stats) op" where
  "sweep_rounds gs gnow dnow ids [] st s = (Inr st, s)"
| "sweep_rounds gs gnow dnow ids (i # is) st s =
     (let st1 = st\<lparr>swRounds := swRounds st + 1\<rparr>
      in case Round gs gnow dnow (ids (swRounds st)) i s of
           (Inl e, s1) \<Rightarrow> (Inl (e, st1), s1)
         | (Inr b, s1) \<Rightarrow> sweep_rounds gs gnow dnow ids is (if b then st1\<lparr>swOffered := swOffered st1 + 1\<rparr> else st1) s1)"

text \<open>\<open>ORDER BY ready_at\<close> puts rows without a time last.\<close>

definition Sweep :: "geo_search \<Rightarrow> time \<Rightarrow> time \<Rightarrow> (nat \<Rightarrow> uuid) \<Rightarrow> (orders_db, err \<times> sweep_stats, sweep_stats) op" where
  "Sweep gs gnow dnow ids s =
     (let expired = filter (overdue dnow) (order_offers s);
          s1 = emit_expired dnow expired (s\<lparr>order_offers := respond dnow Expired (overdue dnow) (order_offers s)\<rparr>);
          waiting = filter (\<lambda>r. od_state r = Ready \<and> od_fulfillment r = ''courier'' \<and> open_offers dnow (od_id r) (order_offers s1) = 0) (orders s1);
          is = map od_id (take 200 (sort_key (\<lambda>r. case od_ready_at r of Some t \<Rightarrow> t | None \<Rightarrow> 0) (filter (\<lambda>r. od_ready_at r \<noteq> None) waiting)
                 @ filter (\<lambda>r. od_ready_at r = None) waiting))
      in sweep_rounds gs gnow dnow ids is \<lparr>swExpired = length expired, swRounds = 0, swOffered = 0\<rparr> s1)"

end
