(* ===== verification/OrderSafety.thy ===== *)
theory OrderSafety
  imports OrderDispatch
begin

text \<open>
  The protocol of orders. Every handler of the customer, the merchant and the courier, the settlement
  and the dispatcher is a sequence of moves of the common protocol on the table of orders and its
  journal; everything else on the platform may change at will in between. From that follow the
  invariant of the table, one delivery at a time for a courier, the finality of finished orders, and
  that the orders refine the table of transitions.
\<close>

section \<open>Orders follow the common protocol\<close>

text \<open>The alert of the dispatcher is a line from ready to ready in the journal.\<close>

definition journal_table :: "order_state \<Rightarrow> order_state list" where
  "journal_table s = (if s = Ready then Ready # transitions s else transitions s)"

definition order_fixed where
  "order_fixed r = (od_id r, (od_customer r, od_idem r), od_code r, od_merchant r, od_method r, od_fulfillment r,
     (od_items_total r, od_fee r, od_discount r, od_total r), od_currency r, od_coupon r, od_created r)"

definition order_final where
  "order_final r = (od_cancelled_by r, od_reason r, od_accepted_at r, od_ready_at r, od_picked_at r, od_delivered_at r, od_cancelled_at r)"

text \<open>What a row promises: its totals, and how far the payment is, depending on the state.\<close>

definition order_ok :: "order \<Rightarrow> bool" where
  "order_ok r \<longleftrightarrow> order_checks r \<and> od_total r = sub64 (add64 (od_items_total r) (od_fee r)) (od_discount r) \<and>
     (CourierBusy (od_state r) \<longrightarrow> od_courier r \<noteq> None) \<and>
     (\<not> IsTerminal (od_state r) \<longrightarrow> od_pay r = PayPending) \<and>
     (od_state r = OCancelled \<or> od_state r = Rejected \<longrightarrow> od_pay r = PayNone) \<and>
     (od_pay r = PayPaid \<longrightarrow> od_method r = Wallet) \<and> (od_pay r = PayCash \<longrightarrow> od_method r \<noteq> Wallet) \<and>
     (od_pay r = PayNone \<longrightarrow> od_state r \<noteq> Delivered)"

lemma order_ok_pending: "order_ok r \<Longrightarrow> \<not> IsTerminal (od_state r) \<Longrightarrow> od_pay r = PayPending"
  by (simp add: order_ok_def)

interpretation om: courier_protocol journal_table PendingMerchant IsTerminal od_id od_state od_courier
  "\<lambda>r. (od_customer r, od_idem r)" order_fixed order_final CourierBusy order_ok
proof
  fix s show "IsTerminal s \<Longrightarrow> journal_table s = []" by (auto simp: IsTerminal_def journal_table_def)
  show "journal_table s = [] \<Longrightarrow> IsTerminal s" by (cases s) (auto simp: IsTerminal_def journal_table_def)
next
  fix r r' :: order assume "order_fixed r = order_fixed r'"
  then show "od_id r = od_id r'" "(od_customer r, od_idem r) = (od_customer r', od_idem r')"
    by (simp_all add: order_fixed_def)
qed (auto simp: IsTerminal_def CourierBusy_def order_ok_def)

lemma journal_table_step: "CanTransition s t \<Longrightarrow> can_transition journal_table s t"
  by (auto simp: CanTransition_def can_transition_def journal_table_def)

lemma CanTransition_open: "CanTransition s t \<Longrightarrow> \<not> IsTerminal s"
  by (cases s) (auto simp: CanTransition_def can_transition_def IsTerminal_def)

abbreviation otab :: "orders_db \<Rightarrow> (order, order_state) tables" where
  "otab s \<equiv> (orders s, order_journal s)"

lemma order_frame [frame_simps, simp]:
  "orders (o_emit dnow i ev b s) = orders s" "order_journal (o_emit dnow i ev b s) = order_journal s"
  "orders (mark_loc cfg f s) = orders s" "order_journal (mark_loc cfg f s) = order_journal s"
  "orders (orderEvent dnow i from to aty a meta s) = orders s"
  "order_journal (orderEvent dnow i from to aty a meta s) = order_journal s @ [\<lparr>jn_subject = i, jn_from = from, jn_to = to,
     jn_actor_type = aty, jn_actor = a, jn_meta = meta, jn_created = dnow\<rparr>]"
  "orders (upd_order i g s) = upd_where (\<lambda>r. od_id r = i) g (orders s)" "order_journal (upd_order i g s) = order_journal s"
  by (simp_all add: o_emit_def mark_loc_def orderEvent_def upd_order_def)

text \<open>A transition of the row found by its identifier, with its line in the journal.\<close>

lemma order_moves:
  assumes "om.inv (otab s)" "find P (orders s) = Some r" "od_id r = i" "CanTransition (od_state r) (od_state r')"
    "order_fixed r' = order_fixed r" "order_ok r'"
    "CourierBusy (od_state r') \<longrightarrow> CourierBusy (od_state r) \<and> od_courier r' = od_courier r \<or>
       (\<forall>x \<in> set (orders s). od_id x \<noteq> i \<longrightarrow> CourierBusy (od_state x) \<longrightarrow> od_courier x \<noteq> od_courier r')"
    "orders s' = upd_where (\<lambda>x. od_id x = i) (\<lambda>_. r') (orders s)"
    "order_journal s' = order_journal s @ [e]" "jn_subject e = i" "jn_from e = Some (od_state r)" "jn_to e = od_state r'"
  shows "om.move\<^sup>*\<^sup>* (otab s) (otab s')"
  using om.found_moves[OF assms(1-3) journal_table_step[OF assms(4)] assms(5-7,10-12,8,9)] .

lemma insert_attempts_Inr:
  "insert_attempts b mk codes t = Inr r \<Longrightarrow> \<exists>code. r = mk code \<and> order_checks r \<and>
     (\<forall>x \<in> set t. od_id x \<noteq> od_id r \<and> od_code x \<noteq> od_code r \<and>
        (od_customer x, od_idem x) \<noteq> (od_customer r, od_idem r))"
proof (induction codes arbitrary: b)
  case (Cons code codes)
  show ?case
  proof (cases "exists_where (\<lambda>x. od_code x = od_code (mk code)) t")
    case True
    then have "\<exists>b. insert_attempts b mk codes t = Inr r" using Cons.prems by (auto simp: Let_def split: if_splits)
    then show ?thesis using Cons.IH by blast
  next
    case False
    then show ?thesis using Cons.prems by (auto simp: Let_def exists_where_iff split: if_splits)
  qed
qed simp

lemma price_total:
  assumes "price cfg dz gnow dnow user inp s = Inr (q, m)"
  shows "oqTotal q = sub64 (add64 (oqItemsTotal q) (oqFee q)) (oqDiscount q)"
  using assms by (auto simp: price_def Let_def split: if_splits option.splits sum.splits)

text \<open>\<open>Create\<close> refuses, returns the order of an earlier request, or runs its transaction on a priced cart.\<close>

lemma Create_cases:
  obtains (refused) e where "Create cfg dz gnow dnow i codes user key inp s = (Inl e, s)"
  | (known) k pm inp' r where "validate_checkout key inp = Inr (k, pm, inp')" "find (\<lambda>r. od_customer r = user \<and> od_idem r = k) (orders s) = Some r"
      "Create cfg dz gnow dnow i codes user key inp s = (Inr (withItems s r), s)"
  | (tx) k pm inp' q m where "validate_checkout key inp = Inr (k, pm, inp')" "find (\<lambda>r. od_customer r = user \<and> od_idem r = k) (orders s) = None"
      "price cfg dz gnow dnow user inp' s = Inr (q, m)"
      "oqOpen q" "\<not> oqItemsTotal q < me_min_order m" "chosen_fulfillment inp' m = ''pickup'' \<or> \<not> address_missing inp'"
      "pm = Wallet \<longrightarrow> oqTotal q \<le> bal_or_zero (UserWalletCode user) (o_core s)"
      "Create cfg dz gnow dnow i codes user key inp s =
         (case begin_func (create_tx gnow dnow i codes user k pm inp' q m) s of
            (Inl e, s1) \<Rightarrow> (Inl e, s1) | (Inr r, s1) \<Rightarrow> (Inr (withItems s1 r), s1))"
proof (cases "validate_checkout key inp")
  case (Inl e)
  then show ?thesis by (intro refused[of e]) (simp add: Create_def)
next
  case v: (Inr a)
  obtain k pm inp' where a: "a = (k, pm, inp')" by (cases a)
  show ?thesis
  proof (cases "find (\<lambda>r. od_customer r = user \<and> od_idem r = k) (orders s)")
    case (Some r)
    then show ?thesis using v a by (intro known[of k pm inp' r]) (simp_all add: Create_def)
  next
    case f: None
    show ?thesis
    proof (cases "price cfg dz gnow dnow user inp' s")
      case (Inl e)
      then show ?thesis using v a f by (intro refused[of e]) (simp add: Create_def)
    next
      case p: (Inr b)
      obtain q m where b: "b = (q, m)" by (cases b)
      show ?thesis
      proof (cases "\<not> oqOpen q \<or> oqItemsTotal q < me_min_order m \<or> (chosen_fulfillment inp' m \<noteq> ''pickup'' \<and> address_missing inp') \<or>
          (pm = Wallet \<and> bal_or_zero (UserWalletCode user) (o_core s) < oqTotal q)")
        case True
        then have "\<exists>e. Create cfg dz gnow dnow i codes user key inp s = (Inl e, s)" using v a f p b by (auto simp: Create_def)
        then show ?thesis using refused by blast
      next
        case False
        then show ?thesis using v a f p b by (intro tx) (auto simp: Create_def)
      qed
    qed
  qed
qed

lemma Create_moves:
  assumes "om.inv (otab s)"
  shows "om.move\<^sup>*\<^sup>* (otab s) (otab (snd (Create cfg dz gnow dnow i codes user key inp s)))"
proof -
  have txm: "om.move\<^sup>*\<^sup>* (otab s) (otab s')"
    if "oqTotal q = sub64 (add64 (oqItemsTotal q) (oqFee q)) (oqDiscount q)"
      "create_tx gnow dnow i codes user k pm inp' q m s = (Inr r, s')" for q k pm inp' m r s'
  proof -
    from that(2) obtain r0 p where r0: "insert_attempts False (\<lambda>code. new_order gnow dnow i code user k pm inp' q m) (take 5 codes) (orders s) = Inr r0"
      and o: "orders s' = orders s @ [r0]" and j: "\<exists>e. order_journal s' = order_journal s @ [e] \<and> jn_subject e = i \<and> jn_from e = None \<and> jn_to e = PendingMerchant"
      by (auto simp: create_tx_def Let_def split: sum.splits prod.splits)
    obtain code where mk: "r0 = new_order gnow dnow i code user k pm inp' q m" and ck: "order_checks r0"
      and new: "\<forall>x \<in> set (orders s). od_id x \<noteq> od_id r0 \<and> (od_customer x, od_idem x) \<noteq> (od_customer r0, od_idem r0)"
      using insert_attempts_Inr[OF r0] by blast
    have st: "od_state r0 = PendingMerchant" "od_id r0 = i" "order_ok r0"
      using mk ck that(1) by (simp_all add: new_order_def order_ok_def CourierBusy_def IsTerminal_def)
    from j obtain e where e: "order_journal s' = order_journal s @ [e]" "jn_subject e = od_id r0" "jn_from e = None" "jn_to e = PendingMerchant"
      using st(2) by auto
    have "om.move (otab s) (orders s @ [r0], order_journal s @ [e])"
      by (rule om.move.insert[OF st(1,3) new e(2-4)])
    then show ?thesis unfolding o e(1) by (rule r_into_rtranclp)
  qed
  show ?thesis
  proof (cases rule: Create_cases[of cfg dz gnow dnow i codes user key inp s])
    case (tx k pm inp' q m)
    have e: "snd (Create cfg dz gnow dnow i codes user key inp s) = snd (begin_func (create_tx gnow dnow i codes user k pm inp' q m) s)"
      unfolding tx(8) by simp
    show ?thesis unfolding e by (rule om.tx_moves[where tab = otab]) (rule txm[OF price_total[OF tx(3)]])
  qed simp_all
qed

section \<open>The handlers as moves\<close>

lemma cancel_moves:
  assumes "om.inv (otab s)"
  shows "om.move\<^sup>*\<^sup>* (otab s) (otab (snd (CancelByCustomer dnow user i reason s)))"
proof -
  have "om.move\<^sup>*\<^sup>* (otab s) (otab s')" if t: "cancel_tx dnow user i rs s = (Inr r', s')" for rs r' s'
  proof -
    obtain r where f: "find (\<lambda>r. od_id r = i \<and> od_customer r = user) (orders s) = Some r" and c: "CustomerCanCancel (od_state r)"
      using t by (auto simp: cancel_tx_def split: option.splits if_splits)
    have r: "r \<in> set (orders s)" "od_id r = i" using find_SomeD[OF f] by auto
    have ct: "CanTransition (od_state r) OCancelled" using c by (auto simp: CustomerCanCancel_def CanTransition_def can_transition_def)
    let ?r = "r\<lparr>od_state := OCancelled, od_cancelled_by := Some ''customer'', od_reason := nullable rs,
                       od_pay := PayNone, od_cancelled_at := Some dnow, od_updated := dnow\<rparr>"
    have "order_ok ?r" using om.inv_D(3)[OF assms r(1)] by (simp add: order_ok_def order_checks_def CourierBusy_def IsTerminal_def)
    then show ?thesis
      using t f c ct by (intro order_moves[OF assms f r(2), where r' = ?r]) (auto simp: cancel_tx_def order_fixed_def CourierBusy_def Let_def)
  qed
  then have "om.move\<^sup>*\<^sup>* (otab s) (otab (snd (begin_func (cancel_tx dnow user i (clip reason 200)) s)))"
    by (intro om.tx_moves[where tab = otab]) blast
  then show ?thesis by (simp add: CancelByCustomer_def)
qed

lemma merchant_update_ok:
  assumes "merchant_update dnow to prep reason r = Inr r1" "order_ok r" "CanTransition (od_state r) to"
  shows "order_ok (r1\<lparr>od_updated := t\<rparr>)" "order_fixed (r1\<lparr>od_updated := t\<rparr>) = order_fixed r" "od_state r1 = to" "\<not> CourierBusy to"
    "od_id r1 = od_id r" "od_courier r1 = od_courier r" "od_method r1 = od_method r" "to = Delivered \<Longrightarrow> od_pay r1 = PayPending"
proof -
  have "\<not> IsTerminal (od_state r)" using assms(3) by (rule CanTransition_open)
  then show "order_ok (r1\<lparr>od_updated := t\<rparr>)" "order_fixed (r1\<lparr>od_updated := t\<rparr>) = order_fixed r" "od_state r1 = to" "\<not> CourierBusy to"
    "od_id r1 = od_id r" "od_courier r1 = od_courier r" "od_method r1 = od_method r" "to = Delivered \<Longrightarrow> od_pay r1 = PayPending"
    using assms(1,2) unfolding merchant_update_def
    by (cases to; clarsimp simp: order_ok_def order_checks_def CourierBusy_def IsTerminal_def order_fixed_def Let_def)+
qed

lemma merchant_tx_cases:
  assumes "merchant_tx dnow user i to_name prep reason s = (Inr r', s')"
  obtains r to r1 where "find_order i s = Some r" "CanTransition (od_state r) to" "merchant_update dnow to prep reason r = Inr r1"
    "r' = r1\<lparr>od_updated := dnow\<rparr>" "orders s' = upd_where (\<lambda>x. od_id x = i) (\<lambda>_. r') (orders s)"
    "\<exists>e. order_journal s' = order_journal s @ [e] \<and> jn_subject e = i \<and> jn_from e = Some (od_state r) \<and> jn_to e = to"
    "Membership user (od_merchant r) (o_merchants s) \<noteq> Inl ErrNotMember" "\<not> (to = Delivered \<and> od_fulfillment r = ''courier'')"
    "map_of state_names to_name = Some to" "o_loc s' = o_loc s"
  using assms unfolding merchant_tx_def
  by (auto simp: Let_def orderEvent_def upd_order_def o_emit_def split: option.splits sum.splits if_splits)

lemma merchant_tx_moves:
  assumes "om.inv (otab s)" "merchant_tx dnow user i to_name prep reason s = (Inr r', s')"
  shows "om.move\<^sup>*\<^sup>* (otab s) (otab s')" "r' \<in> set (orders s')" "od_id r' = i"
proof -
  from merchant_tx_cases[OF assms(2)] obtain r to r1 where c: "find_order i s = Some r" "CanTransition (od_state r) to"
    "merchant_update dnow to prep reason r = Inr r1" "r' = r1\<lparr>od_updated := dnow\<rparr>"
    "orders s' = upd_where (\<lambda>x. od_id x = i) (\<lambda>_. r') (orders s)"
    and j: "\<exists>e. order_journal s' = order_journal s @ [e] \<and> jn_subject e = i \<and> jn_from e = Some (od_state r) \<and> jn_to e = to"
    by metis
  have r: "r \<in> set (orders s)" "od_id r = i" using find_SomeD[OF c(1)[unfolded find_order_def]] by auto
  note u = merchant_update_ok[OF c(3) om.inv_D(3)[OF assms(1) r(1)] c(2)]
  from j obtain e where e: "order_journal s' = order_journal s @ [e]" "jn_subject e = i" "jn_from e = Some (od_state r)" "jn_to e = to" by blast
  show "om.move\<^sup>*\<^sup>* (otab s) (otab s')"
    using u c(2,4) e by (intro order_moves[OF assms(1) c(1)[unfolded find_order_def] r(2) _ _ _ _ c(5) e(1)]) auto
  show "od_id r' = i" using u(5) r(2) c(4) by simp
  show "r' \<in> set (orders s')" using r unfolding c(5) by (auto simp: set_upd_where)
qed

text \<open>Settling changes the payment of one row, which is delivered.\<close>

definition paying :: "pay_status \<Rightarrow> (int option \<Rightarrow> int option) \<Rightarrow> order \<Rightarrow> order" where
  "paying st g x = x\<lparr>od_pay := st, od_commission := g (od_commission x)\<rparr>"

lemma paying_eqs:
  "(\<lambda>x. x\<lparr>od_pay := st\<rparr>) = paying st id" "(\<lambda>x. x\<lparr>od_pay := st, od_commission := Some com\<rparr>) = paying st (\<lambda>_. Some com)"
  by (simp_all add: paying_def fun_eq_iff)

lemma set_payment_failed:
  "set_payment dnow i (od_pay_update (\<lambda>_. PayFailed)) s = set_payment dnow i (paying PayFailed id) s"
  by (simp add: set_payment_def paying_def)

lemma set_payment_moves:
  assumes "om.inv (otab s)" "\<forall>x \<in> set (orders s). od_id x = i \<longrightarrow> od_state x = Delivered \<and>
      (st = PayPaid \<longrightarrow> od_method x = Wallet) \<and> (st = PayCash \<longrightarrow> od_method x \<noteq> Wallet)" "st \<noteq> PayNone"
  shows "om.move\<^sup>*\<^sup>* (otab s) (otab (set_payment dnow i (paying st g) s))"
proof -
  let ?f = "\<lambda>x. if od_id x = i \<and> od_pay x = PayPending then (paying st g x)\<lparr>od_updated := dnow\<rparr> else x"
  have "order_fixed (?f x) = order_fixed x \<and> order_final (?f x) = order_final x \<and> od_state (?f x) = od_state x \<and>
      od_courier (?f x) = od_courier x \<and> order_ok (?f x)" if x: "x \<in> set (orders s)" for x
  proof (cases "od_id x = i \<and> od_pay x = PayPending")
    case True
    then have "od_state x = Delivered" "st = PayPaid \<longrightarrow> od_method x = Wallet" "st = PayCash \<longrightarrow> od_method x \<noteq> Wallet"
      using assms(2) x by blast+
    then show ?thesis
      using True om.inv_D(3)[OF assms(1) x] assms(3)
      by (simp add: paying_def order_fixed_def order_final_def order_ok_def order_checks_def IsTerminal_def CourierBusy_def)
  next
    case False
    then have "?f x = x" by (rule if_not_P)
    then show ?thesis using om.inv_D(3)[OF assms(1) x] by simp
  qed
  then have "om.move (otab s) (map ?f (orders s), order_journal s)" by (intro om.move.adjust) blast
  then show ?thesis by (auto simp: set_payment_def upd_where_def)
qed

definition same_lives :: "orders_db \<Rightarrow> orders_db \<Rightarrow> bool" where
  "same_lives s s' \<longleftrightarrow> map (\<lambda>x. (od_id x, od_state x, od_method x)) (orders s') = map (\<lambda>x. (od_id x, od_state x, od_method x)) (orders s)"

definition delivered_row :: "order \<Rightarrow> orders_db \<Rightarrow> bool" where
  "delivered_row r s \<longleftrightarrow> (\<forall>x \<in> set (orders s). od_id x = od_id r \<longrightarrow> od_state x = Delivered \<and> od_method x = od_method r)"

lemma same_lives_refl [simp]: "same_lives s s" by (simp add: same_lives_def)

lemma same_lives_row:
  assumes "same_lives s s'" "delivered_row r s" shows "delivered_row r s'"
proof -
  define k where "k = (\<lambda>x :: order. (od_id x, od_state x, od_method x))"
  have eq: "set (map k (orders s')) = set (map k (orders s))" using assms(1) unfolding same_lives_def k_def by (rule arg_cong)
  have "od_state x = Delivered \<and> od_method x = od_method r" if x: "x \<in> set (orders s')" "od_id x = od_id r" for x
  proof -
    have "k x \<in> set (map k (orders s))" using x(1) unfolding eq[symmetric] by simp
    then obtain y where "y \<in> set (orders s)" "k x = k y" by auto
    then show ?thesis using assms(2) x(2) unfolding delivered_row_def k_def by simp
  qed
  then show ?thesis unfolding delivered_row_def by blast
qed

lemma set_payment_lives: "same_lives s (set_payment dnow i (paying st g) s)"
  by (simp add: same_lives_def set_payment_def upd_where_def paying_def)

lemma same_lives_trans: "same_lives s t \<Longrightarrow> same_lives t u \<Longrightarrow> same_lives s u"
  by (simp add: same_lives_def)

text \<open>The three ways in which \<open>settle\<close> ends.\<close>

lemma settle_plan_status:
  "settle_plan r com c = Pay st txo \<Longrightarrow> (st = PayPaid \<and> od_method r = Wallet) \<or> (st = PayCash \<and> od_method r \<noteq> Wallet)"
  by (auto simp: settle_plan_def split: if_splits sum.splits)

lemma settle_cases:
  obtains (kept) "orders (snd (settle dnow txi r s)) = orders s" "order_journal (snd (settle dnow txi r s)) = order_journal s"
  | (paid) st g s1 where "otab s1 = otab s" "otab (snd (settle dnow txi r s)) = otab (set_payment dnow (od_id r) (paying st g) s1)"
      "st \<noteq> PayNone" "st = PayPaid \<longrightarrow> od_method r = Wallet" "st = PayCash \<longrightarrow> od_method r \<noteq> Wallet"
proof (cases "(od_state r \<noteq> Delivered \<or> od_pay r \<noteq> PayPending) \<or> merchant_row (od_merchant r) s = None")
  case True
  then show ?thesis by (intro kept) (auto simp: settle_def)
next
  case False
  then obtain m where m: "merchant_row (od_merchant r) s = Some m" "od_state r = Delivered" "od_pay r = PayPending" by auto
  define com where "com = order_commission r m"
  define s1 where "s1 = s\<lparr>o_core := EnsureAccount (MerchantWalletCode (od_merchant r)) ''merchant'' (Some (od_merchant r))
                     ''liability'' (od_currency r) (o_core s)\<rparr>"
  have t: "otab s1 = otab s" by (simp add: s1_def)
  have e: "settle dnow txi r s = (case settle_plan r com (o_core s1) of
                Reject e \<Rightarrow> (Inl e, s1)
              | Fail_payment \<Rightarrow> (Inr (), set_payment dnow (od_id r) (\<lambda>x. x\<lparr>od_pay := PayFailed\<rparr>) s1)
              | Pay st None \<Rightarrow> finish_settlement dnow r st com s1
              | Pay st (Some tx) \<Rightarrow>
                  (case Post dnow txi tx (o_core s1) of
                     (Inl e, c) \<Rightarrow> (Inl e, s1\<lparr>o_core := c\<rparr>)
                   | (Inr _, c) \<Rightarrow> finish_settlement dnow r st com (s1\<lparr>o_core := c\<rparr>)))"
    unfolding com_def s1_def using m by (simp add: settle_def Let_def)
  have fin: "otab (snd (finish_settlement dnow r st com u)) = otab (set_payment dnow (od_id r) (paying st (\<lambda>_. Some com)) u)" for st u
    by (simp add: finish_settlement_def begin_func_def paying_eqs(2))
  show ?thesis
  proof (cases "settle_plan r com (o_core s1)")
    case (Reject e')
    then show ?thesis using e t by (intro kept) simp_all
  next
    case Fail_payment
    then show ?thesis using e t by (intro paid[of s1 PayFailed id]) (simp_all add: set_payment_failed)
  next
    case (Pay st txo)
    note P = settle_plan_status[OF Pay]
    show ?thesis
    proof (cases txo)
      case None
      then show ?thesis using e t Pay P fin by (intro paid[of s1 st "\<lambda>_. Some com"]) auto
    next
      case (Some tx)
      obtain res c where pc: "Post dnow txi tx (o_core s1) = (res, c)" by (cases "Post dnow txi tx (o_core s1)")
      show ?thesis
      proof (cases res)
        case (Inl e')
        then show ?thesis using e t Pay Some pc by (intro kept) simp_all
      next
        case (Inr i)
        then show ?thesis using e t Pay Some pc P fin by (intro paid[of "s1\<lparr>o_core := c\<rparr>" st "\<lambda>_. Some com"]) auto
      qed
    qed
  qed
qed

lemma otab_eq: "otab s = otab t \<longleftrightarrow> orders s = orders t \<and> order_journal s = order_journal t" by simp

lemma order_settle_moves:
  assumes "om.inv (otab s)" "delivered_row r s"
  shows "om.move\<^sup>*\<^sup>* (otab s) (otab (snd (settle dnow txi r s)))" "same_lives s (snd (settle dnow txi r s))"
proof -
  have "om.move\<^sup>*\<^sup>* (otab s) (otab (snd (settle dnow txi r s))) \<and> same_lives s (snd (settle dnow txi r s))"
  proof (cases rule: settle_cases[of dnow txi r s])
    case kept
    then show ?thesis by (simp add: same_lives_def)
  next
    case (paid st g s1)
    have "\<forall>x \<in> set (orders s1). od_id x = od_id r \<longrightarrow> od_state x = Delivered \<and>
      (st = PayPaid \<longrightarrow> od_method x = Wallet) \<and> (st = PayCash \<longrightarrow> od_method x \<noteq> Wallet)"
      using assms(2) paid(1,4,5) by (auto simp: delivered_row_def)
    moreover have "om.inv (otab s1)" using assms(1) paid(1) by simp
    ultimately have "om.move\<^sup>*\<^sup>* (otab s1) (otab (set_payment dnow (od_id r) (paying st g) s1))"
      using paid(3) by (intro set_payment_moves)
    moreover have "same_lives s (snd (settle dnow txi r s))"
      using set_payment_lives[of s1 dnow "od_id r" st g] paid(1,2) by (simp add: same_lives_def)
    ultimately show ?thesis using paid(1,2) by simp
  qed
  then show "om.move\<^sup>*\<^sup>* (otab s) (otab (snd (settle dnow txi r s)))" "same_lives s (snd (settle dnow txi r s))" by blast+
qed

lemma settle_loop_moves:
  assumes "om.inv (otab s)" "\<forall>r \<in> set rs. delivered_row r s"
  shows "om.move\<^sup>*\<^sup>* (otab s) (otab (snd (settle_loop dnow txs rs n s)))"
  using assms
proof (induction rs arbitrary: n s)
  case (Cons r rs)
  obtain res s1 where e: "settle dnow (txs n) r s = (res, s1)" by (cases "settle dnow (txs n) r s")
  have m: "om.move\<^sup>*\<^sup>* (otab s) (otab s1)" "same_lives s s1"
    using order_settle_moves[OF Cons.prems(1), of r dnow "txs n"] Cons.prems(2) e by simp_all
  show ?case
  proof (cases res)
    case (Inr u)
    have "om.move\<^sup>*\<^sup>* (otab s1) (otab (snd (settle_loop dnow txs rs (n + 1) s1)))"
      using om.moves_inv[OF m(1) Cons.prems(1)] Cons.prems(2) same_lives_row[OF m(2)] by (intro Cons.IH) auto
    then show ?thesis using e Inr m(1) by (simp add: rtranclp_trans)
  qed (use e m in simp)
qed simp

lemma row_delivered:
  assumes "om.inv (otab s)" "r \<in> set (orders s)" "od_state r = Delivered"
  shows "delivered_row r s"
proof -
  have "x = r" if "x \<in> set (orders s)" "od_id x = od_id r" for x using om.same_row[OF assms(1) that(1) assms(2) that(2)] .
  then show ?thesis using assms(3) by (auto simp: delivered_row_def)
qed

lemma order_SettlePending_moves:
  assumes "om.inv (otab s)"
  shows "om.move\<^sup>*\<^sup>* (otab s) (otab (snd (SettlePending dnow txs s)))"
proof -
  have "r \<in> set (orders s) \<and> od_state r = Delivered" if "r \<in> set (pending_orders dnow s)" for r
    using set_take_subset[of 50] that unfolding pending_orders_def by fastforce
  then show ?thesis using row_delivered[OF assms] unfolding SettlePending_def
    by (intro settle_loop_moves[OF assms]) blast
qed

lemma MerchantTransition_moves:
  assumes "om.inv (otab s)"
  shows "om.move\<^sup>*\<^sup>* (otab s) (otab (snd (MerchantTransition dnow txi user i to_name prep reason s)))"
proof (cases "merchant_tx dnow user i to_name prep (clip reason 200)" s rule: begin_func_cases)
  case (rollback e)
  then show ?thesis by (simp add: MerchantTransition_def)
next
  case (commit r s1)
  note M = merchant_tx_moves[OF assms commit(1)]
  note I = om.moves_inv[OF M(1) assms]
  show ?thesis
  proof (cases "od_state r = Delivered")
    case True
    have "om.move\<^sup>*\<^sup>* (otab s1) (otab (snd (settle dnow txi r s1)))"
      using order_settle_moves(1)[OF I row_delivered[OF I M(2) True]] .
    with M(1) have "om.move\<^sup>*\<^sup>* (otab s) (otab (snd (settle dnow txi r s1)))" by (rule rtranclp_trans)
    then show ?thesis using commit True by (simp add: MerchantTransition_def Let_def split: option.split)
  next
    case False
    then show ?thesis using commit M(1) by (simp add: MerchantTransition_def)
  qed
qed

lemma order_accept_moves:
  assumes "om.inv (otab s)" "accept_tx gnow dnow user offerID s = (Inr r', s')"
  shows "om.move\<^sup>*\<^sup>* (otab s) (otab s')"
proof -
  obtain x where x: "find (\<lambda>x. of_id x = offerID \<and> of_driver x = user) (order_offers s) = Some x"
    using assms(2) by (auto simp: accept_tx_def split: option.splits)
  obtain r where f: "find_order (of_subject x) s = Some r"
    using assms(2) x by (auto simp: accept_tx_def split: option.splits if_splits)
  have st: "od_state r = Ready"
    and free: "\<forall>y \<in> set (orders s). od_courier y = Some user \<and> CourierBusy (od_state y) \<longrightarrow> od_id y = od_id r"
    and r': "r' = r\<lparr>od_state := CourierAssigned, od_courier := Some user, od_updated := dnow\<rparr>"
    and o: "orders s' = upd_where (\<lambda>x. od_id x = od_id r) (\<lambda>_. r') (orders s)"
    and j: "\<exists>e. order_journal s' = order_journal s @ [e] \<and> jn_subject e = od_id r \<and> jn_from e = Some Ready \<and> jn_to e = CourierAssigned"
    using assms(2) x f by (auto simp: accept_tx_def Let_def exists_where_iff split: if_splits)
  have r: "r \<in> set (orders s)" using find_SomeD[OF f[unfolded find_order_def]] by simp
  have ct: "CanTransition (od_state r) (od_state r')" by (simp add: st r' CanTransition_def can_transition_def)
  have ok: "order_ok r'" using om.inv_D(3)[OF assms(1) r] st
    by (simp add: r' order_ok_def order_checks_def CourierBusy_def IsTerminal_def)
  have fx: "order_fixed r' = order_fixed r" by (simp add: r' order_fixed_def)
  have b: "\<forall>x \<in> set (orders s). od_id x \<noteq> od_id r \<longrightarrow> CourierBusy (od_state x) \<longrightarrow> od_courier x \<noteq> od_courier r'"
    using free by (auto simp: r')
  from j obtain e where e: "order_journal s' = order_journal s @ [e]" "jn_subject e = od_id r" "jn_from e = Some (od_state r)" "jn_to e = od_state r'"
    using st r' by auto
  show ?thesis using order_moves[OF assms(1) f[unfolded find_order_def] refl ct fx ok _ o e] b by blast
qed

lemma order_AcceptOffer_moves:
  "om.inv (otab s) \<Longrightarrow> om.move\<^sup>*\<^sup>* (otab s) (otab (snd (AcceptOffer cfg gnow dnow user offerID s)))"
  by (cases "accept_tx gnow dnow user offerID s" rule: prod.exhaust; cases "fst (accept_tx gnow dnow user offerID s)")
     (auto simp: AcceptOffer_def begin_func_def order_accept_moves)

lemma DeclineOffer_tab: "otab (snd (DeclineOffer dnow user offerID s)) = otab s"
  by (auto simp: DeclineOffer_def begin_func_def split: option.splits)

lemma courier_update_ok:
  assumes "courier_update dnow to r = Inr r1" "order_ok r" "CanTransition (od_state r) to"
  shows "order_ok (r1\<lparr>od_updated := t\<rparr>)" "order_fixed (r1\<lparr>od_updated := t\<rparr>) = order_fixed r" "od_state r1 = to" "od_id r1 = od_id r"
    "CourierBusy to \<Longrightarrow> CourierBusy (od_state r) \<and> od_courier r1 = od_courier r"
proof -
  have "\<not> IsTerminal (od_state r)" using assms(3) by (rule CanTransition_open)
  then have p: "od_pay r = PayPending" using assms(2) order_ok_pending by blast
  have b: "to = PickedUp \<Longrightarrow> od_state r = CourierAssigned"
    using assms(3) by (cases "od_state r") (auto simp: CanTransition_def can_transition_def)
  show "order_ok (r1\<lparr>od_updated := t\<rparr>)" "order_fixed (r1\<lparr>od_updated := t\<rparr>) = order_fixed r" "od_state r1 = to" "od_id r1 = od_id r"
    "CourierBusy to \<Longrightarrow> CourierBusy (od_state r) \<and> od_courier r1 = od_courier r"
    using assms(1,2) p b unfolding courier_update_def
    by (cases to; clarsimp simp: order_ok_def order_checks_def CourierBusy_def IsTerminal_def order_fixed_def)+
qed

lemma courier_tx_moves:
  assumes "om.inv (otab s)" "courier_tx dnow user i to code reason s = (Inr r', s')"
  shows "om.move\<^sup>*\<^sup>* (otab s) (otab s')" "r' \<in> set (orders s')" "od_state r' = to" "od_id r' = i"
proof -
  obtain r r1 where f: "find (\<lambda>r. od_id r = i \<and> od_courier r = Some user) (orders s) = Some r"
    and ct: "CanTransition (od_state r) to" and u: "courier_update dnow to r = Inr r1" and r': "r' = r1\<lparr>od_updated := dnow\<rparr>"
    and o: "orders s' = upd_where (\<lambda>x. od_id x = i) (\<lambda>_. r') (orders s)"
    and j: "\<exists>e. order_journal s' = order_journal s @ [e] \<and> jn_subject e = i \<and> jn_from e = Some (od_state r) \<and> jn_to e = to"
    using assms(2) unfolding courier_tx_def by (auto simp: Let_def split: option.splits sum.splits if_splits)
  have r: "r \<in> set (orders s)" "od_id r = i" using find_SomeD[OF f] by auto
  note U = courier_update_ok[OF u om.inv_D(3)[OF assms(1) r(1)] ct]
  from j obtain e where e: "order_journal s' = order_journal s @ [e]" "jn_subject e = i" "jn_from e = Some (od_state r)" "jn_to e = to" by blast
  show "om.move\<^sup>*\<^sup>* (otab s) (otab s')"
    using U ct e r' by (intro order_moves[OF assms(1) f r(2) _ _ _ _ o e(1)]) auto
  show "od_state r' = to" "od_id r' = i" using U r' r(2) by simp_all
  show "r' \<in> set (orders s')" using r unfolding o by (auto simp: set_upd_where)
qed

lemma courierTransition_moves:
  assumes "om.inv (otab s)"
  shows "om.move\<^sup>*\<^sup>* (otab s) (otab (snd (courierTransition dnow user i to code reason s)))"
proof -
  have "om.move\<^sup>*\<^sup>* (otab s) (otab (snd (begin_func (courier_tx dnow user i to code reason) s)))"
    by (rule om.tx_moves[where tab = otab]) (rule courier_tx_moves(1)[OF assms])
  then show ?thesis by (simp add: courierTransition_def)
qed

lemma Deliver_moves:
  assumes "om.inv (otab s)"
  shows "om.move\<^sup>*\<^sup>* (otab s) (otab (snd (Deliver cfg gnow dnow txi user i s)))"
proof (cases "courier_tx dnow user i Delivered [] []" s rule: begin_func_cases)
  case (rollback e)
  then show ?thesis by (simp add: Deliver_def courierTransition_def)
next
  case (commit r s1)
  note M = courier_tx_moves[OF assms commit(1)]
  let ?s2 = "mark_loc cfg (SetAvailable gnow user) s1"
  have I: "om.inv (otab ?s2)" using om.moves_inv[OF M(1) assms] by simp
  have "delivered_row r ?s2" using row_delivered[OF I _ M(3)] M(2) by simp
  then have "om.move\<^sup>*\<^sup>* (otab s1) (otab (snd (settle dnow txi r ?s2)))" using order_settle_moves(1)[OF I] by simp
  with M(1) have "om.move\<^sup>*\<^sup>* (otab s) (otab (snd (settle dnow txi r ?s2)))" by (rule rtranclp_trans)
  then show ?thesis using commit by (simp add: Deliver_def courierTransition_def Let_def withItems_def split: option.split)
qed

lemma Release_moves:
  assumes "om.inv (otab s)"
  shows "om.move\<^sup>*\<^sup>* (otab s) (otab (snd (ReleaseByCourier cfg gnow dnow user i reason s)))"
proof -
  obtain res s1 where e: "courierTransition dnow user i Ready [] (clip reason 200) s = (res, s1)"
    by (cases "courierTransition dnow user i Ready [] (clip reason 200) s")
  have "om.move\<^sup>*\<^sup>* (otab s) (otab s1)"
    using courierTransition_moves[OF assms, of dnow user i Ready "[]" "clip reason 200"] e by simp
  then show ?thesis using e by (cases res) (simp_all add: ReleaseByCourier_def)
qed

text \<open>The dispatcher writes to the journal when it raises the alert, and never to the orders.\<close>

lemma alert_moves:
  assumes "om.inv (otab s)" "r \<in> set (orders s)" "od_state r = Ready" "od_id r = i"
  shows "om.move\<^sup>*\<^sup>* (otab s) (otab (alert_no_courier dnow i s))"
proof (cases "exists_where (\<lambda>e. jn_subject e = i \<and> jn_to e = Ready \<and> jn_actor_type e = ''system'') (order_journal s)")
  case False
  let ?e = "\<lparr>jn_subject = i, jn_from = Some Ready, jn_to = Ready, jn_actor_type = ''system'', jn_actor = None,
     jn_meta = [(''no_courier'', JBool True)], jn_created = dnow\<rparr>"
  have same: "upd_where (\<lambda>x. od_id x = od_id r) (\<lambda>_. r) (orders s) = orders s"
    unfolding upd_where_def by (rule map_idI) (auto dest: om.same_row[OF assms(1) _ assms(2)])
  have "om.move (otab s) (upd_where (\<lambda>x. od_id x = od_id r) (\<lambda>_. r) (orders s), order_journal s @ [?e])"
    using assms om.inv_D(3)[OF assms(1,2)]
    by (intro om.move.transition) (simp_all add: can_transition_def journal_table_def CourierBusy_def)
  then have "om.move (otab s) (orders s, order_journal s @ [?e])" unfolding same .
  then show ?thesis using False by (simp add: alert_no_courier_def r_into_rtranclp)
qed (simp add: alert_no_courier_def)

lemma offer_order_tab: "otab (snd (offer_order gnow dnow offerID i rnd c s)) = otab s"
  by (simp add: offer_order_def)

lemma order_round_tx_moves:
  assumes "om.inv (otab s)"
  shows "om.move\<^sup>*\<^sup>* (otab s) (otab (snd (round_tx gs gnow dnow offerID i s)))"
proof (cases "find_order i s")
  case (Some r)
  have r: "r \<in> set (orders s)" "od_id r = i" using find_SomeD[OF Some[unfolded find_order_def]] by auto
  have "otab (snd (offer_order gnow dnow offerID i rnd c (s\<lparr>o_loc := l\<rparr>))) = otab s" for rnd c l
    by (simp add: offer_order_def)
  then show ?thesis
    using Some alert_moves[OF assms r(1) _ r(2)]
    by (auto simp: round_tx_def Let_def split: option.split prod.split)
qed (simp add: round_tx_def)

lemma order_Round_moves:
  assumes "om.inv (otab s)"
  shows "om.move\<^sup>*\<^sup>* (otab s) (otab (snd (Round gs gnow dnow offerID i s)))"
proof (cases "round_tx gs gnow dnow offerID i" s rule: begin_func_cases)
  case (rollback e)
  then show ?thesis by (simp add: Round_def)
next
  case (commit b s1)
  then show ?thesis using order_round_tx_moves[OF assms, of gs gnow dnow offerID i] by (simp add: Round_def)
qed

lemma order_sweep_rounds_moves:
  assumes "om.inv (otab s)"
  shows "om.move\<^sup>*\<^sup>* (otab s) (otab (snd (sweep_rounds gs gnow dnow ids is st s)))"
  using assms
proof (induction "is" arbitrary: st s)
  case (Cons i "is")
  obtain res s1 where e: "Round gs gnow dnow (ids (swRounds st)) i s = (res, s1)" by (cases "Round gs gnow dnow (ids (swRounds st)) i s")
  have m: "om.move\<^sup>*\<^sup>* (otab s) (otab s1)" using order_Round_moves[OF Cons.prems, of gs gnow dnow "ids (swRounds st)" i] e by simp
  note IH = Cons.IH[OF om.moves_inv[OF m Cons.prems]]
  show ?case using e m IH by (cases res) (auto simp: Let_def intro: rtranclp_trans)
qed simp

lemma emit_expired_tab: "otab (emit_expired dnow xs s) = otab s"
  by (induction xs arbitrary: s) simp_all

lemma order_Sweep_moves:
  assumes "om.inv (otab s)"
  shows "om.move\<^sup>*\<^sup>* (otab s) (otab (snd (Sweep gs gnow dnow ids s)))"
proof -
  let ?s = "emit_expired dnow (filter (overdue dnow) (order_offers s)) (s\<lparr>order_offers := respond dnow Expired (overdue dnow) (order_offers s)\<rparr>)"
  have t: "otab ?s = otab s" unfolding emit_expired_tab by simp
  have "om.move\<^sup>*\<^sup>* (otab ?s) (otab (snd (sweep_rounds gs gnow dnow ids is st ?s)))" for "is" st
    using order_sweep_rounds_moves[of ?s] assms unfolding t by blast
  then show ?thesis unfolding Sweep_def Let_def t by blast
qed

end
