(* ===== verification/OrderProtocol.thy ===== *)
theory OrderProtocol
  imports OrderSafety
begin

text \<open>
  The theorems about orders as a state machine: the invariant of the tables over all runs, the
  finality of finished orders, the refinement of the table of transitions, and that an open order can
  always be brought to an end.
\<close>

section \<open>Runs\<close>

text \<open>Any handler with any arguments; and anything that leaves the orders and their journal alone.\<close>

inductive orders_step :: "orders_db \<Rightarrow> orders_db \<Rightarrow> bool" where
  create: "orders_step s (snd (Create cfg dz gnow dnow i codes user key inp s))"
| cancel: "orders_step s (snd (CancelByCustomer dnow user i reason s))"
| merchant: "orders_step s (snd (MerchantTransition dnow txi user i to_name prep reason s))"
| accept: "orders_step s (snd (AcceptOffer cfg gnow dnow user offerID s))"
| decline: "orders_step s (snd (DeclineOffer dnow user offerID s))"
| pickup: "orders_step s (snd (PickUp dnow user i code s))"
| deliver: "orders_step s (snd (Deliver cfg gnow dnow txi user i s))"
| release: "orders_step s (snd (ReleaseByCourier cfg gnow dnow user i reason s))"
| settle_pending: "orders_step s (snd (SettlePending dnow txs s))"
| round: "orders_step s (snd (Round gs gnow dnow offerID i s))"
| sweep: "orders_step s (snd (Sweep gs gnow dnow ids s))"
| elsewhere: "orders s' = orders s \<Longrightarrow> order_journal s' = order_journal s \<Longrightarrow> orders_step s s'"

definition fresh_orders :: "orders_db \<Rightarrow> bool" where
  "fresh_orders s \<longleftrightarrow> orders s = [] \<and> order_journal s = []"

lemma orders_step_moves:
  assumes "orders_step s s'" "om.inv (otab s)"
  shows "om.move\<^sup>*\<^sup>* (otab s) (otab s')"
  using assms
proof (cases rule: orders_step.cases)
  case decline
  then show ?thesis using DeclineOffer_tab by simp
next
  case pickup
  then show ?thesis using courierTransition_moves[OF assms(2)] by (simp add: PickUp_def)
qed (simp_all add: Create_moves cancel_moves MerchantTransition_moves order_AcceptOffer_moves Deliver_moves Release_moves
      order_SettlePending_moves order_Round_moves order_Sweep_moves)

lemma orders_run:
  assumes "orders_step\<^sup>*\<^sup>* s s'" "om.inv (otab s)"
  shows "om.move\<^sup>*\<^sup>* (otab s) (otab s')" "om.inv (otab s')"
  by (rule om.run_moves[where step = orders_step and tab = otab, OF orders_step_moves assms], assumption+)+

lemma reachable_inv: "fresh_orders s0 \<Longrightarrow> orders_step\<^sup>*\<^sup>* s0 s \<Longrightarrow> om.inv (otab s)"
  by (rule orders_run(2)[of s0]) (simp_all add: fresh_orders_def)

text \<open>
  C15. Whatever customers, merchants, couriers and workers do, in any order and with any arguments: a
  customer has one order per idempotency key; a courier carries at most one order at a time; the
  journal of an order starts with its creation, follows the transition table (with the alert of the
  dispatcher as the only line that stays in place) and ends in its present state; the total is items
  plus fee less discount and is not negative; the payment is pending until the order is finished, and
  none when it was cancelled or rejected; only wallet orders are ever paid and only others settled as
  cash.
\<close>
theorem orders_protocol:
  assumes "fresh_orders s0" "orders_step\<^sup>*\<^sup>* s0 s"
  shows "(\<forall>x \<in> set (orders s). \<forall>y \<in> set (orders s). od_customer x = od_customer y \<and> od_idem x = od_idem y \<longrightarrow> x = y) \<and>
    (\<forall>x \<in> set (orders s). \<forall>y \<in> set (orders s).
        CourierBusy (od_state x) \<and> CourierBusy (od_state y) \<and> od_courier x = od_courier y \<longrightarrow> x = y) \<and>
    (\<forall>r \<in> set (orders s). lawful journal_table PendingMerchant (history (od_id r) (order_journal s)) (od_state r)) \<and>
    (\<forall>r \<in> set (orders s). od_total r = sub64 (add64 (od_items_total r) (od_fee r)) (od_discount r) \<and> od_total r \<ge> 0 \<and>
        (\<not> IsTerminal (od_state r) \<longrightarrow> od_pay r = PayPending) \<and>
        (od_pay r = PayNone \<longleftrightarrow> od_state r = OCancelled \<or> od_state r = Rejected) \<and>
        (od_pay r = PayPaid \<longrightarrow> od_method r = Wallet) \<and> (od_pay r = PayCash \<longrightarrow> od_method r \<noteq> Wallet))"
proof -
  have inv: "om.inv (otab s)" using reachable_inv[OF assms] .
  note D = om.inv_D[OF inv]
  have "x = y" if "x \<in> set (orders s)" "y \<in> set (orders s)" "od_customer x = od_customer y" "od_idem x = od_idem y" for x y
    using distinct_keyD[OF D(2) that(1,2)] that(3,4) by simp
  moreover have "x = y" if "x \<in> set (orders s)" "y \<in> set (orders s)" "CourierBusy (od_state x)" "CourierBusy (od_state y)"
      "od_courier x = od_courier y" for x y
    using om.one_busy[OF inv that] D(3)[OF that(1)] that(3) by (simp add: order_ok_def)
  moreover have "od_pay r = PayNone \<longleftrightarrow> od_state r = OCancelled \<or> od_state r = Rejected" if "r \<in> set (orders s)" for r
    using D(3)[OF that] by (cases "od_state r") (auto simp: order_ok_def IsTerminal_def)
  ultimately show ?thesis using D(3,5) unfolding order_ok_def order_checks_def by blast
qed

text \<open>
  A finished order is final: once it is delivered, cancelled or rejected, nothing that happens
  later changes its customer, merchant, courier, prices, state, the reason of a cancellation or any of
  its times, and no further line is added to its history.
\<close>
theorem finished_order_final:
  assumes "fresh_orders s0" "orders_step\<^sup>*\<^sup>* s0 s" "r \<in> set (orders s)" "IsTerminal (od_state r)" "orders_step\<^sup>*\<^sup>* s s'"
  shows "\<exists>r' \<in> set (orders s'). order_fixed r' = order_fixed r \<and> order_final r' = order_final r \<and> od_state r' = od_state r \<and>
     od_courier r' = od_courier r \<and> history (od_id r') (order_journal s') = history (od_id r) (order_journal s)"
proof -
  have inv: "om.inv (otab s)" using reachable_inv[OF assms(1,2)] .
  show ?thesis using om.final_row[OF orders_run(1)[OF assms(5) inv] inv assms(3,4)] .
qed

section \<open>Refinement\<close>

text \<open>The life of an order as the table of transitions describes it, and one step of it.\<close>

definition order_life :: "uuid \<Rightarrow> orders_db \<Rightarrow> order_state option" where
  "order_life i s = map_option od_state (find_order i s)"

definition life_step :: "order_state option \<Rightarrow> order_state option \<Rightarrow> bool" where
  "life_step a b \<longleftrightarrow> (a = None \<and> b = Some PendingMerchant) \<or> (\<exists>x y. a = Some x \<and> b = Some y \<and> CanTransition x y)"

abbreviation life_in :: "uuid \<Rightarrow> order list \<Rightarrow> order_state option" where
  "life_in i R \<equiv> map_option od_state (find (\<lambda>o'. od_id o' = i) R)"

lemma find_by_id: "om.inv (R, J) \<Longrightarrow> r \<in> set R \<Longrightarrow> find (\<lambda>o'. od_id o' = od_id r) R = Some r"
  by (rule find_key[OF om.inv_D(1)])

lemma find_replaced:
  "od_id r' = j \<Longrightarrow> find (\<lambda>o'. od_id o' = i) (upd_where (\<lambda>x. od_id x = j) (\<lambda>_. r') R) =
      map_option (\<lambda>x. if od_id x = j then r' else x) (find (\<lambda>o'. od_id o' = i) R)"
  by (induction R) (auto simp: upd_where_Cons upd_where_Nil)

lemma move_life:
  assumes "om.move t t'" "om.inv t"
  shows "life_step\<^sup>*\<^sup>* (life_in i (fst t)) (life_in i (fst t'))"
  using assms
proof (induction rule: om.move.induct)
  case (insert r R e J)
  show ?case
  proof (cases "od_id r = i")
    case True
    then have "find (\<lambda>o'. od_id o' = i) R = None" using insert.hyps(3) by (auto simp: find_None_iff_all)
    then show ?thesis using True insert.hyps(1) by (simp add: find_append life_step_def r_into_rtranclp)
  next
    case False
    then show ?thesis by (simp add: find_append split: option.split)
  qed
next
  case (transition r R r' e J)
  have id: "od_id r' = od_id r" using transition.hyps(3) by (simp add: order_fixed_def)
  have f: "find (\<lambda>o'. od_id o' = i) (upd_where (\<lambda>x. od_id x = od_id r) (\<lambda>_. r') R) =
      map_option (\<lambda>x. if od_id x = od_id r then r' else x) (find (\<lambda>o'. od_id o' = i) R)"
    using id by (rule find_replaced)
  show ?case
  proof (cases "od_id r = i")
    case True
    then have g: "find (\<lambda>o'. od_id o' = i) R = Some r" using find_by_id[OF transition.prems transition.hyps(1)] by simp
    have "CanTransition (od_state r) (od_state r') \<or> od_state r' = od_state r"
      using transition.hyps(2) by (auto simp: can_transition_def journal_table_def CanTransition_def split: if_splits)
    then show ?thesis unfolding fst_conv f g by (auto simp: life_step_def intro: r_into_rtranclp)
  next
    case False
    then have "map_option od_state (map_option (\<lambda>x. if od_id x = od_id r then r' else x) (find (\<lambda>o'. od_id o' = i) R)) = life_in i R"
      by (cases "find (\<lambda>o'. od_id o' = i) R") (auto dest: find_SomeD)
    then show ?thesis unfolding fst_conv f by simp
  qed
next
  case (adjust R f J)
  have "life_in i (map f R) = life_in i R"
    using adjust.hyps
  proof (induction R)
    case (Cons x R)
    then have "od_id (f x) = od_id x" "od_state (f x) = od_state x" by (simp_all add: order_fixed_def)
    then show ?case using Cons by simp
  qed simp
  then show ?case by simp
qed

lemma moves_life:
  assumes "om.move\<^sup>*\<^sup>* t t'" "om.inv t"
  shows "life_step\<^sup>*\<^sup>* (life_in i (fst t)) (life_in i (fst t'))"
  using assms(1)
proof (induction rule: rtranclp_induct)
  case (step u v)
  then show ?case using move_life[OF step.hyps(2) om.moves_inv[OF step.hyps(1) assms(2)], of i] by (meson rtranclp_trans)
qed simp

text \<open>
  What one call may do to all orders: nothing to their states; or it changes the state of one order by one
  step of the table (or creates it) and adds the line of that step, and nothing else, to the journal.
\<close>

definition single_step :: "orders_db \<Rightarrow> orders_db \<Rightarrow> bool" where
  "single_step s s' \<longleftrightarrow> (\<forall>i. order_life i s' = order_life i s) \<or>
     (\<exists>j e. (\<forall>i. i \<noteq> j \<longrightarrow> order_life i s' = order_life i s) \<and> life_step (order_life j s) (order_life j s') \<and>
        order_journal s' = order_journal s @ [e] \<and> jn_subject e = j \<and> jn_from e = order_life j s \<and> Some (jn_to e) = order_life j s')"

lemma life_same:
  assumes "same_lives s s'" shows "order_life i s' = order_life i s"
proof -
  let ?k = "\<lambda>x :: order. (od_id x, od_state x, od_method x)"
  have "life_in i R = map_option (\<lambda>p. fst (snd p)) (find (\<lambda>p. fst p = i) (map ?k R))" for R
    by (induction R) auto
  then show ?thesis using assms by (simp add: order_life_def find_order_def same_lives_def)
qed

lemma single_same: "same_lives s s' \<Longrightarrow> single_step s s'"
  by (simp add: single_step_def life_same)

lemma single_orders: "orders s' = orders s \<Longrightarrow> single_step s s'"
  by (rule single_same) (simp add: same_lives_def)

text \<open>After the step of a call comes what leaves the states and the journal alone, such as the settlement.\<close>

lemma single_then:
  assumes "single_step s s1" "same_lives s1 s'" "order_journal s' = order_journal s1"
  shows "single_step s s'"
  using assms(1) by (simp add: single_step_def life_same[OF assms(2)] assms(3))

definition row_step :: "uuid \<Rightarrow> orders_db \<Rightarrow> orders_db \<Rightarrow> bool" where
  "row_step i s s' \<longleftrightarrow> (\<exists>r r' e. r \<in> set (orders s) \<and> od_id r = i \<and> od_id r' = i \<and> CanTransition (od_state r) (od_state r') \<and>
     orders s' = upd_where (\<lambda>x. od_id x = i) (\<lambda>_. r') (orders s) \<and> order_journal s' = order_journal s @ [e] \<and>
     jn_subject e = i \<and> jn_from e = Some (od_state r) \<and> jn_to e = od_state r')"

lemma row_step_single:
  assumes "om.inv (otab s)" "row_step j s s'"
  shows "single_step s s'"
proof -
  obtain r r' e where r: "r \<in> set (orders s)" "od_id r = j" "od_id r' = j" "CanTransition (od_state r) (od_state r')"
    and o: "orders s' = upd_where (\<lambda>x. od_id x = j) (\<lambda>_. r') (orders s)"
    and e: "order_journal s' = order_journal s @ [e]" "jn_subject e = j" "jn_from e = Some (od_state r)" "jn_to e = od_state r'"
    using assms(2) unfolding row_step_def by blast
  have f: "order_life i s' = map_option od_state (map_option (\<lambda>x. if od_id x = j then r' else x) (find (\<lambda>o'. od_id o' = i) (orders s)))" for i
    unfolding order_life_def find_order_def o find_replaced[OF r(3)] ..
  have "find (\<lambda>o'. od_id o' = j) (orders s) = Some r" using find_by_id[OF assms(1) r(1)] r(2) by simp
  then have "order_life j s = Some (od_state r)" "order_life j s' = Some (od_state r')"
    using r(2) by (simp_all add: f) (simp add: order_life_def find_order_def)
  moreover have "order_life i s' = order_life i s" if "i \<noteq> j" for i
    unfolding f unfolding order_life_def find_order_def
    using that by (cases "find (\<lambda>o'. od_id o' = i) (orders s)") (auto dest: find_SomeD)
  ultimately show ?thesis unfolding single_step_def life_step_def using r(4) e by (intro disjI2 exI[of _ j] exI[of _ e]) simp
qed

text \<open>The transactions of the customer, the merchant and the courier make such a step.\<close>

lemma cancel_row:
  assumes "cancel_tx dnow user i rs s = (Inr r', s')"
  shows "row_step i s s'"
proof -
  obtain r where f: "find (\<lambda>r. od_id r = i \<and> od_customer r = user) (orders s) = Some r" and c: "CustomerCanCancel (od_state r)"
    using assms by (auto simp: cancel_tx_def split: option.splits if_splits)
  have "CanTransition (od_state r) OCancelled" using c by (auto simp: CustomerCanCancel_def CanTransition_def can_transition_def)
  moreover have "od_id r' = od_id r" "od_state r' = OCancelled" "orders s' = upd_where (\<lambda>x. od_id x = i) (\<lambda>_. r') (orders s)"
    "\<exists>e. order_journal s' = order_journal s @ [e] \<and> jn_subject e = i \<and> jn_from e = Some (od_state r) \<and> jn_to e = OCancelled"
    using assms f c by (auto simp: cancel_tx_def Let_def)
  ultimately show ?thesis unfolding row_step_def using find_SomeD[OF f] by (intro exI[of _ r] exI[of _ r']) auto
qed

lemma merchant_row_step:
  assumes "merchant_tx dnow user i to_name prep reason s = (Inr r', s')"
  shows "row_step i s s'"
proof -
  from merchant_tx_cases[OF assms] obtain r to r1 where c: "find_order i s = Some r" "CanTransition (od_state r) to"
    "merchant_update dnow to prep reason r = Inr r1" "r' = r1\<lparr>od_updated := dnow\<rparr>"
    "orders s' = upd_where (\<lambda>x. od_id x = i) (\<lambda>_. r') (orders s)"
    and j: "\<exists>e. order_journal s' = order_journal s @ [e] \<and> jn_subject e = i \<and> jn_from e = Some (od_state r) \<and> jn_to e = to"
    by metis
  have r: "r \<in> set (orders s)" "od_id r = i" using find_SomeD[OF c(1)[unfolded find_order_def]] by auto
  have "od_state r1 = to" "od_id r1 = od_id r"
    using c(3) unfolding merchant_update_def by (cases to; clarsimp simp: Let_def)+
  then show ?thesis unfolding row_step_def using r c(2,4,5) j by (intro exI[of _ r] exI[of _ r']) auto
qed

lemma accept_row:
  assumes "accept_tx gnow dnow user offerID s = (Inr r', s')"
  shows "\<exists>i. row_step i s s'"
proof -
  obtain x where x: "find (\<lambda>x. of_id x = offerID \<and> of_driver x = user) (order_offers s) = Some x"
    using assms by (auto simp: accept_tx_def split: option.splits)
  obtain r where f: "find_order (of_subject x) s = Some r"
    using assms x by (auto simp: accept_tx_def split: option.splits if_splits)
  have "r \<in> set (orders s)" using find_SomeD[OF f[unfolded find_order_def]] by simp
  moreover have "od_state r = Ready" "r' = r\<lparr>od_state := CourierAssigned, od_courier := Some user, od_updated := dnow\<rparr>"
    "orders s' = upd_where (\<lambda>x. od_id x = od_id r) (\<lambda>_. r') (orders s)"
    "\<exists>e. order_journal s' = order_journal s @ [e] \<and> jn_subject e = od_id r \<and> jn_from e = Some Ready \<and> jn_to e = CourierAssigned"
    using assms x f by (auto simp: accept_tx_def Let_def split: if_splits)
  ultimately have "row_step (od_id r) s s'"
    unfolding row_step_def by (intro exI[of _ r] exI[of _ r']) (auto simp: CanTransition_def can_transition_def)
  then show ?thesis by blast
qed

lemma courier_row:
  assumes "courier_tx dnow user i to code reason s = (Inr r', s')"
  shows "row_step i s s'"
proof -
  obtain r r1 where f: "find (\<lambda>r. od_id r = i \<and> od_courier r = Some user) (orders s) = Some r"
    and ct: "CanTransition (od_state r) to" and u: "courier_update dnow to r = Inr r1" and r': "r' = r1\<lparr>od_updated := dnow\<rparr>"
    and o: "orders s' = upd_where (\<lambda>x. od_id x = i) (\<lambda>_. r') (orders s)"
    and j: "\<exists>e. order_journal s' = order_journal s @ [e] \<and> jn_subject e = i \<and> jn_from e = Some (od_state r) \<and> jn_to e = to"
    using assms unfolding courier_tx_def by (auto simp: Let_def split: option.splits sum.splits if_splits)
  have "od_state r1 = to" "od_id r1 = od_id r" using u unfolding courier_update_def by (cases to; clarsimp)+
  then show ?thesis unfolding row_step_def using find_SomeD[OF f] ct o j r' by (intro exI[of _ r] exI[of _ r']) auto
qed

lemma single_tx:
  assumes "om.inv (otab s)" "\<And>r s'. body s = (Inr r, s') \<Longrightarrow> \<exists>i. row_step i s s'"
  shows "single_step s (snd (begin_func body s))"
  by (rule snd_begin_func_inv) (use row_step_single[OF assms(1)] assms(2) single_orders in blast)+

lemma create_single: "single_step s (snd (Create cfg dz gnow dnow i codes user key inp s))"
proof -
  have txm: "single_step s s'" if c: "create_tx gnow dnow i codes user k pm inp' q m s = (Inr r, s')" for q k pm inp' m r s'
  proof -
    from c obtain r0 where r0: "insert_attempts False (\<lambda>code. new_order gnow dnow i code user k pm inp' q m) (take 5 codes) (orders s) = Inr r0"
      and o: "orders s' = orders s @ [r0]" and j: "\<exists>e. order_journal s' = order_journal s @ [e] \<and> jn_subject e = i \<and> jn_from e = None \<and> jn_to e = PendingMerchant"
      by (auto simp: create_tx_def Let_def split: sum.splits prod.splits)
    obtain code where mk: "r0 = new_order gnow dnow i code user k pm inp' q m" and new: "\<forall>x \<in> set (orders s). od_id x \<noteq> od_id r0"
      using insert_attempts_Inr[OF r0] by blast
    have st: "od_state r0 = PendingMerchant" "od_id r0 = i" using mk by (simp_all add: new_order_def)
    then have n: "find (\<lambda>x. od_id x = i) (orders s) = None" using new by (simp add: find_None_iff_all)
    have l: "order_life k s' = (if k = i then Some PendingMerchant else order_life k s)" for k
      using n st by (auto simp: order_life_def find_order_def o find_append split: option.split)
    have "order_life i s = None" using n by (simp add: order_life_def find_order_def)
    with l j show ?thesis unfolding single_step_def life_step_def by (intro disjI2 exI[of _ i]) auto
  qed
  show ?thesis
  proof (cases rule: Create_cases[of cfg dz gnow dnow i codes user key inp s])
    case (tx k pm inp' q m)
    have e: "snd (Create cfg dz gnow dnow i codes user key inp s) = snd (begin_func (create_tx gnow dnow i codes user k pm inp' q m) s)"
      unfolding tx(8) by simp
    show ?thesis unfolding e by (rule snd_begin_func_inv) (use txm single_orders in blast)+
  qed (simp_all add: single_orders)
qed

lemma settle_journal: "order_journal (snd (settle dnow txi r s)) = order_journal s"
  by (cases rule: settle_cases[of dnow txi r s]) (simp_all add: set_payment_def)

lemma merchant_single:
  assumes "om.inv (otab s)"
  shows "single_step s (snd (MerchantTransition dnow txi user i to_name prep reason s))"
proof (cases "merchant_tx dnow user i to_name prep (clip reason 200)" s rule: begin_func_cases)
  case (rollback e)
  then show ?thesis by (simp add: MerchantTransition_def single_orders)
next
  case (commit r s1)
  note M = merchant_tx_moves[OF assms commit(1)]
  note one = row_step_single[OF assms merchant_row_step[OF commit(1)]]
  show ?thesis
  proof (cases "od_state r = Delivered")
    case True
    have "same_lives s1 (snd (settle dnow txi r s1))"
      using order_settle_moves(2)[OF om.moves_inv[OF M(1) assms] row_delivered[OF om.moves_inv[OF M(1) assms] M(2) True]] .
    from single_then[OF one this settle_journal] show ?thesis
      using commit True by (simp add: MerchantTransition_def Let_def split: option.split)
  next
    case False
    then show ?thesis using commit one by (simp add: MerchantTransition_def)
  qed
qed

lemma courier_single:
  "om.inv (otab s) \<Longrightarrow> single_step s (snd (courierTransition dnow user i to code reason s))"
  using single_tx[of s "courier_tx dnow user i to code reason"] courier_row by (simp add: courierTransition_def) blast

lemma single_tab: "single_step s s1 \<Longrightarrow> otab s' = otab s1 \<Longrightarrow> single_step s s'"
  by (erule single_then) (simp_all add: same_lives_def)

lemma deliver_single:
  assumes "om.inv (otab s)"
  shows "single_step s (snd (Deliver cfg gnow dnow txi user i s))"
proof (cases "courier_tx dnow user i Delivered [] []" s rule: begin_func_cases)
  case (rollback e)
  then show ?thesis by (simp add: Deliver_def courierTransition_def single_orders)
next
  case (commit r s1)
  note M = courier_tx_moves[OF assms commit(1)]
  let ?s2 = "mark_loc cfg (SetAvailable gnow user) s1"
  have I: "om.inv (otab ?s2)" using om.moves_inv[OF M(1) assms] by simp
  have "same_lives ?s2 (snd (settle dnow txi r ?s2))"
    by (rule order_settle_moves(2)[OF I row_delivered[OF I _ M(3)]]) (use M(2) in simp)
  moreover have "single_step s ?s2" using single_tab[OF row_step_single[OF assms courier_row[OF commit(1)]]] by simp
  ultimately have "single_step s (snd (settle dnow txi r ?s2))" using single_then settle_journal by blast
  then show ?thesis using commit by (simp add: Deliver_def courierTransition_def Let_def withItems_def split: option.split)
qed

lemma release_single:
  assumes "om.inv (otab s)"
  shows "single_step s (snd (ReleaseByCourier cfg gnow dnow user i reason s))"
proof -
  obtain res s1 where e: "courierTransition dnow user i Ready [] (clip reason 200) s = (res, s1)"
    by (cases "courierTransition dnow user i Ready [] (clip reason 200) s")
  have "single_step s s1" using courier_single[OF assms, of dnow user i Ready "[]" "clip reason 200"] e by simp
  then show ?thesis using e by (cases res) (auto simp: ReleaseByCourier_def intro: single_tab)
qed

text \<open>The payments that are settled later, and the dispatcher, change no state.\<close>

lemma settle_loop_lives:
  "om.inv (otab s) \<Longrightarrow> \<forall>r \<in> set rs. delivered_row r s \<Longrightarrow> same_lives s (snd (settle_loop dnow txs rs n s))"
proof (induction rs arbitrary: n s)
  case (Cons r rs)
  obtain res s1 where e: "settle dnow (txs n) r s = (res, s1)" by (cases "settle dnow (txs n) r s")
  have m: "om.move\<^sup>*\<^sup>* (otab s) (otab s1)" "same_lives s s1"
    using order_settle_moves[OF Cons.prems(1), of r dnow "txs n"] Cons.prems(2) e by simp_all
  show ?case
  proof (cases res)
    case (Inr u)
    have "same_lives s1 (snd (settle_loop dnow txs rs (n + 1) s1))"
      using om.moves_inv[OF m(1) Cons.prems(1)] Cons.prems(2) same_lives_row[OF m(2)] by (intro Cons.IH) auto
    then show ?thesis using e Inr same_lives_trans[OF m(2)] by simp
  qed (use e m in simp)
qed simp

lemma settle_pending_single:
  assumes "om.inv (otab s)"
  shows "single_step s (snd (SettlePending dnow txs s))"
proof -
  have "r \<in> set (orders s) \<and> od_state r = Delivered" if "r \<in> set (pending_orders dnow s)" for r
    using set_take_subset[of 50] that unfolding pending_orders_def by fastforce
  then show ?thesis using row_delivered[OF assms] unfolding SettlePending_def
    by (intro single_same settle_loop_lives[OF assms]) blast
qed

lemma dispatcher_orders:
  "orders (snd (Round gs gnow dnow offerID i s)) = orders s" "orders (snd (Sweep gs gnow dnow ids s)) = orders s"
proof -
  have "orders (snd (round_tx gs gnow dnow offerID i s)) = orders s" for offerID i s
    by (auto simp: round_tx_def Let_def alert_no_courier_def offer_order_def split: option.split prod.split)
  then show r: "orders (snd (Round gs gnow dnow offerID i s)) = orders s" for offerID i s
    by (cases "round_tx gs gnow dnow offerID i" s rule: begin_func_cases) (simp_all add: Round_def, metis snd_conv)
  have "orders (snd (sweep_rounds gs gnow dnow ids is st s)) = orders s" for "is" st s
  proof (induction "is" arbitrary: st s)
    case (Cons i "is")
    show ?case using r[of "ids (swRounds st)" i s] Cons.IH
      by (cases "Round gs gnow dnow (ids (swRounds st)) i s"; cases "fst (Round gs gnow dnow (ids (swRounds st)) i s)") (auto simp: Let_def)
  qed simp
  moreover have "orders (emit_expired dnow xs s) = orders s" for xs s using emit_expired_tab by simp
  ultimately show "orders (snd (Sweep gs gnow dnow ids s)) = orders s" by (simp add: Sweep_def Let_def)
qed

lemma orders_step_single:
  assumes "orders_step s s'" "om.inv (otab s)"
  shows "single_step s s'"
  using assms
proof (cases rule: orders_step.cases)
  case (cancel dnow user i reason)
  have "single_step s (snd (begin_func (cancel_tx dnow user i (clip reason 200)) s))" by (rule single_tx[OF assms(2)]) (use cancel_row in blast)
  then show ?thesis using cancel by (simp add: CancelByCustomer_def)
next
  case (accept cfg gnow dnow user offerID)
  have "single_step s (snd (begin_func (accept_tx gnow dnow user offerID) s))" by (rule single_tx[OF assms(2)]) (use accept_row in blast)
  then show ?thesis using accept
    by (cases "begin_func (accept_tx gnow dnow user offerID) s"; cases "fst (begin_func (accept_tx gnow dnow user offerID) s)")
       (auto simp: AcceptOffer_def intro: single_tab)
next
  case decline
  then show ?thesis using DeclineOffer_tab by (intro single_orders) simp
next
  case pickup
  then show ?thesis using courier_single[OF assms(2)] by (simp add: PickUp_def)
qed (simp_all add: create_single merchant_single deliver_single release_single settle_pending_single single_orders dispatcher_orders)

text \<open>
  C18. The implementation refines its table of transitions, call by call. In any run every order has come
  from its creation to its present state by steps of the table; and one call of a handler or a worker,
  whatever its arguments, changes the state of at most one order, and by exactly one step: a new
  order starts as pending, an existing one goes along one arrow, and the journal gets exactly the line of this
  step. No order disappears or skips a state. The table is the one the code checks: the diagram drawn
  above it in \<open>orders/state.go\<close> leaves out two of its arrows, back from \<open>courier_assigned\<close> to \<open>ready\<close> and
  from \<open>courier_assigned\<close> to \<open>cancelled\<close>, and the one from \<open>ready\<close> to \<open>delivered\<close> stands in the text below it.
\<close>
theorem orders_refine_table:
  assumes "fresh_orders s0" "orders_step\<^sup>*\<^sup>* s0 s" "orders_step s s'"
  shows "life_step\<^sup>*\<^sup>* None (order_life i s) \<and>
    ((\<forall>i. order_life i s' = order_life i s) \<or>
     (\<exists>j e. (\<forall>i. i \<noteq> j \<longrightarrow> order_life i s' = order_life i s) \<and> life_step (order_life j s) (order_life j s') \<and>
        order_journal s' = order_journal s @ [e] \<and> jn_subject e = j \<and> jn_from e = order_life j s \<and> Some (jn_to e) = order_life j s'))"
proof -
  have i0: "om.inv (otab s0)" using assms(1) by (simp add: fresh_orders_def)
  have "life_in i (orders s0) = None" using assms(1) by (simp add: fresh_orders_def)
  then have "life_step\<^sup>*\<^sup>* None (life_in i (orders s))" using moves_life[OF orders_run(1)[OF assms(2) i0] i0, of i] by simp
  moreover have "single_step s s'" using orders_step_single[OF assms(3) reachable_inv[OF assms(1,2)]] .
  ultimately show ?thesis by (simp add: order_life_def find_order_def single_step_def)
qed

lemma find_stronger: "find P t = Some r \<Longrightarrow> (\<And>x. Q x \<Longrightarrow> P x) \<Longrightarrow> Q r \<Longrightarrow> find Q t = Some r"
  by (induction t) (auto split: if_splits)

section \<open>An open order can always be brought to an end\<close>

lemma settle_keeps_row:
  assumes "om.inv (otab s)" "r \<in> set (orders s)" "od_state r = Delivered"
  shows "\<exists>r'. find_order (od_id r) (snd (settle dnow txi r s)) = Some r' \<and> od_id r' = od_id r \<and> od_state r' = Delivered"
proof -
  note M = order_settle_moves[OF assms(1) row_delivered[OF assms]]
  have inv: "om.inv (otab (snd (settle dnow txi r s)))" using om.moves_inv[OF M(1) assms(1)] .
  obtain x where x: "x \<in> set (orders (snd (settle dnow txi r s)))" "order_fixed x = order_fixed r" "od_state x = od_state r"
    using om.final_row[OF M(1) assms(1,2)] assms(3) by (auto simp: IsTerminal_def)
  have "od_id x = od_id r" using x(2) by (simp add: order_fixed_def)
  then show ?thesis using find_by_id[OF inv x(1)] x(3) assms(3) by (simp add: find_order_def)
qed

text \<open>
  C19. No order gets stuck: at any moment of any run, an order that is not finished can be finished with
  one call. As long as it has not been picked up, any member of the merchant's staff can reject or
  cancel it; once it is picked up, the courier who carries it can deliver it, whatever its payment, and
  the settlement that follows cannot undo that.
\<close>
theorem no_order_stuck:
  assumes "fresh_orders s0" "orders_step\<^sup>*\<^sup>* s0 s" "r \<in> set (orders s)" "\<not> IsTerminal (od_state r)"
    "Membership user (od_merchant r) (o_merchants s) = Inr sr" "clip reason 200 \<noteq> []"
  shows "(od_state r \<noteq> PickedUp \<longrightarrow> (\<exists>to_name \<in> {''cancelled'', ''rejected''}.
      \<exists>v s'. MerchantTransition dnow txi user (od_id r) to_name prep reason s = (Inr v, s') \<and>
        od_id (ov_order v) = od_id r \<and> IsTerminal (od_state (ov_order v)))) \<and>
    (od_state r = PickedUp \<longrightarrow> (\<exists>courier. od_courier r = Some courier \<and>
      (\<exists>v s'. Deliver cfg gnow dnow txi courier (od_id r) s = (Inr v, s') \<and>
        od_id (ov_order v) = od_id r \<and> od_state (ov_order v) = Delivered)))"
proof -
  have inv: "om.inv (otab s)" using reachable_inv[OF assms(1,2)] .
  have f: "find_order (od_id r) s = Some r" using find_by_id[OF inv assms(3)] by (simp add: find_order_def)
  have "\<exists>v s'. MerchantTransition dnow txi user (od_id r) ''cancelled'' prep reason s = (Inr v, s') \<and>
        od_id (ov_order v) = od_id r \<and> IsTerminal (od_state (ov_order v))" if "od_state r \<noteq> PickedUp"
  proof -
    have c: "CanTransition (od_state r) OCancelled"
      using assms(4) that by (cases "od_state r") (auto simp: IsTerminal_def CanTransition_def can_transition_def)
    show ?thesis using f assms(5,6) c
      by (simp add: MerchantTransition_def begin_func_def merchant_tx_def state_names_def merchant_update_def Let_def withItems_def IsTerminal_def)
  qed
  moreover have "\<exists>courier. od_courier r = Some courier \<and> (\<exists>v s'. Deliver cfg gnow dnow txi courier (od_id r) s = (Inr v, s') \<and>
        od_id (ov_order v) = od_id r \<and> od_state (ov_order v) = Delivered)" if p: "od_state r = PickedUp"
  proof -
    obtain courier where co: "od_courier r = Some courier"
      using om.inv_D(3)[OF inv assms(3)] p by (auto simp: order_ok_def CourierBusy_def)
    have "find (\<lambda>x. od_id x = od_id r \<and> od_courier x = Some courier) (orders s) = Some r"
      using co by (intro find_stronger[OF f[unfolded find_order_def]]) auto
    then obtain r1 s1 where t: "courier_tx dnow courier (od_id r) Delivered [] [] s = (Inr r1, s1)"
      using p by (simp add: courier_tx_def CanTransition_def can_transition_def courier_update_def Let_def)
    note M = courier_tx_moves[OF inv t]
    let ?s2 = "mark_loc cfg (SetAvailable gnow courier) s1"
    have I: "om.inv (otab ?s2)" using om.moves_inv[OF M(1) inv] by simp
    obtain r' where "find_order (od_id r1) (snd (settle dnow txi r1 ?s2)) = Some r'" "od_id r' = od_id r1" "od_state r' = Delivered"
      using settle_keeps_row[OF I _ M(3)] M(2) by force
    then show ?thesis using t co M(4)
      by (simp add: Deliver_def courierTransition_def begin_func_def Let_def withItems_def)
  qed
  ultimately show ?thesis by blast
qed

section \<open>A concrete run\<close>

definition demo_merchant :: merchant where
  "demo_merchant = \<lparr>me_id = ''m1'', me_owner = ''u9'', me_type = ''restaurant'', me_name = ''Te Agimi'', me_slug = ''te-agimi'',
     me_description = None, me_phone = None, me_address = ''Rruga B'', me_city = ''Prishtina'', me_location = mk_point 42 21,
     me_area = None, me_status = MActive, me_cuisines = [], me_fulfillment = ''courier'', me_min_order = 500, me_fee = 150,
     me_prep = 20, me_rating_sum = 0, me_rating_count = 0, me_logo = None, me_cover = None, me_accepting = True,
     me_commission = 1500, me_approved_at = None, me_approved_by = None, me_suspended = None, me_created = 0, me_updated = 0\<rparr>"

definition demo_shop_db :: merchants_db where
  "demo_shop_db = demo_merchants\<lparr>merchants := [demo_merchant],
     hours_rows := [\<lparr>hw_merchant = ''m1'', hw_weekday = 4, hw_opens = 0, hw_closes = 0\<rparr>]\<rparr>"

definition demo_orders :: orders_db where
  "demo_orders = \<lparr>o_core = empty_core, o_loc = \<lparr>drvs = (\<lambda>_. None), geo_idx = (\<lambda>_. []), samples = [], published = []\<rparr>, o_drivers = demo_drivers, o_rides = [],
     o_promos = \<lparr>coupons = [], redemptions = []\<rparr>, o_merchants = demo_shop_db, o_catalog = demo_catalog,
     orders = [], order_items = [], order_offers = [], order_journal = []\<rparr>"

definition demo_checkout :: checkout_input where
  "demo_checkout = \<lparr>ckMerchant = ''m1'', ckItems = [demo_selection], ckMethod = ''cash'', ckFulfillment = ''pickup'',
     ckAddressLine = [], ckAddress = None, ckInstructions = [], ckNote = [], ckCoupon = []\<rparr>"

definition demo_ocfg :: orders_cfg where "demo_ocfg = \<lparr>oc_promos = True, oc_loc = True\<rparr>"

definition demo_ordered :: orders_db where
  "demo_ordered = snd (Create demo_ocfg 0 100 100 ''ord1'' [''K7F3QA''] ''u1'' ''k1'' demo_checkout demo_orders)"

lemma demo_line:
  "\<exists>line. Price ''m1'' demo_selection demo_catalog = Inr line \<and> plTotal line = 1200 \<and> plCurrency line = ''EUR''"
proof -
  have t: "TrimSpace ''EUR'' = ''EUR''" by code_simp
  have gs: "groups_of demo_catalog ''p1'' = [(hd (group_rows demo_catalog), option_rows demo_catalog)]"
    by (simp add: groups_of_def demo_catalog_def)
  show ?thesis unfolding Price_def demo_selection_def
    by (simp add: gs demo_catalog_def) (simp add: demo_catalog_def t add64_def mul64_def wrap64_def Let_def gs[unfolded demo_catalog_def])
qed

lemma demo_created:
  "map (\<lambda>r. (od_id r, od_state r, od_total r, od_merchant r, od_customer r, od_fee r, od_courier r)) (orders demo_ordered) =
     [(''ord1'', PendingMerchant, 1200, ''m1'', ''u1'', 0, None)]"
proof -
  obtain line where line: "Price ''m1'' demo_selection demo_catalog = Inr line" "plTotal line = 1200" "plCurrency line = ''EUR''"
    using demo_line by blast
  have v: "validate_checkout ''k1'' demo_checkout = Inr (''k1'', Cash, demo_checkout)" by code_simp
  have op: "openNow 0 100 ''m1'' demo_shop_db"
    by (simp add: openNow_def demo_shop_db_def demo_merchants_def exists_where_def weekday_of_def time_of_day_def)
  have nm: "Normalize [] = []" by code_simp
  have ar: "add64 0 1200 = 1200" "add64 1200 0 = 1200" "sub64 1200 0 = 1200" by code_simp+
  have m: "merchant_row ''m1'' demo_orders = Some demo_merchant"
    by (simp add: merchant_row_def demo_orders_def demo_shop_db_def demo_merchant_def)
  have p: "\<exists>q. price demo_ocfg 0 100 100 ''u1'' demo_checkout demo_orders = Inr (q, demo_merchant) \<and> oqOpen q \<and>
      oqItemsTotal q = 1200 \<and> oqTotal q = 1200 \<and> oqCoupon q = [] \<and> oqFee q = 0"
    using line op m nm ar unfolding price_def
    by (simp add: demo_checkout_def demo_orders_def Let_def price_coupon_def chosen_fulfillment_def demo_merchant_def)
  then obtain q where q: "price demo_ocfg 0 100 100 ''u1'' demo_checkout demo_orders = Inr (q, demo_merchant)" "oqOpen q"
    "oqItemsTotal q = 1200" "oqTotal q = 1200" "oqCoupon q = []" "oqFee q = 0" by blast
  have e: "orders demo_orders = []" by (simp add: demo_orders_def)
  show ?thesis using v q e
    by (simp add: demo_ordered_def Create_def begin_func_def create_tx_def)
       (simp add: demo_orders_def demo_checkout_def demo_merchant_def new_order_def order_checks_def chosen_fulfillment_def exists_where_def Let_def)
qed

theorem orders_protocol_witness:
  "orders_step\<^sup>*\<^sup>* demo_orders demo_ordered \<and> map od_id (orders demo_ordered) = [''ord1''] \<and>
   lawful journal_table PendingMerchant (history ''ord1'' (order_journal demo_ordered)) PendingMerchant"
proof -
  have f: "fresh_orders demo_orders" by (simp add: fresh_orders_def demo_orders_def)
  have s: "orders_step\<^sup>*\<^sup>* demo_orders demo_ordered"
    unfolding demo_ordered_def by (rule r_into_rtranclp) (rule orders_step.create)
  obtain r where r: "orders demo_ordered = [r]" "od_id r = ''ord1''" "od_state r = PendingMerchant" using demo_created by auto
  have "lawful journal_table PendingMerchant (history (od_id r) (order_journal demo_ordered)) (od_state r)"
    using orders_protocol[OF f s] r(1) by simp
  then show ?thesis using s r by simp
qed

lemma demo_order_reach: "fresh_orders demo_orders" "orders_step\<^sup>*\<^sup>* demo_orders demo_ordered"
  by (simp add: fresh_orders_def demo_orders_def)
     (unfold demo_ordered_def, rule r_into_rtranclp, rule orders_step.create)

theorem orders_refine_table_witness:
  "life_step\<^sup>*\<^sup>* None (order_life ''ord1'' demo_orders) \<and> order_life ''ord1'' demo_ordered = Some PendingMerchant \<and>
   map (\<lambda>e. (jn_subject e, jn_from e, jn_to e)) (order_journal demo_ordered) = [(''ord1'', None, PendingMerchant)]"
proof -
  obtain r where r: "orders demo_ordered = [r]" "od_id r = ''ord1''" "od_state r = PendingMerchant" using demo_created by auto
  have f: "fresh_orders demo_orders" "order_journal demo_orders = []" "order_life i demo_orders = None" for i
    by (simp_all add: fresh_orders_def demo_orders_def order_life_def find_order_def)
  have l: "order_life ''ord1'' demo_ordered = Some PendingMerchant" "order_life i demo_ordered = (if i = ''ord1'' then Some PendingMerchant else None)" for i
    using r by (simp_all add: order_life_def find_order_def)
  have t: "orders_step demo_orders demo_ordered" unfolding demo_ordered_def by (rule orders_step.create)
  have a: "life_step\<^sup>*\<^sup>* None (order_life ''ord1'' demo_orders)"
    and "\<exists>j e. life_step (order_life j demo_orders) (order_life j demo_ordered) \<and> order_journal demo_ordered = order_journal demo_orders @ [e] \<and>
      jn_subject e = j \<and> jn_from e = order_life j demo_orders \<and> Some (jn_to e) = order_life j demo_ordered"
    using orders_refine_table[OF f(1) rtranclp.rtrancl_refl t, of "''ord1''"] l(1) f(3)[of "''ord1''"] by auto
  then show ?thesis using l f(2,3) by (auto split: if_splits)
qed

definition demo_rejected :: orders_db where
  "demo_rejected = snd (MerchantTransition 200 ''t1'' ''u9'' ''ord1'' ''rejected'' 0 ''closed'' demo_ordered)"

lemma demo_staff: "Membership ''u9'' ''m1'' (o_merchants demo_ordered) = Inr StOwner"
proof -
  have "o_merchants (snd (Create cfg dz gnow dnow i codes user key inp s)) = o_merchants s" for cfg dz gnow dnow i codes user key inp s
  proof (cases rule: Create_cases[of cfg dz gnow dnow i codes user key inp s])
    case (tx k pm inp' q m)
    have "o_merchants s' = o_merchants s" if "create_tx gnow dnow i codes user k pm inp' q m s = (res, s')" for res s'
      using that by (auto simp: create_tx_def Let_def orderEvent_def o_emit_def split: sum.splits prod.splits)
    then have "o_merchants (snd (begin_func (create_tx gnow dnow i codes user k pm inp' q m) s)) = o_merchants s"
      by (intro snd_begin_func_inv[where P = "\<lambda>t. o_merchants t = o_merchants s"]) auto
    then show ?thesis unfolding tx(8) by simp
  qed simp_all
  then show ?thesis by (simp add: demo_ordered_def demo_orders_def demo_shop_db_def demo_merchants_def Membership_def)
qed

theorem no_order_stuck_witness:
  "\<exists>to_name v s'. MerchantTransition 200 ''t1'' ''u9'' ''ord1'' to_name 0 ''closed'' demo_ordered = (Inr v, s') \<and>
     IsTerminal (od_state (ov_order v))"
proof -
  obtain r where r: "orders demo_ordered = [r]" "od_id r = ''ord1''" "od_state r = PendingMerchant" "od_merchant r = ''m1''"
    using demo_created by auto
  have "r \<in> set (orders demo_ordered)" "\<not> IsTerminal (od_state r)" "Membership ''u9'' (od_merchant r) (o_merchants demo_ordered) = Inr StOwner"
    "clip ''closed'' 200 \<noteq> []"
    using r demo_staff by (simp_all add: IsTerminal_def) code_simp
  from no_order_stuck[OF demo_order_reach this, of 200 "''t1''" 0] r show ?thesis by fastforce
qed

theorem finished_order_final_witness:
  "\<exists>r. orders demo_rejected = [r] \<and> od_state r = Rejected \<and>
     (\<exists>r' \<in> set (orders (snd (CancelByCustomer 300 ''u1'' ''ord1'' [] demo_rejected))). od_state r' = Rejected \<and> order_final r' = order_final r)"
proof -
  obtain r where r: "orders demo_ordered = [r]" "od_id r = ''ord1''" "od_state r = PendingMerchant" "od_merchant r = ''m1''"
    using demo_created by auto
  have c: "clip ''closed'' 200 = ''closed''" by code_simp
  have "\<exists>r'. orders demo_rejected = [r'] \<and> od_state r' = Rejected"
    using r demo_staff
    by (simp add: demo_rejected_def c MerchantTransition_def begin_func_def merchant_tx_def find_order_def state_names_def
        CanTransition_def can_transition_def merchant_update_def Let_def table_simps)
  then obtain r' where r': "orders demo_rejected = [r']" "od_state r' = Rejected" by blast
  have s: "orders_step\<^sup>*\<^sup>* demo_orders demo_rejected"
    unfolding demo_rejected_def by (rule rtranclp.rtrancl_into_rtrancl[OF demo_order_reach(2)]) (rule orders_step.merchant)
  have t: "orders_step\<^sup>*\<^sup>* demo_rejected (snd (CancelByCustomer 300 ''u1'' ''ord1'' [] demo_rejected))"
    by (rule r_into_rtranclp) (rule orders_step.cancel)
  have "r' \<in> set (orders demo_rejected)" "IsTerminal (od_state r')" using r' by (simp_all add: IsTerminal_def)
  from finished_order_final[OF demo_order_reach(1) s this t] r' show ?thesis by auto
qed

end
