(* ===== verification/Settlements.thy ===== *)
theory Settlements
  imports Rides
begin

text \<open>
  What the settlements of orders and parcels have in common: the wallet of the payee is created if it is
  missing, a plan is made from the row and the balances, and the plan's transaction is posted under a
  key that names the row. The locale proves from this shape that a settlement keeps the books balanced,
  moves exactly the postings of its plan, and moves nothing when it is repeated.
\<close>

lemma net_parts:
  "net c (debit a n # ps) = (if c = a then - n else 0) + net c ps"
  "net c (credit a n # ps) = (if c = a then n else 0) + net c ps"
  "0 \<le> n \<Longrightarrow> net c (if n > 0 then [credit a n] else []) = (if c = a then n else 0)"
  "0 \<le> n \<Longrightarrow> net c (if n > 0 then [debit a n] else []) = (if c = a then - n else 0)"
  by (auto simp: table_simps)

locale settlement =
  fixes account :: "'r \<Rightarrow> core \<Rightarrow> core" and plan :: "'r \<Rightarrow> core \<Rightarrow> plan" and key :: "'r \<Rightarrow> string"
  assumes account_bal [simp]: "bal a (account r s) = bal a s"
    and account_posted [simp]: "posted k (account r s) = posted k s"
    and account_inv: "ledger_inv s \<Longrightarrow> ledger_inv (account r s)"
    and plan_key: "plan r c = Pay st (Some tx) \<Longrightarrow> IdempotencyKey tx = key r"
begin

definition settle_core :: "time \<Rightarrow> uuid \<Rightarrow> 'r \<Rightarrow> core \<Rightarrow> core" where
  "settle_core dnow txi r c =
     (case plan r (account r c) of
        Pay _ (Some tx) \<Rightarrow> snd (Post dnow txi tx (account r c)) | _ \<Rightarrow> account r c)"

lemma settlement_inv: "ledger_inv c \<Longrightarrow> ledger_inv (settle_core dnow txi r c)"
  by (auto simp: settle_core_def Post_inv account_inv split: plan.splits option.splits)

lemma settlement_replay:
  assumes "posted (key r) c"
  shows "bal a (settle_core dnow txi r c) = bal a c"
proof -
  have "snd (Post dnow txi tx (account r c)) = account r c" if "plan r (account r c) = Pay st (Some tx)" for st tx
    using lg.post_replay[of tx "account r c" "(dnow, txi)"] plan_key[OF that] assms by simp
  then show ?thesis by (auto simp: settle_core_def split: plan.splits option.splits)
qed

lemma settlement_pays:
  assumes "plan r (account r c) = Pay st (Some tx)" "\<not> posted (key r) c" "fst (Post dnow txi tx (account r c)) = Inr i"
  shows "bal a (settle_core dnow txi r c) = bal a c + net a (Postings tx)" "posted (key r) (settle_core dnow txi r c)"
proof -
  have k: "IdempotencyKey tx = key r" using plan_key[OF assms(1)] .
  then have np: "\<not> posted (IdempotencyKey tx) (account r c)" using assms(2) by simp
  show "bal a (settle_core dnow txi r c) = bal a c + net a (Postings tx)"
    using bal_Post_fresh[OF np assms(3), of a] assms(1) by (simp add: settle_core_def)
  show "posted (key r) (settle_core dnow txi r c)"
    using lg.post_marks[of "(dnow, txi)" tx "account r c" i] assms k by (simp add: settle_core_def)
qed

lemma settlement_nothing: "plan r (account r c) = Pay st None \<Longrightarrow> bal a (settle_core dnow txi r c) = bal a c"
  by (simp add: settle_core_def)

end

end
