(* ===== verification/OrderMoney.thy ===== *)
theory OrderMoney
  imports OrderProtocol Settlements
begin

text \<open>
  What an order costs and who gets the money: when a shop counts as open, what the checkout accepts
  and records, and what the settlement of a delivered order does to the ledger.
\<close>

section \<open>Opening hours, twice\<close>

lemma second_of_day_time: "second_of_day z t = time_of_day z t div Second"
  by (simp add: second_of_day_def time_of_day_def)

lemma before_minute:
  assumes "n mod 60 = (0 :: int)"
  shows "t < n * Second \<longleftrightarrow> t div Second div 60 < n div 60"
proof -
  have n: "n div 60 * 60 = n" using assms div_mult_mod_eq[of n 60] by linarith
  have "x div 60 < k \<longleftrightarrow> x < k * 60" "x div Second < k \<longleftrightarrow> x < k * Second" for x k :: int by linarith+
  then have "t div Second div 60 < n div 60 \<longleftrightarrow> t div Second < n" "t div Second < n \<longleftrightarrow> t < n * Second" using n by simp_all
  then show ?thesis by simp
qed

lemma sql_row_open:
  assumes "hours_row_ok h"
  shows "(let d = weekday_of z t; u = time_of_day z t in
      hw_closes h > hw_opens h \<and> hw_weekday h = d \<and> u \<ge> hw_opens h * Second \<and> u < hw_closes h * Second \<or>
      hw_closes h \<le> hw_opens h \<and>
        (hw_weekday h = d \<and> u \<ge> hw_opens h * Second \<or> hw_weekday h = (d + 6) mod 7 \<and> u < hw_closes h * Second))
    \<longleftrightarrow> open_interval (weekday_of z t) (second_of_day z t div 60) (read_hours h)"
proof -
  have b: "0 \<le> hw_opens h" "hw_opens h < 86400" "0 \<le> hw_closes h" "hw_closes h < 86400"
    and m: "hw_opens h mod 60 = 0" "hw_closes h mod 60 = 0"
    using assms by (simp_all add: hours_row_ok_def)
  note o = before_minute[OF m(1)] and c = before_minute[OF m(2)]
  have e: "hw_closes h > hw_opens h \<longleftrightarrow> hw_closes h div 60 > hw_opens h div 60"
    using m by (auto simp: mod_eq_0_iff_dvd dvd_def)
  have p: "parseHM (Opens (read_hours h)) = Some (hw_opens h div 60)" "parseHM (Closes (read_hours h)) = Some (hw_closes h div 60)"
    "Weekday (read_hours h) = hw_weekday h"
    using b by (simp_all add: read_hours_def parseHM_to_char)
  show ?thesis unfolding open_interval_def p second_of_day_time Let_def by (auto simp: o c e not_less[symmetric])
qed

text \<open>
  The checkout and the shop's page agree on when a shop is open: the query with which the order
  module decides whether to accept an order, and the loop with which the merchant module shows the shop
  as open, give the same answer at every moment for every shop, given that the database session and the
  server are in the same time zone; both say that the current minute of the week lies in the interval of
  one of the shop's rows, which may run past midnight and past the end of the week.
\<close>
theorem openNow_OpenAt:
  assumes "\<forall>h \<in> set (hours_rows db). hours_row_ok h"
  shows "(openNow z t i db \<longleftrightarrow> OpenAt (hours_of i db) z t) \<and>
    (openNow z t i db \<longleftrightarrow> (\<exists>h \<in> set (hours_rows db). hw_merchant h = i \<and> row_covers h (minute_of_week z t)))"
proof -
  have "openNow z t i db \<longleftrightarrow> (\<exists>h \<in> set (hours_rows db). hw_merchant h = i \<and>
      open_interval (weekday_of z t) (second_of_day z t div 60) (read_hours h))"
    using sql_row_open assms unfolding openNow_def exists_where_iff by blast
  also have "\<dots> \<longleftrightarrow> OpenAt (hours_of i db) z t" unfolding OpenAt_def list_ex_iff set_hours_of by blast
  finally show ?thesis using OpenAt_covers[OF assms] by blast
qed

theorem openNow_OpenAt_witness:
  "openNow 0 100 ''m1'' demo_shop_db = OpenAt (hours_of ''m1'' demo_shop_db) 0 100"
proof -
  have "\<forall>h \<in> set (hours_rows demo_shop_db). hours_row_ok h" by (simp add: demo_shop_db_def hours_row_ok_def)
  from openNow_OpenAt[OF this, of 0 100 "''m1''"] show ?thesis by blast
qed

section \<open>The settlement\<close>

definition order_key :: "order \<Rightarrow> string" where "order_key r = ''order:'' @ od_id r @ '':settle''"

definition settle_account :: "order \<Rightarrow> core \<Rightarrow> core" where
  "settle_account r c = EnsureAccount (MerchantWalletCode (od_merchant r)) ''merchant'' (Some (od_merchant r)) ''liability'' (od_currency r) c"

lemma order_plan_key: "settle_plan r com c = Pay st (Some tx) \<Longrightarrow> IdempotencyKey tx = order_key r"
  by (auto simp: settle_plan_def order_tx_def order_key_def split: sum.splits if_splits)

lemma order_account_simps [simp]:
  "bal c (settle_account r s) = bal c s" "posted k (settle_account r s) = posted k s"
  by (simp_all add: settle_account_def)

interpretation os: settlement "\<lambda>x. settle_account (fst x)" "\<lambda>x. settle_plan (fst x) (snd x)" "\<lambda>x. order_key (fst x)"
  by unfold_locales (simp_all add: settle_account_def EnsureAccount_inv order_plan_key)

abbreviation settle_core :: "time \<Rightarrow> uuid \<Rightarrow> order \<Rightarrow> int \<Rightarrow> core \<Rightarrow> core" where
  "settle_core dnow txi r com \<equiv> os.settle_core dnow txi (r, com)"

lemma finish_core: "\<exists>ob. o_core (snd (finish_settlement dnow r st com s)) = (o_core s)\<lparr>outbox := ob\<rparr>"
  by (auto simp: finish_settlement_def begin_func_def o_emit_def set_payment_def)

lemma order_settle_ledger:
  assumes "od_state r = Delivered" "od_pay r = PayPending" "merchant_row (od_merchant r) s = Some m"
  shows "\<exists>ob. o_core (snd (settle dnow txi r s)) = (settle_core dnow txi r (order_commission r m) (o_core s))\<lparr>outbox := ob\<rparr>"
proof -
  define s1 where "s1 = s\<lparr>o_core := settle_account r (o_core s)\<rparr>"
  let ?com = "order_commission r m"
  have c1: "o_core s1 = settle_account r (o_core s)" by (simp add: s1_def)
  have same: "\<exists>ob. c = c\<lparr>outbox := ob\<rparr>" for c :: core by (rule exI[of _ "outbox c"]) simp
  have e: "settle dnow txi r s = (case settle_plan r ?com (o_core s1) of
                Reject e \<Rightarrow> (Inl e, s1)
              | Fail_payment \<Rightarrow> (Inr (), set_payment dnow (od_id r) (\<lambda>x. x\<lparr>od_pay := PayFailed\<rparr>) s1)
              | Pay st None \<Rightarrow> finish_settlement dnow r st ?com s1
              | Pay st (Some tx) \<Rightarrow>
                  (case Post dnow txi tx (o_core s1) of
                     (Inl e, c) \<Rightarrow> (Inl e, s1\<lparr>o_core := c\<rparr>)
                   | (Inr _, c) \<Rightarrow> finish_settlement dnow r st ?com (s1\<lparr>o_core := c\<rparr>)))"
    unfolding s1_def settle_account_def using assms by (simp add: settle_def Let_def)
  show ?thesis
  proof (cases "settle_plan r ?com (o_core s1)")
    case (Reject e')
    then show ?thesis using e c1 same by (simp add: os.settle_core_def)
  next
    case Fail_payment
    then show ?thesis using e c1 same by (simp add: os.settle_core_def set_payment_def)
  next
    case (Pay st txo)
    show ?thesis
    proof (cases txo)
      case None
      then show ?thesis using e c1 Pay finish_core[of dnow r st ?com s1] by (simp add: os.settle_core_def)
    next
      case (Some tx)
      obtain res c where pc: "Post dnow txi tx (o_core s1) = (res, c)" by (cases "Post dnow txi tx (o_core s1)")
      show ?thesis
        using e c1 Pay Some pc same finish_core[of dnow r st ?com "s1\<lparr>o_core := c\<rparr>"] by (cases res) (simp_all add: os.settle_core_def)
    qed
  qed
qed

lemma settle_ledger_eqs:
  assumes "od_state r = Delivered" "od_pay r = PayPending" "merchant_row (od_merchant r) s = Some m"
  shows "bal c (o_core (snd (settle dnow txi r s))) = bal c (settle_core dnow txi r (order_commission r m) (o_core s))"
    "posted k (o_core (snd (settle dnow txi r s))) = posted k (settle_core dnow txi r (order_commission r m) (o_core s))"
    "ledger_inv (o_core (snd (settle dnow txi r s))) = ledger_inv (settle_core dnow txi r (order_commission r m) (o_core s))"
  using order_settle_ledger[OF assms, of dnow txi] by auto

lemma order_settle_again: "posted (order_key r) (o_core s) \<Longrightarrow> bal c (o_core (snd (settle dnow txi r s))) = bal c (o_core s)"
proof (cases "(od_state r \<noteq> Delivered \<or> od_pay r \<noteq> PayPending) \<or> merchant_row (od_merchant r) s = None")
  case True
  then show ?thesis by (auto simp: settle_def)
next
  case False
  then obtain m where m: "od_state r = Delivered" "od_pay r = PayPending" "merchant_row (od_merchant r) s = Some m" by auto
  assume "posted (order_key r) (o_core s)"
  then show ?thesis unfolding settle_ledger_eqs(1)[OF m] by (intro os.settlement_replay) simp
qed

text \<open>Who gains what: the effect of a settlement on the balance of an account.\<close>

definition settlement_effect :: "order \<Rightarrow> int \<Rightarrow> string \<Rightarrow> int" where
  "settlement_effect r com c =
     (if od_method r = Wallet \<and> c = UserWalletCode (od_customer r) then - od_total r else 0) +
     (if c = MerchantWalletCode (od_merchant r)
      then (if od_method r = Wallet then od_items_total r - com else od_discount r - com - od_fee r) else 0) +
     (if c = ''krejt:commission'' then com else 0) + (if c = ''krejt:delivery_fees'' then od_fee r else 0) -
     (if c = MarketingAccount then od_discount r else 0)"

lemma commission_bounds:
  assumes "0 \<le> od_items_total r" "od_items_total r \<le> 100000000000000" "0 \<le> me_commission m" "me_commission m \<le> 10000"
  shows "order_commission r m = (od_items_total r * me_commission m + 5000) div 10000"
    "0 \<le> order_commission r m" "order_commission r m \<le> od_items_total r"
proof -
  let ?p = "od_items_total r * me_commission m"
  have p: "0 \<le> ?p" "?p \<le> 100000000000000 * 10000" using assms by (simp, intro mult_mono) auto
  then have "in64 ?p" "in64 (?p + 5000)" by (simp_all add: in64_def)
  then show e: "order_commission r m = (?p + 5000) div 10000"
    using p by (simp add: order_commission_def mul64_id add64_id quot_nonneg)
  show "0 \<le> order_commission r m" unfolding e using p by simp
  have "?p \<le> od_items_total r * 10000" using assms by (intro mult_left_mono) auto
  then show "order_commission r m \<le> od_items_total r" unfolding e by linarith
qed

lemma postings_net:
  assumes "0 \<le> com" "com \<le> od_items_total r" "0 \<le> od_items_total r" "od_items_total r \<le> 100000000000000"
    "0 \<le> od_fee r" "od_fee r \<le> 100000000000000" "0 \<le> od_discount r"
  shows "od_method r = Wallet \<Longrightarrow> net c (wallet_postings r com) = settlement_effect r com c"
    "od_method r \<noteq> Wallet \<Longrightarrow> net c (cash_postings r com) = settlement_effect r com c"
proof -
  have w: "sub64 (od_items_total r) com = od_items_total r - com" "add64 com (od_fee r) = com + od_fee r"
    using assms by (auto intro!: sub64_id add64_id simp: in64_def)
  show "od_method r = Wallet \<Longrightarrow> net c (wallet_postings r com) = settlement_effect r com c"
    using assms by (simp add: wallet_postings_def settlement_effect_def w net_append net_parts net_Nil)
  show "od_method r \<noteq> Wallet \<Longrightarrow> net c (cash_postings r com) = settlement_effect r com c"
    using assms by (simp add: cash_postings_def settlement_effect_def w net_append net_parts net_Nil Let_def)
qed

lemma settle_moves_money:
  assumes "od_state r = Delivered" "od_pay r = PayPending" "merchant_row (od_merchant r) s = Some m"
    "\<not> posted (order_key r) (o_core s)" "fst (settle dnow txi r s) = Inr ()"
    "settle_plan r (order_commission r m) (settle_account r (o_core s)) = Pay st (Some tx)"
  shows "bal c (o_core (snd (settle dnow txi r s))) = bal c (o_core s) + net c (Postings tx)"
    "posted (order_key r) (o_core (snd (settle dnow txi r s)))"
proof -
  let ?c = "settle_account r (o_core s)"
  obtain i where i: "fst (Post dnow txi tx ?c) = Inr i"
    using assms by (cases "Post dnow txi tx ?c"; cases "fst (Post dnow txi tx ?c)")
      (simp_all add: settle_def Let_def settle_account_def[symmetric])
  note P = os.settlement_pays[of "(r, order_commission r m)" "o_core s" st tx dnow txi i, unfolded fst_conv snd_conv, OF assms(6,4) i]
  show "bal c (o_core (snd (settle dnow txi r s))) = bal c (o_core s) + net c (Postings tx)"
    unfolding settle_ledger_eqs(1)[OF assms(1-3)] by (rule P(1))
  show "posted (order_key r) (o_core (snd (settle dnow txi r s)))"
    unfolding settle_ledger_eqs(2)[OF assms(1-3)] by (rule P(2))
qed

text \<open>
  C16. A delivered order is settled exactly once and divided exactly. When its settlement goes through,
  the platform's commission is the merchant's rate on the items, rounded half up, between nothing and
  the items. With the wallet the customer pays the total, the merchant receives the items less the
  commission; with cash, which the merchant's side keeps, the merchant owes commission and delivery fee
  and is credited the discount; in both cases the delivery fee goes to the platform, the discount is
  borne by the marketing account, no other account changes and the books stay balanced. Any later
  settlement of the same order, whatever has happened since, moves nothing.
\<close>
theorem order_settled_once:
  assumes "ledger_inv (o_core s)" "od_state r = Delivered" "od_pay r = PayPending" "merchant_row (od_merchant r) s = Some m"
    "0 \<le> od_items_total r" "od_items_total r \<le> 100000000000000" "0 \<le> me_commission m" "me_commission m \<le> 10000"
    "0 \<le> od_fee r" "od_fee r \<le> 100000000000000" "0 \<le> od_discount r"
    "\<not> posted (order_key r) (o_core s)" "fst (settle dnow txi r s) = Inr ()"
    "od_method r = Wallet \<longrightarrow> od_total r \<le> bal (UserWalletCode (od_customer r)) (o_core s)"
  shows "let com = (od_items_total r * me_commission m + 5000) div 10000; s' = snd (settle dnow txi r s) in
    0 \<le> com \<and> com \<le> od_items_total r \<and> ledger_inv (o_core s') \<and>
    (\<forall>c. bal c (o_core s') = bal c (o_core s) + settlement_effect r com c) \<and>
    (od_method r = Wallet \<or> com > 0 \<or> od_fee r > 0 \<or> od_discount r > 0 \<longrightarrow> posted (order_key r) (o_core s')) \<and>
    (\<forall>t r' dnow' txi' c. posted (order_key r) (o_core t) \<and> od_id r' = od_id r \<longrightarrow>
       bal c (o_core (snd (settle dnow' txi' r' t))) = bal c (o_core t))"
proof -
  note com = commission_bounds[OF assms(5-8)]
  let ?com = "order_commission r m"
  let ?c = "settle_account r (o_core s)"
  note net = postings_net[OF com(2,3) assms(5,6,9-11)]
  have owed: "add64 ?com (od_fee r) = ?com + od_fee r" using com assms by (intro add64_id) (simp add: in64_def)
  have money: "(\<forall>c. bal c (o_core (snd (settle dnow txi r s))) = bal c (o_core s) + settlement_effect r ?com c) \<and>
     (od_method r = Wallet \<or> ?com > 0 \<or> od_fee r > 0 \<or> od_discount r > 0 \<longrightarrow> posted (order_key r) (o_core (snd (settle dnow txi r s))))"
  proof (cases "od_method r = Wallet")
    case True
    obtain b where b: "Balance (UserWalletCode (od_customer r)) ?c = Inr b"
      using assms(2-4,13) True by (cases "Balance (UserWalletCode (od_customer r)) ?c")
        (simp_all add: settle_def Let_def settle_plan_def settle_account_def[symmetric])
    then have "\<not> Minor b < od_total r" using Balance_bal[OF b] assms(14) True by simp
    then have p: "settle_plan r ?com ?c = Pay PayPaid (Some (order_tx ''order_payment'' r (wallet_postings r ?com)))"
      using True b by (simp add: settle_plan_def)
    show ?thesis using settle_moves_money[OF assms(2-4,12,13) p] net(1)[OF True] by (simp add: order_tx_def)
  next
    case False
    show ?thesis
    proof (cases "?com + od_fee r > 0 \<or> od_discount r > 0")
      case True
      then have "cash_postings r ?com \<noteq> []" by (auto simp: cash_postings_def owed Let_def)
      then have p: "settle_plan r ?com ?c = Pay PayCash (Some (order_tx ''order_cash_fees'' r (cash_postings r ?com)))"
        using False True by (simp add: settle_plan_def owed)
      show ?thesis using settle_moves_money[OF assms(2-4,12,13) p] net(2)[OF False] by (simp add: order_tx_def)
    next
      case none: False
      then have z: "?com = 0" "od_fee r = 0" "od_discount r = 0" using com(2) assms(9,11) by auto
      then have p: "settle_plan r ?com ?c = Pay PayCash None" using False by (simp add: settle_plan_def add64_def wrap64_def)
      show ?thesis using p z False unfolding settle_ledger_eqs(1)[OF assms(2-4)]
        by (simp add: os.settle_core_def settlement_effect_def)
    qed
  qed
  have again: "bal c (o_core (snd (settle dnow' txi' r' t))) = bal c (o_core t)"
    if "posted (order_key r) (o_core t)" "od_id r' = od_id r" for t r' dnow' txi' c
    using order_settle_again[of r' t] that by (simp add: order_key_def)
  have "ledger_inv (o_core (snd (settle dnow txi r s)))"
    unfolding settle_ledger_eqs(3)[OF assms(2-4)] by (rule os.settlement_inv[OF assms(1)])
  then show ?thesis using money again com unfolding Let_def by simp
qed

definition demo_delivered :: order where
  "demo_delivered = \<lparr>od_id = ''ord1'', od_code = ''K7F3QA'', od_customer = ''u1'', od_merchant = ''m1'', od_courier = None,
     od_state = Delivered, od_fulfillment = ''pickup'', od_method = Cash, od_pay = PayPending, od_items_total = 1200, od_fee = 0,
     od_discount = 0, od_total = 1200, od_commission = None, od_currency = ''EUR'', od_address = None, od_point = None,
     od_instructions = None, od_note = None, od_prep = 20, od_ready_estimate = 0, od_cancelled_by = None, od_reason = None,
     od_created = 0, od_accepted_at = None, od_ready_at = None, od_picked_at = None, od_delivered_at = Some 100,
     od_cancelled_at = None, od_updated = 100, od_idem = ''k1'', od_coupon = None\<rparr>"

definition demo_books :: core where
  "demo_books = EnsureAccount ''krejt:commission'' ''platform'' None ''revenue'' ''EUR'' empty_core"

lemma demo_cash_post:
  "fst (Post 200 ''t9'' (order_tx ''order_cash_fees'' demo_delivered (cash_postings demo_delivered 180))
     (settle_account demo_delivered demo_books)) = Inr ''t9''"
  "\<not> posted (order_key demo_delivered) demo_books" "cash_postings demo_delivered 180 \<noteq> []" "add64 180 (od_fee demo_delivered) = 180"
  "bal (MerchantWalletCode ''m1'') demo_books = 0" "bal ''krejt:commission'' demo_books = 0"
  "MerchantWalletCode ''m1'' \<noteq> ''krejt:commission''" "MerchantWalletCode ''m1'' \<noteq> ''krejt:delivery_fees''"
  "MerchantWalletCode ''m1'' \<noteq> MarketingAccount" "''krejt:commission'' \<noteq> MarketingAccount"
  by code_simp+

theorem order_settled_once_witness:
  "let s' = snd (settle 200 ''t9'' demo_delivered (demo_orders\<lparr>o_core := demo_books\<rparr>)) in
   bal (MerchantWalletCode ''m1'') (o_core s') = - 180 \<and> bal ''krejt:commission'' (o_core s') = 180"
proof -
  let ?s = "demo_orders\<lparr>o_core := demo_books\<rparr>"
  have inv: "ledger_inv (o_core ?s)" by (simp add: demo_books_def EnsureAccount_inv ledger_inv_empty)
  have d: "od_state demo_delivered = Delivered" "od_pay demo_delivered = PayPending" "od_items_total demo_delivered = 1200"
    "od_fee demo_delivered = 0" "od_discount demo_delivered = 0" "od_method demo_delivered = Cash" "od_merchant demo_delivered = ''m1''"
    by (simp_all add: demo_delivered_def)
  have m: "merchant_row (od_merchant demo_delivered) ?s = Some demo_merchant"
    by (simp add: merchant_row_def demo_orders_def demo_shop_db_def demo_merchant_def d)
  have c: "me_commission demo_merchant = 1500" by (simp add: demo_merchant_def)
  have com: "order_commission demo_delivered demo_merchant = 180"
    using commission_bounds(1)[of demo_delivered demo_merchant] d c by simp
  have plan: "settle_plan demo_delivered 180 (settle_account demo_delivered demo_books) =
      Pay PayCash (Some (order_tx ''order_cash_fees'' demo_delivered (cash_postings demo_delivered 180)))"
    using demo_cash_post(3,4) d by (simp add: settle_plan_def)
  obtain c1 where "Post 200 ''t9'' (order_tx ''order_cash_fees'' demo_delivered (cash_postings demo_delivered 180))
     (settle_account demo_delivered demo_books) = (Inr ''t9'', c1)" using demo_cash_post(1) by (metis prod.collapse)
  moreover have "EnsureAccount (MerchantWalletCode ''m1'') ''merchant'' (Some ''m1'') ''liability'' (od_currency demo_delivered) demo_books =
      settle_account demo_delivered demo_books" by (simp add: settle_account_def d)
  ultimately have ok: "fst (settle 200 ''t9'' demo_delivered ?s) = Inr ()"
    using plan m com d by (simp add: settle_def Let_def finish_settlement_def)
  show ?thesis
    using order_settled_once[OF inv d(1,2) m, of 200 "''t9''"] d c ok demo_cash_post by (simp add: settlement_effect_def Let_def)
qed

section \<open>The checkout\<close>

lemma price_lines_Inr:
  assumes "price_lines i db sels q = Inr q'"
  shows "\<exists>lines. list_all2 (\<lambda>sel line. Price i sel db = Inr line) sels lines \<and> oqItems q' = oqItems q @ lines \<and>
     oqItemsTotal q' = foldl add64 (oqItemsTotal q) (map plTotal lines) \<and>
     oqFee q' = oqFee q \<and> oqDiscount q' = oqDiscount q \<and> oqCoupon q' = oqCoupon q \<and> oqOpen q' = oqOpen q"
  using assms
proof (induction sels arbitrary: q)
  case (Cons sel sels)
  obtain line where line: "Price i sel db = Inr line" using Cons.prems by (cases "Price i sel db") auto
  let ?q = "q\<lparr>oqItems := oqItems q @ [line], oqItemsTotal := add64 (oqItemsTotal q) (plTotal line), oqCurrency := plCurrency line\<rparr>"
  have "price_lines i db sels ?q = Inr q'" using Cons.prems line by simp
  from Cons.IH[OF this] obtain lines where "list_all2 (\<lambda>sel line. Price i sel db = Inr line) sels lines"
     "oqItems q' = oqItems ?q @ lines" "oqItemsTotal q' = foldl add64 (oqItemsTotal ?q) (map plTotal lines)"
     "oqFee q' = oqFee ?q" "oqDiscount q' = oqDiscount ?q" "oqCoupon q' = oqCoupon ?q" "oqOpen q' = oqOpen ?q" by blast
  then show ?case using line by (intro exI[of _ "line # lines"]) simp
qed simp

lemma price_coupon_Inr:
  assumes "price_coupon cfg gnow user coupon db q = Inr q'"
  shows "oqItems q' = oqItems q \<and> oqItemsTotal q' = oqItemsTotal q \<and> oqFee q' = oqFee q \<and> oqOpen q' = oqOpen q \<and>
    (if Normalize coupon = [] then q' = q
     else \<exists>a. Apply gnow (Normalize coupon) user ScopeFood (oqItemsTotal q) db = Inr a \<and> oqDiscount q' = ap_discount a \<and> oqCoupon q' = ap_code a)"
  using assms by (auto simp: price_coupon_def Let_def split: if_splits sum.splits)

lemma Apply_discount: "Apply gnow code user scope base db = Inr a \<Longrightarrow> 0 \<le> base \<Longrightarrow> 0 \<le> ap_discount a \<and> ap_discount a \<le> base"
  using Discount_range by (auto simp: Apply_def Let_def split: if_splits option.splits)

lemma lines_total:
  assumes "catalog_inv db" "\<forall>sel \<in> set sels. length (slOptions sel) \<le> 1000000" "length sels \<le> 50"
    "list_all2 (\<lambda>sel line. Price i sel db = Inr line) sels lines"
  shows "foldl add64 0 (map plTotal lines) = sum_list (map plTotal lines)" "0 \<le> sum_list (map plTotal lines)"
    "sum_list (map plTotal lines) \<le> 250250000000000"
proof -
  have l: "length lines = length sels" using list_all2_lengthD[OF assms(4)] by simp
  have b: "0 \<le> plTotal line \<and> plTotal line \<le> 5005000000000" if line: "line \<in> set lines" for line
  proof -
    obtain k where "k < length lines" "lines ! k = line" using line by (auto simp: in_set_conv_nth)
    then have "Price i (sels ! k) db = Inr line" "sels ! k \<in> set sels" using list_all2_nthD2[OF assms(4)] l by auto
    then show ?thesis using Price_Inr assms(1,2) by blast
  qed
  have d: "\<forall>d \<in> set (map plTotal lines). \<bar>d\<bar> \<le> 5005000000000" using b by fastforce
  have n: "5005000000000 * int (length (map plTotal lines)) \<le> 5005000000000 * 50" using l assms(3) by (intro mult_left_mono) auto
  then have "\<bar>0 :: int\<bar> + 5005000000000 * int (length (map plTotal lines)) < 2 ^ 63" by simp
  from foldl_add64[OF d this] show "foldl add64 0 (map plTotal lines) = sum_list (map plTotal lines)" by simp
  show "0 \<le> sum_list (map plTotal lines)" using b by (intro sum_list_nonneg) auto
  show "sum_list (map plTotal lines) \<le> 250250000000000" using sum_list_bound[OF d] n by linarith
qed

lemma price_Inr:
  assumes "price cfg dz gnow dnow user inp s = Inr (q, m)" "catalog_inv (o_catalog s)"
    "\<forall>sel \<in> set (ckItems inp). length (slOptions sel) \<le> 1000000"
  shows "merchant_row (ckMerchant inp) s = Some m" "me_status m = MActive" "me_accepting m"
    "oqOpen q = openNow dz dnow (ckMerchant inp) (o_merchants s)"
    "list_all2 (\<lambda>sel line. Price (ckMerchant inp) sel (o_catalog s) = Inr line) (ckItems inp) (oqItems q)"
    "oqItemsTotal q = sum_list (map plTotal (oqItems q))"
    "oqFee q = (if chosen_fulfillment inp m = ''pickup'' then 0 else me_fee m)"
    "0 \<le> oqDiscount q" "oqDiscount q \<le> oqItemsTotal q" "Normalize (ckCoupon inp) = [] \<Longrightarrow> oqDiscount q = 0"
proof -
  show m: "merchant_row (ckMerchant inp) s = Some m" and act: "me_status m = MActive" "me_accepting m"
    using assms(1) by (auto simp: price_def Let_def split: if_splits option.splits sum.splits)
  have n: "length (ckItems inp) \<le> 50" using assms(1) by (auto simp: price_def split: if_splits)
  let ?q0 = "\<lparr>oqItems = [], oqItemsTotal = 0, oqFee = 0, oqDiscount = 0, oqCoupon = [], oqTotal = 0,
                      oqMinOrder = me_min_order m, oqCurrency = ''EUR'', oqPrep = me_prep m,
                      oqOpen = openNow dz dnow (ckMerchant inp) (o_merchants s)\<rparr>"
  obtain q1 where q1: "price_lines (ckMerchant inp) (o_catalog s) (ckItems inp) ?q0 = Inr q1"
    using assms(1) m act by (cases "price_lines (ckMerchant inp) (o_catalog s) (ckItems inp) ?q0") (auto simp: price_def split: if_splits)
  let ?q2 = "if chosen_fulfillment inp m \<noteq> ''pickup'' then q1\<lparr>oqFee := me_fee m\<rparr> else q1"
  obtain q3 where q3: "price_coupon cfg gnow user (ckCoupon inp) (o_promos s) ?q2 = Inr q3"
    and q: "q = q3\<lparr>oqTotal := sub64 (add64 (oqItemsTotal q3) (oqFee q3)) (oqDiscount q3)\<rparr>"
    using assms(1) m act q1 by (auto simp: price_def Let_def split: if_splits sum.splits)
  obtain lines where L: "list_all2 (\<lambda>sel line. Price (ckMerchant inp) sel (o_catalog s) = Inr line) (ckItems inp) lines"
    "oqItems q1 = lines" "oqItemsTotal q1 = foldl add64 0 (map plTotal lines)" "oqFee q1 = 0" "oqDiscount q1 = 0"
    "oqOpen q1 = openNow dz dnow (ckMerchant inp) (o_merchants s)"
    using price_lines_Inr[OF q1] by auto
  note C = price_coupon_Inr[OF q3]
  note T = lines_total[OF assms(2,3) n L(1)]
  show "oqOpen q = openNow dz dnow (ckMerchant inp) (o_merchants s)"
    "list_all2 (\<lambda>sel line. Price (ckMerchant inp) sel (o_catalog s) = Inr line) (ckItems inp) (oqItems q)"
    "oqItemsTotal q = sum_list (map plTotal (oqItems q))"
    "oqFee q = (if chosen_fulfillment inp m = ''pickup'' then 0 else me_fee m)"
    using C L T q by (simp_all split: if_splits)
  have t: "oqItemsTotal ?q2 = sum_list (map plTotal lines)" "oqDiscount ?q2 = 0" using L T by simp_all
  have d: "0 \<le> oqDiscount q3 \<and> oqDiscount q3 \<le> oqItemsTotal ?q2"
  proof (cases "Normalize (ckCoupon inp) = []")
    case True
    then have "q3 = ?q2" using C by metis
    then show ?thesis using t T(2) by simp
  next
    case False
    then obtain a where "Apply gnow (Normalize (ckCoupon inp)) user ScopeFood (oqItemsTotal ?q2) (o_promos s) = Inr a" "oqDiscount q3 = ap_discount a"
      using C by metis
    then show ?thesis using Apply_discount[of gnow "Normalize (ckCoupon inp)" user ScopeFood "oqItemsTotal ?q2"] t T(2) by simp
  qed
  then show "0 \<le> oqDiscount q" "oqDiscount q \<le> oqItemsTotal q" using C q by simp_all
  show "oqDiscount q = 0" if "Normalize (ckCoupon inp) = []"
  proof -
    have "q3 = ?q2" using C that by metis
    then show ?thesis using q t by simp
  qed
qed

lemma validate_checkout_Inr:
  assumes "validate_checkout idemKey inp = Inr (k, pm, inp')"
  shows "k = TrimSpace idemKey" "ckMerchant inp' = ckMerchant inp" "ckItems inp' = ckItems inp" "ckCoupon inp' = ckCoupon inp"
    "ckAddress inp' = ckAddress inp" "ckAddressLine inp' = ckAddressLine inp" "chosen_fulfillment inp' m = chosen_fulfillment inp m"
    "pm = (if ckMethod inp = ''wallet'' then Wallet else Cash)" "address_missing inp' = address_missing inp"
  using assms by (auto simp: validate_checkout_def Let_def chosen_fulfillment_def address_missing_def split: if_splits option.splits)

lemma create_tx_Inr:
  assumes "create_tx gnow dnow i codes user k pm inp q m s = (Inr r, s')"
  shows "\<exists>code. r = new_order gnow dnow i code user k pm inp q m \<and> order_checks r \<and> orders s' = orders s @ [r] \<and>
    order_items s' = order_items s @ map (\<lambda>line. \<lparr>it_order = i, it_line = line\<rparr>) (oqItems q) \<and>
    (\<forall>x \<in> set (orders s). od_id x \<noteq> i \<and> od_code x \<noteq> od_code r)"
proof -
  from assms have ins: "insert_attempts False (\<lambda>code. new_order gnow dnow i code user k pm inp q m) (take 5 codes) (orders s) = Inr r"
    and o: "orders s' = orders s @ [r]"
    and it: "order_items s' = order_items s @ map (\<lambda>line. \<lparr>it_order = i, it_line = line\<rparr>) (oqItems q)"
    by (auto simp: create_tx_def Let_def o_emit_def orderEvent_def split: sum.splits prod.splits)
  obtain code where "r = new_order gnow dnow i code user k pm inp q m" "order_checks r"
    "\<forall>x \<in> set (orders s). od_id x \<noteq> od_id r \<and> od_code x \<noteq> od_code r"
    using insert_attempts_Inr[OF ins] by blast
  then show ?thesis using o it by (intro exI[of _ code]) (simp add: new_order_def)
qed

text \<open>
  C17. What the checkout promises. An order that is created, and was not there before under the same
  key, is for a merchant that is active, accepts orders and is open now; its items are exactly the
  selections of the request at the prices of the catalogue, the items' total is the sum of the lines
  and at least the merchant's minimum; the delivery fee is the merchant's unless the order is picked up,
  in which case there is none, and otherwise the address lies in Kosovo; the discount is between nothing
  and the items, and nothing without a coupon; with the wallet the balance covers the total. Sending
  a request with the same key again, however changed, returns this order and changes nothing, as long as
  it passes the validation of its fields.
\<close>
theorem Create_prices_cart:
  assumes "catalog_inv (o_catalog s)" "\<forall>sel \<in> set (ckItems inp). length (slOptions sel) \<le> 1000000"
    "find (\<lambda>r. od_customer r = user \<and> od_idem r = TrimSpace idemKey) (orders s) = None"
    "Create cfg dz gnow dnow i codes user idemKey inp s = (Inr v, s')"
  shows "\<exists>m lines r. merchant_row (ckMerchant inp) s = Some m \<and> me_status m = MActive \<and> me_accepting m \<and>
    openNow dz dnow (ckMerchant inp) (o_merchants s) \<and>
    list_all2 (\<lambda>sel line. Price (ckMerchant inp) sel (o_catalog s) = Inr line) (ckItems inp) lines \<and>
    orders s' = orders s @ [r] \<and> v = withItems s' r \<and>
    order_items s' = order_items s @ map (\<lambda>line. \<lparr>it_order = i, it_line = line\<rparr>) lines \<and>
    od_id r = i \<and> od_customer r = user \<and> od_merchant r = ckMerchant inp \<and> od_state r = PendingMerchant \<and> od_pay r = PayPending \<and>
    od_items_total r = sum_list (map plTotal lines) \<and> me_min_order m \<le> od_items_total r \<and>
    od_fee r = (if od_fulfillment r = ''pickup'' then 0 else me_fee m) \<and>
    (od_fulfillment r = ''pickup'' \<or> (\<exists>p. ckAddress inp = Some p \<and> InKosovo p)) \<and>
    0 \<le> od_discount r \<and> od_discount r \<le> od_items_total r \<and> (Normalize (ckCoupon inp) = [] \<longrightarrow> od_discount r = 0) \<and>
    od_total r = sub64 (add64 (od_items_total r) (od_fee r)) (od_discount r) \<and>
    (od_method r = Wallet \<longrightarrow> od_total r \<le> bal_or_zero (UserWalletCode user) (o_core s)) \<and>
    (\<forall>cfg' dz' gnow' dnow' i' codes' idemKey' inp' x. validate_checkout idemKey' inp' = Inr x \<and> TrimSpace idemKey' = TrimSpace idemKey \<longrightarrow>
       Create cfg' dz' gnow' dnow' i' codes' user idemKey' inp' s' = (Inr v, s'))"
proof (cases rule: Create_cases[of cfg dz gnow dnow i codes user idemKey inp s])
  case (refused e)
  then show ?thesis using assms(4) by simp
next
  case (known k pm inp' r)
  then show ?thesis using assms(3) validate_checkout_Inr(1)[OF known(1)] by simp
next
  case (tx k pm inp' q m)
  note V = validate_checkout_Inr[OF tx(1)]
  obtain r where c: "create_tx gnow dnow i codes user k pm inp' q m s = (Inr r, s')" and v: "v = withItems s' r"
    using assms(4) unfolding tx(8) begin_func_def by (auto split: sum.splits prod.splits)
  obtain code where r: "r = new_order gnow dnow i code user k pm inp' q m" "orders s' = orders s @ [r]"
    "order_items s' = order_items s @ map (\<lambda>line. \<lparr>it_order = i, it_line = line\<rparr>) (oqItems q)"
    using create_tx_Inr[OF c] by blast
  note P = price_Inr[OF tx(3) assms(1) assms(2)[folded V(3)]]
  have f: "od_fulfillment r = chosen_fulfillment inp m" using r V(7) by (simp add: new_order_def)
  have addr: "od_fulfillment r = ''pickup'' \<or> (\<exists>p. ckAddress inp = Some p \<and> InKosovo p)"
    using tx(6) V(7,9) f by (auto simp: address_missing_def split: option.splits)
  have "find (\<lambda>x. od_customer x = user \<and> od_idem x = TrimSpace idemKey) (orders s') = Some r"
    using assms(3) r V(1) by (simp add: find_append new_order_def)
  then have again: "Create cfg' dz' gnow' dnow' i' codes' user idemKey' inp1 s' = (Inr v, s')"
    if "validate_checkout idemKey' inp1 = Inr x \<and> TrimSpace idemKey' = TrimSpace idemKey" for cfg' dz' gnow' dnow' i' codes' idemKey' inp1 x
    using that v validate_checkout_Inr(1)[of idemKey' inp1] by (cases x) (auto simp: Create_def)
  show ?thesis
    using P[unfolded V] r v f addr again tx(4,5,7) price_total[OF tx(3)]
    by (intro exI[of _ m] exI[of _ "oqItems q"] exI[of _ r]) (simp add: new_order_def V)
qed

theorem Create_prices_cart_witness:
  "\<exists>r v. orders demo_ordered = [r] \<and> od_items_total r = 1200 \<and> od_fee r = 0 \<and> od_pay r = PayPending \<and>
     Create demo_ocfg 0 900 900 ''ord2'' [''AAAAAA''] ''u1'' ''k1'' demo_checkout demo_ordered = (Inr v, demo_ordered)"
proof -
  obtain r0 where r0: "orders demo_ordered = [r0]" "od_total r0 = 1200" "od_fee r0 = 0" using demo_created by auto
  have e: "orders demo_orders = []" "o_catalog demo_orders = demo_catalog" by (simp_all add: demo_orders_def)
  obtain res s' where C: "Create demo_ocfg 0 100 100 ''ord1'' [''K7F3QA''] ''u1'' ''k1'' demo_checkout demo_orders = (res, s')"
    by (cases "Create demo_ocfg 0 100 100 ''ord1'' [''K7F3QA''] ''u1'' ''k1'' demo_checkout demo_orders")
  have s': "s' = demo_ordered" by (simp add: demo_ordered_def C)
  have "\<exists>v. res = Inr v"
  proof (cases rule: Create_cases[of demo_ocfg 0 100 100 "''ord1''" "[''K7F3QA'']" "''u1''" "''k1''" demo_checkout demo_orders])
    case (refused e')
    then show ?thesis using C s' r0 e by auto
  next
    case (tx k pm inp' q m)
    show ?thesis
    proof (rule ccontr)
      assume "\<not> ?thesis"
      then obtain e' where "res = Inl e'" by (cases res) auto
      then have "s' = demo_orders" using C unfolding tx(8) by (auto simp: begin_func_def split: prod.splits sum.splits)
      then show False using s' r0 e by simp
    qed
  qed (use C in auto)
  then obtain v where v: "Create demo_ocfg 0 100 100 ''ord1'' [''K7F3QA''] ''u1'' ''k1'' demo_checkout demo_orders = (Inr v, demo_ordered)"
    using C s' by auto
  have h: "catalog_inv (o_catalog demo_orders)" "\<forall>sel \<in> set (ckItems demo_checkout). length (slOptions sel) \<le> 1000000"
    "find (\<lambda>r. od_customer r = ''u1'' \<and> od_idem r = TrimSpace ''k1'') (orders demo_orders) = None"
    using e demo_catalog_inv by (simp_all add: demo_checkout_def demo_selection_def)
  have vc: "validate_checkout ''k1'' demo_checkout = Inr (''k1'', Cash, demo_checkout)" by code_simp
  obtain line where line: "Price ''m1'' demo_selection demo_catalog = Inr line" "plTotal line = 1200" using demo_line by blast
  have ck: "ckItems demo_checkout = [demo_selection]" "ckMerchant demo_checkout = ''m1''" by (simp_all add: demo_checkout_def)
  from Create_prices_cart[OF h v] obtain m lines r where
    l: "list_all2 (\<lambda>sel line. Price ''m1'' sel demo_catalog = Inr line) [demo_selection] lines" and
    r: "orders demo_ordered = orders demo_orders @ [r]" "od_pay r = PayPending"
      "od_items_total r = sum_list (map plTotal lines)" and
    again: "\<forall>cfg' dz' gnow' dnow' i' codes' idemKey' inp' x. validate_checkout idemKey' inp' = Inr x \<and> TrimSpace idemKey' = TrimSpace ''k1'' \<longrightarrow>
       Create cfg' dz' gnow' dnow' i' codes' ''u1'' idemKey' inp' demo_ordered = (Inr v, demo_ordered)"
    unfolding e(2) ck by blast
  have "lines = [line]" using l line by (auto simp: list_all2_Cons1)
  then have t: "od_items_total r = 1200" using r line by simp
  have "od_fee r = 0" using r(1) r0 e by auto
  then show ?thesis using r e t again vc by (intro exI[of _ r] exI[of _ v]) auto
qed

section \<open>Errors\<close>

text \<open>
  A call that fails leaves no trace. At any moment of any run, when an operation of the customer, of
  the merchant or of the courier answers with an error, everything is as it was before the call: no row,
  no journal line, no event, no redeemed coupon, no money, no mark on the courier. In particular a
  delivery that has been recorded is never answered with an error.
\<close>
theorem failed_calls_change_nothing:
  assumes "fresh_orders s0" "orders_step\<^sup>*\<^sup>* s0 s"
  shows "(\<forall>e cfg dz gnow dnow i codes user key inp. fst (Create cfg dz gnow dnow i codes user key inp s) = Inl e \<longrightarrow>
        snd (Create cfg dz gnow dnow i codes user key inp s) = s) \<and>
    (\<forall>e dnow user i reason. fst (CancelByCustomer dnow user i reason s) = Inl e \<longrightarrow> snd (CancelByCustomer dnow user i reason s) = s) \<and>
    (\<forall>e dnow txi user i to_name prep reason. fst (MerchantTransition dnow txi user i to_name prep reason s) = Inl e \<longrightarrow>
        snd (MerchantTransition dnow txi user i to_name prep reason s) = s) \<and>
    (\<forall>e cfg gnow dnow user offerID. fst (AcceptOffer cfg gnow dnow user offerID s) = Inl e \<longrightarrow> snd (AcceptOffer cfg gnow dnow user offerID s) = s) \<and>
    (\<forall>e dnow user offerID. fst (DeclineOffer dnow user offerID s) = Inl e \<longrightarrow> snd (DeclineOffer dnow user offerID s) = s) \<and>
    (\<forall>e dnow user i code. fst (PickUp dnow user i code s) = Inl e \<longrightarrow> snd (PickUp dnow user i code s) = s) \<and>
    (\<forall>e cfg gnow dnow txi user i. fst (Deliver cfg gnow dnow txi user i s) = Inl e \<longrightarrow> snd (Deliver cfg gnow dnow txi user i s) = s) \<and>
    (\<forall>e cfg gnow dnow user i reason. fst (ReleaseByCourier cfg gnow dnow user i reason s) = Inl e \<longrightarrow>
        snd (ReleaseByCourier cfg gnow dnow user i reason s) = s)"
proof (intro conjI allI impI)
  have inv: "om.inv (otab s)" using reachable_inv[OF assms] .
  fix e
  show "snd (Create cfg dz gnow dnow i codes user key inp s) = s" if "fst (Create cfg dz gnow dnow i codes user key inp s) = Inl e"
    for cfg dz gnow dnow i codes user key inp
    using that by (cases rule: Create_cases[of cfg dz gnow dnow i codes user key inp s])
      (auto simp: begin_func_def split: prod.splits sum.splits)
  show "snd (CancelByCustomer dnow user i reason s) = s" if "fst (CancelByCustomer dnow user i reason s) = Inl e" for dnow user i reason
    using that by (auto simp: CancelByCustomer_def begin_func_def split: prod.splits sum.splits)
  show "snd (MerchantTransition dnow txi user i to_name prep reason s) = s"
    if "fst (MerchantTransition dnow txi user i to_name prep reason s) = Inl e" for dnow txi user i to_name prep reason
    using that by (auto simp: MerchantTransition_def begin_func_def Let_def split: prod.splits sum.splits if_splits option.splits)
  show "snd (AcceptOffer cfg gnow dnow user offerID s) = s" if "fst (AcceptOffer cfg gnow dnow user offerID s) = Inl e" for cfg gnow dnow user offerID
    using that by (auto simp: AcceptOffer_def begin_func_def split: prod.splits sum.splits)
  show "snd (DeclineOffer dnow user offerID s) = s" if "fst (DeclineOffer dnow user offerID s) = Inl e" for dnow user offerID
    using that by (auto simp: DeclineOffer_def begin_func_def split: prod.splits sum.splits option.splits)
  show "snd (PickUp dnow user i code s) = s" if "fst (PickUp dnow user i code s) = Inl e" for dnow user i code
    using that by (auto simp: PickUp_def courierTransition_def begin_func_def split: prod.splits sum.splits)
  show "snd (ReleaseByCourier cfg gnow dnow user i reason s) = s" if "fst (ReleaseByCourier cfg gnow dnow user i reason s) = Inl e"
    for cfg gnow dnow user i reason
    using that by (auto simp: ReleaseByCourier_def courierTransition_def begin_func_def split: prod.splits sum.splits)
  show "snd (Deliver cfg gnow dnow txi user i s) = s" if d: "fst (Deliver cfg gnow dnow txi user i s) = Inl e" for cfg gnow dnow txi user i
  proof (cases "courier_tx dnow user i Delivered [] []" s rule: begin_func_cases)
    case (rollback e')
    then show ?thesis by (simp add: Deliver_def courierTransition_def)
  next
    case (commit r s1)
    note M = courier_tx_moves[OF inv commit(1)]
    let ?s2 = "mark_loc cfg (SetAvailable gnow user) s1"
    have I: "om.inv (otab ?s2)" using om.moves_inv[OF M(1) inv] by simp
    obtain r' where "find_order (od_id r) (snd (settle dnow txi r ?s2)) = Some r'"
      using settle_keeps_row[OF I _ M(3)] M(2) by force
    then show ?thesis using d commit M(4) by (simp add: Deliver_def courierTransition_def Let_def withItems_def)
  qed
qed

theorem failed_calls_change_nothing_witness:
  "fst (Deliver demo_ocfg 300 300 ''t1'' ''d1'' ''ord1'' demo_ordered) = Inl ErrNotFound \<and>
   snd (Deliver demo_ocfg 300 300 ''t1'' ''d1'' ''ord1'' demo_ordered) = demo_ordered"
proof -
  have f: "find (\<lambda>r. od_id r = ''ord1'' \<and> od_courier r = Some ''d1'') (orders demo_ordered) = None"
    using demo_created by auto
  have "fst (Deliver demo_ocfg 300 300 ''t1'' ''d1'' ''ord1'' demo_ordered) = Inl ErrNotFound"
    by (simp add: Deliver_def courierTransition_def begin_func_def courier_tx_def f)
  then show ?thesis using failed_calls_change_nothing[OF demo_order_reach] by blast
qed

section \<open>Observations\<close>

text \<open>
  A merchant may put an order that a courier has accepted back to ready; the courier stays on the row and
  can then deliver it without having shown the pickup code.
\<close>

lemma deliver_from_ready:
  assumes "find (\<lambda>r. od_id r = i \<and> od_courier r = Some user) (orders s) = Some r" "od_state r = Ready"
  shows "\<exists>r' s'. courier_tx dnow user i Delivered [] [] s = (Inr r', s') \<and> od_picked_at r' = od_picked_at r"
  using assms by (simp add: courier_tx_def CanTransition_def can_transition_def courier_update_def Let_def)

text \<open>A merchant who cancels an order on its way leaves the mark of the courier in Redis.\<close>

lemma merchant_keeps_mark: "o_loc (snd (MerchantTransition dnow txi user i to_name prep reason s)) = o_loc s"
proof (cases "merchant_tx dnow user i to_name prep (clip reason 200)" s rule: begin_func_cases)
  case (commit r s1)
  have l: "o_loc s1 = o_loc s" using merchant_tx_cases[OF commit(1)] by metis
  have set_loc: "o_loc (set_payment dnow j f t) = o_loc t" "o_loc (snd (finish_settlement dnow x st com t)) = o_loc t" for j f t x st com
    by (simp_all add: set_payment_def finish_settlement_def begin_func_def o_emit_def)
  have "o_loc (snd (settle dnow txi r s1)) = o_loc s1"
    unfolding settle_def by (auto simp: Let_def set_loc split: option.split plan.split prod.split sum.split)
  then show ?thesis using commit l by (simp add: MerchantTransition_def Let_def split: option.split)
qed (simp add: MerchantTransition_def)

text \<open>A second attempt after a taken code runs in the aborted transaction and never succeeds.\<close>

lemma taken_code_fails:
  "x \<in> set t \<Longrightarrow> od_code x = od_code (mk code) \<Longrightarrow> \<exists>e. insert_attempts False mk (code # codes) t = Inl e"
  by (cases codes) (auto simp: Let_def exists_where_iff)

end
