(* ===== verification/Parcels.thy ===== *)
theory Parcels
  imports Orders
begin

text \<open>
  \<open>modules/parcels\<close> (\<open>state.go\<close>, \<open>parcels.go\<close>, \<open>courier.go\<close>; tables of \<open>migrations/0017\<close> and
  \<open>0018\<close>): parcels within a city, from the quote through the courier, who shows the code of the sender
  at pickup and that of the recipient at delivery, to the settlement. Conventions are those of the
  orders. Random bytes are numbers, taken from a function; the prices of \<open>Price\<close> go through \<open>float64\<close>
  in the code and are real numbers here. The map provider's answer is an argument of \<open>Quote\<close>.
\<close>

definition ErrInsufficient :: err where [err_defs]: "ErrInsufficient = API ''INSUFFICIENT_FUNDS'' 402 False []"
definition ErrInvalidState :: err where [err_defs]: "ErrInvalidState = API ''PARCEL_INVALID_STATE'' 409 False []"
definition ErrQuoteExpired :: err where [err_defs]: "ErrQuoteExpired = API ''QUOTE_EXPIRED'' 409 False []"
definition ErrOfferGone :: err where [err_defs]: "ErrOfferGone = API ''OFFER_GONE'' 409 False []"
definition ErrCourierAssigned :: err where [err_defs]: "ErrCourierAssigned = API ''COURIER_ALREADY_BUSY'' 409 False []"
definition ErrPickupCode :: err where [err_defs]: "ErrPickupCode = API ''PICKUP_CODE_INVALID'' 422 False []"
definition ErrDeliveryCode :: err where [err_defs]: "ErrDeliveryCode = API ''DELIVERY_CODE_INVALID'' 422 False []"

definition QuoteTTL :: time where "QuoteTTL = 2 * Minute"

section \<open>States\<close>

datatype parcel_state = PRequested | PAssigned | PPickedUp | PDelivered | PCancelled | PNoCourier

fun transitions :: "parcel_state \<Rightarrow> parcel_state list" where
  "transitions PRequested = [PAssigned, PCancelled, PNoCourier]"
| "transitions PAssigned = [PPickedUp, PRequested, PCancelled]"
| "transitions PPickedUp = [PDelivered]"
| "transitions _ = []"

definition CanTransition :: "parcel_state \<Rightarrow> parcel_state \<Rightarrow> bool" where
  "CanTransition from to = can_transition transitions from to"

definition IsActive :: "parcel_state \<Rightarrow> bool" where
  "IsActive s \<longleftrightarrow> s = PRequested \<or> s = PAssigned \<or> s = PPickedUp"

definition IsTerminal :: "parcel_state \<Rightarrow> bool" where
  "IsTerminal s \<longleftrightarrow> s = PDelivered \<or> s = PCancelled \<or> s = PNoCourier"

definition CustomerCanCancel :: "parcel_state \<Rightarrow> bool" where
  "CustomerCanCancel s \<longleftrightarrow> s = PRequested \<or> s = PAssigned"

text \<open>The states in which the courier is busy with the parcel (the condition of a unique index).\<close>

definition CourierBusy :: "parcel_state \<Rightarrow> bool" where
  "CourierBusy s \<longleftrightarrow> s = PAssigned \<or> s = PPickedUp"

section \<open>Prices\<close>

record pricing_row =
  pr_size :: string
  pr_base :: int
  pr_per_km :: int
  pr_commission :: int
  pr_currency :: string

text \<open>\<open>math.Round\<close>: to the nearest integer, halves away from zero.\<close>

definition go_round :: "real \<Rightarrow> int" where
  "go_round x = (if x \<ge> 0 then \<lfloor>x + 1 / 2\<rfloor> else - \<lfloor>- x + 1 / 2\<rfloor>)"

definition Price :: "pricing_row \<Rightarrow> int \<Rightarrow> int" where
  "Price p distanceM =
     (let km = of_int distanceM / 1000;
          raw = of_int (pr_base p) + of_int (pr_per_km p) * km :: real;
          rounded = mul64 (go_round (raw / 10)) 10
      in if rounded < pr_base p then pr_base p else rounded)"

definition Commission :: "int \<Rightarrow> int \<Rightarrow> int" where
  "Commission priceMinor bp = quot (add64 (mul64 priceMinor bp) 5000) 10000"

definition ValidSize :: "string \<Rightarrow> bool" where
  "ValidSize z \<longleftrightarrow> z \<in> {''s'', ''m'', ''l''}"

section \<open>Tables\<close>

record parcel_quote =
  pq_id :: uuid
  pq_customer :: uuid
  pq_size :: string
  pq_pickup :: point
  pq_pickup_addr :: "string option"
  pq_dropoff :: point
  pq_dropoff_addr :: "string option"
  pq_distance :: int
  pq_duration :: int
  pq_price :: int
  pq_commission_bp :: int
  pq_currency :: string
  pq_expires :: time

record parcel =
  pc_id :: uuid
  pc_code :: string
  pc_pickup_code :: string
  pc_delivery_code :: string
  pc_customer :: uuid
  pc_courier :: "uuid option"
  pc_quote :: uuid
  pc_state :: parcel_state
  pc_size :: string
  pc_method :: pay_method
  pc_pay :: pay_status
  pc_pickup :: point
  pc_pickup_addr :: "string option"
  pc_contact_name :: "string option"
  pc_contact_phone :: "string option"
  pc_dropoff :: point
  pc_dropoff_addr :: "string option"
  pc_recipient_name :: string
  pc_recipient_phone :: string
  pc_note :: "string option"
  pc_distance :: int
  pc_duration :: int
  pc_price :: int
  pc_discount :: int
  pc_coupon :: "string option"
  pc_commission :: int
  pc_currency :: string
  pc_cancelled_by :: "string option"
  pc_reason :: "string option"
  pc_created :: time
  pc_assigned_at :: "time option"
  pc_picked_at :: "time option"
  pc_delivered_at :: "time option"
  pc_cancelled_at :: "time option"
  pc_updated :: time
  pc_idem :: string

record parcels_db =
  p_core :: core
  p_loc :: loc_db
  p_drivers :: drivers_db
  p_rides :: "ride list"
  p_promos :: promos_db
  p_orders :: "order list"
  p_order_offers :: "offer list"
  parcel_pricing :: "pricing_row list"
  parcel_quotes :: "parcel_quote list"
  parcels :: "parcel list"
  parcel_offers :: "offer list"
  parcel_journal :: "parcel_state journal_row list"

text \<open>Whether coupons and the location service are configured (\<open>WithPromos\<close>, \<open>WithLocation\<close>).\<close>

record parcels_cfg =
  pg_promos :: bool
  pg_loc :: bool

definition upd_parcel :: "uuid \<Rightarrow> (parcel \<Rightarrow> parcel) \<Rightarrow> parcels_db \<Rightarrow> parcels_db" where
  "upd_parcel i f s = s\<lparr>parcels := upd_where (\<lambda>p. pc_id p = i) f (parcels s)\<rparr>"

definition parcelEvent ::
  "time \<Rightarrow> uuid \<Rightarrow> parcel_state option \<Rightarrow> parcel_state \<Rightarrow> string \<Rightarrow> uuid option \<Rightarrow> payload \<Rightarrow> parcels_db \<Rightarrow> parcels_db" where
  "parcelEvent dnow i from to actor_type actor meta s =
     s\<lparr>parcel_journal := parcel_journal s @ [\<lparr>jn_subject = i, jn_from = from, jn_to = to, jn_actor_type = actor_type,
        jn_actor = actor, jn_meta = meta, jn_created = dnow\<rparr>]\<rparr>"

definition p_emit :: "time \<Rightarrow> uuid \<Rightarrow> string \<Rightarrow> payload \<Rightarrow> parcels_db \<Rightarrow> parcels_db" where
  "p_emit dnow i ev body s = s\<lparr>p_core := (p_core s)\<lparr>outbox := Emit dnow ''parcel'' i ev body (outbox (p_core s))\<rparr>\<rparr>"

definition find_parcel :: "uuid \<Rightarrow> parcels_db \<Rightarrow> parcel option" where
  "find_parcel i s = find (\<lambda>p. pc_id p = i) (parcels s)"

text \<open>The answer: the row and, for the customer, the card of the courier.\<close>

record courier_card =
  ccID :: uuid
  ccName :: string
  ccMake :: string
  ccModel :: string
  ccPlate :: string
  ccColor :: string

record parcel_view =
  pv_parcel :: parcel
  pv_courier :: "courier_card option"

definition courier_card_of :: "parcels_db \<Rightarrow> uuid \<Rightarrow> courier_card option" where
  "courier_card_of s d =
     (case find (\<lambda>p. UserID p = d) (profiles (p_drivers s)) of
        None \<Rightarrow> None
      | Some p \<Rightarrow> map_option (\<lambda>u. \<lparr>ccID = us_id u, ccName = coalesce (us_name u) [], ccMake = VehicleMake p,
            ccModel = VehicleModel p, ccPlate = VehiclePlate p, ccColor = VehicleColor p\<rparr>)
          (find (\<lambda>u. us_id u = d) (dr_users (p_drivers s))))"

definition withCourier :: "parcels_db \<Rightarrow> parcel \<Rightarrow> parcel_view" where
  "withCourier s p = \<lparr>pv_parcel = p, pv_courier = (case pc_courier p of None \<Rightarrow> None | Some d \<Rightarrow> courier_card_of s d)\<rparr>"

text \<open>The courier does not see the codes: sender and recipient tell them.\<close>

definition forCourier :: "parcel \<Rightarrow> parcel_view" where
  "forCourier p = \<lparr>pv_parcel = p\<lparr>pc_pickup_code := [], pc_delivery_code := []\<rparr>, pv_courier = None\<rparr>"

definition alphabet :: string where "alphabet = ''ABCDEFGHJKLMNPQRSTUVWXYZ23456789''"

definition newCode :: "(nat \<Rightarrow> nat) \<Rightarrow> string" where
  "newCode b = map (\<lambda>k. alphabet ! (b k mod length alphabet)) [0..<6]"

definition newDigits :: "(nat \<Rightarrow> nat) \<Rightarrow> string" where
  "newDigits b = map (\<lambda>k. char_of (48 + b k mod 10)) [0..<4]"

definition pricing :: "string \<Rightarrow> parcels_db \<Rightarrow> err + pricing_row" where
  "pricing z s = (case find (\<lambda>p. pr_size p = z) (parcel_pricing s) of None \<Rightarrow> Inl NoRows | Some p \<Rightarrow> Inr p)"

section \<open>Quotes\<close>

record quote_input =
  piSize :: string
  piPickup :: point
  piPickupAddress :: string
  piDropoff :: point
  piDropoffAddress :: string

text \<open>What the map provider answers: distance and duration, no route, or another failure.\<close>

datatype route_answer = Route int int | NoRoute | RouteFailed

definition validate_quote :: "quote_input \<Rightarrow> fields" where
  "validate_quote inp =
     (let f = add_field_if (\<not> ValidSize (piSize inp)) ''size'' ''invalid'' [];
          f = add_field_if (\<not> Valid (piPickup inp) \<or> \<not> InKosovo (piPickup inp)) ''pickup'' ''invalid'' f;
          f = add_field_if (\<not> Valid (piDropoff inp) \<or> \<not> InKosovo (piDropoff inp)) ''dropoff'' ''invalid'' f
      in add_field_if (f = [] \<and> Haversine (piPickup inp) (piDropoff inp) < 50) ''dropoff'' ''same_as_pickup'' f)"

definition Quote ::
  "time \<Rightarrow> uuid \<Rightarrow> (point \<Rightarrow> point \<Rightarrow> route_answer) \<Rightarrow> uuid \<Rightarrow> quote_input \<Rightarrow> (parcels_db, err, parcel_quote) op" where
  "Quote gnow i route user inp s =
     (let f = validate_quote inp in
      if f \<noteq> [] then (Inl (ErrValidation f), s)
      else case pricing (piSize inp) s of
        Inl e \<Rightarrow> (Inl e, s)
      | Inr pr \<Rightarrow>
          (case route (piPickup inp) (piDropoff inp) of
             NoRoute \<Rightarrow> (Inl (ErrValidation [(''dropoff'', ''no_route'')]), s)
           | RouteFailed \<Rightarrow> (Inl ErrUnavailable, s)
           | Route d t \<Rightarrow>
               let q = \<lparr>pq_id = i, pq_customer = user, pq_size = piSize inp, pq_pickup = piPickup inp,
                        pq_pickup_addr = nullable (clip (piPickupAddress inp) 200), pq_dropoff = piDropoff inp,
                        pq_dropoff_addr = nullable (clip (piDropoffAddress inp) 200), pq_distance = d, pq_duration = t,
                        pq_price = Price pr d, pq_commission_bp = pr_commission pr, pq_currency = pr_currency pr,
                        pq_expires = gnow + QuoteTTL\<rparr>
               in if exists_where (\<lambda>x. pq_id x = i) (parcel_quotes s) then (Inl PgUnique, s)
                  else (Inr q, s\<lparr>parcel_quotes := parcel_quotes s @ [q]\<rparr>)))"

section \<open>Creation\<close>

record create_input =
  crQuote :: uuid
  crMethod :: string
  crContactName :: string
  crContactPhone :: string
  crRecipientName :: string
  crRecipientPhone :: string
  crNote :: string
  crCoupon :: string

definition validate_create :: "string \<Rightarrow> create_input \<Rightarrow> err + (string \<times> pay_method \<times> create_input)" where
  "validate_create idemKey inp0 =
     (let key = TrimSpace idemKey;
          f = add_field_if (key = [] \<or> length key > 100) ''idempotency_key'' ''required'' [];
          m = (if crMethod inp0 = ''cash'' then Some Cash else if crMethod inp0 = ''wallet'' then Some Wallet else None);
          f = add_field_if (m = None) ''payment_method'' ''invalid'' f;
          inp = inp0\<lparr>crRecipientName := clip (crRecipientName inp0) 80, crRecipientPhone := TrimSpace (crRecipientPhone inp0)\<rparr>;
          f = add_field_if (crRecipientName inp = []) ''recipient_name'' ''required'' f;
          n = length (crRecipientPhone inp);
          f = add_field_if (n < 8 \<or> n > 20 \<or> take 1 (crRecipientPhone inp) \<noteq> ''+'') ''recipient_phone'' ''invalid'' f;
          f = add_field_if (crQuote inp = uuid_Nil) ''quote_id'' ''required'' f
      in if f \<noteq> [] then Inl (ErrValidation f)
         else case m of None \<Rightarrow> Inl (ErrValidation f) | Some pm \<Rightarrow> Inr (key, pm, inp))"

definition new_parcel ::
  "time \<Rightarrow> uuid \<Rightarrow> (nat \<Rightarrow> nat) \<Rightarrow> (nat \<Rightarrow> nat) \<Rightarrow> (nat \<Rightarrow> nat) \<Rightarrow> uuid \<Rightarrow> string \<Rightarrow> pay_method \<Rightarrow> create_input \<Rightarrow>
    parcel_quote \<Rightarrow> int \<Rightarrow> string \<Rightarrow> parcel" where
  "new_parcel dnow i b1 b2 b3 user key pm inp q discount coupon =
     \<lparr>pc_id = i, pc_code = newCode b1, pc_pickup_code = newDigits b2, pc_delivery_code = newDigits b3, pc_customer = user,
      pc_courier = None, pc_quote = crQuote inp, pc_state = PRequested, pc_size = pq_size q, pc_method = pm, pc_pay = PayPending,
      pc_pickup = pq_pickup q, pc_pickup_addr = pq_pickup_addr q, pc_contact_name = nullable (clip (crContactName inp) 80),
      pc_contact_phone = nullable (clip (crContactPhone inp) 20), pc_dropoff = pq_dropoff q, pc_dropoff_addr = pq_dropoff_addr q,
      pc_recipient_name = crRecipientName inp, pc_recipient_phone = crRecipientPhone inp, pc_note = nullable (clip (crNote inp) 300),
      pc_distance = pq_distance q, pc_duration = pq_duration q, pc_price = pq_price q, pc_discount = discount,
      pc_coupon = nullable coupon, pc_commission = Commission (pq_price q) (pq_commission_bp q), pc_currency = pq_currency q,
      pc_cancelled_by = None, pc_reason = None, pc_created = dnow, pc_assigned_at = None, pc_picked_at = None,
      pc_delivered_at = None, pc_cancelled_at = None, pc_updated = dnow, pc_idem = key\<rparr>"

text \<open>The checks of the table.\<close>

definition parcel_checks :: "parcel \<Rightarrow> bool" where
  "parcel_checks p \<longleftrightarrow> pc_price p \<ge> 0 \<and> pc_discount p \<ge> 0"

definition insert_parcel :: "parcel \<Rightarrow> (parcels_db, err, parcel) op" where
  "insert_parcel p s =
     (if \<not> parcel_checks p then (Inl PgCheck, s)
      else if exists_where (\<lambda>x. pc_id x = pc_id p \<or> pc_code x = pc_code p \<or>
                (pc_customer x = pc_customer p \<and> pc_idem x = pc_idem p)) (parcels s) then (Inl PgUnique, s)
      else (Inr p, s\<lparr>parcels := parcels s @ [p]\<rparr>))"

definition create_tx :: "time \<Rightarrow> time \<Rightarrow> string \<Rightarrow> parcel \<Rightarrow> (parcels_db, err, parcel) op" where
  "create_tx gnow dnow coupon p s =
     (case insert_parcel p s of
        (Inl e, s1) \<Rightarrow> (Inl e, s1)
      | (Inr _, s1) \<Rightarrow>
          (case (if coupon = [] then (Inr (), p_promos s1)
                 else Redeem gnow dnow coupon (pc_customer p) (''parcel:'' @ pc_id p) (pc_discount p) (p_promos s1)) of
             (Inl e, pm) \<Rightarrow> (Inl e, s1\<lparr>p_promos := pm\<rparr>)
           | (Inr _, pm) \<Rightarrow>
               (Inr p, p_emit dnow (pc_id p) ''ParcelRequested''
                  [(''parcel_id'', JStr (pc_id p)), (''code'', JStr (pc_code p)), (''customer_id'', JStr (pc_customer p)),
                   (''price_minor'', JInt (pc_price p))]
                  (parcelEvent dnow (pc_id p) None PRequested ''customer'' (Some (pc_customer p)) [] (s1\<lparr>p_promos := pm\<rparr>)))))"

text \<open>The discount of the coupon, if one is given, and the check of the wallet.\<close>

definition price_coupon :: "parcels_cfg \<Rightarrow> time \<Rightarrow> uuid \<Rightarrow> string \<Rightarrow> int \<Rightarrow> promos_db \<Rightarrow> err + (int \<times> string)" where
  "price_coupon cfg gnow user coupon0 priceMinor db =
     (let coupon = Normalize coupon0 in
      if coupon = [] then Inr (0, [])
      else if \<not> pg_promos cfg then Inl Promos.ErrInvalid
      else (case Apply gnow coupon user ScopeParcels priceMinor db of
              Inl e \<Rightarrow> Inl e | Inr a \<Rightarrow> Inr (ap_discount a, ap_code a)))"

definition wallet_covers :: "uuid \<Rightarrow> pay_method \<Rightarrow> int \<Rightarrow> core \<Rightarrow> err + unit" where
  "wallet_covers user pm due c =
     (if pm = Wallet
      then (case Balance (UserWalletCode user) c of
              Inl e \<Rightarrow> Inl e | Inr b \<Rightarrow> if Minor b < due then Inl ErrInsufficient else Inr ())
      else Inr ())"

definition Create ::
  "parcels_cfg \<Rightarrow> time \<Rightarrow> time \<Rightarrow> uuid \<Rightarrow> (nat \<Rightarrow> nat) \<Rightarrow> (nat \<Rightarrow> nat) \<Rightarrow> (nat \<Rightarrow> nat) \<Rightarrow> uuid \<Rightarrow> string \<Rightarrow> create_input \<Rightarrow>
    (parcels_db, err, parcel_view) op" where
  "Create cfg gnow dnow i b1 b2 b3 user idemKey inp0 s =
     (case validate_create idemKey inp0 of
        Inl e \<Rightarrow> (Inl e, s)
      | Inr (key, pm, inp) \<Rightarrow>
          (case find (\<lambda>p. pc_customer p = user \<and> pc_idem p = key) (parcels s) of
             Some p \<Rightarrow> (Inr (withCourier s p), s)
           | None \<Rightarrow>
               (case find (\<lambda>q. pq_id q = crQuote inp \<and> pq_customer q = user) (parcel_quotes s) of
                  None \<Rightarrow> (Inl (ErrValidation [(''quote_id'', ''invalid'')]), s)
                | Some q \<Rightarrow>
                    if gnow > pq_expires q then (Inl ErrQuoteExpired, s)
                    else (case price_coupon cfg gnow user (crCoupon inp) (pq_price q) (p_promos s) of
                            Inl e \<Rightarrow> (Inl e, s)
                          | Inr (discount, coupon) \<Rightarrow>
                              (case wallet_covers user pm (sub64 (pq_price q) discount) (p_core s) of
                                 Inl e \<Rightarrow> (Inl e, s)
                               | Inr _ \<Rightarrow>
                                   (case begin_func (create_tx gnow dnow coupon
                                           (new_parcel dnow i b1 b2 b3 user key pm inp q discount coupon)) s of
                                      (Inl e, s1) \<Rightarrow> (Inl e, s1)
                                    | (Inr p, s1) \<Rightarrow> (Inr \<lparr>pv_parcel = p, pv_courier = None\<rparr>, s1)))))))"

section \<open>The customer\<close>

definition Get :: "uuid \<Rightarrow> uuid \<Rightarrow> parcels_db \<Rightarrow> err + parcel_view" where
  "Get user i s =
     (case find (\<lambda>p. pc_id p = i \<and> (pc_customer p = user \<or> pc_courier p = Some user)) (parcels s) of
        None \<Rightarrow> Inl ErrNotFound
      | Some p \<Rightarrow> if pc_customer p \<noteq> user then Inr (forCourier p) else Inr (withCourier s p))"

definition Active :: "uuid \<Rightarrow> parcels_db \<Rightarrow> parcel_view option" where
  "Active user s =
     (case sort_key (\<lambda>p. - pc_created p) (filter (\<lambda>p. pc_customer p = user \<and> IsActive (pc_state p)) (parcels s)) of
        [] \<Rightarrow> None | p # _ \<Rightarrow> Some (withCourier s p))"

definition History :: "time \<Rightarrow> uuid \<Rightarrow> time option \<Rightarrow> int \<Rightarrow> parcels_db \<Rightarrow> parcel_view list" where
  "History gnow user before limit s =
     (let limit = (if limit \<le> 0 \<or> limit > 50 then 20 else limit);
          b = (case before of None \<Rightarrow> gnow + Minute | Some t \<Rightarrow> t)
      in map (withCourier s) (take (nat limit) (sort_key (\<lambda>p. - pc_created p)
           (filter (\<lambda>p. pc_customer p = user \<and> pc_created p < b) (parcels s)))))"

definition cancel_tx :: "time \<Rightarrow> uuid \<Rightarrow> uuid \<Rightarrow> string \<Rightarrow> (parcels_db, err, parcel) op" where
  "cancel_tx dnow user i reason s =
     (case find (\<lambda>p. pc_id p = i \<and> pc_customer p = user) (parcels s) of
        None \<Rightarrow> (Inl ErrNotFound, s)
      | Some p \<Rightarrow>
          if \<not> CustomerCanCancel (pc_state p) then (Inl ErrInvalidState, s)
          else
            let p' = p\<lparr>pc_state := PCancelled, pc_pay := PayNone, pc_cancelled_by := Some ''customer'',
                       pc_reason := nullable (clip reason 200), pc_cancelled_at := Some dnow, pc_updated := dnow\<rparr>;
                s1 = upd_parcel i (\<lambda>_. p') s;
                s2 = s1\<lparr>parcel_offers := respond dnow Withdrawn (\<lambda>x. of_subject x = i \<and> of_state x = Offered) (parcel_offers s1)\<rparr>
            in (Inr p', p_emit dnow i ''ParcelCancelled''
                  [(''parcel_id'', JStr i), (''code'', JStr (pc_code p')), (''customer_id'', JStr user),
                   (''courier_id'', jopt (pc_courier p)), (''by'', JStr ''customer'')]
                  (parcelEvent dnow i (Some (pc_state p)) PCancelled ''customer'' (Some user) [(''reason'', JStr reason)] s2)))"

text \<open>The marks in Redis, when the location service is configured.\<close>

definition mark_loc :: "parcels_cfg \<Rightarrow> (loc_db \<Rightarrow> loc_db) \<Rightarrow> parcels_db \<Rightarrow> parcels_db" where
  "mark_loc cfg f s = (if pg_loc cfg then s\<lparr>p_loc := f (p_loc s)\<rparr> else s)"

definition Cancel :: "parcels_cfg \<Rightarrow> time \<Rightarrow> time \<Rightarrow> uuid \<Rightarrow> uuid \<Rightarrow> string \<Rightarrow> (parcels_db, err, parcel_view) op" where
  "Cancel cfg gnow dnow user i reason s =
     (case begin_func (cancel_tx dnow user i reason) s of
        (Inl e, s1) \<Rightarrow> (Inl e, s1)
      | (Inr p, s1) \<Rightarrow>
          let s2 = (case pc_courier p of None \<Rightarrow> s1 | Some d \<Rightarrow> mark_loc cfg (SetAvailable gnow d) s1)
          in (Inr (withCourier s2 p), s2))"

section \<open>Settlement\<close>

text \<open>
  The plan of \<open>settle\<close> for a delivered parcel that is pending: with the wallet the customer pays the price
  less the discount and the courier receives the price less the commission; with cash the courier, who
  holds the money, owes the commission and is compensated for the discount.
\<close>

definition courierWallet :: "uuid \<Rightarrow> string" where
  "courierWallet d = ''driver:'' @ d @ '':wallet''"

definition parcel_tx :: "string \<Rightarrow> parcel \<Rightarrow> posting list \<Rightarrow> transaction" where
  "parcel_tx kind p ps = \<lparr>Kind = kind, Reference = ''parcel:'' @ pc_id p,
     IdempotencyKey = ''parcel:'' @ pc_id p @ '':fare'', TxCurrency = pc_currency p, Postings = ps\<rparr>"

definition wallet_postings :: "parcel \<Rightarrow> uuid \<Rightarrow> posting list" where
  "wallet_postings p d =
     [debit (UserWalletCode (pc_customer p)) (sub64 (pc_price p) (pc_discount p)),
      credit (courierWallet d) (sub64 (pc_price p) (pc_commission p))] @
     (if pc_commission p > 0 then [credit ''krejt:commission'' (pc_commission p)] else []) @
     (if pc_discount p > 0 then [debit MarketingAccount (pc_discount p)] else [])"

definition cash_postings :: "parcel \<Rightarrow> uuid \<Rightarrow> posting list" where
  "cash_postings p d =
     (if pc_commission p > 0
      then [debit (courierWallet d) (pc_commission p), credit ''krejt:commission'' (pc_commission p)] else []) @
     (if pc_discount p > 0
      then [credit (courierWallet d) (pc_discount p), debit MarketingAccount (pc_discount p)] else [])"

definition settle_plan :: "parcel \<Rightarrow> uuid \<Rightarrow> core \<Rightarrow> plan" where
  "settle_plan p d c =
     (if pc_method p = Wallet then
        (case Balance (UserWalletCode (pc_customer p)) c of
           Inl e \<Rightarrow> Reject e
         | Inr b \<Rightarrow> if Minor b < sub64 (pc_price p) (pc_discount p) then Fail_payment
                    else Pay PayPaid (Some (parcel_tx ''parcel_fare'' p (wallet_postings p d))))
      else if pc_commission p > 0 \<or> pc_discount p > 0
      then Pay PayCash (Some (parcel_tx ''parcel_cash_commission'' p (cash_postings p d)))
      else Pay PayCash None)"

definition setPaymentStatus :: "time \<Rightarrow> parcel \<Rightarrow> pay_status \<Rightarrow> (parcels_db, err, unit) op" where
  "setPaymentStatus dnow p st = begin_func (\<lambda>s.
     (Inr (), p_emit dnow (pc_id p) (if st = PayFailed then ''ParcelPaymentFailed'' else ''ParcelPaymentSettled'')
        [(''parcel_id'', JStr (pc_id p)), (''customer_id'', JStr (pc_customer p)), (''courier_id'', jopt (pc_courier p)),
         (''status'', JStr (status_text st)), (''price_minor'', JInt (pc_price p))]
        (s\<lparr>parcels := upd_where (\<lambda>x. pc_id x = pc_id p \<and> pc_pay x = PayPending)
           (\<lambda>x. x\<lparr>pc_pay := st, pc_updated := dnow\<rparr>) (parcels s)\<rparr>)))"

definition settle :: "time \<Rightarrow> uuid \<Rightarrow> parcel \<Rightarrow> (parcels_db, err, unit) op" where
  "settle dnow txi p s =
     (case pc_courier p of
        None \<Rightarrow> (Inr (), s)
      | Some d \<Rightarrow>
          if pc_state p \<noteq> PDelivered \<or> pc_pay p \<noteq> PayPending then (Inr (), s)
          else
            let s1 = s\<lparr>p_core := EnsureAccount (courierWallet d) ''driver'' (Some d) ''liability'' (pc_currency p) (p_core s)\<rparr>
            in (case settle_plan p d (p_core s1) of
                  Reject e \<Rightarrow> (Inl e, s1)
                | Fail_payment \<Rightarrow> setPaymentStatus dnow p PayFailed s1
                | Pay st None \<Rightarrow> setPaymentStatus dnow p st s1
                | Pay st (Some tx) \<Rightarrow>
                    (case Post dnow txi tx (p_core s1) of
                       (Inl e, c) \<Rightarrow> (Inl e, s1\<lparr>p_core := c\<rparr>)
                     | (Inr _, c) \<Rightarrow> setPaymentStatus dnow p st (s1\<lparr>p_core := c\<rparr>))))"

text \<open>\<open>SettlePending\<close>: the loop stops at the first error; the count so far is returned with it.\<close>

fun settle_loop :: "time \<Rightarrow> (nat \<Rightarrow> uuid) \<Rightarrow> parcel list \<Rightarrow> nat \<Rightarrow> (parcels_db, err \<times> nat, nat) op" where
  "settle_loop dnow txs [] n s = (Inr n, s)"
| "settle_loop dnow txs (p # ps) n s =
     (case settle dnow (txs n) p s of
        (Inl e, s1) \<Rightarrow> (Inl (e, n), s1)
      | (Inr _, s1) \<Rightarrow> settle_loop dnow txs ps (n + 1) s1)"

definition pending_parcels :: "time \<Rightarrow> parcels_db \<Rightarrow> parcel list" where
  "pending_parcels dnow s = take 50 (sort_key pc_updated
     (filter (\<lambda>p. pc_pay p = PayPending \<and> pc_state p = PDelivered \<and> pc_updated p < dnow - 10 * Second) (parcels s)))"

definition SettlePending :: "time \<Rightarrow> (nat \<Rightarrow> uuid) \<Rightarrow> (parcels_db, err \<times> nat, nat) op" where
  "SettlePending dnow txs s = settle_loop dnow txs (pending_parcels dnow s) 0 s"

section \<open>The courier\<close>

record parcel_offer_view =
  poOffer :: offer
  poCode :: string
  poSize :: string
  poPickup :: "string option \<times> point"
  poDropoff :: "string option \<times> point"
  poRouteM :: int
  poEarnings :: int
  poCurrency :: string
  poMethod :: pay_method
  poTotal :: int

definition Offers :: "time \<Rightarrow> uuid \<Rightarrow> parcels_db \<Rightarrow> parcel_offer_view list" where
  "Offers dnow user s =
     sort_key (\<lambda>v. of_created (poOffer v)) (List.map_filter
       (\<lambda>x. if of_driver x = user \<and> of_state x = Offered \<and> of_expires x > dnow then
              map_option (\<lambda>p. \<lparr>poOffer = x, poCode = pc_code p, poSize = pc_size p, poPickup = (pc_pickup_addr p, pc_pickup p),
                    poDropoff = (pc_dropoff_addr p, pc_dropoff p), poRouteM = pc_distance p,
                    poEarnings = pc_price p - pc_commission p, poCurrency = pc_currency p, poMethod = pc_method p,
                    poTotal = (if pc_method p \<noteq> Cash then 0 else pc_price p - pc_discount p)\<rparr>)
                (find (\<lambda>p. pc_id p = of_subject x \<and> pc_state p = PRequested) (parcels s))
            else None) (parcel_offers s))"

definition accept_tx :: "time \<Rightarrow> time \<Rightarrow> uuid \<Rightarrow> uuid \<Rightarrow> (parcels_db, err, parcel) op" where
  "accept_tx gnow dnow user offerID s =
     (case find (\<lambda>x. of_id x = offerID \<and> of_driver x = user) (parcel_offers s) of
        None \<Rightarrow> (Inl ErrNotFound, s)
      | Some x \<Rightarrow>
          if of_state x \<noteq> Offered \<or> gnow > of_expires x then (Inl ErrOfferGone, s)
          else (case find_parcel (of_subject x) s of
                  None \<Rightarrow> (Inl NoRows, s)
                | Some p \<Rightarrow>
                    if pc_state p \<noteq> PRequested
                    then (Inl ErrOfferGone, s\<lparr>parcel_offers := respond dnow Withdrawn (\<lambda>y. of_id y = offerID) (parcel_offers s)\<rparr>)
                    else if exists_where (\<lambda>y. pc_courier y = Some user \<and> CourierBusy (pc_state y) \<and> pc_id y \<noteq> pc_id p) (parcels s)
                    then (Inl ErrCourierAssigned, s)
                    else
                      let i = pc_id p;
                          p' = p\<lparr>pc_state := PAssigned, pc_courier := Some user, pc_assigned_at := Some dnow, pc_updated := dnow\<rparr>;
                          s1 = upd_parcel i (\<lambda>_. p') s;
                          s2 = s1\<lparr>parcel_offers := respond dnow Withdrawn (\<lambda>y. of_subject y = i \<and> of_state y = Offered)
                                  (respond dnow Accepted (\<lambda>y. of_id y = offerID) (parcel_offers s1))\<rparr>
                      in (Inr p', p_emit dnow i ''ParcelCourierAssigned''
                            [(''parcel_id'', JStr i), (''code'', JStr (pc_code p')), (''customer_id'', JStr (pc_customer p')),
                             (''courier_id'', JStr user)]
                            (parcelEvent dnow i (Some PRequested) PAssigned ''courier'' (Some user) [(''offer_id'', JStr offerID)] s2))))"

definition AcceptOffer :: "parcels_cfg \<Rightarrow> time \<Rightarrow> time \<Rightarrow> uuid \<Rightarrow> uuid \<Rightarrow> (parcels_db, err, parcel_view) op" where
  "AcceptOffer cfg gnow dnow user offerID s =
     (case begin_func (accept_tx gnow dnow user offerID) s of
        (Inl e, s1) \<Rightarrow> (Inl e, s1)
      | (Inr p, s1) \<Rightarrow> (Inr (forCourier p), mark_loc cfg (SetBusyParcel gnow user (pc_id p)) s1))"

definition DeclineOffer :: "time \<Rightarrow> uuid \<Rightarrow> uuid \<Rightarrow> (parcels_db, err, unit) op" where
  "DeclineOffer dnow user offerID = begin_func (\<lambda>s.
     case find (\<lambda>x. of_id x = offerID \<and> of_driver x = user \<and> of_state x = Offered) (parcel_offers s) of
       None \<Rightarrow> (Inl ErrNotFound, s)
     | Some x \<Rightarrow>
         (Inr (), p_emit dnow (of_subject x) ''ParcelOfferDeclined''
            [(''parcel_id'', JStr (of_subject x)), (''courier_id'', JStr user), (''offer_id'', JStr offerID)]
            (s\<lparr>parcel_offers := respond dnow Declined (\<lambda>y. of_id y = offerID \<and> of_driver y = user \<and> of_state y = Offered) (parcel_offers s)\<rparr>)))"

definition ActiveForCourier :: "uuid \<Rightarrow> parcels_db \<Rightarrow> parcel_view option" where
  "ActiveForCourier user s =
     map_option forCourier (find (\<lambda>p. pc_courier p = Some user \<and> CourierBusy (pc_state p)) (parcels s))"

text \<open>The column updates of \<open>transition\<close>, by the state to enter, and its events.\<close>

definition courier_update :: "time \<Rightarrow> parcel_state \<Rightarrow> parcel \<Rightarrow> err + parcel" where
  "courier_update dnow to p =
     (case to of
        PPickedUp \<Rightarrow> Inr (p\<lparr>pc_state := PPickedUp, pc_picked_at := Some dnow\<rparr>)
      | PDelivered \<Rightarrow> Inr (p\<lparr>pc_state := PDelivered, pc_delivered_at := Some dnow, pc_pay := PayPending\<rparr>)
      | PRequested \<Rightarrow> Inr (p\<lparr>pc_state := PRequested, pc_courier := None, pc_assigned_at := None\<rparr>)
      | _ \<Rightarrow> Inl ErrInvalidState)"

definition courier_event :: "parcel_state \<Rightarrow> string" where
  "courier_event to = (case to of PPickedUp \<Rightarrow> ''ParcelPickedUp'' | PDelivered \<Rightarrow> ''ParcelDelivered''
     | PRequested \<Rightarrow> ''ParcelCourierReleased'' | _ \<Rightarrow> [])"

definition transition_tx :: "time \<Rightarrow> uuid \<Rightarrow> uuid \<Rightarrow> parcel_state \<Rightarrow> string \<Rightarrow> string \<Rightarrow> (parcels_db, err, parcel) op" where
  "transition_tx dnow user i to code reason s =
     (case find (\<lambda>p. pc_id p = i \<and> pc_courier p = Some user) (parcels s) of
        None \<Rightarrow> (Inl ErrNotFound, s)
      | Some p \<Rightarrow>
          if \<not> CanTransition (pc_state p) to then (Inl ErrInvalidState, s)
          else if to = PPickedUp \<and> code \<noteq> pc_pickup_code p then (Inl ErrPickupCode, s)
          else if to = PDelivered \<and> code \<noteq> pc_delivery_code p then (Inl ErrDeliveryCode, s)
          else (case courier_update dnow to p of
                  Inl e \<Rightarrow> (Inl e, s)
                | Inr p1 \<Rightarrow>
                    let p' = p1\<lparr>pc_updated := dnow\<rparr>;
                        s1 = upd_parcel i (\<lambda>_. p') s;
                        s2 = (if to = PRequested
                              then s1\<lparr>parcel_offers := respond dnow Declined (\<lambda>y. of_subject y = i \<and> of_driver y = user) (parcel_offers s1)\<rparr>
                              else s1)
                    in (Inr p', p_emit dnow i (courier_event to)
                          [(''parcel_id'', JStr i), (''code'', JStr (pc_code p')), (''customer_id'', JStr (pc_customer p')),
                           (''courier_id'', JStr user), (''reason'', JStr reason)]
                          (parcelEvent dnow i (Some (pc_state p)) to ''courier'' (Some user) [(''reason'', JStr reason)] s2))))"

definition PickUp :: "time \<Rightarrow> uuid \<Rightarrow> uuid \<Rightarrow> string \<Rightarrow> (parcels_db, err, parcel_view) op" where
  "PickUp dnow user i code s =
     (case begin_func (transition_tx dnow user i PPickedUp code []) s of
        (Inl e, s1) \<Rightarrow> (Inl e, s1) | (Inr p, s1) \<Rightarrow> (Inr (forCourier p), s1))"

text \<open>The parcel that \<open>Deliver\<close> settles is the answer of the transition; only its codes are blank.\<close>

definition Deliver :: "parcels_cfg \<Rightarrow> time \<Rightarrow> time \<Rightarrow> uuid \<Rightarrow> uuid \<Rightarrow> uuid \<Rightarrow> string \<Rightarrow> (parcels_db, err, parcel_view) op" where
  "Deliver cfg gnow dnow txi user i code s =
     (case begin_func (transition_tx dnow user i PDelivered code []) s of
        (Inl e, s1) \<Rightarrow> (Inl e, s1)
      | (Inr p, s1) \<Rightarrow>
          let s2 = mark_loc cfg (SetAvailable gnow user) s1;
              s3 = snd (settle dnow txi (pv_parcel (forCourier p)) s2)
          in (case find_parcel i s3 of None \<Rightarrow> (Inl NoRows, s3) | Some p' \<Rightarrow> (Inr (forCourier p'), s3)))"

definition Release :: "parcels_cfg \<Rightarrow> time \<Rightarrow> time \<Rightarrow> uuid \<Rightarrow> uuid \<Rightarrow> string \<Rightarrow> (parcels_db, err, parcel_view) op" where
  "Release cfg gnow dnow user i reason s =
     (case begin_func (transition_tx dnow user i PRequested [] (clip reason 200)) s of
        (Inl e, s1) \<Rightarrow> (Inl e, s1)
      | (Inr p, s1) \<Rightarrow> (Inr (forCourier p), mark_loc cfg (SetAvailable gnow user) s1))"

end
