(* ===== verification/ParcelDispatch.thy ===== *)
theory ParcelDispatch
  imports Parcels
begin

text \<open>
  \<open>modules/parcels/dispatch.go\<close>: offering a requested parcel to couriers, one at a time. Here the
  query of eligibility looks at rides, orders and parcels and at the offers of both kinds, and a parcel
  that finds no courier in time is closed. The search in Redis also cleans its index of stale drivers,
  which survives a rollback of the transaction.
\<close>

definition OfferTTL :: time where "OfferTTL = 25 * Second"
definition SearchRadiusKm :: real where "SearchRadiusKm = 6"
definition Category :: string where "Category = ''economy''"
definition Timeout :: time where "Timeout = 15 * Minute"

definition urbanSpeed :: real where "urbanSpeed = 25000 / 3600"
definition detourFactor :: real where "detourFactor = 1.3"

definition parcel_eta :: "real \<Rightarrow> int" where
  "parcel_eta d = (let eta = \<lfloor>d * detourFactor / urbanSpeed\<rfloor> in if eta < 60 then 60 else eta)"

definition eligible_courier :: "time \<Rightarrow> parcels_db \<Rightarrow> uuid \<Rightarrow> bool" where
  "eligible_courier dnow s d \<longleftrightarrow>
     exists_where (\<lambda>p. UserID p = d \<and> DStatus p = Approved_status) (profiles (p_drivers s)) \<and>
     \<not> exists_where (\<lambda>r. rd_driver r = Some d \<and> DriverBusy (rd_state r)) (p_rides s) \<and>
     \<not> exists_where (\<lambda>r. od_courier r = Some d \<and> Orders.CourierBusy (od_state r)) (p_orders s) \<and>
     \<not> exists_where (\<lambda>p. pc_courier p = Some d \<and> CourierBusy (pc_state p)) (parcels s) \<and>
     \<not> exists_where (\<lambda>x. of_driver x = d \<and> of_state x = Offered \<and> of_expires x > dnow) (p_order_offers s) \<and>
     \<not> exists_where (\<lambda>x. of_driver x = d \<and> of_state x = Offered \<and> of_expires x > dnow) (parcel_offers s)"

definition offer_parcel :: "time \<Rightarrow> time \<Rightarrow> uuid \<Rightarrow> uuid \<Rightarrow> nat \<Rightarrow> candidate \<Rightarrow> (parcels_db, err, bool) op" where
  "offer_parcel gnow dnow offerID i rnd c s =
     (if exists_where (\<lambda>x. of_id x = offerID \<or> of_subject x = i \<and> of_driver x = DriverID c) (parcel_offers s) then (Inl PgUnique, s)
      else (Inr True, p_emit dnow i ''ParcelOffered''
             [(''parcel_id'', JStr i), (''courier_id'', JStr (DriverID c)), (''offer_id'', JStr offerID),
              (''expires_at'', JInt (gnow + OfferTTL)), (''round'', JInt (int rnd + 1))]
             (s\<lparr>parcel_offers := parcel_offers s @ [\<lparr>of_id = offerID, of_subject = i, of_driver = DriverID c,
                 of_round = int rnd + 1, of_state = Offered, of_distance = \<lfloor>DistanceM c\<rfloor>, of_eta = parcel_eta (DistanceM c),
                 of_expires = gnow + OfferTTL, of_responded = None, of_created = dnow\<rparr>]\<rparr>)))"

definition pick_courier :: "time \<Rightarrow> uuid list \<Rightarrow> parcels_db \<Rightarrow> candidate list \<Rightarrow> candidate option" where
  "pick_courier dnow excluded s cands =
     find (\<lambda>c. DriverID c \<notin> set excluded \<and> eligible_courier dnow s (DriverID c)) cands"

text \<open>No courier within the time limit: the parcel is closed, and the customer can ask again.\<close>

definition close_parcel :: "time \<Rightarrow> uuid \<Rightarrow> parcels_db \<Rightarrow> parcels_db" where
  "close_parcel dnow i s = p_emit dnow i ''ParcelNoCourier'' [(''parcel_id'', JStr i)]
     (parcelEvent dnow i (Some PRequested) PNoCourier ''system'' None []
        (upd_parcel i (\<lambda>x. x\<lparr>pc_state := PNoCourier, pc_pay := PayNone, pc_updated := dnow\<rparr>) s))"

text \<open>The number of the round is the number of couriers asked so far (a map in the code).\<close>

definition round_tx :: "geo_search \<Rightarrow> time \<Rightarrow> time \<Rightarrow> uuid \<Rightarrow> uuid \<Rightarrow> (parcels_db, err, bool) op" where
  "round_tx gs gnow dnow offerID i s =
     (case find_parcel i s of
        None \<Rightarrow> (Inl NoRows, s)
      | Some p \<Rightarrow>
          if pc_state p \<noteq> PRequested then (Inr False, s)
          else if open_offers dnow i (parcel_offers s) > 0 then (Inr False, s)
          else if gnow - pc_created p > Timeout then (Inr False, close_parcel dnow i s)
          else
            let excluded = map of_driver (filter (\<lambda>x. of_subject x = i) (parcel_offers s));
                rnd = length (remdups excluded);
                (cands, l) = Nearest gs gnow Category (pc_pickup p) SearchRadiusKm 10 (p_loc s);
                s1 = s\<lparr>p_loc := l\<rparr>
            in (case pick_courier dnow excluded s1 cands of
                  None \<Rightarrow> (Inr False, s1)
                | Some c \<Rightarrow> offer_parcel gnow dnow offerID i rnd c s1))"

definition Round :: "geo_search \<Rightarrow> time \<Rightarrow> time \<Rightarrow> uuid \<Rightarrow> uuid \<Rightarrow> (parcels_db, err, bool) op" where
  "Round gs gnow dnow offerID i s =
     (case begin_func (round_tx gs gnow dnow offerID i) s of
        (Inl e, s1) \<Rightarrow> (Inl e, s1\<lparr>p_loc := p_loc (snd (round_tx gs gnow dnow offerID i s))\<rparr>)
      | (Inr b, s1) \<Rightarrow> (Inr b, s1))"

text \<open>The statistics are those of the ride dispatcher: offers expired, rounds made, offers made.\<close>

fun emit_expired :: "time \<Rightarrow> offer list \<Rightarrow> parcels_db \<Rightarrow> parcels_db" where
  "emit_expired dnow [] s = s"
| "emit_expired dnow (x # xs) s = emit_expired dnow xs (p_emit dnow (of_subject x) ''ParcelOfferExpired''
     [(''parcel_id'', JStr (of_subject x)), (''courier_id'', JStr (of_driver x)), (''offer_id'', JStr (of_id x))] s)"

fun sweep_rounds :: "geo_search \<Rightarrow> time \<Rightarrow> time \<Rightarrow> (nat \<Rightarrow> uuid) \<Rightarrow> uuid list \<Rightarrow> sweep_stats \<Rightarrow>
    (parcels_db, err \<times> sweep_stats, sweep_stats) op" where
  "sweep_rounds gs gnow dnow ids [] st s = (Inr st, s)"
| "sweep_rounds gs gnow dnow ids (i # is) st s =
     (let st1 = st\<lparr>swRounds := swRounds st + 1\<rparr>
      in case Round gs gnow dnow (ids (swRounds st)) i s of
           (Inl e, s1) \<Rightarrow> (Inl (e, st1), s1)
         | (Inr b, s1) \<Rightarrow> sweep_rounds gs gnow dnow ids is (if b then st1\<lparr>swOffered := swOffered st1 + 1\<rparr> else st1) s1)"

definition Sweep :: "geo_search \<Rightarrow> time \<Rightarrow> time \<Rightarrow> (nat \<Rightarrow> uuid) \<Rightarrow> (parcels_db, err \<times> sweep_stats, sweep_stats) op" where
  "Sweep gs gnow dnow ids s =
     (let expired = filter (overdue dnow) (parcel_offers s);
          s1 = emit_expired dnow expired (s\<lparr>parcel_offers := respond dnow Expired (overdue dnow) (parcel_offers s)\<rparr>);
          is = map pc_id (take 200 (sort_key pc_created
                 (filter (\<lambda>p. pc_state p = PRequested \<and> open_offers dnow (pc_id p) (parcel_offers s1) = 0) (parcels s1))))
      in sweep_rounds gs gnow dnow ids is \<lparr>swExpired = length expired, swRounds = 0, swOffered = 0\<rparr> s1)"

end
