(* ===== verification/ParcelSafety.thy ===== *)
theory ParcelSafety
  imports ParcelDispatch
begin

text \<open>
  The protocol of parcels: the handlers of customer and courier, the settlement and the dispatcher are
  sequences of moves of the common protocol on the table of parcels and its journal. From that follow
  the invariant of the table and who may move a parcel on, and with which code.
\<close>

section \<open>Parcels follow the common protocol\<close>

definition parcel_fixed where
  "parcel_fixed p = (pc_id p, (pc_customer p, pc_idem p), (pc_code p, pc_pickup_code p, pc_delivery_code p), pc_method p,
     (pc_price p, pc_discount p, pc_commission p), pc_currency p, pc_coupon p, (pc_pickup p, pc_dropoff p),
     (pc_recipient_name p, pc_recipient_phone p), pc_created p)"

definition parcel_final where
  "parcel_final p = (pc_cancelled_by p, pc_reason p, pc_assigned_at p, pc_picked_at p, pc_delivered_at p, pc_cancelled_at p)"

definition four_digits :: "string \<Rightarrow> bool" where
  "four_digits c \<longleftrightarrow> length c = 4 \<and> list_all is_digit c"

text \<open>What a row promises in every state.\<close>

definition parcel_ok :: "parcel \<Rightarrow> bool" where
  "parcel_ok p \<longleftrightarrow> parcel_checks p \<and> four_digits (pc_pickup_code p) \<and> four_digits (pc_delivery_code p) \<and>
     (CourierBusy (pc_state p) \<or> pc_state p = PDelivered \<longrightarrow> pc_courier p \<noteq> None) \<and> (pc_state p = PRequested \<longrightarrow> pc_courier p = None) \<and>
     (\<not> IsTerminal (pc_state p) \<longrightarrow> pc_pay p = PayPending) \<and>
     (pc_state p = PCancelled \<or> pc_state p = PNoCourier \<longrightarrow> pc_pay p = PayNone) \<and>
     (pc_pay p = PayPaid \<longrightarrow> pc_method p = Wallet) \<and> (pc_pay p = PayCash \<longrightarrow> pc_method p \<noteq> Wallet) \<and>
     (pc_pay p = PayNone \<longrightarrow> pc_state p \<noteq> PDelivered)"

lemmas parcel_row_defs = parcel_ok_def parcel_checks_def CourierBusy_def IsTerminal_def parcel_fixed_def

interpretation pm: courier_protocol transitions PRequested IsTerminal pc_id pc_state pc_courier
  "\<lambda>p. (pc_customer p, pc_idem p)" parcel_fixed parcel_final CourierBusy parcel_ok
proof
  fix s show "IsTerminal s \<Longrightarrow> transitions s = []" by (auto simp: IsTerminal_def)
  show "transitions s = [] \<Longrightarrow> IsTerminal s" by (cases s) (auto simp: IsTerminal_def)
next
  fix p p' :: parcel assume "parcel_fixed p = parcel_fixed p'"
  then show "pc_id p = pc_id p'" "(pc_customer p, pc_idem p) = (pc_customer p', pc_idem p')"
    by (simp_all add: parcel_fixed_def)
qed (auto simp: parcel_row_defs)

abbreviation ptab :: "parcels_db \<Rightarrow> (parcel, parcel_state) tables" where
  "ptab s \<equiv> (parcels s, parcel_journal s)"

lemma parcel_frame [frame_simps, simp]:
  "parcels (p_emit dnow i ev b s) = parcels s" "parcel_journal (p_emit dnow i ev b s) = parcel_journal s"
  "parcels (Parcels.mark_loc cfg f s) = parcels s" "parcel_journal (Parcels.mark_loc cfg f s) = parcel_journal s"
  "parcels (parcelEvent dnow i from to aty a meta s) = parcels s"
  "parcel_journal (parcelEvent dnow i from to aty a meta s) = parcel_journal s @ [\<lparr>jn_subject = i, jn_from = from, jn_to = to,
     jn_actor_type = aty, jn_actor = a, jn_meta = meta, jn_created = dnow\<rparr>]"
  "parcels (upd_parcel i g s) = upd_where (\<lambda>p. pc_id p = i) g (parcels s)" "parcel_journal (upd_parcel i g s) = parcel_journal s"
  by (simp_all add: p_emit_def Parcels.mark_loc_def parcelEvent_def upd_parcel_def)

text \<open>Which states a handler can bring rows into; all other rows keep theirs.\<close>

definition brings_into :: "parcel_state set \<Rightarrow> parcels_db \<Rightarrow> parcels_db \<Rightarrow> bool" where
  "brings_into S s s' \<longleftrightarrow> (\<forall>p' \<in> set (parcels s'). pc_state p' \<in> S \<or>
     (\<exists>p \<in> set (parcels s). pc_id p = pc_id p' \<and> pc_state p = pc_state p'))"

lemma brings_into_refl: "parcels s' = parcels s \<Longrightarrow> brings_into S s s'"
  by (auto simp: brings_into_def)

lemma brings_into_trans: "brings_into S s t \<Longrightarrow> brings_into S t u \<Longrightarrow> brings_into S s u"
  unfolding brings_into_def by metis

lemma brings_into_mono: "brings_into S s t \<Longrightarrow> S \<subseteq> S' \<Longrightarrow> brings_into S' s t"
  unfolding brings_into_def by blast

lemma brings_into_upd:
  assumes "parcels s' = upd_where P f (parcels s)"
    "\<And>x. x \<in> set (parcels s) \<Longrightarrow> P x \<Longrightarrow> pc_state (f x) \<in> S \<or> pc_id (f x) = pc_id x \<and> pc_state (f x) = pc_state x"
  shows "brings_into S s s'"
  unfolding brings_into_def assms(1) using assms(2) by (fastforce simp: set_upd_where)

text \<open>A handler in terms of both: its moves, and the states it brings rows into.\<close>

definition acts :: "parcel_state set \<Rightarrow> parcels_db \<Rightarrow> parcels_db \<Rightarrow> bool" where
  "acts S s s' \<longleftrightarrow> pm.move\<^sup>*\<^sup>* (ptab s) (ptab s') \<and> brings_into S s s'"

lemma acts_refl: "parcels s' = parcels s \<Longrightarrow> parcel_journal s' = parcel_journal s \<Longrightarrow> acts S s s'"
  by (simp add: acts_def brings_into_refl)

lemma acts_trans: "acts S s t \<Longrightarrow> acts S t u \<Longrightarrow> acts S s u"
  unfolding acts_def by (meson rtranclp_trans brings_into_trans)

lemma acts_mono: "acts S s t \<Longrightarrow> S \<subseteq> S' \<Longrightarrow> acts S' s t"
  unfolding acts_def by (meson brings_into_mono)

lemma acts_inv: "acts S s s' \<Longrightarrow> pm.inv (ptab s) \<Longrightarrow> pm.inv (ptab s')"
  unfolding acts_def using pm.moves_inv by blast

lemma acts_frame: "acts S s t \<Longrightarrow> parcels u = parcels t \<Longrightarrow> parcel_journal u = parcel_journal t \<Longrightarrow> acts S s u"
  by (simp add: acts_def brings_into_def)

lemma acts_begin_func:
  assumes "\<And>a s'. body s = (Inr a, s') \<Longrightarrow> acts S s s'"
  shows "acts S s (snd (begin_func body s))"
  using assms by (cases body s rule: begin_func_cases) (auto intro: acts_refl)

text \<open>A transition of the row found by a query, with its line in the journal.\<close>

lemma parcel_moves:
  assumes "pm.inv (ptab s)" "find P (parcels s) = Some p" "pc_id p = i" "CanTransition (pc_state p) (pc_state p')"
    "parcel_fixed p' = parcel_fixed p" "parcel_ok p'"
    "CourierBusy (pc_state p') \<longrightarrow> CourierBusy (pc_state p) \<and> pc_courier p' = pc_courier p \<or>
       (\<forall>x \<in> set (parcels s). pc_id x \<noteq> i \<longrightarrow> CourierBusy (pc_state x) \<longrightarrow> pc_courier x \<noteq> pc_courier p')"
    "parcels s' = upd_where (\<lambda>x. pc_id x = i) (\<lambda>_. p') (parcels s)"
    "parcel_journal s' = parcel_journal s @ [e]" "jn_subject e = i" "jn_from e = Some (pc_state p)" "jn_to e = pc_state p'"
  shows "acts {pc_state p'} s s'"
  using pm.found_moves[OF assms(1-3) assms(4)[unfolded CanTransition_def] assms(5-7,10-12,8,9)]
    brings_into_upd[OF assms(8)] by (simp add: acts_def)

section \<open>The handlers\<close>

lemma Quote_acts: "acts S s (snd (Quote gnow i route user inp s))"
  by (rule acts_refl) (auto simp: Quote_def Let_def split: sum.split route_answer.split)

lemma newDigits_four: "four_digits (newDigits b)"
proof -
  have "is_digit (char_of (48 + n mod 10 :: nat))" for n
    by (simp add: is_digit_def of_char_of)
  then show ?thesis by (simp add: four_digits_def newDigits_def list_all_iff)
qed

text \<open>\<open>Create\<close> refuses, returns the parcel of an earlier request, or runs its transaction on a quote.\<close>

lemma parcel_Create_cases:
  obtains (refused) e where "Create cfg gnow dnow i b1 b2 b3 user idem inp s = (Inl e, s)"
  | (known) k pm inp' p where "validate_create idem inp = Inr (k, pm, inp')"
      "find (\<lambda>p. pc_customer p = user \<and> pc_idem p = k) (parcels s) = Some p"
      "Create cfg gnow dnow i b1 b2 b3 user idem inp s = (Inr (withCourier s p), s)"
  | (tx) k pm inp' q discount coupon where "validate_create idem inp = Inr (k, pm, inp')"
      "find (\<lambda>p. pc_customer p = user \<and> pc_idem p = k) (parcels s) = None"
      "find (\<lambda>q. pq_id q = crQuote inp' \<and> pq_customer q = user) (parcel_quotes s) = Some q" "gnow \<le> pq_expires q"
      "price_coupon cfg gnow user (crCoupon inp') (pq_price q) (p_promos s) = Inr (discount, coupon)"
      "wallet_covers user pm (sub64 (pq_price q) discount) (p_core s) = Inr ()"
      "Create cfg gnow dnow i b1 b2 b3 user idem inp s =
         (case begin_func (create_tx gnow dnow coupon (new_parcel dnow i b1 b2 b3 user k pm inp' q discount coupon)) s of
            (Inl e, s1) \<Rightarrow> (Inl e, s1) | (Inr p, s1) \<Rightarrow> (Inr \<lparr>pv_parcel = p, pv_courier = None\<rparr>, s1))"
proof (cases "validate_create idem inp")
  case (Inl e)
  then show ?thesis by (intro refused[of e]) (simp add: Create_def)
next
  case v: (Inr a)
  obtain k pm inp' where a: "a = (k, pm, inp')" by (cases a)
  show ?thesis
  proof (cases "find (\<lambda>p. pc_customer p = user \<and> pc_idem p = k) (parcels s)")
    case (Some p)
    then show ?thesis using v a by (intro known[of k pm inp' p]) (simp_all add: Create_def)
  next
    case f: None
    show ?thesis
    proof (cases "find (\<lambda>q. pq_id q = crQuote inp' \<and> pq_customer q = user) (parcel_quotes s)")
      case None
      then show ?thesis using v a f by (intro refused) (simp add: Create_def)
    next
      case q: (Some q)
      show ?thesis
      proof (cases "gnow \<le> pq_expires q")
        case t: True
        show ?thesis
        proof (cases "price_coupon cfg gnow user (crCoupon inp') (pq_price q) (p_promos s)")
          case (Inl e)
          then show ?thesis using v a f q t by (intro refused[of e]) (simp add: Create_def)
        next
          case c: (Inr dc)
          obtain discount coupon where dc: "dc = (discount, coupon)" by (cases dc)
          show ?thesis
          proof (cases "wallet_covers user pm (sub64 (pq_price q) discount) (p_core s)")
            case (Inl e)
            then show ?thesis using v a f q t c dc by (intro refused[of e]) (simp add: Create_def)
          next
            case (Inr u)
            then show ?thesis using v a f q t c dc by (intro tx[of k pm inp' q discount coupon]) (simp_all add: Create_def)
          qed
        qed
      next
        case False
        then show ?thesis using v a f q by (intro refused[of ErrQuoteExpired]) (simp add: Create_def)
      qed
    qed
  qed
qed

lemma parcel_create_tx_Inr:
  assumes "create_tx gnow dnow coupon p s = (Inr p', s')"
  shows "p' = p" "parcel_checks p" "\<forall>x \<in> set (parcels s). pc_id x \<noteq> pc_id p \<and> pc_code x \<noteq> pc_code p \<and>
      (pc_customer x, pc_idem x) \<noteq> (pc_customer p, pc_idem p)" "parcels s' = parcels s @ [p]"
    "\<exists>e. parcel_journal s' = parcel_journal s @ [e] \<and> jn_subject e = pc_id p \<and> jn_from e = None \<and> jn_to e = PRequested"
  using assms by (auto simp: create_tx_def insert_parcel_def exists_where_iff split: if_splits sum.splits prod.splits)

lemma parcel_Create_acts:
  assumes "pm.inv (ptab s)"
  shows "acts {PRequested} s (snd (Create cfg gnow dnow i b1 b2 b3 user idem inp s))"
proof (cases rule: parcel_Create_cases[of cfg gnow dnow i b1 b2 b3 user idem inp s])
  case (tx k m inp' q discount coupon)
  let ?p = "new_parcel dnow i b1 b2 b3 user k m inp' q discount coupon"
  have "acts {PRequested} s s'" if "create_tx gnow dnow coupon ?p s = (Inr p', s')" for p' s'
  proof -
    note C = parcel_create_tx_Inr[OF that]
    have st: "pc_state ?p = PRequested" "pc_pay ?p = PayPending" "pc_courier ?p = None" "four_digits (pc_pickup_code ?p)"
      "four_digits (pc_delivery_code ?p)"
      by (simp_all add: new_parcel_def newDigits_four)
    then have ok: "parcel_ok ?p" using C(2) by (simp add: parcel_ok_def CourierBusy_def IsTerminal_def)
    from C(5) obtain e where e: "parcel_journal s' = parcel_journal s @ [e]" "jn_subject e = pc_id ?p" "jn_from e = None" "jn_to e = PRequested"
      by blast
    have "\<forall>x \<in> set (parcels s). pc_id x \<noteq> pc_id ?p \<and> (pc_customer x, pc_idem x) \<noteq> (pc_customer ?p, pc_idem ?p)" using C(3) by blast
    then have "pm.move (ptab s) (parcels s @ [?p], parcel_journal s @ [e])"
      by (rule pm.move.insert[OF st(1) ok _ e(2-4)])
    moreover have "brings_into {PRequested} s s'" using st(1) unfolding brings_into_def C(4) by auto
    ultimately show ?thesis unfolding acts_def C(4) e(1) by blast
  qed
  then have "acts {PRequested} s (snd (begin_func (create_tx gnow dnow coupon ?p) s))" by (rule acts_begin_func)
  then show ?thesis unfolding tx(7) by simp
qed (simp_all add: acts_refl)

lemma cancel_tx_acts:
  assumes "pm.inv (ptab s)" "cancel_tx dnow user i reason s = (Inr p', s')"
  shows "acts {PCancelled} s s'"
proof -
  obtain p where f: "find (\<lambda>p. pc_id p = i \<and> pc_customer p = user) (parcels s) = Some p" and c: "CustomerCanCancel (pc_state p)"
    using assms(2) by (auto simp: cancel_tx_def split: option.splits if_splits)
  have p: "p \<in> set (parcels s)" "pc_id p = i" using find_SomeD[OF f] by auto
  have p': "p' = p\<lparr>pc_state := PCancelled, pc_pay := PayNone, pc_cancelled_by := Some ''customer'',
                       pc_reason := nullable (clip reason 200), pc_cancelled_at := Some dnow, pc_updated := dnow\<rparr>"
    and o: "parcels s' = upd_where (\<lambda>x. pc_id x = i) (\<lambda>_. p') (parcels s)"
    and j: "\<exists>e. parcel_journal s' = parcel_journal s @ [e] \<and> jn_subject e = i \<and> jn_from e = Some (pc_state p) \<and> jn_to e = PCancelled"
    using assms(2) f c by (auto simp: cancel_tx_def Let_def)
  have ct: "CanTransition (pc_state p) (pc_state p')" using c by (auto simp: CustomerCanCancel_def CanTransition_def can_transition_def p')
  have ok: "parcel_ok p'" "parcel_fixed p' = parcel_fixed p" using pm.inv_D(3)[OF assms(1) p(1)] by (simp_all add: p' parcel_row_defs)
  from j obtain e where e: "parcel_journal s' = parcel_journal s @ [e]" "jn_subject e = i" "jn_from e = Some (pc_state p)" "jn_to e = pc_state p'"
    by (auto simp: p')
  have "acts {pc_state p'} s s'" by (rule parcel_moves[OF assms(1) f p(2) ct ok(2,1) _ o e]) (simp add: p' CourierBusy_def)
  then show ?thesis by (simp add: p')
qed

lemma parcel_Cancel_acts:
  assumes "pm.inv (ptab s)"
  shows "acts {PCancelled} s (snd (Cancel cfg gnow dnow user i reason s))"
proof (cases "cancel_tx dnow user i reason" s rule: begin_func_cases)
  case (rollback e)
  then show ?thesis by (simp add: Cancel_def acts_refl)
next
  case (commit p s1)
  have a: "acts {PCancelled} s s1" using cancel_tx_acts[OF assms commit(1)] .
  show ?thesis using commit by (auto simp: Cancel_def Let_def intro!: acts_frame[OF a] split: option.split)
qed

text \<open>Settling changes the payment of one row, which is delivered.\<close>

definition delivered_row :: "parcel \<Rightarrow> parcels_db \<Rightarrow> bool" where
  "delivered_row p s \<longleftrightarrow> (\<forall>x \<in> set (parcels s). pc_id x = pc_id p \<longrightarrow> pc_state x = PDelivered \<and> pc_method x = pc_method p)"

lemma parcel_row_delivered:
  assumes "pm.inv (ptab s)" "p \<in> set (parcels s)" "pc_state p = PDelivered"
  shows "delivered_row p s"
  using pm.same_row[OF assms(1) _ assms(2)] assms(3) by (auto simp: delivered_row_def)

lemma setPaymentStatus_parcels:
  "parcels (snd (setPaymentStatus dnow p st s)) =
     upd_where (\<lambda>x. pc_id x = pc_id p \<and> pc_pay x = PayPending) (\<lambda>x. x\<lparr>pc_pay := st, pc_updated := dnow\<rparr>) (parcels s)"
  "parcel_journal (snd (setPaymentStatus dnow p st s)) = parcel_journal s"
  "fst (setPaymentStatus dnow p st s) = Inr ()"
  by (simp_all add: setPaymentStatus_def begin_func_def)

lemma setPaymentStatus_acts:
  assumes "pm.inv (ptab s)" "delivered_row p s"
    "(st = PayPaid \<and> pc_method p = Wallet) \<or> (st = PayCash \<and> pc_method p \<noteq> Wallet) \<or> st = PayFailed"
  shows "acts {} s (snd (setPaymentStatus dnow p st s))"
proof -
  let ?P = "\<lambda>x. pc_id x = pc_id p \<and> pc_pay x = PayPending" and ?f = "\<lambda>x :: parcel. x\<lparr>pc_pay := st, pc_updated := dnow\<rparr>"
  have "parcel_fixed (?f x) = parcel_fixed x \<and> parcel_final (?f x) = parcel_final x \<and> pc_state (?f x) = pc_state x \<and>
      pc_courier (?f x) = pc_courier x \<and> parcel_ok (?f x)" if x: "x \<in> set (parcels s)" "?P x" for x
    using assms(2,3) x pm.inv_D(3)[OF assms(1) x(1)] unfolding delivered_row_def
    by (auto simp: parcel_row_defs parcel_final_def)
  then have "pm.move\<^sup>*\<^sup>* (ptab s) (upd_where ?P ?f (parcels s), parcel_journal s)"
    using pm.inv_D(3)[OF assms(1)] by (intro pm.update_moves) blast+
  moreover have "brings_into {} s (snd (setPaymentStatus dnow p st s))"
    by (rule brings_into_upd[OF setPaymentStatus_parcels(1)]) simp
  ultimately show ?thesis by (simp add: acts_def setPaymentStatus_parcels)
qed

lemma parcel_plan_status:
  "settle_plan p d c = Pay st txo \<Longrightarrow> (st = PayPaid \<and> pc_method p = Wallet) \<or> (st = PayCash \<and> pc_method p \<noteq> Wallet)"
  by (auto simp: settle_plan_def split: if_splits sum.splits)

text \<open>How \<open>settle\<close> ends: it leaves the parcels alone, or sets the payment of this one.\<close>

lemma parcel_settle_cases:
  obtains (kept) "parcels (snd (settle dnow txi p s)) = parcels s" "parcel_journal (snd (settle dnow txi p s)) = parcel_journal s"
  | (set) st s1 where "ptab s1 = ptab s" "settle dnow txi p s = setPaymentStatus dnow p st s1"
      "(st = PayPaid \<and> pc_method p = Wallet) \<or> (st = PayCash \<and> pc_method p \<noteq> Wallet) \<or> st = PayFailed"
proof (cases "pc_courier p = None \<or> pc_state p \<noteq> PDelivered \<or> pc_pay p \<noteq> PayPending")
  case True
  then show ?thesis by (intro kept) (auto simp: settle_def split: option.split)
next
  case False
  then obtain d where d: "pc_courier p = Some d" "pc_state p = PDelivered" "pc_pay p = PayPending" by auto
  define s1 where "s1 = s\<lparr>p_core := EnsureAccount (courierWallet d) ''driver'' (Some d) ''liability'' (pc_currency p) (p_core s)\<rparr>"
  have t: "ptab s1 = ptab s" by (simp add: s1_def)
  have e: "settle dnow txi p s = (case settle_plan p d (p_core s1) of
                  Reject e \<Rightarrow> (Inl e, s1)
                | Fail_payment \<Rightarrow> setPaymentStatus dnow p PayFailed s1
                | Pay st None \<Rightarrow> setPaymentStatus dnow p st s1
                | Pay st (Some tx) \<Rightarrow>
                    (case Post dnow txi tx (p_core s1) of
                       (Inl e, c) \<Rightarrow> (Inl e, s1\<lparr>p_core := c\<rparr>)
                     | (Inr _, c) \<Rightarrow> setPaymentStatus dnow p st (s1\<lparr>p_core := c\<rparr>)))"
    unfolding s1_def using d by (simp add: settle_def Let_def)
  show ?thesis
  proof (cases "settle_plan p d (p_core s1)")
    case (Reject e')
    then show ?thesis using e t by (intro kept) simp_all
  next
    case Fail_payment
    then show ?thesis using e t by (intro set[of s1 PayFailed]) simp_all
  next
    case (Pay st txo)
    note P = parcel_plan_status[OF Pay]
    show ?thesis
    proof (cases txo)
      case None
      then show ?thesis using e t Pay P by (intro set[of s1 st]) auto
    next
      case (Some tx)
      obtain res c where pc: "Post dnow txi tx (p_core s1) = (res, c)" by (cases "Post dnow txi tx (p_core s1)")
      show ?thesis
      proof (cases res)
        case (Inl e')
        then show ?thesis using e t Pay Some pc by (intro kept) simp_all
      next
        case (Inr i)
        then show ?thesis using e t Pay Some pc P by (intro set[of "s1\<lparr>p_core := c\<rparr>" st]) auto
      qed
    qed
  qed
qed

lemma parcel_settle_acts:
  assumes "pm.inv (ptab s)" "delivered_row p s"
  shows "acts {} s (snd (settle dnow txi p s))"
proof (cases rule: parcel_settle_cases[of dnow txi p s])
  case kept
  then show ?thesis by (rule acts_refl)
next
  case (set st s1)
  have "acts {} s1 (snd (setPaymentStatus dnow p st s1))"
    using assms set(1,3) by (intro setPaymentStatus_acts) (simp_all add: delivered_row_def)
  then show ?thesis using set(1,2) by (simp add: acts_def brings_into_def)
qed

text \<open>Rows that are delivered stay so.\<close>

lemma delivered_kept:
  assumes "acts S s s'" "pm.inv (ptab s)" "p \<in> set (parcels s)" "pc_state p = PDelivered"
  shows "delivered_row p s'" "\<exists>p' \<in> set (parcels s'). pc_id p' = pc_id p \<and> pc_state p' = PDelivered"
proof -
  have "pm.move\<^sup>*\<^sup>* (ptab s) (ptab s')" using assms(1) by (simp add: acts_def)
  from pm.final_row[OF this assms(2,3)] obtain x
    where x: "x \<in> set (parcels s')" "parcel_fixed x = parcel_fixed p" "pc_state x = pc_state p"
    using assms(4) by (auto simp: IsTerminal_def)
  then have "delivered_row x s'" using parcel_row_delivered[OF acts_inv[OF assms(1,2)]] assms(4) by simp
  then show "delivered_row p s'" using x(2) by (auto simp: delivered_row_def parcel_fixed_def)
  show "\<exists>p' \<in> set (parcels s'). pc_id p' = pc_id p \<and> pc_state p' = PDelivered"
    using x assms(4) by (auto simp: parcel_fixed_def)
qed

lemma parcel_settle_loop_acts:
  assumes "pm.inv (ptab s)" "\<forall>p \<in> set ps. p \<in> set (parcels s0) \<and> pc_state p = PDelivered" "pm.inv (ptab s0)" "acts {} s0 s"
  shows "acts {} s (snd (settle_loop dnow txs ps n s))"
  using assms
proof (induction ps arbitrary: n s)
  case (Cons p ps)
  obtain res s1 where e: "settle dnow (txs n) p s = (res, s1)" by (cases "settle dnow (txs n) p s")
  have "delivered_row p s" using delivered_kept(1)[OF Cons.prems(4,3)] Cons.prems(2) by simp
  then have a: "acts {} s s1" using parcel_settle_acts[OF Cons.prems(1), of p dnow "txs n"] e by simp
  show ?case
  proof (cases res)
    case (Inr u)
    have "acts {} s1 (snd (settle_loop dnow txs ps (n + 1) s1))"
      using Cons.prems acts_inv[OF a] acts_trans[OF Cons.prems(4) a] by (intro Cons.IH) auto
    then show ?thesis using acts_trans[OF a] e Inr by simp
  qed (use e a in simp)
qed (simp add: acts_refl)

lemma parcel_SettlePending_acts:
  assumes "pm.inv (ptab s)"
  shows "acts {} s (snd (SettlePending dnow txs s))"
proof -
  have "\<forall>p \<in> set (pending_parcels dnow s). p \<in> set (parcels s) \<and> pc_state p = PDelivered"
    using set_take_subset[of 50] unfolding pending_parcels_def by fastforce
  then show ?thesis using assms unfolding SettlePending_def
    by (intro parcel_settle_loop_acts[where ?s0.0 = s]) (simp_all add: acts_refl)
qed

lemma parcel_accept_acts:
  assumes "pm.inv (ptab s)" "accept_tx gnow dnow user offerID s = (Inr p', s')"
  shows "acts {PAssigned} s s'"
proof -
  obtain x where x: "find (\<lambda>x. of_id x = offerID \<and> of_driver x = user) (parcel_offers s) = Some x"
    using assms(2) by (auto simp: accept_tx_def split: option.splits)
  obtain p where f: "find_parcel (of_subject x) s = Some p"
    using assms(2) x by (auto simp: accept_tx_def split: option.splits if_splits)
  have st: "pc_state p = PRequested"
    and free: "\<forall>y \<in> set (parcels s). pc_courier y = Some user \<and> CourierBusy (pc_state y) \<longrightarrow> pc_id y = pc_id p"
    and p': "p' = p\<lparr>pc_state := PAssigned, pc_courier := Some user, pc_assigned_at := Some dnow, pc_updated := dnow\<rparr>"
    and o: "parcels s' = upd_where (\<lambda>x. pc_id x = pc_id p) (\<lambda>_. p') (parcels s)"
    and j: "\<exists>e. parcel_journal s' = parcel_journal s @ [e] \<and> jn_subject e = pc_id p \<and> jn_from e = Some PRequested \<and> jn_to e = PAssigned"
    using assms(2) x f by (auto simp: accept_tx_def Let_def exists_where_iff split: if_splits)
  have p: "p \<in> set (parcels s)" using find_SomeD[OF f[unfolded find_parcel_def]] by simp
  have ct: "CanTransition (pc_state p) (pc_state p')" by (simp add: st p' CanTransition_def can_transition_def)
  have ok: "parcel_ok p'" "parcel_fixed p' = parcel_fixed p" using pm.inv_D(3)[OF assms(1) p] st by (simp_all add: p' parcel_row_defs)
  have b: "\<forall>x \<in> set (parcels s). pc_id x \<noteq> pc_id p \<longrightarrow> CourierBusy (pc_state x) \<longrightarrow> pc_courier x \<noteq> pc_courier p'"
    using free by (auto simp: p')
  from j obtain e where e: "parcel_journal s' = parcel_journal s @ [e]" "jn_subject e = pc_id p" "jn_from e = Some (pc_state p)" "jn_to e = pc_state p'"
    using st p' by auto
  have "acts {pc_state p'} s s'" using parcel_moves[OF assms(1) f[unfolded find_parcel_def] refl ct ok(2,1) _ o e] b by blast
  then show ?thesis by (simp add: p')
qed

lemma parcel_AcceptOffer_acts:
  assumes "pm.inv (ptab s)"
  shows "acts {PAssigned} s (snd (AcceptOffer cfg gnow dnow user offerID s))"
proof (cases "accept_tx gnow dnow user offerID" s rule: begin_func_cases)
  case (rollback e)
  then show ?thesis by (simp add: AcceptOffer_def acts_refl)
next
  case (commit p s1)
  then show ?thesis by (auto simp: AcceptOffer_def intro!: acts_frame[OF parcel_accept_acts[OF assms commit(1)]])
qed

lemma parcel_DeclineOffer_acts: "acts S s (snd (DeclineOffer dnow user offerID s))"
  by (rule acts_refl) (auto simp: DeclineOffer_def begin_func_def split: option.splits)

lemma parcel_update_ok:
  assumes "courier_update dnow to p = Inr p1" "parcel_ok p" "CanTransition (pc_state p) to"
  shows "parcel_ok (p1\<lparr>pc_updated := t\<rparr>)" "parcel_fixed (p1\<lparr>pc_updated := t\<rparr>) = parcel_fixed p" "pc_state p1 = to"
    "CourierBusy to \<Longrightarrow> CourierBusy (pc_state p) \<and> pc_courier p1 = pc_courier p" "to \<noteq> PRequested \<Longrightarrow> pc_courier p1 = pc_courier p"
  using assms unfolding courier_update_def CanTransition_def can_transition_def
  by (cases "pc_state p"; cases to; clarsimp simp: parcel_row_defs)+

lemma transition_tx_Inr:
  assumes "pm.inv (ptab s)" "transition_tx dnow user i to code reason s = (Inr p', s')"
  obtains p where "p \<in> set (parcels s)" "pc_id p = i" "pc_courier p = Some user" "CanTransition (pc_state p) to"
    "to = PPickedUp \<longrightarrow> code = pc_pickup_code p" "to = PDelivered \<longrightarrow> code = pc_delivery_code p"
    "parcel_fixed p' = parcel_fixed p" "pc_state p' = to" "to \<noteq> PRequested \<longrightarrow> pc_courier p' = Some user"
    "parcels s' = upd_where (\<lambda>x. pc_id x = i) (\<lambda>_. p') (parcels s)" "p' \<in> set (parcels s')" "acts {to} s s'"
proof -
  obtain p where f: "find (\<lambda>p. pc_id p = i \<and> pc_courier p = Some user) (parcels s) = Some p"
    using assms(2) by (cases "find (\<lambda>p. pc_id p = i \<and> pc_courier p = Some user) (parcels s)") (simp_all add: transition_tx_def)
  have ct: "CanTransition (pc_state p) to" using assms(2) by (rule contrapos_pp) (simp add: transition_tx_def f)
  have g: "(to = PPickedUp \<and> code \<noteq> pc_pickup_code p) = False" "(to = PDelivered \<and> code \<noteq> pc_delivery_code p) = False"
    using assms(2) ct by (simp_all add: transition_tx_def f split: if_splits)
  then have code: "to = PPickedUp \<longrightarrow> code = pc_pickup_code p" "to = PDelivered \<longrightarrow> code = pc_delivery_code p" by blast+
  obtain p1 where u: "courier_update dnow to p = Inr p1"
    using assms(2) ct unfolding transition_tx_def f option.case g if_False
    by (cases "courier_update dnow to p") simp_all
  have tx: "Inr p' = Inr (p1\<lparr>pc_updated := dnow\<rparr>) \<and> parcels s' = upd_where (\<lambda>x. pc_id x = i) (\<lambda>_. p1\<lparr>pc_updated := dnow\<rparr>) (parcels s) \<and>
      (\<exists>e. parcel_journal s' = parcel_journal s @ [e] \<and> jn_subject e = i \<and> jn_from e = Some (pc_state p) \<and> jn_to e = to)"
    using assms(2) ct unfolding transition_tx_def f option.case g if_False u sum.case Let_def
    by (cases "to = PRequested") (clarsimp; fail)+
  then have p': "p' = p1\<lparr>pc_updated := dnow\<rparr>" and o: "parcels s' = upd_where (\<lambda>x. pc_id x = i) (\<lambda>_. p') (parcels s)"
    and j: "\<exists>e. parcel_journal s' = parcel_journal s @ [e] \<and> jn_subject e = i \<and> jn_from e = Some (pc_state p) \<and> jn_to e = to"
    by simp_all
  have p: "p \<in> set (parcels s)" "pc_id p = i" "pc_courier p = Some user" using find_SomeD[OF f] by auto
  note U = parcel_update_ok[OF u pm.inv_D(3)[OF assms(1) p(1)] ct]
  from j obtain e where e: "parcel_journal s' = parcel_journal s @ [e]" "jn_subject e = i" "jn_from e = Some (pc_state p)" "jn_to e = pc_state p'"
    using U(3) p' by auto
  have a: "acts {pc_state p'} s s'"
    using U ct p' by (intro parcel_moves[OF assms(1) f p(2) _ _ _ _ o e]) auto
  have m: "p' \<in> set (parcels s')" using p unfolding o by (auto simp: set_upd_where)
  show ?thesis by (rule that[OF p ct code]) (use U p' p o a m in auto)
qed

lemma transition_tx_acts:
  assumes "pm.inv (ptab s)" "transition_tx dnow user i to code reason s = (Inr p', s')"
  shows "acts {to} s s'" "pc_id p' = i" "pc_state p' = to" "p' \<in> set (parcels s')"
  by (rule transition_tx_Inr[OF assms], simp add: parcel_fixed_def)+

lemma transition_acts:
  assumes "pm.inv (ptab s)"
  shows "acts {to} s (snd (begin_func (transition_tx dnow user i to code reason) s))"
  by (rule acts_begin_func) (rule transition_tx_acts(1)[OF assms])

lemma parcel_PickUp_acts: "pm.inv (ptab s) \<Longrightarrow> acts {PPickedUp} s (snd (PickUp dnow user i code s))"
  using transition_acts[of s PPickedUp dnow user i code "[]"] by (simp add: PickUp_def)

lemma parcel_Release_acts:
  assumes "pm.inv (ptab s)"
  shows "acts {PRequested} s (snd (Release cfg gnow dnow user i reason s))"
proof (cases "transition_tx dnow user i PRequested [] (clip reason 200)" s rule: begin_func_cases)
  case (rollback e)
  then show ?thesis by (simp add: Release_def acts_refl)
next
  case (commit p s1)
  have "acts {PRequested} s s1" by (rule transition_tx_acts(1)[OF assms commit(1)])
  then have "acts {PRequested} s (Parcels.mark_loc cfg (SetAvailable gnow user) s1)" by (rule acts_frame) simp_all
  then show ?thesis using commit by (simp add: Release_def)
qed

text \<open>A delivery that went through is settled, and the parcel is there to be answered with.\<close>

lemma Deliver_steps:
  assumes "pm.inv (ptab s)" "transition_tx dnow user i PDelivered code [] s = (Inr p, s1)"
  shows "acts {} (Parcels.mark_loc cfg (SetAvailable gnow user) s1)
      (snd (settle dnow txi (pv_parcel (forCourier p)) (Parcels.mark_loc cfg (SetAvailable gnow user) s1)))"
    "\<exists>p'. find_parcel i (snd (settle dnow txi (pv_parcel (forCourier p)) (Parcels.mark_loc cfg (SetAvailable gnow user) s1))) = Some p' \<and>
      pc_id p' = i \<and> pc_state p' = PDelivered"
proof -
  let ?s2 = "Parcels.mark_loc cfg (SetAvailable gnow user) s1"
  let ?s3 = "snd (settle dnow txi (pv_parcel (forCourier p)) ?s2)"
  note T = transition_tx_acts[OF assms]
  have "acts {PDelivered} s ?s2" using T(1) by (rule acts_frame) simp_all
  then have p: "p \<in> set (parcels ?s2)" "pc_state p = PDelivered" "pc_id p = i" "acts {PDelivered} s ?s2"
    using T by simp_all
  note I = acts_inv[OF p(4) assms(1)]
  have "delivered_row (pv_parcel (forCourier p)) ?s2"
    using parcel_row_delivered[OF I p(1,2)] by (simp add: delivered_row_def forCourier_def)
  then show a: "acts {} ?s2 ?s3" by (rule parcel_settle_acts[OF I])
  obtain p' where p': "p' \<in> set (parcels ?s3)" "pc_id p' = i" "pc_state p' = PDelivered"
    using delivered_kept(2)[OF a I p(1,2)] p(3) by auto
  have "find (\<lambda>x. pc_id x = i) (parcels ?s3) = Some p'"
    using find_key[OF pm.inv_D(1)[OF acts_inv[OF a I]] p'(1)] p'(2) by simp
  then show "\<exists>p'. find_parcel i ?s3 = Some p' \<and> pc_id p' = i \<and> pc_state p' = PDelivered" using p' by (simp add: find_parcel_def)
qed

lemma parcel_Deliver_acts:
  assumes "pm.inv (ptab s)"
  shows "acts {PDelivered} s (snd (Deliver cfg gnow dnow txi user i code s))"
proof (cases "transition_tx dnow user i PDelivered code []" s rule: begin_func_cases)
  case (rollback e)
  then show ?thesis by (simp add: Deliver_def acts_refl)
next
  case (commit p s1)
  let ?s2 = "Parcels.mark_loc cfg (SetAvailable gnow user) s1"
  have "acts {PDelivered} s s1" by (rule transition_tx_acts(1)[OF assms commit(1)])
  then have "acts {PDelivered} s ?s2" by (rule acts_frame) simp_all
  moreover have "acts {PDelivered} ?s2 (snd (settle dnow txi (pv_parcel (forCourier p)) ?s2))"
    using Deliver_steps(1)[OF assms commit(1)] by (rule acts_mono) simp
  ultimately have "acts {PDelivered} s (snd (settle dnow txi (pv_parcel (forCourier p)) ?s2))" by (rule acts_trans)
  then show ?thesis using commit by (simp add: Deliver_def Let_def split: option.split)
qed

end
