(* ===== verification/ParcelProtocol.thy ===== *)
theory ParcelProtocol
  imports ParcelSafety
begin

text \<open>
  Parcels over all runs: the dispatcher as moves, the step relation, the invariant of the tables, the
  codes with which a parcel changes hands, and what the dispatcher offers to whom.
\<close>

section \<open>The dispatcher\<close>

lemma close_parcel_acts:
  assumes "pm.inv (ptab s)" "find_parcel i s = Some p" "pc_state p = PRequested"
  shows "acts {PNoCourier} s (close_parcel dnow i s)"
proof -
  let ?p = "p\<lparr>pc_state := PNoCourier, pc_pay := PayNone, pc_updated := dnow\<rparr>"
  have f: "find (\<lambda>x. pc_id x = i) (parcels s) = Some p" using assms(2) by (simp add: find_parcel_def)
  have p: "p \<in> set (parcels s)" "pc_id p = i" using find_SomeD[OF f] by auto
  have "x = p" if "x \<in> set (parcels s)" "pc_id x = i" for x using pm.same_row[OF assms(1) that(1) p(1)] that(2) p(2) by simp
  then have o: "parcels (close_parcel dnow i s) = upd_where (\<lambda>x. pc_id x = i) (\<lambda>_. ?p) (parcels s)"
    by (auto simp: close_parcel_def upd_where_def)
  have e: "parcel_journal (close_parcel dnow i s) = parcel_journal s @ [\<lparr>jn_subject = i, jn_from = Some PRequested, jn_to = PNoCourier,
     jn_actor_type = ''system'', jn_actor = None, jn_meta = [], jn_created = dnow\<rparr>]" by (simp add: close_parcel_def)
  have "parcel_ok ?p" "parcel_fixed ?p = parcel_fixed p" "CanTransition (pc_state p) (pc_state ?p)"
    using pm.inv_D(3)[OF assms(1) p(1)] assms(3) by (simp_all add: parcel_row_defs CanTransition_def can_transition_def)
  then have "acts {pc_state ?p} s (close_parcel dnow i s)"
    using assms(3) by (intro parcel_moves[OF assms(1) f p(2) _ _ _ _ o e]) (simp_all add: CourierBusy_def)
  then show ?thesis by simp
qed

lemma parcel_round_tx_acts:
  assumes "pm.inv (ptab s)"
  shows "acts {PNoCourier} s (snd (round_tx gs gnow dnow offerID i s))"
proof (cases "find_parcel i s")
  case (Some p)
  have "acts {PNoCourier} s (snd (offer_parcel gnow dnow offerID i rnd c (s\<lparr>p_loc := l\<rparr>)))" for rnd c l
    by (rule acts_refl) (simp_all add: offer_parcel_def)
  then show ?thesis
    using Some close_parcel_acts[OF assms Some]
    by (auto simp: round_tx_def Let_def acts_refl split: option.split prod.split)
qed (simp add: round_tx_def acts_refl)

lemma parcel_Round_acts:
  assumes "pm.inv (ptab s)"
  shows "acts {PNoCourier} s (snd (Round gs gnow dnow offerID i s))"
proof (cases "round_tx gs gnow dnow offerID i" s rule: begin_func_cases)
  case (rollback e)
  then show ?thesis by (simp add: Round_def acts_refl)
next
  case (commit b s1)
  then show ?thesis using parcel_round_tx_acts[OF assms, of gs gnow dnow offerID i] by (simp add: Round_def)
qed

lemma parcel_sweep_rounds_acts:
  assumes "pm.inv (ptab s)"
  shows "acts {PNoCourier} s (snd (sweep_rounds gs gnow dnow ids is st s))"
  using assms
proof (induction "is" arbitrary: st s)
  case (Cons i "is")
  obtain res s1 where e: "Round gs gnow dnow (ids (swRounds st)) i s = (res, s1)" by (cases "Round gs gnow dnow (ids (swRounds st)) i s")
  have m: "acts {PNoCourier} s s1" using parcel_Round_acts[OF Cons.prems, of gs gnow dnow "ids (swRounds st)" i] e by simp
  note IH = Cons.IH[OF acts_inv[OF m Cons.prems]]
  show ?case using e m acts_trans[OF m IH] by (cases res) (simp_all add: Let_def)
qed (simp add: acts_refl)

lemma parcel_emit_expired_tab: "ptab (emit_expired dnow xs s) = ptab s"
  by (induction xs arbitrary: s) simp_all

lemma parcel_Sweep_acts:
  assumes "pm.inv (ptab s)"
  shows "acts {PNoCourier} s (snd (Sweep gs gnow dnow ids s))"
proof -
  let ?s = "emit_expired dnow (filter (overdue dnow) (parcel_offers s)) (s\<lparr>parcel_offers := respond dnow Expired (overdue dnow) (parcel_offers s)\<rparr>)"
  have t: "ptab ?s = ptab s" unfolding parcel_emit_expired_tab by simp
  have a: "acts {PNoCourier} s ?s" using t by (intro acts_refl) simp_all
  have "acts {PNoCourier} ?s (snd (sweep_rounds gs gnow dnow ids is st ?s))" for "is" st
    using acts_inv[OF a assms] by (rule parcel_sweep_rounds_acts)
  then show ?thesis using acts_trans[OF a] unfolding Sweep_def Let_def by blast
qed

text \<open>
  Whom a round offers a parcel to: one approved courier who has no ride, order or parcel in hand and no
  open offer of an order or a parcel, and who has not been asked for this parcel before; the parcel waits
  for a courier, has no open offer and is not older than the time limit.
\<close>

lemma parcel_Round_offers:
  assumes "Round gs gnow dnow offerID i s = (Inr True, s')"
  shows "\<exists>x p. parcel_offers s' = parcel_offers s @ [x] \<and> of_id x = offerID \<and> of_subject x = i \<and> of_state x = Offered \<and>
     of_expires x = gnow + OfferTTL \<and> eligible_courier dnow s (of_driver x) \<and>
     (\<forall>y \<in> set (parcel_offers s). of_subject y = i \<longrightarrow> of_driver y \<noteq> of_driver x) \<and>
     find_parcel i s = Some p \<and> pc_state p = PRequested \<and> open_offers dnow i (parcel_offers s) = 0 \<and> gnow - pc_created p \<le> Timeout"
proof -
  have r: "round_tx gs gnow dnow offerID i s = (Inr True, s')"
    using assms by (auto simp: Round_def begin_func_def split: prod.splits sum.splits)
  obtain p where p: "find_parcel i s = Some p" using r by (auto simp: round_tx_def split: option.splits)
  have c: "pc_state p = PRequested" "open_offers dnow i (parcel_offers s) = 0" "gnow - pc_created p \<le> Timeout"
    using r p by (auto simp: round_tx_def split: if_splits)
  define excluded where "excluded = map of_driver (filter (\<lambda>x. of_subject x = i) (parcel_offers s))"
  obtain cands l where N: "Nearest gs gnow Category (pc_pickup p) SearchRadiusKm 10 (p_loc s) = (cands, l)"
    by (cases "Nearest gs gnow Category (pc_pickup p) SearchRadiusKm 10 (p_loc s)")
  have e: "(case pick_courier dnow excluded (s\<lparr>p_loc := l\<rparr>) cands of None \<Rightarrow> (Inr False, s\<lparr>p_loc := l\<rparr>)
      | Some c \<Rightarrow> offer_parcel gnow dnow offerID i (length (remdups excluded)) c (s\<lparr>p_loc := l\<rparr>)) = (Inr True, s')"
    unfolding excluded_def using r p c N by (simp add: round_tx_def Let_def)
  then obtain k where k: "pick_courier dnow excluded (s\<lparr>p_loc := l\<rparr>) cands = Some k"
    and o: "offer_parcel gnow dnow offerID i (length (remdups excluded)) k (s\<lparr>p_loc := l\<rparr>) = (Inr True, s')"
    by (auto split: option.splits)
  have "DriverID k \<notin> set excluded" "eligible_courier dnow s (DriverID k)"
    using find_SomeD[OF k[unfolded pick_courier_def]] by (simp_all add: eligible_courier_def)
  moreover from this(1) have "\<forall>y \<in> set (parcel_offers s). of_subject y = i \<longrightarrow> of_driver y \<noteq> DriverID k"
    by (auto simp: excluded_def image_iff dest: sym)
  ultimately show ?thesis using o p c by (auto simp: offer_parcel_def p_emit_def split: if_splits)
qed

section \<open>Runs\<close>

text \<open>Any handler with any arguments; and anything that leaves the parcels and their journal alone.\<close>

inductive parcels_step :: "parcels_db \<Rightarrow> parcels_db \<Rightarrow> bool" where
  quote: "parcels_step s (snd (Quote gnow i route user inp s))"
| create: "parcels_step s (snd (Create cfg gnow dnow i b1 b2 b3 user idem cinp s))"
| cancel: "parcels_step s (snd (Cancel cfg gnow dnow user i reason s))"
| accept: "parcels_step s (snd (AcceptOffer cfg gnow dnow user offerID s))"
| decline: "parcels_step s (snd (DeclineOffer dnow user offerID s))"
| pickup: "parcels_step s (snd (PickUp dnow user i code s))"
| deliver: "parcels_step s (snd (Deliver cfg gnow dnow txi user i code s))"
| release: "parcels_step s (snd (Release cfg gnow dnow user i reason s))"
| settle_pending: "parcels_step s (snd (SettlePending dnow txs s))"
| round: "parcels_step s (snd (Round gs gnow dnow offerID i s))"
| sweep: "parcels_step s (snd (Sweep gs gnow dnow ids s))"
| elsewhere: "parcels s' = parcels s \<Longrightarrow> parcel_journal s' = parcel_journal s \<Longrightarrow> parcels_step s s'"

definition fresh_parcels :: "parcels_db \<Rightarrow> bool" where
  "fresh_parcels s \<longleftrightarrow> parcels s = [] \<and> parcel_journal s = []"

lemmas parcel_handler_acts = parcel_Create_acts parcel_Cancel_acts parcel_AcceptOffer_acts parcel_PickUp_acts parcel_Deliver_acts
  parcel_Release_acts parcel_SettlePending_acts parcel_Round_acts parcel_Sweep_acts

text \<open>Only \<open>PickUp\<close> and \<open>Deliver\<close> bring a parcel into the states they are named after.\<close>

lemma parcels_step_acts:
  assumes "parcels_step s s'" "pm.inv (ptab s)"
  shows "(\<exists>dnow user i code. s' = snd (PickUp dnow user i code s) \<and> acts {PPickedUp} s s') \<or>
    (\<exists>cfg gnow dnow txi user i code. s' = snd (Deliver cfg gnow dnow txi user i code s) \<and> acts {PDelivered} s s') \<or>
    acts {PRequested, PAssigned, PCancelled, PNoCourier} s s'"
  using assms
proof (cases rule: parcels_step.cases)
  case pickup
  then show ?thesis using parcel_PickUp_acts[OF assms(2)] by blast
next
  case deliver
  then show ?thesis using parcel_Deliver_acts[OF assms(2)] by blast
next
  case quote
  then show ?thesis using Quote_acts by blast
next
  case decline
  then show ?thesis using parcel_DeclineOffer_acts by blast
next
  case elsewhere
  then show ?thesis using acts_refl by blast
qed (auto intro: acts_mono[OF parcel_Create_acts[OF assms(2)]] acts_mono[OF parcel_Cancel_acts[OF assms(2)]]
  acts_mono[OF parcel_AcceptOffer_acts[OF assms(2)]] acts_mono[OF parcel_Release_acts[OF assms(2)]]
  acts_mono[OF parcel_SettlePending_acts[OF assms(2)]] acts_mono[OF parcel_Round_acts[OF assms(2)]]
  acts_mono[OF parcel_Sweep_acts[OF assms(2)]])

lemma parcels_step_moves: "parcels_step s s' \<Longrightarrow> pm.inv (ptab s) \<Longrightarrow> pm.move\<^sup>*\<^sup>* (ptab s) (ptab s')"
  using parcels_step_acts unfolding acts_def by blast

lemma parcels_run:
  assumes "parcels_step\<^sup>*\<^sup>* s s'" "pm.inv (ptab s)"
  shows "pm.move\<^sup>*\<^sup>* (ptab s) (ptab s')" "pm.inv (ptab s')"
  by (rule pm.run_moves[where step = parcels_step and tab = ptab, OF parcels_step_moves assms], assumption+)+

lemma parcels_reachable: "fresh_parcels s0 \<Longrightarrow> parcels_step\<^sup>*\<^sup>* s0 s \<Longrightarrow> pm.inv (ptab s)"
  by (rule parcels_run(2)[of s0]) (simp_all add: fresh_parcels_def)

text \<open>
  C20. Whatever customers, couriers and workers do, in any order and with any arguments: a customer has
  one parcel per idempotency key; a courier carries at most one parcel at a time; the journal of a
  parcel starts with the request, follows the transition table and ends in its present state; both
  codes have four digits; a parcel has a courier while it is assigned, on its way or delivered, and none
  while it is requested; price and discount are not negative; the payment is pending until the parcel
  is finished and none exactly when it was cancelled or found no courier; only wallet parcels are ever
  paid and only others settled as cash.
\<close>
theorem parcels_protocol:
  assumes "fresh_parcels s0" "parcels_step\<^sup>*\<^sup>* s0 s"
  shows "(\<forall>x \<in> set (parcels s). \<forall>y \<in> set (parcels s). pc_customer x = pc_customer y \<and> pc_idem x = pc_idem y \<longrightarrow> x = y) \<and>
    (\<forall>x \<in> set (parcels s). \<forall>y \<in> set (parcels s).
        CourierBusy (pc_state x) \<and> CourierBusy (pc_state y) \<and> pc_courier x = pc_courier y \<longrightarrow> x = y) \<and>
    (\<forall>p \<in> set (parcels s). lawful transitions PRequested (history (pc_id p) (parcel_journal s)) (pc_state p) \<and>
        four_digits (pc_pickup_code p) \<and> four_digits (pc_delivery_code p) \<and>
        (CourierBusy (pc_state p) \<or> pc_state p = PDelivered \<longrightarrow> pc_courier p \<noteq> None) \<and>
        (pc_state p = PRequested \<longrightarrow> pc_courier p = None) \<and> pc_price p \<ge> 0 \<and> pc_discount p \<ge> 0 \<and>
        (\<not> IsTerminal (pc_state p) \<longrightarrow> pc_pay p = PayPending) \<and>
        (pc_pay p = PayNone \<longleftrightarrow> pc_state p = PCancelled \<or> pc_state p = PNoCourier) \<and>
        (pc_pay p = PayPaid \<longrightarrow> pc_method p = Wallet) \<and> (pc_pay p = PayCash \<longrightarrow> pc_method p \<noteq> Wallet))"
proof -
  have inv: "pm.inv (ptab s)" using parcels_reachable[OF assms] .
  note D = pm.inv_D[OF inv]
  have "x = y" if "x \<in> set (parcels s)" "y \<in> set (parcels s)" "pc_customer x = pc_customer y" "pc_idem x = pc_idem y" for x y
    using distinct_keyD[OF D(2) that(1,2)] that(3,4) by simp
  moreover have "x = y" if "x \<in> set (parcels s)" "y \<in> set (parcels s)" "CourierBusy (pc_state x)" "CourierBusy (pc_state y)"
      "pc_courier x = pc_courier y" for x y
    using pm.one_busy[OF inv that] pm.busy_bound[OF D(3)[OF that(1)] that(3)] by blast
  moreover have "pc_pay p = PayNone \<longleftrightarrow> pc_state p = PCancelled \<or> pc_state p = PNoCourier" if "p \<in> set (parcels s)" for p
    using D(3)[OF that] by (cases "pc_state p") (auto simp: parcel_ok_def IsTerminal_def)
  ultimately show ?thesis using D(3,5) unfolding parcel_ok_def parcel_checks_def by blast
qed

section \<open>Codes\<close>

definition hides_codes :: "parcel_view \<Rightarrow> bool" where
  "hides_codes v \<longleftrightarrow> pc_pickup_code (pv_parcel v) = [] \<and> pc_delivery_code (pv_parcel v) = []"

lemma forCourier_hides [simp]: "hides_codes (forCourier p)"
  by (simp add: hides_codes_def forCourier_def)

lemma changed_row:
  assumes "pm.inv (ptab s)" "brings_into S s s'" "p \<in> set (parcels s)" "p' \<in> set (parcels s')" "pc_id p' = pc_id p"
    "pc_state p' \<noteq> pc_state p"
  shows "pc_state p' \<in> S"
proof (rule ccontr)
  assume "pc_state p' \<notin> S"
  then obtain q where q: "q \<in> set (parcels s)" "pc_id q = pc_id p'" "pc_state q = pc_state p'"
    using assms(2,4) unfolding brings_into_def by blast
  then have "q = p" using pm.same_row[OF assms(1) q(1) assms(3)] assms(5) by simp
  then show False using q(3) assms(6) by simp
qed

text \<open>A row whose state a transition of the courier changed is the one the call names.\<close>

lemma transition_of_row:
  assumes "pm.inv (ptab s)" "transition_tx dnow user i to code reason s = (Inr t, s1)" "to = PPickedUp \<or> to = PDelivered"
    "brings_into {} s1 s'" "p \<in> set (parcels s)" "p' \<in> set (parcels s')" "pc_id p' = pc_id p" "pc_state p' \<noteq> pc_state p"
  shows "i = pc_id p" "pc_courier p = Some user" "CanTransition (pc_state p) to"
    "code = (if to = PPickedUp then pc_pickup_code p else pc_delivery_code p)" "pc_state p' = to"
proof -
  obtain p0 where T: "p0 \<in> set (parcels s)" "pc_id p0 = i" "pc_courier p0 = Some user" "CanTransition (pc_state p0) to"
    "to = PPickedUp \<longrightarrow> code = pc_pickup_code p0" "to = PDelivered \<longrightarrow> code = pc_delivery_code p0" "pc_state t = to"
    "parcels s1 = upd_where (\<lambda>x. pc_id x = i) (\<lambda>_. t) (parcels s)" "pc_id t = i"
    by (rule transition_tx_Inr[OF assms(1,2)]) (simp add: parcel_fixed_def)
  obtain q where q: "q \<in> set (parcels s1)" "pc_id q = pc_id p'" "pc_state q = pc_state p'"
    using assms(4,6) by (auto simp: brings_into_def)
  have "q \<notin> set (parcels s)" using pm.same_row[OF assms(1) _ assms(5)] q assms(7,8) by metis
  then have qt: "q = t" using q(1) T(8) by (auto simp: set_upd_where)
  then have "p0 = p" using pm.same_row[OF assms(1) T(1) assms(5)] T(2,9) q(2) assms(7) by simp
  then show "i = pc_id p" "pc_courier p = Some user" "CanTransition (pc_state p) to"
    "code = (if to = PPickedUp then pc_pickup_code p else pc_delivery_code p)" "pc_state p' = to"
    using T qt q assms(3) by auto
qed

lemma PickUp_of_row:
  assumes "pm.inv (ptab s)" "p \<in> set (parcels s)" "p' \<in> set (parcels (snd (PickUp dnow user i code s)))" "pc_id p' = pc_id p"
    "pc_state p' \<noteq> pc_state p"
  shows "i = pc_id p \<and> pc_courier p = Some user \<and> code = pc_pickup_code p \<and> pc_state p = PAssigned \<and> pc_state p' = PPickedUp"
proof (cases "transition_tx dnow user i PPickedUp code []" s rule: begin_func_cases)
  case (rollback e)
  then have "p' \<in> set (parcels s)" using assms(3) by (simp add: PickUp_def)
  then show ?thesis using pm.same_row[OF assms(1) _ assms(2)] assms(4,5) by blast
next
  case (commit t s1)
  have "p' \<in> set (parcels s1)" using assms(3) commit by (simp add: PickUp_def)
  note T = transition_of_row[OF assms(1) commit(1) _ brings_into_refl[OF refl] assms(2) this assms(4,5)]
  from T(3) have "pc_state p = PAssigned" by (cases "pc_state p") (auto simp: CanTransition_def can_transition_def)
  then show ?thesis using T by simp
qed

lemma Deliver_of_row:
  assumes "pm.inv (ptab s)" "p \<in> set (parcels s)" "p' \<in> set (parcels (snd (Deliver cfg gnow dnow txi user i code s)))"
    "pc_id p' = pc_id p" "pc_state p' \<noteq> pc_state p"
  shows "i = pc_id p \<and> pc_courier p = Some user \<and> code = pc_delivery_code p \<and> pc_state p = PPickedUp \<and> pc_state p' = PDelivered"
proof (cases "transition_tx dnow user i PDelivered code []" s rule: begin_func_cases)
  case (rollback e)
  then have "p' \<in> set (parcels s)" using assms(3) by (simp add: Deliver_def)
  then show ?thesis using pm.same_row[OF assms(1) _ assms(2)] assms(4,5) by blast
next
  case (commit t s1)
  let ?s2 = "Parcels.mark_loc cfg (SetAvailable gnow user) s1"
  let ?s3 = "snd (settle dnow txi (pv_parcel (forCourier t)) ?s2)"
  have "snd (Deliver cfg gnow dnow txi user i code s) = ?s3" using commit by (simp add: Deliver_def Let_def split: option.split)
  then have p': "p' \<in> set (parcels ?s3)" using assms(3) by simp
  have b: "brings_into {} s1 ?s3"
    using Deliver_steps(1)[OF assms(1) commit(1), of cfg gnow txi] by (simp add: acts_def brings_into_def)
  note T = transition_of_row[OF assms(1) commit(1) _ b assms(2) p' assms(4,5)]
  from T(3) have "pc_state p = PPickedUp" by (cases "pc_state p") (auto simp: CanTransition_def can_transition_def)
  then show ?thesis using T by simp
qed

text \<open>
  Everything the endpoints answer to a user that has a parcel in it: the parcel that was created, looked up,
  in the list, cancelled, accepted, picked up, delivered or given back. (\<open>Quote\<close> and \<open>DeclineOffer\<close> answer no parcel; the offers
  are rows of their own.)
\<close>

inductive answered :: "parcels_db \<Rightarrow> uuid \<Rightarrow> parcel_view \<Rightarrow> bool" for s user where
  created: "fst (Create cfg gnow dnow i b1 b2 b3 user key inp s) = Inr v \<Longrightarrow> answered s user v"
| got: "Get user i s = Inr v \<Longrightarrow> answered s user v"
| active: "Active user s = Some v \<Longrightarrow> answered s user v"
| listed: "v \<in> set (History gnow user before limit s) \<Longrightarrow> answered s user v"
| cancelled: "fst (Cancel cfg gnow dnow user i reason s) = Inr v \<Longrightarrow> answered s user v"
| accepted: "fst (AcceptOffer cfg gnow dnow user i s) = Inr v \<Longrightarrow> answered s user v"
| carried: "ActiveForCourier user s = Some v \<Longrightarrow> answered s user v"
| picked_up: "fst (PickUp dnow user i code s) = Inr v \<Longrightarrow> answered s user v"
| delivered: "fst (Deliver cfg gnow dnow txi user i code s) = Inr v \<Longrightarrow> answered s user v"
| released: "fst (Release cfg gnow dnow user i reason s) = Inr v \<Longrightarrow> answered s user v"

lemma withCourier_parcel [simp]: "pv_parcel (withCourier s p) = p"
  by (simp add: withCourier_def)

lemma Create_answer:
  assumes "fst (Create cfg gnow dnow i b1 b2 b3 user key inp s) = Inr v"
  shows "pc_customer (pv_parcel v) = user"
proof -
  have t: "pc_customer p' = pc_customer p" if "begin_func (create_tx gnow dnow coupon p) s = (Inr p', s')" for coupon p p' s'
    using that by (auto simp: begin_func_commit create_tx_def insert_parcel_def split: prod.splits sum.splits if_splits)
  show ?thesis
    using assms by (auto simp: Create_def new_parcel_def split: prod.splits sum.splits option.splits if_splits dest!: t find_SomeD)
qed

lemma Cancel_answer:
  assumes "fst (Cancel cfg gnow dnow user i reason s) = Inr v"
  shows "pc_customer (pv_parcel v) = user"
proof -
  have t: "pc_customer p' = user" if "begin_func (cancel_tx dnow user i reason) s = (Inr p', s')" for p' s'
    using that by (auto simp: begin_func_commit cancel_tx_def Let_def dest!: find_SomeD split: option.splits if_splits)
  show ?thesis using assms by (auto simp: Cancel_def Let_def split: prod.splits sum.splits dest!: t)
qed

lemma lists_own: "v \<in> set (History gnow user before limit s) \<Longrightarrow> pc_customer (pv_parcel v) = user"
  by (auto simp: History_def Let_def dest!: in_set_takeD)

lemma answered_codes:
  assumes "answered s user v"
  shows "pc_customer (pv_parcel v) = user \<or> hides_codes v"
  using assms
proof (cases rule: answered.cases)
  case (got i)
  then show ?thesis by (auto simp: Get_def split: option.splits if_splits)
next
  case active
  then show ?thesis
  proof -
    obtain p ps where p: "sort_key (\<lambda>p. - pc_created p) (filter (\<lambda>p. pc_customer p = user \<and> IsActive (pc_state p)) (parcels s)) = p # ps"
      "v = withCourier s p" using active by (auto simp: Active_def split: list.splits)
    then have "p \<in> set (filter (\<lambda>p. pc_customer p = user \<and> IsActive (pc_state p)) (parcels s))" by (metis list.set_intros(1) set_sort)
    then show ?thesis using p(2) by simp
  qed
qed (auto simp: AcceptOffer_def PickUp_def Deliver_def Release_def ActiveForCourier_def Let_def Create_answer Cancel_answer lists_own
      split: prod.splits sum.splits option.splits)

text \<open>The offers a courier sees are the same whatever the codes are.\<close>

definition recode :: "string \<Rightarrow> string \<Rightarrow> parcels_db \<Rightarrow> parcels_db" where
  "recode a b s = s\<lparr>parcels := map (\<lambda>p. p\<lparr>pc_pickup_code := a, pc_delivery_code := b\<rparr>) (parcels s)\<rparr>"

lemma Offers_blind: "Offers dnow user (recode a b s) = Offers dnow user s"
proof -
  have f: "find (\<lambda>p. pc_id p = j \<and> pc_state p = PRequested) (parcels (recode a b s)) =
      map_option (\<lambda>p. p\<lparr>pc_pickup_code := a, pc_delivery_code := b\<rparr>) (find (\<lambda>p. pc_id p = j \<and> pc_state p = PRequested) (parcels s))" for j
  proof -
    have "find (\<lambda>p. pc_id p = j \<and> pc_state p = PRequested) (map (\<lambda>p. p\<lparr>pc_pickup_code := a, pc_delivery_code := b\<rparr>) ps) =
        map_option (\<lambda>p. p\<lparr>pc_pickup_code := a, pc_delivery_code := b\<rparr>) (find (\<lambda>p. pc_id p = j \<and> pc_state p = PRequested) ps)" for ps
      by (induction ps) auto
    then show ?thesis by (simp add: recode_def)
  qed
  have "parcel_offers (recode a b s) = parcel_offers s" by (simp add: recode_def)
  then show ?thesis unfolding Offers_def f option.map_comp comp_def by (simp cong: if_cong)
qed

text \<open>
  C21. A parcel changes hands only against its codes. At any moment of any run, a parcel is picked up only
  by the call \<open>PickUp\<close> of the courier assigned to it with the sender's code, and delivered only by the
  call \<open>Deliver\<close> of the courier who picked it up with the recipient's code; the codes never change. No
  endpoint tells them to anybody but the customer: every parcel in an answer to a user, in lists as well
  as single, is one of the user's own or has both codes blank, and the offers a courier sees do not depend on the codes.
\<close>
theorem parcel_handover:
  assumes "fresh_parcels s0" "parcels_step\<^sup>*\<^sup>* s0 s" "parcels_step s s'" "p \<in> set (parcels s)" "p' \<in> set (parcels s')"
    "pc_id p' = pc_id p"
  shows "(pc_state p' = PPickedUp \<and> pc_state p \<noteq> PPickedUp \<longrightarrow> pc_state p = PAssigned \<and>
       (\<exists>dnow courier. pc_courier p = Some courier \<and> s' = snd (PickUp dnow courier (pc_id p) (pc_pickup_code p) s))) \<and>
    (pc_state p' = PDelivered \<and> pc_state p \<noteq> PDelivered \<longrightarrow> pc_state p = PPickedUp \<and>
       (\<exists>cfg gnow dnow txi courier. pc_courier p = Some courier \<and>
          s' = snd (Deliver cfg gnow dnow txi courier (pc_id p) (pc_delivery_code p) s))) \<and>
    pc_pickup_code p' = pc_pickup_code p \<and> pc_delivery_code p' = pc_delivery_code p \<and>
    (\<forall>user v. answered s user v \<longrightarrow> pc_customer (pv_parcel v) = user \<or> hides_codes v) \<and>
    (\<forall>dnow user a b. Offers dnow user (recode a b s) = Offers dnow user s)"
proof -
  have inv: "pm.inv (ptab s)" using parcels_reachable[OF assms(1,2)] .
  have S: "(pc_state p' = PPickedUp \<and> pc_state p \<noteq> PPickedUp \<longrightarrow> pc_state p = PAssigned \<and>
       (\<exists>dnow courier. pc_courier p = Some courier \<and> s' = snd (PickUp dnow courier (pc_id p) (pc_pickup_code p) s))) \<and>
    (pc_state p' = PDelivered \<and> pc_state p \<noteq> PDelivered \<longrightarrow> pc_state p = PPickedUp \<and>
       (\<exists>cfg gnow dnow txi courier. pc_courier p = Some courier \<and>
          s' = snd (Deliver cfg gnow dnow txi courier (pc_id p) (pc_delivery_code p) s)))" (is "?A \<and> ?B")
  proof (cases "pc_state p' = pc_state p")
    case ne: False
    from parcels_step_acts[OF assms(3) inv] consider
      (pick) dnow user i code where "s' = snd (PickUp dnow user i code s)"
      | (deliver) cfg gnow dnow txi user i code where "s' = snd (Deliver cfg gnow dnow txi user i code s)"
      | (other) "acts {PRequested, PAssigned, PCancelled, PNoCourier} s s'" by blast
    then show ?thesis
    proof cases
      case pick
      then show ?thesis using PickUp_of_row[OF inv assms(4) _ assms(6) ne, of dnow user i code] assms(5) by auto
    next
      case deliver
      then show ?thesis using Deliver_of_row[OF inv assms(4) _ assms(6) ne, of cfg gnow dnow txi user i code] assms(5) by auto
    next
      case other
      then have "pc_state p' \<in> {PRequested, PAssigned, PCancelled, PNoCourier}"
        using changed_row[OF inv _ assms(4-6) ne] by (auto simp: acts_def)
      then show ?thesis by auto
    qed
  qed simp
  have m: "pm.move\<^sup>*\<^sup>* (ptab s) (ptab s')" by (rule parcels_step_moves[OF assms(3) inv])
  have c: "pc_pickup_code p' = pc_pickup_code p \<and> pc_delivery_code p' = pc_delivery_code p"
    using pm.fixed_moves[OF m inv assms(4,5,6)] by (simp add: parcel_fixed_def)
  show ?thesis using S c answered_codes Offers_blind by blast
qed

lemma finished_parcel_final:
  assumes "fresh_parcels s0" "parcels_step\<^sup>*\<^sup>* s0 s" "p \<in> set (parcels s)" "IsTerminal (pc_state p)" "parcels_step\<^sup>*\<^sup>* s s'"
  shows "\<exists>p' \<in> set (parcels s'). parcel_fixed p' = parcel_fixed p \<and> parcel_final p' = parcel_final p \<and> pc_state p' = pc_state p \<and>
     pc_courier p' = pc_courier p \<and> history (pc_id p') (parcel_journal s') = history (pc_id p) (parcel_journal s)"
proof -
  have inv: "pm.inv (ptab s)" using parcels_reachable[OF assms(1,2)] .
  show ?thesis using pm.final_row[OF parcels_run(1)[OF assms(5) inv] inv assms(3,4)] .
qed

section \<open>A concrete run\<close>

definition demo_pquote :: parcel_quote where
  "demo_pquote = \<lparr>pq_id = ''q1'', pq_customer = ''u1'', pq_size = ''s'', pq_pickup = mk_point 42 21, pq_pickup_addr = None,
     pq_dropoff = mk_point 42.1 21, pq_dropoff_addr = None, pq_distance = 3333, pq_duration = 600, pq_price = 280,
     pq_commission_bp = 2000, pq_currency = ''EUR'', pq_expires = 1000\<rparr>"

definition demo_pgcfg :: parcels_cfg where "demo_pgcfg = \<lparr>pg_promos = True, pg_loc = False\<rparr>"

definition demo_parcels :: parcels_db where
  "demo_parcels = \<lparr>p_core = empty_core, p_loc = demo_loc, p_drivers = demo_drivers, p_rides = [],
     p_promos = \<lparr>coupons = [], redemptions = []\<rparr>, p_orders = [], p_order_offers = [],
     parcel_pricing = [], parcel_quotes = [demo_pquote], parcels = [],
     parcel_offers = [\<lparr>of_id = ''o1'', of_subject = ''par1'', of_driver = ''d1'', of_round = 1, of_state = Offered, of_distance = 100,
        of_eta = 60, of_expires = 1000, of_responded = None, of_created = 100\<rparr>],
     parcel_journal = []\<rparr>"

definition demo_create :: create_input where
  "demo_create = \<lparr>crQuote = ''q1'', crMethod = ''cash'', crContactName = [], crContactPhone = [], crRecipientName = ''Ana'',
     crRecipientPhone = ''+38344111222'', crNote = [], crCoupon = []\<rparr>"

definition demo_parcel :: parcel where
  "demo_parcel = new_parcel 100 ''par1'' (\<lambda>_. 0) (\<lambda>k. k) Suc ''u1'' ''k1'' Cash demo_create demo_pquote 0 []"

definition demo_sent :: parcels_db where
  "demo_sent = snd (Create demo_pgcfg 100 100 ''par1'' (\<lambda>_. 0) (\<lambda>k. k) Suc ''u1'' ''k1'' demo_create demo_parcels)"

definition demo_assigned :: parcels_db where
  "demo_assigned = snd (AcceptOffer demo_pgcfg 200 200 ''d1'' ''o1'' demo_sent)"

lemma demo_sent_rows: "parcels demo_sent = [demo_parcel]" "parcel_offers demo_sent = parcel_offers demo_parcels"
proof -
  have v: "validate_create ''k1'' demo_create = Inr (''k1'', Cash, demo_create)" by code_simp
  have n: "Normalize [] = []" by code_simp
  have ck: "parcel_checks demo_parcel" by (simp add: parcel_checks_def demo_parcel_def new_parcel_def demo_pquote_def)
  have f: "crQuote demo_create = ''q1''" "crCoupon demo_create = []" by (simp_all add: demo_create_def)
  have q: "pq_id demo_pquote = ''q1''" "pq_customer demo_pquote = ''u1''" "pq_expires demo_pquote = 1000" by (simp_all add: demo_pquote_def)
  have t: "parcels demo_parcels = []" "parcel_quotes demo_parcels = [demo_pquote]" by (simp_all add: demo_parcels_def)
  show "parcels demo_sent = [demo_parcel]" "parcel_offers demo_sent = parcel_offers demo_parcels"
    by (simp_all add: demo_sent_def Create_def v t f q n price_coupon_def wallet_covers_def demo_parcel_def[symmetric] begin_func_def
        create_tx_def insert_parcel_def ck exists_where_def p_emit_def parcelEvent_def)
qed

lemma demo_assigned_rows:
  "parcels demo_assigned = [demo_parcel\<lparr>pc_state := PAssigned, pc_courier := Some ''d1'', pc_assigned_at := Some 200, pc_updated := 200\<rparr>]"
proof -
  have d: "pc_id demo_parcel = ''par1''" "pc_state demo_parcel = PRequested" by (simp_all add: demo_parcel_def new_parcel_def)
  show ?thesis
    by (simp add: demo_assigned_def AcceptOffer_def begin_func_def accept_tx_def demo_sent_rows find_parcel_def d exists_where_def
        demo_parcels_def table_simps demo_pgcfg_def Let_def)
qed

lemma demo_parcels_reach: "fresh_parcels demo_parcels" "parcels_step\<^sup>*\<^sup>* demo_parcels demo_sent" "parcels_step\<^sup>*\<^sup>* demo_parcels demo_assigned"
proof -
  show "fresh_parcels demo_parcels" by (simp add: fresh_parcels_def demo_parcels_def)
  show s: "parcels_step\<^sup>*\<^sup>* demo_parcels demo_sent"
    unfolding demo_sent_def by (rule r_into_rtranclp) (rule parcels_step.create)
  show "parcels_step\<^sup>*\<^sup>* demo_parcels demo_assigned"
    unfolding demo_assigned_def by (rule rtranclp.rtrancl_into_rtrancl[OF s]) (rule parcels_step.accept)
qed

theorem parcels_protocol_witness:
  "map pc_state (parcels demo_assigned) = [PAssigned] \<and>
   lawful transitions PRequested (history ''par1'' (parcel_journal demo_assigned)) PAssigned"
proof -
  have "pc_id demo_parcel = ''par1''" by (simp add: demo_parcel_def new_parcel_def)
  then show ?thesis using parcels_protocol[OF demo_parcels_reach(1,3)] demo_assigned_rows by simp
qed

theorem parcel_handover_witness:
  "map (\<lambda>p. (pc_state p, pc_pickup_code p)) (parcels (snd (PickUp 300 ''d1'' ''par1'' ''0123'' demo_assigned))) = [(PPickedUp, ''0123'')] \<and>
   parcels (snd (PickUp 300 ''d1'' ''par1'' ''9999'' demo_assigned)) = parcels demo_assigned"
proof -
  let ?a = "demo_parcel\<lparr>pc_state := PAssigned, pc_courier := Some ''d1'', pc_assigned_at := Some 200, pc_updated := 200\<rparr>"
  let ?s = "snd (PickUp 300 ''d1'' ''par1'' ''0123'' demo_assigned)"
  have c: "newDigits (\<lambda>k. k) = ''0123''" by code_simp
  have d: "pc_id demo_parcel = ''par1''" "pc_pickup_code demo_parcel = ''0123''" by (simp_all add: demo_parcel_def new_parcel_def c)
  have P: "map (\<lambda>p. (pc_id p, pc_state p)) (parcels ?s) = [(''par1'', PPickedUp)]"
    by (simp add: PickUp_def begin_func_def transition_tx_def demo_assigned_rows d CanTransition_def can_transition_def courier_update_def Let_def table_simps)
  then obtain p' where p': "parcels ?s = [p']" "pc_id p' = ''par1''" "pc_state p' = PPickedUp" by (auto simp: map_eq_Cons_conv)
  have "?a \<in> set (parcels demo_assigned)" "p' \<in> set (parcels ?s)" "pc_id p' = pc_id ?a" using demo_assigned_rows p' d by simp_all
  from parcel_handover[OF demo_parcels_reach(1,3) parcels_step.pickup this]
  have "pc_pickup_code p' = pc_pickup_code ?a" by blast
  moreover have "parcels (snd (PickUp 300 ''d1'' ''par1'' ''9999'' demo_assigned)) = parcels demo_assigned"
    by (simp add: PickUp_def begin_func_def transition_tx_def demo_assigned_rows d CanTransition_def can_transition_def)
  ultimately show ?thesis using p' d by simp
qed

end
