(* ===== verification/ParcelMoney.thy ===== *)
theory ParcelMoney
  imports ParcelProtocol Settlements
begin

text \<open>
  What a parcel costs and who gets the money: the price of a quote, what the request records, and what
  the settlement of a delivered parcel does to the ledger.
\<close>

section \<open>Prices\<close>

text \<open>Rounding to ten cents moves the exact price by at most five cents.\<close>

lemma go_round_nonneg: "0 \<le> x \<Longrightarrow> go_round x = \<lfloor>x + 1 / 2\<rfloor>"
  by (simp add: go_round_def)

lemma go_round_near: "\<bar>of_int (go_round x) - x\<bar> \<le> 1 / 2"
proof (cases "0 \<le> x")
  case True
  then show ?thesis unfolding go_round_def by (simp only: if_True abs_le_iff) linarith
next
  case False
  then show ?thesis unfolding go_round_def by (simp only: if_False abs_le_iff) linarith
qed

definition exact_price :: "pricing_row \<Rightarrow> int \<Rightarrow> real" where
  "exact_price p d = of_int (pr_base p) + of_int (pr_per_km p) * (of_int d / 1000)"

text \<open>The checks of the table \<open>parcel_pricing\<close>, with generous upper bounds.\<close>

definition pricing_ok :: "pricing_row \<Rightarrow> bool" where
  "pricing_ok p \<longleftrightarrow> 0 \<le> pr_base p \<and> pr_base p \<le> 1000000000000 \<and> 0 \<le> pr_per_km p \<and> pr_per_km p \<le> 1000000 \<and>
     0 \<le> pr_commission p \<and> pr_commission p \<le> 10000"

lemma exact_price_bounds:
  assumes "pricing_ok p" "0 \<le> d" "d \<le> 100000000"
  shows "of_int (pr_base p) \<le> exact_price p d" "exact_price p d \<le> 1100000000000"
proof -
  have "0 \<le> of_int (pr_per_km p) * (of_int d / 1000 :: real)" using assms by (simp add: pricing_ok_def)
  then show "of_int (pr_base p) \<le> exact_price p d" by (simp add: exact_price_def)
  have "of_int (pr_per_km p) * (of_int d / 1000 :: real) \<le> 1000000 * 100000"
    using assms by (intro mult_mono) (simp_all add: pricing_ok_def)
  moreover have "of_int (pr_base p) \<le> (1000000000000 :: real)" using assms(1) by (simp add: pricing_ok_def)
  ultimately show "exact_price p d \<le> 1100000000000" by (simp add: exact_price_def)
qed

lemma Price_rounded:
  assumes "pricing_ok p" "0 \<le> d" "d \<le> 100000000"
  shows "Price p d = max (pr_base p) (go_round (exact_price p d / 10) * 10)"
proof -
  note B = exact_price_bounds[OF assms]
  have b: "0 \<le> pr_base p" using assms(1) by (simp add: pricing_ok_def)
  then have "0 \<le> (of_int (pr_base p) :: real)" by simp
  then have e: "0 \<le> exact_price p d" using B(1) by linarith
  have "\<bar>of_int (go_round (exact_price p d / 10)) - exact_price p d / 10\<bar> \<le> 1 / 2" by (rule go_round_near)
  then have "of_int (go_round (exact_price p d / 10)) \<le> (200000000000 :: real)" "- 1 \<le> (of_int (go_round (exact_price p d / 10)) :: real)"
    using B(2) e unfolding abs_le_iff by linarith+
  then have "go_round (exact_price p d / 10) \<le> 200000000000" "- 1 \<le> go_round (exact_price p d / 10)" by linarith+
  then have "mul64 (go_round (exact_price p d / 10)) 10 = go_round (exact_price p d / 10) * 10"
    by (intro mul64_id) (simp add: in64_def)
  then show ?thesis unfolding Price_def Let_def exact_price_def[symmetric] by (simp add: max_def)
qed

text \<open>
  The price of a parcel: never below the base of its size, within five cents of base plus rate times
  distance, a multiple of ten cents unless it is the base, never lower for a longer way; the platform's
  commission on it is the rate in force, rounded half up, and between nothing and the price.
\<close>
theorem Price_bounds:
  assumes "pricing_ok p" "0 \<le> d" "d \<le> 100000000"
  shows "pr_base p \<le> Price p d \<and> \<bar>of_int (Price p d) - exact_price p d\<bar> \<le> 5 \<and>
    (Price p d = pr_base p \<or> 10 dvd Price p d) \<and>
    (\<forall>d'. d \<le> d' \<and> d' \<le> 100000000 \<longrightarrow> Price p d \<le> Price p d') \<and>
    Commission (Price p d) (pr_commission p) = (Price p d * pr_commission p + 5000) div 10000 \<and>
    0 \<le> Commission (Price p d) (pr_commission p) \<and> Commission (Price p d) (pr_commission p) \<le> Price p d"
proof -
  let ?r = "go_round (exact_price p d / 10)"
  note B = exact_price_bounds[OF assms] and P = Price_rounded[OF assms]
  have b: "0 \<le> pr_base p" "pr_base p \<le> 1000000000000" using assms(1) by (simp_all add: pricing_ok_def)
  have "\<bar>of_int ?r - exact_price p d / 10\<bar> \<le> 1 / 2" by (rule go_round_near)
  then have near: "\<bar>of_int (?r * 10) - exact_price p d\<bar> \<le> 5" unfolding abs_le_iff of_int_mult by simp
  then have five: "\<bar>of_int (Price p d) - exact_price p d\<bar> \<le> 5" unfolding P using B(1) by (auto simp: max_def abs_le_iff)
  have mono: "Price p d \<le> Price p d'" if "d \<le> d'" "d' \<le> 100000000" for d'
  proof -
    have "of_int (pr_per_km p) * (of_int d / 1000) \<le> of_int (pr_per_km p) * (of_int d' / 1000 :: real)"
      using that assms(1) by (intro mult_left_mono) (simp_all add: pricing_ok_def)
    then have "exact_price p d / 10 \<le> exact_price p d' / 10" unfolding exact_price_def by (intro divide_right_mono add_left_mono) simp_all
    moreover have "0 \<le> exact_price p d" using B(1) b(1) by linarith
    ultimately have "go_round (exact_price p d / 10) \<le> go_round (exact_price p d' / 10)"
      by (simp add: go_round_nonneg floor_mono)
    then show ?thesis using P Price_rounded[OF assms(1) _ that(2)] that(1) assms(2) by (simp add: max_def)
  qed
  have up: "Price p d \<le> 1200000000000" using five B(2) unfolding abs_le_iff by linarith
  have lo: "0 \<le> Price p d" unfolding P using b(1) by simp
  let ?c = "Price p d * pr_commission p"
  have c: "0 \<le> ?c" "?c \<le> 1200000000000 * 10000" using lo up assms(1) by (simp add: pricing_ok_def, intro mult_mono) (auto simp: pricing_ok_def)
  then have e: "Commission (Price p d) (pr_commission p) = (?c + 5000) div 10000"
    by (simp add: Commission_def mul64_id add64_id quot_nonneg in64_def)
  have "?c \<le> Price p d * 10000" using lo assms(1) by (intro mult_left_mono) (simp_all add: pricing_ok_def)
  then have "(?c + 5000) div 10000 \<le> Price p d" "0 \<le> (?c + 5000) div 10000" using c(1) by linarith+
  moreover have "pr_base p \<le> Price p d" "Price p d = pr_base p \<or> 10 dvd Price p d" unfolding P by (auto simp: max_def)
  ultimately show ?thesis using five mono e by simp
qed

theorem Price_bounds_witness:
  "Price \<lparr>pr_size = ''s'', pr_base = 150, pr_per_km = 40, pr_commission = 2000, pr_currency = ''EUR''\<rparr> 3333 = 280 \<and>
   Commission 280 2000 = 56 \<and>
   150 \<le> Price \<lparr>pr_size = ''s'', pr_base = 150, pr_per_km = 40, pr_commission = 2000, pr_currency = ''EUR''\<rparr> 100"
proof -
  let ?p = "\<lparr>pr_size = ''s'', pr_base = 150, pr_per_km = 40, pr_commission = 2000, pr_currency = ''EUR''\<rparr>"
  have ok: "pricing_ok ?p" by (simp add: pricing_ok_def)
  have "\<lfloor>28332 / 1000 + 1 / 2 :: real\<rfloor> = 28" by (simp add: floor_eq_iff)
  then have v: "Price ?p 3333 = 280"
    using Price_rounded[OF ok, of 3333] by (simp add: exact_price_def go_round_nonneg)
  show ?thesis using v Price_bounds[OF ok, of 3333] Price_bounds[OF ok, of 100] by simp
qed

section \<open>The settlement\<close>

definition parcel_key :: "parcel \<Rightarrow> string" where "parcel_key p = ''parcel:'' @ pc_id p @ '':fare''"

definition settle_account :: "parcel \<Rightarrow> uuid \<Rightarrow> core \<Rightarrow> core" where
  "settle_account p d c = EnsureAccount (courierWallet d) ''driver'' (Some d) ''liability'' (pc_currency p) c"

lemma parcel_plan_key: "settle_plan p d c = Pay st (Some tx) \<Longrightarrow> IdempotencyKey tx = parcel_key p"
  by (auto simp: settle_plan_def parcel_tx_def parcel_key_def split: sum.splits if_splits)

lemma parcel_account_simps [simp]:
  "bal c (settle_account p d s) = bal c s" "posted k (settle_account p d s) = posted k s"
  by (simp_all add: settle_account_def)

text \<open>The interface of settlements for a parcel with its courier.\<close>

interpretation ps: settlement "\<lambda>x. settle_account (fst x) (snd x)" "\<lambda>x. settle_plan (fst x) (snd x)" "\<lambda>x. parcel_key (fst x)"
  by unfold_locales (simp_all add: settle_account_def EnsureAccount_inv parcel_plan_key)

abbreviation settle_core :: "time \<Rightarrow> uuid \<Rightarrow> parcel \<Rightarrow> uuid \<Rightarrow> core \<Rightarrow> core" where
  "settle_core dnow txi p d \<equiv> ps.settle_core dnow txi (p, d)"

lemma set_status_core: "\<exists>ob. p_core (snd (setPaymentStatus dnow p st s)) = (p_core s)\<lparr>outbox := ob\<rparr>"
  by (auto simp: setPaymentStatus_def begin_func_def p_emit_def)

lemma parcel_settle_core:
  assumes "pc_state p = PDelivered" "pc_pay p = PayPending" "pc_courier p = Some d"
  shows "\<exists>ob. p_core (snd (settle dnow txi p s)) = (settle_core dnow txi p d (p_core s))\<lparr>outbox := ob\<rparr>"
proof -
  define s1 where "s1 = s\<lparr>p_core := settle_account p d (p_core s)\<rparr>"
  have c1: "p_core s1 = settle_account p d (p_core s)" by (simp add: s1_def)
  have same: "\<exists>ob. c = c\<lparr>outbox := ob\<rparr>" for c :: core by (rule exI[of _ "outbox c"]) simp
  have e: "settle dnow txi p s = (case settle_plan p d (p_core s1) of
                  Reject e \<Rightarrow> (Inl e, s1)
                | Fail_payment \<Rightarrow> setPaymentStatus dnow p PayFailed s1
                | Pay st None \<Rightarrow> setPaymentStatus dnow p st s1
                | Pay st (Some tx) \<Rightarrow>
                    (case Post dnow txi tx (p_core s1) of
                       (Inl e, c) \<Rightarrow> (Inl e, s1\<lparr>p_core := c\<rparr>)
                     | (Inr _, c) \<Rightarrow> setPaymentStatus dnow p st (s1\<lparr>p_core := c\<rparr>)))"
    unfolding s1_def settle_account_def using assms by (simp add: settle_def Let_def)
  show ?thesis
  proof (cases "settle_plan p d (p_core s1)")
    case (Reject e')
    then show ?thesis using e c1 same by (simp add: ps.settle_core_def)
  next
    case Fail_payment
    then show ?thesis using e c1 set_status_core[of dnow p PayFailed s1] by (simp add: ps.settle_core_def)
  next
    case (Pay st txo)
    show ?thesis
    proof (cases txo)
      case None
      then show ?thesis using e c1 Pay set_status_core[of dnow p st s1] by (simp add: ps.settle_core_def)
    next
      case (Some tx)
      obtain res c where pc: "Post dnow txi tx (p_core s1) = (res, c)" by (cases "Post dnow txi tx (p_core s1)")
      show ?thesis
        using e c1 Pay Some pc same set_status_core[of dnow p st "s1\<lparr>p_core := c\<rparr>"] by (cases res) (simp_all add: ps.settle_core_def)
    qed
  qed
qed

lemma parcel_settle_eqs:
  assumes "pc_state p = PDelivered" "pc_pay p = PayPending" "pc_courier p = Some d"
  shows "bal c (p_core (snd (settle dnow txi p s))) = bal c (settle_core dnow txi p d (p_core s))"
    "posted k (p_core (snd (settle dnow txi p s))) = posted k (settle_core dnow txi p d (p_core s))"
    "ledger_inv (p_core (snd (settle dnow txi p s))) = ledger_inv (settle_core dnow txi p d (p_core s))"
  using parcel_settle_core[OF assms, of dnow txi s] by auto

lemma parcel_settle_again: "posted (parcel_key p) (p_core s) \<Longrightarrow> bal c (p_core (snd (settle dnow txi p s))) = bal c (p_core s)"
proof (cases "pc_courier p = None \<or> pc_state p \<noteq> PDelivered \<or> pc_pay p \<noteq> PayPending")
  case True
  then show ?thesis by (auto simp: settle_def split: option.split)
next
  case False
  then obtain d where d: "pc_state p = PDelivered" "pc_pay p = PayPending" "pc_courier p = Some d" by auto
  assume "posted (parcel_key p) (p_core s)"
  then show ?thesis unfolding parcel_settle_eqs(1)[OF d] by (intro ps.settlement_replay) simp
qed

lemma parcel_settle_moves_money:
  assumes "pc_state p = PDelivered" "pc_pay p = PayPending" "pc_courier p = Some d"
    "\<not> posted (parcel_key p) (p_core s)" "fst (settle dnow txi p s) = Inr ()"
    "settle_plan p d (settle_account p d (p_core s)) = Pay st (Some tx)"
  shows "bal c (p_core (snd (settle dnow txi p s))) = bal c (p_core s) + net c (Postings tx)"
    "posted (parcel_key p) (p_core (snd (settle dnow txi p s)))"
proof -
  let ?c = "settle_account p d (p_core s)"
  obtain i where i: "fst (Post dnow txi tx ?c) = Inr i"
    using assms by (cases "Post dnow txi tx ?c"; cases "fst (Post dnow txi tx ?c)")
      (simp_all add: settle_def Let_def settle_account_def[symmetric])
  note P = ps.settlement_pays[of "(p, d)" "p_core s" st tx dnow txi i, unfolded fst_conv snd_conv, OF assms(6,4) i]
  show "bal c (p_core (snd (settle dnow txi p s))) = bal c (p_core s) + net c (Postings tx)"
    unfolding parcel_settle_eqs(1)[OF assms(1-3)] by (rule P(1))
  show "posted (parcel_key p) (p_core (snd (settle dnow txi p s)))"
    unfolding parcel_settle_eqs(2)[OF assms(1-3)] by (rule P(2))
qed

text \<open>Who gains what: the effect of a settlement on the balance of an account.\<close>

definition parcel_effect :: "parcel \<Rightarrow> uuid \<Rightarrow> string \<Rightarrow> int" where
  "parcel_effect p d c =
     (if pc_method p = Wallet \<and> c = UserWalletCode (pc_customer p) then - (pc_price p - pc_discount p) else 0) +
     (if c = courierWallet d
      then (if pc_method p = Wallet then pc_price p - pc_commission p else pc_discount p - pc_commission p) else 0) +
     (if c = ''krejt:commission'' then pc_commission p else 0) - (if c = MarketingAccount then pc_discount p else 0)"

lemma parcel_postings_net:
  assumes "0 \<le> pc_commission p" "pc_commission p \<le> pc_price p" "pc_price p \<le> 1200000000000" "0 \<le> pc_discount p" "pc_discount p \<le> pc_price p"
  shows "pc_method p = Wallet \<Longrightarrow> net c (wallet_postings p d) = parcel_effect p d c"
    "pc_method p \<noteq> Wallet \<Longrightarrow> net c (cash_postings p d) = parcel_effect p d c"
proof -
  have w: "sub64 (pc_price p) (pc_discount p) = pc_price p - pc_discount p" "sub64 (pc_price p) (pc_commission p) = pc_price p - pc_commission p"
    using assms by (auto intro!: sub64_id simp: in64_def)
  have two: "net c (if n > 0 then [debit a n, credit b n] else []) = (if c = a then - n else 0) + (if c = b then n else 0)"
    "net c (if n > 0 then [credit a n, debit b n] else []) = (if c = a then n else 0) + (if c = b then - n else 0)" if "0 \<le> n" for a b n
    using that by (auto simp: net_parts net_Nil)
  show "pc_method p = Wallet \<Longrightarrow> net c (wallet_postings p d) = parcel_effect p d c"
    using assms by (simp add: wallet_postings_def parcel_effect_def w net_append net_parts net_Nil)
  show "pc_method p \<noteq> Wallet \<Longrightarrow> net c (cash_postings p d) = parcel_effect p d c"
    using assms by (simp add: cash_postings_def parcel_effect_def net_append two)
qed

text \<open>
  C22. A delivered parcel is settled exactly once and divided exactly. When its settlement goes through:
  with the wallet the customer pays the price less the discount and the courier receives the price less
  the commission; with cash, which the courier collected, the courier owes the commission and is credited
  the discount; in both cases the commission goes to the platform and the discount is borne by the
  marketing account, no other account changes and the books stay balanced. Any later settlement of the
  same parcel, whatever has happened since, moves nothing.
\<close>
theorem parcel_settled_once:
  assumes "ledger_inv (p_core s)" "pc_state p = PDelivered" "pc_pay p = PayPending" "pc_courier p = Some d"
    "0 \<le> pc_commission p" "pc_commission p \<le> pc_price p" "pc_price p \<le> 1200000000000" "0 \<le> pc_discount p" "pc_discount p \<le> pc_price p"
    "\<not> posted (parcel_key p) (p_core s)" "fst (settle dnow txi p s) = Inr ()"
    "pc_method p = Wallet \<longrightarrow> pc_price p - pc_discount p \<le> bal (UserWalletCode (pc_customer p)) (p_core s)"
  shows "let s' = snd (settle dnow txi p s) in ledger_inv (p_core s') \<and>
    (\<forall>c. bal c (p_core s') = bal c (p_core s) + parcel_effect p d c) \<and>
    (pc_method p = Wallet \<or> pc_commission p > 0 \<or> pc_discount p > 0 \<longrightarrow> posted (parcel_key p) (p_core s')) \<and>
    (\<forall>t p' dnow' txi' c. posted (parcel_key p) (p_core t) \<and> pc_id p' = pc_id p \<longrightarrow>
       bal c (p_core (snd (settle dnow' txi' p' t))) = bal c (p_core t))"
proof -
  let ?c = "settle_account p d (p_core s)"
  note net = parcel_postings_net[OF assms(5-9)]
  have due: "sub64 (pc_price p) (pc_discount p) = pc_price p - pc_discount p" using assms by (intro sub64_id) (simp add: in64_def)
  have money: "(\<forall>c. bal c (p_core (snd (settle dnow txi p s))) = bal c (p_core s) + parcel_effect p d c) \<and>
     (pc_method p = Wallet \<or> pc_commission p > 0 \<or> pc_discount p > 0 \<longrightarrow> posted (parcel_key p) (p_core (snd (settle dnow txi p s))))"
  proof (cases "pc_method p = Wallet")
    case True
    obtain b where b: "Balance (UserWalletCode (pc_customer p)) ?c = Inr b"
      using assms(2-4,11) True by (cases "Balance (UserWalletCode (pc_customer p)) ?c")
        (simp_all add: settle_def Let_def settle_plan_def settle_account_def[symmetric])
    then have "\<not> Minor b < sub64 (pc_price p) (pc_discount p)" using Balance_bal[OF b] assms(12) True due by simp
    then have q: "settle_plan p d ?c = Pay PayPaid (Some (parcel_tx ''parcel_fare'' p (wallet_postings p d)))"
      using True b by (simp add: settle_plan_def)
    show ?thesis using parcel_settle_moves_money[OF assms(2-4,10,11) q] net(1)[OF True] by (simp add: parcel_tx_def)
  next
    case False
    show ?thesis
    proof (cases "pc_commission p > 0 \<or> pc_discount p > 0")
      case True
      then have q: "settle_plan p d ?c = Pay PayCash (Some (parcel_tx ''parcel_cash_commission'' p (cash_postings p d)))"
        using False by (simp add: settle_plan_def)
      show ?thesis using parcel_settle_moves_money[OF assms(2-4,10,11) q] net(2)[OF False] by (simp add: parcel_tx_def)
    next
      case none: False
      then have z: "pc_commission p = 0" "pc_discount p = 0" using assms(5,8) by auto
      then have q: "settle_plan p d ?c = Pay PayCash None" using False by (simp add: settle_plan_def)
      show ?thesis using q z False unfolding parcel_settle_eqs(1)[OF assms(2-4)]
        by (simp add: ps.settlement_nothing parcel_effect_def)
    qed
  qed
  have again: "bal c (p_core (snd (settle dnow' txi' p' t))) = bal c (p_core t)"
    if "posted (parcel_key p) (p_core t)" "pc_id p' = pc_id p" for t p' dnow' txi' c
    using parcel_settle_again[of p' t] that by (simp add: parcel_key_def)
  have "ledger_inv (p_core (snd (settle dnow txi p s)))"
    unfolding parcel_settle_eqs(3)[OF assms(2-4)] by (rule ps.settlement_inv[OF assms(1)])
  then show ?thesis using money again unfolding Let_def by blast
qed

definition demo_delivered :: parcel where
  "demo_delivered = demo_parcel\<lparr>pc_state := PDelivered, pc_courier := Some ''d1'', pc_delivered_at := Some 400, pc_updated := 400\<rparr>"

definition demo_books :: core where
  "demo_books = EnsureAccount ''krejt:commission'' ''platform'' None ''revenue'' ''EUR'' empty_core"

lemma demo_delivered_facts:
  "pc_id demo_delivered = ''par1''" "pc_state demo_delivered = PDelivered" "pc_pay demo_delivered = PayPending"
  "pc_courier demo_delivered = Some ''d1''" "pc_commission demo_delivered = 56" "pc_price demo_delivered = 280"
  "pc_discount demo_delivered = 0" "pc_method demo_delivered = Cash" "pc_currency demo_delivered = ''EUR''"
  by code_simp+

lemma demo_commission_post:
  "fst (Post 500 ''t9'' (parcel_tx ''parcel_cash_commission'' demo_delivered (cash_postings demo_delivered ''d1''))
     (settle_account demo_delivered ''d1'' demo_books)) = Inr ''t9''"
  "\<not> posted (parcel_key demo_delivered) demo_books" "bal (courierWallet ''d1'') demo_books = 0" "bal ''krejt:commission'' demo_books = 0"
  "courierWallet ''d1'' \<noteq> ''krejt:commission''" "courierWallet ''d1'' \<noteq> MarketingAccount" "''krejt:commission'' \<noteq> MarketingAccount"
  by code_simp+

theorem parcel_settled_once_witness:
  "let s' = snd (settle 500 ''t9'' demo_delivered (demo_parcels\<lparr>p_core := demo_books\<rparr>)) in
   bal (courierWallet ''d1'') (p_core s') = - 56 \<and> bal ''krejt:commission'' (p_core s') = 56"
proof -
  let ?s = "demo_parcels\<lparr>p_core := demo_books\<rparr>"
  note d = demo_delivered_facts
  have inv: "ledger_inv (p_core ?s)" by (simp add: demo_books_def EnsureAccount_inv ledger_inv_empty)
  obtain c1 where "Post 500 ''t9'' (parcel_tx ''parcel_cash_commission'' demo_delivered (cash_postings demo_delivered ''d1''))
     (settle_account demo_delivered ''d1'' demo_books) = (Inr ''t9'', c1)" using demo_commission_post(1) by (metis prod.collapse)
  then have ok: "fst (settle 500 ''t9'' demo_delivered ?s) = Inr ()"
    using d by (simp add: settle_def settle_plan_def Let_def settle_account_def setPaymentStatus_parcels(3))
  show ?thesis
    using parcel_settled_once[OF inv d(2-4), of 500 "''t9''"] d ok demo_commission_post by (simp add: parcel_effect_def Let_def)
qed

section \<open>The request\<close>

lemma validate_create_Inr:
  assumes "validate_create idem inp = Inr (k, pm, inp')"
  shows "k = TrimSpace idem" "crQuote inp' = crQuote inp" "crCoupon inp' = crCoupon inp"
    "pm = (if crMethod inp = ''wallet'' then Wallet else Cash)" "crRecipientName inp' \<noteq> []"
  using assms by (auto simp: validate_create_def Let_def split: if_splits option.splits)

lemma price_coupon_range:
  assumes "price_coupon cfg gnow user c n db = Inr (discount, coupon)" "0 \<le> n"
  shows "0 \<le> discount" "discount \<le> n" "Normalize c = [] \<Longrightarrow> discount = 0"
  using assms Discount_range[of _ n] by (auto simp: price_coupon_def Apply_def Let_def split: if_splits sum.splits option.splits)

text \<open>
  C23. A parcel costs what was quoted. A parcel that is created, and was not there before under the same
  key, belongs to a quote that was made for this customer and has not expired; size, way, price and
  currency are those of the quote, the commission is the rate of the quote on its price; the discount is
  between nothing and the price, and nothing without a coupon; with the wallet the balance covers price
  less discount. Sending a request with the same key again, however changed, returns this parcel and
  changes nothing, as long as it passes the validation of its fields.
\<close>
theorem Create_charges_quote:
  assumes "\<forall>q \<in> set (parcel_quotes s). 0 \<le> pq_price q \<and> pq_price q \<le> 1200000000000"
    "find (\<lambda>p. pc_customer p = user \<and> pc_idem p = TrimSpace idem) (parcels s) = None"
    "Create cfg gnow dnow i b1 b2 b3 user idem inp s = (Inr v, s')"
  shows "\<exists>q p. find (\<lambda>q. pq_id q = crQuote inp \<and> pq_customer q = user) (parcel_quotes s) = Some q \<and> gnow \<le> pq_expires q \<and>
    parcels s' = parcels s @ [p] \<and> pv_parcel v = p \<and> pc_id p = i \<and> pc_customer p = user \<and> pc_state p = PRequested \<and>
    pc_size p = pq_size q \<and> pc_pickup p = pq_pickup q \<and> pc_dropoff p = pq_dropoff q \<and> pc_price p = pq_price q \<and> pc_currency p = pq_currency q \<and>
    pc_commission p = Commission (pq_price q) (pq_commission_bp q) \<and>
    0 \<le> pc_discount p \<and> pc_discount p \<le> pc_price p \<and> (Normalize (crCoupon inp) = [] \<longrightarrow> pc_discount p = 0) \<and>
    (pc_method p = Wallet \<longrightarrow> pc_price p - pc_discount p \<le> bal (UserWalletCode user) (p_core s)) \<and>
    (\<forall>cfg' gnow' dnow' i' c1 c2 c3 idem' inp' x. validate_create idem' inp' = Inr x \<and> TrimSpace idem' = TrimSpace idem \<longrightarrow>
       (\<exists>v'. Create cfg' gnow' dnow' i' c1 c2 c3 user idem' inp' s' = (Inr v', s') \<and> pv_parcel v' = p))"
proof (cases rule: parcel_Create_cases[of cfg gnow dnow i b1 b2 b3 user idem inp s])
  case (refused e)
  then show ?thesis using assms(3) by simp
next
  case (known k pm inp' p)
  then show ?thesis using assms(2) validate_create_Inr(1)[OF known(1)] by simp
next
  case (tx k pm inp' q discount coupon)
  let ?p = "new_parcel dnow i b1 b2 b3 user k pm inp' q discount coupon"
  note V = validate_create_Inr[OF tx(1)]
  obtain p where t: "create_tx gnow dnow coupon ?p s = (Inr p, s')" and v: "pv_parcel v = p"
    using assms(3) unfolding tx(7) begin_func_def by (auto split: sum.splits prod.splits)
  note C = parcel_create_tx_Inr[OF t]
  have q: "0 \<le> pq_price q" "pq_price q \<le> 1200000000000" using assms(1) find_SomeD[OF tx(3)] by blast+
  note D = price_coupon_range[OF tx(5) q(1)]
  have due: "sub64 (pq_price q) discount = pq_price q - discount" using q D by (intro sub64_id) (simp add: in64_def)
  have w: "pq_price q - discount \<le> bal (UserWalletCode user) (p_core s)" if "pm = Wallet"
    using tx(6) that Balance_bal unfolding wallet_covers_def due by (auto split: sum.splits if_splits)
  have "find (\<lambda>p. pc_customer p = user \<and> pc_idem p = TrimSpace idem) (parcels s') = Some ?p"
    using assms(2) C(4) V(1) by (simp add: find_append new_parcel_def)
  then have again: "\<exists>v'. Create cfg' gnow' dnow' i' c1 c2 c3 user idem' inp1 s' = (Inr v', s') \<and> pv_parcel v' = ?p"
    if "validate_create idem' inp1 = Inr x \<and> TrimSpace idem' = TrimSpace idem" for cfg' gnow' dnow' i' c1 c2 c3 idem' inp1 x
    using that validate_create_Inr(1)[of idem' inp1] by (cases x) (auto simp: Create_def withCourier_def)
  show ?thesis
    using tx(3,4) C(1,4) v D w again V q by (intro exI[of _ q] exI[of _ ?p]) (simp add: new_parcel_def)
qed

theorem Create_charges_quote_witness:
  "\<exists>v. Create demo_pgcfg 900 900 ''par2'' (\<lambda>_. 1) (\<lambda>k. k) Suc ''u1'' ''k1'' demo_create demo_sent = (Inr v, demo_sent) \<and>
     pc_price (pv_parcel v) = 280 \<and> pc_commission (pv_parcel v) = 56"
proof -
  obtain res s' where C: "Create demo_pgcfg 100 100 ''par1'' (\<lambda>_. 0) (\<lambda>k. k) Suc ''u1'' ''k1'' demo_create demo_parcels = (res, s')"
    by (cases "Create demo_pgcfg 100 100 ''par1'' (\<lambda>_. 0) (\<lambda>k. k) Suc ''u1'' ''k1'' demo_create demo_parcels")
  have s': "s' = demo_sent" by (simp add: demo_sent_def C)
  have e: "parcels demo_parcels = []" "parcel_quotes demo_parcels = [demo_pquote]" by (simp_all add: demo_parcels_def)
  have ne: "demo_sent \<noteq> demo_parcels" using demo_sent_rows(1) e by auto
  have "\<exists>v. res = Inr v"
  proof (cases rule: parcel_Create_cases[of demo_pgcfg 100 100 "''par1''" "\<lambda>_. 0" "\<lambda>k. k" Suc "''u1''" "''k1''" demo_create demo_parcels])
    case (refused e)
    then show ?thesis using C s' ne by auto
  next
    case (tx k pm inp' q discount coupon)
    show ?thesis
    proof (rule ccontr)
      assume "\<not> ?thesis"
      then have "s' = demo_parcels" using C unfolding tx(7) begin_func_def by (auto split: prod.splits sum.splits)
      then show False using s' ne by simp
    qed
  qed (use C in auto)
  then obtain v where v: "Create demo_pgcfg 100 100 ''par1'' (\<lambda>_. 0) (\<lambda>k. k) Suc ''u1'' ''k1'' demo_create demo_parcels = (Inr v, demo_sent)"
    using C s' by auto
  have h: "\<forall>q \<in> set (parcel_quotes demo_parcels). 0 \<le> pq_price q \<and> pq_price q \<le> 1200000000000"
    "find (\<lambda>p. pc_customer p = ''u1'' \<and> pc_idem p = TrimSpace ''k1'') (parcels demo_parcels) = None"
    using e by (simp_all add: demo_pquote_def)
  have vc: "validate_create ''k1'' demo_create = Inr (''k1'', Cash, demo_create)" by code_simp
  have cm: "Commission 280 2000 = 56" by code_simp
  obtain q p where q: "find (\<lambda>q. pq_id q = crQuote demo_create \<and> pq_customer q = ''u1'') (parcel_quotes demo_parcels) = Some q"
    "pc_price p = pq_price q" "pc_commission p = Commission (pq_price q) (pq_commission_bp q)"
    and again: "\<forall>cfg' gnow' dnow' i' c1 c2 c3 idem' inp' x. validate_create idem' inp' = Inr x \<and> TrimSpace idem' = TrimSpace ''k1'' \<longrightarrow>
       (\<exists>v'. Create cfg' gnow' dnow' i' c1 c2 c3 ''u1'' idem' inp' demo_sent = (Inr v', demo_sent) \<and> pv_parcel v' = p)"
    using Create_charges_quote[OF h v] by blast
  have "q = demo_pquote" using q(1) e by (auto split: if_splits)
  then show ?thesis using again vc q cm by (fastforce simp: demo_pquote_def)
qed

section \<open>Observations\<close>

text \<open>
  A coupon that covers the whole price leaves a posting of zero, which the ledger refuses: the parcel
  stays pending, and the retry, which stops at the first error, never gets past it.
\<close>

lemma free_parcel_stuck:
  assumes "pc_state p = PDelivered" "pc_pay p = PayPending" "pc_courier p = Some d" "pc_method p = Wallet" "pc_discount p = pc_price p"
    "Balance (UserWalletCode (pc_customer p)) (settle_account p d (p_core s)) = Inr b" "0 \<le> Minor b"
  shows "\<exists>e. fst (settle dnow txi p s) = Inl e"
proof -
  have z: "sub64 (pc_price p) (pc_discount p) = 0" using assms(5) by (simp add: sub64_def wrap64_def)
  then have q: "settle_plan p d (settle_account p d (p_core s)) = Pay PayPaid (Some (parcel_tx ''parcel_fare'' p (wallet_postings p d)))"
    using assms(4,6,7) by (simp add: settle_plan_def)
  have "\<exists>e c. Post dnow txi (parcel_tx ''parcel_fare'' p (wallet_postings p d)) (settle_account p d (p_core s)) = (Inl e, c)"
    by (simp add: Post_def parcel_tx_def wallet_postings_def z Validate_def debit_def)
  then show ?thesis using assms(1-3) q by (auto simp: settle_def Let_def settle_account_def[symmetric])
qed

end
