(* ===== verification/Auth.thy ===== *)
theory Auth
  imports Drivers RateLimits Ledger
begin

text \<open>
  \<open>modules/auth\<close>: one-time codes (\<open>otp.go\<close>), sessions with rotating refresh tokens (\<open>service.go\<close>),
  access tokens (\<open>tokens.go\<close>), the middleware that guards the endpoints (\<open>http.go\<close>,
  \<open>capabilities.go\<close>, \<open>optional.go\<close>, \<open>platform/principal\<close>), the first administrator
  (\<open>bootstrap.go\<close>) and the profile (\<open>me.go\<close>). The hash functions, the JWT library, the parser of
  UUIDs, the collation of the database and the SMS provider are parameters: the first five are the
  fields of \<open>auth_lib\<close>, the last says for a message whether it was accepted. The IP addresses of
  sessions and audit rows are left out. Random values (identifiers, codes, tokens) are arguments.
\<close>

section \<open>Errors and constants\<close>

definition ErrPhoneInvalid [err_defs]: "ErrPhoneInvalid = API ''PHONE_INVALID'' 422 False []"
definition ErrOTPInvalid [err_defs]: "ErrOTPInvalid = API ''OTP_INVALID'' 401 False []"
definition ErrOTPExpired [err_defs]: "ErrOTPExpired = API ''OTP_EXPIRED'' 401 False []"
definition ErrOTPTooMany [err_defs]: "ErrOTPTooMany = API ''OTP_TOO_MANY_ATTEMPTS'' 429 False []"
definition ErrSessionInvalid [err_defs]: "ErrSessionInvalid = API ''SESSION_INVALID'' 401 False []"
definition ErrBootstrapUserMissing [err_defs]: "ErrBootstrapUserMissing = Plain ''auth: bootstrap user missing''"
definition ErrBootstrapPhone [err_defs]: "ErrBootstrapPhone = Plain ''auth: bootstrap phone invalid''"
definition ErrSign [err_defs]: "ErrSign = Plain ''auth: signing failed''"

definition otpTTL :: time where "otpTTL = 5 * Minute"
definition otpMaxAttempts :: int where "otpMaxAttempts = 5"
definition rlWindow :: time where "rlWindow = 15 * Minute"
definition rlPerPhone :: nat where "rlPerPhone = 5"
definition rlPerIP :: nat where "rlPerIP = 20"
definition AccessTokenTTL :: time where "AccessTokenTTL = 15 * Minute"
definition RefreshTokenTTL :: time where "RefreshTokenTTL = 30 * 24 * Hour"
definition Issuer :: string where "Issuer = ''krejt''"
definition Audience :: string where "Audience = ''krejt-api''"

section \<open>State\<close>

record challenge =
  ch_id :: uuid
  ch_phone :: string
  ch_hash :: string
  ch_attempts :: int
  ch_expires :: time
  ch_consumed :: "time option"
  ch_created :: time

record session =
  se_id :: uuid
  se_user :: uuid
  se_device :: string
  se_device_name :: "string option"
  se_platform :: string
  se_hash :: string
  se_expires :: time
  se_seen :: time
  se_revoked :: "time option"
  se_created :: time

datatype account_status = Active | Blocked | Deleted

record account_user =
  lu_id :: uuid
  lu_phone :: "string option"
  lu_email :: "string option"
  lu_name :: "string option"
  lu_locale :: string
  lu_photo :: "string option"
  lu_status :: account_status
  lu_created :: time
  lu_updated :: time
  lu_blocked_reason :: "string option"

record auth_db =
  challenges :: "challenge list"
  sessions :: "session list"
  users :: "account_user list"
  caps :: "capability list"
  books :: core

text \<open>The fields of \<open>Service\<close> that configure it, and the functions it takes from libraries.\<close>

record auth_cfg =
  pepper :: string
  testPhones :: "string list"
  testAdmins :: "string list"
  testOTP :: string

record claims =
  Capabilities :: "string list"
  SessionID :: string
  TokIssuer :: string
  TokAudience :: "string list"
  Subject :: string
  IssuedAt :: time
  NotBefore :: time
  ExpiresAt :: time
  TokID :: uuid

record auth_lib =
  hmac :: "string \<Rightarrow> string \<Rightarrow> string"
  sha256 :: "string \<Rightarrow> string"
  signed :: "claims \<Rightarrow> string option"
  parsed :: "string \<Rightarrow> string \<Rightarrow> time \<Rightarrow> time \<Rightarrow> string \<Rightarrow> claims option"
  uuidParse :: "string \<Rightarrow> uuid option"
  collated :: "string list \<Rightarrow> string list"

definition WithDevTestPhones :: "string list \<Rightarrow> string list \<Rightarrow> string \<Rightarrow> auth_cfg \<Rightarrow> auth_cfg" where
  "WithDevTestPhones phones admins code cfg =
     (if phones = [] \<or> code = [] then cfg else cfg\<lparr>testPhones := phones, testAdmins := admins, testOTP := code\<rparr>)"

definition isTestAdmin :: "auth_cfg \<Rightarrow> string \<Rightarrow> bool" where
  "isTestAdmin cfg phone \<longleftrightarrow> phone \<in> set (testAdmins cfg)"

definition isTestPhone :: "auth_cfg \<Rightarrow> string \<Rightarrow> bool" where
  "isTestPhone cfg phone \<longleftrightarrow> phone \<in> set (testPhones cfg)"

section \<open>Tokens\<close>

definition hashCode :: "auth_lib \<Rightarrow> auth_cfg \<Rightarrow> string \<Rightarrow> string \<Rightarrow> string" where
  "hashCode lib cfg phone code = hmac lib (pepper cfg) (phone @ '':'' @ code)"

text \<open>\<open>fmt.Sprintf("%06d", n)\<close> for a random \<open>n\<close> below a million.\<close>

definition randomCode :: "nat \<Rightarrow> string" where
  "randomCode n = (let d = show_nat n in replicate (6 - length d) (CHR ''0'') @ d)"

definition HashToken :: "auth_lib \<Rightarrow> string \<Rightarrow> string" where
  "HashToken lib tok = sha256 lib tok"

definition IssueAccess :: "auth_lib \<Rightarrow> uuid \<Rightarrow> uuid \<Rightarrow> string list \<Rightarrow> time \<Rightarrow> uuid \<Rightarrow> err + string" where
  "IssueAccess lib user sid cs now jti =
     (case signed lib \<lparr>Capabilities = cs, SessionID = sid, TokIssuer = Issuer, TokAudience = [Audience],
             Subject = user, IssuedAt = now, NotBefore = now - 30 * Second, ExpiresAt = now + AccessTokenTTL,
             TokID = jti\<rparr> of
        None \<Rightarrow> Inl ErrSign | Some t \<Rightarrow> Inr t)"

definition Verify :: "auth_lib \<Rightarrow> time \<Rightarrow> string \<Rightarrow> claims option" where
  "Verify lib now tok = parsed lib Issuer Audience (30 * Second) now tok"

definition loadCapabilities :: "auth_lib \<Rightarrow> uuid \<Rightarrow> auth_db \<Rightarrow> string list" where
  "loadCapabilities lib user s =
     collated lib (map cp_capability (filter (\<lambda>c. cp_user c = user \<and> cp_revoked c = None) (caps s)))"

section \<open>One-time codes\<close>

definition rateLimit :: "bool \<Rightarrow> time \<Rightarrow> string \<Rightarrow> nat \<Rightarrow> counters \<Rightarrow> err option \<times> counters" where
  "rateLimit up now key limit r =
     (if \<not> up then (Some ErrUnavailable, r)
      else let (n, r') = incr_expire rlWindow now key r in (if n > limit then Some ErrRateLimited else None, r'))"

text \<open>The challenge is stored in a statement of its own, before the message is sent.\<close>

definition RequestOTP ::
  "auth_lib \<Rightarrow> auth_cfg \<Rightarrow> bool \<Rightarrow> (string \<Rightarrow> string \<Rightarrow> string \<Rightarrow> bool) \<Rightarrow> time \<Rightarrow> time \<Rightarrow> uuid \<Rightarrow> nat \<Rightarrow>
   string \<Rightarrow> string \<Rightarrow> string \<Rightarrow> (counters \<times> auth_db, err, unit) op" where
  "RequestOTP lib cfg up send now dnow i n phone ip locale = (\<lambda>(r, s).
     if \<not> PhoneValid phone then (Inl ErrPhoneInvalid, r, s)
     else case rateLimit up now (''rl:otp:phone:'' @ phone) rlPerPhone r of
       (Some e, r1) \<Rightarrow> (Inl e, r1, s)
     | (None, r1) \<Rightarrow>
         (case (if ip = [] then (None, r1) else rateLimit up now (''rl:otp:ip:'' @ ip) rlPerIP r1) of
            (Some e, r2) \<Rightarrow> (Inl e, r2, s)
          | (None, r2) \<Rightarrow>
              if isTestPhone cfg phone then (Inr (), r2, s)
              else if exists_where (\<lambda>c. ch_id c = i) (challenges s) then (Inl ErrInternal, r2, s)
              else let code = randomCode n;
                       s' = s\<lparr>challenges := challenges s @ [\<lparr>ch_id = i, ch_phone = phone, ch_hash = hashCode lib cfg phone code,
                              ch_attempts = 0, ch_expires = now + otpTTL, ch_consumed = None, ch_created = dnow\<rparr>]\<rparr>
                   in if send phone code locale then (Inr (), r2, s') else (Inl ErrUnavailable, r2, s')))"

text \<open>
  The challenge in force is the youngest that is not consumed. PostgreSQL leaves open which of
  several of the same instant it takes: the last stored here.
\<close>

definition latest_challenge :: "string \<Rightarrow> auth_db \<Rightarrow> challenge option" where
  "latest_challenge phone s =
     (case rev (sort_key ch_created (filter (\<lambda>c. ch_phone c = phone \<and> ch_consumed c = None) (challenges s))) of
        [] \<Rightarrow> None | c # _ \<Rightarrow> Some c)"

definition verifyChallenge ::
  "auth_lib \<Rightarrow> auth_cfg \<Rightarrow> time \<Rightarrow> time \<Rightarrow> string \<Rightarrow> string \<Rightarrow> (auth_db, err, unit) op" where
  "verifyChallenge lib cfg now dnow phone code s =
     (if isTestPhone cfg phone then (if code = testOTP cfg then (Inr (), s) else (Inl ErrOTPInvalid, s))
      else case latest_challenge phone s of
        None \<Rightarrow> (Inl ErrOTPInvalid, s)
      | Some c \<Rightarrow>
          if now > ch_expires c then (Inl ErrOTPExpired, s)
          else if ch_attempts c \<ge> otpMaxAttempts then (Inl ErrOTPTooMany, s)
          else if ch_hash c \<noteq> hashCode lib cfg phone code
          then (Inl ErrOTPInvalid, s\<lparr>challenges := upd_where (\<lambda>x. ch_id x = ch_id c)
                  (\<lambda>x. x\<lparr>ch_attempts := ch_attempts x + 1\<rparr>) (challenges s)\<rparr>)
          else (Inr (), s\<lparr>challenges := upd_where (\<lambda>x. ch_id x = ch_id c)
                  (\<lambda>x. x\<lparr>ch_consumed := Some dnow\<rparr>) (challenges s)\<rparr>))"

section \<open>Sign-in\<close>

record device =
  DeviceID :: string
  DeviceName :: string
  Platform :: string

record token_pair =
  AccessToken :: string
  RefreshToken :: string
  TokExpires :: time
  TokUser :: uuid
  IsNewUser :: bool

text \<open>\<open>INSERT ... ON CONFLICT DO NOTHING\<close> into \<open>user_capabilities\<close>: a revoked row stays revoked.\<close>

definition grant_new :: "uuid \<Rightarrow> string \<Rightarrow> capability list \<Rightarrow> capability list" where
  "grant_new user c cs =
     (if exists_where (\<lambda>x. cp_user x = user \<and> cp_capability x = c) cs then cs
      else cs @ [\<lparr>cp_user = user, cp_capability = c, cp_revoked = None\<rparr>])"

definition new_user :: "time \<Rightarrow> uuid \<Rightarrow> string \<Rightarrow> string \<Rightarrow> account_user" where
  "new_user dnow u phone locale =
     \<lparr>lu_id = u, lu_phone = Some phone, lu_email = None, lu_name = None, lu_locale = locale, lu_photo = None,
      lu_status = Active, lu_created = dnow, lu_updated = dnow, lu_blocked_reason = None\<rparr>"

text \<open>
  The user of a phone number: found, or created with the capability \<open>CUSTOMER\<close> and a wallet. The
  identifier and the flag \<open>is_new_user\<close> are returned.
\<close>

definition login_user ::
  "time \<Rightarrow> uuid \<Rightarrow> string \<Rightarrow> string \<Rightarrow> (auth_db, err, uuid \<times> bool) op" where
  "login_user dnow u phone locale s =
     (case find (\<lambda>x. lu_phone x = Some phone) (users s) of
        Some x \<Rightarrow> if lu_status x \<noteq> Active then (Inl ErrForbidden, s) else (Inr (lu_id x, False), s)
      | None \<Rightarrow>
          let loc = (if locale = [] then ''sq'' else locale)
          in if exists_where (\<lambda>x. lu_id x = u) (users s) then (Inl PgUnique, s)
             else if loc \<notin> {''sq'', ''en'', ''de''} then (Inl PgCheck, s)
             else if exists_where (\<lambda>c. cp_user c = u \<and> cp_capability c = ''CUSTOMER'') (caps s) then (Inl PgUnique, s)
             else let b = EnsureAccount (UserWalletCode u) ''user'' (Some u) ''liability'' ''EUR'' (books s)
                  in (Inr (u, True),
                      s\<lparr>users := users s @ [new_user dnow u phone loc],
                        caps := caps s @ [\<lparr>cp_user = u, cp_capability = ''CUSTOMER'', cp_revoked = None\<rparr>],
                        books := b\<lparr>outbox := Emit dnow ''user'' u ''UserCreated''
                          [(''user_id'', JStr u), (''locale'', JStr loc)] (outbox b)\<rparr>\<rparr>))"

definition open_session ::
  "auth_lib \<Rightarrow> time \<Rightarrow> time \<Rightarrow> uuid \<Rightarrow> string \<Rightarrow> device \<Rightarrow> uuid \<Rightarrow> (auth_db, err, unit) op" where
  "open_session lib now dnow sid tok dev user s =
     (if exists_where (\<lambda>x. se_id x = sid) (sessions s) then (Inl PgUnique, s)
      else if Platform dev \<notin> {''ios'', ''android'', ''web''} then (Inl PgCheck, s)
      else (Inr (), s\<lparr>sessions := sessions s @ [\<lparr>se_id = sid, se_user = user, se_device = DeviceID dev,
              se_device_name = nullable (DeviceName dev), se_platform = Platform dev, se_hash = HashToken lib tok,
              se_expires = now + RefreshTokenTTL, se_seen = dnow, se_revoked = None, se_created = dnow\<rparr>]\<rparr>))"

definition audit_login :: "device \<Rightarrow> bool \<Rightarrow> uuid \<Rightarrow> uuid \<Rightarrow> auth_db \<Rightarrow> auth_db" where
  "audit_login dev isNew user sid s =
     s\<lparr>books := (books s)\<lparr>audit := audit (books s) @ [\<lparr>au_actor = Some user, au_action = ''auth.login'',
         au_target_type = ''session'', au_target_id = sid,
         au_meta = [(''platform'', JStr (Platform dev)), (''new_user'', JBool isNew)]\<rparr>]\<rparr>\<rparr>"

text \<open>
  The body of the transaction of \<open>VerifyOTP\<close>. \<open>u\<close>, \<open>sid\<close>, \<open>jti\<close> are the identifiers that are
  generated, \<open>tok\<close> the random refresh token.
\<close>

definition verify_tx ::
  "auth_lib \<Rightarrow> auth_cfg \<Rightarrow> time \<Rightarrow> time \<Rightarrow> uuid \<Rightarrow> uuid \<Rightarrow> uuid \<Rightarrow> string \<Rightarrow>
   string \<Rightarrow> string \<Rightarrow> string \<Rightarrow> device \<Rightarrow> (auth_db, err, token_pair) op" where
  "verify_tx lib cfg now dnow u sid jti tok phone code locale dev s =
     (case verifyChallenge lib cfg now dnow phone code s of
        (Inl e, s1) \<Rightarrow> (Inl e, s1)
      | (Inr _, s1) \<Rightarrow>
          (case login_user dnow u phone locale s1 of
             (Inl e, s2) \<Rightarrow> (Inl e, s2)
           | (Inr (user, isNew), s2) \<Rightarrow>
               let s3 = (if isTestAdmin cfg phone then s2\<lparr>caps := grant_new user ''SUPER_ADMIN'' (caps s2)\<rparr> else s2)
               in case open_session lib now dnow sid tok dev user s3 of
                    (Inl e, s4) \<Rightarrow> (Inl e, s4)
                  | (Inr _, s4) \<Rightarrow>
                      (case IssueAccess lib user sid (loadCapabilities lib user s4) now jti of
                         Inl e \<Rightarrow> (Inl e, s4)
                       | Inr acc \<Rightarrow> (Inr \<lparr>AccessToken = acc, RefreshToken = tok, TokExpires = now + AccessTokenTTL,
                                        TokUser = user, IsNewUser = isNew\<rparr>, audit_login dev isNew user sid s4))))"

definition VerifyOTP ::
  "auth_lib \<Rightarrow> auth_cfg \<Rightarrow> time \<Rightarrow> time \<Rightarrow> uuid \<Rightarrow> uuid \<Rightarrow> uuid \<Rightarrow> string \<Rightarrow>
   string \<Rightarrow> string \<Rightarrow> string \<Rightarrow> device \<Rightarrow> (auth_db, err, token_pair) op" where
  "VerifyOTP lib cfg now dnow u sid jti tok phone code locale dev s =
     (if \<not> PhoneValid phone then (Inl ErrPhoneInvalid, s)
      else if DeviceID dev = [] \<or> Platform dev = [] then (Inl ErrValidation0, s)
      else begin_func (verify_tx lib cfg now dnow u sid jti tok phone code locale dev) s)"

section \<open>Sessions\<close>

definition refresh_tx ::
  "auth_lib \<Rightarrow> time \<Rightarrow> time \<Rightarrow> uuid \<Rightarrow> string \<Rightarrow> string \<Rightarrow> (auth_db, err, token_pair) op" where
  "refresh_tx lib now dnow jti newtok tok s =
     (case find (\<lambda>x. se_hash x = HashToken lib tok) (sessions s) of
        None \<Rightarrow> (Inl ErrSessionInvalid, s)
      | Some x \<Rightarrow>
          if se_revoked x \<noteq> None \<or> now > se_expires x then (Inl ErrSessionInvalid, s)
          else let s1 = s\<lparr>sessions := upd_where (\<lambda>y. se_id y = se_id x)
                     (\<lambda>y. y\<lparr>se_hash := HashToken lib newtok, se_expires := now + RefreshTokenTTL, se_seen := dnow\<rparr>) (sessions s)\<rparr>
               in case IssueAccess lib (se_user x) (se_id x) (loadCapabilities lib (se_user x) s1) now jti of
                    Inl e \<Rightarrow> (Inl e, s1)
                  | Inr acc \<Rightarrow> (Inr \<lparr>AccessToken = acc, RefreshToken = newtok, TokExpires = now + AccessTokenTTL,
                                   TokUser = se_user x, IsNewUser = False\<rparr>, s1))"

definition Refresh ::
  "auth_lib \<Rightarrow> time \<Rightarrow> time \<Rightarrow> uuid \<Rightarrow> string \<Rightarrow> string \<Rightarrow> (auth_db, err, token_pair) op" where
  "Refresh lib now dnow jti newtok tok s = begin_func (refresh_tx lib now dnow jti newtok tok) s"

definition revoke_where :: "(session \<Rightarrow> bool) \<Rightarrow> time \<Rightarrow> auth_db \<Rightarrow> auth_db" where
  "revoke_where P dnow s =
     s\<lparr>sessions := upd_where (\<lambda>x. P x \<and> se_revoked x = None) (\<lambda>x. x\<lparr>se_revoked := Some dnow\<rparr>) (sessions s)\<rparr>"

definition Logout :: "time \<Rightarrow> uuid \<Rightarrow> auth_db \<Rightarrow> auth_db" where
  "Logout dnow sid = revoke_where (\<lambda>x. se_id x = sid) dnow"

definition RevokeAll :: "time \<Rightarrow> uuid \<Rightarrow> auth_db \<Rightarrow> auth_db" where
  "RevokeAll dnow user = revoke_where (\<lambda>x. se_user x = user) dnow"

definition SessionActive :: "time \<Rightarrow> uuid \<Rightarrow> auth_db \<Rightarrow> bool" where
  "SessionActive dnow sid s \<longleftrightarrow>
     exists_where (\<lambda>x. se_id x = sid \<and> se_revoked x = None \<and> se_expires x > dnow \<and>
       exists_where (\<lambda>u. lu_id u = se_user x \<and> lu_status u = Active) (users s)) (sessions s)"

section \<open>The first administrator\<close>

definition BootstrapAdmin :: "string \<Rightarrow> (auth_db, err, bool) op" where
  "BootstrapAdmin phone s =
     (if phone = [] then (Inr False, s)
      else if \<not> PhoneValid phone then (Inl ErrBootstrapPhone, s)
      else begin_func (\<lambda>s.
        if exists_where (\<lambda>c. cp_capability c = ''SUPER_ADMIN'' \<and> cp_revoked c = None) (caps s) then (Inr False, s)
        else case find (\<lambda>x. lu_phone x = Some phone) (users s) of
               None \<Rightarrow> (Inl ErrBootstrapUserMissing, s)
             | Some x \<Rightarrow> (Inr True, s\<lparr>caps := grant_new (lu_id x) ''SUPER_ADMIN'' (caps s)\<rparr>)) s)"

section \<open>The guards of the endpoints\<close>

definition bearer :: "string \<Rightarrow> string option" where
  "bearer h = (if take 7 h = ''Bearer '' then Some (drop 7 h) else None)"

definition hasCap :: "string list \<Rightarrow> string \<Rightarrow> bool" where
  "hasCap cs want \<longleftrightarrow> list_ex (\<lambda>c. c = want \<or> c = ''SUPER_ADMIN'') cs"

text \<open>The middleware answers with an error, or passes the claims on to the handler.\<close>

definition RequireAuth :: "auth_lib \<Rightarrow> time \<Rightarrow> time \<Rightarrow> string \<Rightarrow> string \<Rightarrow> auth_db \<Rightarrow> err + claims" where
  "RequireAuth lib now dnow capab h s =
     (case bearer h of
        None \<Rightarrow> Inl ErrUnauthorized
      | Some tok \<Rightarrow>
          (case Verify lib now tok of
             None \<Rightarrow> Inl ErrUnauthorized
           | Some c \<Rightarrow>
               (case uuidParse lib (SessionID c) of
                  None \<Rightarrow> Inl ErrUnauthorized
                | Some sid \<Rightarrow>
                    if \<not> SessionActive dnow sid s then Inl ErrSessionInvalid
                    else if capab \<noteq> [] \<and> \<not> hasCap (Capabilities c) capab then Inl ErrForbidden
                    else Inr c)))"

definition RequireAnyCapability :: "auth_lib \<Rightarrow> time \<Rightarrow> time \<Rightarrow> string list \<Rightarrow> string \<Rightarrow> auth_db \<Rightarrow> err + claims" where
  "RequireAnyCapability lib now dnow wanted h s =
     (case RequireAuth lib now dnow [] h s of
        Inl e \<Rightarrow> Inl e
      | Inr c \<Rightarrow> if list_ex (hasCap (Capabilities c)) wanted then Inr c else Inl ErrForbidden)"

definition OptionalAuth :: "auth_lib \<Rightarrow> time \<Rightarrow> time \<Rightarrow> string \<Rightarrow> auth_db \<Rightarrow> claims option" where
  "OptionalAuth lib now dnow h s =
     (case bearer h of
        None \<Rightarrow> None
      | Some tok \<Rightarrow>
          (case Verify lib now tok of
             None \<Rightarrow> None
           | Some c \<Rightarrow>
               (case uuidParse lib (SessionID c) of
                  None \<Rightarrow> None
                | Some sid \<Rightarrow> if SessionActive dnow sid s then Some c else None)))"

text \<open>\<open>platform/principal\<close>: who acts, from the claims that the middleware left.\<close>

record actor =
  ActorUser :: uuid
  ActorSession :: uuid
  ActorCaps :: "string list"

definition Has :: "actor \<Rightarrow> string \<Rightarrow> bool" where
  "Has a capab \<longleftrightarrow> list_ex (\<lambda>c. c = capab \<or> c = ''SUPER_ADMIN'') (ActorCaps a)"

definition FromRequest :: "auth_lib \<Rightarrow> claims option \<Rightarrow> actor option" where
  "FromRequest lib oc =
     (case oc of
        None \<Rightarrow> None
      | Some c \<Rightarrow>
          (case uuidParse lib (Subject c) of
             None \<Rightarrow> None
           | Some u \<Rightarrow>
               (case uuidParse lib (SessionID c) of
                  None \<Rightarrow> None
                | Some sid \<Rightarrow> Some \<lparr>ActorUser = u, ActorSession = sid, ActorCaps = Capabilities c\<rparr>)))"

definition Handler :: "auth_lib \<Rightarrow> (actor \<Rightarrow> err + 'r) \<Rightarrow> claims option \<Rightarrow> err + 'r" where
  "Handler lib fn oc = (case FromRequest lib oc of None \<Rightarrow> Inl ErrUnauthorized | Some a \<Rightarrow> fn a)"

section \<open>The profile\<close>

record me =
  MeID :: uuid
  MePhone :: string
  MeEmail :: "string option"
  MeName :: "string option"
  MeLocale :: string
  MeCaps :: "string list"
  MeBalance :: int
  MeCurrency :: string
  MeClosed :: bool
  MePhoto :: "string option"
  MeCreated :: time

text \<open>\<open>platform/media\<close>: the public address of an image. \<open>base\<close> is the configured prefix.\<close>

definition URL :: "string \<Rightarrow> string option \<Rightarrow> string option" where
  "URL base k = (case k of None \<Rightarrow> None | Some key \<Rightarrow> if key = [] \<or> base = [] then None else Some (base @ ''/'' @ key))"

definition Me :: "auth_lib \<Rightarrow> string \<Rightarrow> uuid \<Rightarrow> auth_db \<Rightarrow> err + me" where
  "Me lib base user s =
     (case find (\<lambda>x. lu_id x = user \<and> lu_status x = Active) (users s) of
        None \<Rightarrow> Inl ErrUnauthorized
      | Some x \<Rightarrow>
          (case lu_phone x of None \<Rightarrow> Inl ErrInternal | Some phone \<Rightarrow>
          let b = (case Balance (UserWalletCode user) (books s) of Inl _ \<Rightarrow> EUR 0 | Inr b \<Rightarrow> b)
          in Inr \<lparr>MeID = lu_id x, MePhone = phone, MeEmail = lu_email x, MeName = lu_name x, MeLocale = lu_locale x,
                  MeCaps = loadCapabilities lib user s, MeBalance = Minor b, MeCurrency = Currency b, MeClosed = True,
                  MePhoto = URL base (lu_photo x), MeCreated = lu_created x\<rparr>))"

section \<open>Endpoints\<close>

text \<open>
  The handlers of \<open>Routes\<close>, after the body of the request is decoded (\<open>None\<close> when that fails). The
  address of the client is taken from the headers.
\<close>

fun after_last :: "char \<Rightarrow> string \<Rightarrow> nat option" where
  "after_last c [] = None"
| "after_last c (x # xs) =
     (case after_last c xs of Some n \<Rightarrow> Some (Suc n) | None \<Rightarrow> if x = c then Some 0 else None)"

definition is_bracket :: "char \<Rightarrow> bool" where
  "is_bracket c \<longleftrightarrow> c \<in> {CHR ''['', CHR '']''}"

definition clientIP :: "string \<Rightarrow> string \<Rightarrow> string" where
  "clientIP cf remote =
     (if cf \<noteq> [] then cf
      else let host = (case after_last (CHR '':'') remote of
                         Some i \<Rightarrow> if i > 0 then take i remote else remote | None \<Rightarrow> remote)
           in rev (dropWhile is_bracket (rev (dropWhile is_bracket host))))"

definition RouteRequest ::
  "auth_lib \<Rightarrow> auth_cfg \<Rightarrow> bool \<Rightarrow> (string \<Rightarrow> string \<Rightarrow> string \<Rightarrow> bool) \<Rightarrow> time \<Rightarrow> time \<Rightarrow> uuid \<Rightarrow> nat \<Rightarrow>
   string \<Rightarrow> string \<Rightarrow> (string \<times> string) option \<Rightarrow> (counters \<times> auth_db, err, int) op" where
  "RouteRequest lib cfg up send now dnow i n cf remote body s =
     (case body of
        None \<Rightarrow> (Inl ErrValidation0, s)
      | Some (phone, locale) \<Rightarrow>
          (case RequestOTP lib cfg up send now dnow i n (TrimSpace phone) (clientIP cf remote) locale s of
             (Inl e, s') \<Rightarrow> (Inl e, s') | (Inr _, s') \<Rightarrow> (Inr (otpTTL div Second), s')))"

definition RouteRefresh ::
  "auth_lib \<Rightarrow> time \<Rightarrow> time \<Rightarrow> uuid \<Rightarrow> string \<Rightarrow> string option \<Rightarrow> (auth_db, err, token_pair) op" where
  "RouteRefresh lib now dnow jti newtok body s =
     (case body of
        None \<Rightarrow> (Inl ErrValidation0, s)
      | Some tok \<Rightarrow> if tok = [] then (Inl ErrValidation0, s) else Refresh lib now dnow jti newtok tok s)"

definition RouteLogout :: "auth_lib \<Rightarrow> time \<Rightarrow> time \<Rightarrow> string \<Rightarrow> (auth_db, err, unit) op" where
  "RouteLogout lib now dnow h s =
     (case RequireAuth lib now dnow [] h s of
        Inl e \<Rightarrow> (Inl e, s)
      | Inr c \<Rightarrow> (Inr (), Logout dnow (case uuidParse lib (SessionID c) of Some sid \<Rightarrow> sid | None \<Rightarrow> uuid_Nil) s))"

definition RouteLogoutAll :: "auth_lib \<Rightarrow> time \<Rightarrow> time \<Rightarrow> string \<Rightarrow> (auth_db, err, unit) op" where
  "RouteLogoutAll lib now dnow h s =
     (case RequireAuth lib now dnow [] h s of
        Inl e \<Rightarrow> (Inl e, s)
      | Inr c \<Rightarrow> (Inr (), RevokeAll dnow (case uuidParse lib (Subject c) of Some u \<Rightarrow> u | None \<Rightarrow> uuid_Nil) s))"

definition RouteMe :: "auth_lib \<Rightarrow> string \<Rightarrow> time \<Rightarrow> time \<Rightarrow> string \<Rightarrow> auth_db \<Rightarrow> err + me" where
  "RouteMe lib base now dnow h s =
     (case RequireAuth lib now dnow [] h s of
        Inl e \<Rightarrow> Inl e
      | Inr c \<Rightarrow> Me lib base (case uuidParse lib (Subject c) of Some u \<Rightarrow> u | None \<Rightarrow> uuid_Nil) s)"

end
