(* ===== verification/Accounts.thy ===== *)
theory Accounts
  imports Auth Geo
begin

text \<open>
  \<open>modules/users\<close>: the profile, saved addresses, notification preferences, signed-in devices and the
  deletion of an account; and the blocking of users by \<open>modules/fraud/fraud.go\<close>. They share the
  tables \<open>users\<close> and \<open>sessions\<close> with the module \<open>auth\<close>. Letters outside ASCII are a parameter
  (\<open>uni\<close>), and changing the case of letters concerns ASCII only.
\<close>

definition ErrEmailTaken [err_defs]: "ErrEmailTaken = API ''EMAIL_TAKEN'' 409 False []"
definition ErrWalletNotEmpty [err_defs]: "ErrWalletNotEmpty = API ''WALLET_NOT_EMPTY'' 409 False []"
definition ErrAddressLimit [err_defs]: "ErrAddressLimit = API ''ADDRESS_LIMIT'' 422 False []"
definition ErrOutsideKosovo [err_defs]: "ErrOutsideKosovo = API ''ADDRESS_OUTSIDE_KOSOVO'' 422 False []"

definition MaxAddresses :: nat where "MaxAddresses = 20"

definition user_audit :: "actor \<Rightarrow> string \<Rightarrow> string \<Rightarrow> string \<Rightarrow> payload \<Rightarrow> auth_db \<Rightarrow> auth_db" where
  "user_audit a action tt ti meta s =
     s\<lparr>books := (books s)\<lparr>audit := audit (books s) @ [\<lparr>au_actor = Some (ActorUser a), au_action = action,
         au_target_type = tt, au_target_id = ti, au_meta = meta\<rparr>]\<rparr>\<rparr>"

definition user_emit :: "time \<Rightarrow> uuid \<Rightarrow> string \<Rightarrow> payload \<Rightarrow> auth_db \<Rightarrow> auth_db" where
  "user_emit dnow u ev meta s = s\<lparr>books := (books s)\<lparr>outbox := Emit dnow ''user'' u ev meta (outbox (books s))\<rparr>\<rparr>"

section \<open>Validation\<close>

definition is_control :: "char \<Rightarrow> bool" where
  "is_control c \<longleftrightarrow> (of_char c :: nat) < 32 \<or> (of_char c :: nat) = 127"

text \<open>The control characters of \<open>unicode.IsControl\<close>: those of ASCII, and U+0080 to U+009F (C2 80 to C2 9F).\<close>

fun has_control :: "string \<Rightarrow> bool" where
  "has_control [] = False"
| "has_control [c] = is_control c"
| "has_control (c # d # cs) =
     (is_control c \<or> ((of_char c :: nat) = 194 \<and> (of_char d :: nat) \<le> 159) \<or> has_control (d # cs))"

definition NormalizeName :: "(string \<Rightarrow> bool) \<Rightarrow> string \<Rightarrow> string option" where
  "NormalizeName uni s =
     (let t = squash s; n = RuneCount t
      in if n < 2 \<or> n > 80 then None
         else if has_control t then None
         else if list_ex (\<lambda>c. is_upper c \<or> is_lower c) t \<or> uni t then Some t else None)"

text \<open>
  What \<open>net/mail\<close> accepts as an address that is exactly the given text: an atom, an at sign, and an
  atom or an IPv4 address in brackets (the colon of IPv6 is refused before).
\<close>

definition is_atext :: "char \<Rightarrow> bool" where
  "is_atext c \<longleftrightarrow> 33 \<le> (of_char c :: nat) \<and> (of_char c :: nat) \<noteq> 127 \<and> c \<notin> set ''()[];@,<>:'' \<and> c \<noteq> CHR 0x22 \<and> c \<noteq> CHR 0x5C"

fun double_dot :: "string \<Rightarrow> bool" where
  "double_dot (c # d # cs) = ((c = CHR ''.'' \<and> d = CHR ''.'') \<or> double_dot (d # cs))"
| "double_dot _ = False"

definition dot_atom :: "string \<Rightarrow> bool" where
  "dot_atom s \<longleftrightarrow> s \<noteq> [] \<and> list_all is_atext s \<and> hd s \<noteq> CHR ''.'' \<and> last s \<noteq> CHR ''.'' \<and> \<not> double_dot s"

fun split_on :: "char \<Rightarrow> string \<Rightarrow> string list" where
  "split_on c [] = [[]]"
| "split_on c (x # xs) =
     (if x = c then [] # split_on c xs
      else case split_on c xs of [] \<Rightarrow> [[x]] | w # ws \<Rightarrow> (x # w) # ws)"

definition octet :: "string \<Rightarrow> bool" where
  "octet w \<longleftrightarrow> w \<noteq> [] \<and> length w \<le> 3 \<and> list_all is_digit w \<and> (length w > 1 \<longrightarrow> hd w \<noteq> CHR ''0'') \<and>
     foldl (\<lambda>n c. 10 * n + (of_char c - 48)) (0::nat) w \<le> 255"

definition mail_domain :: "string \<Rightarrow> bool" where
  "mail_domain d \<longleftrightarrow> dot_atom d \<or>
     (length d > 2 \<and> hd d = CHR ''['' \<and> last d = CHR '']'' \<and>
      (let ws = split_on (CHR ''.'') (butlast (tl d)) in length ws = 4 \<and> list_all octet ws))"

definition ParseAddress :: "string \<Rightarrow> bool" where
  "ParseAddress s =
     (let l = takeWhile (\<lambda>c. c \<noteq> CHR ''@'') s; d = drop (length l) s
      in dot_atom l \<and> d \<noteq> [] \<and> mail_domain (tl d))"

definition NormalizeEmail :: "string \<Rightarrow> string option" where
  "NormalizeEmail s =
     (let t = map to_lower (TrimSpace s)
      in if t = [] \<or> length t > 254 \<or> list_ex (\<lambda>c. c \<in> set '' <>(),;:'' \<or> c = CHR 0x22 \<or> c = CHR 0x5C) t then None
         else if \<not> ParseAddress t then None
         else let d = rev (takeWhile (\<lambda>c. c \<noteq> CHR ''@'') (rev t))
              in if length t < length d + 2 \<or> CHR ''.'' \<notin> set d then None else Some t)"

definition ValidLocale :: "string \<Rightarrow> bool" where "ValidLocale s \<longleftrightarrow> s \<in> {''sq'', ''en'', ''de''}"

definition trimOpt :: "string option \<Rightarrow> nat \<Rightarrow> string \<Rightarrow> fields \<Rightarrow> string option \<times> fields" where
  "trimOpt p n k f =
     (case p of None \<Rightarrow> (None, f)
      | Some s \<Rightarrow> let v = TrimSpace s in if v = [] then (None, f) else (Some v, add_field_if (RuneCount v > n) k ''too_long'' f))"

definition trimReq :: "string \<Rightarrow> nat \<Rightarrow> nat \<Rightarrow> string \<Rightarrow> fields \<Rightarrow> string \<times> fields" where
  "trimReq s m n k f =
     (let v = squash s; l = RuneCount v
      in (v, if l < m then set_field k ''required'' f else add_field_if (l > n) k ''too_long'' f))"

section \<open>The profile\<close>

record profile_update =
  puName :: "string option"
  puEmail :: "string option"
  puLocale :: "string option"

definition blank :: "string option \<Rightarrow> bool" where
  "blank p \<longleftrightarrow> (case p of None \<Rightarrow> True | Some s \<Rightarrow> TrimSpace s = [])"

definition update_profile_tx ::
  "time \<Rightarrow> actor \<Rightarrow> profile_update \<Rightarrow> string option \<Rightarrow> string option \<Rightarrow> (auth_db, err, account_user) op" where
  "update_profile_tx dnow a inp nm em s =
     (case find (\<lambda>x. lu_id x = ActorUser a \<and> lu_status x = Active) (users s) of
        None \<Rightarrow> (Inl ErrUnauthorized, s)
      | Some x \<Rightarrow>
          let x' = x\<lparr>lu_name := (if puName inp \<noteq> None then nm else lu_name x),
                     lu_email := (if puEmail inp \<noteq> None then em else lu_email x),
                     lu_locale := (case puLocale inp of Some l \<Rightarrow> l | None \<Rightarrow> lu_locale x), lu_updated := dnow\<rparr>;
              ch = (if puName inp \<noteq> None then [''full_name''] else []) @ (if puEmail inp \<noteq> None then [''email''] else [])
                   @ (if puLocale inp \<noteq> None then [''locale''] else [])
          in if lu_email x' \<noteq> None \<and> exists_where (\<lambda>y. lu_id y \<noteq> lu_id x \<and> lu_email y = lu_email x') (users s)
             then (Inl ErrEmailTaken, s)
             else (Inr x', user_emit dnow (lu_id x) ''UserProfileUpdated''
                     [(''user_id'', JStr (lu_id x)), (''changed'', JStrs ch), (''locale'', JStr (lu_locale x'))]
                     (user_audit a ''user.profile_updated'' ''user'' (lu_id x) [(''changed'', JStrs ch)]
                       (s\<lparr>users := upd_where (\<lambda>y. lu_id y = lu_id x) (\<lambda>_. x') (users s)\<rparr>))))"

definition UpdateProfile ::
  "(string \<Rightarrow> bool) \<Rightarrow> time \<Rightarrow> actor \<Rightarrow> profile_update \<Rightarrow> (auth_db, err, account_user) op" where
  "UpdateProfile uni dnow a inp s =
     (if puName inp = None \<and> puEmail inp = None \<and> puLocale inp = None
      then (Inl (ErrValidation [(''body'', ''empty'')]), s)
      else let nm = (if blank (puName inp) then None else NormalizeName uni (the (puName inp)));
               em = (if blank (puEmail inp) then None else NormalizeEmail (the (puEmail inp)));
               f = add_field_if (\<not> blank (puName inp) \<and> nm = None) ''full_name'' ''invalid'' [];
               f = add_field_if (\<not> blank (puEmail inp) \<and> em = None) ''email'' ''invalid'' f;
               f = add_field_if (\<not> (case puLocale inp of None \<Rightarrow> True | Some l \<Rightarrow> ValidLocale l)) ''locale'' ''invalid'' f
           in if f \<noteq> [] then (Inl (ErrValidation f), s)
              else begin_func (update_profile_tx dnow a inp nm em) s)"

section \<open>Saved addresses\<close>

record address =
  ad_id :: uuid
  ad_user :: uuid
  ad_label :: string
  ad_name :: "string option"
  ad_line1 :: string
  ad_line2 :: "string option"
  ad_city :: string
  ad_postal :: "string option"
  ad_point :: point
  ad_place :: "string option"
  ad_instr :: "string option"
  ad_default :: bool
  ad_created :: time
  ad_updated :: time
  ad_deleted :: "time option"

record preference =
  Category :: string
  Push :: bool
  Email :: bool
  SMS :: bool

record accounts_db =
  identity :: auth_db
  addresses :: "address list"
  preferences :: "(uuid \<times> preference) list"

record address_input =
  aiLabel :: string
  aiName :: "string option"
  aiLine1 :: string
  aiLine2 :: "string option"
  aiCity :: string
  aiPostal :: "string option"
  aiPoint :: point
  aiPlace :: "string option"
  aiInstr :: "string option"
  aiDefault :: bool

definition validateAddress :: "address_input \<Rightarrow> address_input \<times> fields" where
  "validateAddress inp =
     (let label = map to_lower (TrimSpace (aiLabel inp));
          f = add_field_if (label \<notin> {''home'', ''work'', ''other''}) ''label'' ''invalid'' [];
          (nm, f) = trimOpt (aiName inp) 40 ''name'' f;
          (l1, f) = trimReq (aiLine1 inp) 3 120 ''line1'' f;
          (l2, f) = trimOpt (aiLine2 inp) 120 ''line2'' f;
          (city, f) = trimReq (aiCity inp) 2 60 ''city'' f;
          (pc, f) = trimOpt (aiPostal inp) 10 ''postal_code'' f;
          (pl, f) = trimOpt (aiPlace inp) 300 ''place_id'' f;
          (ins, f) = trimOpt (aiInstr inp) 200 ''instructions'' f;
          p = aiPoint inp;
          f = add_field_if (\<not> Valid p) ''location'' ''invalid'' f
      in (inp\<lparr>aiLabel := label, aiName := nm, aiLine1 := l1, aiLine2 := l2, aiCity := city, aiPostal := pc,
              aiPlace := pl, aiInstr := ins\<rparr>, f))"

definition checkAddress :: "address_input \<Rightarrow> err + address_input" where
  "checkAddress inp =
     (let (inp', f) = validateAddress inp
      in if f \<noteq> [] then Inl (ErrValidation f)
         else if \<not> InKosovo (aiPoint inp') then Inl ErrOutsideKosovo else Inr inp')"

definition ListAddresses :: "uuid \<Rightarrow> accounts_db \<Rightarrow> address list" where
  "ListAddresses user s =
     sort_key (\<lambda>x. if ad_default x then 0 else 1::nat)
       (sort_key ad_created (filter (\<lambda>x. ad_user x = user \<and> ad_deleted x = None) (addresses s)))"

definition clearDefault :: "time \<Rightarrow> uuid \<Rightarrow> address list \<Rightarrow> address list" where
  "clearDefault dnow user =
     upd_where (\<lambda>x. ad_user x = user \<and> ad_default x \<and> ad_deleted x = None) (\<lambda>x. x\<lparr>ad_default := False, ad_updated := dnow\<rparr>)"

definition fill_address :: "address_input \<Rightarrow> bool \<Rightarrow> time \<Rightarrow> address \<Rightarrow> address" where
  "fill_address inp d dnow x =
     x\<lparr>ad_label := aiLabel inp, ad_name := aiName inp, ad_line1 := aiLine1 inp, ad_line2 := aiLine2 inp, ad_city := aiCity inp,
       ad_postal := aiPostal inp, ad_point := aiPoint inp, ad_place := aiPlace inp, ad_instr := aiInstr inp,
       ad_default := d, ad_updated := dnow\<rparr>"

definition new_address :: "time \<Rightarrow> uuid \<Rightarrow> uuid \<Rightarrow> bool \<Rightarrow> address_input \<Rightarrow> address" where
  "new_address dnow i user d inp =
     \<lparr>ad_id = i, ad_user = user, ad_label = aiLabel inp, ad_name = aiName inp, ad_line1 = aiLine1 inp, ad_line2 = aiLine2 inp,
      ad_city = aiCity inp, ad_postal = aiPostal inp, ad_point = aiPoint inp, ad_place = aiPlace inp, ad_instr = aiInstr inp,
      ad_default = d, ad_created = dnow, ad_updated = dnow, ad_deleted = None\<rparr>"

definition live_addresses :: "uuid \<Rightarrow> address list \<Rightarrow> nat" where
  "live_addresses user = count_where (\<lambda>x. ad_user x = user \<and> ad_deleted x = None)"

text \<open>The partial unique index: at most one default among the addresses of a user that are not deleted.\<close>

definition default_taken :: "uuid \<Rightarrow> uuid \<Rightarrow> address list \<Rightarrow> bool" where
  "default_taken i user = exists_where (\<lambda>x. ad_id x \<noteq> i \<and> ad_user x = user \<and> ad_default x \<and> ad_deleted x = None)"

definition create_address_tx :: "time \<Rightarrow> uuid \<Rightarrow> actor \<Rightarrow> address_input \<Rightarrow> (accounts_db, err, address) op" where
  "create_address_tx dnow i a inp s =
     (let n = live_addresses (ActorUser a) (addresses s)
      in if n \<ge> MaxAddresses then (Inl ErrAddressLimit, s)
         else let d = (n = 0 \<or> aiDefault inp);
                  t = (if d then clearDefault dnow (ActorUser a) (addresses s) else addresses s);
                  x = new_address dnow i (ActorUser a) d inp
              in if exists_where (\<lambda>y. ad_id y = i) t \<or> (d \<and> default_taken i (ActorUser a) t) then (Inl PgUnique, s)
                 else (Inr x, s\<lparr>addresses := t @ [x],
                         identity := user_emit dnow (ActorUser a) ''UserAddressAdded''
                             [(''user_id'', JStr (ActorUser a)), (''address_id'', JStr i)]
                           (user_audit a ''user.address_added'' ''address'' i [(''label'', JStr (aiLabel inp))] (identity s))\<rparr>))"

definition CreateAddress :: "time \<Rightarrow> uuid \<Rightarrow> actor \<Rightarrow> address_input \<Rightarrow> (accounts_db, err, address) op" where
  "CreateAddress dnow i a inp s =
     (case checkAddress inp of Inl e \<Rightarrow> (Inl e, s) | Inr inp' \<Rightarrow> begin_func (create_address_tx dnow i a inp') s)"

definition update_address_tx :: "time \<Rightarrow> actor \<Rightarrow> uuid \<Rightarrow> address_input \<Rightarrow> (accounts_db, err, address) op" where
  "update_address_tx dnow a i inp s =
     (let t = (if aiDefault inp then clearDefault dnow (ActorUser a) (addresses s) else addresses s);
          mine = (\<lambda>x. ad_id x = i \<and> ad_user x = ActorUser a \<and> ad_deleted x = None)
      in case find mine t of
           None \<Rightarrow> (Inl ErrNotFound, s)
         | Some x \<Rightarrow>
             if aiDefault inp \<and> default_taken i (ActorUser a) t then (Inl PgUnique, s)
             else let x' = fill_address inp (aiDefault inp) dnow x
                  in (Inr x', s\<lparr>addresses := upd_where mine (fill_address inp (aiDefault inp) dnow) t,
                        identity := user_audit a ''user.address_updated'' ''address'' i [(''label'', JStr (aiLabel inp))] (identity s)\<rparr>))"

definition UpdateAddress :: "time \<Rightarrow> actor \<Rightarrow> uuid \<Rightarrow> address_input \<Rightarrow> (accounts_db, err, address) op" where
  "UpdateAddress dnow a i inp s =
     (case checkAddress inp of Inl e \<Rightarrow> (Inl e, s) | Inr inp' \<Rightarrow> begin_func (update_address_tx dnow a i inp') s)"

definition DeleteAddress :: "time \<Rightarrow> actor \<Rightarrow> uuid \<Rightarrow> (accounts_db, err, unit) op" where
  "DeleteAddress dnow a i =
     begin_func (\<lambda>s. let mine = (\<lambda>x. ad_id x = i \<and> ad_user x = ActorUser a \<and> ad_deleted x = None)
       in if \<not> exists_where mine (addresses s) then (Inl ErrNotFound, s)
          else (Inr (), s\<lparr>addresses := upd_where mine (\<lambda>x. x\<lparr>ad_deleted := Some dnow, ad_default := False, ad_updated := dnow\<rparr>) (addresses s),
                  identity := user_audit a ''user.address_deleted'' ''address'' i [] (identity s)\<rparr>))"

section \<open>Notification preferences\<close>

definition notification_categories :: "string list" where
  "notification_categories =
     [''security'', ''rides'', ''orders'', ''payments'', ''wallet'', ''loyalty'', ''promotions'', ''support'']"

definition defaultPreference :: "string \<Rightarrow> preference" where
  "defaultPreference c = \<lparr>Category = c, Push = True, Email = (c \<noteq> ''promotions''), SMS = False\<rparr>"

definition Preferences :: "uuid \<Rightarrow> accounts_db \<Rightarrow> preference list" where
  "Preferences user s =
     map (\<lambda>c. case find (\<lambda>r. fst r = user \<and> Category (snd r) = c) (preferences s) of
                Some r \<Rightarrow> snd r | None \<Rightarrow> defaultPreference c) notification_categories"

definition knownCategory :: "string \<Rightarrow> bool" where
  "knownCategory c \<longleftrightarrow> c \<in> set notification_categories"

fun validate_prefs_loop :: "string list \<Rightarrow> preference list \<Rightarrow> fields \<Rightarrow> fields" where
  "validate_prefs_loop seen [] f = f"
| "validate_prefs_loop seen (p # ps) f =
     (if \<not> knownCategory (Category p) then validate_prefs_loop seen ps (set_field ''category'' ''invalid'' f)
      else let f = add_field_if (Category p \<in> set seen) (Category p) ''duplicate'' f;
               f = add_field_if (Category p = ''security'' \<and> \<not> Push p) ''security.push'' ''required'' f
           in validate_prefs_loop (Category p # seen) ps f)"

definition norm_pref :: "preference \<Rightarrow> preference" where
  "norm_pref p = p\<lparr>Category := map to_lower (TrimSpace (Category p))\<rparr>"

definition validatePreferences :: "preference list \<Rightarrow> preference list \<times> fields" where
  "validatePreferences inp =
     (if inp = [] then (inp, set_field ''body'' ''empty'' [])
      else let ps = map norm_pref inp in (ps, validate_prefs_loop [] ps []))"

definition put_pref :: "uuid \<Rightarrow> preference \<Rightarrow> (uuid \<times> preference) list \<Rightarrow> (uuid \<times> preference) list" where
  "put_pref user p t =
     (let here = (\<lambda>r. fst r = user \<and> Category (snd r) = Category p)
      in if exists_where here t then upd_where here (\<lambda>r. (fst r, p)) t else t @ [(user, p)])"

definition SetPreferences :: "actor \<Rightarrow> preference list \<Rightarrow> (accounts_db, err, preference list) op" where
  "SetPreferences a inp s =
     (let (ps, f) = validatePreferences inp
      in if f \<noteq> [] then (Inl (ErrValidation f), s)
         else let s' = s\<lparr>preferences := fold (put_pref (ActorUser a)) ps (preferences s),
                  identity := user_audit a ''user.notification_preferences_updated'' ''user'' (ActorUser a)
                    [(''categories'', JStrs (map Category ps))] (identity s)\<rparr>
              in (Inr (Preferences (ActorUser a) s'), s'))"

section \<open>Devices, deletion and blocking\<close>

text \<open>The rows, youngest activity first, each with the flag \<open>current\<close>.\<close>

definition Sessions :: "time \<Rightarrow> actor \<Rightarrow> auth_db \<Rightarrow> (session \<times> bool) list" where
  "Sessions dnow a s =
     map (\<lambda>x. (x, se_id x = ActorSession a))
       (sort_key (\<lambda>x. - se_seen x)
         (filter (\<lambda>x. se_user x = ActorUser a \<and> se_revoked x = None \<and> se_expires x > dnow) (sessions s)))"

definition RevokeSession :: "time \<Rightarrow> actor \<Rightarrow> uuid \<Rightarrow> (auth_db, err, unit) op" where
  "RevokeSession dnow a sid =
     begin_func (\<lambda>s.
       if \<not> exists_where (\<lambda>x. se_id x = sid \<and> se_user x = ActorUser a \<and> se_revoked x = None) (sessions s) then (Inl ErrNotFound, s)
       else (Inr (), user_audit a ''session.revoked'' ''session'' sid [(''self'', JBool (sid = ActorSession a))]
                       (revoke_where (\<lambda>x. se_id x = sid \<and> se_user x = ActorUser a) dnow s)))"

definition hex_digit :: "nat \<Rightarrow> char" where "hex_digit n = char_of (if n < 10 then 48 + n else 87 + n)"

definition hex :: "string \<Rightarrow> string" where
  "hex s = concat (map (\<lambda>c. [hex_digit (of_char c div 16), hex_digit (of_char c mod 16)]) s)"

definition delete_account_tx :: "auth_lib \<Rightarrow> time \<Rightarrow> actor \<Rightarrow> (accounts_db, err, unit) op" where
  "delete_account_tx lib dnow a s =
     (let i = identity s; u = ActorUser a
      in case find (\<lambda>x. lu_id x = u \<and> lu_status x = Active) (users i) of
           None \<Rightarrow> (Inl ErrUnauthorized, s)
         | Some x \<Rightarrow>
             let i1 = i\<lparr>users := upd_where (\<lambda>y. lu_id y = u) (\<lambda>y. y\<lparr>lu_status := Deleted, lu_phone := None, lu_email := None,
                          lu_name := None, lu_updated := dnow\<rparr>) (users i)\<rparr>;
                 i2 = revoke_where (\<lambda>x. se_user x = u) dnow i1;
                 meta = (case lu_phone x of None \<Rightarrow> [] | Some p \<Rightarrow> [(''phone_sha256'', JStr (hex (sha256 lib p)))])
             in (Inr (), s\<lparr>identity := user_emit dnow u ''UserDeleted'' [(''user_id'', JStr u)]
                                         (user_audit a ''user.deleted'' ''user'' u meta i2),
                   addresses := upd_where (\<lambda>x. ad_user x = u \<and> ad_deleted x = None) (\<lambda>x. x\<lparr>ad_deleted := Some dnow\<rparr>) (addresses s),
                   preferences := filter (\<lambda>r. fst r \<noteq> u) (preferences s)\<rparr>))"

text \<open>The balance is read before the transaction.\<close>

definition DeleteAccount :: "auth_lib \<Rightarrow> time \<Rightarrow> actor \<Rightarrow> (accounts_db, err, unit) op" where
  "DeleteAccount lib dnow a s =
     (let c = UserWalletCode (ActorUser a);
          i = identity s;
          s1 = s\<lparr>identity := i\<lparr>books := EnsureAccount c ''user'' (Some (ActorUser a)) ''liability'' ''EUR'' (books i)\<rparr>\<rparr>
      in case Balance c (books (identity s1)) of
           Inl e \<Rightarrow> (Inl e, s1)
         | Inr b \<Rightarrow> if Minor b \<noteq> 0 then (Inl ErrWalletNotEmpty, s1) else begin_func (delete_account_tx lib dnow a) s1)"

text \<open>\<open>Block\<close> of \<open>modules/fraud\<close>, for blocking and unblocking.\<close>

definition Block :: "time \<Rightarrow> actor \<Rightarrow> uuid \<Rightarrow> string \<Rightarrow> bool \<Rightarrow> (auth_db, err, unit) op" where
  "Block dnow ops user reason block s =
     (if block \<and> reason = [] then (Inl (ErrValidation [(''reason'', ''required'')]), s)
      else let s1 = (if block
             then s\<lparr>users := upd_where (\<lambda>x. lu_id x = user \<and> lu_status x = Active)
                     (\<lambda>x. x\<lparr>lu_status := Blocked, lu_blocked_reason := Some reason, lu_updated := dnow\<rparr>) (users s)\<rparr>
             else s\<lparr>users := upd_where (\<lambda>x. lu_id x = user \<and> lu_status x = Blocked)
                     (\<lambda>x. x\<lparr>lu_status := Active, lu_blocked_reason := None, lu_updated := dnow\<rparr>) (users s)\<rparr>);
               s2 = (if block then revoke_where (\<lambda>x. se_user x = user) dnow s1 else s1)
           in (Inr (), user_emit dnow user (if block then ''UserBlocked'' else ''UserUnblocked'')
                   [(''user_id'', JStr user), (''reason'', JStr reason), (''by'', JStr (ActorUser ops))]
                   (user_audit ops (if block then ''user.blocked'' else ''user.unblocked'') ''user'' user
                     [(''reason'', JStr reason)] s2)))"

end
