(* ===== verification/Identity.thy ===== *)
theory Identity
  imports Accounts
begin

text \<open>
  Runs of the modules \<open>auth\<close> and \<open>users\<close> together, with the blocking of users, as sequences of
  events, the invariant of their tables, and the relation between the events of a run and the tables
  it leaves behind.
\<close>

section \<open>Runs\<close>

text \<open>
  What the outside sees of a run, latest first: codes stored for a number, sign-ins, access tokens
  handed out (with the user, the session, the capabilities at that time and the time), refresh tokens
  handed out, refresh tokens that were exchanged, sessions that a call was asked to close.
\<close>

datatype auth_event =
    CodeIssued string string
  | SignedIn string string uuid
  | AccessIssued string uuid uuid "string list" time
  | TokenIssued string
  | TokenUsed string
  | SessionClosed uuid

text \<open>
  The sessions a call has to close are read off the call and the table before it, never off its
  result: the session that signs out, those of the user who signs out everywhere, is blocked or deletes
  the account, the device that is removed.
\<close>

definition closing :: "(session \<Rightarrow> bool) \<Rightarrow> auth_db \<Rightarrow> auth_event list" where
  "closing P i = map (SessionClosed \<circ> se_id) (filter P (sessions i))"

text \<open>When the latest access token of a session was handed out.\<close>

fun last_issue :: "uuid \<Rightarrow> auth_event list \<Rightarrow> time option" where
  "last_issue sid [] = None"
| "last_issue sid (e # evs) =
     (case e of AccessIssued acc user sid' cs t \<Rightarrow> if sid' = sid then Some t else last_issue sid evs
      | _ \<Rightarrow> last_issue sid evs)"

definition fresh_token :: "auth_lib \<Rightarrow> string \<Rightarrow> auth_event list \<Rightarrow> bool" where
  "fresh_token lib tok evs \<longleftrightarrow> (\<forall>t. TokenIssued t \<in> set evs \<longrightarrow> HashToken lib t \<noteq> HashToken lib tok)"

text \<open>
  The number of a code is below a million. The refresh tokens that are generated are fresh: their hash is not that of one handed out before.
  The other modules may grant and revoke capabilities of users and write to the books, where
  accounts are never removed.
\<close>

inductive auth_run :: "auth_lib \<Rightarrow> auth_cfg \<Rightarrow> auth_event list \<Rightarrow> counters \<Rightarrow> accounts_db \<Rightarrow> bool" for lib cfg where
  start: "auth_run lib cfg [] r \<lparr>identity = \<lparr>challenges = [], sessions = [], users = [], caps = [], books = c\<rparr>,
            addresses = [], preferences = []\<rparr>"
| request: "auth_run lib cfg evs r s \<Longrightarrow> n < 1000000 \<Longrightarrow>
    RequestOTP lib cfg up send now dnow i n phone ip locale (r, identity s) = (res, r', i') \<Longrightarrow>
    evs' = (if challenges i' = challenges (identity s) then evs else CodeIssued phone (randomCode n) # evs) \<Longrightarrow>
    auth_run lib cfg evs' r' (s\<lparr>identity := i'\<rparr>)"
| sign_in: "auth_run lib cfg evs r s \<Longrightarrow> fresh_token lib tok evs \<Longrightarrow>
    VerifyOTP lib cfg now dnow u sid jti tok phone code locale dev (identity s) = (Inr pair, i') \<Longrightarrow>
    auth_run lib cfg (AccessIssued (AccessToken pair) (TokUser pair) sid (loadCapabilities lib (TokUser pair) i') now #
        SignedIn phone code sid # TokenIssued tok # evs) r (s\<lparr>identity := i'\<rparr>)"
| refresh: "auth_run lib cfg evs r s \<Longrightarrow> fresh_token lib newtok evs \<Longrightarrow>
    Refresh lib now dnow jti newtok tok (identity s) = (Inr pair, i') \<Longrightarrow>
    find (\<lambda>x. se_hash x = HashToken lib tok) (sessions (identity s)) = Some x \<Longrightarrow>
    auth_run lib cfg (AccessIssued (AccessToken pair) (TokUser pair) (se_id x) (loadCapabilities lib (TokUser pair) i') now #
        TokenIssued newtok # TokenUsed tok # evs) r (s\<lparr>identity := i'\<rparr>)"
| logout: "auth_run lib cfg evs r s \<Longrightarrow> i' = Logout dnow sid (identity s) \<Longrightarrow>
    auth_run lib cfg (closing (\<lambda>x. se_id x = sid) (identity s) @ evs) r (s\<lparr>identity := i'\<rparr>)"
| logout_all: "auth_run lib cfg evs r s \<Longrightarrow> i' = RevokeAll dnow user (identity s) \<Longrightarrow>
    auth_run lib cfg (closing (\<lambda>x. se_user x = user) (identity s) @ evs) r (s\<lparr>identity := i'\<rparr>)"
| revoke_device: "auth_run lib cfg evs r s \<Longrightarrow> RevokeSession dnow a sid (identity s) = (res, i') \<Longrightarrow>
    auth_run lib cfg (closing (\<lambda>x. res = Inr () \<and> se_id x = sid \<and> se_user x = ActorUser a) (identity s) @ evs) r (s\<lparr>identity := i'\<rparr>)"
| block: "auth_run lib cfg evs r s \<Longrightarrow> Block dnow a user reason b (identity s) = (res, i') \<Longrightarrow>
    auth_run lib cfg (closing (\<lambda>x. res = Inr () \<and> b \<and> se_user x = user) (identity s) @ evs) r (s\<lparr>identity := i'\<rparr>)"
| delete: "auth_run lib cfg evs r s \<Longrightarrow> DeleteAccount lib dnow a s = (res, s') \<Longrightarrow>
    auth_run lib cfg (closing (\<lambda>x. res = Inr () \<and> se_user x = ActorUser a) (identity s) @ evs) r s'"
| bootstrap: "auth_run lib cfg evs r s \<Longrightarrow> BootstrapAdmin phone (identity s) = (res, i') \<Longrightarrow>
    auth_run lib cfg evs r (s\<lparr>identity := i'\<rparr>)"
| profile: "auth_run lib cfg evs r s \<Longrightarrow> UpdateProfile uni dnow a inp (identity s) = (res, i') \<Longrightarrow>
    auth_run lib cfg evs r (s\<lparr>identity := i'\<rparr>)"
| add_address: "auth_run lib cfg evs r s \<Longrightarrow> CreateAddress dnow i a inp' s = (res, s') \<Longrightarrow> auth_run lib cfg evs r s'"
| set_address: "auth_run lib cfg evs r s \<Longrightarrow> UpdateAddress dnow a i inp' s = (res, s') \<Longrightarrow> auth_run lib cfg evs r s'"
| delete_address: "auth_run lib cfg evs r s \<Longrightarrow> DeleteAddress dnow a i s = (res, s') \<Longrightarrow> auth_run lib cfg evs r s'"
| prefs: "auth_run lib cfg evs r s \<Longrightarrow> SetPreferences a ps s = (res, s') \<Longrightarrow> auth_run lib cfg evs r s'"
| others: "auth_run lib cfg evs r s \<Longrightarrow> distinct (map (\<lambda>c. (cp_user c, cp_capability c)) cs) \<Longrightarrow>
    cp_user ` set cs \<subseteq> lu_id ` set (users (identity s)) \<Longrightarrow> set (accounts (books (identity s))) \<subseteq> set (accounts b) \<Longrightarrow>
    auth_run lib cfg evs r (s\<lparr>identity := (identity s)\<lparr>caps := cs, books := b\<rparr>\<rparr>)"

text \<open>A failed sign-in or refresh is rolled back, so it is no step of its own.\<close>

lemma failed_calls_roll_back:
  "VerifyOTP lib cfg now dnow u sid jti tok phone code locale dev i = (Inl e, i') \<Longrightarrow> i' = i"
  "Refresh lib now dnow jti newtok tok2 i = (Inl e, i') \<Longrightarrow> i' = i"
  by (auto simp: VerifyOTP_def Refresh_def begin_func_Inl_iff split: if_splits)

section \<open>Invariant\<close>

definition challenges_ok :: "auth_db \<Rightarrow> bool" where
  "challenges_ok i \<longleftrightarrow> distinct (map ch_id (challenges i)) \<and> (\<forall>c \<in> set (challenges i). ch_attempts c = 0)"

definition sessions_ok :: "auth_db \<Rightarrow> bool" where
  "sessions_ok i \<longleftrightarrow> distinct (map se_id (sessions i)) \<and>
     (\<forall>x \<in> set (sessions i). \<exists>u \<in> set (users i). lu_id u = se_user x \<and> (se_revoked x = None \<longrightarrow> lu_status u = Active))"

definition users_ok :: "auth_db \<Rightarrow> bool" where
  "users_ok i \<longleftrightarrow> distinct (map lu_id (users i)) \<and>
     unique_index lu_id lu_phone (users i) \<and>
     (\<forall>u \<in> set (users i). UserWalletCode (lu_id u) \<in> ac_code ` set (accounts (books i)))"

definition caps_ok :: "auth_db \<Rightarrow> bool" where
  "caps_ok i \<longleftrightarrow> distinct (map (\<lambda>c. (cp_user c, cp_capability c)) (caps i)) \<and> cp_user ` set (caps i) \<subseteq> lu_id ` set (users i)"

definition identity_ok :: "auth_db \<Rightarrow> bool" where
  "identity_ok i \<longleftrightarrow> challenges_ok i \<and> sessions_ok i \<and> users_ok i \<and> caps_ok i"

definition addresses_ok :: "address list \<Rightarrow> bool" where
  "addresses_ok t \<longleftrightarrow> distinct (map ad_id t) \<and>
     (\<forall>u. live_addresses u t \<le> MaxAddresses \<and>
          count_where (\<lambda>x. ad_user x = u \<and> ad_default x \<and> ad_deleted x = None) t \<le> 1)"

lemma inv_frame [frame_simps]:
  "identity_ok (user_audit a ac tt ti meta i) = identity_ok i"
  "identity_ok (user_emit dnow u ev meta i) = identity_ok i"
  "challenges (user_audit a ac tt ti meta i) = challenges i" "challenges (user_emit dnow u ev meta i) = challenges i"
  "sessions (user_audit a ac tt ti meta i) = sessions i" "sessions (user_emit dnow u ev meta i) = sessions i"
  "users (user_audit a ac tt ti meta i) = users i" "users (user_emit dnow u ev meta i) = users i"
  by (simp_all add: identity_ok_def challenges_ok_def sessions_ok_def users_ok_def caps_ok_def user_audit_def user_emit_def)

lemma latest_challenge_in:
  "latest_challenge phone i = Some c \<Longrightarrow> c \<in> set (challenges i) \<and> ch_phone c = phone \<and> ch_consumed c = None"
proof -
  let ?cs = "sort_key ch_created (filter (\<lambda>c. ch_phone c = phone \<and> ch_consumed c = None) (challenges i))"
  assume "latest_challenge phone i = Some c"
  then have "c \<in> set (rev ?cs)" unfolding latest_challenge_def by (cases "rev ?cs") auto
  then show ?thesis by simp
qed

definition consume :: "time \<Rightarrow> challenge \<Rightarrow> auth_db \<Rightarrow> auth_db" where
  "consume dnow c i = i\<lparr>challenges := upd_where (\<lambda>x. ch_id x = ch_id c) (\<lambda>x. x\<lparr>ch_consumed := Some dnow\<rparr>) (challenges i)\<rparr>"

lemma verifyChallenge_elim:
  assumes "verifyChallenge lib cfg now dnow phone code i = (Inr x, i1)"
  obtains (test) "isTestPhone cfg phone" "code = testOTP cfg" "i1 = i"
  | (stored) c where "\<not> isTestPhone cfg phone" "c \<in> set (challenges i)" "ch_phone c = phone" "ch_consumed c = None"
      "ch_hash c = hashCode lib cfg phone code" "now \<le> ch_expires c" "i1 = consume dnow c i"
proof (cases "isTestPhone cfg phone")
  case True
  then show ?thesis using assms test by (auto simp: verifyChallenge_def split: if_splits)
next
  case False
  then obtain c where c: "latest_challenge phone i = Some c"
    using assms by (auto simp: verifyChallenge_def split: option.splits)
  show ?thesis
    using assms False c latest_challenge_in[OF c] stored[of c]
    by (auto simp: verifyChallenge_def consume_def split: if_splits)
qed

lemma consume_frame [frame_simps]:
  "sessions (consume dnow c i) = sessions i" "users (consume dnow c i) = users i"
  "caps (consume dnow c i) = caps i" "books (consume dnow c i) = books i"
  by (simp_all add: consume_def)

lemma login_user_elim:
  assumes "login_user dnow u phone locale i = (Inr (user, isNew), i')"
  obtains (found) x where "x \<in> set (users i)" "lu_phone x = Some phone" "lu_status x = Active" "user = lu_id x"
      "\<not> isNew" "i' = i"
  | (created) loc b where "u \<notin> lu_id ` set (users i)" "\<forall>x \<in> set (users i). lu_phone x \<noteq> Some phone" "user = u" "isNew"
      "(u, ''CUSTOMER'') \<notin> (\<lambda>c. (cp_user c, cp_capability c)) ` set (caps i)"
      "set (accounts (books i)) \<subseteq> set (accounts b)" "UserWalletCode u \<in> ac_code ` set (accounts b)"
      "i' = i\<lparr>users := users i @ [new_user dnow u phone loc],
              caps := caps i @ [\<lparr>cp_user = u, cp_capability = ''CUSTOMER'', cp_revoked = None\<rparr>], books := b\<rparr>"
proof (cases "find (\<lambda>x. lu_phone x = Some phone) (users i)")
  case (Some x)
  then show ?thesis using assms found[of x] find_SomeD[OF Some] by (auto simp: login_user_def split: if_splits)
next
  case None
  define loc where "loc = (if locale = [] then ''sq'' else locale)"
  define b where "b = EnsureAccount (UserWalletCode u) ''user'' (Some u) ''liability'' ''EUR'' (books i)"
  let ?b' = "b\<lparr>outbox := Emit dnow ''user'' u ''UserCreated'' [(''user_id'', JStr u), (''locale'', JStr loc)] (outbox b)\<rparr>"
  have sub: "set (accounts (books i)) \<subseteq> set (accounts ?b')" by (auto simp: b_def EnsureAccount_def Let_def)
  have wal: "UserWalletCode u \<in> ac_code ` set (accounts ?b')" using EnsureAccount_exists by (simp add: b_def) (metis imageI)
  have e: "(if exists_where (\<lambda>x. lu_id x = u) (users i) then (Inl PgUnique, i)
             else if loc \<notin> {''sq'', ''en'', ''de''} then (Inl PgCheck, i)
             else if exists_where (\<lambda>c. cp_user c = u \<and> cp_capability c = ''CUSTOMER'') (caps i) then (Inl PgUnique, i)
             else (Inr (u, True), i\<lparr>users := users i @ [new_user dnow u phone loc],
                     caps := caps i @ [\<lparr>cp_user = u, cp_capability = ''CUSTOMER'', cp_revoked = None\<rparr>], books := ?b'\<rparr>))
           = (Inr (user, isNew), i')"
    using assms unfolding login_user_def None option.case Let_def loc_def[symmetric] b_def[symmetric] .
  have g: "\<not> exists_where (\<lambda>x. lu_id x = u) (users i)"
    "\<not> exists_where (\<lambda>c. cp_user c = u \<and> cp_capability c = ''CUSTOMER'') (caps i)"
    and r: "user = u" "isNew" "i' = i\<lparr>users := users i @ [new_user dnow u phone loc],
                     caps := caps i @ [\<lparr>cp_user = u, cp_capability = ''CUSTOMER'', cp_revoked = None\<rparr>], books := ?b'\<rparr>"
    using e by (simp_all split: if_split_asm) auto
  have "u \<notin> lu_id ` set (users i)" "(u, ''CUSTOMER'') \<notin> (\<lambda>c. (cp_user c, cp_capability c)) ` set (caps i)"
    using g by (auto simp: exists_where_iff)
  moreover have "\<forall>x \<in> set (users i). lu_phone x \<noteq> Some phone" using None by (simp add: find_None_iff_all)
  ultimately show ?thesis using created[OF _ _ r(1,2) _ sub wal r(3)] by blast
qed

text \<open>What a successful sign-in does.\<close>

lemma VerifyOTP_elim:
  assumes "VerifyOTP lib cfg now dnow u sid jti tok phone code locale dev i = (Inr pair, i')"
  obtains i1 i2 user isNew i3 acc where "PhoneValid phone"
    "verifyChallenge lib cfg now dnow phone code i = (Inr (), i1)"
    "login_user dnow u phone locale i1 = (Inr (user, isNew), i2)"
    "i3 = (if isTestAdmin cfg phone then i2\<lparr>caps := grant_new user ''SUPER_ADMIN'' (caps i2)\<rparr> else i2)"
    "sid \<notin> se_id ` set (sessions i2)" "Platform dev \<in> {''ios'', ''android'', ''web''}"
    "IssueAccess lib user sid (loadCapabilities lib user i3) now jti = Inr acc"
    "pair = \<lparr>AccessToken = acc, RefreshToken = tok, TokExpires = now + AccessTokenTTL, TokUser = user, IsNewUser = isNew\<rparr>"
    "i' = audit_login dev isNew user sid (i3\<lparr>sessions := sessions i2 @ [\<lparr>se_id = sid, se_user = user, se_device = DeviceID dev,
              se_device_name = nullable (DeviceName dev), se_platform = Platform dev, se_hash = HashToken lib tok,
              se_expires = now + RefreshTokenTTL, se_seen = dnow, se_revoked = None, se_created = dnow\<rparr>]\<rparr>)"
proof -
  have v: "PhoneValid phone" and tx: "verify_tx lib cfg now dnow u sid jti tok phone code locale dev i = (Inr pair, i')"
    using assms by (auto simp: VerifyOTP_def begin_func_commit split: if_splits)
  obtain i1 where i1: "verifyChallenge lib cfg now dnow phone code i = (Inr (), i1)"
    using tx by (auto simp: verify_tx_def split: prod.splits sum.splits)
  obtain user isNew i2 where i2: "login_user dnow u phone locale i1 = (Inr (user, isNew), i2)"
    using tx i1 by (auto simp: verify_tx_def split: prod.splits sum.splits)
  define i3 where "i3 = (if isTestAdmin cfg phone then i2\<lparr>caps := grant_new user ''SUPER_ADMIN'' (caps i2)\<rparr> else i2)"
  have ss: "sessions i3 = sessions i2" by (simp add: i3_def)
  have tx3: "(case open_session lib now dnow sid tok dev user i3 of
      (Inl e, s4) \<Rightarrow> (Inl e, s4)
    | (Inr _, s4) \<Rightarrow>
        (case IssueAccess lib user sid (loadCapabilities lib user s4) now jti of
           Inl e \<Rightarrow> (Inl e, s4)
         | Inr acc \<Rightarrow> (Inr \<lparr>AccessToken = acc, RefreshToken = tok, TokExpires = now + AccessTokenTTL,
                          TokUser = user, IsNewUser = isNew\<rparr>, audit_login dev isNew user sid s4))) = (Inr pair, i')"
    using tx unfolding verify_tx_def i1 i2 prod.case sum.case Let_def i3_def[symmetric] .
  let ?i4 = "i3\<lparr>sessions := sessions i2 @ [\<lparr>se_id = sid, se_user = user, se_device = DeviceID dev,
              se_device_name = nullable (DeviceName dev), se_platform = Platform dev, se_hash = HashToken lib tok,
              se_expires = now + RefreshTokenTTL, se_seen = dnow, se_revoked = None, se_created = dnow\<rparr>]\<rparr>"
  have g: "sid \<notin> se_id ` set (sessions i2)" "Platform dev \<in> {''ios'', ''android'', ''web''}"
    and i4: "open_session lib now dnow sid tok dev user i3 = (Inr (), ?i4)"
    using tx3 by (auto simp: open_session_def exists_where_iff ss image_iff split: if_splits)
  have lc: "loadCapabilities lib user ?i4 = loadCapabilities lib user i3" by (simp add: loadCapabilities_def)
  obtain acc where acc: "IssueAccess lib user sid (loadCapabilities lib user i3) now jti = Inr acc"
    using tx3 unfolding i4 prod.case sum.case lc by (auto split: sum.splits)
  show ?thesis
    using tx3 unfolding i4 prod.case sum.case lc acc by (intro that[OF v i1 i2 i3_def g acc]) auto
qed

lemma Refresh_elim:
  assumes "Refresh lib now dnow jti newtok tok i = (Inr pair, i')"
  obtains x where "find (\<lambda>x. se_hash x = HashToken lib tok) (sessions i) = Some x" "se_revoked x = None" "now \<le> se_expires x"
    "i' = i\<lparr>sessions := upd_where (\<lambda>y. se_id y = se_id x)
       (\<lambda>y. y\<lparr>se_hash := HashToken lib newtok, se_expires := now + RefreshTokenTTL, se_seen := dnow\<rparr>) (sessions i)\<rparr>"
    "RefreshToken pair = newtok" "TokUser pair = se_user x"
proof -
  have tx: "refresh_tx lib now dnow jti newtok tok i = (Inr pair, i')"
    using assms by (simp add: Refresh_def begin_func_commit)
  obtain x where x: "find (\<lambda>x. se_hash x = HashToken lib tok) (sessions i) = Some x"
    using tx by (auto simp: refresh_tx_def split: option.splits)
  show ?thesis using tx x that[OF x] by (auto simp: refresh_tx_def Let_def split: if_splits sum.splits)
qed

subsection \<open>Each operation keeps it\<close>

lemma challenges_ok_consume: "challenges_ok i \<Longrightarrow> challenges_ok (consume dnow c i)"
  by (auto simp: challenges_ok_def consume_def set_upd_where)

lemma consume_ok: "identity_ok i \<Longrightarrow> identity_ok (consume dnow c i)"
  using challenges_ok_consume
  by (auto simp: identity_ok_def sessions_ok_def users_ok_def caps_ok_def frame_simps)

lemma verifyChallenge_ok:
  "verifyChallenge lib cfg now dnow phone code i = (Inr x, i1) \<Longrightarrow> identity_ok i \<Longrightarrow> identity_ok i1"
  by (erule verifyChallenge_elim) (auto intro: consume_ok)

lemma login_user_ok:
  assumes "login_user dnow u phone locale i = (Inr (user, isNew), i')" "identity_ok i"
  shows "identity_ok i' \<and> sessions i' = sessions i \<and> challenges i' = challenges i \<and>
    (\<exists>x \<in> set (users i'). lu_id x = user \<and> lu_status x = Active)"
  using assms(1)
proof (cases rule: login_user_elim)
  case found
  then show ?thesis using assms(2) by auto
next
  case (created loc b)
  have c: "challenges_ok i'" using assms(2) created(8) by (simp add: identity_ok_def challenges_ok_def)
  have "sessions_ok i" using assms(2) by (simp add: identity_ok_def)
  then have s: "sessions_ok i'" unfolding created(8) sessions_ok_def by auto
  have ids: "distinct (map lu_id (users i'))"
    using assms(2) created(1,8) by (auto simp: identity_ok_def users_ok_def new_user_def)
  have n: "lu_phone (new_user dnow u phone loc) = Some phone" "lu_id (new_user dnow u phone loc) = u"
    "lu_status (new_user dnow u phone loc) = Active" by (simp_all add: new_user_def)
  have us: "set (users i') = insert (new_user dnow u phone loc) (set (users i))" by (simp add: created(8))
  have "unique_index lu_id lu_phone (users i)" using assms(2) by (simp add: identity_ok_def users_ok_def)
  then have ph: "unique_index lu_id lu_phone (users i')"
    unfolding created(8) by (simp, intro unique_index_append) (use created(2) n(1) in auto)
  have w: "\<forall>x \<in> set (users i'). UserWalletCode (lu_id x) \<in> ac_code ` set (accounts (books i'))"
    using assms(2) created(6,7) unfolding created(8) identity_ok_def users_ok_def new_user_def by simp blast
  have k: "caps_ok i'"
    using assms(2) created(5,8) by (auto simp: identity_ok_def caps_ok_def new_user_def)
  have ok: "users_ok i'" unfolding users_ok_def using ids ph w by blast
  have "\<exists>x \<in> set (users i'). lu_id x = user \<and> lu_status x = Active" unfolding us using n created(3) by blast
  moreover have "sessions i' = sessions i" "challenges i' = challenges i" by (simp_all add: created(8))
  ultimately show ?thesis unfolding identity_ok_def using c s ok k by blast
qed

lemma grant_new_ok:
  "caps_ok i \<Longrightarrow> u \<in> lu_id ` set (users i) \<Longrightarrow> caps_ok (i\<lparr>caps := grant_new u c (caps i)\<rparr>)"
  by (auto simp: caps_ok_def grant_new_def exists_where_iff)

lemma grant_ok:
  "identity_ok i \<Longrightarrow> u \<in> lu_id ` set (users i) \<Longrightarrow> identity_ok (i\<lparr>caps := grant_new u c (caps i)\<rparr>)"
  using grant_new_ok by (auto simp: identity_ok_def challenges_ok_def sessions_ok_def users_ok_def)

lemma new_session_ok:
  assumes "identity_ok i" "x \<in> set (users i)" "lu_status x = Active" "lu_id x = se_user y" "se_id y \<notin> se_id ` set (sessions i)"
  shows "identity_ok (i\<lparr>sessions := sessions i @ [y]\<rparr>)"
  using assms by (auto simp: identity_ok_def challenges_ok_def sessions_ok_def users_ok_def caps_ok_def)

lemma audit_login_ok [simp]: "identity_ok (audit_login dev n u sid i) = identity_ok i"
  by (simp add: identity_ok_def challenges_ok_def sessions_ok_def users_ok_def caps_ok_def audit_login_def)

lemma VerifyOTP_ok:
  assumes "VerifyOTP lib cfg now dnow u sid jti tok phone code locale dev i = (Inr pair, i')" "identity_ok i"
  shows "identity_ok i'"
proof -
  from assms(1) obtain i1 i2 user isNew i3 acc where
      1: "verifyChallenge lib cfg now dnow phone code i = (Inr (), i1)"
    and 2: "login_user dnow u phone locale i1 = (Inr (user, isNew), i2)"
    and 3: "i3 = (if isTestAdmin cfg phone then i2\<lparr>caps := grant_new user ''SUPER_ADMIN'' (caps i2)\<rparr> else i2)"
    and 4: "sid \<notin> se_id ` set (sessions i2)"
    and 5: "i' = audit_login dev isNew user sid (i3\<lparr>sessions := sessions i2 @ [\<lparr>se_id = sid, se_user = user, se_device = DeviceID dev,
              se_device_name = nullable (DeviceName dev), se_platform = Platform dev, se_hash = HashToken lib tok,
              se_expires = now + RefreshTokenTTL, se_seen = dnow, se_revoked = None, se_created = dnow\<rparr>]\<rparr>)"
    by (elim VerifyOTP_elim)
  have i2: "identity_ok i2" using login_user_ok[OF 2] verifyChallenge_ok[OF 1 assms(2)] by blast
  obtain x where x: "x \<in> set (users i2)" "lu_id x = user" "lu_status x = Active"
    using login_user_ok[OF 2] verifyChallenge_ok[OF 1 assms(2)] by blast
  have i3: "identity_ok i3" "users i3 = users i2" "sessions i3 = sessions i2"
    using i2 x(1,2) grant_ok[OF i2, of user] by (auto simp: 3)
  show ?thesis unfolding 5 using new_session_ok[OF i3(1), of x] x 4 i3 by simp
qed

lemma RequestOTP_elim:
  assumes "RequestOTP lib cfg up send now dnow j n phone ip locale (r, i) = (res, r', i')"
  obtains (same) "i' = i"
  | (stored) "j \<notin> ch_id ` set (challenges i)" "\<not> isTestPhone cfg phone" "PhoneValid phone"
      "i' = i\<lparr>challenges := challenges i @ [\<lparr>ch_id = j, ch_phone = phone, ch_hash = hashCode lib cfg phone (randomCode n),
          ch_attempts = 0, ch_expires = now + otpTTL, ch_consumed = None, ch_created = dnow\<rparr>]\<rparr>"
proof -
  obtain e1 r1 where a: "rateLimit up now (''rl:otp:phone:'' @ phone) rlPerPhone r = (e1, r1)" by fastforce
  obtain e2 r2 where b: "(if ip = [] then (None, r1) else rateLimit up now (''rl:otp:ip:'' @ ip) rlPerIP r1) = (e2, r2)" by fastforce
  show ?thesis
  proof (cases "PhoneValid phone \<and> e1 = None \<and> e2 = None \<and> \<not> isTestPhone cfg phone \<and> \<not> exists_where (\<lambda>c. ch_id c = j) (challenges i)")
    case True
    then show ?thesis
      using assms stored unfolding RequestOTP_def prod.case a
      by (simp add: b exists_where_iff image_iff Let_def split: if_split_asm) blast+
  next
    case False
    then show ?thesis
      using assms same unfolding RequestOTP_def prod.case a
      by (cases e1; cases e2) (simp_all add: b Let_def split: if_split_asm)
  qed
qed

lemma RequestOTP_ok:
  assumes "RequestOTP lib cfg up send now dnow j n phone ip locale (r, i) = (res, r', i')" "identity_ok i"
  shows "identity_ok i'"
  using assms
  by (cases rule: RequestOTP_elim)
    (auto simp: identity_ok_def challenges_ok_def sessions_ok_def users_ok_def caps_ok_def)

lemma sessions_kept_ok:
  assumes "identity_ok i" "map se_id ss = map se_id (sessions i)"
    and "\<And>x. x \<in> set ss \<Longrightarrow> \<exists>y \<in> set (sessions i). se_user y = se_user x \<and> (se_revoked x = None \<longrightarrow> se_revoked y = None)"
  shows "identity_ok (i\<lparr>sessions := ss\<rparr>)"
proof -
  have "sessions_ok i" using assms(1) by (simp add: identity_ok_def)
  then have "sessions_ok (i\<lparr>sessions := ss\<rparr>)" unfolding sessions_ok_def using assms(2,3) by simp metis
  then show ?thesis using assms(1) by (simp add: identity_ok_def challenges_ok_def users_ok_def caps_ok_def)
qed

lemma map_se_id_upd: "(\<And>y. se_id (f y) = se_id y) \<Longrightarrow> map se_id (upd_where P f t) = map se_id t"
  by (simp add: map_upd_where)

lemma upd_sessions_ok:
  assumes "identity_ok i" "\<And>x. se_id (f x) = se_id x" "\<And>x. se_user (f x) = se_user x" "\<And>x. se_revoked (f x) = None \<Longrightarrow> se_revoked x = None"
  shows "identity_ok (i\<lparr>sessions := upd_where P f (sessions i)\<rparr>)"
  by (rule sessions_kept_ok[OF assms(1)]) (use assms(2-4) in \<open>auto simp: map_se_id_upd set_upd_where\<close>)

lemma Refresh_ok:
  assumes "Refresh lib now dnow jti newtok tok i = (Inr pair, i')" "identity_ok i"
  shows "identity_ok i'"
  by (rule Refresh_elim[OF assms(1)], simp only:) (rule upd_sessions_ok[OF assms(2)]; simp)

lemma revoke_where_ok: "identity_ok i \<Longrightarrow> identity_ok (revoke_where P dnow i)"
  unfolding revoke_where_def by (rule upd_sessions_ok) auto

lemma revoke_where_frame [frame_simps]:
  "users (revoke_where P dnow i) = users i" "caps (revoke_where P dnow i) = caps i"
  "books (revoke_where P dnow i) = books i" "challenges (revoke_where P dnow i) = challenges i"
  by (simp_all add: revoke_where_def)

lemma revoked_where: "x \<in> set (sessions (revoke_where P dnow i)) \<Longrightarrow> se_revoked x = None \<Longrightarrow> x \<in> set (sessions i) \<and> \<not> P x"
  by (auto simp: revoke_where_def set_upd_where)

text \<open>Users change their status only together with the end of their sessions.\<close>

lemma users_kept_ok:
  assumes "identity_ok i" "map lu_id us = map lu_id (users i)"
    and "\<And>u. u \<in> set us \<Longrightarrow> \<exists>v \<in> set (users i). lu_id v = lu_id u \<and> (lu_phone u \<noteq> None \<longrightarrow> lu_phone u = lu_phone v)"
    and act: "\<And>u v. u \<in> set us \<Longrightarrow> v \<in> set (users i) \<Longrightarrow> lu_id u = lu_id v \<Longrightarrow> lu_status v = Active \<Longrightarrow>
      lu_status u = Active \<or> (\<forall>x \<in> set (sessions i). se_user x = lu_id u \<longrightarrow> se_revoked x \<noteq> None)"
  shows "identity_ok (i\<lparr>users := us\<rparr>)"
proof -
  have ids: "lu_id ` set us = lu_id ` set (users i)" using assms(2) by (metis list.set_map)
  have so: "sessions_ok i" and uo: "users_ok i" and co: "challenges_ok i" and ca: "caps_ok i"
    using assms(1) by (simp_all add: identity_ok_def)
  have "sessions_ok (i\<lparr>users := us\<rparr>)"
    unfolding sessions_ok_def
  proof (intro conjI ballI)
    fix x assume "x \<in> set (sessions (i\<lparr>users := us\<rparr>))"
    then have x: "x \<in> set (sessions i)" by simp
    then obtain v where v: "v \<in> set (users i)" "lu_id v = se_user x" "se_revoked x = None \<longrightarrow> lu_status v = Active"
      using so unfolding sessions_ok_def by blast
    then obtain u where u: "u \<in> set us" "lu_id u = lu_id v" using ids by (metis imageE imageI)
    then have "lu_id u = se_user x \<and> (se_revoked x = None \<longrightarrow> lu_status u = Active)"
      using act[OF u(1) v(1) u(2)] v x by metis
    then show "\<exists>u \<in> set (users (i\<lparr>users := us\<rparr>)). lu_id u = se_user x \<and> (se_revoked x = None \<longrightarrow> lu_status u = Active)"
      using u(1) by auto
  qed (use so in \<open>simp add: sessions_ok_def\<close>)
  moreover have "unique_index lu_id lu_phone us"
    unfolding unique_index_def
  proof (intro ballI impI)
    fix u v assume uv: "u \<in> set us" "v \<in> set us" "lu_phone u \<noteq> None" "lu_phone u = lu_phone v"
    obtain u' v' where "u' \<in> set (users i)" "lu_id u' = lu_id u" "lu_phone u' = lu_phone u"
      "v' \<in> set (users i)" "lu_id v' = lu_id v" "lu_phone v' = lu_phone v"
      using assms(3)[OF uv(1)] assms(3)[OF uv(2)] uv(3,4) by metis
    then show "lu_id u = lu_id v" using uo uv(3,4) unfolding users_ok_def unique_index_def by metis
  qed
  moreover have "\<forall>u \<in> set us. UserWalletCode (lu_id u) \<in> ac_code ` set (accounts (books i))"
    using uo ids unfolding users_ok_def by (metis imageE imageI)
  ultimately show ?thesis
    using co ca uo assms(2) ids by (simp add: identity_ok_def challenges_ok_def caps_ok_def users_ok_def)
qed

lemma deactivate_ok:
  assumes "identity_ok i" "\<And>x. P x \<Longrightarrow> lu_id x = user" "\<And>x. lu_id (f x) = lu_id x"
    and "\<And>x. lu_phone (f x) = None \<or> lu_phone (f x) = lu_phone x"
  shows "identity_ok (revoke_where (\<lambda>x. se_user x = user) dnow (i\<lparr>users := upd_where P f (users i)\<rparr>))"
proof -
  have swap: "revoke_where Q dnow (i\<lparr>users := us\<rparr>) = (revoke_where Q dnow i)\<lparr>users := us\<rparr>" for Q us
    by (simp add: revoke_where_def)
  show ?thesis
  unfolding swap
proof (rule users_kept_ok[OF revoke_where_ok[OF assms(1)]], unfold revoke_where_frame)
  have d: "distinct (map lu_id (users i))" using assms(1) by (simp add: identity_ok_def users_ok_def)
  fix u v assume uv: "u \<in> set (upd_where P f (users i))" "v \<in> set (users i)" "lu_id u = lu_id v" "lu_status v = Active"
  show "lu_status u = Active \<or>
    (\<forall>x \<in> set (sessions (revoke_where (\<lambda>x. se_user x = user) dnow i)). se_user x = lu_id u \<longrightarrow> se_revoked x \<noteq> None)"
  proof (cases "lu_id u = user")
    case True
    then show ?thesis using revoked_where[of _ "\<lambda>x. se_user x = user" dnow i] by blast
  next
    case False
    then have "u \<in> set (users i)" using uv(1) assms(2,3) by (auto simp: set_upd_where)
    then show ?thesis using distinct_keyD[OF d _ uv(2,3)] uv(4) by blast
  qed
next
  fix u assume "u \<in> set (upd_where P f (users i))"
  then obtain x where "x \<in> set (users i)" "u = f x \<or> u = x" by (auto simp: set_upd_where)
  then show "\<exists>v \<in> set (users i). lu_id v = lu_id u \<and> (lu_phone u \<noteq> None \<longrightarrow> lu_phone u = lu_phone v)"
    using assms(3)[of x] assms(4)[of x] by (intro bexI[of _ x]) auto
qed (simp add: map_upd_where assms(3))
qed

lemma Block_ok:
  assumes "Block dnow ops user reason b i = (res, i')" "identity_ok i"
  shows "identity_ok i'"
proof (cases "b \<and> reason = []")
  case True
  then show ?thesis using assms by (simp add: Block_def)
next
  case False
  let ?P = "\<lambda>x. lu_id x = user \<and> lu_status x = Active"
  let ?f = "\<lambda>x. x\<lparr>lu_status := Blocked, lu_blocked_reason := Some reason, lu_updated := dnow\<rparr>"
  let ?vs = "upd_where (\<lambda>x. lu_id x = user \<and> lu_status x = Blocked)
    (\<lambda>x. x\<lparr>lu_status := Active, lu_blocked_reason := None, lu_updated := dnow\<rparr>) (users i)"
  have e: "identity_ok i' \<longleftrightarrow> identity_ok (if b then revoke_where (\<lambda>x. se_user x = user) dnow (i\<lparr>users := upd_where ?P ?f (users i)\<rparr>)
      else i\<lparr>users := ?vs\<rparr>)"
    using assms(1) False by (auto simp: Block_def Let_def frame_simps)
  have "identity_ok (i\<lparr>users := ?vs\<rparr>)"
  proof (rule users_kept_ok[OF assms(2)])
    have d: "distinct (map lu_id (users i))" using assms(2) by (simp add: identity_ok_def users_ok_def)
    fix u v assume uv: "u \<in> set ?vs" "v \<in> set (users i)" "lu_id u = lu_id v" "lu_status v = Active"
    have "lu_status u = Active \<or> u \<in> set (users i)" using uv(1) by (auto simp: set_upd_where)
    then show "lu_status u = Active \<or> (\<forall>x \<in> set (sessions i). se_user x = lu_id u \<longrightarrow> se_revoked x \<noteq> None)"
      using distinct_keyD[OF d _ uv(2,3)] uv(4) by blast
  qed (auto simp: set_upd_where)
  then show ?thesis unfolding e using deactivate_ok[OF assms(2), of ?P user ?f dnow] by simp
qed

lemma books_ok:
  "identity_ok i \<Longrightarrow> set (accounts (books i)) \<subseteq> set (accounts b) \<Longrightarrow> identity_ok (i\<lparr>books := b\<rparr>)"
  unfolding identity_ok_def challenges_ok_def sessions_ok_def users_ok_def caps_ok_def by simp blast

lemma EnsureAccount_accounts: "set (accounts c) \<subseteq> set (accounts (EnsureAccount k ot oi kd cur c))"
  by (auto simp: EnsureAccount_def Let_def)

lemma DeleteAccount_identity:
  assumes "DeleteAccount lib dnow a s = (res, s')" "identity_ok (identity s)"
  shows "identity_ok (identity s')"
proof -
  let ?i = "identity s"
  let ?b = "EnsureAccount (UserWalletCode (ActorUser a)) ''user'' (Some (ActorUser a)) ''liability'' ''EUR'' (books ?i)"
  let ?s1 = "s\<lparr>identity := ?i\<lparr>books := ?b\<rparr>\<rparr>"
  have 1: "identity_ok (identity ?s1)" using books_ok[OF assms(2) EnsureAccount_accounts] by simp
  have tx: "identity_ok (identity t)" if t: "delete_account_tx lib dnow a ?s1 = (Inr x, t)" for x t
  proof -
    let ?f = "\<lambda>y. y\<lparr>lu_status := Deleted, lu_phone := None, lu_email := None, lu_name := None, lu_updated := dnow\<rparr>"
    have "identity_ok (identity t) = identity_ok (revoke_where (\<lambda>x. se_user x = ActorUser a) dnow
        ((identity ?s1)\<lparr>users := upd_where (\<lambda>y. lu_id y = ActorUser a) ?f (users (identity ?s1))\<rparr>))"
      using t by (auto simp: delete_account_tx_def Let_def frame_simps split: option.splits)
    then show ?thesis using deactivate_ok[OF 1, of "\<lambda>y. lu_id y = ActorUser a" "ActorUser a" ?f dnow] by simp
  qed
  have "identity_ok (identity (snd (begin_func (delete_account_tx lib dnow a) ?s1)))"
    by (rule snd_begin_func_inv) (use 1 tx in auto)
  then show ?thesis
    using assms(1) 1 by (auto simp: DeleteAccount_def Let_def split: sum.splits if_splits)
qed

lemma BootstrapAdmin_ok:
  assumes "BootstrapAdmin phone i = (res, i')" "identity_ok i"
  shows "identity_ok i'"
proof -
  have "i' = i \<or> (\<exists>x \<in> set (users i). i' = i\<lparr>caps := grant_new (lu_id x) ''SUPER_ADMIN'' (caps i)\<rparr>)"
    using assms(1) by (auto simp: BootstrapAdmin_def begin_func_def split: if_splits option.splits dest: find_SomeD)
  then show ?thesis using assms(2) grant_ok[OF assms(2)] by auto
qed

lemma UpdateProfile_ok:
  assumes "UpdateProfile uni dnow a inp i = (res, i')" "identity_ok i"
  shows "identity_ok i'"
proof -
  have d: "distinct (map lu_id (users i))" using assms(2) by (simp add: identity_ok_def users_ok_def)
  have tx: "identity_ok t" if t: "update_profile_tx dnow a inp nm em i = (Inr x', t)" for nm em x' t
  proof -
    obtain x where x: "find (\<lambda>x. lu_id x = ActorUser a \<and> lu_status x = Active) (users i) = Some x"
      using t by (auto simp: update_profile_tx_def split: option.splits)
    have x': "lu_id x' = lu_id x" "lu_phone x' = lu_phone x" "lu_status x' = Active"
      and e: "identity_ok t \<longleftrightarrow> identity_ok (i\<lparr>users := upd_where (\<lambda>y. lu_id y = lu_id x) (\<lambda>_. x') (users i)\<rparr>)"
      using t x find_SomeD[OF x] by (auto simp: update_profile_tx_def Let_def frame_simps split: if_splits)
    show ?thesis
      unfolding e
    proof (rule users_kept_ok[OF assms(2)])
      fix u v assume uv: "u \<in> set (upd_where (\<lambda>y. lu_id y = lu_id x) (\<lambda>_. x') (users i))" "v \<in> set (users i)"
        "lu_id u = lu_id v" "lu_status v = Active"
      have "lu_status u = Active \<or> u \<in> set (users i)" using uv(1) x'(3) by (auto simp: set_upd_where)
      then show "lu_status u = Active \<or> (\<forall>x \<in> set (sessions i). se_user x = lu_id u \<longrightarrow> se_revoked x \<noteq> None)"
        using distinct_keyD[OF d _ uv(2,3)] uv(4) by blast
    next
      fix u assume "u \<in> set (upd_where (\<lambda>y. lu_id y = lu_id x) (\<lambda>_. x') (users i))"
      then show "\<exists>v \<in> set (users i). lu_id v = lu_id u \<and> (lu_phone u \<noteq> None \<longrightarrow> lu_phone u = lu_phone v)"
        using x' find_SomeD[OF x] by (auto simp: set_upd_where)
    next
      show "map lu_id (upd_where (\<lambda>y. lu_id y = lu_id x) (\<lambda>_. x') (users i)) = map lu_id (users i)"
        using x'(1) by (simp add: upd_where_def)
    qed
  qed
  have "identity_ok (snd (begin_func (update_profile_tx dnow a inp nm em) i))" for nm em
    by (rule snd_begin_func_inv) (use assms(2) tx in auto)
  then have "identity_ok (snd (UpdateProfile uni dnow a inp i))" using assms(2) by (simp add: UpdateProfile_def Let_def)
  then show ?thesis using assms(1) by simp
qed

subsection \<open>Saved addresses\<close>

text \<open>The number of rows of a user that count for the two limits, for a change of rows.\<close>

definition defaults :: "uuid \<Rightarrow> address list \<Rightarrow> nat" where
  "defaults u = count_where (\<lambda>x. ad_user x = u \<and> ad_default x \<and> ad_deleted x = None)"

lemma count_where_upd_le:
  "(\<And>x. x \<in> set t \<Longrightarrow> P x \<Longrightarrow> Q (f x) \<Longrightarrow> Q x) \<Longrightarrow> count_where Q (upd_where P f t) \<le> count_where Q t"
  by (induction t) (auto simp: table_simps)

lemma clearDefault_frame:
  "live_addresses u (clearDefault dnow v t) = live_addresses u t"
  "map ad_id (clearDefault dnow v t) = map ad_id t"
  "defaults u (clearDefault dnow v t) = (if u = v then 0 else defaults u t)"
proof -
  show "live_addresses u (clearDefault dnow v t) = live_addresses u t"
    by (induction t) (auto simp: table_simps live_addresses_def clearDefault_def)
  show "map ad_id (clearDefault dnow v t) = map ad_id t" by (simp add: clearDefault_def map_upd_where)
  show "defaults u (clearDefault dnow v t) = (if u = v then 0 else defaults u t)"
    by (induction t) (auto simp: table_simps defaults_def clearDefault_def)
qed

lemma addresses_ok_defaults: "addresses_ok t \<longleftrightarrow> distinct (map ad_id t) \<and> (\<forall>u. live_addresses u t \<le> MaxAddresses \<and> defaults u t \<le> 1)"
  by (simp add: addresses_ok_def defaults_def)

text \<open>These operations leave all tables of the module \<open>auth\<close> alone, except the audit log and the outbox.\<close>

definition logs_only :: "auth_db \<Rightarrow> auth_db \<Rightarrow> bool" where
  "logs_only i i' \<longleftrightarrow> challenges i' = challenges i \<and> sessions i' = sessions i \<and> users i' = users i \<and>
     caps i' = caps i \<and> accounts (books i') = accounts (books i)"

lemma logs_only_simps [simp]:
  "logs_only i i" "logs_only i (user_audit a ac tt ti m i') \<longleftrightarrow> logs_only i i'" "logs_only i (user_emit dnow u ev m i') \<longleftrightarrow> logs_only i i'"
  by (auto simp: logs_only_def user_audit_def user_emit_def)

lemma logs_only_ok: "logs_only i i' \<Longrightarrow> identity_ok i \<Longrightarrow> identity_ok i'"
  unfolding logs_only_def identity_ok_def challenges_ok_def sessions_ok_def users_ok_def caps_ok_def by metis

lemma create_address_ok:
  assumes t: "create_address_tx dnow i a inp s = (Inr x, t)" and ok: "addresses_ok (addresses s)"
  shows "addresses_ok (addresses t) \<and> logs_only (identity s) (identity t)"
proof -
  define d where "d = (live_addresses (ActorUser a) (addresses s) = 0 \<or> aiDefault inp)"
  define c where "c = (if d then clearDefault dnow (ActorUser a) (addresses s) else addresses s)"
  let ?x = "new_address dnow i (ActorUser a) d inp"
  have n: "live_addresses (ActorUser a) (addresses s) < MaxAddresses" "i \<notin> ad_id ` set c" "addresses t = c @ [?x]"
    "logs_only (identity s) (identity t)" "d \<longrightarrow> \<not> default_taken i (ActorUser a) c"
    using t unfolding create_address_tx_def Let_def d_def[symmetric] c_def[symmetric]
    by (auto simp: exists_where_iff split: if_split_asm)
  have live: "live_addresses u (c @ [?x]) = live_addresses u (addresses s) + (if u = ActorUser a then 1 else 0)" for u
    using clearDefault_frame(1)[of u dnow "ActorUser a" "addresses s"]
    by (auto simp: c_def live_addresses_def table_simps new_address_def)
  have def1: "defaults u (addresses s) \<le> 1" for u using ok by (simp add: addresses_ok_defaults)
  have "defaults u (c @ [?x]) = defaults u c + (if u = ActorUser a \<and> d then 1 else 0)" for u
    by (simp add: defaults_def table_simps new_address_def)
  moreover have "defaults u c \<le> 1" "d \<Longrightarrow> defaults (ActorUser a) c = 0" for u
    using def1[of u] by (simp_all add: c_def clearDefault_frame)
  ultimately have "defaults u (c @ [?x]) \<le> 1" for u by (cases "u = ActorUser a \<and> d") auto
  moreover have "map ad_id c = map ad_id (addresses s)" by (simp add: c_def clearDefault_frame)
  moreover have "live_addresses u (addresses s) \<le> MaxAddresses" for u using ok by (simp add: addresses_ok_defaults)
  ultimately show ?thesis
    using n live ok by (auto simp: addresses_ok_defaults new_address_def simp flip: set_map)
qed

lemma update_address_ok:
  assumes t: "update_address_tx dnow a i inp s = (Inr x, t)" and ok: "addresses_ok (addresses s)"
  shows "addresses_ok (addresses t) \<and> logs_only (identity s) (identity t)"
proof -
  define c where "c = (if aiDefault inp then clearDefault dnow (ActorUser a) (addresses s) else addresses s)"
  let ?mine = "\<lambda>x. ad_id x = i \<and> ad_user x = ActorUser a \<and> ad_deleted x = None"
  let ?f = "fill_address inp (aiDefault inp) dnow"
  obtain y where y: "find ?mine c = Some y"
    using t by (auto simp: update_address_tx_def Let_def c_def[symmetric] split: option.splits)
  have n: "addresses t = upd_where ?mine ?f c" "logs_only (identity s) (identity t)"
    using t y by (auto simp: update_address_tx_def Let_def c_def[symmetric] split: if_split_asm)
  have ids: "map ad_id c = map ad_id (addresses s)" by (simp add: c_def clearDefault_frame)
  have d: "distinct (map ad_id c)" using ok ids by (simp add: addresses_ok_defaults)
  have live: "live_addresses u (upd_where ?mine ?f c) = live_addresses u (addresses s)" for u
  proof -
    have "live_addresses u (upd_where ?mine ?f c) = live_addresses u c"
      by (induction c) (auto simp: table_simps live_addresses_def fill_address_def)
    then show ?thesis by (simp add: c_def clearDefault_frame)
  qed
  have "defaults u (upd_where ?mine ?f c) \<le> 1" for u
  proof (cases "aiDefault inp \<and> u = ActorUser a")
    case True
    have 0: "defaults u c = 0" using True by (simp add: c_def clearDefault_frame)
    have "defaults u (upd_where ?mine ?f c) \<le> count_where (\<lambda>x. ad_id x = i) c"
      using 0 by (induction c) (auto simp: table_simps defaults_def fill_address_def)
    also have "\<dots> \<le> 1"
      using d
    proof (induction c)
      case (Cons y ys)
      then have "ad_id y = i \<Longrightarrow> count_where (\<lambda>x. ad_id x = i) ys = 0" by (auto simp: count_where_0_iff image_iff)
      then show ?case using Cons by (auto simp: table_simps)
    qed (simp add: table_simps)
    finally show ?thesis .
  next
    case False
    have "defaults u (upd_where ?mine ?f c) \<le> defaults u c"
      unfolding defaults_def using False by (intro count_where_upd_le) (auto simp: fill_address_def)
    also have "\<dots> \<le> 1" using ok by (simp add: c_def clearDefault_frame addresses_ok_defaults)
    finally show ?thesis .
  qed
  moreover have "map ad_id (upd_where ?mine ?f c) = map ad_id c" by (simp add: map_upd_where fill_address_def)
  ultimately show ?thesis using n live ids ok by (simp add: addresses_ok_defaults)
qed

lemma address_calls_ok:
  assumes "addresses_ok (addresses s)"
  shows "CreateAddress dnow i a inp s = (res, s') \<Longrightarrow> addresses_ok (addresses s') \<and> logs_only (identity s) (identity s')"
    and "UpdateAddress dnow a i inp s = (res, s') \<Longrightarrow> addresses_ok (addresses s') \<and> logs_only (identity s) (identity s')"
proof -
  let ?P = "\<lambda>s'. addresses_ok (addresses s') \<and> logs_only (identity s) (identity s')"
  have "?P (snd (begin_func (create_address_tx dnow i a inp') s))" "?P (snd (begin_func (update_address_tx dnow a i inp') s))" for inp'
    by (rule snd_begin_func_inv; use assms create_address_ok update_address_ok in simp; blast)+
  then have "?P (snd (CreateAddress dnow i a inp s))" "?P (snd (UpdateAddress dnow a i inp s))"
    using assms by (auto simp: CreateAddress_def UpdateAddress_def split: sum.split)
  then show "CreateAddress dnow i a inp s = (res, s') \<Longrightarrow> ?P s'" "UpdateAddress dnow a i inp s = (res, s') \<Longrightarrow> ?P s'" by simp_all
qed

lemma addresses_drop_ok:
  assumes "addresses_ok t" "\<And>x. ad_id (f x) = ad_id x" "\<And>x. ad_deleted (f x) \<noteq> None"
  shows "addresses_ok (upd_where P f t)"
proof -
  have "live_addresses u (upd_where P f t) \<le> live_addresses u t" "defaults u (upd_where P f t) \<le> defaults u t" for u
    unfolding live_addresses_def defaults_def using assms(3) by (intro count_where_upd_le; auto)+
  then show ?thesis
    using assms(1,2) unfolding addresses_ok_defaults by (simp add: map_upd_where) (meson le_trans)
qed

lemma DeleteAddress_ok:
  assumes "DeleteAddress dnow a i s = (res, s')" "addresses_ok (addresses s)"
  shows "addresses_ok (addresses s') \<and> logs_only (identity s) (identity s')"
  using assms by (auto simp: DeleteAddress_def begin_func_def Let_def intro!: addresses_drop_ok split: if_splits)

lemma SetPreferences_ok:
  "SetPreferences a ps s = (res, s') \<Longrightarrow> addresses s' = addresses s \<and> logs_only (identity s) (identity s')"
  by (auto simp: SetPreferences_def Let_def split: prod.splits if_splits)

lemma DeleteAccount_addresses:
  assumes "DeleteAccount lib dnow a s = (res, s')" "addresses_ok (addresses s)"
  shows "addresses_ok (addresses s')"
  using assms
  by (auto simp: DeleteAccount_def Let_def delete_account_tx_def begin_func_def intro!: addresses_drop_ok
      split: sum.splits if_splits option.splits)

lemma run_ok:
  "auth_run lib cfg evs r s \<Longrightarrow> identity_ok (identity s) \<and> addresses_ok (addresses s)"
proof (induction rule: auth_run.induct)
  case (start r c)
  show ?case
    by (simp add: identity_ok_def challenges_ok_def sessions_ok_def users_ok_def unique_index_def caps_ok_def
        addresses_ok_def live_addresses_def table_simps)
next
  case (others evs r s cs b)
  then have "identity_ok ((identity s)\<lparr>books := b\<rparr>)" using books_ok by blast
  then show ?case
    using others by (simp add: identity_ok_def challenges_ok_def sessions_ok_def users_ok_def caps_ok_def)
next
  case (add_address evs r s dnow i a inp' res s')
  then show ?case using address_calls_ok(1) logs_only_ok by blast
next
  case (set_address evs r s dnow a i inp' res s')
  then show ?case using address_calls_ok(2) logs_only_ok by blast
next
  case (delete_address evs r s dnow a i res s')
  then show ?case using DeleteAddress_ok logs_only_ok by blast
next
  case (prefs evs r s a ps res s')
  then show ?case using SetPreferences_ok logs_only_ok by metis
next
  case (delete evs r s dnow a res s')
  then show ?case using DeleteAccount_identity DeleteAccount_addresses by blast
next
  case (revoke_device evs r s dnow a sid res i')
  then show ?case
    by (auto simp: RevokeSession_def begin_func_def frame_simps intro!: revoke_where_ok split: if_splits)
qed (auto intro: RequestOTP_ok VerifyOTP_ok Refresh_ok Block_ok BootstrapAdmin_ok UpdateProfile_ok
       simp: Logout_def RevokeAll_def intro!: revoke_where_ok)

section \<open>What a run leaves behind\<close>

definition issued :: "string \<Rightarrow> string \<Rightarrow> auth_event list \<Rightarrow> nat" where
  "issued phone code evs = length (filter (\<lambda>e. e = CodeIssued phone code) evs)"

definition sign_ins :: "string \<Rightarrow> string \<Rightarrow> auth_event list \<Rightarrow> nat" where
  "sign_ins phone code evs = length (filter (\<lambda>e. \<exists>sid. e = SignedIn phone code sid) evs)"

text \<open>No code that is generated for the number collides with the given one.\<close>

definition no_collision :: "auth_lib \<Rightarrow> auth_cfg \<Rightarrow> string \<Rightarrow> string \<Rightarrow> bool" where
  "no_collision lib cfg phone code \<longleftrightarrow>
     (\<forall>n < 1000000. hashCode lib cfg phone (randomCode n) = hashCode lib cfg phone code \<longrightarrow> randomCode n = code)"

definition matching :: "auth_lib \<Rightarrow> auth_cfg \<Rightarrow> string \<Rightarrow> string \<Rightarrow> challenge \<Rightarrow> bool" where
  "matching lib cfg phone code c \<longleftrightarrow> ch_phone c = phone \<and> ch_hash c = hashCode lib cfg phone code"

definition codes_counted :: "auth_lib \<Rightarrow> auth_cfg \<Rightarrow> auth_event list \<Rightarrow> challenge list \<Rightarrow> bool" where
  "codes_counted lib cfg evs cs \<longleftrightarrow>
     (\<forall>phone code. \<not> isTestPhone cfg phone \<longrightarrow> no_collision lib cfg phone code \<longrightarrow>
        count_where (matching lib cfg phone code) cs = issued phone code evs \<and>
        sign_ins phone code evs \<le> count_where (\<lambda>c. matching lib cfg phone code c \<and> ch_consumed c \<noteq> None) cs)"

definition tokens_dead :: "auth_lib \<Rightarrow> auth_event list \<Rightarrow> session list \<Rightarrow> bool" where
  "tokens_dead lib evs ss \<longleftrightarrow> distinct (map se_hash ss) \<and>
     (\<forall>h \<in> se_hash ` set ss. \<exists>t. TokenIssued t \<in> set evs \<and> h = HashToken lib t) \<and>
     (\<forall>t. TokenUsed t \<in> set evs \<longrightarrow> HashToken lib t \<notin> se_hash ` set ss \<and>
        (\<exists>t'. TokenIssued t' \<in> set evs \<and> HashToken lib t = HashToken lib t'))"

definition closed_dead :: "auth_event list \<Rightarrow> session list \<Rightarrow> bool" where
  "closed_dead evs ss \<longleftrightarrow> (\<forall>sid. SessionClosed sid \<in> set evs \<longleftrightarrow> (\<exists>x \<in> set ss. se_id x = sid \<and> se_revoked x \<noteq> None))"

definition trail :: "auth_lib \<Rightarrow> auth_cfg \<Rightarrow> auth_event list \<Rightarrow> auth_db \<Rightarrow> bool" where
  "trail lib cfg evs i \<longleftrightarrow> codes_counted lib cfg evs (challenges i) \<and> tokens_dead lib evs (sessions i) \<and> closed_dead evs (sessions i)"

lemma trail_same: "trail lib cfg evs i \<Longrightarrow> challenges i' = challenges i \<Longrightarrow> sessions i' = sessions i \<Longrightarrow> trail lib cfg evs i'"
  by (simp add: trail_def)

lemma no_events [simp]:
  "issued phone code (closing P i @ evs) = issued phone code evs"
  "sign_ins phone code (closing P i @ evs) = sign_ins phone code evs"
  "TokenIssued t \<in> set (closing P i)  = False" "TokenUsed t \<in> set (closing P i) = False"
  "AccessIssued acc user sid cs now \<in> set (closing P i) = False"
  "SessionClosed sid \<in> set (closing P i) \<longleftrightarrow> (\<exists>x \<in> set (sessions i). se_id x = sid \<and> P x)"
  by (auto simp: issued_def sign_ins_def closing_def filter_map comp_def)

lemma last_issue_closing [simp]: "last_issue sid (closing P i @ evs) = last_issue sid evs"
proof -
  have "last_issue sid (map (SessionClosed \<circ> se_id) xs @ evs) = last_issue sid evs" for xs by (induction xs) auto
  then show ?thesis by (simp add: closing_def)
qed

lemma trail_issue: "trail lib cfg evs i \<Longrightarrow> trail lib cfg (AccessIssued acc user sid cs now # evs) i"
  by (simp add: trail_def codes_counted_def issued_def sign_ins_def tokens_dead_def closed_dead_def)

lemma trail_request:
  assumes "trail lib cfg evs i" "n < 1000000"
    and "RequestOTP lib cfg up send now dnow j n phone ip locale (r, i) = (res, r', i')"
  shows "trail lib cfg (if challenges i' = challenges i then evs else CodeIssued phone (randomCode n) # evs) i'"
  using assms(3)
proof (cases rule: RequestOTP_elim)
  case same
  then show ?thesis using assms(1) by simp
next
  case stored
  let ?e = "CodeIssued phone (randomCode n)"
  have "codes_counted lib cfg (?e # evs) (challenges i')"
    using assms(1,2) stored(4)
    by (auto simp: trail_def codes_counted_def issued_def sign_ins_def table_simps matching_def no_collision_def)
  moreover have "tokens_dead lib (?e # evs) (sessions i')" "closed_dead (?e # evs) (sessions i')"
    using assms(1) stored(4) by (auto simp: trail_def tokens_dead_def closed_dead_def)
  ultimately show ?thesis using stored(4) by (simp add: trail_def)
qed

lemma count_where_upd_one:
  assumes "distinct (map k t)" "c \<in> set t"
  shows "count_where Q (upd_where (\<lambda>x. k x = k c) f t) + (if Q c then 1 else 0) = count_where Q t + (if Q (f c) then 1 else 0)"
  using assms
proof (induction t)
  case (Cons a t)
  show ?case
  proof (cases "a = c")
    case True
    have "\<forall>x \<in> set t. k x \<noteq> k c" using Cons.prems(1) True by (auto simp: image_iff)
    then have "upd_where (\<lambda>x. k x = k c) f t = t" by (simp add: upd_where_def map_idI)
    then show ?thesis using True by (simp add: table_simps)
  next
    case False
    then have "c \<in> set t" "k a \<noteq> k c" using Cons.prems by (auto simp: image_iff)
    then show ?thesis using Cons by (simp add: table_simps)
  qed
qed simp

lemma VerifyOTP_tables:
  assumes "VerifyOTP lib cfg now dnow u sid jti tok phone code locale dev i = (Inr pair, i')" "identity_ok i"
  obtains (test) x where "isTestPhone cfg phone" "challenges i' = challenges i"
      "sessions i' = sessions i @ [x]" "se_id x = sid" "se_hash x = HashToken lib tok" "se_revoked x = None" "sid \<notin> se_id ` set (sessions i)"
  | (stored) x c where "\<not> isTestPhone cfg phone" "c \<in> set (challenges i)" "matching lib cfg phone code c" "ch_consumed c = None"
      "challenges i' = upd_where (\<lambda>x. ch_id x = ch_id c) (\<lambda>x. x\<lparr>ch_consumed := Some dnow\<rparr>) (challenges i)"
      "sessions i' = sessions i @ [x]" "se_id x = sid" "se_hash x = HashToken lib tok" "se_revoked x = None" "sid \<notin> se_id ` set (sessions i)"
proof -
  from assms(1) obtain i1 i2 user isNew i3 acc where
      1: "verifyChallenge lib cfg now dnow phone code i = (Inr (), i1)"
    and 2: "login_user dnow u phone locale i1 = (Inr (user, isNew), i2)"
    and 3: "i3 = (if isTestAdmin cfg phone then i2\<lparr>caps := grant_new user ''SUPER_ADMIN'' (caps i2)\<rparr> else i2)"
    and 4: "sid \<notin> se_id ` set (sessions i2)"
    and 5: "i' = audit_login dev isNew user sid (i3\<lparr>sessions := sessions i2 @ [\<lparr>se_id = sid, se_user = user, se_device = DeviceID dev,
              se_device_name = nullable (DeviceName dev), se_platform = Platform dev, se_hash = HashToken lib tok,
              se_expires = now + RefreshTokenTTL, se_seen = dnow, se_revoked = None, se_created = dnow\<rparr>]\<rparr>)"
    by (elim VerifyOTP_elim)
  have l: "sessions i2 = sessions i1" "challenges i2 = challenges i1"
    using login_user_ok[OF 2 verifyChallenge_ok[OF 1 assms(2)]] by blast+
  have c: "challenges i' = challenges i1" using l by (simp add: 5 3 audit_login_def)
  show ?thesis
    using 1
  proof (cases rule: verifyChallenge_elim)
    case t: test
    then show ?thesis using test l c 4 by (simp add: 5 audit_login_def)
  next
    case s: (stored ch)
    then show ?thesis using stored[of ch] l c 4 by (simp add: 5 audit_login_def consume_def matching_def)
  qed
qed

lemma codes_counted_mono:
  assumes "codes_counted lib cfg evs cs" "\<And>p c. issued p c evs' = issued p c evs"
    and "\<And>p c. \<not> isTestPhone cfg p \<Longrightarrow> sign_ins p c evs' = sign_ins p c evs"
  shows "codes_counted lib cfg evs' cs"
  using assms by (simp add: codes_counted_def)

lemma codes_counted_sign_in:
  assumes "codes_counted lib cfg evs (challenges i)" "identity_ok i" "c \<in> set (challenges i)" "matching lib cfg phone code c" "ch_consumed c = None"
  shows "codes_counted lib cfg (SignedIn phone code sid # TokenIssued tok # evs)
    (upd_where (\<lambda>x. ch_id x = ch_id c) (\<lambda>x. x\<lparr>ch_consumed := Some dnow\<rparr>) (challenges i))"
  unfolding codes_counted_def
proof (intro allI impI)
  fix p k assume p: "\<not> isTestPhone cfg p" "no_collision lib cfg p k"
  let ?cs = "challenges i"
  let ?f = "\<lambda>x. x\<lparr>ch_consumed := Some dnow\<rparr>"
  let ?t = "upd_where (\<lambda>x. ch_id x = ch_id c) ?f ?cs"
  let ?m = "matching lib cfg p k"
  have d: "distinct (map ch_id ?cs)" using assms(2) by (simp add: identity_ok_def challenges_ok_def)
  have m: "?m (?f x) = ?m x" for x by (simp add: matching_def)
  have "count_where ?m ?t = count_where ?m ?cs"
    using count_where_upd_one[OF d assms(3), of ?m ?f] by (simp only: m)
  moreover have "count_where (\<lambda>x. ?m x \<and> ch_consumed x \<noteq> None) ?t =
      count_where (\<lambda>x. ?m x \<and> ch_consumed x \<noteq> None) ?cs + (if ?m c then 1 else 0)"
    using count_where_upd_one[OF d assms(3), of "\<lambda>x. ?m x \<and> ch_consumed x \<noteq> None" ?f] assms(5) by (simp only: m) simp
  moreover have "sign_ins p k (SignedIn phone code sid # TokenIssued tok # evs) \<le> sign_ins p k evs + (if ?m c then 1 else 0)"
    using assms(4) by (auto simp: sign_ins_def matching_def)
  ultimately show "count_where ?m ?t = issued p k (SignedIn phone code sid # TokenIssued tok # evs) \<and>
      sign_ins p k (SignedIn phone code sid # TokenIssued tok # evs) \<le> count_where (\<lambda>x. ?m x \<and> ch_consumed x \<noteq> None) ?t"
    using assms(1) p unfolding codes_counted_def issued_def by fastforce
qed

lemma trail_new_session:
  assumes "tokens_dead lib evs ss" "closed_dead evs ss" "fresh_token lib tok evs" "se_hash x = HashToken lib tok"
    and "se_revoked x = None" "e = SignedIn phone code sid"
  shows "tokens_dead lib (e # TokenIssued tok # evs) (ss @ [x])" "closed_dead (e # TokenIssued tok # evs) (ss @ [x])"
proof -
  have "HashToken lib tok \<notin> se_hash ` set ss" using assms(1,3) unfolding tokens_dead_def fresh_token_def by metis
  moreover have "TokenUsed t \<in> set evs \<Longrightarrow> HashToken lib t \<noteq> HashToken lib tok" for t
    using assms(1,3) unfolding tokens_dead_def fresh_token_def by metis
  ultimately show "tokens_dead lib (e # TokenIssued tok # evs) (ss @ [x])"
    using assms(1,4,6) unfolding tokens_dead_def by (auto; metis)
  show "closed_dead (e # TokenIssued tok # evs) (ss @ [x])" using assms(2,5,6) by (auto simp: closed_dead_def)
qed

lemma trail_sign_in:
  assumes "VerifyOTP lib cfg now dnow u sid jti tok phone code locale dev i = (Inr pair, i')"
    and "trail lib cfg evs i" "identity_ok i" "fresh_token lib tok evs"
  shows "trail lib cfg (SignedIn phone code sid # TokenIssued tok # evs) i'"
  using assms(1,3)
proof (cases rule: VerifyOTP_tables)
  case (test x)
  have "codes_counted lib cfg (SignedIn phone code sid # TokenIssued tok # evs) (challenges i)"
    by (rule codes_counted_mono[of lib cfg evs]) (use assms(2) test(1) in \<open>auto simp: trail_def issued_def sign_ins_def\<close>)
  then show ?thesis
    using test trail_new_session[OF _ _ assms(4) test(5,6) refl] assms(2) by (simp add: trail_def)
next
  case (stored x c)
  then show ?thesis
    using trail_new_session[OF _ _ assms(4) stored(8,9) refl] codes_counted_sign_in[OF _ assms(3) stored(2-4)] assms(2)
    by (simp add: trail_def)
qed

lemma distinct_rekey:
  assumes "distinct (map k t)" "distinct (map g t)" "c \<in> set t" "g (f c) \<notin> g ` set t" "\<And>x. k (f x) = k x"
  shows "distinct (map g (upd_where (\<lambda>x. k x = k c) f t)) \<and>
    set (upd_where (\<lambda>x. k x = k c) f t) = insert (f c) (set t - {c})"
  using assms(1-4)
proof (induction t)
  case (Cons a t)
  show ?case
  proof (cases "a = c")
    case True
    have "\<forall>x \<in> set t. k x \<noteq> k c" using Cons.prems(1) True by (auto simp: image_iff)
    then have "upd_where (\<lambda>x. k x = k c) f t = t" by (simp add: upd_where_def map_idI)
    moreover have "c \<notin> set t" using Cons.prems(1) True by auto
    ultimately show ?thesis using True Cons.prems by (auto simp: table_simps)
  next
    case False
    then have c: "c \<in> set t" "k a \<noteq> k c" using Cons.prems by (auto simp: image_iff)
    then have "distinct (map g (upd_where (\<lambda>x. k x = k c) f t)) \<and> set (upd_where (\<lambda>x. k x = k c) f t) = insert (f c) (set t - {c})"
      using Cons by auto
    then show ?thesis using c False Cons.prems by (auto simp: table_simps)
  qed
qed simp

lemma closed_dead_upd:
  assumes "closed_dead evs ss" "\<And>x. se_id (f x) = se_id x" "\<And>x. se_revoked (f x) = se_revoked x"
  shows "closed_dead evs (upd_where P f ss)"
proof -
  have "(\<exists>x \<in> set (upd_where P f ss). se_id x = sid \<and> se_revoked x \<noteq> None) \<longleftrightarrow>
      (\<exists>x \<in> set ss. se_id x = sid \<and> se_revoked x \<noteq> None)" for sid
    by (induction ss) (auto simp: table_simps assms(2,3))
  then show ?thesis using assms(1) by (simp add: closed_dead_def)
qed

lemma trail_refresh:
  assumes "Refresh lib now dnow jti newtok tok i = (Inr pair, i')"
    and "trail lib cfg evs i" "identity_ok i" "fresh_token lib newtok evs"
  shows "trail lib cfg (TokenIssued newtok # TokenUsed tok # evs) i'"
proof -
  let ?H = "HashToken lib"
  obtain x where f: "find (\<lambda>x. se_hash x = ?H tok) (sessions i) = Some x" and i': "i' = i\<lparr>sessions := upd_where (\<lambda>y. se_id y = se_id x)
       (\<lambda>y. y\<lparr>se_hash := ?H newtok, se_expires := now + RefreshTokenTTL, se_seen := dnow\<rparr>) (sessions i)\<rparr>"
    using assms(1) by (elim Refresh_elim)
  let ?g = "\<lambda>y. y\<lparr>se_hash := ?H newtok, se_expires := now + RefreshTokenTTL, se_seen := dnow\<rparr>"
  have x: "x \<in> set (sessions i)" "se_hash x = ?H tok" using find_SomeD[OF f] by auto
  have dead: "tokens_dead lib evs (sessions i)" and closed: "closed_dead evs (sessions i)" using assms(2) by (simp_all add: trail_def)
  have new: "?H newtok \<notin> se_hash ` set (sessions i)" using dead assms(4) unfolding tokens_dead_def fresh_token_def by metis
  have dd: "distinct (map se_hash (sessions i'))" and ss: "set (sessions i') = insert (?g x) (set (sessions i) - {x})"
    using distinct_rekey[of se_id "sessions i" se_hash x ?g] assms(3) dead new x
    by (simp_all add: i' identity_ok_def sessions_ok_def tokens_dead_def)
  have dist: "distinct (map se_hash (sessions i))" using dead by (simp add: tokens_dead_def)
  have gone: "?H tok \<notin> se_hash ` set (sessions i')"
  proof
    assume "?H tok \<in> se_hash ` set (sessions i')"
    then obtain y where y: "y \<in> set (sessions i')" "se_hash y = ?H tok" by auto
    show False
    proof (cases "y = ?g x")
      case True
      then show False using y(2) new x by (auto simp: image_iff)
    next
      case False
      then show False using y ss x distinct_keyD[OF dist, of y x] by auto
    qed
  qed
  have hashes: "se_hash ` set (sessions i') \<subseteq> insert (?H newtok) (se_hash ` set (sessions i))" using ss by auto
  have used: "?H t \<notin> se_hash ` set (sessions i')" if "TokenUsed t \<in> set evs" for t
  proof -
    have "?H t \<notin> se_hash ` set (sessions i)" "?H t \<noteq> ?H newtok"
      using that dead assms(4) unfolding tokens_dead_def fresh_token_def by metis+
    then show ?thesis using hashes by blast
  qed
  have "tokens_dead lib (TokenIssued newtok # TokenUsed tok # evs) (sessions i')"
    unfolding tokens_dead_def
  proof (intro conjI ballI allI impI)
    fix h assume "h \<in> se_hash ` set (sessions i')"
    then have "h = ?H newtok \<or> h \<in> se_hash ` set (sessions i)" using hashes by blast
    then show "\<exists>t. TokenIssued t \<in> set (TokenIssued newtok # TokenUsed tok # evs) \<and> h = ?H t"
      using dead unfolding tokens_dead_def by (metis list.set_intros)
  next
    fix t assume t: "TokenUsed t \<in> set (TokenIssued newtok # TokenUsed tok # evs)"
    then show "?H t \<notin> se_hash ` set (sessions i')" using gone used by auto
    have "\<exists>t'. TokenIssued t' \<in> set evs \<and> ?H tok = ?H t'" using dead x unfolding tokens_dead_def by (metis imageI)
    then show "\<exists>t'. TokenIssued t' \<in> set (TokenIssued newtok # TokenUsed tok # evs) \<and> ?H t = ?H t'"
      using t dead unfolding tokens_dead_def by auto
  qed (rule dd)
  moreover have "closed_dead (TokenIssued newtok # TokenUsed tok # evs) (sessions i')"
    using closed_dead_upd[OF closed, of ?g] by (simp add: i' closed_dead_def)
  moreover have "codes_counted lib cfg (TokenIssued newtok # TokenUsed tok # evs) (challenges i')"
    by (rule codes_counted_mono[of lib cfg evs]) (use assms(2) in \<open>auto simp: trail_def issued_def sign_ins_def i'\<close>)
  ultimately show ?thesis by (simp add: trail_def)
qed

lemma trail_revoke:
  assumes "trail lib cfg evs i" "challenges i' = challenges i" "sessions i' = sessions (revoke_where P dnow i)"
  shows "trail lib cfg (closing P i @ evs) i'"
proof -
  have h: "map se_hash (sessions i') = map se_hash (sessions i)" by (simp add: assms(3) revoke_where_def map_upd_where)
  then have hs: "se_hash ` set (sessions i') = se_hash ` set (sessions i)" by (metis list.set_map)
  have "tokens_dead lib (closing P i @ evs) (sessions i')"
    using assms(1) by (auto simp: trail_def tokens_dead_def h hs)
  moreover have "(\<exists>x \<in> set (upd_where (\<lambda>x. P x \<and> se_revoked x = None) (\<lambda>x. x\<lparr>se_revoked := Some dnow\<rparr>) ss).
        se_id x = sid \<and> se_revoked x \<noteq> None) \<longleftrightarrow> (\<exists>x \<in> set ss. se_id x = sid \<and> (P x \<or> se_revoked x \<noteq> None))" for sid ss
    by (induction ss) (auto simp: table_simps)
  then have "(\<exists>x \<in> set (sessions i'). se_id x = sid \<and> se_revoked x \<noteq> None) \<longleftrightarrow>
      (\<exists>x \<in> set (sessions i). se_id x = sid \<and> (P x \<or> se_revoked x \<noteq> None))" for sid
    by (simp add: assms(3) revoke_where_def)
  then have "closed_dead (closing P i @ evs) (sessions i')"
    using assms(1) unfolding trail_def closed_dead_def by auto
  moreover have "codes_counted lib cfg (closing P i @ evs) (challenges i')"
    by (rule codes_counted_mono[of lib cfg evs]) (use assms(1,2) in \<open>auto simp: trail_def\<close>)
  ultimately show ?thesis by (simp add: trail_def)
qed

lemma same_tables:
  "BootstrapAdmin phone i = (res, i') \<Longrightarrow> challenges i' = challenges i \<and> sessions i' = sessions i"
  "UpdateProfile uni dnow a inp i = (res1, i') \<Longrightarrow> challenges i' = challenges i \<and> sessions i' = sessions i"
proof -
  let ?P = "\<lambda>i'. challenges i' = challenges i \<and> sessions i' = sessions i"
  show "BootstrapAdmin phone i = (res, i') \<Longrightarrow> ?P i'"
    by (auto simp: BootstrapAdmin_def begin_func_def split: if_splits option.splits)
  have "?P (snd (begin_func (update_profile_tx dnow a inp nm em) i))" for nm em
    by (rule snd_begin_func_inv)
      (auto simp: update_profile_tx_def Let_def frame_simps split: option.splits if_splits)
  then have "?P (snd (UpdateProfile uni dnow a inp i))" by (simp add: UpdateProfile_def Let_def)
  then show "UpdateProfile uni dnow a inp i = (res1, i') \<Longrightarrow> ?P i'" by simp
qed

text \<open>A call that closes sessions revokes those in its scope when it succeeds, and none when it fails.\<close>

lemma upd_where_none [simp]: "upd_where (\<lambda>x. False) f t = t"
  by (simp add: upd_where_def)

lemma DeleteAccount_tables:
  assumes "DeleteAccount lib dnow a s = (res, s')"
  shows "challenges (identity s') = challenges (identity s) \<and>
    sessions (identity s') = sessions (revoke_where (\<lambda>x. res = Inr () \<and> se_user x = ActorUser a) dnow (identity s))"
  using assms
  by (auto simp: DeleteAccount_def delete_account_tx_def begin_func_def Let_def frame_simps revoke_where_def
      split: sum.splits if_splits option.splits)

lemma Block_tables:
  assumes "Block dnow a user reason b i = (res, i')"
  shows "challenges i' = challenges i \<and>
    sessions i' = sessions (revoke_where (\<lambda>x. res = Inr () \<and> b \<and> se_user x = user) dnow i)"
  using assms by (auto simp: Block_def Let_def frame_simps revoke_where_def split: if_splits)

lemma RevokeSession_tables:
  assumes "RevokeSession dnow a sid i = (res, i')"
  shows "challenges i' = challenges i \<and>
    sessions i' = sessions (revoke_where (\<lambda>x. res = Inr () \<and> se_id x = sid \<and> se_user x = ActorUser a) dnow i)"
  using assms by (auto simp: RevokeSession_def begin_func_def frame_simps revoke_where_def split: if_splits)

lemma auth_run_trail: "auth_run lib cfg evs r s \<Longrightarrow> trail lib cfg evs (identity s)"
proof (induction rule: auth_run.induct)
  case (start r c)
  show ?case
    by (simp add: trail_def codes_counted_def issued_def sign_ins_def tokens_dead_def closed_dead_def table_simps)
next
  case (request evs r s n)
  then show ?case using trail_request by auto
next
  case (sign_in evs r s tok)
  then show ?case using trail_sign_in run_ok trail_issue by auto
next
  case (refresh evs r s newtok now dnow jti tok pair i')
  then show ?case using trail_refresh run_ok trail_issue by auto
next
  case (delete evs r s dnow a res s')
  then show ?case using DeleteAccount_tables[OF delete.hyps(2)] trail_revoke[OF delete.IH] by blast
next
  case (block evs r s dnow a user reason b res i')
  then show ?case using Block_tables[OF block.hyps(2)] trail_revoke[OF block.IH, of i'] by simp
next
  case (revoke_device evs r s dnow a sid res i')
  then show ?case using RevokeSession_tables[OF revoke_device.hyps(2)] trail_revoke[OF revoke_device.IH, of i'] by simp
next
  case (logout evs r s i' dnow sid)
  then show ?case using trail_revoke[OF logout.IH, of i' "\<lambda>x. se_id x = sid" dnow] by (simp add: Logout_def frame_simps)
next
  case (logout_all evs r s i' dnow user)
  then show ?case using trail_revoke[OF logout_all.IH, of i' "\<lambda>x. se_user x = user" dnow] by (simp add: RevokeAll_def frame_simps)
next
  case (bootstrap evs r s phone res i')
  then show ?case using trail_same same_tables(1) by auto
next
  case (profile evs r s uni dnow a inp res i')
  then show ?case using trail_same same_tables(2) by auto
next
  case (add_address evs r s dnow i a inp' res s')
  then have "logs_only (identity s) (identity s')" using run_ok address_calls_ok(1) by blast
  then show ?case using add_address.IH trail_same by (simp add: logs_only_def)
next
  case (set_address evs r s dnow a i inp' res s')
  then have "logs_only (identity s) (identity s')" using run_ok address_calls_ok(2) by blast
  then show ?case using set_address.IH trail_same by (simp add: logs_only_def)
next
  case (delete_address evs r s dnow a i res s')
  then have "logs_only (identity s) (identity s')" using run_ok DeleteAddress_ok by blast
  then show ?case using delete_address.IH trail_same by (simp add: logs_only_def)
next
  case (prefs evs r s a ps res s')
  then have "logs_only (identity s) (identity s')" using run_ok SetPreferences_ok by blast
  then show ?case using prefs.IH trail_same by (simp add: logs_only_def)
next
  case (others evs r s cs b)
  then show ?case using trail_same by auto
qed

text \<open>
  The access tokens: each was signed for its user, session and capabilities, the session is still a row of
  the table with the same user, and it expires thirty days after the latest token.
\<close>

definition access_claims :: "uuid \<Rightarrow> uuid \<Rightarrow> string list \<Rightarrow> time \<Rightarrow> uuid \<Rightarrow> claims" where
  "access_claims user sid cs now jti =
     \<lparr>Capabilities = cs, SessionID = sid, TokIssuer = Issuer, TokAudience = [Audience],
      Subject = user, IssuedAt = now, NotBefore = now - 30 * Second, ExpiresAt = now + AccessTokenTTL, TokID = jti\<rparr>"

definition access_ok :: "auth_lib \<Rightarrow> auth_event list \<Rightarrow> session list \<Rightarrow> bool" where
  "access_ok lib evs ss \<longleftrightarrow>
     (\<forall>acc user sid cs now. AccessIssued acc user sid cs now \<in> set evs \<longrightarrow>
        (\<exists>x \<in> set ss. se_id x = sid \<and> se_user x = user) \<and> (\<exists>jti. signed lib (access_claims user sid cs now jti) = Some acc)) \<and>
     (\<forall>x \<in> set ss. \<exists>now. last_issue (se_id x) evs = Some now \<and> se_expires x = now + RefreshTokenTTL)"

lemma access_keep:
  assumes "access_ok lib evs ss" "map (\<lambda>x. (se_id x, se_user x, se_expires x)) ss' = map (\<lambda>x. (se_id x, se_user x, se_expires x)) ss"
    and "\<And>acc user sid cs now. AccessIssued acc user sid cs now \<in> set evs' \<longleftrightarrow> AccessIssued acc user sid cs now \<in> set evs"
    and "\<And>sid. last_issue sid evs' = last_issue sid evs"
  shows "access_ok lib evs' ss'"
proof -
  define k where "k = (\<lambda>x :: session. (se_id x, se_user x, se_expires x))"
  have i: "k ` set ss' = k ` set ss" using arg_cong[OF assms(2), of set] unfolding k_def[symmetric] by (simp only: set_map)
  have "(\<exists>x \<in> A. Q (k x)) \<longleftrightarrow> (\<exists>z \<in> k ` A. Q z)" "(\<forall>x \<in> A. Q (k x)) \<longleftrightarrow> (\<forall>z \<in> k ` A. Q z)" for Q A by simp_all
  then have e: "(\<exists>x \<in> set ss'. Q (k x)) \<longleftrightarrow> (\<exists>x \<in> set ss. Q (k x))" and a: "(\<forall>x \<in> set ss'. Q (k x)) \<longleftrightarrow> (\<forall>x \<in> set ss. Q (k x))" for Q
    by (simp_all only: i)
  have "(\<exists>x \<in> set ss'. se_id x = sid \<and> se_user x = user) \<longleftrightarrow> (\<exists>x \<in> set ss. se_id x = sid \<and> se_user x = user)" for sid user
    using e[of "\<lambda>(a, b, c). a = sid \<and> b = user"] by (simp add: k_def)
  moreover have "(\<forall>x \<in> set ss'. \<exists>now. last_issue (se_id x) evs = Some now \<and> se_expires x = now + RefreshTokenTTL) \<longleftrightarrow>
      (\<forall>x \<in> set ss. \<exists>now. last_issue (se_id x) evs = Some now \<and> se_expires x = now + RefreshTokenTTL)"
    using a[of "\<lambda>(a, b, c). \<exists>now. last_issue a evs = Some now \<and> c = now + RefreshTokenTTL"] by (simp add: k_def)
  ultimately show ?thesis using assms(1) by (simp only: access_ok_def assms(3,4))
qed

lemma access_same: "access_ok lib evs ss \<Longrightarrow> ss' = ss \<Longrightarrow> access_ok lib evs ss'"
  by simp

lemma access_closing:
  "access_ok lib evs (sessions i) \<Longrightarrow> sessions i' = sessions (revoke_where P dnow i) \<Longrightarrow> access_ok lib (closing Q j @ evs) (sessions i')"
  by (rule access_keep[of lib evs "sessions i"]) (auto simp: revoke_where_def upd_where_def)

lemma access_new:
  assumes "access_ok lib evs ss" "se_id x = sid" "se_user x = user" "se_expires x = now + RefreshTokenTTL" "sid \<notin> se_id ` set ss"
    and "signed lib (access_claims user sid cs now jti) = Some acc"
  shows "access_ok lib (AccessIssued acc user sid cs now # SignedIn phone code sid' # TokenIssued tok # evs) (ss @ [x])"
  using assms unfolding access_ok_def by (auto simp: image_iff)

lemma access_renew:
  assumes "access_ok lib evs ss" "x \<in> set ss" "g = (\<lambda>y. y\<lparr>se_hash := h, se_expires := now + RefreshTokenTTL, se_seen := dnow\<rparr>)"
    and "signed lib (access_claims (se_user x) (se_id x) cs now jti) = Some acc"
  shows "access_ok lib (AccessIssued acc (se_user x) (se_id x) cs now # TokenIssued t # TokenUsed t' # evs)
    (upd_where (\<lambda>y. se_id y = se_id x) g ss)"
proof -
  let ?ss = "upd_where (\<lambda>y. se_id y = se_id x) g ss"
  let ?evs = "AccessIssued acc (se_user x) (se_id x) cs now # TokenIssued t # TokenUsed t' # evs"
  have rows: "(\<exists>y \<in> set ?ss. se_id y = sid \<and> se_user y = user) \<longleftrightarrow> (\<exists>y \<in> set ss. se_id y = sid \<and> se_user y = user)" for sid user
    by (induction ss) (auto simp: table_simps assms(3))
  have exp: "\<exists>k. last_issue (se_id y) ?evs = Some k \<and> se_expires y = k + RefreshTokenTTL" if "y \<in> set ?ss" for y
  proof (cases "se_id y = se_id x")
    case True
    then have "se_expires y = now + RefreshTokenTTL" using that by (auto simp: set_upd_where assms(3))
    then show ?thesis using True by simp
  next
    case False
    then have "y \<in> set ss" using that by (auto simp: set_upd_where assms(3))
    then show ?thesis using assms(1) False unfolding access_ok_def by simp
  qed
  have iss: "(\<exists>y \<in> set ss. se_id y = sid \<and> se_user y = user) \<and> (\<exists>jti. signed lib (access_claims user sid c k jti) = Some a)"
    if "AccessIssued a user sid c k \<in> set ?evs" for a user sid c k
  proof (cases "AccessIssued a user sid c k \<in> set evs")
    case True
    then show ?thesis using assms(1) unfolding access_ok_def by blast
  next
    case False
    then show ?thesis using that assms(2,4) by auto
  qed
  show ?thesis unfolding access_ok_def rows using exp iss by blast
qed

lemma VerifyOTP_access:
  assumes "VerifyOTP lib cfg now dnow u sid jti tok phone code locale dev i = (Inr pair, i')" "identity_ok i"
  obtains x where "sessions i' = sessions i @ [x]" "se_id x = sid" "se_user x = TokUser pair" "se_expires x = now + RefreshTokenTTL"
    "sid \<notin> se_id ` set (sessions i)"
    "signed lib (access_claims (TokUser pair) sid (loadCapabilities lib (TokUser pair) i') now jti) = Some (AccessToken pair)"
proof -
  from assms(1) obtain i1 i2 user isNew i3 acc where
      1: "verifyChallenge lib cfg now dnow phone code i = (Inr (), i1)"
    and 2: "login_user dnow u phone locale i1 = (Inr (user, isNew), i2)"
    and 3: "i3 = (if isTestAdmin cfg phone then i2\<lparr>caps := grant_new user ''SUPER_ADMIN'' (caps i2)\<rparr> else i2)"
    and 4: "IssueAccess lib user sid (loadCapabilities lib user i3) now jti = Inr acc" and sid: "sid \<notin> se_id ` set (sessions i2)"
    and p: "pair = \<lparr>AccessToken = acc, RefreshToken = tok, TokExpires = now + AccessTokenTTL, TokUser = user, IsNewUser = isNew\<rparr>"
    and 5: "i' = audit_login dev isNew user sid (i3\<lparr>sessions := sessions i2 @ [\<lparr>se_id = sid, se_user = user, se_device = DeviceID dev,
              se_device_name = nullable (DeviceName dev), se_platform = Platform dev, se_hash = HashToken lib tok,
              se_expires = now + RefreshTokenTTL, se_seen = dnow, se_revoked = None, se_created = dnow\<rparr>]\<rparr>)"
    by (elim VerifyOTP_elim)
  have "sessions i2 = sessions i1" using login_user_ok[OF 2 verifyChallenge_ok[OF 1 assms(2)]] by blast
  moreover have "sessions i1 = sessions i" using 1 by (cases rule: verifyChallenge_elim) (auto simp: consume_def)
  moreover have "loadCapabilities lib user i' = loadCapabilities lib user i3" by (simp add: 5 loadCapabilities_def audit_login_def)
  ultimately show ?thesis
    using 4 sid that[of "\<lparr>se_id = sid, se_user = user, se_device = DeviceID dev,
              se_device_name = nullable (DeviceName dev), se_platform = Platform dev, se_hash = HashToken lib tok,
              se_expires = now + RefreshTokenTTL, se_seen = dnow, se_revoked = None, se_created = dnow\<rparr>"]
    by (simp add: 5 3 p audit_login_def IssueAccess_def access_claims_def split: option.splits)
qed

lemma Refresh_access:
  assumes "Refresh lib now dnow jti newtok tok i = (Inr pair, i')" "find (\<lambda>x. se_hash x = HashToken lib tok) (sessions i) = Some x"
  shows "TokUser pair = se_user x"
    "signed lib (access_claims (se_user x) (se_id x) (loadCapabilities lib (se_user x) i') now jti) = Some (AccessToken pair)"
    "sessions i' = upd_where (\<lambda>y. se_id y = se_id x)
       (\<lambda>y. y\<lparr>se_hash := HashToken lib newtok, se_expires := now + RefreshTokenTTL, se_seen := dnow\<rparr>) (sessions i)"
proof -
  have lc: "loadCapabilities lib u (i\<lparr>sessions := ss\<rparr>) = loadCapabilities lib u i" for u ss by (simp add: loadCapabilities_def)
  have "refresh_tx lib now dnow jti newtok tok i = (Inr pair, i')" using assms(1) by (simp add: Refresh_def begin_func_commit)
  then show "TokUser pair = se_user x"
    "signed lib (access_claims (se_user x) (se_id x) (loadCapabilities lib (se_user x) i') now jti) = Some (AccessToken pair)"
    "sessions i' = upd_where (\<lambda>y. se_id y = se_id x)
       (\<lambda>y. y\<lparr>se_hash := HashToken lib newtok, se_expires := now + RefreshTokenTTL, se_seen := dnow\<rparr>) (sessions i)"
    using assms(2) by (auto simp: refresh_tx_def Let_def lc IssueAccess_def access_claims_def split: if_splits sum.splits option.splits)
qed

lemma auth_run_access: "auth_run lib cfg evs r s \<Longrightarrow> access_ok lib evs (sessions (identity s))"
proof (induction rule: auth_run.induct)
  case (start r c)
  show ?case by (simp add: access_ok_def)
next
  case (request evs r s n up send now dnow j phone ip lc res r' i' evs')
  have "sessions i' = sessions (identity s)" using request.hyps(3) by (cases rule: RequestOTP_elim) auto
  then show ?case using request.IH request.hyps(4) access_keep[of lib evs _ _ evs'] by simp
next
  case (sign_in evs r s tok now dnow u sid jti phone code lc dev pair i')
  have "identity_ok (identity s)" using run_ok[OF sign_in.hyps(1)] by simp
  from VerifyOTP_access[OF sign_in.hyps(3) this] obtain x where "sessions i' = sessions (identity s) @ [x]" "se_id x = sid"
    "se_user x = TokUser pair" "se_expires x = now + RefreshTokenTTL" "sid \<notin> se_id ` set (sessions (identity s))"
    "signed lib (access_claims (TokUser pair) sid (loadCapabilities lib (TokUser pair) i') now jti) = Some (AccessToken pair)" .
  then show ?case using access_new[OF sign_in.IH] by simp
next
  case (refresh evs r s newtok now dnow jti tok pair i' x)
  have "x \<in> set (sessions (identity s))" using find_SomeD[OF refresh.hyps(4)] by simp
  then show ?case
    using access_renew[OF refresh.IH _ refl] Refresh_access[OF refresh.hyps(3,4)] by simp
next
  case (delete evs r s dnow a res s')
  then show ?case using DeleteAccount_tables[OF delete.hyps(2)] access_closing[OF delete.IH] by blast
next
  case (block evs r s dnow a user reason b res i')
  then show ?case using Block_tables[OF block.hyps(2)] access_closing[OF block.IH, of i'] by simp
next
  case (revoke_device evs r s dnow a sid res i')
  then show ?case using RevokeSession_tables[OF revoke_device.hyps(2)] access_closing[OF revoke_device.IH, of i'] by simp
next
  case (logout evs r s i' dnow sid)
  then show ?case using access_closing[OF logout.IH, of i' "\<lambda>x. se_id x = sid" dnow] by (simp add: Logout_def)
next
  case (logout_all evs r s i' dnow user)
  then show ?case using access_closing[OF logout_all.IH, of i' "\<lambda>x. se_user x = user" dnow] by (simp add: RevokeAll_def)
next
  case (bootstrap evs r s phone res i')
  then show ?case using same_tables(1) by auto
next
  case (profile evs r s uni dnow a inp res i')
  then show ?case using same_tables(2) by auto
next
  case (add_address evs r s dnow i a inp' res s')
  then show ?case using run_ok address_calls_ok(1) access_same unfolding logs_only_def by blast
next
  case (set_address evs r s dnow a i inp' res s')
  then show ?case using run_ok address_calls_ok(2) access_same unfolding logs_only_def by blast
next
  case (delete_address evs r s dnow a i res s')
  then show ?case using run_ok DeleteAddress_ok access_same unfolding logs_only_def by blast
next
  case (prefs evs r s a ps res s')
  then show ?case using run_ok SetPreferences_ok access_same unfolding logs_only_def by blast
qed simp

end
