(* ===== verification/SignIn.thy ===== *)
theory SignIn
  imports Identity
begin

text \<open>
  The properties of the identity modules: the invariant of their tables, who signs in, what the access
  token of a sign-in opens, the end of refresh tokens and of sessions, and what the code does not do: count
  attempts, close the session when a used token comes back, tell whether the first
  administrator was really appointed.
\<close>

section \<open>Properties\<close>

subsection \<open>An example run\<close>

definition demo_claims :: claims where
  "demo_claims = \<lparr>Capabilities = [''CUSTOMER''], SessionID = ''s1'', TokIssuer = Issuer, TokAudience = [Audience],
     Subject = ''u1'', IssuedAt = 60 * Second, NotBefore = 30 * Second, ExpiresAt = 60 * Second + AccessTokenTTL, TokID = ''j''\<rparr>"

definition demo_lib :: auth_lib where
  "demo_lib = \<lparr>hmac = (\<lambda>k m. k @ m), sha256 = (\<lambda>s. s), signed = (\<lambda>c. if c = demo_claims then Some ''jwt'' else None),
     parsed = (\<lambda>iss aud leeway now t. if t = ''jwt'' \<and> iss = Issuer \<and> aud = Audience \<and> 30 * Second \<le> now + leeway \<and>
         now < 60 * Second + AccessTokenTTL + leeway then Some demo_claims else None),
     uuidParse = Some, collated = (\<lambda>cs. cs)\<rparr>"

definition demo_cfg :: auth_cfg where
  "demo_cfg = \<lparr>pepper = ''p'', testPhones = [], testAdmins = [], testOTP = []\<rparr>"

definition demo_phone :: string where "demo_phone = ''+38344100200''"

definition demo_device :: device where "demo_device = \<lparr>DeviceID = ''d'', DeviceName = [], Platform = ''ios''\<rparr>"

definition demo0 :: accounts_db where
  "demo0 = \<lparr>identity = \<lparr>challenges = [], sessions = [], users = [], caps = [], books = empty_core\<rparr>, addresses = [], preferences = []\<rparr>"

definition demo_request :: "(err + unit) \<times> counters \<times> auth_db" where
  "demo_request = RequestOTP demo_lib demo_cfg True (\<lambda>_ _ _. True) (30 * Second) (30 * Second) ''c1'' 7 demo_phone [] ''sq''
     (Map.empty, identity demo0)"

definition demo_login :: "(err + token_pair) \<times> auth_db" where
  "demo_login = VerifyOTP demo_lib demo_cfg (60 * Second) (60 * Second) ''u1'' ''s1'' ''j'' ''t1'' demo_phone ''000007'' [] demo_device
     (snd (snd demo_request))"

definition demo_refresh :: "(err + token_pair) \<times> auth_db" where
  "demo_refresh = Refresh demo_lib (60 * Second) (61 * Second) ''j'' ''t2'' ''t1'' (snd demo_login)"

lemma demo_results:
  "fst demo_request = Inr ()" "map ch_id (challenges (snd (snd demo_request))) = [''c1'']"
  "fst demo_login = Inr \<lparr>AccessToken = ''jwt'', RefreshToken = ''t1'', TokExpires = 60 * Second + AccessTokenTTL, TokUser = ''u1'', IsNewUser = True\<rparr>"
  "fst demo_refresh = Inr \<lparr>AccessToken = ''jwt'', RefreshToken = ''t2'', TokExpires = 60 * Second + AccessTokenTTL, TokUser = ''u1'', IsNewUser = False\<rparr>"
  by code_simp+

definition demo_events :: "auth_event list" where
  "demo_events = [AccessIssued ''jwt'' ''u1'' ''s1'' [''CUSTOMER''] (60 * Second), TokenIssued ''t2'', TokenUsed ''t1'',
     AccessIssued ''jwt'' ''u1'' ''s1'' [''CUSTOMER''] (60 * Second), SignedIn demo_phone ''000007'' ''s1'', TokenIssued ''t1'',
     CodeIssued demo_phone ''000007'']"

lemma demo_caps:
  "loadCapabilities demo_lib ''u1'' (snd demo_login) = [''CUSTOMER'']" "loadCapabilities demo_lib ''u1'' (snd demo_refresh) = [''CUSTOMER'']"
  by code_simp+

definition demo_session :: session where
  "demo_session = hd (sessions (snd demo_login))"

lemma demo_found:
  "find (\<lambda>x. se_hash x = HashToken demo_lib ''t1'') (sessions (snd demo_login)) = Some demo_session" "se_id demo_session = ''s1''"
  by (code_simp, code_simp)

lemma demo_code: "randomCode 7 = ''000007''"
  by code_simp

lemma demo_requested:
  "auth_run demo_lib demo_cfg [CodeIssued demo_phone ''000007''] (fst (snd demo_request)) (demo0\<lparr>identity := snd (snd demo_request)\<rparr>)"
proof (rule auth_run.request)
  show "auth_run demo_lib demo_cfg [] Map.empty demo0" unfolding demo0_def by (rule auth_run.start)
  show "RequestOTP demo_lib demo_cfg True (\<lambda>_ _ _. True) (30 * Second) (30 * Second) ''c1'' 7 demo_phone [] ''sq''
     (Map.empty, identity demo0) = (fst demo_request, fst (snd demo_request), snd (snd demo_request))"
    by (simp add: demo_request_def)
  show "[CodeIssued demo_phone ''000007''] = (if challenges (snd (snd demo_request)) = challenges (identity demo0) then []
      else [CodeIssued demo_phone (randomCode 7)])"
    using demo_results(2) demo_code by (auto simp: demo0_def)
qed simp

lemma demo_run: "auth_run demo_lib demo_cfg demo_events (fst (snd demo_request)) (demo0\<lparr>identity := snd demo_refresh\<rparr>)"
proof -
  let ?login = "\<lparr>AccessToken = ''jwt'', RefreshToken = ''t1'', TokExpires = 60 * Second + AccessTokenTTL, TokUser = ''u1'', IsNewUser = True\<rparr>"
  let ?again = "\<lparr>AccessToken = ''jwt'', RefreshToken = ''t2'', TokExpires = 60 * Second + AccessTokenTTL, TokUser = ''u1'', IsNewUser = False\<rparr>"
  let ?s1 = "demo0\<lparr>identity := snd (snd demo_request)\<rparr>\<lparr>identity := snd demo_login\<rparr>"
  let ?e1 = "AccessIssued (AccessToken ?login) (TokUser ?login) ''s1'' (loadCapabilities demo_lib (TokUser ?login) (snd demo_login)) (60 * Second) #
      SignedIn demo_phone ''000007'' ''s1'' # TokenIssued ''t1'' # [CodeIssued demo_phone ''000007'']"
  have 1: "auth_run demo_lib demo_cfg ?e1 (fst (snd demo_request)) ?s1"
  proof (rule auth_run.sign_in[OF demo_requested])
    show "VerifyOTP demo_lib demo_cfg (60 * Second) (60 * Second) ''u1'' ''s1'' ''j'' ''t1'' demo_phone ''000007'' [] demo_device
        (identity (demo0\<lparr>identity := snd (snd demo_request)\<rparr>)) = (Inr ?login, snd demo_login)"
      using demo_results(3) by (simp add: demo_login_def prod_eq_iff)
  qed (simp add: fresh_token_def)
  have "auth_run demo_lib demo_cfg (AccessIssued (AccessToken ?again) (TokUser ?again) (se_id demo_session)
      (loadCapabilities demo_lib (TokUser ?again) (snd demo_refresh)) (60 * Second) # TokenIssued ''t2'' # TokenUsed ''t1'' # ?e1)
      (fst (snd demo_request)) (?s1\<lparr>identity := snd demo_refresh\<rparr>)"
  proof (rule auth_run.refresh[OF 1])
    show "Refresh demo_lib (60 * Second) (61 * Second) ''j'' ''t2'' ''t1'' (identity ?s1) = (Inr ?again, snd demo_refresh)"
      using demo_results(4) by (simp add: demo_refresh_def prod_eq_iff)
    show "find (\<lambda>x. se_hash x = HashToken demo_lib ''t1'') (sessions (identity ?s1)) = Some demo_session" using demo_found(1) by simp
  qed (simp add: fresh_token_def HashToken_def demo_lib_def)
  then show ?thesis by (simp add: demo_events_def demo_caps demo_found(2))
qed

subsection \<open>The tables\<close>

text \<open>
  C26. The tables of the identity modules are well formed in every run. Sessions and challenges have
  different identifiers, a phone number belongs to one user, every user has a wallet account, an
  open session belongs to an active user, and a user has at most twenty saved addresses, of which at
  most one is the default.
\<close>
theorem identity_invariant:
  assumes "auth_run lib cfg evs r s"
  shows "distinct (map ch_id (challenges (identity s))) \<and> distinct (map se_id (sessions (identity s))) \<and>
    unique_index lu_id lu_phone (users (identity s)) \<and>
    (\<forall>u \<in> set (users (identity s)). \<exists>a \<in> set (accounts (books (identity s))). ac_code a = UserWalletCode (lu_id u)) \<and>
    (\<forall>x \<in> set (sessions (identity s)). se_revoked x = None \<longrightarrow>
       (\<exists>u \<in> set (users (identity s)). lu_id u = se_user x \<and> lu_status u = Active)) \<and>
    (\<forall>u. live_addresses u (addresses s) \<le> MaxAddresses \<and>
       count_where (\<lambda>x. ad_user x = u \<and> ad_default x \<and> ad_deleted x = None) (addresses s) \<le> 1)"
proof -
  have i: "challenges_ok (identity s)" "sessions_ok (identity s)" "users_ok (identity s)" "addresses_ok (addresses s)"
    using run_ok[OF assms] by (simp_all add: identity_ok_def)
  have "\<forall>u \<in> set (users (identity s)). \<exists>a \<in> set (accounts (books (identity s))). ac_code a = UserWalletCode (lu_id u)"
    using i(3) unfolding users_ok_def by (metis imageE)
  moreover have "\<forall>x \<in> set (sessions (identity s)). se_revoked x = None \<longrightarrow>
       (\<exists>u \<in> set (users (identity s)). lu_id u = se_user x \<and> lu_status u = Active)"
    using i(2) unfolding sessions_ok_def by blast
  ultimately show ?thesis
    using i unfolding challenges_ok_def sessions_ok_def users_ok_def addresses_ok_def by blast
qed

theorem identity_invariant_witness:
  "distinct (map se_id (sessions (snd demo_refresh))) \<and> map se_user (sessions (snd demo_refresh)) = [''u1'']"
proof -
  have "map se_user (sessions (snd demo_refresh)) = [''u1'']" by code_simp
  then show ?thesis using identity_invariant[OF demo_run] by simp
qed

subsection \<open>Signing in\<close>

text \<open>
  C27. A code signs in at most as often as it was issued for the number, so nobody signs in to a
  number (that is not one of the test numbers) with a code that was not generated for it, or twice with one code.
\<close>
theorem sign_in_needs_code:
  assumes "auth_run lib cfg evs r s" "\<not> isTestPhone cfg phone" "no_collision lib cfg phone code"
  shows "sign_ins phone code evs \<le> issued phone code evs"
proof -
  have "codes_counted lib cfg evs (challenges (identity s))" using auth_run_trail[OF assms(1)] by (simp add: trail_def)
  then have "sign_ins phone code evs \<le> count_where (\<lambda>c. matching lib cfg phone code c \<and> ch_consumed c \<noteq> None) (challenges (identity s))"
    and e: "count_where (matching lib cfg phone code) (challenges (identity s)) = issued phone code evs"
    using assms(2,3) unfolding codes_counted_def by blast+
  moreover have "count_where (\<lambda>c. P c \<and> Q c) t \<le> count_where P t" for P Q and t :: "challenge list"
    by (induction t) (auto simp: table_simps)
  ultimately show ?thesis by (metis order_trans)
qed

theorem sign_in_needs_code_witness:
  "sign_ins demo_phone ''000007'' demo_events = 1 \<and> 1 \<le> issued demo_phone ''000007'' demo_events"
proof -
  have "\<not> isTestPhone demo_cfg demo_phone" by (simp add: isTestPhone_def demo_cfg_def)
  moreover have "no_collision demo_lib demo_cfg demo_phone ''000007''"
    by (simp add: no_collision_def hashCode_def demo_lib_def)
  moreover have "sign_ins demo_phone ''000007'' demo_events = 1" by (simp add: sign_ins_def demo_events_def)
  ultimately show ?thesis using sign_in_needs_code[OF demo_run, of demo_phone "''000007''"] by simp
qed

text \<open>The law of the JWT library: a token it has signed is accepted within its times, which are kept in seconds.\<close>

definition in_seconds :: "claims \<Rightarrow> claims" where
  "in_seconds c = c\<lparr>IssuedAt := UnixS (IssuedAt c) * Second, NotBefore := UnixS (NotBefore c) * Second,
     ExpiresAt := UnixS (ExpiresAt c) * Second\<rparr>"

definition jwt_accepts_signed :: "auth_lib \<Rightarrow> bool" where
  "jwt_accepts_signed lib \<longleftrightarrow>
     (\<forall>c t leeway now. signed lib c = Some t \<longrightarrow> NotBefore (in_seconds c) \<le> now + leeway \<longrightarrow>
        now < ExpiresAt (in_seconds c) + leeway \<longrightarrow> TokAudience c = [Audience] \<longrightarrow>
        parsed lib (TokIssuer c) Audience leeway now t = Some (in_seconds c))"

lemma bearer_token [simp]: "bearer (''Bearer '' @ tok) = Some tok"
  by (simp add: bearer_def)

text \<open>
  C28. An access token is good for fifteen minutes. Whatever happens in a run after the sign-in or the
  refresh that handed it out: as long as no call has closed its session and the session was refreshed
  less than thirty days ago, the token passes the guard of exactly the endpoints that ask for no
  capability or for one the user had when the token was handed out. The handler sees that user, that
  session and those capabilities; a capability granted or revoked meanwhile counts from the next token
  on. Any other endpoint answers that this is forbidden.
\<close>
theorem sign_in_accepted:
  assumes "auth_run lib cfg evs r s"
    and "AccessIssued acc user sid cs now \<in> set evs" "SessionClosed sid \<notin> set evs"
    and "last_issue sid evs = Some refreshed" "dnow' < refreshed + RefreshTokenTTL"
    and "jwt_accepts_signed lib" "uuidParse lib sid = Some sid" "uuidParse lib user = Some user"
    and "now \<le> now'" "now' < now + AccessTokenTTL"
  shows "case RequireAuth lib now' dnow' capab (''Bearer '' @ acc) (identity s) of
      Inl e \<Rightarrow> e = ErrForbidden \<and> capab \<noteq> [] \<and> \<not> hasCap cs capab
    | Inr c \<Rightarrow> (capab = [] \<or> hasCap cs capab) \<and>
        FromRequest lib (Some c) = Some \<lparr>ActorUser = user, ActorSession = sid, ActorCaps = cs\<rparr>"
proof -
  let ?ss = "sessions (identity s)"
  have a: "access_ok lib evs ?ss" by (rule auth_run_access[OF assms(1)])
  then obtain x jti where x: "x \<in> set ?ss" "se_id x = sid" "se_user x = user"
    and s: "signed lib (access_claims user sid cs now jti) = Some acc"
    using assms(2) unfolding access_ok_def by blast
  have e: "se_expires x = refreshed + RefreshTokenTTL" using a x(1,2) assms(4) unfolding access_ok_def by fastforce
  have r: "se_revoked x = None"
    using auth_run_trail[OF assms(1)] assms(3) x(1,2) unfolding trail_def closed_dead_def by blast
  then have "\<exists>u \<in> set (users (identity s)). lu_id u = user \<and> lu_status u = Active"
    using run_ok[OF assms(1)] x(1,3) unfolding identity_ok_def sessions_ok_def by blast
  then have act: "SessionActive dnow' sid (identity s)"
    using x r e assms(5) unfolding SessionActive_def exists_where_iff by (intro bexI[of _ x]) auto
  let ?c = "access_claims user sid cs now jti"
  have "UnixS (now - 30 * Second) * Second \<le> now' + 30 * Second" "now' < UnixS (now + AccessTokenTTL) * Second + 30 * Second"
    using assms(9,10) div_bounds[of Second "now - 30 * Second"] div_bounds[of Second "now + AccessTokenTTL"] by (simp_all add: algebra_simps)
  then have v: "Verify lib now' acc = Some (in_seconds ?c)"
    using assms(6)[unfolded jwt_accepts_signed_def, rule_format, OF s, of now' "30 * Second"]
    by (simp add: Verify_def in_seconds_def access_claims_def)
  show ?thesis
    using assms(7,8) act unfolding RequireAuth_def bearer_token option.case v
    by (simp add: in_seconds_def access_claims_def FromRequest_def)
qed

theorem sign_in_accepted_witness:
  "case RequireAuth demo_lib (70 * Second) (70 * Second) ''CUSTOMER'' (''Bearer '' @ ''jwt'') (snd demo_refresh) of
     Inl e \<Rightarrow> False
   | Inr c \<Rightarrow> FromRequest demo_lib (Some c) = Some \<lparr>ActorUser = ''u1'', ActorSession = ''s1'', ActorCaps = [''CUSTOMER'']\<rparr>"
proof -
  have "jwt_accepts_signed demo_lib"
    by (auto simp: jwt_accepts_signed_def demo_lib_def in_seconds_def demo_claims_def AccessTokenTTL_def)
  moreover have "uuidParse demo_lib t = Some t" for t by (simp add: demo_lib_def)
  ultimately show ?thesis
    using sign_in_accepted[OF demo_run, of "''jwt''" "''u1''" "''s1''" "[''CUSTOMER'']" "60 * Second" "60 * Second" "70 * Second" "70 * Second" "''CUSTOMER''"]
    by (simp add: demo_events_def hasCap_def AccessTokenTTL_def RefreshTokenTTL_def split: sum.splits)
qed

text \<open>
  C31. The limit on attempts does not work. In every run no challenge ever counts an attempt, a sign-in
  that fails leaves everything as it was, and the answer that there were too many attempts is never
  given: as long as a code is valid, it can be guessed any number of times.
\<close>
theorem attempts_never_counted:
  assumes "auth_run lib cfg evs r s"
  shows "(\<forall>c \<in> set (challenges (identity s)). ch_attempts c = 0) \<and>
    (case VerifyOTP lib cfg now dnow u sid jti tok phone code locale dev (identity s) of
       (Inl e, i') \<Rightarrow> i' = identity s \<and> e \<noteq> ErrOTPTooMany
     | (Inr pair, i') \<Rightarrow> True)"
proof -
  let ?i = "identity s"
  have a: "\<forall>c \<in> set (challenges ?i). ch_attempts c = 0"
    using run_ok[OF assms] by (simp add: identity_ok_def challenges_ok_def)
  have v: "e \<noteq> ErrOTPTooMany" if "verifyChallenge lib cfg now dnow phone code ?i = (Inl e, i1)" for e i1
    using that a latest_challenge_in[of phone ?i]
    by (auto simp: verifyChallenge_def otpMaxAttempts_def err_defs split: if_split_asm option.splits)
  have l: "e \<noteq> ErrOTPTooMany" if "login_user dnow u phone locale i1 = (Inl e, i2)" for i1 e i2
    using that by (auto simp: login_user_def Let_def err_defs split: if_split_asm option.splits)
  have tx: "e \<noteq> ErrOTPTooMany" if t: "verify_tx lib cfg now dnow u sid jti tok phone code locale dev ?i = (Inl e, i')" for e i'
  proof (cases "verifyChallenge lib cfg now dnow phone code ?i")
    case 1: (Pair x i1)
    show ?thesis
    proof (cases x)
      case (Inl e1)
      then show ?thesis using t 1 v[of e1 i1] by (auto simp: verify_tx_def)
    next
      case (Inr y)
      obtain z i2 where 2: "login_user dnow u phone locale i1 = (z, i2)" by fastforce
      show ?thesis
      proof (cases z)
        case (Inl e2)
        then show ?thesis using t 1 2 Inr l[of i1 e2 i2] by (auto simp: verify_tx_def)
      next
        case z: (Inr w)
        then show ?thesis
          using t 1 2 Inr
          by (cases w) (auto simp: verify_tx_def open_session_def IssueAccess_def Let_def err_defs split: if_split_asm option.splits)
      qed
    qed
  qed
  obtain res i' where vo: "VerifyOTP lib cfg now dnow u sid jti tok phone code locale dev ?i = (res, i')" by fastforce
  show ?thesis
  proof (cases res)
    case (Inl e)
    have "e \<noteq> ErrOTPTooMany"
      using vo tx Inl by (auto simp: VerifyOTP_def begin_func_Inl_iff err_defs split: if_split_asm) (metis surjective_pairing)+
    then show ?thesis using a vo Inl failed_calls_roll_back(1) by auto
  qed (use a vo in auto)
qed

theorem attempts_never_counted_witness:
  "fst (VerifyOTP demo_lib demo_cfg 0 0 ''u'' ''s'' ''j'' ''t9'' demo_phone ''000000'' [] demo_device (snd demo_refresh)) = Inl ErrOTPInvalid \<and>
   snd (VerifyOTP demo_lib demo_cfg 0 0 ''u'' ''s'' ''j'' ''t9'' demo_phone ''000000'' [] demo_device (snd demo_refresh)) = snd demo_refresh"
proof -
  have e: "fst (VerifyOTP demo_lib demo_cfg 0 0 ''u'' ''s'' ''j'' ''t9'' demo_phone ''000000'' [] demo_device (snd demo_refresh)) = Inl ErrOTPInvalid"
    by code_simp
  then show ?thesis
    using attempts_never_counted[OF demo_run, of 0 0 "''u''" "''s''" "''j''" "''t9''" demo_phone "''000000''" "[]" demo_device]
    by (cases "VerifyOTP demo_lib demo_cfg 0 0 ''u'' ''s'' ''j'' ''t9'' demo_phone ''000000'' [] demo_device (snd demo_refresh)") auto
qed

subsection \<open>Sessions\<close>

text \<open>
  C30. A refresh token works once. After it was exchanged, at any later point of any run, exchanging
  it again is refused with \<open>SESSION_INVALID\<close> and changes nothing: no session is prolonged, and none is closed.
  This is less than the comment of \<open>Refresh\<close> (\<open>modules/auth/service.go\<close>, line 180) promises: there
  a token that comes back closes the whole session, in the code the session, and whoever holds its
  current token, goes on as before.
\<close>
theorem refresh_token_single_use:
  assumes "auth_run lib cfg evs r s" "TokenUsed tok \<in> set evs"
  shows "Refresh lib now dnow jti newtok tok (identity s) = (Inl ErrSessionInvalid, identity s) \<and>
    (\<forall>sid t. SessionActive t sid (snd (Refresh lib now dnow jti newtok tok (identity s))) = SessionActive t sid (identity s))"
proof -
  have "HashToken lib tok \<notin> se_hash ` set (sessions (identity s))"
    using auth_run_trail[OF assms(1)] assms(2) by (auto simp: trail_def tokens_dead_def)
  then have "find (\<lambda>x. se_hash x = HashToken lib tok) (sessions (identity s)) = None"
    unfolding find_None_iff_all by (metis imageI)
  then show ?thesis by (simp add: Refresh_def refresh_tx_def begin_func_def)
qed

theorem refresh_token_single_use_witness:
  "fst demo_refresh \<noteq> Inl ErrSessionInvalid \<and>
   fst (Refresh demo_lib (62 * Second) (62 * Second) ''j'' ''t3'' ''t1'' (snd demo_refresh)) = Inl ErrSessionInvalid"
  using refresh_token_single_use[OF demo_run, of "''t1''" "62 * Second" "62 * Second" "''j''" "''t3''"]
  by (simp add: demo_results demo_events_def)

text \<open>The session of the example is open after its first token came back, against the comment of \<open>Refresh\<close>.\<close>

lemma reuse_keeps_session:
  "SessionActive (62 * Second) ''s1'' (snd (Refresh demo_lib (62 * Second) (62 * Second) ''j'' ''t3'' ''t1'' (snd demo_refresh)))"
  by code_simp

text \<open>
  C29. A session that a call was asked to close is closed for good: the session that signs out, every
  session of the user who signs out everywhere, is blocked or deletes the account, the device
  that is removed. At any later point of any run no request that carries one of its access tokens
  passes a guard, and its refresh token is refused.
\<close>
theorem closed_session_dead:
  assumes "auth_run lib cfg evs r s" "SessionClosed sid \<in> set evs"
  shows "(\<forall>c. RequireAuth lib now dnow capab h (identity s) = Inr c \<longrightarrow> uuidParse lib (SessionID c) \<noteq> Some sid) \<and>
    (\<forall>x \<in> set (sessions (identity s)). se_id x = sid \<longrightarrow> se_hash x = HashToken lib tok \<longrightarrow>
       Refresh lib now dnow jti newtok tok (identity s) = (Inl ErrSessionInvalid, identity s))"
proof -
  let ?ss = "sessions (identity s)"
  have d: "distinct (map se_id ?ss)" using run_ok[OF assms(1)] by (simp add: identity_ok_def sessions_ok_def)
  have h: "distinct (map se_hash ?ss)" using auth_run_trail[OF assms(1)] by (simp add: trail_def tokens_dead_def)
  obtain y where y: "y \<in> set ?ss" "se_id y = sid" "se_revoked y \<noteq> None"
    using auth_run_trail[OF assms(1)] assms(2) unfolding trail_def closed_dead_def by blast
  then have only: "x = y" if "x \<in> set ?ss" "se_id x = sid" for x using distinct_keyD[OF d that(1) y(1)] that(2) by simp
  then have "\<not> SessionActive dnow sid (identity s)"
    using y only unfolding SessionActive_def exists_where_iff by metis
  moreover have "Refresh lib now dnow jti newtok tok (identity s) = (Inl ErrSessionInvalid, identity s)"
    if x: "x \<in> set ?ss" "se_id x = sid" "se_hash x = HashToken lib tok" for x
  proof -
    obtain z where z: "find (\<lambda>x. se_hash x = HashToken lib tok) ?ss = Some z"
      using x(1,3) by (metis (mono_tags, lifting) find_None_iff_all not_None_eq)
    have "z = y" using distinct_keyD[OF h, of z x] find_SomeD[OF z] x only by metis
    with z have "find (\<lambda>x. se_hash x = HashToken lib tok) ?ss = Some y" by simp
    then show ?thesis using y(3) by (simp add: Refresh_def refresh_tx_def begin_func_def)
  qed
  moreover have "uuidParse lib (SessionID c) \<noteq> Some sid" if "RequireAuth lib now dnow capab h (identity s) = Inr c" for c
    using that calculation(1) unfolding RequireAuth_def by (auto split: option.splits if_split_asm)
  ultimately show ?thesis by blast
qed

theorem closed_session_dead_witness:
  "RequireAuth demo_lib (70 * Second) (70 * Second) [] ''Bearer jwt'' (Logout (65 * Second) ''s1'' (snd demo_refresh)) = Inl ErrSessionInvalid"
proof -
  let ?i = "Logout (65 * Second) ''s1'' (snd demo_refresh)"
  let ?evs = "closing (\<lambda>x. se_id x = ''s1'') (identity (demo0\<lparr>identity := snd demo_refresh\<rparr>)) @ demo_events"
  have run: "auth_run demo_lib demo_cfg ?evs (fst (snd demo_request)) (demo0\<lparr>identity := snd demo_refresh\<rparr>\<lparr>identity := ?i\<rparr>)"
    by (rule auth_run.logout[OF demo_run]) simp
  have "map se_id (sessions (snd demo_refresh)) = [''s1'']" by code_simp
  then have "SessionClosed ''s1'' \<in> set ?evs" by (force simp: closing_def)
  note dead = closed_session_dead[OF run this, of "70 * Second" "70 * Second" "[]" "''Bearer jwt''"]
  have "bearer ''Bearer jwt'' = Some ''jwt''" "Verify demo_lib (70 * Second) ''jwt'' = Some demo_claims"
    "uuidParse demo_lib (SessionID demo_claims) = Some ''s1''" by code_simp+
  with dead show ?thesis by (auto simp: RequireAuth_def split: if_splits)
qed

subsection \<open>The first administrator\<close>

text \<open>
  The setting for the first administrator gives nothing as soon as there is one, and what it grants
  cannot be granted twice.
\<close>

definition has_admin :: "auth_db \<Rightarrow> bool" where
  "has_admin i \<longleftrightarrow> exists_where (\<lambda>c. cp_capability c = ''SUPER_ADMIN'' \<and> cp_revoked c = None) (caps i)"

lemma bootstrap_once: "has_admin i \<Longrightarrow> snd (BootstrapAdmin phone i) = i \<and> fst (BootstrapAdmin phone i) \<noteq> Inr True"
  by (simp add: has_admin_def BootstrapAdmin_def begin_func_def)

lemma bootstrap_grants:
  assumes "BootstrapAdmin phone i = (Inr True, i')" "\<forall>c \<in> set (caps i). cp_capability c \<noteq> ''SUPER_ADMIN''"
  shows "has_admin i' \<and> (\<exists>u \<in> set (users i). lu_phone u = Some phone \<and>
    caps i' = caps i @ [\<lparr>cp_user = lu_id u, cp_capability = ''SUPER_ADMIN'', cp_revoked = None\<rparr>])"
  using assms
  by (auto simp: has_admin_def BootstrapAdmin_def begin_func_def grant_new_def exists_where_iff
      split: if_splits option.splits dest: find_SomeD)

text \<open>An administrator whose capability was revoked is reported as granted, but gets nothing.\<close>

lemma bootstrap_revoked:
  assumes "PhoneValid phone" "find (\<lambda>x. lu_phone x = Some phone) (users i) = Some u" "\<not> has_admin i"
    and "\<lparr>cp_user = lu_id u, cp_capability = ''SUPER_ADMIN'', cp_revoked = Some t\<rparr> \<in> set (caps i)"
  shows "BootstrapAdmin phone i = (Inr True, i)"
  using assms by (force simp: has_admin_def BootstrapAdmin_def begin_func_def grant_new_def exists_where_iff PhoneValid_def)

text \<open>Blocking a user who does not exist, or whose account is deleted, is announced like a block.\<close>

lemma block_unknown:
  assumes "\<forall>u \<in> set (users i). lu_id u = user \<longrightarrow> lu_status u \<noteq> Active" "reason \<noteq> []"
  shows "fst (Block dnow ops user reason True i) = Inr () \<and> users (snd (Block dnow ops user reason True i)) = users i \<and>
    EventType (last (emitted (outbox (books (snd (Block dnow ops user reason True i)))))) = ''UserBlocked''"
proof -
  have "upd_where (\<lambda>x. lu_id x = user \<and> lu_status x = Active) f (users i) = users i" for f
    unfolding upd_where_def using assms(1) by (intro map_idI) auto
  then show ?thesis using assms(2) by (simp add: Block_def Let_def frame_simps user_emit_def)
qed

end
