(* ===== verification/Payouts.thy ===== *)
theory Payouts
  imports Rides
begin

text \<open>
  \<open>modules/payouts/payouts.go\<close>: the bank account of a driver, the earnings, and the payouts: Finance
  creates a batch, which debits every wallet with enough money, exports it for the bank, and records
  what the bank answers. None of this runs in one transaction: the debit, the item and the totals are
  statements of their own, so an error leaves behind what was done before it. \<open>date_trunc\<close>, which
  depends on the zone of the database session, is the parameter \<open>trunc\<close>; a query without an order
  answers in the order of the table.
\<close>

definition ErrIBAN [err_defs]: "ErrIBAN = API ''IBAN_INVALID'' 422 False []"

definition MinPayoutMinor :: int where "MinPayoutMinor = 500"

section \<open>Bank account numbers\<close>

definition iban_lengths :: "(string \<times> nat) list" where
  "iban_lengths = [(''XK'', 20), (''AL'', 28), (''DE'', 22), (''AT'', 20), (''CH'', 21), (''MK'', 19), (''ME'', 22), (''RS'', 22),
     (''IT'', 27), (''FR'', 27), (''NL'', 18), (''BE'', 16), (''GB'', 22), (''SI'', 19), (''HR'', 21)]"

text \<open>The loop over the rearranged characters: a letter counts as two digits, from 10 to 35.\<close>

fun iban_rem :: "int \<Rightarrow> string \<Rightarrow> int" where
  "iban_rem r [] = r"
| "iban_rem r (c # cs) =
     (if is_upper c then iban_rem ((r * 100 + (of_char c - 65 + 10)) mod 97) cs
      else iban_rem ((r * 10 + (of_char c - 48)) mod 97) cs)"

text \<open>
  \<open>strings.ToUpper\<close>, as far as the check of the characters can tell: beside the small letters, two
  characters outside ASCII have a capital in ASCII, the dotless i and the long s; every other one stays
  outside and is refused whatever it becomes.
\<close>

fun ToUpper :: "string \<Rightarrow> string" where
  "ToUpper [] = []"
| "ToUpper [c] = [to_upper c]"
| "ToUpper (c # d # cs) =
     (if c = CHR 0xC4 \<and> d = CHR 0xB1 then CHR ''I'' # ToUpper cs
      else if c = CHR 0xC5 \<and> d = CHR 0xBF then CHR ''S'' # ToUpper cs
      else to_upper c # ToUpper (d # cs))"

definition ValidIBAN :: "string \<Rightarrow> string option" where
  "ValidIBAN s =
     (let t = ToUpper (concat (Fields s))
      in if length t < 15 \<or> length t > 34 then None
         else if \<not> list_all (\<lambda>c. is_upper c \<or> is_digit c) t then None
         else if (case map_of iban_lengths (take 2 t) of None \<Rightarrow> False | Some n \<Rightarrow> length t \<noteq> n) then None
         else if iban_rem 0 (drop 4 t @ take 4 t) = 1 then Some t else None)"

definition MaskIBAN :: "string \<Rightarrow> string" where
  "MaskIBAN iban =
     (if length iban < 8 then ''****''
      else take 4 iban @ replicate (length iban - 8) (CHR ''*'') @ drop (length iban - 4) iban)"

section \<open>State\<close>

record bank_account =
  ba_driver :: uuid
  ba_holder :: string
  ba_iban :: string
  ba_bank :: "string option"
  ba_verified :: "time option"
  ba_updated :: time

datatype batch_status = BPending | BExported | BCompleted

record batch =
  bt_id :: uuid
  bt_start :: time
  bt_end :: time
  bt_status :: batch_status
  bt_total :: int
  bt_count :: int
  bt_created :: time
  bt_exported :: "time option"
  bt_completed :: "time option"

datatype item_status = IPending | IPaid | IFailed

record item =
  it_id :: uuid
  it_batch :: uuid
  it_driver :: uuid
  it_amount :: int
  it_currency :: string
  it_iban :: string
  it_holder :: string
  it_status :: item_status
  it_reason :: "string option"
  it_tx :: uuid
  it_created :: time

record payouts_db =
  bank_accounts :: "bank_account list"
  batches :: "batch list"
  items :: "item list"
  po_drivers :: "profile list"
  po_core :: core

definition po_audit :: "uuid \<Rightarrow> string \<Rightarrow> string \<Rightarrow> string \<Rightarrow> payload \<Rightarrow> core \<Rightarrow> core" where
  "po_audit a action tt ti meta c =
     c\<lparr>audit := audit c @ [\<lparr>au_actor = Some a, au_action = action, au_target_type = tt, au_target_id = ti, au_meta = meta\<rparr>]\<rparr>"

section \<open>The bank account of a driver\<close>

definition bank_view :: "bank_account \<Rightarrow> bank_account" where
  "bank_view b = b\<lparr>ba_iban := MaskIBAN (ba_iban b)\<rparr>"

definition SetBankAccount :: "time \<Rightarrow> uuid \<Rightarrow> string \<Rightarrow> string \<Rightarrow> string \<Rightarrow> (payouts_db, err, bank_account) op" where
  "SetBankAccount dnow user holder iban bank s =
     (let h = squash holder
      in if RuneCount h < 3 \<or> RuneCount h > 80 then (Inl (ErrValidation [(''holder_name'', ''invalid'')]), s)
         else case ValidIBAN iban of
           None \<Rightarrow> (Inl ErrIBAN, s)
         | Some t \<Rightarrow>
             begin_func (\<lambda>s.
               if \<not> exists_where (\<lambda>p. UserID p = user) (po_drivers s) then (Inl ErrForbidden, s)
               else let b = \<lparr>ba_driver = user, ba_holder = h, ba_iban = t, ba_bank = nullable (TrimSpace bank),
                             ba_verified = None, ba_updated = dnow\<rparr>;
                        here = (\<lambda>x. ba_driver x = user);
                        bs = (if exists_where here (bank_accounts s) then upd_where here (\<lambda>_. b) (bank_accounts s)
                              else bank_accounts s @ [b])
                    in (Inr (bank_view b), s\<lparr>bank_accounts := bs,
                          po_core := po_audit user ''driver.bank_account_updated'' ''driver'' user
                            [(''iban_masked'', JStr (MaskIBAN t))] (po_core s)\<rparr>)) s)"

definition BankAccount :: "uuid \<Rightarrow> payouts_db \<Rightarrow> bank_account option" where
  "BankAccount user s = map_option bank_view (find (\<lambda>b. ba_driver b = user) (bank_accounts s))"

section \<open>Earnings\<close>

record earnings =
  BalanceMinor :: int
  TodayMinor :: int
  WeekMinor :: int
  MonthMinor :: int
  RidesToday :: nat
  RidesWeek :: nat
  CashCollected :: int

definition earned_since :: "string \<Rightarrow> time \<Rightarrow> core \<Rightarrow> int" where
  "earned_since code t c =
     sum_where (\<lambda>e. en_account e = code \<and> en_created e \<ge> t \<and>
         exists_where (\<lambda>x. lt_id x = en_tx e \<and> lt_kind x \<in> {''ride_fare'', ''ride_cash_commission''}) (ltxs c))
       (\<lambda>e. en_credit e - en_debit e) (entries c)"

definition completed_since :: "uuid \<Rightarrow> time \<Rightarrow> ride \<Rightarrow> bool" where
  "completed_since d t r \<longleftrightarrow> rd_driver r = Some d \<and> rd_state r = Completed \<and>
     (case rd_completed_at r of None \<Rightarrow> False | Some x \<Rightarrow> x \<ge> t)"

definition Earnings :: "(string \<Rightarrow> time \<Rightarrow> time) \<Rightarrow> time \<Rightarrow> uuid \<Rightarrow> ride list \<Rightarrow> (payouts_db, err, earnings) op" where
  "Earnings trunc dnow d rs s =
     (let code = DriverWalletCode d;
          c = EnsureAccount code ''driver'' (Some d) ''liability'' ''EUR'' (po_core s);
          s' = s\<lparr>po_core := c\<rparr>
      in case Balance code c of
           Inl e \<Rightarrow> (Inl e, s')
         | Inr b \<Rightarrow>
             (Inr \<lparr>BalanceMinor = Minor b,
                TodayMinor = earned_since code (trunc ''day'' dnow) c,
                WeekMinor = earned_since code (trunc ''week'' dnow) c,
                MonthMinor = earned_since code (trunc ''month'' dnow) c,
                RidesToday = count_where (completed_since d (trunc ''day'' dnow)) rs,
                RidesWeek = count_where (completed_since d (trunc ''week'' dnow)) rs,
                CashCollected = sum_where (\<lambda>r. completed_since d (trunc ''week'' dnow) r \<and> rd_method r = Cash)
                  (\<lambda>r. case rd_final r of None \<Rightarrow> 0 | Some p \<Rightarrow> p) rs\<rparr>, s'))"

section \<open>Payouts\<close>

text \<open>A candidate: the driver, the account number and the holder.\<close>

definition candidates :: "payouts_db \<Rightarrow> bank_account list" where
  "candidates s =
     List.map_filter (\<lambda>p. if DStatus p = Approved_status then find (\<lambda>b. ba_driver b = UserID p) (bank_accounts s) else None)
       (po_drivers s)"

definition payout_tx :: "uuid \<Rightarrow> uuid \<Rightarrow> uuid \<Rightarrow> int \<Rightarrow> transaction" where
  "payout_tx batch i d amount =
     \<lparr>Kind = ''driver_payout'', Reference = ''payout_item:'' @ i, IdempotencyKey = ''payout:'' @ batch @ '':'' @ d,
      TxCurrency = ''EUR'', Postings = [debit (DriverWalletCode d) amount, credit ''krejt:payout_clearing'' amount]\<rparr>"

text \<open>The statement that stores an item: its unique constraints and its check.\<close>

definition insert_item :: "item \<Rightarrow> (payouts_db, err, unit) op" where
  "insert_item x s =
     (if exists_where (\<lambda>y. it_id y = it_id x \<or> (it_batch y = it_batch x \<and> it_driver y = it_driver x)) (items s) then (Inl PgUnique, s)
      else if it_amount x \<le> 0 then (Inl PgCheck, s)
      else (Inr (), s\<lparr>items := items s @ [x]\<rparr>))"

text \<open>
  The loop of \<open>CreateBatch\<close> over the candidates; \<open>ids k\<close> are the identifiers of the item and of the
  ledger transaction that the k-th round generates. The answer is the tot and the number of items.
\<close>

fun pay_candidates ::
  "time \<Rightarrow> (nat \<Rightarrow> uuid \<times> uuid) \<Rightarrow> nat \<Rightarrow> uuid \<Rightarrow> bank_account list \<Rightarrow> int \<Rightarrow> int \<Rightarrow> (payouts_db, err, int \<times> int) op" where
  "pay_candidates dnow ids k b [] tot n s = (Inr (tot, n), s)"
| "pay_candidates dnow ids k b (c # cs) tot n s =
     (case Balance (DriverWalletCode (ba_driver c)) (po_core s) of
        Inl e \<Rightarrow> if e \<noteq> LedgerAccountMissing then (Inl e, s) else pay_candidates dnow ids (Suc k) b cs tot n s
      | Inr a \<Rightarrow>
          if Minor a < MinPayoutMinor then pay_candidates dnow ids (Suc k) b cs tot n s
          else case Post dnow (snd (ids k)) (payout_tx b (fst (ids k)) (ba_driver c) (Minor a)) (po_core s) of
                 (Inl e, core) \<Rightarrow> (Inl e, s\<lparr>po_core := core\<rparr>)
               | (Inr tx, core) \<Rightarrow>
                   (case insert_item \<lparr>it_id = fst (ids k), it_batch = b, it_driver = ba_driver c, it_amount = Minor a,
                            it_currency = ''EUR'', it_iban = ba_iban c, it_holder = ba_holder c, it_status = IPending,
                            it_reason = None, it_tx = tx, it_created = dnow\<rparr> (s\<lparr>po_core := core\<rparr>) of
                      (Inl e, s1) \<Rightarrow> (Inl e, s1)
                    | (Inr _, s1) \<Rightarrow> pay_candidates dnow ids (Suc k) b cs (add64 tot (Minor a)) (n + 1) s1))"

text \<open>The columns of the period are dates; the instants are in UTC.\<close>

definition date_of :: "time \<Rightarrow> time" where "date_of t = t - t mod (24 * Hour)"

definition new_batch :: "time \<Rightarrow> uuid \<Rightarrow> time \<Rightarrow> time \<Rightarrow> batch" where
  "new_batch dnow i start till =
     \<lparr>bt_id = i, bt_start = date_of start, bt_end = date_of till, bt_status = BPending, bt_total = 0, bt_count = 0, bt_created = dnow,
      bt_exported = None, bt_completed = None\<rparr>"

definition CreateBatch ::
  "time \<Rightarrow> uuid \<Rightarrow> (nat \<Rightarrow> uuid \<times> uuid) \<Rightarrow> uuid \<Rightarrow> time \<Rightarrow> time \<Rightarrow> (payouts_db, err, batch) op" where
  "CreateBatch dnow i ids finance start till s =
     (if \<not> till > start then (Inl (ErrValidation [(''period'', ''invalid'')]), s)
      else if exists_where (\<lambda>b. bt_id b = i) (batches s) then (Inl PgUnique, s)
      else let s0 = s\<lparr>batches := batches s @ [new_batch dnow i start till]\<rparr>
           in case pay_candidates dnow ids 0 i (candidates s0) 0 0 s0 of
                (Inl e, s1) \<Rightarrow> (Inl e, s1)
              | (Inr (tot, n), s1) \<Rightarrow>
                  (case find (\<lambda>b. bt_id b = i) (batches s1) of
                     None \<Rightarrow> (Inl NoRows, s1)
                   | Some b \<Rightarrow>
                       let b' = b\<lparr>bt_total := tot, bt_count := n\<rparr>
                       in (Inr b', s1\<lparr>batches := upd_where (\<lambda>b. bt_id b = i) (\<lambda>b. b\<lparr>bt_total := tot, bt_count := n\<rparr>) (batches s1),
                             po_core := (let c = po_audit finance ''payouts.batch_created'' ''payout_batch'' i
                                 [(''total_minor'', JInt tot), (''items'', JInt n)] (po_core s1)
                               in c\<lparr>outbox := Emit dnow ''payout_batch'' i ''PayoutBatchCreated''
                                 [(''batch_id'', JStr i), (''total_minor'', JInt tot), (''items'', JInt n)] (outbox c)\<rparr>)\<rparr>)))"

subsection \<open>Export\<close>

text \<open>\<open>encoding/csv\<close>: when a field is quoted, and how.\<close>

definition fieldNeedsQuotes :: "string \<Rightarrow> bool" where
  "fieldNeedsQuotes f =
     (if f = [] then False
      else if f = [CHR 0x5C, CHR ''.''] then True
      else list_ex (\<lambda>c. c \<in> {CHR '','', CHR 0x22, CHR 0x0D, CHR 0x0A}) f \<or> is_space (hd f))"

definition csv_field :: "string \<Rightarrow> string" where
  "csv_field f =
     (if fieldNeedsQuotes f
      then [CHR 0x22] @ concat (map (\<lambda>c. if c = CHR 0x22 then [CHR 0x22, CHR 0x22] else [c]) f) @ [CHR 0x22] else f)"

definition csv_line :: "string list \<Rightarrow> string" where
  "csv_line fs = join_with '','' (map csv_field fs) @ [CHR 0x0A]"

text \<open>\<open>fmt.Sprintf("%d.%02d", amount/100, amount%100)\<close>; the amount of an item is positive.\<close>

definition show_euros :: "int \<Rightarrow> string" where
  "show_euros n = show_int (quot n 100) @ ''.'' @ show_02 (rem n 100)"

definition export_line :: "item \<Rightarrow> string list" where
  "export_line x = [it_id x, it_driver x, show_euros (it_amount x), TrimSpace (it_currency x), it_iban x, it_holder x,
     ''KREJT payout '' @ take 8 (it_id x)]"

definition ExportCSV :: "time \<Rightarrow> uuid \<Rightarrow> uuid \<Rightarrow> (payouts_db, err, string) op" where
  "ExportCSV dnow finance i s =
     (let xs = sort_key it_created (filter (\<lambda>x. it_batch x = i \<and> it_status x = IPending) (items s))
      in if xs = [] then (Inl ErrNotFound, s)
         else (Inr (concat (map csv_line ([''item_id'', ''driver_id'', ''amount'', ''currency'', ''iban'', ''holder_name'', ''reference'']
                     # map export_line xs))),
               s\<lparr>batches := upd_where (\<lambda>b. bt_id b = i \<and> bt_status b \<in> {BPending, BExported})
                   (\<lambda>b. b\<lparr>bt_status := BExported, bt_exported := (case bt_exported b of None \<Rightarrow> Some dnow | Some t \<Rightarrow> Some t)\<rparr>) (batches s),
                 po_core := po_audit finance ''payouts.batch_exported'' ''payout_batch'' i [(''items'', JInt (int (length xs)))] (po_core s)\<rparr>))"

subsection \<open>The answers of the bank\<close>

definition payout_reversal_tx :: "item \<Rightarrow> transaction" where
  "payout_reversal_tx x =
     \<lparr>Kind = ''driver_payout_reversal'', Reference = ''payout_item:'' @ it_id x, IdempotencyKey = ''payout_reversal:'' @ it_id x,
      TxCurrency = TrimSpace (it_currency x),
      Postings = [debit ''krejt:payout_clearing'' (it_amount x), credit (DriverWalletCode (it_driver x)) (it_amount x)]\<rparr>"

definition item_view :: "item \<Rightarrow> item" where
  "item_view x = x\<lparr>it_iban := MaskIBAN (it_iban x), it_currency := TrimSpace (it_currency x)\<rparr>"

definition close_batch :: "time \<Rightarrow> uuid \<Rightarrow> payouts_db \<Rightarrow> payouts_db" where
  "close_batch dnow i s =
     (if exists_where (\<lambda>x. it_batch x = i \<and> it_status x = IPending) (items s) then s
      else s\<lparr>batches := upd_where (\<lambda>b. bt_id b = i) (\<lambda>b. b\<lparr>bt_status := BCompleted, bt_completed := Some dnow\<rparr>) (batches s)\<rparr>)"

text \<open>The first statement of \<open>SettleItem\<close>, which only finds an item that is still pending.\<close>

definition mark_item :: "uuid \<Rightarrow> string \<Rightarrow> string \<Rightarrow> payouts_db \<Rightarrow> item option \<times> payouts_db" where
  "mark_item i status reason s =
     (case find (\<lambda>x. it_id x = i \<and> it_status x = IPending) (items s) of
        None \<Rightarrow> (None, s)
      | Some x \<Rightarrow>
          let x' = x\<lparr>it_status := (if status = ''paid'' then IPaid else IFailed), it_reason := nullable reason\<rparr>
          in (Some x', s\<lparr>items := upd_where (\<lambda>y. it_id y = i \<and> it_status y = IPending) (\<lambda>_. x') (items s)\<rparr>))"

definition SettleItem ::
  "time \<Rightarrow> uuid \<Rightarrow> uuid \<Rightarrow> uuid \<Rightarrow> string \<Rightarrow> string \<Rightarrow> (payouts_db, err, item) op" where
  "SettleItem dnow txi finance i status reason s =
     (if status \<noteq> ''paid'' \<and> status \<noteq> ''failed'' then (Inl (ErrValidation [(''status'', ''invalid'')]), s)
      else case mark_item i status reason s of
        (None, s1) \<Rightarrow> (Inl ErrNotFound, s1)
      | (Some x, s1) \<Rightarrow>
          (case (if status = ''failed'' then Post dnow txi (payout_reversal_tx x) (po_core s1) else (Inr [], po_core s1)) of
             (Inl e, c) \<Rightarrow> (Inl e, s1\<lparr>po_core := c\<rparr>)
           | (Inr _, c) \<Rightarrow>
               let c1 = po_audit finance ''payouts.item_settled'' ''payout_item'' i
                     [(''status'', JStr status), (''reason'', JStr reason), (''driver_id'', JStr (it_driver x)), (''amount_minor'', JInt (it_amount x))] c;
                   s2 = close_batch dnow (it_batch x) (s1\<lparr>po_core := c1\<rparr>);
                   c2 = po_core s2
               in (Inr (item_view x), s2\<lparr>po_core := c2\<lparr>outbox := Emit dnow ''payout_item'' i ''DriverPayoutSettled''
                     [(''item_id'', JStr i), (''driver_id'', JStr (it_driver x)), (''status'', JStr status), (''amount_minor'', JInt (it_amount x))]
                     (outbox c2)\<rparr>\<rparr>)))"

subsection \<open>Lists\<close>

definition Batches :: "int \<Rightarrow> payouts_db \<Rightarrow> batch list" where
  "Batches limit s =
     take (nat (if limit \<le> 0 \<or> limit > 100 then 20 else limit)) (sort_key (\<lambda>b. - bt_created b) (batches s))"

definition Items :: "uuid option \<Rightarrow> uuid option \<Rightarrow> int \<Rightarrow> payouts_db \<Rightarrow> item list" where
  "Items b d limit s =
     map item_view (take (nat (if limit \<le> 0 \<or> limit > 500 then 100 else limit))
       (sort_key (\<lambda>x. - it_created x)
         (filter (\<lambda>x. (b = None \<or> b = Some (it_batch x)) \<and> (d = None \<or> d = Some (it_driver x))) (items s))))"

section \<open>The check digits\<close>

text \<open>The number a rearranged account number stands for, as the standard writes it.\<close>

definition iban_step :: "int \<Rightarrow> char \<Rightarrow> int" where
  "iban_step r c = (if is_upper c then r * 100 + (of_char c - 65 + 10) else r * 10 + (of_char c - 48))"

definition iban_number :: "string \<Rightarrow> int" where "iban_number s = foldl iban_step 0 s"

fun iban_scale :: "string \<Rightarrow> int" where
  "iban_scale [] = 1"
| "iban_scale (c # cs) = (if is_upper c then 100 else 10) * iban_scale cs"

lemma iban_rem_foldl: "iban_rem (r mod 97) s = foldl iban_step r s mod 97"
proof (induction s arbitrary: r)
  case (Cons c cs)
  have m: "(r mod 97 * b + x) mod 97 = (r * b + x) mod 97" for b x :: int
    by (metis mod_add_left_eq mod_mult_left_eq)
  have "iban_rem (r mod 97) (c # cs) = iban_rem (iban_step r c mod 97) cs"
    by (cases "is_upper c") (simp_all only: iban_rem.simps iban_step_def m if_True if_False)
  then show ?case using Cons.IH by simp
qed simp

lemma iban_rem_number: "iban_rem 0 s = iban_number s mod 97"
  using iban_rem_foldl[of 0 s] by (simp add: iban_number_def)

lemma foldl_iban_shift: "foldl iban_step (r + d) s = foldl iban_step r s + d * iban_scale s"
proof (induction s arbitrary: r d)
  case (Cons c cs)
  have "iban_step (r + d) c = iban_step r c + d * (if is_upper c then 100 else 10)"
    by (simp add: iban_step_def algebra_simps)
  then show ?case using Cons.IH by (simp add: mult.assoc)
qed simp

lemma coprime_iban_scale: "coprime 97 (iban_scale s)"
proof -
  have "coprime (97::int) 10" "coprime (97::int) 100" by (simp_all add: coprime_iff_gcd_eq_1 gcd_non_0_int)
  then show ?thesis by (induction s) auto
qed

lemma iban_number_update:
  assumes "j < length s" "is_upper c = is_upper (s ! j)"
  shows "iban_number (s[j := c]) - iban_number s = (of_char c - of_char (s ! j)) * iban_scale (drop (Suc j) s)"
proof -
  let ?r = "foldl iban_step 0 (take j s)"
  have "iban_step ?r c = iban_step ?r (s ! j) + (of_char c - of_char (s ! j))"
    using assms(2) by (simp add: iban_step_def)
  then have "iban_number (take j s @ c # drop (Suc j) s)
      = iban_number (take j s @ s ! j # drop (Suc j) s) + (of_char c - of_char (s ! j)) * iban_scale (drop (Suc j) s)"
    by (simp add: iban_number_def foldl_iban_shift)
  then show ?thesis using assms(1) by (simp add: upd_conv_take_nth_drop id_take_nth_drop[symmetric])
qed

lemma close_dvd:
  assumes "97 dvd int a - int b" "a \<le> 90" "b \<le> 90"
  shows "a = b"
proof -
  from assms(1) obtain k where "int a - int b = 97 * k" by (rule dvdE)
  with assms(2,3) show ?thesis by (cases "k = 0") auto
qed

text \<open>One wrong character of the same kind changes the remainder.\<close>

lemma iban_update_mod:
  assumes "j < length s" "c \<noteq> s ! j" "is_upper c = is_upper (s ! j)"
    and "\<forall>x \<in> {c, s ! j}. is_upper x \<or> is_digit x"
  shows "iban_number (s[j := c]) mod 97 \<noteq> iban_number s mod 97"
proof
  assume "iban_number (s[j := c]) mod 97 = iban_number s mod 97"
  then have "97 dvd (of_char c - of_char (s ! j)) * iban_scale (drop (Suc j) s)"
    using iban_number_update[OF assms(1,3)] by (metis mod_eq_dvd_iff)
  then have d: "97 dvd (of_char c - of_char (s ! j) :: int)"
    using coprime_iban_scale by (simp add: coprime_dvd_mult_left_iff)
  have u: "(of_char x :: nat) \<le> 90" if "is_upper x \<or> is_digit x" for x
    using that by (auto simp: is_upper_def is_digit_def)
  have "97 dvd int (of_char c) - int (of_char (s ! j))" using d by (simp only: of_nat_of_char)
  then have "(of_char c :: nat) = of_char (s ! j)" using u assms(4) by (intro close_dvd) auto
  then show False using assms(2) by simp
qed

lemma concat_split_fields: "\<forall>c \<in> set s. \<not> is_space c \<Longrightarrow> concat (split_fields acc s) = rev acc @ s"
  by (induction s arbitrary: acc) auto

lemma ToUpper_id: "\<forall>c \<in> set s. is_upper c \<or> is_digit c \<Longrightarrow> ToUpper s = s"
proof (induction s rule: ToUpper.induct)
  case (2 c) then show ?case by (auto simp: to_upper_def is_upper_def is_digit_def is_lower_def)
next
  case (3 c d cs)
  have "c \<noteq> CHR 0xC4" "c \<noteq> CHR 0xC5" using "3.prems" by (auto simp: is_upper_def is_digit_def)
  moreover have "to_upper c = c" using "3.prems" by (auto simp: to_upper_def is_upper_def is_digit_def is_lower_def)
  ultimately show ?case using "3.prems" "3.IH"(3) by auto
qed simp

lemma plain_iban:
  assumes "\<forall>c \<in> set t. is_upper c \<or> is_digit c"
  shows "ToUpper (concat (Fields t)) = t"
proof -
  have "\<forall>c \<in> set t. \<not> is_space c" using assms by (auto simp: is_space_def is_upper_def is_digit_def)
  then show ?thesis using assms by (simp add: Fields_def concat_split_fields ToUpper_id)
qed

definition iban_shape :: "string \<Rightarrow> bool" where
  "iban_shape t \<longleftrightarrow> 15 \<le> length t \<and> length t \<le> 34 \<and> (\<forall>c \<in> set t. is_upper c \<or> is_digit c) \<and>
     (\<forall>n. map_of iban_lengths (take 2 t) = Some n \<longrightarrow> length t = n)"

lemma ValidIBAN_number:
  "ValidIBAN s = (let t = ToUpper (concat (Fields s))
     in if iban_shape t \<and> iban_number (drop 4 t @ take 4 t) mod 97 = 1 then Some t else None)"
  by (auto simp: ValidIBAN_def iban_shape_def Let_def iban_rem_number list_all_iff split: option.splits)

text \<open>Moving the first four characters to the end moves the place of a change.\<close>

lemma rearranged_update:
  assumes "i < length t" "4 \<le> length t"
  obtains j where "j < length t" "drop 4 (t[i := c]) @ take 4 (t[i := c]) = (drop 4 t @ take 4 t)[j := c]"
    "(drop 4 t @ take 4 t) ! j = t ! i"
proof (cases "i < 4")
  case True
  have "(drop 4 t @ take 4 t)[length (drop 4 t) + i := c] = drop 4 t @ (take 4 t)[i := c]"
    by (simp only: list_update_length list_update_append) simp
  then have "drop 4 (t[i := c]) @ take 4 (t[i := c]) = (drop 4 t @ take 4 t)[length t - 4 + i := c]"
    using True by (simp add: drop_update_cancel take_update_swap)
  moreover have "(drop 4 t @ take 4 t) ! (length t - 4 + i) = t ! i"
    using True assms nth_append_length_plus[of "drop 4 t" "take 4 t" i] by simp
  moreover have "length t - 4 + i < length t" using True assms by simp
  ultimately show ?thesis using that by blast
next
  case False
  have lt: "i - 4 < length t - 4" using False assms(1) by arith
  then have "drop 4 (t[i := c]) @ take 4 (t[i := c]) = (drop 4 t @ take 4 t)[i - 4 := c]"
    using False by (simp add: list_update_append drop_update_swap)
  moreover have "(drop 4 t @ take 4 t) ! (i - 4) = t ! i"
    using False assms lt by (simp add: nth_append)
  moreover have "i - 4 < length t" using False assms by simp
  ultimately show ?thesis using that by blast
qed

text \<open>
  C35. The check digits of an account number catch every single wrong character: from an accepted
  number, replacing any one digit by another digit, or any one letter by another letter, wherever it
  stands, gives a number that is refused.
\<close>
theorem one_wrong_character:
  assumes "ValidIBAN s = Some t" "i < length t" "c \<noteq> t ! i"
    and "is_upper c \<and> is_upper (t ! i) \<or> is_digit c \<and> is_digit (t ! i)"
  shows "ValidIBAN (t[i := c]) = None"
proof -
  have t: "iban_shape t" "iban_number (drop 4 t @ take 4 t) mod 97 = 1"
    using assms(1) by (auto simp: ValidIBAN_number Let_def split: if_splits)
  then have len: "4 \<le> length t" by (simp add: iban_shape_def)
  obtain j where j: "j < length t" "drop 4 (t[i := c]) @ take 4 (t[i := c]) = (drop 4 t @ take 4 t)[j := c]"
    "(drop 4 t @ take 4 t) ! j = t ! i" using rearranged_update[OF assms(2) len] .
  have "\<forall>x \<in> set (t[i := c]). is_upper x \<or> is_digit x"
    using t(1) assms(4) set_update_subset_insert[of t i c] by (auto simp: iban_shape_def)
  then have n: "ToUpper (concat (Fields (t[i := c]))) = t[i := c]" by (rule plain_iban)
  have k: "is_upper c = is_upper (t ! i)" using assms(4) by (auto simp: is_upper_def is_digit_def)
  have "iban_number ((drop 4 t @ take 4 t)[j := c]) mod 97 \<noteq> iban_number (drop 4 t @ take 4 t) mod 97"
    by (rule iban_update_mod) (use j len assms(3,4) k in auto)
  then show ?thesis using t(2) j(2) by (simp add: ValidIBAN_number n)
qed

theorem one_wrong_character_witness:
  "ValidIBAN ''XK05 1212 0123 4567 8906'' = Some ''XK051212012345678906'' \<and>
   ValidIBAN (''XK051212012345678906''[7 := CHR ''9'']) = None \<and> ValidIBAN (''XK051212012345678906''[0 := CHR ''Y'']) = None"
proof -
  have v: "ValidIBAN ''XK05 1212 0123 4567 8906'' = Some ''XK051212012345678906''" by code_simp
  have "ValidIBAN (''XK051212012345678906''[7 := CHR ''9'']) = None"
    by (rule one_wrong_character[OF v]) (code_simp; simp)+
  moreover have "ValidIBAN (''XK051212012345678906''[0 := CHR ''Y'']) = None"
    by (rule one_wrong_character[OF v]) (code_simp; simp)+
  ultimately show ?thesis using v by blast
qed

end
