(* ===== verification/PayoutSafety.thy ===== *)
theory PayoutSafety
  imports Payouts
begin

text \<open>
  What the payouts of \<open>modules/payouts/payouts.go\<close> do to the ledger: the loop of \<open>CreateBatch\<close>, which
  debits one wallet after the other, computes the items that \<open>payout_items\<close> reads off the balances at
  the start; and the invariant of the service along runs in which batches, answers of the bank and the
  transactions of the other modules interleave.
\<close>

section \<open>What a batch pays\<close>

text \<open>
  The specification of a batch: every candidate whose balance, as it is when the batch begins, reaches
  the minimum gets an item of that balance.
\<close>

fun payout_items :: "time \<Rightarrow> (nat \<Rightarrow> uuid \<times> uuid) \<Rightarrow> nat \<Rightarrow> uuid \<Rightarrow> bank_account list \<Rightarrow> core \<Rightarrow> item list" where
  "payout_items dnow ids k b [] c = []"
| "payout_items dnow ids k b (x # xs) c =
     (let a = bal (DriverWalletCode (ba_driver x)) c
      in (if a < MinPayoutMinor then []
          else [\<lparr>it_id = fst (ids k), it_batch = b, it_driver = ba_driver x, it_amount = a, it_currency = ''EUR'',
                 it_iban = ba_iban x, it_holder = ba_holder x, it_status = IPending, it_reason = None,
                 it_tx = snd (ids k), it_created = dnow\<rparr>]) @ payout_items dnow ids (Suc k) b xs c)"

definition clearing :: string where "clearing = ''krejt:payout_clearing''"

text \<open>What the loop needs: a sound ledger in one currency, and identifiers that were never used.\<close>

definition euro_ledger :: "core \<Rightarrow> bool" where
  "euro_ledger c \<longleftrightarrow> ledger_inv c \<and> (\<forall>a \<in> set (accounts c). ac_currency a = ''EUR'') \<and> clearing \<in> ac_code ` set (accounts c)"

definition payout_key :: "uuid \<Rightarrow> uuid \<Rightarrow> string" where "payout_key b d = ''payout:'' @ b @ '':'' @ d"

definition fresh_ids :: "(nat \<Rightarrow> uuid \<times> uuid) \<Rightarrow> nat \<Rightarrow> payouts_db \<Rightarrow> bool" where
  "fresh_ids ids k s \<longleftrightarrow>
     (\<forall>i \<ge> k. fst (ids i) \<notin> it_id ` set (items s) \<and> snd (ids i) \<notin> lt_id ` set (ltxs (po_core s)) \<and>
        (\<forall>j. j > i \<longrightarrow> fst (ids j) \<noteq> fst (ids i) \<and> snd (ids j) \<noteq> snd (ids i)))"

lemma wallet_inj [simp]: "DriverWalletCode d = DriverWalletCode e \<longleftrightarrow> d = e"
  by (simp add: DriverWalletCode_def)

lemma wallet_not_clearing [simp]: "DriverWalletCode d \<noteq> clearing" "clearing \<noteq> DriverWalletCode d"
  by (simp_all add: DriverWalletCode_def clearing_def)

lemma bal_no_account: "ledger_inv c \<Longrightarrow> a \<notin> ac_code ` set (accounts c) \<Longrightarrow> bal a c = 0"
  by (force simp: bal_def ledger_inv_def intro!: sum_where_False)

lemma Balance_cases:
  assumes "ledger_inv c"
  obtains (missing) "Balance a c = Inl LedgerAccountMissing" "bal a c = 0"
  | (there) x where "Balance a c = Inr x" "Minor x = bal a c" "a \<in> ac_code ` set (accounts c)"
proof (cases "find (\<lambda>y. ac_code y = a) (accounts c)")
  case None
  then have "a \<notin> ac_code ` set (accounts c)" by (auto simp: find_None_iff_all)
  then show ?thesis using bal_no_account[OF assms] None by (intro missing) (simp_all add: Balance_def)
next
  case (Some y)
  then obtain x where x: "Balance a c = Inr x" by (simp add: Balance_def)
  show ?thesis using find_SomeD[OF Some] by (intro there[OF x Balance_bal[OF x]]) auto
qed

lemma payout_tx_simps [simp]:
  "IdempotencyKey (payout_tx b i d a) = payout_key b d"
  "net c (Postings (payout_tx b i d a)) = (if c = DriverWalletCode d then - a else 0) + (if c = clearing then a else 0)"
  by (simp_all add: payout_tx_def payout_key_def clearing_def table_simps)

text \<open>The debit of one wallet succeeds.\<close>

lemma payout_posts:
  assumes "euro_ledger c" "DriverWalletCode d \<in> ac_code ` set (accounts c)" "0 < a"
    and "\<not> posted (payout_key b d) c" "t \<notin> lt_id ` set (ltxs c)"
  shows "fst (Post dnow t (payout_tx b i d a) c) = Inr t"
proof (rule Post_succeeds)
  show "ledger_inv c" using assms(1) by (simp add: euro_ledger_def)
  show "\<not> posted (IdempotencyKey (payout_tx b i d a)) c" using assms(4) by simp
  show "\<forall>p\<in>set (Postings (payout_tx b i d a)). \<exists>x\<in>set (accounts c). ac_code x = AccountCode p \<and>
      ac_currency x = (if TxCurrency (payout_tx b i d a) = [] then ''EUR'' else TxCurrency (payout_tx b i d a))"
    using assms(1,2) by (auto simp: payout_tx_def euro_ledger_def clearing_def)
qed (use assms in \<open>simp_all add: payout_tx_def Validate_def DriverWalletCode_def\<close>)

lemma posted_after: "posted k (snd (Post now i tx c)) \<Longrightarrow> posted k c \<or> k = IdempotencyKey tx"
  using lg.post_only_marks[of k "(now, i)" tx c] by simp

lemma ltx_ids_after: "lt_id ` set (ltxs (snd (Post now i tx c))) \<subseteq> insert i (lt_id ` set (ltxs c))"
  by (cases rule: Post_cases[of now i tx c]) auto

lemma euro_after: "euro_ledger c \<Longrightarrow> euro_ledger (snd (Post now i tx c))"
  by (simp add: euro_ledger_def Post_inv frame_simps)

lemma payout_items_cong:
  "(\<And>x. x \<in> set xs \<Longrightarrow> bal (DriverWalletCode (ba_driver x)) c = bal (DriverWalletCode (ba_driver x)) c') \<Longrightarrow>
   payout_items dnow ids k b xs c = payout_items dnow ids k b xs c'"
  by (induction xs arbitrary: k) (auto simp: Let_def)

lemma payout_items_drivers:
  "x \<in> set (payout_items dnow ids k b xs c) \<Longrightarrow> it_driver x \<in> ba_driver ` set xs \<and> it_batch x = b \<and> it_status x = IPending \<and>
     it_currency x = ''EUR'' \<and> it_amount x = bal (DriverWalletCode (it_driver x)) c \<and> it_amount x \<ge> MinPayoutMinor \<and>
     (\<exists>j \<ge> k. it_id x = fst (ids j))"
proof (induction xs arbitrary: k)
  case (Cons y ys)
  then show ?case by (auto simp: Let_def split: if_splits) (metis Suc_leD)+
qed simp

text \<open>What one payment of the loop leaves behind, in the terms of the next round.\<close>

definition paid_core :: "time \<Rightarrow> uuid \<Rightarrow> item \<Rightarrow> core \<Rightarrow> core" where
  "paid_core dnow b x c = snd (Post dnow (it_tx x) (payout_tx b (it_id x) (it_driver x) (it_amount x)) c)"

lemma fresh_ids_step:
  assumes "fresh_ids ids k s" "it_id x = fst (ids k)" "it_tx x = snd (ids k)"
  shows "fresh_ids ids (Suc k) (s\<lparr>po_core := paid_core dnow b x (po_core s), items := items s @ [x]\<rparr>)"
  unfolding fresh_ids_def
proof (intro allI impI conjI)
  fix i assume i: "Suc k \<le> i"
  then have new: "fst (ids i) \<noteq> fst (ids k)" "snd (ids i) \<noteq> snd (ids k)" "fst (ids i) \<notin> it_id ` set (items s)"
    "snd (ids i) \<notin> lt_id ` set (ltxs (po_core s))"
    using assms(1) unfolding fresh_ids_def by auto
  then show "fst (ids i) \<notin> it_id ` set (items (s\<lparr>po_core := paid_core dnow b x (po_core s), items := items s @ [x]\<rparr>))"
    using assms(2) by auto
  have "lt_id ` set (ltxs (paid_core dnow b x (po_core s))) \<subseteq> insert (snd (ids k)) (lt_id ` set (ltxs (po_core s)))"
    using ltx_ids_after assms(3) by (simp add: paid_core_def)
  then show "snd (ids i) \<notin> lt_id ` set (ltxs (po_core (s\<lparr>po_core := paid_core dnow b x (po_core s), items := items s @ [x]\<rparr>)))"
    using new(2,4) by auto
  fix j assume "i < j"
  then show "fst (ids j) \<noteq> fst (ids i)" "snd (ids j) \<noteq> snd (ids i)"
    using assms(1) i unfolding fresh_ids_def by auto
qed

lemma fresh_ids_Suc: "fresh_ids ids k s \<Longrightarrow> fresh_ids ids (Suc k) s"
  by (simp add: fresh_ids_def)

lemma pay_one:
  assumes "euro_ledger (po_core s)" "fresh_ids ids k s" "MinPayoutMinor \<le> bal (DriverWalletCode (ba_driver x)) (po_core s)"
    and "\<not> posted (payout_key b (ba_driver x)) (po_core s)"
    and "\<forall>y \<in> set (items s). it_batch y = b \<longrightarrow> it_driver y \<noteq> ba_driver x"
    and "it = \<lparr>it_id = fst (ids k), it_batch = b, it_driver = ba_driver x, it_amount = bal (DriverWalletCode (ba_driver x)) (po_core s),
      it_currency = ''EUR'', it_iban = ba_iban x, it_holder = ba_holder x, it_status = IPending, it_reason = None,
      it_tx = snd (ids k), it_created = dnow\<rparr>"
  shows "pay_candidates dnow ids k b (x # xs) tot n s =
      pay_candidates dnow ids (Suc k) b xs (add64 tot (it_amount it)) (n + 1)
        (s\<lparr>po_core := paid_core dnow b it (po_core s), items := items s @ [it]\<rparr>)"
    and "bal a (paid_core dnow b it (po_core s)) = bal a (po_core s) + (if a = clearing then it_amount it else 0)
      - (if a = DriverWalletCode (it_driver it) then it_amount it else 0)"
    and "posted k' (paid_core dnow b it (po_core s)) \<Longrightarrow> posted k' (po_core s) \<or> k' = payout_key b (ba_driver x)"
proof -
  let ?c = "po_core s" and ?w = "DriverWalletCode (ba_driver x)"
  let ?tx = "payout_tx b (fst (ids k)) (ba_driver x) (bal ?w ?c)"
  have inv: "ledger_inv ?c" using assms(1) by (simp add: euro_ledger_def)
  have pos: "500 \<le> bal ?w ?c" using assms(3) by (simp add: MinPayoutMinor_def)
  obtain z where z: "Balance ?w ?c = Inr z" "Minor z = bal ?w ?c" "?w \<in> ac_code ` set (accounts ?c)"
    using pos by (cases rule: Balance_cases[OF inv, of ?w]) auto
  have post: "fst (Post dnow (snd (ids k)) ?tx ?c) = Inr (snd (ids k))"
    using assms(2,4) z(3) pos by (intro payout_posts[OF assms(1)]) (auto simp: fresh_ids_def)
  then have P: "Post dnow (snd (ids k)) ?tx ?c = (Inr (snd (ids k)), paid_core dnow b it ?c)"
    by (simp add: paid_core_def assms(6) prod_eq_iff)
  have "fst (ids k) \<notin> it_id ` set (items s)" using assms(2) by (simp add: fresh_ids_def)
  then have "it_id y \<noteq> fst (ids k)" if "y \<in> set (items s)" for y using that by (metis imageI)
  then have "insert_item it (s\<lparr>po_core := paid_core dnow b it ?c\<rparr>)
      = (Inr (), s\<lparr>po_core := paid_core dnow b it ?c, items := items s @ [it]\<rparr>)"
    using assms(5,6) pos by (auto simp: insert_item_def exists_where_iff)
  then show "pay_candidates dnow ids k b (x # xs) tot n s =
      pay_candidates dnow ids (Suc k) b xs (add64 tot (it_amount it)) (n + 1)
        (s\<lparr>po_core := paid_core dnow b it (po_core s), items := items s @ [it]\<rparr>)"
    using assms(3) z(1,2) P assms(6) by simp
  show "bal a (paid_core dnow b it ?c) = bal a ?c + (if a = clearing then it_amount it else 0)
      - (if a = DriverWalletCode (it_driver it) then it_amount it else 0)"
    using bal_Post_fresh[of ?tx ?c dnow "snd (ids k)" "snd (ids k)" a] post assms(4)
    by (simp add: paid_core_def assms(6))
  show "posted k' (paid_core dnow b it (po_core s)) \<Longrightarrow> posted k' (po_core s) \<or> k' = payout_key b (ba_driver x)"
    using posted_after[of k' dnow "snd (ids k)" ?tx ?c] by (simp add: paid_core_def assms(6))
qed

definition debited :: "string \<Rightarrow> item list \<Rightarrow> int" where
  "debited a xs = sum_where (\<lambda>x. DriverWalletCode (it_driver x) = a) it_amount xs"

lemma pay_candidates_spec:
  assumes "euro_ledger (po_core s)" "distinct (map ba_driver cs)" "fresh_ids ids k s"
    and "\<forall>x \<in> set cs. \<not> posted (payout_key b (ba_driver x)) (po_core s)"
    and "\<forall>y \<in> set (items s). it_batch y = b \<longrightarrow> it_driver y \<notin> ba_driver ` set cs"
  shows "\<exists>c'. pay_candidates dnow ids k b cs tot n s =
        (let new = payout_items dnow ids k b cs (po_core s)
         in (Inr (foldl add64 tot (map it_amount new), n + int (length new)), s\<lparr>items := items s @ new, po_core := c'\<rparr>)) \<and>
      euro_ledger c' \<and> accounts c' = accounts (po_core s) \<and>
      (\<forall>a. bal a c' = bal a (po_core s)
          + (if a = clearing then sum_list (map it_amount (payout_items dnow ids k b cs (po_core s))) else 0)
          - debited a (payout_items dnow ids k b cs (po_core s))) \<and>
      (\<forall>k'. posted k' c' \<longrightarrow> posted k' (po_core s) \<or> (\<exists>d. k' = payout_key b d))"
  using assms
proof (induction cs arbitrary: k tot n s)
  case Nil
  then show ?case by (intro exI[of _ "po_core s"]) (simp add: debited_def table_simps)
next
  case (Cons x xs)
  let ?c = "po_core s" and ?w = "DriverWalletCode (ba_driver x)"
  have inv: "ledger_inv ?c" using Cons.prems(1) by (simp add: euro_ledger_def)
  show ?case
  proof (cases "bal ?w ?c < MinPayoutMinor")
    case True
    have "pay_candidates dnow ids k b (x # xs) tot n s = pay_candidates dnow ids (Suc k) b xs tot n s"
      using True by (cases rule: Balance_cases[OF inv, of ?w]) simp_all
    moreover have "payout_items dnow ids k b (x # xs) ?c = payout_items dnow ids (Suc k) b xs ?c"
      using True by (simp add: Let_def)
    ultimately show ?thesis
      using Cons.IH[OF Cons.prems(1) _ fresh_ids_Suc[OF Cons.prems(3)], of tot n] Cons.prems(2,4,5)
      by (simp only: distinct.simps list.map list.set_intros set_subset_Cons image_insert list.set insert_iff ball_simps) blast
  next
    case False
    define it where "it = \<lparr>it_id = fst (ids k), it_batch = b, it_driver = ba_driver x, it_amount = bal ?w ?c,
      it_currency = ''EUR'', it_iban = ba_iban x, it_holder = ba_holder x, it_status = IPending, it_reason = None,
      it_tx = snd (ids k), it_created = dnow\<rparr>"
    let ?c1 = "paid_core dnow b it ?c"
    let ?s1 = "s\<lparr>po_core := ?c1, items := items s @ [it]\<rparr>"
    have prems: "\<not> posted (payout_key b (ba_driver x)) ?c" "\<forall>y \<in> set (items s). it_batch y = b \<longrightarrow> it_driver y \<noteq> ba_driver x"
      using Cons.prems(4,5) by auto
    have min: "MinPayoutMinor \<le> bal ?w ?c" using False by simp
    note one = pay_one[OF Cons.prems(1,3) min prems it_def]
    have drv: "it_driver it = ba_driver x" by (simp add: it_def)
    have same: "payout_items dnow ids (Suc k) b xs ?c1 = payout_items dnow ids (Suc k) b xs ?c"
    proof (intro payout_items_cong)
      fix y assume "y \<in> set xs"
      then have "ba_driver y \<noteq> ba_driver x" using Cons.prems(2) by (metis distinct.simps(2) image_eqI list.set_map list.simps(9))
      then show "bal (DriverWalletCode (ba_driver y)) ?c1 = bal (DriverWalletCode (ba_driver y)) ?c"
        by (simp add: one(2) drv)
    qed
    have "\<exists>c'. pay_candidates dnow ids (Suc k) b xs (add64 tot (it_amount it)) (n + 1) ?s1 =
        (let new = payout_items dnow ids (Suc k) b xs (po_core ?s1)
         in (Inr (foldl add64 (add64 tot (it_amount it)) (map it_amount new), n + 1 + int (length new)),
             ?s1\<lparr>items := items ?s1 @ new, po_core := c'\<rparr>)) \<and>
      euro_ledger c' \<and> accounts c' = accounts (po_core ?s1) \<and>
      (\<forall>a. bal a c' = bal a (po_core ?s1)
          + (if a = clearing then sum_list (map it_amount (payout_items dnow ids (Suc k) b xs (po_core ?s1))) else 0)
          - debited a (payout_items dnow ids (Suc k) b xs (po_core ?s1))) \<and>
      (\<forall>k'. posted k' c' \<longrightarrow> posted k' (po_core ?s1) \<or> (\<exists>d. k' = payout_key b d))"
    proof (rule Cons.IH)
      show "euro_ledger (po_core ?s1)" using Cons.prems(1) by (simp add: paid_core_def euro_after)
      show "fresh_ids ids (Suc k) ?s1" using fresh_ids_step[OF Cons.prems(3), of it] by (simp add: it_def)
      show "\<forall>y\<in>set xs. \<not> posted (payout_key b (ba_driver y)) (po_core ?s1)"
      proof (intro ballI notI)
        fix y assume y: "y \<in> set xs" and p: "posted (payout_key b (ba_driver y)) (po_core ?s1)"
        have "posted (payout_key b (ba_driver y)) ?c1" using p by simp
        then have "payout_key b (ba_driver y) = payout_key b (ba_driver x)" using one(3) Cons.prems(4) y by auto
        then have "ba_driver y = ba_driver x" by (simp add: payout_key_def)
        then show False using Cons.prems(2) y by (metis distinct.simps(2) image_eqI list.set_map list.simps(9))
      qed
    qed (use Cons.prems(2,5) in \<open>auto simp: it_def\<close>)
    then obtain c' where c': "pay_candidates dnow ids (Suc k) b xs (add64 tot (it_amount it)) (n + 1) ?s1 =
        (let new = payout_items dnow ids (Suc k) b xs ?c
         in (Inr (foldl add64 (add64 tot (it_amount it)) (map it_amount new), n + 1 + int (length new)),
             ?s1\<lparr>items := items ?s1 @ new, po_core := c'\<rparr>))"
      "euro_ledger c'" "accounts c' = accounts ?c1"
      "\<And>a. bal a c' = bal a ?c1 + (if a = clearing then sum_list (map it_amount (payout_items dnow ids (Suc k) b xs ?c)) else 0)
          - debited a (payout_items dnow ids (Suc k) b xs ?c)"
      "\<And>k'. posted k' c' \<Longrightarrow> posted k' ?c1 \<or> (\<exists>d. k' = payout_key b d)"
      by (auto simp: same)
    have new: "payout_items dnow ids k b (x # xs) ?c = it # payout_items dnow ids (Suc k) b xs ?c"
      using False by (simp add: Let_def it_def)
    have acc: "accounts ?c1 = accounts ?c" by (simp add: paid_core_def frame_simps)
    show ?thesis
    proof (intro exI[of _ c'] conjI allI impI)
      show "pay_candidates dnow ids k b (x # xs) tot n s =
          (let new = payout_items dnow ids k b (x # xs) ?c
           in (Inr (foldl add64 tot (map it_amount new), n + int (length new)), s\<lparr>items := items s @ new, po_core := c'\<rparr>))"
        unfolding new one(1) c'(1) by (simp add: Let_def)
      show "euro_ledger c'" "accounts c' = accounts ?c" using c'(2,3) acc by simp_all
      show "bal a c' = bal a ?c + (if a = clearing then sum_list (map it_amount (payout_items dnow ids k b (x # xs) ?c)) else 0)
          - debited a (payout_items dnow ids k b (x # xs) ?c)" for a
        unfolding new c'(4) by (simp add: one(2) debited_def table_simps)
      show "posted k' c' \<Longrightarrow> posted k' ?c \<or> (\<exists>d. k' = payout_key b d)" for k'
        using c'(5)[of k'] one(3)[of k'] by auto
    qed
  qed
qed

subsection \<open>The batch as a whole\<close>

lemma foldl_add64_wrap: "foldl add64 (wrap64 a) xs = wrap64 (a + sum_list xs)"
proof (induction xs arbitrary: a)
  case (Cons x xs)
  have "add64 (wrap64 a) x = wrap64 (a + x)"
    by (simp add: add64_def wrap64_def mod_simps algebra_simps)
  then show ?case using Cons.IH[of "a + x"] by (simp add: add.assoc)
qed simp

lemma map_filter_drivers:
  assumes "\<And>p x. f p = Some x \<Longrightarrow> g x = UserID p"
  shows "distinct (map UserID ps) \<Longrightarrow> distinct (map g (List.map_filter f ps)) \<and>
    g ` set (List.map_filter f ps) \<subseteq> UserID ` set ps"
proof (induction ps)
  case (Cons p ps)
  then show ?case using assms by (cases "f p") (auto simp: List.map_filter_simps)
qed (simp add: List.map_filter_simps)

lemma candidates_drivers:
  "distinct (map UserID (po_drivers s)) \<Longrightarrow> distinct (map ba_driver (candidates s)) \<and>
     ba_driver ` set (candidates s) \<subseteq> UserID ` set (po_drivers s)"
  unfolding candidates_def by (rule map_filter_drivers) (auto split: if_splits dest: find_SomeD)

lemma payout_items_distinct:
  "distinct (map ba_driver xs) \<Longrightarrow> distinct (map it_driver (payout_items dnow ids k b xs c))"
proof (induction xs arbitrary: k)
  case (Cons y ys)
  then show ?case
    using payout_items_drivers[of _ dnow ids "Suc k" b ys c] by (auto simp: Let_def)
qed simp

lemma debited_other: "\<forall>x \<in> set xs. DriverWalletCode (it_driver x) \<noteq> a \<Longrightarrow> debited a xs = 0"
  by (simp add: debited_def sum_where_False)

lemma debited_wallet:
  "distinct (map it_driver xs) \<Longrightarrow> x \<in> set xs \<Longrightarrow> debited (DriverWalletCode (it_driver x)) xs = it_amount x"
proof (induction xs)
  case (Cons y ys)
  show ?case
  proof (cases "x = y")
    case True
    have "debited (DriverWalletCode (it_driver y)) ys = 0"
      using Cons.prems(1) by (intro debited_other) (auto simp: image_iff)
    then show ?thesis by (simp add: True debited_def table_simps)
  next
    case False
    with Cons have "x \<in> set ys" "it_driver y \<noteq> it_driver x" by auto
    with Cons show ?thesis by (simp add: debited_def table_simps)
  qed
qed simp

text \<open>The identifiers of a new batch, as the database and the library generate them.\<close>

definition fresh_batch :: "uuid \<Rightarrow> (nat \<Rightarrow> uuid \<times> uuid) \<Rightarrow> payouts_db \<Rightarrow> bool" where
  "fresh_batch i ids s \<longleftrightarrow> fresh_ids ids 0 s \<and> i \<notin> bt_id ` set (batches s) \<and>
     (\<forall>y \<in> set (items s). it_batch y \<noteq> i) \<and> (\<forall>d. \<not> posted (payout_key i d) (po_core s))"

lemma CreateBatch_spec:
  assumes "start < till" "euro_ledger (po_core s)" "distinct (map UserID (po_drivers s))" "fresh_batch i ids s"
  obtains c' b au ob where
    "CreateBatch dnow i ids finance start till s =
       (Inr b, s\<lparr>batches := batches s @ [b], items := items s @ payout_items dnow ids 0 i (candidates s) (po_core s),
          po_core := c'\<lparr>audit := au, outbox := ob\<rparr>\<rparr>)"
    "bt_id b = i" "bt_total b = wrap64 (sum_list (map it_amount (payout_items dnow ids 0 i (candidates s) (po_core s))))"
    "bt_count b = int (length (payout_items dnow ids 0 i (candidates s) (po_core s)))" "bt_status b = BPending"
    "euro_ledger c'" "accounts c' = accounts (po_core s)"
    "\<And>a. bal a c' = bal a (po_core s)
        + (if a = clearing then sum_list (map it_amount (payout_items dnow ids 0 i (candidates s) (po_core s))) else 0)
        - debited a (payout_items dnow ids 0 i (candidates s) (po_core s))"
    "\<And>k'. posted k' c' \<Longrightarrow> posted k' (po_core s) \<or> (\<exists>d. k' = payout_key i d)"
proof -
  let ?b = "new_batch dnow i start till"
  let ?s0 = "s\<lparr>batches := batches s @ [?b]\<rparr>"
  let ?new = "payout_items dnow ids 0 i (candidates s) (po_core s)"
  have cand: "candidates (s\<lparr>batches := bs\<rparr>) = candidates s" for bs by (simp add: candidates_def cong: if_cong)
  have spec: "\<exists>c'. pay_candidates dnow ids 0 i (candidates s) 0 0 ?s0 =
        (let new = payout_items dnow ids 0 i (candidates s) (po_core ?s0)
         in (Inr (foldl add64 0 (map it_amount new), 0 + int (length new)), ?s0\<lparr>items := items ?s0 @ new, po_core := c'\<rparr>)) \<and>
      euro_ledger c' \<and> accounts c' = accounts (po_core ?s0) \<and>
      (\<forall>a. bal a c' = bal a (po_core ?s0)
          + (if a = clearing then sum_list (map it_amount (payout_items dnow ids 0 i (candidates s) (po_core ?s0))) else 0)
          - debited a (payout_items dnow ids 0 i (candidates s) (po_core ?s0))) \<and>
      (\<forall>k'. posted k' c' \<longrightarrow> posted k' (po_core ?s0) \<or> (\<exists>d. k' = payout_key i d))"
    by (rule pay_candidates_spec)
       (use assms candidates_drivers[OF assms(3)] in \<open>auto simp: fresh_batch_def fresh_ids_def\<close>)
  then obtain c' where c': "pay_candidates dnow ids 0 i (candidates s) 0 0 ?s0 =
        (Inr (foldl add64 0 (map it_amount ?new), int (length ?new)), ?s0\<lparr>items := items s @ ?new, po_core := c'\<rparr>)"
      and rest: "euro_ledger c'" "accounts c' = accounts (po_core s)"
      "\<And>a. bal a c' = bal a (po_core s) + (if a = clearing then sum_list (map it_amount ?new) else 0) - debited a ?new"
      "\<And>k'. posted k' c' \<Longrightarrow> posted k' (po_core s) \<or> (\<exists>d. k' = payout_key i d)"
    by (auto simp: Let_def)
  have tot: "foldl add64 0 (map it_amount ?new) = wrap64 (sum_list (map it_amount ?new))"
    using foldl_add64_wrap[of 0 "map it_amount ?new"] by (simp add: wrap64_id in64_def)
  have new: "\<not> exists_where (\<lambda>b. bt_id b = i) (batches s)"
    using assms(4) by (auto simp: fresh_batch_def exists_where_iff)
  have f: "find (\<lambda>b. bt_id b = i) (batches s @ [?b]) = Some ?b"
    using assms(4) by (auto simp: find_append fresh_batch_def new_batch_def split: option.splits dest!: find_SomeD)
  have no: "bt_id y \<noteq> i" if "y \<in> set (batches s)" for y
    using assms(4) that unfolding fresh_batch_def by (metis imageI)
  have u: "upd_where (\<lambda>b. bt_id b = i) g (batches s @ [x]) = batches s @ [g x]" if "bt_id x = i" for g x
    using no that by (auto simp: upd_where_def intro!: map_idI)
  show ?thesis
    using assms(1) new c' rest tot f
    by (intro that[where b = "?b\<lparr>bt_total := wrap64 (sum_list (map it_amount ?new)), bt_count := int (length ?new)\<rparr>" and c' = c'
        and au = "audit c' @ [\<lparr>au_actor = Some finance, au_action = ''payouts.batch_created'', au_target_type = ''payout_batch'',
          au_target_id = i, au_meta = [(''total_minor'', JInt (wrap64 (sum_list (map it_amount ?new)))), (''items'', JInt (int (length ?new)))]\<rparr>]"
        and ob = "Emit dnow ''payout_batch'' i ''PayoutBatchCreated'' [(''batch_id'', JStr i),
          (''total_minor'', JInt (wrap64 (sum_list (map it_amount ?new)))), (''items'', JInt (int (length ?new)))] (outbox c')"])
       (simp_all add: CreateBatch_def cand Let_def u new_batch_def po_audit_def)
qed

lemma payout_items_cover:
  "x \<in> set xs \<Longrightarrow> MinPayoutMinor \<le> bal (DriverWalletCode (ba_driver x)) c \<Longrightarrow>
   \<exists>y \<in> set (payout_items dnow ids k b xs c). it_driver y = ba_driver x"
proof (induction xs arbitrary: k)
  case (Cons z zs)
  then show ?case by (cases "x = z") (auto simp: Let_def)
qed simp

lemma bal_books [simp]: "bal a (c\<lparr>audit := au, outbox := ob\<rparr>) = bal a c"
  by (simp add: bal_def)

text \<open>
  C32. A batch pays every approved driver who has a bank account and at least the minimum on the
  wallet, once, the whole balance as it stands when the batch begins: the request succeeds, there is
  one pending item for each of them, their wallets are empty afterwards, the wallets of the other
  candidates and all other accounts are as before, and the payout clearing account has received the
  sum of the items, which is the total of the batch.
\<close>
theorem CreateBatch_pays:
  assumes "start < till" "euro_ledger (po_core s)" "distinct (map UserID (po_drivers s))" "fresh_batch i ids s"
  shows "\<exists>b s'. CreateBatch dnow i ids finance start till s = (Inr b, s') \<and>
    (let new = payout_items dnow ids 0 i (candidates s) (po_core s); paid = sum_list (map it_amount new)
     in items s' = items s @ new \<and> bt_count b = int (length new) \<and> bt_total b = wrap64 paid \<and>
        bal clearing (po_core s') = bal clearing (po_core s) + paid \<and>
        (\<forall>c \<in> set (candidates s). bal (DriverWalletCode (ba_driver c)) (po_core s') =
           (if bal (DriverWalletCode (ba_driver c)) (po_core s) \<ge> MinPayoutMinor then 0
            else bal (DriverWalletCode (ba_driver c)) (po_core s))) \<and>
        (\<forall>a. a \<noteq> clearing \<longrightarrow> a \<notin> (\<lambda>c. DriverWalletCode (ba_driver c)) ` set (candidates s) \<longrightarrow>
           bal a (po_core s') = bal a (po_core s)))"
proof -
  let ?new = "payout_items dnow ids 0 i (candidates s) (po_core s)"
  obtain c' b au ob where r: "CreateBatch dnow i ids finance start till s =
       (Inr b, s\<lparr>batches := batches s @ [b], items := items s @ ?new, po_core := c'\<lparr>audit := au, outbox := ob\<rparr>\<rparr>)"
    "bt_total b = wrap64 (sum_list (map it_amount ?new))" "bt_count b = int (length ?new)"
    "\<And>a. bal a c' = bal a (po_core s) + (if a = clearing then sum_list (map it_amount ?new) else 0) - debited a ?new"
    using CreateBatch_spec[OF assms] by metis
  have d: "distinct (map it_driver ?new)" using candidates_drivers[OF assms(3)] by (intro payout_items_distinct) simp
  note from_cand = payout_items_drivers[of _ dnow ids 0 i "candidates s" "po_core s"]
  have wallet: "bal (DriverWalletCode (ba_driver c)) c' =
      (if bal (DriverWalletCode (ba_driver c)) (po_core s) \<ge> MinPayoutMinor then 0
       else bal (DriverWalletCode (ba_driver c)) (po_core s))" if c: "c \<in> set (candidates s)" for c
  proof (cases "bal (DriverWalletCode (ba_driver c)) (po_core s) \<ge> MinPayoutMinor")
    case True
    then obtain y where y: "y \<in> set ?new" "it_driver y = ba_driver c" using payout_items_cover[OF c] by blast
    with debited_wallet[OF d y(1)] from_cand[OF y(1)] True show ?thesis by (simp add: r(4))
  next
    case False
    then have "debited (DriverWalletCode (ba_driver c)) ?new = 0"
      by (intro debited_other) (auto dest!: from_cand)
    with False show ?thesis by (simp add: r(4))
  qed
  have other: "bal a c' = bal a (po_core s)"
    if "a \<noteq> clearing" "a \<notin> (\<lambda>c. DriverWalletCode (ba_driver c)) ` set (candidates s)" for a
  proof -
    have "debited a ?new = 0" using that(2) by (intro debited_other) (fastforce dest!: from_cand)
    with that(1) show ?thesis by (simp add: r(4))
  qed
  have "debited clearing ?new = 0" by (intro debited_other) simp
  with r(2,3,4) wallet other show ?thesis by (simp add: r(1) Let_def)
qed

section \<open>Runs\<close>

definition reversal_key :: "uuid \<Rightarrow> string" where "reversal_key i = ''payout_reversal:'' @ i"

definition items_ok :: "payouts_db \<Rightarrow> bool" where
  "items_ok s \<longleftrightarrow> distinct (map it_id (items s)) \<and>
     (\<forall>x \<in> set (items s). 0 < it_amount x \<and> it_currency x = ''EUR'' \<and>
        DriverWalletCode (it_driver x) \<in> ac_code ` set (accounts (po_core s)) \<and> it_batch x \<in> bt_id ` set (batches s)) \<and>
     (\<forall>j. posted (reversal_key j) (po_core s) \<longrightarrow> (\<exists>x \<in> set (items s). it_id x = j \<and> it_status x = IFailed))"

definition outstanding :: "item list \<Rightarrow> int" where "outstanding xs = sum_where (\<lambda>x. it_status x \<noteq> IFailed) it_amount xs"

definition payouts_inv :: "payouts_db \<Rightarrow> bool" where
  "payouts_inv s \<longleftrightarrow> euro_ledger (po_core s) \<and> distinct (map UserID (po_drivers s)) \<and> items_ok s \<and>
     bal clearing (po_core s) = outstanding (items s)"

text \<open>
  The service with everything that happens beside it: drivers change, accounts are opened, and the
  other modules post transactions that do not name the clearing account of the payouts, under keys of
  their own. Identifiers the database generates were never used.
\<close>

inductive payouts_step :: "payouts_db \<Rightarrow> payouts_db \<Rightarrow> bool" where
  create: "fresh_batch i ids s \<Longrightarrow> payouts_step s (snd (CreateBatch dnow i ids finance start till s))"
| settle_item: "t \<notin> lt_id ` set (ltxs (po_core s)) \<Longrightarrow> payouts_step s (snd (SettleItem dnow t finance i status reason s))"
| export: "payouts_step s (snd (ExportCSV dnow finance i s))"
| set_account: "payouts_step s (snd (SetBankAccount dnow user holder iban bank s))"
| earn: "payouts_step s (snd (Earnings trunc dnow d rs s))"
| drivers: "distinct (map UserID ds) \<Longrightarrow> payouts_step s (s\<lparr>po_drivers := ds\<rparr>)"
| open_account: "payouts_step s (s\<lparr>po_core := EnsureAccount a ot oi k ''EUR'' (po_core s)\<rparr>)"
| other_post: "clearing \<notin> AccountCode ` set (Postings tx) \<Longrightarrow> take 6 (IdempotencyKey tx) \<noteq> ''payout'' \<Longrightarrow>
    payouts_step s (s\<lparr>po_core := snd (Post dnow t tx (po_core s))\<rparr>)"

inductive_cases payouts_stepE: "payouts_step s s'"

text \<open>The database as the migrations leave it.\<close>

definition payouts0 :: payouts_db where
  "payouts0 = \<lparr>bank_accounts = [], batches = [], items = [], po_drivers = [],
     po_core = EnsureAccount clearing ''platform'' None ''clearing'' ''EUR'' empty_core\<rparr>"

lemma payouts_inv0: "payouts_inv payouts0"
  by (simp add: payouts_inv_def payouts0_def euro_ledger_def EnsureAccount_inv ledger_inv_empty items_ok_def
      outstanding_def table_simps posted_def)
     (simp add: EnsureAccount_def empty_core_def exists_where_def bal_def table_simps frame_simps)

text \<open>A call that leaves the items and the clearing alone keeps the invariant.\<close>

lemma payouts_inv_frame:
  assumes "payouts_inv s" "euro_ledger (po_core s')" "distinct (map UserID (po_drivers s'))" "items s' = items s"
    and "bt_id ` set (batches s) \<subseteq> bt_id ` set (batches s')"
    and "ac_code ` set (accounts (po_core s)) \<subseteq> ac_code ` set (accounts (po_core s'))"
    and "\<And>j. posted (reversal_key j) (po_core s') \<Longrightarrow> posted (reversal_key j) (po_core s)"
    and "bal clearing (po_core s') = bal clearing (po_core s)"
  shows "payouts_inv s'"
proof -
  have "items_ok s" using assms(1) by (simp add: payouts_inv_def)
  then have "items_ok s'" unfolding items_ok_def assms(4) using assms(5,6,7) by blast
  then show ?thesis using assms(1-4,8) by (simp add: payouts_inv_def)
qed

lemma euro_books [simp]: "euro_ledger (c\<lparr>audit := au\<rparr>) = euro_ledger c" "euro_ledger (c\<lparr>outbox := ob\<rparr>) = euro_ledger c"
  by (simp_all add: euro_ledger_def)

lemma euro_EnsureAccount: "euro_ledger c \<Longrightarrow> euro_ledger (EnsureAccount a ot oi k ''EUR'' c)"
  unfolding euro_ledger_def using EnsureAccount_inv[of c a ot oi k "''EUR''"] by (auto simp: EnsureAccount_def Let_def)

lemma po_audit_simps [simp]:
  "euro_ledger (po_audit a act tt ti m c) = euro_ledger c" "accounts (po_audit a act tt ti m c) = accounts c"
  "posted k (po_audit a act tt ti m c) = posted k c" "bal b (po_audit a act tt ti m c) = bal b c"
  "ltxs (po_audit a act tt ti m c) = ltxs c"
  by (simp_all add: po_audit_def)

lemma wallet_account:
  "ledger_inv c \<Longrightarrow> bal a c \<noteq> 0 \<Longrightarrow> a \<in> ac_code ` set (accounts c)"
  using bal_no_account by blast

lemma outstanding_append: "outstanding (xs @ ys) = outstanding xs + outstanding ys"
  by (simp add: outstanding_def table_simps)

lemma outstanding_pending: "\<forall>x \<in> set xs. it_status x = IPending \<Longrightarrow> outstanding xs = sum_list (map it_amount xs)"
  by (induction xs) (auto simp: outstanding_def table_simps)

lemma payout_items_ids:
  "\<forall>i \<ge> k. \<forall>j. j > i \<longrightarrow> fst (ids j) \<noteq> fst (ids i) \<Longrightarrow> distinct (map it_id (payout_items dnow ids k b xs c))"
proof (induction xs arbitrary: k)
  case (Cons y ys)
  have "fst (ids k) \<noteq> it_id z" if "z \<in> set (payout_items dnow ids (Suc k) b ys c)" for z
    using payout_items_drivers[OF that] Cons.prems by (metis Suc_le_eq le_refl)
  then show ?case using Cons by (auto simp: Let_def)
qed simp

lemma reversal_not_payout [simp]: "reversal_key j \<noteq> payout_key b d" "take 6 (reversal_key j) = ''payout''"
  by (simp_all add: reversal_key_def payout_key_def)

lemma CreateBatch_inv:
  assumes inv: "payouts_inv s" and fresh: "fresh_batch i ids s"
  shows "payouts_inv (snd (CreateBatch dnow i ids finance start till s))"
proof (cases "start < till")
  case False
  then show ?thesis using inv by (simp add: CreateBatch_def)
next
  case True
  let ?new = "payout_items dnow ids 0 i (candidates s) (po_core s)"
  have e: "euro_ledger (po_core s)" "distinct (map UserID (po_drivers s))" "items_ok s" "bal clearing (po_core s) = outstanding (items s)"
    using inv by (simp_all add: payouts_inv_def)
  obtain c' b au ob where r: "CreateBatch dnow i ids finance start till s =
       (Inr b, s\<lparr>batches := batches s @ [b], items := items s @ ?new, po_core := c'\<lparr>audit := au, outbox := ob\<rparr>\<rparr>)"
    "bt_id b = i" "euro_ledger c'" "accounts c' = accounts (po_core s)"
    "\<And>a. bal a c' = bal a (po_core s) + (if a = clearing then sum_list (map it_amount ?new) else 0) - debited a ?new"
    "\<And>k. posted k c' \<Longrightarrow> posted k (po_core s) \<or> (\<exists>d. k = payout_key i d)"
    using CreateBatch_spec[OF True e(1,2) fresh] by metis
  note new = payout_items_drivers[of _ dnow ids 0 i "candidates s" "po_core s"]
  have "debited clearing ?new = 0" by (intro debited_other) simp
  moreover have "outstanding ?new = sum_list (map it_amount ?new)" by (intro outstanding_pending) (auto dest: new)
  moreover have "items_ok (s\<lparr>batches := batches s @ [b], items := items s @ ?new, po_core := c'\<lparr>audit := au, outbox := ob\<rparr>\<rparr>)"
    unfolding items_ok_def
  proof (intro conjI ballI allI impI; simp)
    have "it_id x \<noteq> it_id y" if "x \<in> set (items s)" "y \<in> set ?new" for x y
      using new[OF that(2)] that(1) fresh unfolding fresh_batch_def fresh_ids_def by (metis imageI)
    moreover have "distinct (map it_id ?new)"
      using fresh unfolding fresh_batch_def fresh_ids_def by (intro payout_items_ids) blast
    ultimately show "distinct (map it_id (items s)) \<and> distinct (map it_id ?new) \<and> it_id ` set (items s) \<inter> it_id ` set ?new = {}"
      using e(3) by (auto simp: items_ok_def)
  next
    fix x assume x: "x \<in> set (items s) \<or> x \<in> set ?new"
    have n: "0 < it_amount x \<and> it_currency x = ''EUR'' \<and> DriverWalletCode (it_driver x) \<in> ac_code ` set (accounts (po_core s))"
      if "x \<in> set ?new"
      using new[OF that] wallet_account[of "po_core s" "DriverWalletCode (it_driver x)"] e(1)
      by (simp add: MinPayoutMinor_def euro_ledger_def)
    then show "0 < it_amount x" "it_currency x = ''EUR''" "DriverWalletCode (it_driver x) \<in> ac_code ` set (accounts c')"
      using x e(3) r(4) by (auto simp: items_ok_def)
    show "it_batch x = bt_id b \<or> it_batch x \<in> bt_id ` set (batches s)"
      using x e(3) r(2) new[of x] by (auto simp: items_ok_def)
  next
    fix j assume "posted (reversal_key j) c'"
    then show "\<exists>x\<in>set (items s) \<union> set ?new. it_id x = j \<and> it_status x = IFailed"
      using r(6)[of "reversal_key j"] e(3) by (auto simp: items_ok_def)
  qed
  ultimately show ?thesis using r(3,5) e by (simp add: r(1) payouts_inv_def outstanding_append)
qed

subsection \<open>Settling an item\<close>

lemma reversal_simps [simp]:
  "IdempotencyKey (payout_reversal_tx x) = reversal_key (it_id x)"
  "net a (Postings (payout_reversal_tx x)) =
     (if a = clearing then - it_amount x else 0) + (if a = DriverWalletCode (it_driver x) then it_amount x else 0)"
  by (simp_all add: payout_reversal_tx_def reversal_key_def clearing_def table_simps)

lemma reversal_posts:
  assumes "euro_ledger c" "DriverWalletCode (it_driver x) \<in> ac_code ` set (accounts c)" "0 < it_amount x"
    and "it_currency x = ''EUR''" "\<not> posted (reversal_key (it_id x)) c" "t \<notin> lt_id ` set (ltxs c)"
  shows "fst (Post dnow t (payout_reversal_tx x) c) = Inr t"
proof (rule Post_succeeds)
  have cur: "TrimSpace ''EUR'' = ''EUR''" by (rule TrimSpace_id) (simp add: is_space_def)
  show "ledger_inv c" using assms(1) by (simp add: euro_ledger_def)
  show "\<not> posted (IdempotencyKey (payout_reversal_tx x)) c" using assms(5) by simp
  show "\<forall>p\<in>set (Postings (payout_reversal_tx x)). \<exists>a\<in>set (accounts c). ac_code a = AccountCode p \<and>
      ac_currency a = (if TxCurrency (payout_reversal_tx x) = [] then ''EUR'' else TxCurrency (payout_reversal_tx x))"
    using assms(1,2,4) by (auto simp: payout_reversal_tx_def euro_ledger_def clearing_def cur)
qed (use assms in \<open>simp_all add: payout_reversal_tx_def Validate_def DriverWalletCode_def\<close>)

lemma mark_item_pending:
  assumes "distinct (map it_id (items s))" "x \<in> set (items s)" "it_id x = i" "it_status x = IPending"
  shows "mark_item i status reason s =
    (let x' = x\<lparr>it_status := (if status = ''paid'' then IPaid else IFailed), it_reason := nullable reason\<rparr>
     in (Some x', s\<lparr>items := upd_where (\<lambda>y. it_id y = i) (\<lambda>_. x') (items s)\<rparr>))"
proof -
  have only: "y = x" if "y \<in> set (items s)" "it_id y = i" for y
    using distinct_keyD[OF assms(1) that(1) assms(2)] that(2) assms(3) by simp
  have "find (\<lambda>y. it_id y = i \<and> it_status y = IPending) (items s) = Some x"
  proof (cases "find (\<lambda>y. it_id y = i \<and> it_status y = IPending) (items s)")
    case None
    then show ?thesis using assms(2-4) by (auto simp: find_None_iff_all)
  next
    case (Some y)
    then show ?thesis using only find_SomeD[OF Some] by simp
  qed
  moreover have "upd_where (\<lambda>y. it_id y = i \<and> it_status y = IPending) f (items s) = upd_where (\<lambda>y. it_id y = i) f (items s)" for f
    using only assms(4) by (auto simp: upd_where_def)
  ultimately show ?thesis by (simp add: mark_item_def Let_def)
qed

lemma image_upd_where: "(\<And>r. k (f r) = k r) \<Longrightarrow> k ` set (upd_where P f t) = k ` set t"
  by (metis map_upd_where set_map)

lemma close_batch_frame [simp]:
  "items (close_batch dnow b s) = items s" "po_core (close_batch dnow b s) = po_core s"
  "po_drivers (close_batch dnow b s) = po_drivers s" "bt_id ` set (batches (close_batch dnow b s)) = bt_id ` set (batches s)"
  by (simp_all add: close_batch_def image_upd_where)

text \<open>What the answer of the bank does to a pending item.\<close>

definition settled_item :: "item \<Rightarrow> string \<Rightarrow> string \<Rightarrow> item" where
  "settled_item x status reason = x\<lparr>it_status := (if status = ''paid'' then IPaid else IFailed), it_reason := nullable reason\<rparr>"

lemma SettleItem_pending:
  assumes inv: "payouts_inv s" and x: "x \<in> set (items s)" "it_id x = i" "it_status x = IPending"
    and t: "t \<notin> lt_id ` set (ltxs (po_core s))" and st: "status = ''paid'' \<or> status = ''failed''"
  obtains s' where "SettleItem dnow t finance i status reason s = (Inr (item_view (settled_item x status reason)), s')"
    "items s' = upd_where (\<lambda>y. it_id y = i) (\<lambda>_. settled_item x status reason) (items s)"
    "po_drivers s' = po_drivers s" "bt_id ` set (batches s') = bt_id ` set (batches s)" "euro_ledger (po_core s')"
    "accounts (po_core s') = accounts (po_core s)"
    "\<And>a. bal a (po_core s') = bal a (po_core s) + (if status = ''failed'' then net a (Postings (payout_reversal_tx x)) else 0)"
    "\<And>k. posted k (po_core s') \<Longrightarrow> posted k (po_core s) \<or> status = ''failed'' \<and> k = reversal_key i"
proof -
  let ?x = "settled_item x status reason" and ?c = "po_core s"
  let ?s1 = "s\<lparr>items := upd_where (\<lambda>y. it_id y = i) (\<lambda>_. ?x) (items s)\<rparr>"
  have ok: "items_ok s" "euro_ledger ?c" using inv by (simp_all add: payouts_inv_def)
  have mark: "mark_item i status reason s = (Some ?x, ?s1)"
    using mark_item_pending[OF _ x, of status reason] ok(1) by (simp add: items_ok_def settled_item_def Let_def)
  have np: "\<not> posted (reversal_key i) ?c"
    using ok(1) x distinct_keyD[of it_id "items s" x] unfolding items_ok_def by (metis item_status.distinct(3))
  have same: "payout_reversal_tx (settled_item x st r) = payout_reversal_tx x" for st r
    by (simp add: payout_reversal_tx_def settled_item_def)
  define c where "c = (if status = ''failed'' then snd (Post dnow t (payout_reversal_tx x) ?c) else ?c)"
  have xok: "DriverWalletCode (it_driver x) \<in> ac_code ` set (accounts ?c)" "0 < it_amount x" "it_currency x = ''EUR''"
    using ok(1) x(1) by (simp_all add: items_ok_def)
  have ft: "fst (Post dnow t (payout_reversal_tx x) ?c) = Inr t"
    using reversal_posts[OF ok(2) xok _ t] np x(2) by simp
  obtain r where P: "(if status = ''failed'' then Post dnow t (payout_reversal_tx ?x) (po_core ?s1) else (Inr [], po_core ?s1)) = (Inr r, c)"
    using ft by (cases "status = ''failed''") (auto simp: c_def same prod_eq_iff)
  have go: "(status \<noteq> ''paid'' \<and> status \<noteq> ''failed'') = False" using st by blast
  have c: "euro_ledger c" "accounts c = accounts ?c"
    "\<And>a. bal a c = bal a ?c + (if status = ''failed'' then net a (Postings (payout_reversal_tx x)) else 0)"
    "\<And>k. posted k c \<Longrightarrow> posted k ?c \<or> status = ''failed'' \<and> k = reversal_key i"
    using ok(2) ft np x(2) bal_Post_fresh[of "payout_reversal_tx x" ?c dnow t t] posted_after[of _ dnow t "payout_reversal_tx x" ?c]
    by (cases "status = ''failed''"; auto simp: c_def euro_after frame_simps)+
  define s' where "s' = snd (SettleItem dnow t finance i status reason s)"
  have "SettleItem dnow t finance i status reason s = (Inr (item_view ?x), s') \<and>
     items s' = items ?s1 \<and> po_drivers s' = po_drivers s \<and> bt_id ` set (batches s') = bt_id ` set (batches s) \<and>
     euro_ledger (po_core s') = euro_ledger c \<and> accounts (po_core s') = accounts c \<and>
     (\<forall>a. bal a (po_core s') = bal a c) \<and> (\<forall>k. posted k (po_core s') = posted k c)"
    unfolding s'_def SettleItem_def go if_False mark prod.case option.case P sum.case Let_def by simp
  then show ?thesis using c by (intro that[of s']) simp_all
qed

lemma outstanding_update:
  "distinct (map it_id xs) \<Longrightarrow> x \<in> set xs \<Longrightarrow>
   outstanding (upd_where (\<lambda>y. it_id y = it_id x) (\<lambda>_. z) xs) = outstanding xs - outstanding [x] + outstanding [z]"
proof (induction xs)
  case (Cons y ys)
  show ?case
  proof (cases "x = y")
    case True
    have "upd_where (\<lambda>w. it_id w = it_id x) (\<lambda>_. z) ys = ys"
      using Cons.prems(1) True by (auto simp: upd_where_def image_iff intro!: map_idI)
    then show ?thesis by (simp add: True outstanding_def table_simps)
  next
    case False
    with Cons.prems have "x \<in> set ys" "it_id y \<noteq> it_id x" by (auto simp: image_iff)
    with Cons show ?thesis by (simp add: outstanding_def table_simps)
  qed
qed simp

lemma settled_item_simps [simp]:
  "it_id (settled_item x st r) = it_id x" "it_amount (settled_item x st r) = it_amount x"
  "it_currency (settled_item x st r) = it_currency x" "it_driver (settled_item x st r) = it_driver x"
  "it_batch (settled_item x st r) = it_batch x" "it_status (settled_item x st r) = (if st = ''paid'' then IPaid else IFailed)"
  by (simp_all add: settled_item_def)

lemma SettleItem_refused:
  assumes "\<nexists>x. x \<in> set (items s) \<and> it_id x = i \<and> it_status x = IPending"
  shows "snd (SettleItem dnow t finance i status reason s) = s"
    and "status = ''paid'' \<or> status = ''failed'' \<Longrightarrow> SettleItem dnow t finance i status reason s = (Inl ErrNotFound, s)"
proof -
  have "find (\<lambda>x. it_id x = i \<and> it_status x = IPending) (items s) = None"
    using assms by (auto simp: find_None_iff_all)
  then have "mark_item i status reason s = (None, s)" by (simp add: mark_item_def)
  then show "snd (SettleItem dnow t finance i status reason s) = s"
    "status = ''paid'' \<or> status = ''failed'' \<Longrightarrow> SettleItem dnow t finance i status reason s = (Inl ErrNotFound, s)"
    by (auto simp: SettleItem_def)
qed

lemma SettleItem_inv:
  assumes inv: "payouts_inv s" and t: "t \<notin> lt_id ` set (ltxs (po_core s))"
  shows "payouts_inv (snd (SettleItem dnow t finance i status reason s))"
proof (cases "(status = ''paid'' \<or> status = ''failed'') \<and> (\<exists>x. x \<in> set (items s) \<and> it_id x = i \<and> it_status x = IPending)")
  case False
  then have "snd (SettleItem dnow t finance i status reason s) = s"
  proof (cases "status = ''paid'' \<or> status = ''failed''")
    case True
    with False show ?thesis by (intro SettleItem_refused(1)) blast
  qed (simp add: SettleItem_def)
  then show ?thesis using inv by simp
next
  case True
  then obtain x where x: "x \<in> set (items s)" "it_id x = i" "it_status x = IPending" and st: "status = ''paid'' \<or> status = ''failed''"
    by blast
  let ?x = "settled_item x status reason"
  obtain s' where r: "SettleItem dnow t finance i status reason s = (Inr (item_view ?x), s')"
    "items s' = upd_where (\<lambda>y. it_id y = i) (\<lambda>_. ?x) (items s)"
    "po_drivers s' = po_drivers s" "bt_id ` set (batches s') = bt_id ` set (batches s)" "euro_ledger (po_core s')"
    "accounts (po_core s') = accounts (po_core s)"
    "\<And>a. bal a (po_core s') = bal a (po_core s) + (if status = ''failed'' then net a (Postings (payout_reversal_tx x)) else 0)"
    "\<And>k. posted k (po_core s') \<Longrightarrow> posted k (po_core s) \<or> status = ''failed'' \<and> k = reversal_key i"
    using SettleItem_pending[OF inv x t st] by metis
  have ok: "items_ok s" "bal clearing (po_core s) = outstanding (items s)" "distinct (map UserID (po_drivers s))"
    using inv by (simp_all add: payouts_inv_def)
  then have d: "distinct (map it_id (items s))" by (simp add: items_ok_def)
  have mem: "y \<in> set (items s') \<Longrightarrow> y = ?x \<or> y \<in> set (items s)" for y by (auto simp: r(2) set_upd_where)
  have x': "?x \<in> set (items s')" using x(1,2) by (auto simp: r(2) set_upd_where)
  have kept: "y \<in> set (items s')" if "y \<in> set (items s)" "it_id y \<noteq> i" for y
    using that by (auto simp: r(2) set_upd_where)
  have "items_ok s'" unfolding items_ok_def
  proof (intro conjI ballI allI impI)
    have "map it_id (items s') = map it_id (items s)"
      using x(2) by (simp add: r(2) upd_where_def)
    then show "distinct (map it_id (items s'))" using d by metis
    fix y assume "y \<in> set (items s')"
    from mem[OF this] show "0 < it_amount y" "it_currency y = ''EUR''" "it_batch y \<in> bt_id ` set (batches s')"
      "DriverWalletCode (it_driver y) \<in> ac_code ` set (accounts (po_core s'))"
      using ok(1) x(1) by (auto simp: items_ok_def r(4,6))
  next
    fix j assume "posted (reversal_key j) (po_core s')"
    then have "posted (reversal_key j) (po_core s) \<or> status = ''failed'' \<and> j = i"
      using r(8) by (auto simp: reversal_key_def)
    then show "\<exists>y\<in>set (items s'). it_id y = j \<and> it_status y = IFailed"
    proof
      assume "posted (reversal_key j) (po_core s)"
      then obtain y where y: "y \<in> set (items s)" "it_id y = j" "it_status y = IFailed"
        using ok(1) unfolding items_ok_def by blast
      have "it_id y \<noteq> i"
      proof
        assume "it_id y = i"
        then have "x = y" using x(2) by (intro distinct_keyD[OF d x(1) y(1)]) simp
        then show False using x(3) y(3) by simp
      qed
      with y show ?thesis using kept by blast
    next
      assume "status = ''failed'' \<and> j = i"
      then show ?thesis using x' x(2) by (intro bexI[of _ ?x]) auto
    qed
  qed
  moreover have "bal clearing (po_core s') = outstanding (items s')"
  proof -
    have "outstanding (items s') = outstanding (items s) - it_amount x + (if status = ''paid'' then it_amount x else 0)"
      using outstanding_update[OF d x(1), of ?x] x(2,3) by (simp add: r(2) outstanding_def table_simps)
    moreover have "status \<noteq> ''paid'' \<longleftrightarrow> status = ''failed''" using st by auto
    ultimately show ?thesis using r(7)[of clearing] ok(2) by (cases "status = ''failed''") simp_all
  qed
  ultimately show ?thesis using r(3,5) ok(3) by (simp add: r(1) payouts_inv_def)
qed

lemma ExportCSV_frame:
  fixes s dnow finance i
  defines "s' \<equiv> snd (ExportCSV dnow finance i s)"
  shows "items s' = items s" "po_drivers s' = po_drivers s" "bt_id ` set (batches s') = bt_id ` set (batches s)"
    "euro_ledger (po_core s') = euro_ledger (po_core s)" "accounts (po_core s') = accounts (po_core s)"
    "posted k (po_core s') = posted k (po_core s)" "bal a (po_core s') = bal a (po_core s)"
  unfolding s'_def by (simp_all add: ExportCSV_def Let_def image_upd_where)

lemma SetBankAccount_frame:
  fixes s dnow user holder iban bank
  defines "s' \<equiv> snd (SetBankAccount dnow user holder iban bank s)"
  shows "items s' = items s" "po_drivers s' = po_drivers s" "batches s' = batches s"
    "euro_ledger (po_core s') = euro_ledger (po_core s)" "accounts (po_core s') = accounts (po_core s)"
    "posted k (po_core s') = posted k (po_core s)" "bal a (po_core s') = bal a (po_core s)"
  unfolding s'_def by (simp_all add: SetBankAccount_def begin_func_def Let_def split: option.split)

lemma payouts_step_inv:
  assumes "payouts_step s s'" "payouts_inv s"
  shows "payouts_inv s'"
  using assms(1)
proof cases
  case (create i ids dnow finance start till)
  then show ?thesis using CreateBatch_inv assms(2) by blast
next
  case (settle_item t dnow finance i status reason)
  then show ?thesis using SettleItem_inv assms(2) by blast
next
  case (export dnow finance i)
  then show ?thesis using assms(2)
    by (intro payouts_inv_frame[OF assms(2)])
       (simp_all add: ExportCSV_frame payouts_inv_def)
next
  case (set_account dnow user holder iban bank)
  then show ?thesis using assms(2)
    by (intro payouts_inv_frame[OF assms(2)])
       (simp_all add: SetBankAccount_frame payouts_inv_def)
next
  case (earn trunc dnow d rs)
  then have "s' = s\<lparr>po_core := EnsureAccount (DriverWalletCode d) ''driver'' (Some d) ''liability'' ''EUR'' (po_core s)\<rparr>"
    by (auto simp: Earnings_def Let_def split: sum.splits)
  then show ?thesis using assms(2)
    by (intro payouts_inv_frame[OF assms(2)])
       (auto simp: payouts_inv_def euro_EnsureAccount, auto simp: EnsureAccount_def Let_def)
next
  case (drivers ds)
  then show ?thesis using assms(2) by (intro payouts_inv_frame[OF assms(2)]) (auto simp: payouts_inv_def)
next
  case (open_account a ot oi k)
  then show ?thesis using assms(2)
    by (intro payouts_inv_frame[OF assms(2)])
       (auto simp: payouts_inv_def euro_EnsureAccount, auto simp: EnsureAccount_def Let_def)
next
  case (other_post tx dnow t)
  have "bal clearing (snd (Post dnow t tx (po_core s))) = bal clearing (po_core s)"
    using lg.bal_post_other[of clearing tx "(dnow, t)"] other_post(2) by simp
  moreover have "posted (reversal_key j) (po_core s)" if "posted (reversal_key j) (snd (Post dnow t tx (po_core s)))" for j
    using posted_after[OF that] other_post(3) by (metis reversal_not_payout(2))
  ultimately show ?thesis using assms(2) other_post(1)
    by (intro payouts_inv_frame[OF assms(2)]) (auto simp: payouts_inv_def euro_after frame_simps)
qed

lemma payouts_reach_inv: "payouts_step\<^sup>*\<^sup>* payouts0 s \<Longrightarrow> payouts_inv s"
  by (induction rule: rtranclp_induct) (auto intro: payouts_step_inv payouts_inv0)

text \<open>
  C33. The payout clearing account always holds exactly the money of the payouts that were not
  returned: after any sequence of batches, answers of the bank, exports, changes of drivers and
  accounts, and transactions of the other modules, its balance is the sum of the items that are
  pending or paid, and the ledger is sound.
\<close>
theorem clearing_holds_payouts:
  assumes "payouts_step\<^sup>*\<^sup>* payouts0 s"
  shows "ledger_inv (po_core s) \<and>
    bal clearing (po_core s) = sum_where (\<lambda>x. it_status x \<noteq> IFailed) it_amount (items s)"
  using payouts_reach_inv[OF assms] by (simp add: payouts_inv_def euro_ledger_def outstanding_def)

text \<open>
  C34. Every pending item can be settled, and only once. At any point of any run the answer of the
  bank for a pending item is accepted; a failed transfer gives the driver the amount of the item back
  and takes it from the clearing account, a successful one moves nothing; every other account stays as
  it is; and a second answer for the same item, whatever it says, is refused and changes nothing.
\<close>
theorem payout_settles_once:
  assumes "payouts_step\<^sup>*\<^sup>* payouts0 s" "x \<in> set (items s)" "it_status x = IPending"
    and "t \<notin> lt_id ` set (ltxs (po_core s))" "status \<in> {''paid'', ''failed''}"
  shows "\<exists>v s'. SettleItem dnow t finance (it_id x) status reason s = (Inr v, s') \<and>
    (\<forall>a. bal a (po_core s') = bal a (po_core s) +
       (if status = ''failed'' \<and> a = DriverWalletCode (it_driver x) then it_amount x
        else if status = ''failed'' \<and> a = clearing then - it_amount x else 0)) \<and>
    (\<forall>dnow' t' finance' status' reason'. status' \<in> {''paid'', ''failed''} \<longrightarrow>
       SettleItem dnow' t' finance' (it_id x) status' reason' s' = (Inl ErrNotFound, s'))"
proof -
  have inv: "payouts_inv s" using assms(1) by (rule payouts_reach_inv)
  have st: "status = ''paid'' \<or> status = ''failed''" using assms(5) by simp
  obtain s' where r: "SettleItem dnow t finance (it_id x) status reason s = (Inr (item_view (settled_item x status reason)), s')"
    "items s' = upd_where (\<lambda>y. it_id y = it_id x) (\<lambda>_. settled_item x status reason) (items s)"
    "\<And>a. bal a (po_core s') = bal a (po_core s) + (if status = ''failed'' then net a (Postings (payout_reversal_tx x)) else 0)"
    using SettleItem_pending[OF inv assms(2) refl assms(3,4) st] by metis
  have "\<nexists>y. y \<in> set (items s') \<and> it_id y = it_id x \<and> it_status y = IPending"
    by (auto simp: r(2) set_upd_where split: if_splits)
  note refused = SettleItem_refused(2)[OF this]
  show ?thesis
    by (intro exI[of _ "item_view (settled_item x status reason)"] exI[of _ s'] conjI allI impI)
       (use r refused in auto)
qed

text \<open>
  The item is marked before the money is moved, by a statement of its own: when the server stops
  between the two, or the ledger refuses the transaction, the item is failed, the money is still in
  the clearing account, and no further answer is accepted.
\<close>

lemma marked_item_is_stuck:
  assumes "distinct (map it_id (items s))" "x \<in> set (items s)" "it_id x = i" "it_status x = IPending"
    and "status = ''paid'' \<or> status = ''failed''"
  shows "SettleItem dnow t finance i status reason' (snd (mark_item i ''failed'' reason s))
      = (Inl ErrNotFound, snd (mark_item i ''failed'' reason s))"
    and "po_core (snd (mark_item i ''failed'' reason s)) = po_core s"
proof -
  have m: "items (snd (mark_item i ''failed'' reason s)) =
      upd_where (\<lambda>y. it_id y = i) (\<lambda>_. x\<lparr>it_status := IFailed, it_reason := nullable reason\<rparr>) (items s)"
    "po_core (snd (mark_item i ''failed'' reason s)) = po_core s"
    using mark_item_pending[OF assms(1-4), of "''failed''" reason] by (simp_all add: Let_def)
  then have "\<nexists>y. y \<in> set (items (snd (mark_item i ''failed'' reason s))) \<and> it_id y = i \<and> it_status y = IPending"
    by (auto simp: set_upd_where)
  then show "SettleItem dnow t finance i status reason' (snd (mark_item i ''failed'' reason s))
      = (Inl ErrNotFound, snd (mark_item i ''failed'' reason s))"
    using assms(5) by (rule SettleItem_refused(2))
  show "po_core (snd (mark_item i ''failed'' reason s)) = po_core s" by (rule m)
qed

section \<open>Examples\<close>

definition demo_driver :: "uuid \<Rightarrow> profile" where
  "demo_driver d = \<lparr>UserID = d, DStatus = Approved_status, VehicleMake = ''VW'', VehicleModel = ''Golf'', VehiclePlate = ''01-100-AA'',
     VehicleColor = ''white'', Categories = [''economy''], RatingSum = 0, RatingCount = 0, ApprovedAt = Some 0, SuspendedReason = None,
     PCreatedAt = 0\<rparr>"

definition demo_drivers :: payouts_db where
  "demo_drivers = payouts0\<lparr>po_drivers := [demo_driver ''d'', demo_driver ''e'']\<rparr>"

definition demo_banks :: payouts_db where
  "demo_banks = snd (SetBankAccount 0 ''e'' ''Besa Krasniqi'' ''XK051212012345678906'' ''''
     (snd (SetBankAccount 0 ''d'' ''Agim Berisha'' ''XK05 1212 0123 4567 8906'' ''Raiffeisen'' demo_drivers)))"

definition demo_open :: "string \<Rightarrow> payouts_db \<Rightarrow> payouts_db" where
  "demo_open a s = s\<lparr>po_core := EnsureAccount a '''' None ''wallet'' ''EUR'' (po_core s)\<rparr>"

definition demo_pay :: "uuid \<Rightarrow> string \<Rightarrow> int \<Rightarrow> payouts_db \<Rightarrow> payouts_db" where
  "demo_pay t a n s = s\<lparr>po_core := snd (Post 0 t \<lparr>Kind = ''ride_fare'', Reference = ''r'', IdempotencyKey = t, TxCurrency = ''EUR'',
     Postings = [debit ''psp'' n, credit a n]\<rparr> (po_core s))\<rparr>"

definition demo_funded :: payouts_db where
  "demo_funded = demo_pay ''t2'' (DriverWalletCode ''e'') 300 (demo_pay ''t1'' (DriverWalletCode ''d'') 1200
     (demo_open ''psp'' (demo_open (DriverWalletCode ''e'') (demo_open (DriverWalletCode ''d'') demo_banks))))"

definition demo_ids :: "nat \<Rightarrow> uuid \<times> uuid" where "demo_ids k = (replicate k CHR ''x'' @ ''i'', replicate k CHR ''x'' @ ''q'')"

definition demo_batch :: payouts_db where
  "demo_batch = snd (CreateBatch 5 ''b'' demo_ids ''f'' 0 9 demo_funded)"

lemma reach_open: "payouts_step\<^sup>*\<^sup>* payouts0 s \<Longrightarrow> payouts_step\<^sup>*\<^sup>* payouts0 (demo_open a s)"
  unfolding demo_open_def by (erule rtranclp.rtrancl_into_rtrancl) (rule payouts_step.open_account)

lemma reach_pay:
  assumes "payouts_step\<^sup>*\<^sup>* payouts0 s" "a \<noteq> clearing" "take 6 t \<noteq> ''payout''"
  shows "payouts_step\<^sup>*\<^sup>* payouts0 (demo_pay t a n s)"
  unfolding demo_pay_def using assms
  by (auto simp: clearing_def intro!: rtranclp.rtrancl_into_rtrancl[OF assms(1)] payouts_step.other_post)

lemma demo_funded_reach: "payouts_step\<^sup>*\<^sup>* payouts0 demo_funded"
proof -
  have "payouts_step\<^sup>*\<^sup>* payouts0 demo_drivers"
    unfolding demo_drivers_def by (intro r_into_rtranclp payouts_step.drivers) (simp add: demo_driver_def)
  note this[THEN rtranclp.rtrancl_into_rtrancl, OF payouts_step.set_account]
  note this[THEN rtranclp.rtrancl_into_rtrancl, OF payouts_step.set_account]
  then have "payouts_step\<^sup>*\<^sup>* payouts0 demo_banks" unfolding demo_banks_def .
  then show ?thesis unfolding demo_funded_def by (intro reach_pay reach_open) auto
qed

lemma demo_funded_facts:
  "items demo_funded = []" "map lt_id (ltxs (po_core demo_funded)) = [''t1'', ''t2'']" "batches demo_funded = []"
  "map lt_idem (ltxs (po_core demo_funded)) = [''t1'', ''t2'']" "map UserID (po_drivers demo_funded) = [''d'', ''e'']"
  "map ba_driver (candidates demo_funded) = [''d'', ''e'']"
  "bal (DriverWalletCode ''d'') (po_core demo_funded) = 1200" "bal (DriverWalletCode ''e'') (po_core demo_funded) = 300"
  by code_simp+

lemma demo_fresh: "fresh_batch ''b'' demo_ids demo_funded"
proof -
  have ids: "lt_id ` set (ltxs (po_core demo_funded)) = {''t1'', ''t2''}" "lt_idem ` set (ltxs (po_core demo_funded)) = {''t1'', ''t2''}"
    using demo_funded_facts(2,4) by (metis list.set(1,2) set_map)+
  have no: "replicate k CHR ''x'' @ ''q'' \<noteq> ''t1''" "replicate k CHR ''x'' @ ''q'' \<noteq> ''t2''" for k
    by (auto simp: append_eq_Cons_conv)
  have "replicate j CHR ''x'' @ s \<noteq> replicate k CHR ''x'' @ s" if "k < j" for j k s
    using that by (auto dest: arg_cong[where f = length])
  then show ?thesis
    using no demo_funded_facts(1,3) by (simp add: fresh_batch_def fresh_ids_def posted_def ids demo_ids_def payout_key_def)
qed

theorem CreateBatch_pays_witness:
  "bal (DriverWalletCode ''d'') (po_core demo_batch) = 0 \<and> bal (DriverWalletCode ''e'') (po_core demo_batch) = 300 \<and>
   map (\<lambda>x. (it_driver x, it_amount x)) (items demo_batch) = [(''d'', 1200)]"
proof -
  have inv: "payouts_inv demo_funded" by (rule payouts_reach_inv[OF demo_funded_reach])
  then have e: "euro_ledger (po_core demo_funded)" by (simp add: payouts_inv_def)
  have d: "distinct (map UserID (po_drivers demo_funded))" by (simp add: demo_funded_facts)
  obtain c1 c2 where c: "candidates demo_funded = [c1, c2]" "ba_driver c1 = ''d''" "ba_driver c2 = ''e''"
    using demo_funded_facts(6) by auto
  have "(0::int) < 9" by simp
  from CreateBatch_pays[OF this e d demo_fresh, of 5 "''f''"] show ?thesis
    unfolding demo_batch_def
    by (auto simp: Let_def c demo_funded_facts MinPayoutMinor_def)
qed

lemma demo_batch_reach: "payouts_step\<^sup>*\<^sup>* payouts0 demo_batch"
  unfolding demo_batch_def
  by (rule rtranclp.rtrancl_into_rtrancl[OF demo_funded_reach]) (rule payouts_step.create[OF demo_fresh])

lemma demo_batch_facts:
  "map (\<lambda>x. (it_id x, it_driver x, it_amount x, it_status x)) (items demo_batch) = [(''i'', ''d'', 1200, IPending)]"
  "map lt_id (ltxs (po_core demo_batch)) = [''t1'', ''t2'', ''q'']"
  "bal (DriverWalletCode ''d'') (po_core demo_batch) = 0"
  by code_simp+

lemma demo_batch_item:
  obtains x where "items demo_batch = [x]" "it_id x = ''i''" "it_driver x = ''d''" "it_amount x = 1200" "it_status x = IPending"
  using demo_batch_facts(1) by auto

theorem clearing_holds_payouts_witness:
  "bal clearing (po_core demo_batch) = 1200"
proof -
  obtain x where x: "items demo_batch = [x]" "it_amount x = 1200" "it_status x = IPending" by (rule demo_batch_item)
  then show ?thesis using clearing_holds_payouts[OF demo_batch_reach] by (simp add: table_simps)
qed

theorem payout_settles_once_witness:
  "bal (DriverWalletCode ''d'') (po_core (snd (SettleItem 7 ''t9'' ''f'' ''i'' ''failed'' ''closed'' demo_batch))) = 1200 \<and>
   fst (SettleItem 8 ''t8'' ''f'' ''i'' ''paid'' '''' (snd (SettleItem 7 ''t9'' ''f'' ''i'' ''failed'' ''closed'' demo_batch))) = Inl ErrNotFound"
proof -
  obtain x where x: "items demo_batch = [x]" "it_id x = ''i''" "it_driver x = ''d''" "it_amount x = 1200" "it_status x = IPending"
    by (rule demo_batch_item)
  have "lt_id ` set (ltxs (po_core demo_batch)) = {''t1'', ''t2'', ''q''}"
    using demo_batch_facts(2) by (metis list.set(1,2) set_map)
  then have t: "''t9'' \<notin> lt_id ` set (ltxs (po_core demo_batch))" by simp
  have mem: "x \<in> set (items demo_batch)" by (simp add: x(1))
  have st: "''failed'' \<in> {''paid'', ''failed''}" by simp
  from payout_settles_once[OF demo_batch_reach mem x(5) t st, of 7 "''f''" "''closed''"] x(2-4) demo_batch_facts(3)
  show ?thesis by auto
qed

end
