(* ===== verification/Services.thy ===== *)
theory Services
  imports Settlements Deliveries
begin

text \<open>
  \<open>modules/services\<close> (\<open>state.go\<close>, \<open>services.go\<close>, \<open>provider.go\<close>; tables of \<open>migrations/0019\<close>): jobs for
  electricians, plumbers and other providers. The customer describes the job, approved providers offer a
  price, the customer accepts one offer, the provider does the work, and the price is settled like the
  fare of a ride. Random bytes are numbers. The statements of \<open>MakeOffer\<close>, \<open>Apply\<close> and
  \<open>SetProviderStatus\<close> do not run in a transaction, but only the last one of each writes before the event.
\<close>

definition ErrInsufficient :: err where [err_defs]: "ErrInsufficient = API ''INSUFFICIENT_FUNDS'' 402 False []"
definition ErrInvalidState :: err where [err_defs]: "ErrInvalidState = API ''SERVICE_INVALID_STATE'' 409 False []"
definition ErrNotApproved :: err where [err_defs]: "ErrNotApproved = API ''PROVIDER_NOT_APPROVED'' 403 False []"
definition ErrWrongCategory :: err where [err_defs]: "ErrWrongCategory = API ''PROVIDER_WRONG_CATEGORY'' 403 False []"
definition ErrOfferGone :: err where [err_defs]: "ErrOfferGone = API ''OFFER_GONE'' 409 False []"
definition ErrProviderBusy :: err where [err_defs]: "ErrProviderBusy = API ''PROVIDER_BUSY'' 409 False []"
definition ErrAlreadyOffered :: err where [err_defs]: "ErrAlreadyOffered = API ''ALREADY_OFFERED'' 409 False []"

section \<open>States\<close>

datatype svc_state = SOpen | SBooked | SInProgress | SCompleted | SCancelled | SNoOffers

fun transitions :: "svc_state \<Rightarrow> svc_state list" where
  "transitions SOpen = [SBooked, SCancelled, SNoOffers]"
| "transitions SBooked = [SInProgress, SOpen, SCancelled]"
| "transitions SInProgress = [SCompleted, SCancelled]"
| "transitions _ = []"

definition CanTransition :: "svc_state \<Rightarrow> svc_state \<Rightarrow> bool" where
  "CanTransition from to = can_transition transitions from to"

definition IsActive :: "svc_state \<Rightarrow> bool" where
  "IsActive s \<longleftrightarrow> s = SOpen \<or> s = SBooked \<or> s = SInProgress"

definition IsTerminal :: "svc_state \<Rightarrow> bool" where
  "IsTerminal s \<longleftrightarrow> s = SCompleted \<or> s = SCancelled \<or> s = SNoOffers"

definition CustomerCanCancel :: "svc_state \<Rightarrow> bool" where
  "CustomerCanCancel s \<longleftrightarrow> s = SOpen \<or> s = SBooked"

text \<open>The condition of the unique index on the provider of a request.\<close>

definition ProviderBusy :: "svc_state \<Rightarrow> bool" where
  "ProviderBusy s \<longleftrightarrow> s = SBooked \<or> s = SInProgress"

definition Commission :: "int \<Rightarrow> int \<Rightarrow> int" where
  "Commission priceMinor bp = quot (add64 (mul64 priceMinor bp) 5000) 10000"

section \<open>Tables\<close>

datatype provider_status = PvPending | PvApproved | PvSuspended

fun provider_status_text :: "provider_status \<Rightarrow> string" where
  "provider_status_text PvPending = ''pending''"
| "provider_status_text PvApproved = ''approved''"
| "provider_status_text PvSuspended = ''suspended''"

record category =
  sc_id :: string
  sc_name_key :: string
  sc_commission_bp :: int
  sc_sort :: int
  sc_active :: bool

text \<open>The rating, with one decimal in the database, is in tenths.\<close>

record provider =
  pv_user :: uuid
  pv_status :: provider_status
  pv_categories :: "string list"
  pv_business :: "string option"
  pv_bio :: "string option"
  pv_city :: string
  pv_phone :: "string option"
  pv_rating :: "int option"
  pv_rating_count :: int
  pv_jobs :: int
  pv_reason :: "string option"
  pv_created :: time

record request =
  sq_id :: uuid
  sq_code :: string
  sq_customer :: uuid
  sq_category :: string
  sq_provider :: "uuid option"
  sq_offer :: "uuid option"
  sq_state :: svc_state
  sq_title :: string
  sq_description :: string
  sq_address1 :: string
  sq_address :: point
  sq_instructions :: "string option"
  sq_preferred :: "time option"
  sq_photos :: "string list"
  sq_method :: pay_method
  sq_pay :: pay_status
  sq_price :: "int option"
  sq_commission :: int
  sq_currency :: string
  sq_cancelled_by :: "string option"
  sq_reason :: "string option"
  sq_created :: time
  sq_booked_at :: "time option"
  sq_started_at :: "time option"
  sq_completed_at :: "time option"
  sq_cancelled_at :: "time option"
  sq_updated :: time
  sq_idem :: string

record svc_offer =
  so_id :: uuid
  so_request :: uuid
  so_provider :: uuid
  so_price :: int
  so_currency :: string
  so_note :: "string option"
  so_can_start :: "time option"
  so_state :: offer_state
  so_created :: time
  so_responded :: "time option"

record services_db =
  sv_core :: core
  sv_users :: "user_row list"
  sv_categories :: "category list"
  providers :: "provider list"
  requests :: "request list"
  svc_offers :: "svc_offer list"
  svc_journal :: "svc_state journal_row list"

definition upd_request :: "uuid \<Rightarrow> (request \<Rightarrow> request) \<Rightarrow> services_db \<Rightarrow> services_db" where
  "upd_request i f s = s\<lparr>requests := upd_where (\<lambda>r. sq_id r = i) f (requests s)\<rparr>"

definition requestEvent ::
  "time \<Rightarrow> uuid \<Rightarrow> svc_state option \<Rightarrow> svc_state \<Rightarrow> string \<Rightarrow> uuid option \<Rightarrow> payload \<Rightarrow> services_db \<Rightarrow> services_db" where
  "requestEvent dnow i from to actor_type actor meta s =
     s\<lparr>svc_journal := svc_journal s @ [\<lparr>jn_subject = i, jn_from = from, jn_to = to, jn_actor_type = actor_type,
        jn_actor = actor, jn_meta = meta, jn_created = dnow\<rparr>]\<rparr>"

definition s_emit :: "time \<Rightarrow> string \<Rightarrow> uuid \<Rightarrow> string \<Rightarrow> payload \<Rightarrow> services_db \<Rightarrow> services_db" where
  "s_emit dnow kind i ev body s = s\<lparr>sv_core := (sv_core s)\<lparr>outbox := Emit dnow kind i ev body (outbox (sv_core s))\<rparr>\<rparr>"

text \<open>\<open>UPDATE service_offers SET state = st, responded_at = now() WHERE P\<close>.\<close>

definition answer_offers :: "time \<Rightarrow> offer_state \<Rightarrow> (svc_offer \<Rightarrow> bool) \<Rightarrow> svc_offer list \<Rightarrow> svc_offer list" where
  "answer_offers dnow st P t = upd_where P (\<lambda>x. x\<lparr>so_state := st, so_responded := Some dnow\<rparr>) t"

text \<open>The \<open>clip\<close> of this module keeps the blanks between the words.\<close>

definition trim_clip :: "string \<Rightarrow> nat \<Rightarrow> string" where
  "trim_clip s n = (let t = TrimSpace s in if RuneCount t > n then take_runes n t else t)"

definition alphabet :: string where "alphabet = ''ABCDEFGHJKLMNPQRSTUVWXYZ23456789''"

definition newCode :: "(nat \<Rightarrow> nat) \<Rightarrow> string" where
  "newCode b = map (\<lambda>k. alphabet ! (b k mod length alphabet)) [0..<6]"

section \<open>The catalogue\<close>

definition Categories :: "services_db \<Rightarrow> category list" where
  "Categories s = sort_key sc_sort (filter sc_active (sv_categories s))"

definition validCategories :: "services_db \<Rightarrow> string list" where
  "validCategories s = map sc_id (filter sc_active (sv_categories s))"

record provider_card =
  cdUser :: uuid
  cdName :: string
  cdBusiness :: "string option"
  cdCity :: string
  cdRating :: "int option"
  cdRatingCount :: int
  cdJobs :: int

definition providerCard :: "services_db \<Rightarrow> uuid \<Rightarrow> provider_card option" where
  "providerCard s i =
     (case find (\<lambda>p. pv_user p = i) (providers s) of
        None \<Rightarrow> None
      | Some p \<Rightarrow> map_option (\<lambda>u. \<lparr>cdUser = i, cdName = (case us_name u of None \<Rightarrow> [] | Some n \<Rightarrow> n), cdBusiness = pv_business p,
            cdCity = pv_city p, cdRating = pv_rating p, cdRatingCount = pv_rating_count p, cdJobs = pv_jobs p\<rparr>)
          (find (\<lambda>u. us_id u = i) (sv_users s)))"

section \<open>Providers\<close>

record apply_input =
  apCategories :: "string list"
  apBusiness :: string
  apBio :: string
  apCity :: string
  apPhone :: string

text \<open>The categories of the application that exist, without repetitions.\<close>

fun keep_valid :: "string list \<Rightarrow> string list \<Rightarrow> string list \<Rightarrow> string list" where
  "keep_valid valid acc [] = acc"
| "keep_valid valid acc (c # cs) =
     (if c \<in> set valid \<and> c \<notin> set acc then keep_valid valid (acc @ [c]) cs else keep_valid valid acc cs)"

definition apply_row :: "apply_input \<Rightarrow> string \<Rightarrow> string list \<Rightarrow> provider \<Rightarrow> provider" where
  "apply_row inp city cats p =
     p\<lparr>pv_categories := cats, pv_business := nullable (trim_clip (apBusiness inp) 80), pv_bio := nullable (trim_clip (apBio inp) 400),
       pv_city := city, pv_phone := nullable (trim_clip (apPhone inp) 20)\<rparr>"

definition new_provider :: "time \<Rightarrow> uuid \<Rightarrow> provider" where
  "new_provider dnow user =
     \<lparr>pv_user = user, pv_status = PvPending, pv_categories = [], pv_business = None, pv_bio = None, pv_city = [], pv_phone = None,
      pv_rating = None, pv_rating_count = 0, pv_jobs = 0, pv_reason = None, pv_created = dnow\<rparr>"

definition Apply :: "time \<Rightarrow> uuid \<Rightarrow> apply_input \<Rightarrow> (services_db, err, provider) op" where
  "Apply dnow user inp s =
     (let city = trim_clip (apCity inp) 60;
          cats = keep_valid (validCategories s) [] (apCategories inp);
          f = add_field_if (city = []) ''city'' ''required'' [];
          f = add_field_if (cats = []) ''categories'' ''required'' f
      in if f \<noteq> [] then (Inl (ErrValidation f), s)
         else
           let known = find (\<lambda>p. pv_user p = user) (providers s);
               p = apply_row inp city cats (case known of None \<Rightarrow> new_provider dnow user | Some q \<Rightarrow> q);
               ps = (case known of None \<Rightarrow> providers s @ [p] | Some _ \<Rightarrow> upd_where (\<lambda>q. pv_user q = user) (\<lambda>_. p) (providers s))
           in (Inr p, s_emit dnow ''service_provider'' user ''ServiceProviderApplied''
                 [(''provider_id'', JStr user), (''categories'', JStrs cats)] (s\<lparr>providers := ps\<rparr>)))"

definition Providers :: "string \<Rightarrow> int \<Rightarrow> services_db \<Rightarrow> provider list" where
  "Providers status limit s =
     take (nat (if limit \<le> 0 \<or> limit > 200 then 100 else limit))
       (sort_key (\<lambda>p. if pv_status p = PvPending then 0 else 1 :: int) (sort_key (\<lambda>p. - pv_created p)
         (filter (\<lambda>p. status = [] \<or> provider_status_text (pv_status p) = status) (providers s))))"

definition ProviderProfile :: "uuid \<Rightarrow> services_db \<Rightarrow> err + provider" where
  "ProviderProfile i s = (case find (\<lambda>p. pv_user p = i) (providers s) of None \<Rightarrow> Inl ErrNotFound | Some p \<Rightarrow> Inr p)"

definition parse_status :: "string \<Rightarrow> provider_status option" where
  "parse_status st =
     (if st = ''approved'' then Some PvApproved else if st = ''suspended'' then Some PvSuspended
      else if st = ''pending'' then Some PvPending else None)"

definition SetProviderStatus :: "time \<Rightarrow> uuid \<Rightarrow> uuid \<Rightarrow> string \<Rightarrow> string \<Rightarrow> (services_db, err, provider) op" where
  "SetProviderStatus dnow user i status reason s =
     (case parse_status status of
        None \<Rightarrow> (Inl (ErrValidation [(''status'', ''invalid'')]), s)
      | Some st \<Rightarrow>
          (case find (\<lambda>p. pv_user p = i) (providers s) of
             None \<Rightarrow> (Inl ErrNotFound, s)
           | Some p \<Rightarrow>
               let p' = p\<lparr>pv_status := st, pv_reason := nullable (trim_clip reason 200)\<rparr>
               in (Inr p', s_emit dnow ''service_provider'' i ''ServiceProviderStatusChanged''
                     [(''provider_id'', JStr i), (''status'', JStr status), (''reason'', JStr reason), (''by'', JStr user)]
                     (s\<lparr>providers := upd_where (\<lambda>p. pv_user p = i) (\<lambda>_. p') (providers s)\<rparr>))))"

definition approved :: "uuid \<Rightarrow> string \<Rightarrow> services_db \<Rightarrow> err option" where
  "approved i cat s =
     (case find (\<lambda>p. pv_user p = i) (providers s) of
        None \<Rightarrow> Some ErrNotApproved
      | Some p \<Rightarrow>
          if pv_status p \<noteq> PvApproved then Some ErrNotApproved
          else if cat \<noteq> [] \<and> cat \<notin> set (pv_categories p) then Some ErrWrongCategory else None)"

section \<open>Requests\<close>

record create_input =
  cqCategory :: string
  cqTitle :: string
  cqDescription :: string
  cqAddress1 :: string
  cqAddress :: "point option"
  cqInstructions :: string
  cqPreferred :: "time option"
  cqPhotos :: "string list"
  cqMethod :: string

definition parse_method :: "string \<Rightarrow> pay_method option" where
  "parse_method m = (if m = ''cash'' then Some Cash else if m = ''wallet'' then Some Wallet else None)"

definition validate_create :: "string \<Rightarrow> create_input \<Rightarrow> services_db \<Rightarrow> fields" where
  "validate_create key inp s =
     (let f = add_field_if (key = [] \<or> length key > 100) ''idempotency_key'' ''required'' [];
          f = add_field_if (trim_clip (cqTitle inp) 80 = []) ''title'' ''required'' f;
          f = add_field_if (RuneCount (trim_clip (cqDescription inp) 1000) < 10) ''description'' ''too_short'' f;
          f = add_field_if (trim_clip (cqAddress1 inp) 200 = []) ''address_line1'' ''required'' f;
          f = add_field_if (case cqAddress inp of None \<Rightarrow> True | Some p \<Rightarrow> \<not> Valid p \<or> \<not> InKosovo p) ''address'' ''invalid'' f;
          f = add_field_if (parse_method (cqMethod inp) = None) ''payment_method'' ''invalid'' f;
          f = add_field_if (cqCategory inp \<notin> set (validCategories s)) ''category_id'' ''invalid'' f
      in add_field_if (length (cqPhotos inp) > 5) ''photo_keys'' ''too_many'' f)"

definition new_request ::
  "time \<Rightarrow> uuid \<Rightarrow> (nat \<Rightarrow> nat) \<Rightarrow> uuid \<Rightarrow> string \<Rightarrow> create_input \<Rightarrow> point \<Rightarrow> pay_method \<Rightarrow> request" where
  "new_request dnow i b user key inp a pm =
     \<lparr>sq_id = i, sq_code = newCode b, sq_customer = user, sq_category = cqCategory inp, sq_provider = None, sq_offer = None,
      sq_state = SOpen, sq_title = trim_clip (cqTitle inp) 80, sq_description = trim_clip (cqDescription inp) 1000,
      sq_address1 = trim_clip (cqAddress1 inp) 200, sq_address = a, sq_instructions = nullable (trim_clip (cqInstructions inp) 200),
      sq_preferred = cqPreferred inp, sq_photos = cqPhotos inp, sq_method = pm, sq_pay = PayNone, sq_price = None,
      sq_commission = 0, sq_currency = ''EUR'', sq_cancelled_by = None, sq_reason = None, sq_created = dnow, sq_booked_at = None,
      sq_started_at = None, sq_completed_at = None, sq_cancelled_at = None, sq_updated = dnow, sq_idem = key\<rparr>"

definition create_tx :: "time \<Rightarrow> request \<Rightarrow> (services_db, err, request) op" where
  "create_tx dnow r s =
     (if exists_where (\<lambda>x. sq_id x = sq_id r \<or> sq_code x = sq_code r \<or> (sq_customer x = sq_customer r \<and> sq_idem x = sq_idem r)) (requests s)
      then (Inl PgUnique, s)
      else (Inr r, s_emit dnow ''service_request'' (sq_id r) ''ServiceRequested''
             [(''request_id'', JStr (sq_id r)), (''code'', JStr (sq_code r)), (''customer_id'', JStr (sq_customer r)),
              (''category_id'', JStr (sq_category r))]
             (requestEvent dnow (sq_id r) None SOpen ''customer'' (Some (sq_customer r)) [] (s\<lparr>requests := requests s @ [r]\<rparr>))))"

definition Create ::
  "time \<Rightarrow> uuid \<Rightarrow> (nat \<Rightarrow> nat) \<Rightarrow> uuid \<Rightarrow> string \<Rightarrow> create_input \<Rightarrow> (services_db, err, request) op" where
  "Create dnow i b user idemKey inp s =
     (let key = TrimSpace idemKey; f = validate_create key inp s
      in if f \<noteq> [] then (Inl (ErrValidation f), s)
         else case find (\<lambda>r. sq_customer r = user \<and> sq_idem r = key) (requests s) of
           Some r \<Rightarrow> (Inr r, s)
         | None \<Rightarrow>
             (case (cqAddress inp, parse_method (cqMethod inp)) of
                (Some a, Some pm) \<Rightarrow> begin_func (create_tx dnow (new_request dnow i b user key inp a pm)) s
              | _ \<Rightarrow> (Inl (ErrValidation f), s)))"

text \<open>The answers carry the card of the provider, and the offers only for the customer of an open request.\<close>

record offer_view =
  ov_offer :: svc_offer
  ov_card :: "provider_card option"

record request_view =
  rv_request :: request
  rv_card :: "provider_card option"
  rv_offers :: "offer_view list"

definition with_card :: "services_db \<Rightarrow> request \<Rightarrow> request_view" where
  "with_card s r = \<lparr>rv_request = r, rv_card = (case sq_provider r of None \<Rightarrow> None | Some p \<Rightarrow> providerCard s p), rv_offers = []\<rparr>"

definition bare :: "request \<Rightarrow> request_view" where
  "bare r = \<lparr>rv_request = r, rv_card = None, rv_offers = []\<rparr>"

definition open_offers :: "uuid \<Rightarrow> services_db \<Rightarrow> offer_view list" where
  "open_offers i s = map (\<lambda>x. \<lparr>ov_offer = x, ov_card = providerCard s (so_provider x)\<rparr>)
     (sort_key so_price (filter (\<lambda>x. so_request x = i \<and> so_state x = Offered) (svc_offers s)))"

definition Get :: "uuid \<Rightarrow> uuid \<Rightarrow> services_db \<Rightarrow> err + request_view" where
  "Get user i s =
     (case find (\<lambda>r. sq_id r = i \<and> (sq_customer r = user \<or> sq_provider r = Some user)) (requests s) of
        None \<Rightarrow> Inl ErrNotFound
      | Some r \<Rightarrow>
          Inr (if sq_customer r = user \<and> sq_state r = SOpen then (with_card s r)\<lparr>rv_offers := open_offers i s\<rparr> else with_card s r))"

definition History :: "uuid \<Rightarrow> time option \<Rightarrow> int \<Rightarrow> services_db \<Rightarrow> request_view list" where
  "History user before limit s =
     map (with_card s) (take (nat (if limit \<le> 0 \<or> limit > 50 then 20 else limit)) (sort_key (\<lambda>r. - sq_created r)
       (filter (\<lambda>r. sq_customer r = user \<and> (case before of None \<Rightarrow> True | Some t \<Rightarrow> sq_created r < t)) (requests s))))"

text \<open>A missing wallet has no money: the code reads the balance of the empty answer.\<close>

definition accept_tx :: "time \<Rightarrow> uuid \<Rightarrow> uuid \<Rightarrow> uuid \<Rightarrow> (services_db, err, request) op" where
  "accept_tx dnow user i offerID s =
     (case find (\<lambda>r. sq_id r = i \<and> sq_customer r = user) (requests s) of
        None \<Rightarrow> (Inl ErrNotFound, s)
      | Some r \<Rightarrow>
          if sq_state r \<noteq> SOpen then (Inl ErrInvalidState, s)
          else (case find (\<lambda>x. so_id x = offerID \<and> so_request x = i) (svc_offers s) of
             None \<Rightarrow> (Inl ErrNotFound, s)
           | Some x \<Rightarrow>
               if so_state x \<noteq> Offered then (Inl ErrOfferGone, s)
               else if sq_method r = Wallet \<and> bal_or_zero (UserWalletCode user) (sv_core s) < so_price x then (Inl ErrInsufficient, s)
               else (case find (\<lambda>c. sc_id c = sq_category r) (sv_categories s) of
                  None \<Rightarrow> (Inl NoRows, s)
                | Some c \<Rightarrow>
                    if exists_where (\<lambda>y. sq_provider y = Some (so_provider x) \<and> ProviderBusy (sq_state y) \<and> sq_id y \<noteq> i) (requests s)
                    then (Inl ErrProviderBusy, s)
                    else
                      let r' = r\<lparr>sq_state := SBooked, sq_provider := Some (so_provider x), sq_offer := Some offerID,
                             sq_price := Some (so_price x), sq_commission := Commission (so_price x) (sc_commission_bp c),
                             sq_currency := so_currency x, sq_pay := PayNone, sq_booked_at := Some dnow, sq_updated := dnow\<rparr>;
                          s1 = upd_request i (\<lambda>_. r') s;
                          s2 = s1\<lparr>svc_offers := answer_offers dnow Withdrawn (\<lambda>y. so_request y = i \<and> so_id y \<noteq> offerID \<and> so_state y = Offered)
                                (answer_offers dnow Accepted (\<lambda>y. so_id y = offerID) (svc_offers s1))\<rparr>
                      in (Inr r', s_emit dnow ''service_request'' i ''ServiceBooked''
                            [(''request_id'', JStr i), (''code'', JStr (sq_code r')), (''customer_id'', JStr user),
                             (''provider_id'', JStr (so_provider x)), (''price_minor'', JInt (so_price x))]
                            (requestEvent dnow i (Some SOpen) SBooked ''customer'' (Some user) [(''offer_id'', JStr offerID)] s2)))))"

definition AcceptOffer :: "time \<Rightarrow> uuid \<Rightarrow> uuid \<Rightarrow> uuid \<Rightarrow> (services_db, err, request_view) op" where
  "AcceptOffer dnow user i offerID s =
     (case begin_func (accept_tx dnow user i offerID) s of
        (Inl e, s1) \<Rightarrow> (Inl e, s1) | (Inr r, s1) \<Rightarrow> (Inr (with_card s1 r), s1))"

definition cancel_tx :: "time \<Rightarrow> uuid \<Rightarrow> uuid \<Rightarrow> string \<Rightarrow> (services_db, err, request) op" where
  "cancel_tx dnow user i reason s =
     (case find (\<lambda>r. sq_id r = i \<and> sq_customer r = user) (requests s) of
        None \<Rightarrow> (Inl ErrNotFound, s)
      | Some r \<Rightarrow>
          if \<not> CustomerCanCancel (sq_state r) then (Inl ErrInvalidState, s)
          else
            let r' = r\<lparr>sq_state := SCancelled, sq_cancelled_by := Some ''customer'', sq_reason := nullable (trim_clip reason 200),
                       sq_cancelled_at := Some dnow, sq_updated := dnow\<rparr>;
                s1 = upd_request i (\<lambda>_. r') s;
                s2 = s1\<lparr>svc_offers := answer_offers dnow Withdrawn (\<lambda>y. so_request y = i \<and> so_state y = Offered) (svc_offers s1)\<rparr>
            in (Inr r', s_emit dnow ''service_request'' i ''ServiceCancelled''
                  [(''request_id'', JStr i), (''code'', JStr (sq_code r')), (''customer_id'', JStr user),
                   (''provider_id'', jopt (sq_provider r')), (''by'', JStr ''customer'')]
                  (requestEvent dnow i (Some (sq_state r)) SCancelled ''customer'' (Some user) [(''reason'', JStr reason)] s2)))"

definition Cancel :: "time \<Rightarrow> uuid \<Rightarrow> uuid \<Rightarrow> string \<Rightarrow> (services_db, err, request_view) op" where
  "Cancel dnow user i reason s =
     (case begin_func (cancel_tx dnow user i reason) s of
        (Inl e, s1) \<Rightarrow> (Inl e, s1) | (Inr r, s1) \<Rightarrow> (Inr (bare r), s1))"

section \<open>Settlement\<close>

definition providerWallet :: "uuid \<Rightarrow> string" where
  "providerWallet p = ''driver:'' @ p @ '':wallet''"

definition service_tx :: "string \<Rightarrow> request \<Rightarrow> posting list \<Rightarrow> transaction" where
  "service_tx kind r ps = \<lparr>Kind = kind, Reference = ''service:'' @ sq_id r,
     IdempotencyKey = ''service:'' @ sq_id r @ '':fee'', TxCurrency = sq_currency r, Postings = ps\<rparr>"

definition wallet_postings :: "request \<Rightarrow> uuid \<Rightarrow> int \<Rightarrow> posting list" where
  "wallet_postings r p price =
     [debit (UserWalletCode (sq_customer r)) price, credit (providerWallet p) (sub64 price (sq_commission r))] @
     (if sq_commission r > 0 then [credit ''krejt:commission'' (sq_commission r)] else [])"

definition cash_postings :: "request \<Rightarrow> uuid \<Rightarrow> posting list" where
  "cash_postings r p = [debit (providerWallet p) (sq_commission r), credit ''krejt:commission'' (sq_commission r)]"

definition settle_plan :: "request \<Rightarrow> uuid \<Rightarrow> int \<Rightarrow> core \<Rightarrow> plan" where
  "settle_plan r p price c =
     (if sq_method r = Wallet then
        (case Balance (UserWalletCode (sq_customer r)) c of
           Inl e \<Rightarrow> Reject e
         | Inr b \<Rightarrow> if Minor b < price then Fail_payment
                    else Pay PayPaid (Some (service_tx ''service_fee'' r (wallet_postings r p price))))
      else if sq_commission r > 0
      then Pay PayCash (Some (service_tx ''service_cash_commission'' r (cash_postings r p)))
      else Pay PayCash None)"

definition setPaymentStatus :: "time \<Rightarrow> request \<Rightarrow> pay_status \<Rightarrow> (services_db, err, unit) op" where
  "setPaymentStatus dnow r st = begin_func (\<lambda>s.
     (Inr (), s_emit dnow ''service_request'' (sq_id r) (if st = PayFailed then ''ServicePaymentFailed'' else ''ServicePaymentSettled'')
        [(''request_id'', JStr (sq_id r)), (''customer_id'', JStr (sq_customer r)), (''provider_id'', jopt (sq_provider r)),
         (''status'', JStr (status_text st))]
        (s\<lparr>requests := upd_where (\<lambda>x. sq_id x = sq_id r \<and> sq_pay x = PayPending)
           (\<lambda>x. x\<lparr>sq_pay := st, sq_updated := dnow\<rparr>) (requests s)\<rparr>)))"

definition settle :: "time \<Rightarrow> uuid \<Rightarrow> request \<Rightarrow> (services_db, err, unit) op" where
  "settle dnow txi r s =
     (case (sq_provider r, sq_price r) of
        (Some p, Some price) \<Rightarrow>
          if sq_state r \<noteq> SCompleted \<or> sq_pay r \<noteq> PayPending then (Inr (), s)
          else
            let s1 = s\<lparr>sv_core := EnsureAccount (providerWallet p) ''driver'' (Some p) ''liability'' (sq_currency r) (sv_core s)\<rparr>
            in (case settle_plan r p price (sv_core s1) of
                  Reject e \<Rightarrow> (Inl e, s1)
                | Fail_payment \<Rightarrow> setPaymentStatus dnow r PayFailed s1
                | Pay st None \<Rightarrow> setPaymentStatus dnow r st s1
                | Pay st (Some tx) \<Rightarrow>
                    (case Post dnow txi tx (sv_core s1) of
                       (Inl e, c) \<Rightarrow> (Inl e, s1\<lparr>sv_core := c\<rparr>)
                     | (Inr _, c) \<Rightarrow> setPaymentStatus dnow r st (s1\<lparr>sv_core := c\<rparr>)))
      | _ \<Rightarrow> (Inr (), s))"

fun settle_loop :: "time \<Rightarrow> (nat \<Rightarrow> uuid) \<Rightarrow> request list \<Rightarrow> nat \<Rightarrow> (services_db, err \<times> nat, nat) op" where
  "settle_loop dnow txs [] n s = (Inr n, s)"
| "settle_loop dnow txs (r # rs) n s =
     (case settle dnow (txs n) r s of
        (Inl e, s1) \<Rightarrow> (Inl (e, n), s1)
      | (Inr _, s1) \<Rightarrow> settle_loop dnow txs rs (n + 1) s1)"

definition pending_requests :: "time \<Rightarrow> services_db \<Rightarrow> request list" where
  "pending_requests dnow s = take 50 (sort_key sq_updated
     (filter (\<lambda>r. sq_pay r = PayPending \<and> sq_state r = SCompleted \<and> sq_updated r < dnow - 10 * Second) (requests s)))"

definition SettlePending :: "time \<Rightarrow> (nat \<Rightarrow> uuid) \<Rightarrow> (services_db, err \<times> nat, nat) op" where
  "SettlePending dnow txs s = settle_loop dnow txs (pending_requests dnow s) 0 s"

section \<open>The provider's side\<close>

record open_request =
  oqID :: uuid
  oqCode :: string
  oqCategory :: string
  oqTitle :: string
  oqDescription :: string
  oqCity :: string
  oqDistance :: int
  oqPreferred :: "time option"
  oqPhotos :: "string list"
  oqCreated :: time
  oqMine :: "svc_offer option"

text \<open>What a provider sees of an open request; the distance is never filled in.\<close>

definition open_request_of :: "uuid \<Rightarrow> services_db \<Rightarrow> request \<Rightarrow> open_request" where
  "open_request_of user s r =
     \<lparr>oqID = sq_id r, oqCode = sq_code r, oqCategory = sq_category r, oqTitle = sq_title r, oqDescription = sq_description r,
      oqCity = CityOf (sq_address r), oqDistance = 0, oqPreferred = sq_preferred r, oqPhotos = sq_photos r, oqCreated = sq_created r,
      oqMine = find (\<lambda>x. so_request x = sq_id r \<and> so_provider x = user) (svc_offers s)\<rparr>"

definition OpenRequests :: "uuid \<Rightarrow> int \<Rightarrow> services_db \<Rightarrow> err + open_request list" where
  "OpenRequests user limit s =
     (case approved user [] s of
        Some e \<Rightarrow> Inl e
      | None \<Rightarrow>
          Inr (map (open_request_of user s) (take (nat (if limit \<le> 0 \<or> limit > 50 then 20 else limit)) (sort_key (\<lambda>r. - sq_created r)
            (filter (\<lambda>r. sq_state r = SOpen \<and> exists_where (\<lambda>p. pv_user p = user \<and> sq_category r \<in> set (pv_categories p)) (providers s))
              (requests s))))))"

record offer_input =
  oiPrice :: int
  oiNote :: string
  oiCanStart :: "time option"

text \<open>The upsert of an offer: only an offer that is still open, or was declined, can be replaced.\<close>

definition upsert_offer :: "time \<Rightarrow> uuid \<Rightarrow> uuid \<Rightarrow> uuid \<Rightarrow> offer_input \<Rightarrow> (services_db, err, svc_offer) op" where
  "upsert_offer dnow i req user inp s =
     (case find (\<lambda>x. so_request x = req \<and> so_provider x = user) (svc_offers s) of
        None \<Rightarrow>
          if exists_where (\<lambda>x. so_id x = i) (svc_offers s) then (Inl PgUnique, s)
          else let x = \<lparr>so_id = i, so_request = req, so_provider = user, so_price = oiPrice inp, so_currency = ''EUR'',
                        so_note = nullable (trim_clip (oiNote inp) 300), so_can_start = oiCanStart inp, so_state = Offered,
                        so_created = dnow, so_responded = None\<rparr>
               in (Inr x, s\<lparr>svc_offers := svc_offers s @ [x]\<rparr>)
      | Some y \<Rightarrow>
          if so_state y \<noteq> Offered \<and> so_state y \<noteq> Declined then (Inl ErrAlreadyOffered, s)
          else let x = y\<lparr>so_price := oiPrice inp, so_note := nullable (trim_clip (oiNote inp) 300), so_can_start := oiCanStart inp,
                         so_state := Offered, so_responded := None\<rparr>
               in (Inr x, s\<lparr>svc_offers := upd_where (\<lambda>z. so_request z = req \<and> so_provider z = user) (\<lambda>_. x) (svc_offers s)\<rparr>))"

definition MakeOffer :: "time \<Rightarrow> uuid \<Rightarrow> uuid \<Rightarrow> uuid \<Rightarrow> offer_input \<Rightarrow> (services_db, err, svc_offer) op" where
  "MakeOffer dnow i user req inp s =
     (if oiPrice inp \<le> 0 \<or> oiPrice inp > 500000 then (Inl (ErrValidation [(''price_minor'', ''range'')]), s)
      else case find (\<lambda>r. sq_id r = req) (requests s) of
        None \<Rightarrow> (Inl ErrNotFound, s)
      | Some r \<Rightarrow>
          if sq_state r \<noteq> SOpen then (Inl ErrInvalidState, s)
          else (case approved user (sq_category r) s of
             Some e \<Rightarrow> (Inl e, s)
           | None \<Rightarrow>
               (case upsert_offer dnow i req user inp s of
                  (Inl e, s1) \<Rightarrow> (Inl e, s1)
                | (Inr x, s1) \<Rightarrow>
                    (Inr x, s_emit dnow ''service_request'' req ''ServiceOffered''
                      [(''request_id'', JStr req), (''provider_id'', JStr user), (''offer_id'', JStr (so_id x)), (''price_minor'', JInt (oiPrice inp))] s1))))"

definition WithdrawOffer :: "time \<Rightarrow> uuid \<Rightarrow> uuid \<Rightarrow> (services_db, err, unit) op" where
  "WithdrawOffer dnow user offerID s =
     (let mine = (\<lambda>x. so_id x = offerID \<and> so_provider x = user \<and> so_state x = Offered)
      in if exists_where mine (svc_offers s) then (Inr (), s\<lparr>svc_offers := answer_offers dnow Withdrawn mine (svc_offers s)\<rparr>)
         else (Inl ErrNotFound, s))"

definition MyJobs :: "uuid \<Rightarrow> int \<Rightarrow> services_db \<Rightarrow> request list" where
  "MyJobs user limit s =
     take (nat (if limit \<le> 0 \<or> limit > 50 then 20 else limit)) (sort_key (\<lambda>r. - sq_created r)
       (filter (\<lambda>r. sq_provider r = Some user) (requests s)))"

definition step_update :: "time \<Rightarrow> svc_state \<Rightarrow> request \<Rightarrow> err + request" where
  "step_update dnow to r =
     (case to of
        SInProgress \<Rightarrow> Inr (r\<lparr>sq_state := SInProgress, sq_started_at := Some dnow\<rparr>)
      | SCompleted \<Rightarrow> Inr (r\<lparr>sq_state := SCompleted, sq_completed_at := Some dnow, sq_pay := PayPending\<rparr>)
      | SOpen \<Rightarrow> Inr (r\<lparr>sq_state := SOpen, sq_provider := None, sq_offer := None, sq_price := None, sq_commission := 0, sq_booked_at := None\<rparr>)
      | _ \<Rightarrow> Inl ErrInvalidState)"

definition step_event :: "svc_state \<Rightarrow> string" where
  "step_event to = (case to of SInProgress \<Rightarrow> ''ServiceStarted'' | SCompleted \<Rightarrow> ''ServiceCompleted'' | SOpen \<Rightarrow> ''ServiceReleased'' | _ \<Rightarrow> [])"

definition step_tx :: "time \<Rightarrow> uuid \<Rightarrow> uuid \<Rightarrow> svc_state \<Rightarrow> string \<Rightarrow> (services_db, err, request) op" where
  "step_tx dnow user i to reason s =
     (case find (\<lambda>r. sq_id r = i \<and> sq_provider r = Some user) (requests s) of
        None \<Rightarrow> (Inl ErrNotFound, s)
      | Some r \<Rightarrow>
          if \<not> CanTransition (sq_state r) to then (Inl ErrInvalidState, s)
          else (case step_update dnow to r of
             Inl e \<Rightarrow> (Inl e, s)
           | Inr r1 \<Rightarrow>
               let r' = r1\<lparr>sq_updated := dnow\<rparr>;
                   s1 = upd_request i (\<lambda>_. r') s;
                   s2 = (if to = SOpen
                         then s1\<lparr>svc_offers := answer_offers dnow Declined (\<lambda>y. so_request y = i \<and> so_provider y = user) (svc_offers s1)\<rparr> else s1);
                   s3 = (if to = SCompleted
                         then s2\<lparr>providers := upd_where (\<lambda>p. pv_user p = user) (\<lambda>p. p\<lparr>pv_jobs := pv_jobs p + 1\<rparr>) (providers s2)\<rparr> else s2)
               in (Inr r', s_emit dnow ''service_request'' i (step_event to)
                     [(''request_id'', JStr i), (''code'', JStr (sq_code r')), (''customer_id'', JStr (sq_customer r')),
                      (''provider_id'', JStr user), (''reason'', JStr reason)]
                     (requestEvent dnow i (Some (sq_state r)) to ''provider'' (Some user) [(''reason'', JStr reason)] s3))))"

definition Step :: "time \<Rightarrow> uuid \<Rightarrow> uuid \<Rightarrow> uuid \<Rightarrow> svc_state \<Rightarrow> string \<Rightarrow> (services_db, err, request_view) op" where
  "Step dnow txi user i to reason s =
     (case begin_func (step_tx dnow user i to reason) s of
        (Inl e, s1) \<Rightarrow> (Inl e, s1)
      | (Inr r, s1) \<Rightarrow>
          if to = SCompleted then
            let s2 = snd (settle dnow txi r s1)
            in (case find (\<lambda>x. sq_id x = i) (requests s2) of None \<Rightarrow> (Inl NoRows, s2) | Some r' \<Rightarrow> (Inr (bare r'), s2))
          else (Inr (bare r), s1))"

end
