(* ===== verification/ServiceSafety.thy ===== *)
theory ServiceSafety
  imports Services
begin

text \<open>
  The protocol of home services: every handler of customer, provider and operations, and the settlement
  worker, keeps the invariant of the tables of requests and offers. The requests follow the common
  protocol of \<open>Deliveries\<close> with the provider in the place of the courier; the offers are tied to them:
  a request that was booked refers to the offer that was accepted for it, and bears its price.
\<close>

section \<open>Requests follow the common protocol\<close>

definition request_fixed where
  "request_fixed r = (sq_id r, (sq_customer r, sq_idem r), sq_code r, sq_category r, sq_method r, (sq_title r, sq_description r),
     (sq_address1 r, sq_address r), sq_created r)"

definition request_final where
  "request_final r = ((sq_offer r, sq_price r, sq_commission r, sq_currency r), (sq_cancelled_by r, sq_reason r),
     (sq_booked_at r, sq_started_at r, sq_completed_at r, sq_cancelled_at r))"

text \<open>What a row promises in every state.\<close>

definition request_ok :: "request \<Rightarrow> bool" where
  "request_ok r \<longleftrightarrow> sq_state r \<noteq> SNoOffers \<and>
     (ProviderBusy (sq_state r) \<or> sq_state r = SCompleted \<longrightarrow> sq_offer r \<noteq> None) \<and> (sq_state r = SOpen \<longrightarrow> sq_offer r = None) \<and>
     (sq_offer r = None \<longleftrightarrow> sq_provider r = None) \<and> (sq_offer r = None \<longleftrightarrow> sq_price r = None) \<and>
     (sq_pay r = PayNone \<longleftrightarrow> sq_state r \<noteq> SCompleted) \<and>
     (sq_pay r = PayPaid \<longrightarrow> sq_method r = Wallet) \<and> (sq_pay r = PayCash \<longrightarrow> sq_method r \<noteq> Wallet)"

lemmas request_row_defs = request_ok_def ProviderBusy_def IsTerminal_def request_fixed_def

interpretation sm: courier_protocol transitions SOpen IsTerminal sq_id sq_state sq_provider
  "\<lambda>r. (sq_customer r, sq_idem r)" request_fixed request_final ProviderBusy request_ok
proof
  fix s show "IsTerminal s \<Longrightarrow> transitions s = []" by (auto simp: IsTerminal_def)
  show "transitions s = [] \<Longrightarrow> IsTerminal s" by (cases s) (auto simp: IsTerminal_def)
next
  fix r r' :: request assume "request_fixed r = request_fixed r'"
  then show "sq_id r = sq_id r'" "(sq_customer r, sq_idem r) = (sq_customer r', sq_idem r')"
    by (simp_all add: request_fixed_def)
qed (auto simp: request_row_defs)

abbreviation stab :: "services_db \<Rightarrow> (request, svc_state) tables" where
  "stab s \<equiv> (requests s, svc_journal s)"

lemma service_frame [simp]:
  "requests (s_emit dnow k i ev b s) = requests s" "svc_journal (s_emit dnow k i ev b s) = svc_journal s"
  "svc_offers (s_emit dnow k i ev b s) = svc_offers s" "sv_categories (s_emit dnow k i ev b s) = sv_categories s"
  "providers (s_emit dnow k i ev b s) = providers s"
  "requests (requestEvent dnow i from to aty a meta s) = requests s" "svc_offers (requestEvent dnow i from to aty a meta s) = svc_offers s"
  "sv_categories (requestEvent dnow i from to aty a meta s) = sv_categories s"
  "svc_journal (requestEvent dnow i from to aty a meta s) = svc_journal s @ [\<lparr>jn_subject = i, jn_from = from, jn_to = to,
     jn_actor_type = aty, jn_actor = a, jn_meta = meta, jn_created = dnow\<rparr>]"
  "requests (upd_request i g s) = upd_where (\<lambda>r. sq_id r = i) g (requests s)" "svc_journal (upd_request i g s) = svc_journal s"
  "svc_offers (upd_request i g s) = svc_offers s" "sv_categories (upd_request i g s) = sv_categories s"
  by (simp_all add: s_emit_def requestEvent_def upd_request_def)

section \<open>Requests and their offers\<close>

definition billed :: "request \<Rightarrow> svc_offer \<Rightarrow> bool" where
  "billed r x \<longleftrightarrow> so_request x = sq_id r \<and> so_state x = Accepted \<and> sq_provider r = Some (so_provider x) \<and>
     sq_price r = Some (so_price x) \<and> 0 \<le> sq_commission r \<and> sq_commission r \<le> so_price x"

definition offers_ok :: "request list \<Rightarrow> svc_offer list \<Rightarrow> bool" where
  "offers_ok R X \<longleftrightarrow> distinct (map so_id X) \<and> distinct (map (\<lambda>x. (so_request x, so_provider x)) X) \<and>
     (\<forall>x \<in> set X. 0 < so_price x \<and> so_price x \<le> 500000) \<and>
     (\<forall>x \<in> set X. so_state x = Accepted \<longrightarrow> (\<exists>r \<in> set R. sq_id r = so_request x \<and> sq_offer r = Some (so_id x))) \<and>
     (\<forall>r \<in> set R. \<forall>i. sq_offer r = Some i \<longrightarrow> (\<exists>x \<in> set X. so_id x = i \<and> billed r x))"

definition rates_ok :: "category list \<Rightarrow> bool" where
  "rates_ok cs \<longleftrightarrow> (\<forall>c \<in> set cs. 0 \<le> sc_commission_bp c \<and> sc_commission_bp c \<le> 10000)"

definition services_inv :: "services_db \<Rightarrow> bool" where
  "services_inv s \<longleftrightarrow> sm.inv (stab s) \<and> offers_ok (requests s) (svc_offers s) \<and> rates_ok (sv_categories s)"

lemma offers_okD:
  assumes "offers_ok R X"
  shows "distinct (map so_id X)" "distinct (map (\<lambda>x. (so_request x, so_provider x)) X)"
    "x \<in> set X \<Longrightarrow> 0 < so_price x \<and> so_price x \<le> 500000"
    "x \<in> set X \<Longrightarrow> so_state x = Accepted \<Longrightarrow> \<exists>r \<in> set R. sq_id r = so_request x \<and> sq_offer r = Some (so_id x)"
    "r \<in> set R \<Longrightarrow> sq_offer r = Some i \<Longrightarrow> \<exists>x \<in> set X. so_id x = i \<and> billed r x"
  using assms unfolding offers_ok_def by blast+

lemma services_inv_same:
  assumes "services_inv s" "requests s' = requests s" "svc_journal s' = svc_journal s" "svc_offers s' = svc_offers s"
    "sv_categories s' = sv_categories s"
  shows "services_inv s'"
  using assms by (simp add: services_inv_def)

text \<open>Offers change without touching those that were accepted.\<close>

lemma offers_ok_update:
  assumes ok: "offers_ok R X" and f: "\<And>x. so_id (f x) = so_id x \<and> so_request (f x) = so_request x \<and> so_provider (f x) = so_provider x"
    and new: "\<And>x. x \<in> set X \<Longrightarrow> P x \<Longrightarrow> so_state x \<noteq> Accepted \<and> so_state (f x) \<noteq> Accepted \<and> 0 < so_price (f x) \<and> so_price (f x) \<le> 500000"
  shows "offers_ok R (upd_where P f X)"
proof -
  have m: "map so_id (upd_where P f X) = map so_id X"
    "map (\<lambda>x. (so_request x, so_provider x)) (upd_where P f X) = map (\<lambda>x. (so_request x, so_provider x)) X"
    using f by simp_all
  have keep: "x \<in> set (upd_where P f X)" if "x \<in> set X" "so_state x = Accepted" for x
    using that new[OF that(1)] by (auto simp: set_upd_where)
  have cases: "(\<exists>y \<in> set X. P y \<and> x = f y) \<or> x \<in> set X" if "x \<in> set (upd_where P f X)" for x
    using that by (auto simp: set_upd_where)
  show ?thesis unfolding offers_ok_def
  proof (intro conjI ballI allI impI)
    show "distinct (map so_id (upd_where P f X))" unfolding m by (rule offers_okD(1)[OF ok])
    show "distinct (map (\<lambda>x. (so_request x, so_provider x)) (upd_where P f X))" unfolding m by (rule offers_okD(2)[OF ok])
  next
    fix x assume "x \<in> set (upd_where P f X)"
    then show "0 < so_price x" "so_price x \<le> 500000"
      using cases[of x] new offers_okD(3)[OF ok] by blast+
    show "so_state x = Accepted \<Longrightarrow> \<exists>r\<in>set R. sq_id r = so_request x \<and> sq_offer r = Some (so_id x)"
      using cases[of x] new offers_okD(4)[OF ok] \<open>x \<in> set (upd_where P f X)\<close> by blast
  next
    fix r i assume "r \<in> set R" "sq_offer r = Some i"
    then obtain x where "x \<in> set X" "so_id x = i" "billed r x" using offers_okD(5)[OF ok] by blast
    then show "\<exists>x\<in>set (upd_where P f X). so_id x = i \<and> billed r x" using keep by (auto simp: billed_def)
  qed
qed

text \<open>A row changes its offer; the other rows and their offers stay.\<close>

lemma offers_ok_rows:
  assumes ok: "offers_ok R X" and keep: "\<And>r. r \<in> set R' \<Longrightarrow> \<exists>q \<in> set R. sq_id r = sq_id q \<and> sq_offer r = sq_offer q \<and>
       sq_provider r = sq_provider q \<and> sq_price r = sq_price q \<and> sq_commission r = sq_commission q"
    and cover: "\<And>r. r \<in> set R \<Longrightarrow> \<exists>q \<in> set R'. sq_id q = sq_id r \<and> sq_offer q = sq_offer r"
  shows "offers_ok R' X"
  unfolding offers_ok_def
proof (intro conjI ballI allI impI)
  fix r i assume "r \<in> set R'" "sq_offer r = Some i"
  then show "\<exists>x\<in>set X. so_id x = i \<and> billed r x"
    using keep[of r] offers_okD(5)[OF ok] unfolding billed_def by metis
next
  fix x assume "x \<in> set X" "so_state x = Accepted"
  then show "\<exists>r\<in>set R'. sq_id r = so_request x \<and> sq_offer r = Some (so_id x)"
    using offers_okD(4)[OF ok] cover by metis
qed (use offers_okD(1-3)[OF ok] in blast)+

lemma find_row:
  assumes "services_inv s" "find P (requests s) = Some r" "sq_id r = i"
  shows "r \<in> set (requests s)" "P r" "request_ok r" "x \<in> set (requests s) \<Longrightarrow> sq_id x = i \<Longrightarrow> x = r"
proof -
  show r: "r \<in> set (requests s)" "P r" using find_SomeD[OF assms(2)] by blast+
  have inv: "sm.inv (stab s)" using assms(1) by (simp add: services_inv_def)
  show "request_ok r" by (rule sm.inv_D(3)[OF inv r(1)])
  show "x = r" if "x \<in> set (requests s)" "sq_id x = i"
    using sm.same_row[OF inv that(1) r(1)] that(2) assms(3) by simp
qed

text \<open>A transition of the row found by a query, in the form the handlers have it.\<close>

lemma service_moves:
  assumes "services_inv s" "find P (requests s) = Some r" "sq_id r = i" "CanTransition (sq_state r) (sq_state r')"
    "request_fixed r' = request_fixed r" "request_ok r'"
    "ProviderBusy (sq_state r') \<longrightarrow> ProviderBusy (sq_state r) \<and> sq_provider r' = sq_provider r \<or>
       (\<forall>x \<in> set (requests s). sq_id x \<noteq> i \<longrightarrow> ProviderBusy (sq_state x) \<longrightarrow> sq_provider x \<noteq> sq_provider r')"
    "requests s' = upd_where (\<lambda>x. sq_id x = i) (\<lambda>_. r') (requests s)"
    "svc_journal s' = svc_journal s @ [e]" "jn_subject e = i" "jn_from e = Some (sq_state r)" "jn_to e = sq_state r'"
    "offers_ok (requests s') (svc_offers s')" "sv_categories s' = sv_categories s"
  shows "services_inv s'"
proof -
  have inv: "sm.inv (stab s)" using assms(1) by (simp add: services_inv_def)
  have "sm.inv (stab s')"
    using sm.moves_inv[OF sm.found_moves[OF inv assms(2,3) assms(4)[unfolded CanTransition_def] assms(5-7,10-12,8,9)] inv] by simp
  then show ?thesis using assms(1,13,14) by (simp add: services_inv_def)
qed

text \<open>The row whose place another one takes, and the rest.\<close>

lemma replaced_rows:
  assumes "services_inv s" "find P (requests s) = Some r" "sq_id r = i"
  shows "set (upd_where (\<lambda>x. sq_id x = i) (\<lambda>_. r') (requests s)) = insert r' {x \<in> set (requests s). sq_id x \<noteq> i}"
    and "x \<in> set (requests s) \<Longrightarrow> x = r \<or> sq_id x \<noteq> i"
proof -
  have r: "r \<in> set (requests s)" "sq_id r = i" using find_row(1)[OF assms] assms(3) by blast+
  then show "set (upd_where (\<lambda>x. sq_id x = i) (\<lambda>_. r') (requests s)) = insert r' {x \<in> set (requests s). sq_id x \<noteq> i}"
    by (auto simp: set_upd_where)
  show "x \<in> set (requests s) \<Longrightarrow> x = r \<or> sq_id x \<noteq> i" using find_row(4)[OF assms] by metis
qed

section \<open>The handlers\<close>

lemma offers_ok_insert: "offers_ok R X \<Longrightarrow> sq_offer r = None \<Longrightarrow> offers_ok (R @ [r]) X"
  unfolding offers_ok_def by auto

lemma services_Create_inv:
  assumes inv: "services_inv s"
  shows "services_inv (snd (Create dnow i b user idem inp s))"
proof -
  have I: "sm.inv (stab s)" "offers_ok (requests s) (svc_offers s)" "rates_ok (sv_categories s)"
    using inv by (simp_all add: services_inv_def)
  have step: "services_inv s'" if tx: "create_tx dnow (new_request dnow i b user k inp a pm) s = (Inr r, s')" for k a pm r s'
  proof -
    let ?r = "new_request dnow i b user k inp a pm"
    have new: "\<forall>x \<in> set (requests s). sq_id x \<noteq> sq_id ?r \<and> (sq_customer x, sq_idem x) \<noteq> (sq_customer ?r, sq_idem ?r)"
      and tabs: "requests s' = requests s @ [?r]" "svc_offers s' = svc_offers s" "sv_categories s' = sv_categories s"
      "svc_journal s' = svc_journal s @ [\<lparr>jn_subject = sq_id ?r, jn_from = None, jn_to = SOpen, jn_actor_type = ''customer'',
         jn_actor = Some (sq_customer ?r), jn_meta = [], jn_created = dnow\<rparr>]"
      using tx by (auto simp: create_tx_def exists_where_iff split: if_splits)
    have st: "sq_state ?r = SOpen" "request_ok ?r" "sq_offer ?r = None"
      by (simp_all add: new_request_def request_ok_def ProviderBusy_def)
    have "sm.inv (requests s @ [?r], svc_journal s @ [\<lparr>jn_subject = sq_id ?r, jn_from = None, jn_to = SOpen,
        jn_actor_type = ''customer'', jn_actor = Some (sq_customer ?r), jn_meta = [], jn_created = dnow\<rparr>])"
      by (rule sm.inv_insert[OF I(1) st(1,2) new]) simp_all
    then show ?thesis using offers_ok_insert[OF I(2) st(3)] I(3) by (simp add: services_inv_def tabs)
  qed
  have "services_inv (snd (begin_func (create_tx dnow (new_request dnow i b user k inp a pm)) s))" for k a pm
    by (rule snd_begin_func_inv[of services_inv, OF inv step])
  then show ?thesis using inv by (simp add: Create_def Let_def split: option.split)
qed

lemma services_Commission_bounds:
  assumes "0 < p" "p \<le> 500000" "0 \<le> bp" "bp \<le> 10000"
  shows "Commission p bp = (p * bp + 5000) div 10000" "0 \<le> Commission p bp" "Commission p bp \<le> p"
proof -
  have m: "0 \<le> p * bp" "p * bp \<le> p * 10000" using assms by (auto intro: mult_left_mono)
  then have "p * bp \<le> 5000000000" using assms(2) by linarith
  then have q: "in64 (p * bp)" "in64 (p * bp + 5000)" using m(1) by (simp_all add: in64_def)
  then show e: "Commission p bp = (p * bp + 5000) div 10000"
    using m(1) by (simp add: Commission_def mul64_id add64_id quot_nonneg)
  show "0 \<le> Commission p bp" unfolding e using m(1) by (simp add: pos_imp_zdiv_nonneg_iff)
  show "Commission p bp \<le> p" unfolding e using m(2) assms(1) by linarith
qed

lemma answer_keys [simp]:
  "map so_id (answer_offers dnow st P X) = map so_id X"
  "map (\<lambda>x. (so_request x, so_provider x)) (answer_offers dnow st P X) = map (\<lambda>x. (so_request x, so_provider x)) X"
  by (simp_all add: answer_offers_def)

lemma in_answer:
  "z \<in> set (answer_offers dnow st P X) \<longleftrightarrow>
     (\<exists>y \<in> set X. P y \<and> z = y\<lparr>so_state := st, so_responded := Some dnow\<rparr>) \<or> (z \<in> set X \<and> \<not> P z)"
  by (auto simp: answer_offers_def set_upd_where)

lemma answer_base: "z \<in> set (answer_offers dnow st P X) \<Longrightarrow> \<exists>y \<in> set X. so_price z = so_price y"
  by (auto simp: in_answer)

text \<open>Accepting one offer of a request that has none, and withdrawing the others.\<close>

lemma offers_ok_accept:
  assumes ok: "offers_ok R X" and x: "x \<in> set X" "so_request x = i" and r: "r \<in> set R" "sq_id r = i" "sq_offer r = None"
    and only: "\<And>q. q \<in> set R \<Longrightarrow> sq_id q = i \<Longrightarrow> q = r"
    and R': "set R' = insert r' {q \<in> set R. sq_id q \<noteq> i}"
    and r': "sq_id r' = i" "sq_offer r' = Some (so_id x)" "sq_provider r' = Some (so_provider x)" "sq_price r' = Some (so_price x)"
      "0 \<le> sq_commission r'" "sq_commission r' \<le> so_price x"
  shows "offers_ok R' (answer_offers dnow Withdrawn (\<lambda>y. so_request y = i \<and> so_id y \<noteq> so_id x \<and> so_state y = Offered)
      (answer_offers dnow Accepted (\<lambda>y. so_id y = so_id x) X))" (is "offers_ok R' ?X")
proof -
  note D = offers_okD[OF ok]
  have same: "y = x" if "y \<in> set X" "so_id y = so_id x" for y using distinct_keyD[OF D(1) that(1) x(1) that(2)] .
  let ?x = "x\<lparr>so_state := Accepted, so_responded := Some dnow\<rparr>"
  have cases: "z = ?x \<or> (z \<in> set X \<and> so_id z \<noteq> so_id x \<and> so_state z = Accepted)"
    if "z \<in> set ?X" "so_state z = Accepted" for z
    using that same unfolding in_answer by auto
  have base: "\<exists>y \<in> set X. so_price z = so_price y" if "z \<in> set ?X" for z
    using answer_base[OF that] answer_base by metis
  have keep: "y \<in> set ?X" if "y \<in> set X" "so_state y = Accepted" "so_id y \<noteq> so_id x" for y
    using that unfolding in_answer by auto
  have x': "?x \<in> set ?X" using x unfolding in_answer by auto
  show ?thesis unfolding offers_ok_def
  proof (intro conjI ballI allI impI)
    show "distinct (map so_id ?X)" "distinct (map (\<lambda>x. (so_request x, so_provider x)) ?X)" using D(1,2) by simp_all
  next
    fix z assume "z \<in> set ?X"
    from base[OF this] obtain y where "y \<in> set X" "so_price z = so_price y" by blast
    then show "0 < so_price z" "so_price z \<le> 500000" using D(3)[of y] by simp_all
  next
    fix z assume z: "z \<in> set ?X" "so_state z = Accepted"
    from cases[OF this] show "\<exists>q\<in>set R'. sq_id q = so_request z \<and> sq_offer q = Some (so_id z)"
    proof
      assume "z = ?x"
      then show ?thesis using x(2) r' R' by (intro bexI[of _ r']) auto
    next
      assume a: "z \<in> set X \<and> so_id z \<noteq> so_id x \<and> so_state z = Accepted"
      then obtain q where q: "q \<in> set R" "sq_id q = so_request z" "sq_offer q = Some (so_id z)" using D(4) by blast
      then have "sq_id q \<noteq> i" using only r(3) by force
      then show ?thesis using q R' by auto
    qed
  next
    fix q j assume q: "q \<in> set R'" "sq_offer q = Some j"
    show "\<exists>z\<in>set ?X. so_id z = j \<and> billed q z"
    proof (cases "q = r'")
      case True
      then show ?thesis using x' x(2) r' q(2) by (intro bexI[of _ ?x]) (auto simp: billed_def)
    next
      case False
      then have q': "q \<in> set R" "sq_id q \<noteq> i" using q(1) R' by auto
      obtain y where y: "y \<in> set X" "so_id y = j" "billed q y" using D(5)[OF q'(1) q(2)] by blast
      have "so_id y \<noteq> so_id x"
      proof
        assume "so_id y = so_id x"
        then have "y = x" by (rule same[OF y(1)])
        then show False using y(3) q'(2) x(2) by (simp add: billed_def)
      qed
      then show ?thesis using keep y by (auto simp: billed_def)
    qed
  qed
qed

lemma services_AcceptOffer_inv:
  assumes inv: "services_inv s"
  shows "services_inv (snd (AcceptOffer dnow user i offerID s))"
proof -
  have step: "services_inv s'" if tx: "accept_tx dnow user i offerID s = (Inr r', s')" for r' s'
  proof -
    have I: "offers_ok (requests s) (svc_offers s)" "rates_ok (sv_categories s)" using inv by (simp_all add: services_inv_def)
    obtain r x c where r: "find (\<lambda>r. sq_id r = i \<and> sq_customer r = user) (requests s) = Some r" and st: "sq_state r = SOpen"
      and x: "find (\<lambda>x. so_id x = offerID \<and> so_request x = i) (svc_offers s) = Some x"
      and c: "find (\<lambda>c. sc_id c = sq_category r) (sv_categories s) = Some c"
      and free: "\<not> exists_where (\<lambda>y. sq_provider y = Some (so_provider x) \<and> ProviderBusy (sq_state y) \<and> sq_id y \<noteq> i) (requests s)"
      using tx by (auto simp: accept_tx_def split: option.splits if_splits)
    have ri: "sq_id r = i" using find_SomeD[OF r] by simp
    note row = find_row[OF inv r ri]
    have xin: "x \<in> set (svc_offers s)" "so_id x = offerID" "so_request x = i" using find_SomeD[OF x] by auto
    have r': "r' = r\<lparr>sq_state := SBooked, sq_provider := Some (so_provider x), sq_offer := Some offerID,
         sq_price := Some (so_price x), sq_commission := Commission (so_price x) (sc_commission_bp c),
         sq_currency := so_currency x, sq_pay := PayNone, sq_booked_at := Some dnow, sq_updated := dnow\<rparr>"
      and tabs: "requests s' = upd_where (\<lambda>x. sq_id x = i) (\<lambda>_. r') (requests s)" "sv_categories s' = sv_categories s"
        "svc_offers s' = answer_offers dnow Withdrawn (\<lambda>y. so_request y = i \<and> so_id y \<noteq> offerID \<and> so_state y = Offered)
           (answer_offers dnow Accepted (\<lambda>y. so_id y = offerID) (svc_offers s))"
      and j: "\<exists>e. svc_journal s' = svc_journal s @ [e] \<and> jn_subject e = i \<and> jn_from e = Some (sq_state r) \<and> jn_to e = sq_state r'"
      using tx r st x c free by (auto simp: accept_tx_def Let_def split: if_splits)
    obtain e where e: "svc_journal s' = svc_journal s @ [e]" "jn_subject e = i" "jn_from e = Some (sq_state r)" "jn_to e = sq_state r'"
      using j by blast
    have price: "0 < so_price x" "so_price x \<le> 500000" using offers_okD(3)[OF I(1) xin(1)] by blast+
    have bp: "0 \<le> sc_commission_bp c" "sc_commission_bp c \<le> 10000" using I(2) find_SomeD[OF c] by (auto simp: rates_ok_def)
    note com = services_Commission_bounds(2,3)[OF price bp]
    have none: "sq_offer r = None" using row(3) st by (simp add: request_ok_def)
    have "offers_ok (requests s') (svc_offers s')"
      unfolding tabs(3) xin(2)[symmetric]
      by (rule offers_ok_accept[OF I(1) xin(1,3) row(1) ri none _ replaced_rows(1)[OF inv r ri, of r', folded tabs(1)]])
         (use row(4) ri com xin(2) in \<open>auto simp: r'\<close>)
    moreover have "request_ok r'" "request_fixed r' = request_fixed r" "CanTransition (sq_state r) (sq_state r')"
      using st by (simp_all add: r' request_row_defs CanTransition_def can_transition_def)
    moreover have "\<forall>y \<in> set (requests s). sq_id y \<noteq> i \<longrightarrow> ProviderBusy (sq_state y) \<longrightarrow> sq_provider y \<noteq> sq_provider r'"
      using free by (auto simp: exists_where_iff r')
    ultimately show ?thesis by (intro service_moves[OF inv r ri _ _ _ _ tabs(1) e _ tabs(2)]) blast+
  qed
  have "services_inv (snd (begin_func (accept_tx dnow user i offerID) s))"
    by (rule snd_begin_func_inv[of services_inv, OF inv step])
  then show ?thesis by (simp add: AcceptOffer_def split: prod.split sum.split)
qed

text \<open>A transition that leaves the offer of the row as it is.\<close>

lemma offers_ok_replace:
  assumes ok: "offers_ok R X" and r: "r \<in> set R" "sq_id r = i" and R': "set R' = insert r' {q \<in> set R. sq_id q \<noteq> i}"
    and only: "\<And>q. q \<in> set R \<Longrightarrow> sq_id q = i \<Longrightarrow> q = r"
    and same: "sq_id r' = i" "sq_offer r' = sq_offer r" "sq_provider r' = sq_provider r" "sq_price r' = sq_price r" "sq_commission r' = sq_commission r"
  shows "offers_ok R' X"
proof (rule offers_ok_rows[OF ok])
  fix q assume "q \<in> set R'"
  then have "q = r' \<or> q \<in> set R" using R' by auto
  then show "\<exists>p \<in> set R. sq_id q = sq_id p \<and> sq_offer q = sq_offer p \<and> sq_provider q = sq_provider p \<and> sq_price q = sq_price p \<and>
      sq_commission q = sq_commission p"
    using r same by metis
next
  fix q assume q: "q \<in> set R"
  show "\<exists>p \<in> set R'. sq_id p = sq_id q \<and> sq_offer p = sq_offer q"
  proof (cases "sq_id q = i")
    case True
    then show ?thesis using only[OF q] same R' by (intro bexI[of _ r']) auto
  next
    case False
    then show ?thesis using q R' by (intro bexI[of _ q]) auto
  qed
qed

lemma offers_ok_answer:
  assumes "offers_ok R X" "\<And>x. x \<in> set X \<Longrightarrow> P x \<Longrightarrow> so_state x \<noteq> Accepted" "st \<noteq> Accepted"
  shows "offers_ok R (answer_offers dnow st P X)"
  unfolding answer_offers_def using assms offers_okD(3)[OF assms(1)] by (intro offers_ok_update) simp_all

lemma services_Cancel_inv:
  assumes inv: "services_inv s"
  shows "services_inv (snd (Cancel dnow user i reason s))"
proof -
  have step: "services_inv s'" if tx: "cancel_tx dnow user i reason s = (Inr r', s')" for r' s'
  proof -
    have I: "offers_ok (requests s) (svc_offers s)" using inv by (simp add: services_inv_def)
    obtain r where r: "find (\<lambda>r. sq_id r = i \<and> sq_customer r = user) (requests s) = Some r" and c: "CustomerCanCancel (sq_state r)"
      using tx by (auto simp: cancel_tx_def split: option.splits if_splits)
    have ri: "sq_id r = i" using find_SomeD[OF r] by simp
    note row = find_row[OF inv r ri]
    have r': "r' = r\<lparr>sq_state := SCancelled, sq_cancelled_by := Some ''customer'', sq_reason := nullable (trim_clip reason 200),
         sq_cancelled_at := Some dnow, sq_updated := dnow\<rparr>"
      and tabs: "requests s' = upd_where (\<lambda>x. sq_id x = i) (\<lambda>_. r') (requests s)" "sv_categories s' = sv_categories s"
        "svc_offers s' = answer_offers dnow Withdrawn (\<lambda>y. so_request y = i \<and> so_state y = Offered) (svc_offers s)"
      and j: "\<exists>e. svc_journal s' = svc_journal s @ [e] \<and> jn_subject e = i \<and> jn_from e = Some (sq_state r) \<and> jn_to e = sq_state r'"
      using tx r c by (auto simp: cancel_tx_def Let_def)
    obtain e where e: "svc_journal s' = svc_journal s @ [e]" "jn_subject e = i" "jn_from e = Some (sq_state r)" "jn_to e = sq_state r'"
      using j by blast
    have "offers_ok (requests s') (svc_offers s)"
      by (rule offers_ok_replace[OF I row(1) ri replaced_rows(1)[OF inv r ri, of r', folded tabs(1)] row(4)])
         (simp_all add: r' ri)
    then have "offers_ok (requests s') (svc_offers s')" unfolding tabs(3) by (rule offers_ok_answer) simp_all
    moreover have "request_ok r'" "request_fixed r' = request_fixed r" "CanTransition (sq_state r) (sq_state r')" "\<not> ProviderBusy (sq_state r')"
      using c row(3) by (auto simp: r' request_row_defs CanTransition_def can_transition_def CustomerCanCancel_def)
    ultimately show ?thesis by (intro service_moves[OF inv r ri _ _ _ _ tabs(1) e _ tabs(2)]) blast+
  qed
  have "services_inv (snd (begin_func (cancel_tx dnow user i reason) s))"
    by (rule snd_begin_func_inv[of services_inv, OF inv step])
  then show ?thesis by (simp add: Cancel_def split: prod.split sum.split)
qed

text \<open>The provider who gives up: the accepted offer is declined and the request has none again.\<close>

lemma offers_ok_release:
  assumes ok: "offers_ok R X" and r: "r \<in> set R" "sq_id r = i" "sq_provider r = Some user" "sq_offer r \<noteq> None"
    and only: "\<And>q. q \<in> set R \<Longrightarrow> sq_id q = i \<Longrightarrow> q = r" and R': "set R' = insert r' {q \<in> set R. sq_id q \<noteq> i}"
    and r': "sq_id r' = i" "sq_offer r' = None"
  shows "offers_ok R' (answer_offers dnow Declined (\<lambda>y. so_request y = i \<and> so_provider y = user) X)" (is "offers_ok R' ?X")
proof -
  note D = offers_okD[OF ok]
  obtain x where x: "x \<in> set X" "sq_offer r = Some (so_id x)" "billed r x" using D(5)[OF r(1)] r(4) by blast
  have kept: "z \<in> set X \<and> so_request z \<noteq> i" if acc: "z \<in> set ?X" "so_state z = Accepted" for z
  proof -
    have "z \<in> set X \<and> \<not> (so_request z = i \<and> so_provider z = user)"
      using acc(1) unfolding in_answer
    proof (elim disjE bexE conjE)
      fix y assume "z = y\<lparr>so_state := Declined, so_responded := Some dnow\<rparr>"
      then show ?thesis using acc(2) by simp
    qed blast
    then have z: "z \<in> set X" "\<not> (so_request z = i \<and> so_provider z = user)" by blast+
    have "so_request z \<noteq> i"
    proof
      assume i: "so_request z = i"
      then obtain q where q: "q \<in> set R" "sq_id q = i" "sq_offer q = Some (so_id z)" using D(4)[OF z(1) acc(2)] by auto
      have "q = r" by (rule only[OF q(1,2)])
      then have "so_id z = so_id x" using q(3) x(2) by simp
      then have "z = x" by (rule distinct_keyD[OF D(1) z(1) x(1)])
      then show False using z(2) i x(3) r(3) by (simp add: billed_def)
    qed
    with z show ?thesis by simp
  qed
  show ?thesis unfolding offers_ok_def
  proof (intro conjI ballI allI impI)
    show "distinct (map so_id ?X)" "distinct (map (\<lambda>x. (so_request x, so_provider x)) ?X)" using D(1,2) by simp_all
  next
    fix z assume "z \<in> set ?X"
    from answer_base[OF this] obtain y where "y \<in> set X" "so_price z = so_price y" by blast
    then show "0 < so_price z" "so_price z \<le> 500000" using D(3)[of y] by simp_all
  next
    fix z assume z: "z \<in> set ?X" "so_state z = Accepted"
    note k = kept[OF this]
    then obtain q where "q \<in> set R" "sq_id q = so_request z" "sq_offer q = Some (so_id z)" using D(4) z(2) by blast
    then show "\<exists>q\<in>set R'. sq_id q = so_request z \<and> sq_offer q = Some (so_id z)" using k R' by auto
  next
    fix q j assume q: "q \<in> set R'" "sq_offer q = Some j"
    then have q': "q \<in> set R" "sq_id q \<noteq> i" using R' r' by auto
    obtain y where y: "y \<in> set X" "so_id y = j" "billed q y" using D(5)[OF q'(1) q(2)] by blast
    then have "y \<in> set ?X" using q'(2) unfolding in_answer by (auto simp: billed_def)
    with y show "\<exists>z\<in>set ?X. so_id z = j \<and> billed q z" by blast
  qed
qed

lemma step_tx_Inr:
  assumes "step_tx dnow user i to reason s = (Inr r', s')"
  obtains r r1 where "find (\<lambda>r. sq_id r = i \<and> sq_provider r = Some user) (requests s) = Some r" "CanTransition (sq_state r) to"
    "step_update dnow to r = Inr r1" "r' = r1\<lparr>sq_updated := dnow\<rparr>"
    "requests s' = upd_where (\<lambda>x. sq_id x = i) (\<lambda>_. r') (requests s)" "sv_categories s' = sv_categories s"
    "svc_offers s' = (if to = SOpen then answer_offers dnow Declined (\<lambda>y. so_request y = i \<and> so_provider y = user) (svc_offers s) else svc_offers s)"
    "\<exists>e. svc_journal s' = svc_journal s @ [e] \<and> jn_subject e = i \<and> jn_from e = Some (sq_state r) \<and> jn_to e = to"
proof -
  obtain r where r: "find (\<lambda>r. sq_id r = i \<and> sq_provider r = Some user) (requests s) = Some r"
    using assms by (cases "find (\<lambda>r. sq_id r = i \<and> sq_provider r = Some user) (requests s)") (simp_all add: step_tx_def)
  have c: "CanTransition (sq_state r) to" using assms r by (cases "CanTransition (sq_state r) to") (simp_all add: step_tx_def)
  obtain r1 where r1: "step_update dnow to r = Inr r1"
    using assms r c by (cases "step_update dnow to r") (simp_all add: step_tx_def)
  define s2 where "s2 = (let s1 = upd_request i (\<lambda>_. r1\<lparr>sq_updated := dnow\<rparr>) s in if to = SOpen
     then s1\<lparr>svc_offers := answer_offers dnow Declined (\<lambda>y. so_request y = i \<and> so_provider y = user) (svc_offers s1)\<rparr> else s1)"
  define s3 where "s3 = (if to = SCompleted
     then s2\<lparr>providers := upd_where (\<lambda>p. pv_user p = user) (\<lambda>p. p\<lparr>pv_jobs := pv_jobs p + 1\<rparr>) (providers s2)\<rparr> else s2)"
  have tabs: "requests s3 = upd_where (\<lambda>x. sq_id x = i) (\<lambda>_. r1\<lparr>sq_updated := dnow\<rparr>) (requests s)" "sv_categories s3 = sv_categories s"
    "svc_offers s3 = (if to = SOpen then answer_offers dnow Declined (\<lambda>y. so_request y = i \<and> so_provider y = user) (svc_offers s) else svc_offers s)"
    "svc_journal s3 = svc_journal s"
    by (simp_all add: s3_def s2_def Let_def)
  have res: "r' = r1\<lparr>sq_updated := dnow\<rparr>" "s' = s_emit dnow ''service_request'' i (step_event to)
         [(''request_id'', JStr i), (''code'', JStr (sq_code r')), (''customer_id'', JStr (sq_customer r')),
          (''provider_id'', JStr user), (''reason'', JStr reason)]
         (requestEvent dnow i (Some (sq_state r)) to ''provider'' (Some user) [(''reason'', JStr reason)] s3)"
    using assms r c r1 unfolding step_tx_def s3_def s2_def Let_def by auto
  show ?thesis
    by (rule that[OF r c r1 res(1)]) (simp_all add: res tabs)
qed

lemma step_tx_inv:
  assumes inv: "services_inv s" and tx: "step_tx dnow user i to reason s = (Inr r', s')"
  shows "services_inv s'"
proof -
  have I: "offers_ok (requests s) (svc_offers s)" using inv by (simp add: services_inv_def)
  obtain r r1 where r: "find (\<lambda>r. sq_id r = i \<and> sq_provider r = Some user) (requests s) = Some r"
    and c: "CanTransition (sq_state r) to" and r1: "step_update dnow to r = Inr r1" and r': "r' = r1\<lparr>sq_updated := dnow\<rparr>"
    and tabs: "requests s' = upd_where (\<lambda>x. sq_id x = i) (\<lambda>_. r') (requests s)" "sv_categories s' = sv_categories s"
      "svc_offers s' = (if to = SOpen then answer_offers dnow Declined (\<lambda>y. so_request y = i \<and> so_provider y = user) (svc_offers s) else svc_offers s)"
    and j: "\<exists>e. svc_journal s' = svc_journal s @ [e] \<and> jn_subject e = i \<and> jn_from e = Some (sq_state r) \<and> jn_to e = to"
    by (rule step_tx_Inr[OF tx])
  have ri: "sq_id r = i" and pr: "sq_provider r = Some user" using find_SomeD[OF r] by auto
  note row = find_row[OF inv r ri]
  note R' = replaced_rows(1)[OF inv r ri, of r', folded tabs(1)]
  have st: "sq_state r' = to" "sq_id r' = i" "request_fixed r' = request_fixed r"
    using r1 ri by (auto simp: step_update_def r' request_fixed_def split: svc_state.splits)
  have has: "sq_offer r \<noteq> None" using pr row(3) by (auto simp: request_ok_def)
  have "(to = SInProgress \<and> sq_state r = SBooked) \<or> (to = SCompleted \<and> sq_state r = SInProgress) \<or> (to = SOpen \<and> sq_state r = SBooked)"
    using c r1 by (cases "sq_state r"; cases to) (simp_all add: CanTransition_def can_transition_def step_update_def)
  then have ok: "request_ok r' \<and> (ProviderBusy to \<longrightarrow> ProviderBusy (sq_state r) \<and> sq_provider r' = sq_provider r)"
  proof (elim disjE conjE)
    assume "to = SInProgress" "sq_state r = SBooked"
    then show ?thesis using r1 row(3) unfolding r' by (simp add: step_update_def request_ok_def ProviderBusy_def) auto
  next
    assume "to = SCompleted" "sq_state r = SInProgress"
    then show ?thesis using r1 row(3) unfolding r' by (simp add: step_update_def request_ok_def ProviderBusy_def) auto
  next
    assume "to = SOpen" "sq_state r = SBooked"
    then show ?thesis using r1 row(3) unfolding r' by (simp add: step_update_def request_ok_def ProviderBusy_def) auto
  qed
  have off: "offers_ok (requests s') (svc_offers s')"
  proof (cases "to = SOpen")
    case True
    then have "sq_offer r' = None" using r1 by (auto simp: step_update_def r')
    then show ?thesis unfolding tabs(3) using True offers_ok_release[OF I row(1) ri pr has row(4) R' st(2)] by simp
  next
    case False
    then have "offers_ok (requests s') (svc_offers s)"
      using r1 by (intro offers_ok_replace[OF I row(1) ri R' row(4) st(2)]) (auto simp: step_update_def r' split: svc_state.splits)
    then show ?thesis unfolding tabs(3) using False by simp
  qed
  obtain e where e: "svc_journal s' = svc_journal s @ [e]" "jn_subject e = i" "jn_from e = Some (sq_state r)" "jn_to e = sq_state r'"
    using j[folded st(1)] by (elim exE conjE)
  show ?thesis
  proof (rule service_moves[OF inv r ri _ st(3) _ _ tabs(1) e off tabs(2)])
    show "CanTransition (sq_state r) (sq_state r')" using c st(1) by simp
    show "request_ok r'" using ok by (rule conjunct1)
    show "ProviderBusy (sq_state r') \<longrightarrow> ProviderBusy (sq_state r) \<and> sq_provider r' = sq_provider r \<or>
       (\<forall>x \<in> set (requests s). sq_id x \<noteq> i \<longrightarrow> ProviderBusy (sq_state x) \<longrightarrow> sq_provider x \<noteq> sq_provider r')"
      unfolding st(1) using ok by (intro impI disjI1) (rule mp[OF conjunct2])
  qed
qed

text \<open>Settling changes the payment of one completed row.\<close>

definition completed_row :: "request \<Rightarrow> services_db \<Rightarrow> bool" where
  "completed_row r s \<longleftrightarrow> (\<forall>x \<in> set (requests s). sq_id x = sq_id r \<longrightarrow> sq_state x = SCompleted \<and> sq_method x = sq_method r)"

lemma set_payment_requests:
  "requests (snd (setPaymentStatus dnow r st s)) =
     upd_where (\<lambda>x. sq_id x = sq_id r \<and> sq_pay x = PayPending) (\<lambda>x. x\<lparr>sq_pay := st, sq_updated := dnow\<rparr>) (requests s)"
  "svc_journal (snd (setPaymentStatus dnow r st s)) = svc_journal s" "svc_offers (snd (setPaymentStatus dnow r st s)) = svc_offers s"
  "sv_categories (snd (setPaymentStatus dnow r st s)) = sv_categories s" "fst (setPaymentStatus dnow r st s) = Inr ()"
  by (simp_all add: setPaymentStatus_def begin_func_def)

lemma set_payment_inv:
  assumes inv: "services_inv s" and del: "completed_row r s"
    and st: "(st = PayPaid \<and> sq_method r = Wallet) \<or> (st = PayCash \<and> sq_method r \<noteq> Wallet) \<or> st = PayFailed"
  shows "services_inv (snd (setPaymentStatus dnow r st s))" "completed_row r' s \<Longrightarrow> completed_row r' (snd (setPaymentStatus dnow r st s))"
proof -
  define f :: "request \<Rightarrow> request" where "f = (\<lambda>x. if sq_id x = sq_id r \<and> sq_pay x = PayPending then x\<lparr>sq_pay := st, sq_updated := dnow\<rparr> else x)"
  have U: "request_fixed (f x) = request_fixed x" "request_final (f x) = request_final x" "sq_state (f x) = sq_state x"
    "sq_provider (f x) = sq_provider x" "sq_id (f x) = sq_id x" "sq_offer (f x) = sq_offer x" "sq_price (f x) = sq_price x"
    "sq_commission (f x) = sq_commission x" "sq_method (f x) = sq_method x" for x
    by (simp_all add: f_def request_fixed_def request_final_def)
  have I: "sm.inv (stab s)" "offers_ok (requests s) (svc_offers s)" "rates_ok (sv_categories s)" using inv by (simp_all add: services_inv_def)
  have R: "requests (snd (setPaymentStatus dnow r st s)) = map f (requests s)" by (simp add: set_payment_requests upd_where_def f_def)
  have ok: "request_ok (f x)" if x: "x \<in> set (requests s)" for x
  proof -
    have "request_ok x" by (rule sm.inv_D(3)[OF I(1) x])
    moreover have "sq_id x = sq_id r \<Longrightarrow> sq_state x = SCompleted \<and> sq_method x = sq_method r" using del x by (simp add: completed_row_def)
    ultimately show ?thesis using st by (auto simp: request_ok_def f_def)
  qed
  have "sm.inv (map f (requests s), svc_journal s)"
  proof (rule sm.inv_adjust[OF I(1)], rule ballI)
    fix x assume "x \<in> set (requests s)"
    then show "request_fixed (f x) = request_fixed x \<and> request_final (f x) = request_final x \<and> sq_state (f x) = sq_state x \<and>
        sq_provider (f x) = sq_provider x \<and> request_ok (f x)"
      by (intro conjI U(1-4) ok)
  qed
  moreover have "offers_ok (map f (requests s)) (svc_offers s)"
    by (rule offers_ok_rows[OF I(2)]) (auto simp: U)
  ultimately show "services_inv (snd (setPaymentStatus dnow r st s))"
    using I(3) unfolding services_inv_def R set_payment_requests(2-4) by simp
  show "completed_row r' s \<Longrightarrow> completed_row r' (snd (setPaymentStatus dnow r st s))"
    unfolding completed_row_def R by (auto simp: U)
qed

lemma service_plan_status:
  "settle_plan r p price c = Pay st txo \<Longrightarrow> (st = PayPaid \<and> sq_method r = Wallet) \<or> (st = PayCash \<and> sq_method r \<noteq> Wallet)"
  by (auto simp: settle_plan_def split: if_splits sum.splits)

lemma service_settle_cases:
  obtains (kept) s1 where "snd (settle dnow txi r s) = s1" "stab s1 = stab s" "svc_offers s1 = svc_offers s" "sv_categories s1 = sv_categories s"
  | (set) st s1 where "stab s1 = stab s" "svc_offers s1 = svc_offers s" "sv_categories s1 = sv_categories s"
      "snd (settle dnow txi r s) = snd (setPaymentStatus dnow r st s1)"
      "(st = PayPaid \<and> sq_method r = Wallet) \<or> (st = PayCash \<and> sq_method r \<noteq> Wallet) \<or> st = PayFailed"
proof (cases "\<exists>p price. sq_provider r = Some p \<and> sq_price r = Some price \<and> sq_state r = SCompleted \<and> sq_pay r = PayPending")
  case False
  then have "snd (settle dnow txi r s) = s" by (auto simp: settle_def split: option.split)
  then show ?thesis by (rule kept) simp_all
next
  case True
  then obtain p price where p: "sq_provider r = Some p" "sq_price r = Some price" "sq_state r = SCompleted" "sq_pay r = PayPending" by blast
  define s1 where "s1 = s\<lparr>sv_core := EnsureAccount (providerWallet p) ''driver'' (Some p) ''liability'' (sq_currency r) (sv_core s)\<rparr>"
  have t: "stab s1 = stab s" "svc_offers s1 = svc_offers s" "sv_categories s1 = sv_categories s" by (simp_all add: s1_def)
  have e: "settle dnow txi r s = (case settle_plan r p price (sv_core s1) of
                  Reject e \<Rightarrow> (Inl e, s1)
                | Fail_payment \<Rightarrow> setPaymentStatus dnow r PayFailed s1
                | Pay st None \<Rightarrow> setPaymentStatus dnow r st s1
                | Pay st (Some tx) \<Rightarrow>
                    (case Post dnow txi tx (sv_core s1) of
                       (Inl e, c) \<Rightarrow> (Inl e, s1\<lparr>sv_core := c\<rparr>)
                     | (Inr _, c) \<Rightarrow> setPaymentStatus dnow r st (s1\<lparr>sv_core := c\<rparr>)))"
    unfolding s1_def using p by (simp add: settle_def Let_def)
  show ?thesis
  proof (cases "settle_plan r p price (sv_core s1)")
    case (Reject e')
    then show ?thesis using e t by (intro kept[of s1]) simp_all
  next
    case Fail_payment
    then show ?thesis using e t by (intro set[of s1 PayFailed]) simp_all
  next
    case (Pay st txo)
    note P = service_plan_status[OF Pay]
    show ?thesis
    proof (cases txo)
      case None
      then show ?thesis using e t Pay P by (intro set[of s1 st]) auto
    next
      case (Some tx)
      obtain res c where pc: "Post dnow txi tx (sv_core s1) = (res, c)" by (cases "Post dnow txi tx (sv_core s1)")
      show ?thesis
      proof (cases res)
        case (Inl e')
        then show ?thesis using e t Pay Some pc by (intro kept[of "s1\<lparr>sv_core := c\<rparr>"]) simp_all
      next
        case (Inr u)
        then show ?thesis using e t Pay P Some pc by (intro set[of "s1\<lparr>sv_core := c\<rparr>" st]) auto
      qed
    qed
  qed
qed

lemma completed_row_frame: "requests s' = requests s \<Longrightarrow> completed_row r s' = completed_row r s"
  by (simp add: completed_row_def)

lemma settle_services_inv:
  assumes inv: "services_inv s" and del: "completed_row r s"
  shows "services_inv (snd (settle dnow txi r s))" "completed_row r' s \<Longrightarrow> completed_row r' (snd (settle dnow txi r s))"
proof -
  have "services_inv (snd (settle dnow txi r s)) \<and> (completed_row r' s \<longrightarrow> completed_row r' (snd (settle dnow txi r s)))"
  proof (cases rule: service_settle_cases[of dnow txi r s])
    case (kept s1)
    then have "services_inv s1" by (intro services_inv_same[OF inv]) simp_all
    then show ?thesis using kept completed_row_frame[of s1 s r'] by simp
  next
    case (set st s1)
    have "services_inv s1" by (rule services_inv_same[OF inv]) (use set(1-3) in simp_all)
    moreover have "completed_row r s1" using del completed_row_frame[of s1 s r] set(1) by simp
    ultimately have S: "services_inv (snd (setPaymentStatus dnow r st s1))"
      "completed_row r' s1 \<Longrightarrow> completed_row r' (snd (setPaymentStatus dnow r st s1))"
      using set_payment_inv set(5) by blast+
    show ?thesis unfolding set(4) using S completed_row_frame[of s1 s r'] set(1) by simp
  qed
  then show "services_inv (snd (settle dnow txi r s))" "completed_row r' s \<Longrightarrow> completed_row r' (snd (settle dnow txi r s))" by blast+
qed

lemma service_settle_loop_inv:
  "services_inv s \<Longrightarrow> (\<And>r. r \<in> set rs \<Longrightarrow> completed_row r s) \<Longrightarrow> services_inv (snd (settle_loop dnow txs rs n s))"
proof (induction rs arbitrary: n s)
  case (Cons r rs)
  note S = settle_services_inv[where dnow = dnow and txi = "txs n", OF Cons.prems(1) Cons.prems(2)[of r]]
  obtain res s1 where s1: "settle dnow (txs n) r s = (res, s1)" by (cases "settle dnow (txs n) r s")
  then have "services_inv s1" "\<And>q. q \<in> set rs \<Longrightarrow> completed_row q s1" using S Cons.prems(2) by simp_all
  then show ?case using Cons.IH[of s1 "n + 1"] by (cases res) (simp_all add: s1)
qed simp

lemma services_SettlePending_inv:
  assumes inv: "services_inv s"
  shows "services_inv (snd (SettlePending dnow txs s))"
  unfolding SettlePending_def
proof (rule service_settle_loop_inv[OF inv])
  fix r assume "r \<in> set (pending_requests dnow s)"
  then have r: "r \<in> set (requests s)" "sq_state r = SCompleted" by (auto simp: pending_requests_def dest!: in_set_takeD)
  have I: "sm.inv (stab s)" using inv by (simp add: services_inv_def)
  show "completed_row r s"
    unfolding completed_row_def using sm.same_row[OF I _ r(1)] r(2) by blast
qed

lemma services_Step_inv:
  assumes inv: "services_inv s"
  shows "services_inv (snd (Step dnow txi user i to reason s))"
proof (cases "step_tx dnow user i to reason" s rule: begin_func_cases)
  case (rollback e)
  then show ?thesis using inv by (simp add: Step_def)
next
  case (commit r' s1)
  have s1: "services_inv s1" by (rule step_tx_inv[OF inv commit(1)])
  show ?thesis
  proof (cases "to = SCompleted")
    case False
    then show ?thesis using commit s1 by (simp add: Step_def)
  next
    case True
    obtain r r1 where r: "find (\<lambda>r. sq_id r = i \<and> sq_provider r = Some user) (requests s) = Some r"
      and r1: "step_update dnow to r = Inr r1" "r' = r1\<lparr>sq_updated := dnow\<rparr>"
      and t: "requests s1 = upd_where (\<lambda>x. sq_id x = i) (\<lambda>_. r') (requests s)"
      by (rule step_tx_Inr[OF commit(1)])
    have ri: "sq_id r = i" using find_SomeD[OF r] by simp
    have "sq_state r' = SCompleted" "sq_id r' = i" using r1 True ri by (auto simp: step_update_def)
    then have "completed_row r' s1"
      unfolding completed_row_def t replaced_rows(1)[OF inv r ri, of r'] by auto
    note S = settle_services_inv(1)[OF s1 this, of dnow txi]
    have "snd (Step dnow txi user i to reason s) = snd (settle dnow txi r' s1)"
      using commit True by (simp add: Step_def Let_def split: option.split)
    then show ?thesis using S by simp
  qed
qed

lemma services_MakeOffer_inv:
  assumes inv: "services_inv s"
  shows "services_inv (snd (MakeOffer dnow i user req inp s))"
proof -
  have I: "sm.inv (stab s)" "offers_ok (requests s) (svc_offers s)" "rates_ok (sv_categories s)" using inv by (simp_all add: services_inv_def)
  note D = offers_okD[OF I(2)]
  have up: "services_inv (snd (upsert_offer dnow i req user inp s))" if price: "0 < oiPrice inp" "oiPrice inp \<le> 500000"
  proof (cases "find (\<lambda>x. so_request x = req \<and> so_provider x = user) (svc_offers s)")
    case None
    define x where "x = \<lparr>so_id = i, so_request = req, so_provider = user, so_price = oiPrice inp, so_currency = ''EUR'',
                        so_note = nullable (trim_clip (oiNote inp) 300), so_can_start = oiCanStart inp, so_state = Offered,
                        so_created = dnow, so_responded = None\<rparr>"
    show ?thesis
    proof (cases "exists_where (\<lambda>x. so_id x = i) (svc_offers s)")
      case True
      then show ?thesis using None inv by (simp add: upsert_offer_def)
    next
      case False
      have new: "so_id x \<notin> so_id ` set (svc_offers s)" "(so_request x, so_provider x) \<notin> (\<lambda>x. (so_request x, so_provider x)) ` set (svc_offers s)"
        using False None by (auto simp: exists_where_iff find_None_iff x_def)
      have x: "so_state x = Offered" "so_price x = oiPrice inp" by (simp_all add: x_def)
      have "offers_ok (requests s) (svc_offers s @ [x])"
        unfolding offers_ok_def
      proof (intro conjI ballI allI impI)
        show "distinct (map so_id (svc_offers s @ [x]))" using D(1) new(1) by simp
        show "distinct (map (\<lambda>x. (so_request x, so_provider x)) (svc_offers s @ [x]))" using D(2) new(2) by simp
      next
        fix y assume "y \<in> set (svc_offers s @ [x])"
        then show "0 < so_price y" "so_price y \<le> 500000" using D(3) price x(2) by auto
      next
        fix y assume "y \<in> set (svc_offers s @ [x])" "so_state y = Accepted"
        then show "\<exists>r\<in>set (requests s). sq_id r = so_request y \<and> sq_offer r = Some (so_id y)" using D(4) x(1) by auto
      next
        fix r j assume "r \<in> set (requests s)" "sq_offer r = Some j"
        from D(5)[OF this] show "\<exists>y\<in>set (svc_offers s @ [x]). so_id y = j \<and> billed r y" by auto
      qed
      moreover have "snd (upsert_offer dnow i req user inp s) = s\<lparr>svc_offers := svc_offers s @ [x]\<rparr>"
        using None False by (simp add: upsert_offer_def x_def Let_def)
      ultimately show ?thesis using I by (simp add: services_inv_def)
    qed
  next
    case (Some y)
    have y: "y \<in> set (svc_offers s)" "so_request y = req" "so_provider y = user" using find_SomeD[OF Some] by auto
    show ?thesis
    proof (cases "so_state y \<noteq> Offered \<and> so_state y \<noteq> Declined")
      case True
      then show ?thesis using Some inv by (simp add: upsert_offer_def)
    next
      case False
      define f :: "svc_offer \<Rightarrow> svc_offer" where "f = (\<lambda>z. z\<lparr>so_price := oiPrice inp, so_note := nullable (trim_clip (oiNote inp) 300),
          so_can_start := oiCanStart inp, so_state := Offered, so_responded := None\<rparr>)"
      have only: "z = y" if "z \<in> set (svc_offers s)" "so_request z = req \<and> so_provider z = user" for z
        using distinct_keyD[OF D(2) that(1) y(1)] that(2) y(2,3) by simp
      have e: "upd_where (\<lambda>z. so_request z = req \<and> so_provider z = user) (\<lambda>_. f y) (svc_offers s) =
               upd_where (\<lambda>z. so_request z = req \<and> so_provider z = user) f (svc_offers s)"
        unfolding upd_where_def by (rule map_cong[OF refl]) (use only in auto)
      have "offers_ok (requests s) (upd_where (\<lambda>z. so_request z = req \<and> so_provider z = user) f (svc_offers s))"
      proof (rule offers_ok_update[OF I(2)])
        show "so_id (f x) = so_id x \<and> so_request (f x) = so_request x \<and> so_provider (f x) = so_provider x" for x by (simp add: f_def)
        show "so_state x \<noteq> Accepted \<and> so_state (f x) \<noteq> Accepted \<and> 0 < so_price (f x) \<and> so_price (f x) \<le> 500000"
          if "x \<in> set (svc_offers s)" "so_request x = req \<and> so_provider x = user" for x
          using only[OF that] False price by (auto simp: f_def)
      qed
      moreover have "snd (upsert_offer dnow i req user inp s) =
          s\<lparr>svc_offers := upd_where (\<lambda>z. so_request z = req \<and> so_provider z = user) (\<lambda>_. f y) (svc_offers s)\<rparr>"
        using Some False by (auto simp: upsert_offer_def f_def Let_def)
      ultimately show ?thesis using I e by (simp add: services_inv_def)
    qed
  qed
  show ?thesis
  proof (cases "oiPrice inp \<le> 0 \<or> oiPrice inp > 500000")
    case True
    then show ?thesis using inv by (simp add: MakeOffer_def)
  next
    case False
    obtain res s1 where u: "upsert_offer dnow i req user inp s = (res, s1)" by (cases "upsert_offer dnow i req user inp s")
    then have "services_inv s1" using up False by simp
    then have "services_inv (s_emit dnow k j ev b s1)" for k j ev b by (rule services_inv_same) simp_all
    then show ?thesis using False inv u \<open>services_inv s1\<close> by (auto simp: MakeOffer_def split: option.split sum.split)
  qed
qed

lemma services_WithdrawOffer_inv:
  assumes "services_inv s"
  shows "services_inv (snd (WithdrawOffer dnow user offerID s))"
proof -
  have "offers_ok (requests s) (answer_offers dnow Withdrawn (\<lambda>x. so_id x = offerID \<and> so_provider x = user \<and> so_state x = Offered) (svc_offers s))"
    using assms by (intro offers_ok_answer) (simp_all add: services_inv_def)
  then show ?thesis using assms by (simp add: WithdrawOffer_def Let_def services_inv_def)
qed

lemma services_Apply_inv: "services_inv s \<Longrightarrow> services_inv (snd (Apply dnow user inp s))"
  unfolding Apply_def Let_def by (auto split: option.split elim: services_inv_same)

lemma services_SetProviderStatus_inv: "services_inv s \<Longrightarrow> services_inv (snd (SetProviderStatus dnow user i status reason s))"
  by (auto simp: SetProviderStatus_def Let_def split: option.split elim: services_inv_same)

section \<open>Runs\<close>

text \<open>
  The last rule is everything else in the program: it may do anything to the rest of the state, categories
  included as long as their commission stays a share.
\<close>

inductive services_step :: "services_db \<Rightarrow> services_db \<Rightarrow> bool" where
  create: "services_step s (snd (Create dnow i b user idem cinp s))"
| accept: "services_step s (snd (AcceptOffer dnow user i offerID s))"
| cancel: "services_step s (snd (Cancel dnow user i reason s))"
| offer: "services_step s (snd (MakeOffer dnow i user req oinp s))"
| withdraw: "services_step s (snd (WithdrawOffer dnow user offerID s))"
| advance: "services_step s (snd (Step dnow txi user i to reason s))"
| settle_pending: "services_step s (snd (SettlePending dnow txs s))"
| application: "services_step s (snd (Apply dnow user ainp s))"
| set_status: "services_step s (snd (SetProviderStatus dnow user i status reason s))"
| elsewhere: "requests s' = requests s \<Longrightarrow> svc_journal s' = svc_journal s \<Longrightarrow> svc_offers s' = svc_offers s \<Longrightarrow>
    rates_ok (sv_categories s') \<Longrightarrow> services_step s s'"

definition fresh_services :: "services_db \<Rightarrow> bool" where
  "fresh_services s \<longleftrightarrow> requests s = [] \<and> svc_journal s = [] \<and> svc_offers s = [] \<and> rates_ok (sv_categories s)"

lemma services_step_inv: "services_step s s' \<Longrightarrow> services_inv s \<Longrightarrow> services_inv s'"
proof (induction rule: services_step.induct)
  case (elsewhere s' s)
  then show ?case by (simp add: services_inv_def)
qed (intro services_Create_inv services_AcceptOffer_inv services_Cancel_inv services_MakeOffer_inv services_WithdrawOffer_inv
  services_Step_inv services_SettlePending_inv services_Apply_inv services_SetProviderStatus_inv, assumption)+

lemma services_reachable:
  assumes "fresh_services s0" "services_step\<^sup>*\<^sup>* s0 s"
  shows "services_inv s"
  using assms(2)
proof induction
  case base
  then show ?case using assms(1) by (simp add: fresh_services_def services_inv_def offers_ok_def)
qed (rule services_step_inv)

end
