(* ===== verification/ServiceMoney.thy ===== *)
theory ServiceMoney
  imports ServiceSafety
begin

text \<open>
  What the invariant of home services promises, and who gets the money when a job is done.
\<close>

section \<open>The protocol\<close>

text \<open>
  C24. Whatever customers, providers, operations and the settlement worker do, in any order and with any
  arguments: a customer has one request per idempotency key; a provider works on at most one job at a
  time; the journal of a request starts with its creation, follows the transition table and ends in its
  present state; a request has a provider, an offer and a price together or none of them, always while it
  is booked, in progress or completed, never while it is open; the payment begins when the job is
  completed, only wallet jobs are ever paid and only others settled as cash. Requests and offers agree: the
  request with an offer refers to an accepted offer of its own and bears its provider and its price, with a
  commission between nothing and the price, and every accepted offer is the one of its request. No request
  is ever in the state \<open>no_offers\<close>.
\<close>
theorem services_protocol:
  assumes "fresh_services s0" "services_step\<^sup>*\<^sup>* s0 s"
  shows "(\<forall>x \<in> set (requests s). \<forall>y \<in> set (requests s). sq_customer x = sq_customer y \<and> sq_idem x = sq_idem y \<longrightarrow> x = y) \<and>
    (\<forall>x \<in> set (requests s). \<forall>y \<in> set (requests s).
        ProviderBusy (sq_state x) \<and> ProviderBusy (sq_state y) \<and> sq_provider x = sq_provider y \<longrightarrow> x = y) \<and>
    (\<forall>r \<in> set (requests s). lawful transitions SOpen (history (sq_id r) (svc_journal s)) (sq_state r) \<and>
        sq_state r \<noteq> SNoOffers \<and> (sq_offer r = None \<longleftrightarrow> sq_provider r = None) \<and> (sq_offer r = None \<longleftrightarrow> sq_price r = None) \<and>
        (ProviderBusy (sq_state r) \<or> sq_state r = SCompleted \<longrightarrow> sq_offer r \<noteq> None) \<and> (sq_state r = SOpen \<longrightarrow> sq_offer r = None) \<and>
        (sq_pay r = PayNone \<longleftrightarrow> sq_state r \<noteq> SCompleted) \<and>
        (sq_pay r = PayPaid \<longrightarrow> sq_method r = Wallet) \<and> (sq_pay r = PayCash \<longrightarrow> sq_method r \<noteq> Wallet)) \<and>
    (\<forall>r \<in> set (requests s). \<forall>i. sq_offer r = Some i \<longrightarrow> (\<exists>x \<in> set (svc_offers s). so_id x = i \<and> so_request x = sq_id r \<and>
        so_state x = Accepted \<and> sq_provider r = Some (so_provider x) \<and> sq_price r = Some (so_price x) \<and> 0 < so_price x \<and>
        0 \<le> sq_commission r \<and> sq_commission r \<le> so_price x)) \<and>
    (\<forall>x \<in> set (svc_offers s). so_state x = Accepted \<longrightarrow>
        (\<exists>r \<in> set (requests s). sq_id r = so_request x \<and> sq_offer r = Some (so_id x)))"
proof -
  have I: "sm.inv (stab s)" "offers_ok (requests s) (svc_offers s)"
    using services_reachable[OF assms] by (simp_all add: services_inv_def)
  note D = sm.inv_D[OF I(1)] and X = offers_okD[OF I(2)]
  have "x = y" if "x \<in> set (requests s)" "y \<in> set (requests s)" "sq_customer x = sq_customer y" "sq_idem x = sq_idem y" for x y
    using distinct_keyD[OF D(2) that(1,2)] that(3,4) by simp
  moreover have "x = y" if "x \<in> set (requests s)" "y \<in> set (requests s)" "ProviderBusy (sq_state x)" "ProviderBusy (sq_state y)"
      "sq_provider x = sq_provider y" for x y
    using sm.one_busy[OF I(1) that] sm.busy_bound[OF D(3)[OF that(1)] that(3)] by blast
  moreover have "\<exists>x \<in> set (svc_offers s). so_id x = i \<and> so_request x = sq_id r \<and>
        so_state x = Accepted \<and> sq_provider r = Some (so_provider x) \<and> sq_price r = Some (so_price x) \<and> 0 < so_price x \<and>
        0 \<le> sq_commission r \<and> sq_commission r \<le> so_price x" if "r \<in> set (requests s)" "sq_offer r = Some i" for r i
    using X(5)[OF that] X(3) unfolding billed_def by blast
  ultimately show ?thesis using D(3,5) X(4) unfolding request_ok_def by blast
qed

section \<open>The settlement\<close>

definition service_key :: "request \<Rightarrow> string" where "service_key r = ''service:'' @ sq_id r @ '':fee''"

definition service_account :: "request \<Rightarrow> uuid \<Rightarrow> core \<Rightarrow> core" where
  "service_account r p c = EnsureAccount (providerWallet p) ''driver'' (Some p) ''liability'' (sq_currency r) c"

lemma service_account_simps [simp]:
  "bal c (service_account r p s) = bal c s" "posted k (service_account r p s) = posted k s"
  by (simp_all add: service_account_def)

lemma service_plan_key: "settle_plan r p price c = Pay st (Some tx) \<Longrightarrow> IdempotencyKey tx = service_key r"
  by (auto simp: settle_plan_def service_tx_def service_key_def split: sum.splits if_splits)

text \<open>The interface of settlements for a request with its provider and price.\<close>

interpretation sv: settlement "\<lambda>x. service_account (fst x) (fst (snd x))" "\<lambda>x. settle_plan (fst x) (fst (snd x)) (snd (snd x))"
  "\<lambda>x. service_key (fst x)"
  by unfold_locales (simp_all add: service_account_def EnsureAccount_inv service_plan_key)

text \<open>Who gains what: the effect of a settlement on the balance of an account.\<close>

definition service_effect :: "request \<Rightarrow> uuid \<Rightarrow> int \<Rightarrow> string \<Rightarrow> int" where
  "service_effect r p price c =
     (if sq_method r = Wallet \<and> c = UserWalletCode (sq_customer r) then - price else 0) +
     (if c = providerWallet p then (if sq_method r = Wallet then price - sq_commission r else - sq_commission r) else 0) +
     (if c = ''krejt:commission'' then sq_commission r else 0)"

lemma service_postings_net:
  assumes "0 \<le> sq_commission r" "sq_commission r \<le> price" "price \<le> 500000"
  shows "sq_method r = Wallet \<Longrightarrow> net c (wallet_postings r p price) = service_effect r p price c"
    "sq_method r \<noteq> Wallet \<Longrightarrow> net c (cash_postings r p) = service_effect r p price c"
proof -
  have w: "sub64 price (sq_commission r) = price - sq_commission r" using assms by (auto intro!: sub64_id simp: in64_def)
  show "sq_method r = Wallet \<Longrightarrow> net c (wallet_postings r p price) = service_effect r p price c"
    using assms by (simp add: wallet_postings_def service_effect_def w net_append net_parts net_Nil)
  show "sq_method r \<noteq> Wallet \<Longrightarrow> net c (cash_postings r p) = service_effect r p price c"
    by (simp add: cash_postings_def service_effect_def net_parts net_Nil)
qed

text \<open>Everything a settlement can do to a completed job whose payment is pending.\<close>

definition settle_outcome :: "time \<Rightarrow> request \<Rightarrow> uuid \<Rightarrow> int \<Rightarrow> services_db \<Rightarrow> services_db \<Rightarrow> bool" where
  "settle_outcome dnow r p price s s' \<longleftrightarrow>
     (requests s' = requests s \<and> (\<forall>c. bal c (sv_core s') = bal c (sv_core s))) \<or>
     (\<exists>st. requests s' = upd_where (\<lambda>x. sq_id x = sq_id r \<and> sq_pay x = PayPending)
             (\<lambda>x. x\<lparr>sq_pay := st, sq_updated := dnow\<rparr>) (requests s) \<and>
        (st = PayFailed \<and> (\<forall>c. bal c (sv_core s') = bal c (sv_core s)) \<or>
         st = (if sq_method r = Wallet then PayPaid else PayCash) \<and>
           (\<forall>c. bal c (sv_core s') = bal c (sv_core s) + service_effect r p price c) \<and>
           (sq_method r = Wallet \<or> sq_commission r > 0 \<longrightarrow> posted (service_key r) (sv_core s'))))"

lemma set_payment_core: "\<exists>ob. sv_core (snd (setPaymentStatus dnow r st s)) = (sv_core s)\<lparr>outbox := ob\<rparr>"
  by (auto simp: setPaymentStatus_def begin_func_def s_emit_def)

lemma set_payment_bal [simp]:
  "bal c (sv_core (snd (setPaymentStatus dnow r st s))) = bal c (sv_core s)"
  "posted k (sv_core (snd (setPaymentStatus dnow r st s))) = posted k (sv_core s)"
  "ledger_inv (sv_core (snd (setPaymentStatus dnow r st s))) = ledger_inv (sv_core s)"
  using set_payment_core[of dnow r st s] by auto

lemma service_settle_core:
  assumes "sq_state r = SCompleted" "sq_pay r = PayPending" "sq_provider r = Some p" "sq_price r = Some price"
  shows "\<exists>ob. sv_core (snd (settle dnow txi r s)) = (sv.settle_core dnow txi (r, p, price) (sv_core s))\<lparr>outbox := ob\<rparr>"
proof -
  define s1 where "s1 = s\<lparr>sv_core := service_account r p (sv_core s)\<rparr>"
  have c1: "sv_core s1 = service_account r p (sv_core s)" by (simp add: s1_def)
  have same: "\<exists>ob. c = c\<lparr>outbox := ob\<rparr>" for c :: core by (rule exI[of _ "outbox c"]) simp
  have e: "settle dnow txi r s = (case settle_plan r p price (sv_core s1) of
                  Reject e \<Rightarrow> (Inl e, s1)
                | Fail_payment \<Rightarrow> setPaymentStatus dnow r PayFailed s1
                | Pay st None \<Rightarrow> setPaymentStatus dnow r st s1
                | Pay st (Some tx) \<Rightarrow>
                    (case Post dnow txi tx (sv_core s1) of
                       (Inl e, c) \<Rightarrow> (Inl e, s1\<lparr>sv_core := c\<rparr>)
                     | (Inr _, c) \<Rightarrow> setPaymentStatus dnow r st (s1\<lparr>sv_core := c\<rparr>)))"
    unfolding s1_def service_account_def using assms by (simp add: settle_def Let_def)
  show ?thesis
  proof (cases "settle_plan r p price (sv_core s1)")
    case (Reject e')
    then show ?thesis using e c1 same by (simp add: sv.settle_core_def)
  next
    case Fail_payment
    then show ?thesis using e c1 set_payment_core[of dnow r PayFailed s1] by (simp add: sv.settle_core_def)
  next
    case (Pay st txo)
    show ?thesis
    proof (cases txo)
      case None
      then show ?thesis using e c1 Pay set_payment_core[of dnow r st s1] by (simp add: sv.settle_core_def)
    next
      case (Some tx)
      obtain res c where pc: "Post dnow txi tx (sv_core s1) = (res, c)" by (cases "Post dnow txi tx (sv_core s1)")
      show ?thesis
        using e c1 Pay Some pc same set_payment_core[of dnow r st "s1\<lparr>sv_core := c\<rparr>"] by (cases res) (simp_all add: sv.settle_core_def)
    qed
  qed
qed

lemma service_settle_again: "posted (service_key r) (sv_core s) \<Longrightarrow> bal c (sv_core (snd (settle dnow txi r s))) = bal c (sv_core s)"
proof (cases "\<exists>p price. sq_provider r = Some p \<and> sq_price r = Some price \<and> sq_state r = SCompleted \<and> sq_pay r = PayPending")
  case False
  then show ?thesis by (auto simp: settle_def split: option.split)
next
  case True
  then obtain p price where d: "sq_state r = SCompleted" "sq_pay r = PayPending" "sq_provider r = Some p" "sq_price r = Some price" by blast
  assume "posted (service_key r) (sv_core s)"
  then have "bal c (sv.settle_core dnow txi (r, p, price) (sv_core s)) = bal c (sv_core s)" by (intro sv.settlement_replay) simp
  then show ?thesis using service_settle_core[OF d, of dnow txi s] by auto
qed

lemma service_settle_ledger: "ledger_inv (sv_core s) \<Longrightarrow> ledger_inv (sv_core (snd (settle dnow txi r s)))"
proof (cases "\<exists>p price. sq_provider r = Some p \<and> sq_price r = Some price \<and> sq_state r = SCompleted \<and> sq_pay r = PayPending")
  case False
  then have "snd (settle dnow txi r s) = s" by (auto simp: settle_def split: option.split)
  then show "ledger_inv (sv_core s) \<Longrightarrow> ledger_inv (sv_core (snd (settle dnow txi r s)))" by simp
next
  case True
  then obtain p price where d: "sq_state r = SCompleted" "sq_pay r = PayPending" "sq_provider r = Some p" "sq_price r = Some price" by blast
  assume "ledger_inv (sv_core s)"
  from sv.settlement_inv[OF this, of dnow txi "(r, p, price)"]
  show ?thesis using service_settle_core[OF d, of dnow txi s] by auto
qed

lemma service_settle_Post:
  assumes "sq_state r = SCompleted" "sq_pay r = PayPending" "sq_provider r = Some p" "sq_price r = Some price"
    "settle_plan r p price (service_account r p (sv_core s)) = Pay st (Some tx)" "\<not> posted (service_key r) (sv_core s)"
    "st = (if sq_method r = Wallet then PayPaid else PayCash)" "\<forall>c. net c (Postings tx) = service_effect r p price c"
  shows "settle_outcome dnow r p price s (snd (settle dnow txi r s))"
proof -
  let ?c = "service_account r p (sv_core s)"
  obtain res c1 where P: "Post dnow txi tx ?c = (res, c1)" by (cases "Post dnow txi tx ?c")
  show ?thesis
  proof (cases res)
    case (Inl e)
    then have "c1 = ?c" using snd_Post_error[of dnow txi tx ?c e] P by simp
    then have "snd (settle dnow txi r s) = s\<lparr>sv_core := ?c\<rparr>"
      using assms(1-5) P Inl by (simp add: settle_def Let_def service_account_def[symmetric])
    then show ?thesis by (simp add: settle_outcome_def)
  next
    case (Inr i)
    let ?s1 = "s\<lparr>sv_core := c1\<rparr>"
    have q: "fst (Post dnow txi tx ?c) = Inr i" using P Inr by simp
    have S: "snd (settle dnow txi r s) = snd (setPaymentStatus dnow r st ?s1)"
      using assms(1-5) P Inr by (simp add: settle_def Let_def service_account_def[symmetric])
    note M = sv.settlement_pays[of "(r, p, price)" "sv_core s" st tx dnow txi i, unfolded fst_conv snd_conv, OF assms(5,6) q]
    have k: "sv.settle_core dnow txi (r, p, price) (sv_core s) = c1" using assms(5) P by (simp add: sv.settle_core_def)
    have "\<forall>c. bal c c1 = bal c (sv_core s) + service_effect r p price c" "posted (service_key r) c1"
      using M assms(8) unfolding k by simp_all
    then show ?thesis unfolding S settle_outcome_def set_payment_requests(1)
      using assms(7) by (intro disjI2 exI[of _ st]) simp
  qed
qed

lemma service_settle_outcome:
  assumes "sq_state r = SCompleted" "sq_pay r = PayPending" "sq_provider r = Some p" "sq_price r = Some price"
    "\<not> posted (service_key r) (sv_core s)" "0 \<le> sq_commission r" "sq_commission r \<le> price" "price \<le> 500000"
  shows "settle_outcome dnow r p price s (snd (settle dnow txi r s))"
proof -
  let ?c = "service_account r p (sv_core s)"
  let ?s1 = "s\<lparr>sv_core := ?c\<rparr>"
  note net = service_postings_net[OF assms(6-8), where p = p]
  show ?thesis
  proof (cases "sq_method r = Wallet")
    case wallet: True
    show ?thesis
    proof (cases "Balance (UserWalletCode (sq_customer r)) ?c")
      case (Inl e)
      then have "snd (settle dnow txi r s) = ?s1"
        using assms(1-4) wallet by (simp add: settle_def settle_plan_def Let_def service_account_def[symmetric])
      then show ?thesis by (simp add: settle_outcome_def)
    next
      case (Inr b)
      show ?thesis
      proof (cases "Minor b < price")
        case True
        then have S: "snd (settle dnow txi r s) = snd (setPaymentStatus dnow r PayFailed ?s1)"
          using assms(1-4) wallet Inr by (simp add: settle_def settle_plan_def Let_def service_account_def[symmetric])
        show ?thesis unfolding S settle_outcome_def set_payment_requests(1) by (intro disjI2 exI[of _ PayFailed]) simp
      next
        case False
        then show ?thesis using wallet Inr net(1)
          by (intro service_settle_Post[OF assms(1-4) _ assms(5), of PayPaid "service_tx ''service_fee'' r (wallet_postings r p price)"])
            (simp_all add: settle_plan_def service_tx_def)
      qed
    qed
  next
    case cash: False
    show ?thesis
    proof (cases "sq_commission r > 0")
      case True
      then show ?thesis using cash net(2)
        by (intro service_settle_Post[OF assms(1-4) _ assms(5), of PayCash "service_tx ''service_cash_commission'' r (cash_postings r p)"])
          (simp_all add: settle_plan_def service_tx_def)
    next
      case False
      then have z: "sq_commission r = 0" using assms(6) by simp
      then have S: "snd (settle dnow txi r s) = snd (setPaymentStatus dnow r PayCash ?s1)"
        using assms(1-4) cash by (simp add: settle_def settle_plan_def Let_def service_account_def[symmetric])
      show ?thesis unfolding S settle_outcome_def set_payment_requests(1)
        using cash z by (intro disjI2 exI[of _ PayCash]) (simp add: service_effect_def)
    qed
  qed
qed

section \<open>The end of a job\<close>

lemma step_tx_ledger:
  assumes "step_tx dnow user i to reason s = (Inr r', s')"
  shows "bal c (sv_core s') = bal c (sv_core s)" "posted k (sv_core s') = posted k (sv_core s)"
    "ledger_inv (sv_core s) \<Longrightarrow> ledger_inv (sv_core s')"
proof -
  have "\<exists>ob. sv_core s' = (sv_core s)\<lparr>outbox := ob\<rparr>"
    using assms by (auto simp: step_tx_def s_emit_def requestEvent_def upd_request_def Let_def split: option.splits sum.splits if_splits)
  then show "bal c (sv_core s') = bal c (sv_core s)" "posted k (sv_core s') = posted k (sv_core s)"
    "ledger_inv (sv_core s) \<Longrightarrow> ledger_inv (sv_core s')"
    by auto
qed

text \<open>The row of a job that its provider completes, before the settlement.\<close>

lemma completing_row:
  assumes inv: "services_inv s" and tx: "step_tx dnow user i SCompleted reason s = (Inr r, s1)"
  obtains x where "x \<in> set (svc_offers s)" "billed r x" "so_provider x = user" "so_price x \<le> 500000" "sq_id r = i" "sq_state r = SCompleted"
    "sq_pay r = PayPending" "sq_provider r = Some user" "sq_price r = Some (so_price x)" "r \<in> set (requests s1)"
    "\<And>q. q \<in> set (requests s1) \<Longrightarrow> sq_id q = i \<Longrightarrow> q = r"
proof -
  obtain q r1 where q: "find (\<lambda>r. sq_id r = i \<and> sq_provider r = Some user) (requests s) = Some q"
    and r1: "step_update dnow SCompleted q = Inr r1" "r = r1\<lparr>sq_updated := dnow\<rparr>"
    and t: "requests s1 = upd_where (\<lambda>x. sq_id x = i) (\<lambda>_. r) (requests s)"
    by (rule step_tx_Inr[OF tx])
  have qi: "sq_id q = i" "sq_provider q = Some user" using find_SomeD[OF q] by auto
  note row = find_row[OF inv q qi(1)]
  note R = replaced_rows(1)[OF inv q qi(1), of r, folded t]
  have I: "offers_ok (requests s) (svc_offers s)" using inv by (simp add: services_inv_def)
  have "sq_offer q \<noteq> None" using row(3) qi(2) by (auto simp: request_ok_def)
  then obtain j where "sq_offer q = Some j" by blast
  from offers_okD(5)[OF I row(1) this] obtain x where x: "x \<in> set (svc_offers s)" "billed q x" by blast
  have r: "sq_id r = i" "sq_state r = SCompleted" "sq_pay r = PayPending" "sq_provider r = sq_provider q" "sq_price r = sq_price q"
    "sq_commission r = sq_commission q"
    using r1 qi(1) by (auto simp: step_update_def)
  show ?thesis
  proof (rule that[OF x(1)])
    show "billed r x" using x(2) r qi(1) by (simp add: billed_def)
    show "so_provider x = user" "sq_price r = Some (so_price x)" using x(2) qi(2) r(5) by (simp_all add: billed_def)
    show "so_price x \<le> 500000" using offers_okD(3)[OF I x(1)] by blast
    show "q' = r" if "q' \<in> set (requests s1)" "sq_id q' = i" for q' using that R by auto
  qed (use r qi(2) R in simp_all)
qed

text \<open>The row of a job after its settlement, and what the settlement moved.\<close>

lemma settled_row:
  assumes "settle_outcome dnow r0 p price s s'" "r \<in> set (requests s')" "sq_id r = sq_id r0" "sq_pay r0 = PayPending"
    "\<forall>q \<in> set (requests s). sq_id q = sq_id r0 \<longrightarrow> q = r0"
  shows "(r = r0 \<and> (\<forall>c. bal c (sv_core s') = bal c (sv_core s))) \<or>
    (\<exists>st. r = r0\<lparr>sq_pay := st, sq_updated := dnow\<rparr> \<and>
      (st = PayFailed \<and> (\<forall>c. bal c (sv_core s') = bal c (sv_core s)) \<or>
         st = (if sq_method r0 = Wallet then PayPaid else PayCash) \<and>
           (\<forall>c. bal c (sv_core s') = bal c (sv_core s) + service_effect r0 p price c) \<and>
           (sq_method r0 = Wallet \<or> sq_commission r0 > 0 \<longrightarrow> posted (service_key r0) (sv_core s'))))"
  using assms(1) unfolding settle_outcome_def
proof (elim disjE exE conjE)
  assume "requests s' = requests s" and b: "\<forall>c. bal c (sv_core s') = bal c (sv_core s)"
  then have "r = r0" using assms(2,3,5) by simp
  with b show ?thesis by blast
next
  fix st assume R: "requests s' = upd_where (\<lambda>x. sq_id x = sq_id r0 \<and> sq_pay x = PayPending)
    (\<lambda>x. x\<lparr>sq_pay := st, sq_updated := dnow\<rparr>) (requests s)"
  have e: "r = r0\<lparr>sq_pay := st, sq_updated := dnow\<rparr>"
    using assms(2-5) unfolding R by (auto simp: set_upd_where)
  { assume "st = PayFailed" "\<forall>c. bal c (sv_core s') = bal c (sv_core s)"
    then show ?thesis using e by blast
  next
    assume "st = (if sq_method r0 = Wallet then PayPaid else PayCash)"
      "\<forall>c. bal c (sv_core s') = bal c (sv_core s) + service_effect r0 p price c"
      "sq_method r0 = Wallet \<or> sq_commission r0 > 0 \<longrightarrow> posted (service_key r0) (sv_core s')"
    then show ?thesis using e by blast
  }
qed

text \<open>
  C25. A job that its provider completes is paid once and divided exactly. Whatever happened before, the
  answer to the completion is the completed request; either its payment is still pending or has failed, and
  no balance has changed, or it is recorded as paid (wallet) or as cash, and then exactly this has happened:
  with the wallet the customer has paid the price of the accepted offer and the provider has received it
  less the commission; with cash, which the provider collected, the provider owes the commission; the
  platform has the commission, and no other account has changed. The books stay balanced in every case,
  and once posted, no settlement of the same request, whatever has happened since, moves money again.
\<close>
theorem service_done_paid_once:
  assumes "fresh_services s0" "services_step\<^sup>*\<^sup>* s0 s" "ledger_inv (sv_core s)"
    "\<not> posted (''service:'' @ i @ '':fee'') (sv_core s)" "Step dnow txi user i SCompleted reason s = (Inr v, s')"
  shows "let r = rv_request v in r \<in> set (requests s') \<and> sq_id r = i \<and> sq_state r = SCompleted \<and> ledger_inv (sv_core s') \<and>
    ((sq_pay r = PayPending \<or> sq_pay r = PayFailed) \<and> (\<forall>c. bal c (sv_core s') = bal c (sv_core s)) \<or>
     sq_pay r = (if sq_method r = Wallet then PayPaid else PayCash) \<and>
       (\<exists>x \<in> set (svc_offers s). so_provider x = user \<and> so_state x = Accepted \<and> so_request x = i \<and> sq_price r = Some (so_price x) \<and>
          (\<forall>c. bal c (sv_core s') = bal c (sv_core s) + service_effect r user (so_price x) c)) \<and>
       (sq_method r = Wallet \<or> sq_commission r > 0 \<longrightarrow> posted (service_key r) (sv_core s'))) \<and>
    (\<forall>t q dnow' txi' c. posted (service_key r) (sv_core t) \<and> sq_id q = i \<longrightarrow>
       bal c (sv_core (snd (settle dnow' txi' q t))) = bal c (sv_core t))"
proof -
  have inv: "services_inv s" by (rule services_reachable[OF assms(1,2)])
  obtain r0 s1 where tx: "step_tx dnow user i SCompleted reason s = (Inr r0, s1)" and bf: "begin_func (step_tx dnow user i SCompleted reason) s = (Inr r0, s1)"
    using assms(5) by (cases "step_tx dnow user i SCompleted reason" s rule: begin_func_cases) (auto simp: Step_def)
  obtain x where x: "x \<in> set (svc_offers s)" "billed r0 x" "so_provider x = user" "so_price x \<le> 500000" "sq_id r0 = i" "sq_state r0 = SCompleted"
    "sq_pay r0 = PayPending" "sq_provider r0 = Some user" "sq_price r0 = Some (so_price x)" "r0 \<in> set (requests s1)"
    and only: "\<And>q. q \<in> set (requests s1) \<Longrightarrow> sq_id q = i \<Longrightarrow> q = r0"
    by (rule completing_row[OF inv tx]) blast
  note L = step_tx_ledger[OF tx]
  have s': "s' = snd (settle dnow txi r0 s1)" and f: "find (\<lambda>x. sq_id x = i) (requests s') = Some (rv_request v)"
    using assms(5) bf by (auto simp: Step_def Let_def bare_def split: option.splits)
  define r where "r = rv_request v"
  have r: "r \<in> set (requests s')" "sq_id r = i" using find_SomeD[OF f] by (simp_all add: r_def)
  have com: "0 \<le> sq_commission r0" "sq_commission r0 \<le> so_price x" using x(2) by (simp_all add: billed_def)
  have key: "service_key q = ''service:'' @ i @ '':fee''" if "sq_id q = i" for q using that by (simp add: service_key_def)
  have np: "\<not> posted (service_key r0) (sv_core s1)" using assms(4) L(2) key[OF x(5)] by simp
  have O: "settle_outcome dnow r0 user (so_price x) s1 s'"
    unfolding s' by (rule service_settle_outcome[OF x(6-9) np com x(4)])
  have bill: "so_state x = Accepted" "so_request x = i" using x(2,5) by (simp_all add: billed_def)
  have rid: "sq_id r = sq_id r0" "\<forall>q \<in> set (requests s1). sq_id q = sq_id r0 \<longrightarrow> q = r0" using r(2) x(5) only by simp_all
  note settled_row[OF O r(1) rid(1) x(7) rid(2), unfolded L(1)]
  then have main: "sq_state r = SCompleted \<and>
    ((sq_pay r = PayPending \<or> sq_pay r = PayFailed) \<and> (\<forall>c. bal c (sv_core s') = bal c (sv_core s)) \<or>
     sq_pay r = (if sq_method r = Wallet then PayPaid else PayCash) \<and>
       (\<exists>x \<in> set (svc_offers s). so_provider x = user \<and> so_state x = Accepted \<and> so_request x = i \<and> sq_price r = Some (so_price x) \<and>
          (\<forall>c. bal c (sv_core s') = bal c (sv_core s) + service_effect r user (so_price x) c)) \<and>
       (sq_method r = Wallet \<or> sq_commission r > 0 \<longrightarrow> posted (service_key r) (sv_core s')))"
  proof (elim disjE exE conjE)
    assume "r = r0" "\<forall>c. bal c (sv_core s') = bal c (sv_core s)"
    then show ?thesis using x(6,7) by simp
  next
    fix st assume "r = r0\<lparr>sq_pay := st, sq_updated := dnow\<rparr>" "st = PayFailed" "\<forall>c. bal c (sv_core s') = bal c (sv_core s)"
    then show ?thesis using x(6) by simp
  next
    fix st assume e: "r = r0\<lparr>sq_pay := st, sq_updated := dnow\<rparr>" "st = (if sq_method r0 = Wallet then PayPaid else PayCash)"
      and b: "\<forall>c. bal c (sv_core s') = bal c (sv_core s) + service_effect r0 user (so_price x) c"
      and k: "sq_method r0 = Wallet \<or> sq_commission r0 > 0 \<longrightarrow> posted (service_key r0) (sv_core s')"
    have same: "service_effect r user (so_price x) = service_effect r0 user (so_price x)" "service_key r = service_key r0"
      by (auto simp: e service_effect_def service_key_def)
    have "sq_state r = SCompleted" "sq_pay r = (if sq_method r = Wallet then PayPaid else PayCash)" "sq_price r = Some (so_price x)"
      "sq_method r0 = sq_method r" "sq_commission r0 = sq_commission r"
      using e x(6,9) by simp_all
    then show ?thesis using x(1,3) bill b k same by (intro conjI disjI2 bexI[of _ x]) simp_all
  qed
  have "ledger_inv (sv_core s')" unfolding s' by (rule service_settle_ledger[OF L(3)[OF assms(3)]])
  moreover have "bal c (sv_core (snd (settle dnow' txi' q t))) = bal c (sv_core t)"
    if "posted (service_key r) (sv_core t)" "sq_id q = i" for t q dnow' txi' c
    using service_settle_again[of q t] that r(2) by (simp add: service_key_def)
  ultimately show ?thesis using main r unfolding Let_def r_def by blast
qed

section \<open>A run\<close>

definition demo_services :: services_db where
  "demo_services = \<lparr>sv_core = EnsureAccount ''krejt:commission'' ''platform'' None ''revenue'' ''EUR'' empty_core, sv_users = [],
     sv_categories = [\<lparr>sc_id = ''plumber'', sc_name_key = ''svc.plumber'', sc_commission_bp = 1000, sc_sort = 1, sc_active = True\<rparr>],
     providers = [(new_provider 10 ''m1'')\<lparr>pv_status := PvApproved, pv_categories := [''plumber'']\<rparr>],
     requests = [], svc_offers = [], svc_journal = []\<rparr>"

definition demo_job :: create_input where
  "demo_job = \<lparr>cqCategory = ''plumber'', cqTitle = ''Sink'', cqDescription = ''The sink is leaking'', cqAddress1 = ''Rr. B'',
     cqAddress = Some (mk_point 42 21), cqInstructions = [], cqPreferred = None, cqPhotos = [], cqMethod = ''cash''\<rparr>"

definition demo_asked :: services_db where
  "demo_asked = snd (Create 100 ''r1'' (\<lambda>k. k) ''u1'' ''k1'' demo_job demo_services)"

definition demo_offered :: services_db where
  "demo_offered = snd (MakeOffer 200 ''o1'' ''m1'' ''r1'' \<lparr>oiPrice = 2000, oiNote = [], oiCanStart = None\<rparr> demo_asked)"

definition demo_hired :: services_db where "demo_hired = snd (AcceptOffer 300 ''u1'' ''r1'' ''o1'' demo_offered)"

definition demo_working :: services_db where "demo_working = snd (Step 400 ''t0'' ''m1'' ''r1'' SInProgress [] demo_hired)"

definition demo_request :: request where "demo_request = new_request 100 ''r1'' (\<lambda>k. k) ''u1'' ''k1'' demo_job (mk_point 42 21) Cash"

definition demo_so :: svc_offer where
  "demo_so = \<lparr>so_id = ''o1'', so_request = ''r1'', so_provider = ''m1'', so_price = 2000, so_currency = ''EUR'', so_note = None,
     so_can_start = None, so_state = Offered, so_created = 200, so_responded = None\<rparr>"

lemma demo_request_facts:
  "sq_id demo_request = ''r1''" "sq_customer demo_request = ''u1''" "sq_state demo_request = SOpen" "sq_method demo_request = Cash"
  "sq_category demo_request = ''plumber''" "sq_currency demo_request = ''EUR''"
  by (simp_all add: demo_request_def new_request_def demo_job_def)

lemma demo_services_rows:
  "requests demo_services = []" "svc_offers demo_services = []" "svc_journal demo_services = []"
  "sv_core demo_services = EnsureAccount ''krejt:commission'' ''platform'' None ''revenue'' ''EUR'' empty_core"
  "map (\<lambda>c. (sc_id c, sc_commission_bp c, sc_active c)) (sv_categories demo_services) = [(''plumber'', 1000, True)]"
  "map (\<lambda>p. (pv_user p, pv_status p, pv_categories p)) (providers demo_services) = [(''m1'', PvApproved, [''plumber''])]"
  by (simp_all add: demo_services_def new_provider_def)

lemma demo_asked_rows:
  "requests demo_asked = [demo_request]" "svc_offers demo_asked = []" "sv_categories demo_asked = sv_categories demo_services"
  "providers demo_asked = providers demo_services"
proof -
  have t: "TrimSpace ''k1'' = ''k1''" "trim_clip ''Sink'' 80 \<noteq> []" "\<not> RuneCount (trim_clip ''The sink is leaking'' 1000) < 10"
    "trim_clip ''Rr. B'' 200 \<noteq> []" "parse_method ''cash'' = Some Cash" by code_simp+
  have v: "validCategories demo_services = [''plumber'']" by (simp add: validCategories_def demo_services_def)
  have ok: "validate_create ''k1'' demo_job demo_services = []"
    by (simp add: validate_create_def demo_job_def t v Let_def add_field_if_def Valid_def InKosovo_def mk_point_def)
  have f: "cqAddress demo_job = Some (mk_point 42 21)" "parse_method (cqMethod demo_job) = Some Cash"
    using t(5) by (simp_all add: demo_job_def)
  show "requests demo_asked = [demo_request]" "svc_offers demo_asked = []" "sv_categories demo_asked = sv_categories demo_services"
    "providers demo_asked = providers demo_services"
    by (simp_all add: demo_asked_def Create_def t(1) ok f Let_def demo_services_rows begin_func_def create_tx_def exists_where_def
        s_emit_def requestEvent_def demo_request_def[symmetric])
qed

lemma demo_offered_rows:
  "requests demo_offered = [demo_request]" "svc_offers demo_offered = [demo_so]" "sv_categories demo_offered = sv_categories demo_services"
  "providers demo_offered = providers demo_services"
proof -
  have a: "approved ''m1'' ''plumber'' demo_asked = None"
    unfolding approved_def demo_asked_rows by (simp add: demo_services_def new_provider_def)
  have n: "nullable (trim_clip [] 300) = None" by code_simp
  show "requests demo_offered = [demo_request]" "svc_offers demo_offered = [demo_so]" "sv_categories demo_offered = sv_categories demo_services"
    "providers demo_offered = providers demo_services"
    by (simp_all add: demo_offered_def MakeOffer_def demo_asked_rows demo_request_facts a n upsert_offer_def exists_where_def demo_so_def Let_def
        s_emit_def)
qed

lemma demo_hired_rows:
  "requests demo_hired = [demo_request\<lparr>sq_state := SBooked, sq_provider := Some ''m1'', sq_offer := Some ''o1'', sq_price := Some 2000,
     sq_commission := 200, sq_currency := ''EUR'', sq_pay := PayNone, sq_booked_at := Some 300, sq_updated := 300\<rparr>]"
  "svc_offers demo_hired = [demo_so\<lparr>so_state := Accepted, so_responded := Some 300\<rparr>]"
proof -
  have c: "Commission 2000 1000 = 200" by code_simp
  have f: "find (\<lambda>c. sc_id c = ''plumber'') (sv_categories demo_services) =
      Some \<lparr>sc_id = ''plumber'', sc_name_key = ''svc.plumber'', sc_commission_bp = 1000, sc_sort = 1, sc_active = True\<rparr>"
    by (simp add: demo_services_def)
  have o: "so_id demo_so = ''o1''" "so_request demo_so = ''r1''" "so_state demo_so = Offered" "so_price demo_so = 2000"
    "so_provider demo_so = ''m1''" "so_currency demo_so = ''EUR''" by (simp_all add: demo_so_def)
  show "requests demo_hired = [demo_request\<lparr>sq_state := SBooked, sq_provider := Some ''m1'', sq_offer := Some ''o1'', sq_price := Some 2000,
     sq_commission := 200, sq_currency := ''EUR'', sq_pay := PayNone, sq_booked_at := Some 300, sq_updated := 300\<rparr>]"
    "svc_offers demo_hired = [demo_so\<lparr>so_state := Accepted, so_responded := Some 300\<rparr>]"
    by (simp_all add: demo_hired_def AcceptOffer_def begin_func_def accept_tx_def demo_offered_rows demo_request_facts o f c Let_def
        exists_where_def answer_offers_def upd_where_def ProviderBusy_def)
qed

lemma demo_services_reach:
  "fresh_services demo_services" "services_step\<^sup>*\<^sup>* demo_services demo_hired" "services_step\<^sup>*\<^sup>* demo_services demo_working"
proof -
  show "fresh_services demo_services" by (simp add: fresh_services_def rates_ok_def demo_services_def)
  have "services_step demo_services demo_asked" "services_step demo_asked demo_offered" "services_step demo_offered demo_hired"
    and w: "services_step demo_hired demo_working"
    unfolding demo_asked_def demo_offered_def demo_hired_def demo_working_def by (rule services_step.intros)+
  then show h: "services_step\<^sup>*\<^sup>* demo_services demo_hired" by (meson rtranclp.rtrancl_into_rtrancl rtranclp.rtrancl_refl)
  show "services_step\<^sup>*\<^sup>* demo_services demo_working" by (rule rtranclp.rtrancl_into_rtrancl[OF h w])
qed

theorem services_protocol_witness:
  "map (\<lambda>r. (sq_state r, sq_price r, sq_commission r)) (requests demo_hired) = [(SBooked, Some 2000, 200)] \<and>
   lawful transitions SOpen (history ''r1'' (svc_journal demo_hired)) SBooked \<and>
   (\<exists>x \<in> set (svc_offers demo_hired). so_id x = ''o1'' \<and> so_state x = Accepted \<and> so_price x = 2000)"
proof -
  have L: "\<forall>r \<in> set (requests demo_hired). lawful transitions SOpen (history (sq_id r) (svc_journal demo_hired)) (sq_state r)"
    "\<forall>r \<in> set (requests demo_hired). \<forall>i. sq_offer r = Some i \<longrightarrow> (\<exists>x \<in> set (svc_offers demo_hired). so_id x = i \<and>
       so_state x = Accepted \<and> sq_price r = Some (so_price x))"
    using services_protocol[OF demo_services_reach(1,2)] by blast+
  show ?thesis using L unfolding demo_hired_rows(1) by (simp add: demo_request_facts)
qed

text \<open>The outbox plays no part in posting.\<close>

lemma outbox_commutes: "s\<lparr>outbox := ob, entries := es\<rparr> = (s :: core)\<lparr>entries := es, outbox := ob\<rparr>"
  "s\<lparr>outbox := ob, ltxs := ts\<rparr> = (s :: core)\<lparr>ltxs := ts, outbox := ob\<rparr>"
  by (cases s; simp)+

lemma insert_entries_outbox:
  "insert_entries dnow i cur ps (s\<lparr>outbox := ob\<rparr>) = map_prod id (\<lambda>s. s\<lparr>outbox := ob\<rparr>) (insert_entries dnow i cur ps s)"
  by (induction ps arbitrary: s) (simp_all add: outbox_commutes)

lemma fst_Post_outbox: "fst (Post dnow i tx (s\<lparr>outbox := ob\<rparr>)) = fst (Post dnow i tx s)"
proof -
  have "fst (post_body dnow i cur tx (s\<lparr>outbox := ob\<rparr>)) = fst (post_body dnow i cur tx s)" for cur
    using insert_entries_outbox[where dnow = dnow and i = i and cur = cur and ps = "Postings tx" and ob = ob]
    by (simp add: post_body_def Let_def outbox_commutes split: option.split prod.split sum.split)
  then show ?thesis by (simp add: Post_def Let_def split: option.split)
qed

text \<open>Only the end of a job moves money: the other calls of customers and providers leave the books alone.\<close>

definition same_books :: "core \<Rightarrow> core \<Rightarrow> bool" where
  "same_books c c' \<longleftrightarrow> (\<exists>ob. c' = c\<lparr>outbox := ob\<rparr>)"

lemma same_books_refl [simp]: "same_books c c" "same_books c (c\<lparr>outbox := ob\<rparr>)"
  by (auto simp: same_books_def intro: exI[of _ "outbox c"])

lemma same_books_trans: "same_books c c' \<Longrightarrow> same_books c' c'' \<Longrightarrow> same_books c c''"
  by (auto simp: same_books_def)

lemma emit_books [simp]:
  "same_books c (sv_core (s_emit dnow k i ev b s)) = same_books c (sv_core s)"
  "sv_core (requestEvent dnow i from to aty a meta s) = sv_core s" "sv_core (upd_request i g s) = sv_core s"
proof -
  have "same_books c (c'\<lparr>outbox := ob\<rparr>) = same_books c c'" for c' ob
    by (auto simp: same_books_def intro: exI[of _ "outbox c'"]) (metis core.surjective core.update_convs(4))
  then show "same_books c (sv_core (s_emit dnow k i ev b s)) = same_books c (sv_core s)" by (simp add: s_emit_def)
qed (simp_all add: requestEvent_def upd_request_def)

lemma tx_books:
  assumes "\<And>a s'. body s = (Inr a, s') \<Longrightarrow> same_books (sv_core s) (sv_core s')"
  shows "same_books (sv_core s) (sv_core (snd (begin_func body s)))"
  using assms by (cases body s rule: begin_func_cases) simp_all

lemma service_books:
  "same_books (sv_core s) (sv_core (snd (Create dnow i b user idem cinp s)))"
  "same_books (sv_core s) (sv_core (snd (AcceptOffer dnow user i offerID s)))"
  "same_books (sv_core s) (sv_core (snd (Cancel dnow user i reason s)))"
  "same_books (sv_core s) (sv_core (snd (MakeOffer dnow i user req oinp s)))"
  "to \<noteq> SCompleted \<Longrightarrow> same_books (sv_core s) (sv_core (snd (Step dnow txi user i to reason s)))"
proof -
  have "same_books (sv_core s) (sv_core (snd (begin_func (create_tx dnow r) s)))" for r
    by (rule tx_books) (auto simp: create_tx_def split: if_splits)
  then show "same_books (sv_core s) (sv_core (snd (Create dnow i b user idem cinp s)))"
    by (simp add: Create_def Let_def split: option.split)
  have "same_books (sv_core s) (sv_core (snd (begin_func (accept_tx dnow user i offerID) s)))"
    by (rule tx_books) (auto simp: accept_tx_def Let_def split: if_splits option.splits)
  then show "same_books (sv_core s) (sv_core (snd (AcceptOffer dnow user i offerID s)))"
    by (simp add: AcceptOffer_def split: prod.split sum.split)
  have "same_books (sv_core s) (sv_core (snd (begin_func (cancel_tx dnow user i reason) s)))"
    by (rule tx_books) (auto simp: cancel_tx_def Let_def split: if_splits option.splits)
  then show "same_books (sv_core s) (sv_core (snd (Cancel dnow user i reason s)))"
    by (simp add: Cancel_def split: prod.split sum.split)
  show "same_books (sv_core s) (sv_core (snd (MakeOffer dnow i user req oinp s)))"
    by (simp add: MakeOffer_def upsert_offer_def Let_def split: option.split)
  have "same_books (sv_core s) (sv_core (snd (begin_func (step_tx dnow user i to reason) s)))"
    by (rule tx_books) (auto simp: step_tx_def Let_def split: if_splits option.splits sum.splits)
  then show "to \<noteq> SCompleted \<Longrightarrow> same_books (sv_core s) (sv_core (snd (Step dnow txi user i to reason s)))"
    by (cases "begin_func (step_tx dnow user i to reason) s") (auto simp: Step_def split: sum.split)
qed

definition demo_service_tx :: transaction where
  "demo_service_tx = \<lparr>Kind = ''service_cash_commission'', Reference = ''service:r1'', IdempotencyKey = ''service:r1:fee'',
     TxCurrency = ''EUR'', Postings = [debit (providerWallet ''m1'') 200, credit ''krejt:commission'' 200]\<rparr>"

lemma demo_service_post:
  "fst (Post 500 ''t9'' demo_service_tx (EnsureAccount (providerWallet ''m1'') ''driver'' (Some ''m1'') ''liability'' ''EUR'' (sv_core demo_services))) = Inr ''t9''"
  "\<not> posted ''service:r1:fee'' (sv_core demo_services)" "bal (providerWallet ''m1'') (sv_core demo_services) = 0"
  "bal ''krejt:commission'' (sv_core demo_services) = 0" "providerWallet ''m1'' \<noteq> ''krejt:commission''"
  unfolding demo_services_rows by code_simp+

lemma service_tx_books: "step_tx dnow user i to reason s = (Inr r, s') \<Longrightarrow> same_books (sv_core s) (sv_core s')"
  by (auto simp: step_tx_def Let_def split: if_splits option.splits sum.splits)

lemma demo_core: "same_books (sv_core demo_services) (sv_core demo_working)"
proof -
  have s: "same_books (sv_core demo_services) (sv_core demo_asked)" "same_books (sv_core demo_asked) (sv_core demo_offered)"
    "same_books (sv_core demo_offered) (sv_core demo_hired)" "same_books (sv_core demo_hired) (sv_core demo_working)"
    unfolding demo_asked_def demo_offered_def demo_hired_def demo_working_def by (simp_all add: service_books)
  show ?thesis by (rule same_books_trans[OF same_books_trans[OF same_books_trans[OF s(1,2)] s(3)] s(4)])
qed

theorem service_done_paid_once_witness:
  "let s' = snd (Step 500 ''t9'' ''m1'' ''r1'' SCompleted [] demo_working) in map sq_pay (requests s') = [PayCash] \<and>
   bal (providerWallet ''m1'') (sv_core s') = - 200 \<and> bal ''krejt:commission'' (sv_core s') = 200"
proof -
  obtain ob where ob: "sv_core demo_working = (sv_core demo_services)\<lparr>outbox := ob\<rparr>" using demo_core by (auto simp: same_books_def)
  have w: "requests demo_working = [demo_request\<lparr>sq_state := SInProgress, sq_provider := Some ''m1'', sq_offer := Some ''o1'',
     sq_price := Some 2000, sq_commission := 200, sq_currency := ''EUR'', sq_pay := PayNone, sq_booked_at := Some 300,
     sq_started_at := Some 400, sq_updated := 400\<rparr>]" (is "_ = [?w]")
    by (simp add: demo_working_def Step_def begin_func_def step_tx_def demo_hired_rows demo_request_facts step_update_def
        CanTransition_def can_transition_def upd_where_def Let_def)
  let ?r = "?w\<lparr>sq_state := SCompleted, sq_completed_at := Some 500, sq_pay := PayPending, sq_updated := 500\<rparr>"
  define r where "r = ?w\<lparr>sq_state := SCompleted, sq_completed_at := Some 500, sq_pay := PayPending, sq_updated := 500\<rparr>"
  have f: "sq_id r = ''r1''" "sq_state r = SCompleted" "sq_pay r = PayPending" "sq_provider r = Some ''m1''" "sq_price r = Some 2000"
    "sq_method r = Cash" "sq_commission r = 200" "sq_currency r = ''EUR''" "sq_customer r = ''u1''"
    by (simp_all add: r_def demo_request_facts)
  obtain s1 where tx: "step_tx 500 ''m1'' ''r1'' SCompleted [] demo_working = (Inr r, s1)"
    by (simp add: step_tx_def w demo_request_facts step_update_def CanTransition_def can_transition_def Let_def r_def)
  have s1: "requests s1 = [r]"
    using tx by (auto simp: step_tx_def w demo_request_facts step_update_def CanTransition_def can_transition_def Let_def upd_where_def)
  have L: "bal c (sv_core demo_working) = bal c (sv_core demo_services)" "posted k (sv_core demo_working) = posted k (sv_core demo_services)"
    "ledger_inv (sv_core demo_working)" for c k
    by (simp_all add: ob demo_services_rows(4) EnsureAccount_inv ledger_inv_empty)
  have "same_books (sv_core demo_working) (sv_core s1)"
    using service_tx_books[OF tx] .
  then obtain ob1 where c1: "sv_core s1 = (sv_core demo_services)\<lparr>outbox := ob1\<rparr>" unfolding ob by (auto simp: same_books_def)
  have "service_tx ''service_cash_commission'' r (cash_postings r ''m1'') = demo_service_tx"
    by (simp add: service_tx_def cash_postings_def demo_service_tx_def f)
  then have q: "settle_plan r ''m1'' 2000 c = Pay PayCash (Some demo_service_tx)" for c by (simp add: settle_plan_def f)
  have a: "EnsureAccount a b x k cur (c\<lparr>outbox := o1\<rparr>) = (EnsureAccount a b x k cur c)\<lparr>outbox := o1\<rparr>" for a b x k cur and c :: core and o1
    by (simp add: EnsureAccount_def Let_def)
  obtain c2 where "Post 500 ''t9'' demo_service_tx (EnsureAccount (providerWallet ''m1'') ''driver'' (Some ''m1'') ''liability'' ''EUR'' (sv_core s1)) =
      (Inr ''t9'', c2)" using demo_service_post(1) unfolding c1 a by (metis fst_Post_outbox prod.collapse)
  then have "settle 500 ''t9'' r s1 = setPaymentStatus 500 r PayCash (s1\<lparr>sv_core := c2\<rparr>)"
    by (simp add: settle_def f q Let_def)
  then have R: "requests (snd (settle 500 ''t9'' r s1)) = [r\<lparr>sq_pay := PayCash, sq_updated := 500\<rparr>]"
    by (simp add: set_payment_requests(1) s1 f upd_where_def)
  define s' where "s' = snd (settle 500 ''t9'' r s1)"
  have S: "Step 500 ''t9'' ''m1'' ''r1'' SCompleted [] demo_working = (Inr (bare (r\<lparr>sq_pay := PayCash, sq_updated := 500\<rparr>)), s')"
    unfolding Step_def begin_func_def tx by (simp add: R f s'_def Let_def)
  note T = service_done_paid_once[OF demo_services_reach(1,3) L(3) _ S, unfolded bare_def request_view.simps Let_def]
  have p: "\<exists>x \<in> set (svc_offers demo_working). Some 2000 = Some (so_price x) \<and>
      (\<forall>c. bal c (sv_core s') = bal c (sv_core demo_services) + service_effect (r\<lparr>sq_pay := PayCash, sq_updated := 500\<rparr>) ''m1'' (so_price x) c)"
    using T demo_service_post(2) f L by (fastforce simp: L)
  then show ?thesis
    unfolding S Let_def using demo_service_post(3-5) R by (auto simp: s'_def service_effect_def f)
qed

section \<open>Observations\<close>

text \<open>
  An offer that was withdrawn, by its provider or because another one was accepted, is final: when the
  chosen provider gives the job back and the request is open again, the others cannot offer any more.
\<close>

lemma withdrawn_offer_is_final:
  assumes "0 < oiPrice inp" "oiPrice inp \<le> 500000" "find (\<lambda>r. sq_id r = req) (requests s) = Some r" "sq_state r = SOpen"
    "approved user (sq_category r) s = None" "find (\<lambda>x. so_request x = req \<and> so_provider x = user) (svc_offers s) = Some y"
    "so_state y = Withdrawn"
  shows "MakeOffer dnow i user req inp s = (Inl ErrAlreadyOffered, s)"
  using assms by (simp add: MakeOffer_def upsert_offer_def)

text \<open>An approved provider who applies again is approved for whatever categories the new application names.\<close>

lemma reapplication_stays_approved:
  assumes "find (\<lambda>p. pv_user p = user) (providers s) = Some q" "pv_status q = PvApproved" "Apply dnow user inp s = (Inr p, s')"
  shows "pv_status p = PvApproved \<and> pv_categories p = keep_valid (validCategories s) [] (apCategories inp)"
  using assms by (auto simp: Apply_def Let_def apply_row_def split: if_splits)

text \<open>Accepting an offer does not look at its provider again: a suspended one can still be booked.\<close>

lemma acceptance_ignores_providers: "fst (accept_tx dnow user i offerID (s\<lparr>providers := ps\<rparr>)) = fst (accept_tx dnow user i offerID s)"
  by (simp add: accept_tx_def Let_def split: option.split)

end
