(* ===== verification/Spec2Isabelle.thy ===== *)
theory Spec2Isabelle
  imports Prelude Httpx Money Ledger Geo Pricing Location Business Drivers RateLimits StateMachine
    Rides Dispatch RideSafety RideSettlement Payments Promos Outbox Deliveries Merchants Catalog
    Orders OrderDispatch OrderSafety OrderProtocol OrderMoney
    Parcels ParcelDispatch ParcelSafety ParcelProtocol ParcelMoney Settlements
    Auth Accounts Identity SignIn Payouts PayoutSafety
    Services ServiceSafety ServiceMoney
begin

text \<open>
  Verification of the backend of the Krejt super-app: a modular Go service (under
  \<open>src/backend/internal\<close>) over PostgreSQL and Redis, through which customers request rides, order
  food, send parcels and pay, drivers and couriers work, merchants sell, and the platform keeps the
  books. The development models the Go code of the modules, with the SQL statements they send and the
  constraints of the migrations those statements rely on.

  How the code is modelled. A module's tables, and its state in Redis or in memory, are a record; a
  table is a list of row records in the order of insertion. A handler is a function from its arguments
  and the state to an answer and the new state (type \<open>op\<close> of Prelude); \<open>Inl\<close> is the error
  answered, in the code's order of checks. \<open>pgx.BeginFunc\<close> is \<open>begin_func\<close>, which discards the
  changes of a body that returns an error. What the code takes from outside is an argument: \<open>gnow\<close>,
  the clock of the server; \<open>dnow\<close>, that of the database; identifiers and random bytes; the
  geographic search of Redis, the map provider, the payment provider, hash functions, the JWT library, the collation and search of
  PostgreSQL. Go's \<open>int64\<close> is \<open>int\<close> with the wrap-around written out (\<open>add64\<close>, \<open>mul64\<close>,
  \<open>quot\<close>); floating point is \<open>real\<close>; columns of type \<open>bigint\<close> hold what Go sends. Unique
  indexes and checks of the tables are branches of the statement that can violate them. Statements run
  one at a time: every handler reads the rows it changes with \<open>FOR UPDATE\<close> or relies on a unique index,
  and interleavings of whole handlers are what the step relations below describe.

  The theories and what they model:
    \<^item> Prelude: 64-bit integers, tables, transactions, Go's \<open>strings\<close>; Httpx: API errors
      (\<open>platform/httpx\<close>), events and the outbox table (\<open>platform/events\<close>).
    \<^item> Money, Geo, Pricing: \<open>domain/money\<close>, \<open>domain/geo\<close>, \<open>modules/pricing\<close>.
    \<^item> Ledger: \<open>modules/ledger\<close>. Its locale \<open>ledger_api\<close> is what every module that moves money
      relies on, interpreted on \<open>Post\<close>.
    \<^item> Location, Drivers, Business, RateLimits, Promos: the modules of the same names, and the velocity
      limit of \<open>modules/fraud\<close>.
    \<^item> StateMachine: transition tables, journals and offers, shared by rides, orders and parcels;
      Deliveries: the locale \<open>courier_protocol\<close>, a table of rows with states, couriers and a journal
      on which only three kinds of moves are made.
    \<^item> Rides, Dispatch, RideSafety, RideSettlement: \<open>modules/rides\<close> and \<open>modules/dispatch\<close>.
    \<^item> Merchants, Catalog: \<open>modules/merchants\<close> and \<open>modules/catalog\<close>, with the images of products of
      \<open>modules/media\<close>.
    \<^item> Orders, OrderDispatch, OrderSafety, OrderProtocol, OrderMoney: \<open>modules/orders\<close>.
    \<^item> Parcels, ParcelDispatch, ParcelSafety, ParcelProtocol, ParcelMoney: \<open>modules/parcels\<close>;
      Settlements: the locale \<open>settlement\<close>, interpreted on the settlements of orders, parcels and
      home services.
    \<^item> Services, ServiceSafety, ServiceMoney: \<open>modules/services\<close>, the jobs of home services, with the
      provider in the place of the courier of \<open>courier_protocol\<close>.
    \<^item> Auth: \<open>modules/auth\<close> and \<open>platform/principal\<close>; Accounts: \<open>modules/users\<close> and the blocking of
      \<open>modules/fraud\<close>; Identity, SignIn: their runs, with what the calls were asked to do as a
      sequence of events, and what holds of them.
    \<^item> Payouts, PayoutSafety: \<open>modules/payouts\<close>, and its runs beside the other modules.
    \<^item> Payments: \<open>modules/payments\<close> and the webhooks of \<open>platform/providers/payment\<close>; Outbox:
      \<open>workers/outbox\<close>.

  What is proved:
    \<^item> Ledger: the books balance after any sequence of calls, and a posting happens once per key. The
      settlements of rides, orders, parcels, jobs, top-ups and refunds rest on it: each moves its money exactly once and
      divides it exactly.
    \<^item> State machines: over all runs of all handlers and workers, in any order, the journal of a ride or
      an order is a walk in the transition table that ends in its state; a driver has one ride and a
      courier one order in hand; finished rows are final; one call takes at most one order one step along
      the table of transitions, and no order gets stuck; failed calls leave no trace; parcels change hands only against their codes.
    \<^item> Prices: a ride costs what was quoted, fares and discounts stay within their bounds, the checkout
      charges the catalogue's prices, the commission is rounded half up.
    \<^item> Merchants and catalogue: the invariant of the tables, opening hours read back as set, the two
      implementations of being open agree, the cache of menus cannot be noticed.
    \<^item> Identity: nobody signs in without a code sent to the number or twice with one, an access
      token opens what its user could do when it was handed out, for fifteen minutes of any run in which no call closes its session, a
      refresh token works once (but its reuse closes nothing, against the comment in the code) and a session that a call closes stays closed; the
      limit on attempts, on the other hand, does not work.
    \<^item> Payouts: a batch pays every wallet that reaches the minimum, once and completely; the clearing
      account holds exactly the payouts that were not returned; every item can be settled, once; a wrong
      character in an account number is noticed.
    \<^item> Home services: a booked request bears the provider and the price of the one offer accepted for it, a
      provider has one job in hand, and a completed job is either paid and divided exactly or moves nothing.
    \<^item> Limits: the velocity limit admits exactly its quota per window, coupons are counted, companies keep
      an owner and their limits, dispatch offers only to eligible drivers, the relay publishes in order,
      marks what it sends, sends nothing that is marked, and drains the outbox.

  Bounds. Amounts in the hypotheses are far above any real price and below the range of \<open>int64\<close>; the
  loops of the code over query results are structural recursions, and the draining of the outbox is a partial
  function, which is shown to return. Sums over tables are unbounded integers. The zone of the server is UTC where the month of a
  company begins, and a parameter where shops open. The cache of menus is that of one process, and is read and written in
  one step.

  Not modelled: the HTTP layer beyond its errors and the guards of endpoints; administration and statistics;
  notifications, chat, support, documents, object storage and legal texts; external services.
  Presentation (the driver card of a ride, image addresses), IP addresses and request identifiers in
  audit rows, tracing and logging are left out of the modelled handlers.
\<close>

end
